(* ===== verification/Prelude.thy ===== *)
theory Prelude
  imports Main "HOL-Library.Char_ord" "HOL-Library.List_Lexorder" "HOL-Library.Product_Lexorder"
    "HOL-Library.Sublist"
begin

text \<open>
  Shared vocabulary of the development.

  \<^item> Results: an operation that may raise returns \<open>'e + 'a\<close>, with \<open>Inl\<close> for the exception.
    An operation on a store returns the result and the store it leaves behind.
  \<^item> Transactions: \<open>write_tx\<close> is the context manager that commits on normal exit and rolls back
    when the body raises; the locale \<open>transactional\<close> is its contract.
  \<^item> Tables: a database table is the list of its rows in rowid order; \<open>fetch\<close>,
    \<open>update_where\<close> and \<open>rowcount\<close> are the three SQL statements the program issues, and the
    locale \<open>row_update\<close> is the contract of an UPDATE that leaves the primary key alone.
  \<^item> Text: the string methods of the Python standard library the program calls.  Characters
    are code points below 256.
\<close>

named_theorems table_simps
  \<open>facts on fetch, update_where and rowcount\<close>
named_theorems text_simps
  \<open>facts on the Python string methods\<close>

section \<open>Results and transactions\<close>

type_synonym ('e, 'a) result = "'e + 'a"
type_synonym ('st, 'e, 'a) action = "'st \<Rightarrow> ('e, 'a) result \<times> 'st"

definition write_tx :: "('st \<Rightarrow> ('e, 'a \<times> 'st) result) \<Rightarrow> ('st, 'e, 'a) action" where
  "write_tx body s = (case body s of Inl e \<Rightarrow> (Inl e, s) | Inr (a, s') \<Rightarrow> (Inr a, s'))"

lemma write_tx_Inl: "body s = Inl e \<Longrightarrow> write_tx body s = (Inl e, s)"
  by (simp add: write_tx_def)

lemma write_tx_Inr: "body s = Inr (a, s') \<Longrightarrow> write_tx body s = (Inr a, s')"
  by (simp add: write_tx_def)

lemma write_tx_cases:
  assumes "write_tx body s = (r, s')"
  obtains (rolled_back) e where "body s = Inl e" "r = Inl e" "s' = s"
    | (committed) a where "body s = Inr (a, s')" "r = Inr a"
  using assms by (auto simp: write_tx_def split: sum.splits)

lemma write_tx_Inr_iff: "write_tx body s = (Inr a, s') \<longleftrightarrow> body s = Inr (a, s')"
  by (auto simp: write_tx_def split: sum.splits)

lemma write_tx_Inl_iff: "write_tx body s = (Inl e, s') \<longleftrightarrow> body s = Inl e \<and> s' = s"
  by (auto simp: write_tx_def split: sum.splits)

text \<open>The contract of a transactional operation: an exception leaves the store as it was.\<close>

locale transactional =
  fixes run :: "('st, 'e, 'a) action"
  assumes rollback: "run s = (Inl e, s') \<Longrightarrow> s' = s"
begin

lemma changed_then_committed: "run s = (r, s') \<Longrightarrow> s' \<noteq> s \<Longrightarrow> \<exists>a. r = Inr a"
  using rollback by (cases r) auto

lemma preserves:
  assumes "\<And>s a s'. run s = (Inr a, s') \<Longrightarrow> P s \<Longrightarrow> P s'"
    and "run s = (r, s')" and "P s"
  shows "P s'"
proof (cases r)
  case (Inl e)
  with assms(2) have "s' = s" by (auto dest: rollback)
  with assms(3) show ?thesis by simp
next
  case (Inr a)
  with assms show ?thesis by blast
qed

end

interpretation write_tx: transactional "write_tx body" for body
  by unfold_locales (simp add: write_tx_Inl_iff)

section \<open>Tables\<close>

definition fetch :: "('r \<Rightarrow> 'k) \<Rightarrow> 'k \<Rightarrow> 'r list \<Rightarrow> 'r option" where
  "fetch key k rows = find (\<lambda>r. key r = k) rows"

definition update_where :: "('r \<Rightarrow> bool) \<Rightarrow> ('r \<Rightarrow> 'r) \<Rightarrow> 'r list \<Rightarrow> 'r list" where
  "update_where p f rows = map (\<lambda>r. if p r then f r else r) rows"

definition rowcount :: "('r \<Rightarrow> bool) \<Rightarrow> 'r list \<Rightarrow> nat" where
  "rowcount p rows = length (filter p rows)"

lemma fetch_Nil [simp]: "fetch key k [] = None"
  by (simp add: fetch_def)

lemma fetch_Cons [simp]: "fetch key k (r # rows) = (if key r = k then Some r else fetch key k rows)"
  by (simp add: fetch_def)

lemma fetch_SomeD: "fetch key k rows = Some r \<Longrightarrow> key r = k \<and> r \<in> set rows"
  by (induction rows) (auto split: if_splits)

lemma fetch_None_iff [table_simps]: "fetch key k rows = None \<longleftrightarrow> k \<notin> key ` set rows"
  by (induction rows) auto

lemma fetch_append:
  "fetch key k (xs @ ys) = (case fetch key k xs of None \<Rightarrow> fetch key k ys | Some r \<Rightarrow> Some r)"
  by (induction xs) auto

lemma fetch_eq_Some_iff:
  assumes "distinct (map key rows)"
  shows "fetch key k rows = Some r \<longleftrightarrow> r \<in> set rows \<and> key r = k"
  using assms by (induction rows) (auto simp: rev_image_eqI)

lemma fetch_unique:
  assumes "distinct (map key rows)" and "fetch key k rows = Some r" and "q \<in> set rows" and "key q = k"
  shows "q = r"
proof -
  have "fetch key k rows = Some q" using assms(3,4) by (simp only: fetch_eq_Some_iff [OF assms(1)])
  with assms(2) show ?thesis by simp
qed

lemma update_where_Nil [simp]: "update_where p f [] = []"
  by (simp add: update_where_def)

lemma update_where_Cons [simp]:
  "update_where p f (r # rows) = (if p r then f r else r) # update_where p f rows"
  by (simp add: update_where_def)

lemma length_update_where [simp]: "length (update_where p f rows) = length rows"
  by (simp add: update_where_def)

lemma set_update_where: "set (update_where p f rows) = (\<lambda>r. if p r then f r else r) ` set rows"
  by (simp add: update_where_def)

lemma update_where_cong:
  assumes "\<And>r. r \<in> set rows \<Longrightarrow> p r = q r" and "\<And>r. r \<in> set rows \<Longrightarrow> p r \<Longrightarrow> f r = g r"
  shows "update_where p f rows = update_where q g rows"
  using assms by (simp add: update_where_def)

lemma update_where_none: "(\<And>r. r \<in> set rows \<Longrightarrow> \<not> p r) \<Longrightarrow> update_where p f rows = rows"
  by (induction rows) auto

lemma rowcount_le_length: "rowcount p rows \<le> length rows"
  by (simp add: rowcount_def)

lemma rowcount_Nil [simp]: "rowcount p [] = 0"
  by (simp add: rowcount_def)

lemma rowcount_Cons [simp]: "rowcount p (r # rows) = (if p r then 1 else 0) + rowcount p rows"
  by (simp add: rowcount_def)

lemma rowcount_append [simp]: "rowcount p (xs @ ys) = rowcount p xs + rowcount p ys"
  by (simp add: rowcount_def)

lemma rowcount_mono: "(\<And>r. r \<in> set rows \<Longrightarrow> p r \<Longrightarrow> q r) \<Longrightarrow> rowcount p rows \<le> rowcount q rows"
  by (induction rows) (auto intro: le_SucI)

lemma rowcount_key_le_1: "distinct (map key rows) \<Longrightarrow> rowcount (\<lambda>r. key r = k \<and> p r) rows \<le> 1"
proof (induction rows)
  case (Cons r rows)
  show ?case
  proof (cases "key r = k")
    case True
    with Cons.prems have "rowcount (\<lambda>r. key r = k \<and> p r) rows = 0"
      by (auto simp: rowcount_def filter_empty_conv) (metis imageI)
    then show ?thesis by simp
  next
    case False
    with Cons show ?thesis by simp
  qed
qed simp

text \<open>An UPDATE statement whose SET clause does not touch the key column.\<close>

locale row_update =
  fixes key :: "'r \<Rightarrow> 'k" and upd :: "'r \<Rightarrow> 'r"
  assumes key_upd: "key (upd r) = key r"
begin

lemma map_key: "map key (update_where p upd rows) = map key rows"
  by (induction rows) (auto simp: key_upd)

lemma distinct_keys: "distinct (map key (update_where p upd rows)) \<longleftrightarrow> distinct (map key rows)"
  by (simp add: map_key)

lemma fetch_hit:
  "fetch key k (update_where (\<lambda>r. key r = k) upd rows) = map_option upd (fetch key k rows)"
  by (induction rows) (auto simp: key_upd)

lemma fetch_miss:
  "k' \<noteq> k \<Longrightarrow> fetch key k' (update_where (\<lambda>r. key r = k) upd rows) = fetch key k' rows"
  by (induction rows) (auto simp: key_upd)

lemma fetch_where:
  "fetch key k (update_where p upd rows)
     = map_option (\<lambda>r. if p r then upd r else r) (fetch key k rows)"
  by (induction rows) (auto simp: key_upd)

lemma fetch_guarded:
  assumes "distinct (map key rows)" and "fetch key k rows = Some r" and "p r"
  shows "fetch key k (update_where (\<lambda>r. key r = k \<and> p r) upd rows) = Some (upd r)"
  using assms fetch_SomeD [of key k rows r] by (simp add: fetch_where)

end

section \<open>Sequences issued by an AUTOINCREMENT column\<close>

lemma sorted_snoc_seq:
  "sorted (map f xs) \<Longrightarrow> (\<And>x. x \<in> set xs \<Longrightarrow> f x \<le> f y) \<Longrightarrow> sorted (map f (xs @ [y]))"
  by (simp add: sorted_append)

lemma strict_sorted_snoc:
  fixes f :: "'a \<Rightarrow> nat"
  assumes "sorted_wrt (<) (map f xs)" and "\<And>x. x \<in> set xs \<Longrightarrow> f x < f y"
  shows "sorted_wrt (<) (map f (xs @ [y]))"
  using assms by (simp add: sorted_wrt_append)

lemma take_filter_sorted_split:
  fixes f :: "'a \<Rightarrow> nat"
  assumes "sorted_wrt (<) (map f xs)" and "xs = ys @ [y] @ zs"
  shows "filter (\<lambda>x. f y < f x) xs = zs"
  using assms by (auto simp: sorted_wrt_append filter_empty_conv)

section \<open>Characters and strings\<close>

definition code :: "char \<Rightarrow> nat" where
  "code c = of_char c"

definition is_lower :: "char \<Rightarrow> bool" where
  "is_lower c \<longleftrightarrow> 97 \<le> code c \<and> code c \<le> 122"

definition is_upper :: "char \<Rightarrow> bool" where
  "is_upper c \<longleftrightarrow> 65 \<le> code c \<and> code c \<le> 90"

definition is_digit :: "char \<Rightarrow> bool" where
  "is_digit c \<longleftrightarrow> 48 \<le> code c \<and> code c \<le> 57"

definition is_hex :: "char \<Rightarrow> bool" where
  "is_hex c \<longleftrightarrow> is_digit c \<or> (97 \<le> code c \<and> code c \<le> 102)"

text \<open>\<open>str.isspace\<close> on the code points below 256.\<close>

definition is_space :: "char \<Rightarrow> bool" where
  "is_space c \<longleftrightarrow> (9 \<le> code c \<and> code c \<le> 13) \<or> (28 \<le> code c \<and> code c \<le> 32)
     \<or> code c = 133 \<or> code c = 160"

definition is_control :: "char \<Rightarrow> bool" where
  "is_control c \<longleftrightarrow> code c < 32"

definition lstrip :: "string \<Rightarrow> string" where
  "lstrip s = dropWhile is_space s"

definition rstrip :: "string \<Rightarrow> string" where
  "rstrip s = rev (dropWhile is_space (rev s))"

definition strip :: "string \<Rightarrow> string" where
  "strip s = rstrip (lstrip s)"

text \<open>
  \<open>str.lower\<close>: the letters A to Z, and the Latin-1 capitals 192 to 222 but for the
  multiplication sign 215.
\<close>

definition lower_char :: "char \<Rightarrow> char" where
  "lower_char c =
     (if is_upper c \<or> (192 \<le> code c \<and> code c \<le> 222 \<and> code c \<noteq> 215) then char_of (code c + 32) else c)"

definition lower :: "string \<Rightarrow> string" where
  "lower s = map lower_char s"

text \<open>\<open>str.partition\<close> at a one-character separator: head, whether it was found, tail.\<close>

fun partition_at :: "char \<Rightarrow> string \<Rightarrow> string \<times> bool \<times> string" where
  "partition_at d [] = ([], False, [])"
| "partition_at d (c # cs) =
     (if c = d then ([], True, cs)
      else (case partition_at d cs of (h, found, t) \<Rightarrow> (c # h, found, t)))"

lemma partition_at_no_sep: "d \<notin> set s \<Longrightarrow> partition_at d s = (s, False, [])"
  by (induction s) auto

lemma partition_at_append: "d \<notin> set h \<Longrightarrow> partition_at d (h @ d # t) = (h, True, t)"
  by (induction h) auto

lemma partition_at_TrueD:
  "partition_at d s = (h, True, t) \<Longrightarrow> s = h @ d # t \<and> d \<notin> set h"
  by (induction s arbitrary: h) (auto split: if_splits prod.splits)

text \<open>\<open>list(dict.fromkeys(xs))\<close>: the first occurrence of each element, in order.\<close>

fun fromkeys_aux :: "'a list \<Rightarrow> 'a list \<Rightarrow> 'a list" where
  "fromkeys_aux seen [] = []"
| "fromkeys_aux seen (x # xs) =
     (if x \<in> set seen then fromkeys_aux seen xs else x # fromkeys_aux (x # seen) xs)"

definition fromkeys :: "'a list \<Rightarrow> 'a list" where
  "fromkeys xs = fromkeys_aux [] xs"

lemma set_fromkeys_aux: "set (fromkeys_aux seen xs) = set xs - set seen"
  by (induction seen xs rule: fromkeys_aux.induct) auto

lemma distinct_fromkeys_aux: "distinct (fromkeys_aux seen xs)"
  by (induction seen xs rule: fromkeys_aux.induct) (auto simp: set_fromkeys_aux)

lemma set_fromkeys [simp]: "set (fromkeys xs) = set xs"
  by (simp add: fromkeys_def set_fromkeys_aux)

lemma distinct_fromkeys [simp]: "distinct (fromkeys xs)"
  by (simp add: fromkeys_def distinct_fromkeys_aux)

lemma fromkeys_aux_id: "distinct xs \<Longrightarrow> set xs \<inter> set seen = {} \<Longrightarrow> fromkeys_aux seen xs = xs"
  by (induction seen xs rule: fromkeys_aux.induct) auto

lemma fromkeys_id: "distinct xs \<Longrightarrow> fromkeys xs = xs"
  by (simp add: fromkeys_def fromkeys_aux_id)

text \<open>\<open>sep.join(parts)\<close>.\<close>

fun join :: "string \<Rightarrow> string list \<Rightarrow> string" where
  "join sep [] = []"
| "join sep [x] = x"
| "join sep (x # y # ys) = x @ sep @ join sep (y # ys)"

section \<open>Decimal numerals\<close>

definition digit_char :: "nat \<Rightarrow> char" where
  "digit_char d = char_of (48 + d)"

fun show_nat :: "nat \<Rightarrow> string" where
  "show_nat n = (if n < 10 then [digit_char n] else show_nat (n div 10) @ [digit_char (n mod 10)])"

declare show_nat.simps [simp del]

definition show_int :: "int \<Rightarrow> string" where
  "show_int i = (if i < 0 then CHR ''-'' # show_nat (nat (- i)) else show_nat (nat i))"

lemma code_digit_char: "d < 10 \<Longrightarrow> code (digit_char d) = 48 + d"
  by (simp add: code_def digit_char_def)

lemma code_inject: "code c = code d \<longleftrightarrow> c = d"
  by (metis code_def char_of_char)

lemma code_less_iff: "code c < code d \<longleftrightarrow> c < d"
  by (simp add: code_def less_char_def)

end
