(* ===== verification/Py_Values.thy ===== *)
theory Py_Values
  imports Prelude
begin

text \<open>
  The dynamically typed Python values that cross the controller's persistence boundary, and the
  canonical JSON text \<open>json.dumps(value, sort_keys=True, separators=(",", ":"),
  ensure_ascii=True, allow_nan=False)\<close> of them.  A finite float is a mantissa and a binary
  exponent; the decimal text Python prints for it is the parameter \<open>fr\<close> of the encoder.
\<close>

datatype pyfloat = Finite int int | Infinite | NaN

datatype pykey = KStr string | KOther

datatype pyval =
    PNone
  | PBool bool
  | PInt int
  | PFloat pyfloat
  | PStr string
  | PDict "(pykey \<times> pyval) list"
  | PList "pyval list"
  | PTuple "pyval list"
  | POther

section \<open>Canonical JSON\<close>

definition hex_digit :: "nat \<Rightarrow> char" where
  "hex_digit d = (if d < 10 then char_of (48 + d) else char_of (87 + d))"

definition json_escape :: "char \<Rightarrow> string" where
  "json_escape c =
     (if c = CHR 0x22 then [CHR 0x5C, CHR 0x22]
      else if c = CHR 0x5C then [CHR 0x5C, CHR 0x5C]
      else if code c = 10 then [CHR 0x5C, CHR ''n'']
      else if code c = 13 then [CHR 0x5C, CHR ''r'']
      else if code c = 9 then [CHR 0x5C, CHR ''t'']
      else if code c = 12 then [CHR 0x5C, CHR ''f'']
      else if code c = 8 then [CHR 0x5C, CHR ''b'']
      else if code c < 32 \<or> 126 < code c
        then [CHR 0x5C, CHR ''u'', CHR ''0'', CHR ''0'', hex_digit (code c div 16), hex_digit (code c mod 16)]
      else [c])"

definition json_string :: "string \<Rightarrow> string" where
  "json_string s = [CHR 0x22] @ concat (map json_escape s) @ [CHR 0x22]"

text \<open>
  \<open>sort_keys\<close> orders the items of an object by key.  \<open>None\<close> stands for the TypeError or
  ValueError that \<open>json.dumps\<close> raises on a value it cannot encode.  The JSON text of a key that
  is not a string is not modelled, as the callers reject such keys first.
\<close>

fun key_text :: "pykey \<Rightarrow> string" where
  "key_text (KStr s) = s"
| "key_text KOther = []"

fun dumps :: "(int \<Rightarrow> int \<Rightarrow> string) \<Rightarrow> pyval \<Rightarrow> string option"
  and dump_items :: "(int \<Rightarrow> int \<Rightarrow> string) \<Rightarrow> (pykey \<times> pyval) list \<Rightarrow> (string \<times> string) list option"
  and dump_list :: "(int \<Rightarrow> int \<Rightarrow> string) \<Rightarrow> pyval list \<Rightarrow> string list option"
where
  "dumps fr PNone = Some ''null''"
| "dumps fr (PBool b) = Some (if b then ''true'' else ''false'')"
| "dumps fr (PInt i) = Some (show_int i)"
| "dumps fr (PFloat (Finite m e)) = Some (fr m e)"
| "dumps fr (PFloat Infinite) = None"
| "dumps fr (PFloat NaN) = None"
| "dumps fr (PStr s) = Some (json_string s)"
| "dumps fr (PDict kvs) =
     (case dump_items fr kvs of
        None \<Rightarrow> None
      | Some items \<Rightarrow>
          Some (''{'' @ join '','' (map (\<lambda>(k, v). json_string k @ '':'' @ v) (sort_key fst items)) @ ''}''))"
| "dumps fr (PList xs) =
     (case dump_list fr xs of None \<Rightarrow> None | Some ts \<Rightarrow> Some (''['' @ join '','' ts @ '']''))"
| "dumps fr (PTuple xs) =
     (case dump_list fr xs of None \<Rightarrow> None | Some ts \<Rightarrow> Some (''['' @ join '','' ts @ '']''))"
| "dumps fr POther = None"
| "dump_items fr [] = Some []"
| "dump_items fr ((KStr k, v) # kvs) =
     (case dumps fr v of
        None \<Rightarrow> None
      | Some t \<Rightarrow> (case dump_items fr kvs of None \<Rightarrow> None | Some ts \<Rightarrow> Some ((k, t) # ts)))"
| "dump_items fr ((KOther, v) # kvs) = None"
| "dump_list fr [] = Some []"
| "dump_list fr (v # vs) =
     (case dumps fr v of
        None \<Rightarrow> None
      | Some t \<Rightarrow> (case dump_list fr vs of None \<Rightarrow> None | Some ts \<Rightarrow> Some (t # ts)))"

section \<open>Plain JSON values\<close>

text \<open>The values \<open>dumps\<close> accepts: string keys, finite floats, no foreign objects.\<close>

fun plain_json :: "pyval \<Rightarrow> bool"
  and plain_items :: "(pykey \<times> pyval) list \<Rightarrow> bool"
  and plain_list :: "pyval list \<Rightarrow> bool"
where
  "plain_json (PFloat f) \<longleftrightarrow> (case f of Finite m e \<Rightarrow> True | _ \<Rightarrow> False)"
| "plain_json (PDict kvs) \<longleftrightarrow> plain_items kvs"
| "plain_json (PList xs) \<longleftrightarrow> plain_list xs"
| "plain_json (PTuple xs) \<longleftrightarrow> plain_list xs"
| "plain_json POther \<longleftrightarrow> False"
| "plain_json PNone \<longleftrightarrow> True"
| "plain_json (PBool b) \<longleftrightarrow> True"
| "plain_json (PInt i) \<longleftrightarrow> True"
| "plain_json (PStr s) \<longleftrightarrow> True"
| "plain_items [] \<longleftrightarrow> True"
| "plain_items (kv # kvs) \<longleftrightarrow> (\<exists>s. fst kv = KStr s) \<and> plain_json (snd kv) \<and> plain_items kvs"
| "plain_list [] \<longleftrightarrow> True"
| "plain_list (v # vs) \<longleftrightarrow> plain_json v \<and> plain_list vs"

lemma dumps_total:
  "plain_json v \<Longrightarrow> \<exists>t. dumps fr v = Some t"
  "plain_items kvs \<Longrightarrow> \<exists>ts. dump_items fr kvs = Some ts"
  "plain_list vs \<Longrightarrow> \<exists>us. dump_list fr vs = Some us"
proof (induction v and kvs and vs rule: plain_json_plain_items_plain_list.induct)
  case (11 kv kvs)
  then obtain k t ts where "fst kv = KStr k" "dumps fr (snd kv) = Some t" "dump_items fr kvs = Some ts"
    by auto
  then show ?case by (cases kv) auto
qed (auto split: pyfloat.splits)

end
