(* ===== verification/Python_Regex.thy ===== *)
theory Python_Regex
  imports Prelude
begin

text \<open>
  The part of Python's \<open>re\<close> module the program uses: a backtracking matcher that lists the ends
  of all matches in the order the engine tries them, so that the first one is the match \<open>re\<close>
  reports, and the left-to-right substitution \<open>Pattern.sub\<close>.

  A position is the text already read, reversed, and the text still to read.
\<close>

type_synonym pos = "string \<times> string"

datatype rx =
    Eps
  | Chr "char \<Rightarrow> bool"
  | Seq rx rx
  | Alt rx rx
  | Star rx
  | WordB

text \<open>\<open>\w\<close> on the code points below 256.\<close>

definition is_word :: "char \<Rightarrow> bool" where
  "is_word c \<longleftrightarrow> is_lower c \<or> is_upper c \<or> is_digit c \<or> c = CHR ''_''
     \<or> code c \<in> {170, 178, 179, 181, 185, 186, 188, 189, 190}
     \<or> (192 \<le> code c \<and> code c \<noteq> 215 \<and> code c \<noteq> 247)"

definition word_boundary :: "pos \<Rightarrow> bool" where
  "word_boundary p \<longleftrightarrow>
     (case fst p of [] \<Rightarrow> False | c # _ \<Rightarrow> is_word c) \<noteq> (case snd p of [] \<Rightarrow> False | c # _ \<Rightarrow> is_word c)"

fun star_ends :: "nat \<Rightarrow> (pos \<Rightarrow> pos list) \<Rightarrow> pos \<Rightarrow> pos list" where
  "star_ends 0 f p = [p]"
| "star_ends (Suc n) f p =
     concat (map (\<lambda>q. if length (snd q) < length (snd p) then star_ends n f q else []) (f p)) @ [p]"

primrec ends :: "rx \<Rightarrow> pos \<Rightarrow> pos list" where
  "ends Eps p = [p]"
| "ends (Chr P) p =
     (case snd p of [] \<Rightarrow> [] | c # cs \<Rightarrow> if P c then [(c # fst p, cs)] else [])"
| "ends (Seq r t) p = concat (map (ends t) (ends r p))"
| "ends (Alt r t) p = ends r p @ ends t p"
| "ends (Star r) p = star_ends (length (snd p)) (ends r) p"
| "ends WordB p = (if word_boundary p then [p] else [])"

definition Plus :: "rx \<Rightarrow> rx" where
  "Plus r = Seq r (Star r)"

definition Opt :: "rx \<Rightarrow> rx" where
  "Opt r = Alt r Eps"

fun lit :: "string \<Rightarrow> rx" where
  "lit [] = Eps"
| "lit (c # cs) = Seq (Chr (\<lambda>x. x = c)) (lit cs)"

text \<open>A literal, and a choice of literals, under the IGNORECASE flag.\<close>

fun ilit :: "string \<Rightarrow> rx" where
  "ilit [] = Eps"
| "ilit (c # cs) = Seq (Chr (\<lambda>x. lower_char x = c)) (ilit cs)"

fun alts :: "rx list \<Rightarrow> rx" where
  "alts [] = Chr (\<lambda>_. False)"
| "alts [r] = r"
| "alts (r # rs) = Alt r (alts rs)"

text \<open>\<open>Pattern.search(text) is not None\<close>.\<close>

fun search_from :: "rx \<Rightarrow> string \<Rightarrow> string \<Rightarrow> bool" where
  "search_from r read [] = (ends r (read, []) \<noteq> [])"
| "search_from r read (c # cs) = (ends r (read, c # cs) \<noteq> [] \<or> search_from r (c # read) cs)"

definition re_search :: "rx \<Rightarrow> string \<Rightarrow> bool" where
  "re_search r s = search_from r [] s"

text \<open>
  \<open>Pattern.sub\<close>: at each position the match function gives the replacement text and the end of
  the match, or None.  All patterns of the program consume at least one character.
\<close>

fun sub_from :: "nat \<Rightarrow> (pos \<Rightarrow> (string \<times> pos) option) \<Rightarrow> pos \<Rightarrow> string" where
  "sub_from 0 m p = []"
| "sub_from (Suc n) m p =
     (case snd p of
        [] \<Rightarrow> []
      | c # cs \<Rightarrow>
          (case m p of
             Some (out, q) \<Rightarrow>
               (if length (snd q) < length (snd p) then out @ sub_from n m q
                else c # sub_from n m (c # fst p, cs))
           | None \<Rightarrow> c # sub_from n m (c # fst p, cs)))"

definition re_sub :: "(pos \<Rightarrow> (string \<times> pos) option) \<Rightarrow> string \<Rightarrow> string" where
  "re_sub m s = sub_from (length s) m ([], s)"

text \<open>
  A match of \<open>Seq g r\<close> whose leading group \<open>g\<close> is captured: the group's text and the end.
\<close>

definition captured :: "pos \<Rightarrow> pos \<Rightarrow> string" where
  "captured p q = take (length (snd p) - length (snd q)) (snd p)"

definition lead_group_match :: "rx \<Rightarrow> rx \<Rightarrow> pos \<Rightarrow> (string \<times> pos) option" where
  "lead_group_match g r p =
     (case concat (map (\<lambda>q. map (\<lambda>e. (captured p q, e)) (ends r q)) (ends g p)) of
        [] \<Rightarrow> None
      | m # _ \<Rightarrow> Some m)"

section \<open>The matcher only moves forward over the text\<close>

definition advances :: "pos \<Rightarrow> pos \<Rightarrow> bool" where
  "advances p q \<longleftrightarrow> (\<exists>w. snd p = w @ snd q \<and> fst q = rev w @ fst p)"

lemma advances_refl [simp]: "advances p p"
  by (simp add: advances_def)

lemma advances_trans: "advances p q \<Longrightarrow> advances q r \<Longrightarrow> advances p r"
  by (auto simp: advances_def)

lemma star_ends_advances:
  assumes "\<And>p q. q \<in> set (f p) \<Longrightarrow> advances p q"
  shows "q \<in> set (star_ends n f p) \<Longrightarrow> advances p q"
proof (induction n arbitrary: p)
  case (Suc n)
  from Suc.prems consider "q = p" | q' where "q' \<in> set (f p)" "q \<in> set (star_ends n f q')"
    by (auto split: if_splits)
  then show ?case using assms Suc.IH advances_trans by cases (simp, blast)
qed simp

lemma ends_advances: "q \<in> set (ends r p) \<Longrightarrow> advances p q"
proof (induction r arbitrary: p q)
  case (Chr P)
  then show ?case
    by (auto simp: advances_def split: list.splits if_splits)
next
  case (Seq r t)
  from Seq.prems obtain q' where "q' \<in> set (ends r p)" "q \<in> set (ends t q')" by auto
  with Seq.IH show ?case using advances_trans by blast
next
  case (Star r)
  then show ?case using star_ends_advances [of "ends r"] by simp
qed (auto split: if_splits)

lemma sub_from_no_match:
  "(\<And>p. m p = None) \<Longrightarrow> length (snd p) \<le> n \<Longrightarrow> sub_from n m p = snd p"
  by (induction n arbitrary: p) (auto split: list.splits)

lemma re_sub_no_match: "(\<And>p. m p = None) \<Longrightarrow> re_sub m s = s"
  by (simp add: re_sub_def sub_from_no_match)

end
