(* ===== verification/Sanitization.thy ===== *)
theory Sanitization
  imports Py_Values Python_Regex
begin

text \<open>
  \<open>toolkit/controller/sanitization.py\<close>: every message, event payload and result is bounded and
  redacted before it is persisted.  \<open>sanitize_message\<close> is the three regular expression
  substitutions, \<open>sanitize_value\<close> the recursive walk, \<open>sanitize_object\<close> the entry point with the
  size limit.  The theorems say what a persisted payload can contain: sensitive keys carry only
  the redaction mark at every depth, nesting and collection sizes are bounded, every number is
  finite and the encoded size is within the limit.
\<close>

definition MAX_EVENT_PAYLOAD_BYTES :: nat where
  "MAX_EVENT_PAYLOAD_BYTES = 32 * 1024"

definition MAX_RESULT_BYTES :: nat where
  "MAX_RESULT_BYTES = 64 * 1024"

definition MAX_COLLECTION_ITEMS :: nat where
  "MAX_COLLECTION_ITEMS = 256"

definition MAX_VALUE_DEPTH :: nat where
  "MAX_VALUE_DEPTH = 8"

definition MAX_VALUE_STRING_LENGTH :: nat where
  "MAX_VALUE_STRING_LENGTH = 4000"

lemmas limit_defs = MAX_EVENT_PAYLOAD_BYTES_def MAX_RESULT_BYTES_def MAX_COLLECTION_ITEMS_def
  MAX_VALUE_DEPTH_def MAX_VALUE_STRING_LENGTH_def

section \<open>The patterns\<close>

definition dash_opt :: rx where
  "dash_opt = Opt (Chr (\<lambda>c. c = CHR ''_'' \<or> c = CHR ''-''))"

definition sensitive_words :: rx where
  "sensitive_words = alts
     [ilit ''password'', ilit ''passwd'', ilit ''pwd'', ilit ''token'', ilit ''secret'',
      ilit ''authorization'', Seq (ilit ''auth'') (Seq dash_opt (ilit ''key'')),
      Seq (ilit ''api'') (Seq dash_opt (ilit ''key'')),
      Seq (ilit ''private'') (Seq dash_opt (ilit ''key'')),
      ilit ''credential'', ilit ''cookie'', ilit ''passphrase'', ilit ''passkey'']"

definition sensitive_key :: "string \<Rightarrow> bool" where
  "sensitive_key k = re_search sensitive_words k"

definition is_separator :: "char \<Rightarrow> bool" where
  "is_separator c \<longleftrightarrow> is_space c \<or> c = CHR '','' \<or> c = CHR '';''"

definition colon_or_equals :: rx where
  "colon_or_equals = Seq (Star (Chr is_space))
     (Seq (Chr (\<lambda>c. c = CHR '':'' \<or> c = CHR ''='')) (Star (Chr is_space)))"

definition authorization_rx :: rx where
  "authorization_rx = Seq WordB (Seq (ilit ''authorization'') (Seq colon_or_equals
     (Seq (ilit ''bearer'') (Seq (Plus (Chr is_space)) (Plus (Chr (\<lambda>c. \<not> is_separator c)))))))"

definition url_scheme_rx :: rx where
  "url_scheme_rx = Seq WordB (Seq (Chr (\<lambda>c. is_lower (lower_char c)))
     (Seq (Star (Chr (\<lambda>c. is_lower (lower_char c) \<or> is_digit c \<or> c \<in> {CHR ''+'', CHR ''.'', CHR ''-''})))
       (lit ''://'')))"

definition url_userinfo_rx :: rx where
  "url_userinfo_rx = Seq (Plus (Chr (\<lambda>c. c \<noteq> CHR ''/'' \<and> \<not> is_space c \<and> c \<noteq> CHR ''@''))) (lit ''@'')"

definition key_chars :: rx where
  "key_chars = Star (Chr (\<lambda>c. is_lower (lower_char c) \<or> is_digit c \<or> c \<in> {CHR ''_'', CHR ''.'', CHR ''-''}))"

definition assignment_key_rx :: rx where
  "assignment_key_rx = Seq WordB (Seq key_chars (Seq (alts
     [ilit ''password'', ilit ''passwd'', ilit ''pwd'', ilit ''token'', ilit ''secret'',
      Seq (ilit ''auth'') (Seq dash_opt (ilit ''key'')),
      Seq (ilit ''api'') (Seq dash_opt (ilit ''key'')),
      Seq (ilit ''private'') (Seq dash_opt (ilit ''key'')),
      ilit ''credential'', ilit ''cookie'', ilit ''passphrase'', ilit ''passkey'']) key_chars))"

definition quoted_rx :: "char \<Rightarrow> rx" where
  "quoted_rx q = Seq (Chr (\<lambda>c. c = q)) (Seq (Star (Chr (\<lambda>c. c \<noteq> q))) (Chr (\<lambda>c. c = q)))"

definition assignment_value_rx :: rx where
  "assignment_value_rx = Seq colon_or_equals
     (Alt (quoted_rx (CHR 0x22)) (Alt (quoted_rx (CHR 0x27)) (Plus (Chr (\<lambda>c. \<not> is_separator c)))))"

section \<open>Messages\<close>

definition authorization_match :: "pos \<Rightarrow> (string \<times> pos) option" where
  "authorization_match p =
     (case ends authorization_rx p of [] \<Rightarrow> None | q # _ \<Rightarrow> Some (''Authorization=[REDACTED]'', q))"

definition url_match :: "pos \<Rightarrow> (string \<times> pos) option" where
  "url_match p =
     map_option (\<lambda>(scheme, q). (scheme @ ''[REDACTED]@'', q)) (lead_group_match url_scheme_rx url_userinfo_rx p)"

definition assignment_match :: "pos \<Rightarrow> (string \<times> pos) option" where
  "assignment_match p =
     map_option (\<lambda>(key, q). (key @ ''=[REDACTED]'', q)) (lead_group_match assignment_key_rx assignment_value_rx p)"

definition sanitize_message :: "string \<Rightarrow> string" where
  "sanitize_message message =
     re_sub assignment_match (re_sub url_match (re_sub authorization_match message))"

section \<open>Values\<close>

datatype sanitization_error =
    NestedTooDeeply
  | NonFiniteNumber
  | TooManyFields
  | KeysMustBeStrings
  | TooManyItems
  | UnsupportedValue
  | MustBeObject
  | MustContainJson
  | ExceedsSizeLimit

definition redacted :: pyval where
  "redacted = PStr ''[REDACTED]''"

fun sanitize_value :: "pyval \<Rightarrow> string \<Rightarrow> nat \<Rightarrow> sanitization_error + pyval"
  and sanitize_fields :: "(pykey \<times> pyval) list \<Rightarrow> nat \<Rightarrow> sanitization_error + (pykey \<times> pyval) list"
  and sanitize_items :: "pyval list \<Rightarrow> nat \<Rightarrow> sanitization_error + pyval list"
where
  "sanitize_value v key depth =
     (if key \<noteq> [] \<and> sensitive_key key then Inr redacted
      else if depth > MAX_VALUE_DEPTH then Inl NestedTooDeeply
      else case v of
        PNone \<Rightarrow> Inr v
      | PBool b \<Rightarrow> Inr v
      | PInt i \<Rightarrow> Inr v
      | PFloat f \<Rightarrow> (case f of Finite m e \<Rightarrow> Inr v | _ \<Rightarrow> Inl NonFiniteNumber)
      | PStr s \<Rightarrow> Inr (PStr (sanitize_message (take MAX_VALUE_STRING_LENGTH s)))
      | PDict kvs \<Rightarrow>
          (if length kvs > MAX_COLLECTION_ITEMS then Inl TooManyFields
           else if \<exists>kv \<in> set kvs. fst kv = KOther then Inl KeysMustBeStrings
           else (case sanitize_fields kvs (depth + 1) of
                   Inl e \<Rightarrow> Inl e | Inr kvs' \<Rightarrow> Inr (PDict kvs')))
      | PList xs \<Rightarrow>
          (if length xs > MAX_COLLECTION_ITEMS then Inl TooManyItems
           else (case sanitize_items xs (depth + 1) of Inl e \<Rightarrow> Inl e | Inr ys \<Rightarrow> Inr (PList ys)))
      | PTuple xs \<Rightarrow>
          (if length xs > MAX_COLLECTION_ITEMS then Inl TooManyItems
           else (case sanitize_items xs (depth + 1) of Inl e \<Rightarrow> Inl e | Inr ys \<Rightarrow> Inr (PList ys)))
      | POther \<Rightarrow> Inl UnsupportedValue)"
| "sanitize_fields [] depth = Inr []"
| "sanitize_fields (kv # kvs) depth =
     (case sanitize_value (snd kv) (key_text (fst kv)) depth of
        Inl e \<Rightarrow> Inl e
      | Inr v \<Rightarrow> (case sanitize_fields kvs depth of Inl e \<Rightarrow> Inl e | Inr rest \<Rightarrow> Inr ((fst kv, v) # rest)))"
| "sanitize_items [] depth = Inr []"
| "sanitize_items (x # xs) depth =
     (case sanitize_value x [] depth of
        Inl e \<Rightarrow> Inl e
      | Inr v \<Rightarrow> (case sanitize_items xs depth of Inl e \<Rightarrow> Inl e | Inr rest \<Rightarrow> Inr (v # rest)))"

declare sanitize_value.simps [simp del]

definition sanitize_object ::
  "(int \<Rightarrow> int \<Rightarrow> string) \<Rightarrow> pyval \<Rightarrow> nat \<Rightarrow> sanitization_error + (pykey \<times> pyval) list" where
  "sanitize_object fr value max_bytes =
     (case sanitize_value value [] 0 of
        Inl e \<Rightarrow> Inl e
      | Inr (PDict kvs) \<Rightarrow>
          (case dumps fr (PDict kvs) of
             None \<Rightarrow> Inl MustContainJson
           | Some encoded \<Rightarrow> if length encoded > max_bytes then Inl ExceedsSizeLimit else Inr kvs)
      | Inr _ \<Rightarrow> Inl MustBeObject)"

section \<open>What a sanitized value can contain\<close>

text \<open>
  \<open>clean v depth\<close>: under a sensitive key there is only the redaction mark, collections hold at
  most 256 entries, nesting stops at the depth limit, floats are finite, tuples and foreign
  values are gone and strings are the image of \<open>sanitize_message\<close> on at most 4000 characters.
\<close>

fun clean :: "pyval \<Rightarrow> nat \<Rightarrow> bool"
  and clean_fields :: "(pykey \<times> pyval) list \<Rightarrow> nat \<Rightarrow> bool"
  and clean_items :: "pyval list \<Rightarrow> nat \<Rightarrow> bool"
where
  "clean (PFloat f) depth \<longleftrightarrow> depth \<le> MAX_VALUE_DEPTH \<and> (case f of Finite m e \<Rightarrow> True | _ \<Rightarrow> False)"
| "clean (PStr s) depth \<longleftrightarrow> depth \<le> MAX_VALUE_DEPTH
     \<and> (\<exists>t. length t \<le> MAX_VALUE_STRING_LENGTH \<and> s = sanitize_message t)"
| "clean (PDict kvs) depth \<longleftrightarrow>
     depth \<le> MAX_VALUE_DEPTH \<and> length kvs \<le> MAX_COLLECTION_ITEMS \<and> clean_fields kvs (depth + 1)"
| "clean (PList xs) depth \<longleftrightarrow>
     depth \<le> MAX_VALUE_DEPTH \<and> length xs \<le> MAX_COLLECTION_ITEMS \<and> clean_items xs (depth + 1)"
| "clean (PTuple xs) depth \<longleftrightarrow> False"
| "clean POther depth \<longleftrightarrow> False"
| "clean PNone depth \<longleftrightarrow> depth \<le> MAX_VALUE_DEPTH"
| "clean (PBool b) depth \<longleftrightarrow> depth \<le> MAX_VALUE_DEPTH"
| "clean (PInt i) depth \<longleftrightarrow> depth \<le> MAX_VALUE_DEPTH"
| "clean_fields [] depth \<longleftrightarrow> True"
| "clean_fields (kv # kvs) depth \<longleftrightarrow>
     (\<exists>k. fst kv = KStr k \<and>
        (if k \<noteq> [] \<and> sensitive_key k then snd kv = redacted else clean (snd kv) depth))
     \<and> clean_fields kvs depth"
| "clean_items [] depth \<longleftrightarrow> True"
| "clean_items (x # xs) depth \<longleftrightarrow> clean x depth \<and> clean_items xs depth"

lemma sanitize_fields_keys: "sanitize_fields kvs d = Inr kvs' \<Longrightarrow> map fst kvs' = map fst kvs"
  by (induction kvs arbitrary: kvs') (auto split: sum.splits)

lemma sanitize_fields_length: "sanitize_fields kvs d = Inr kvs' \<Longrightarrow> length kvs' = length kvs"
  by (drule sanitize_fields_keys) (metis length_map)

lemma sanitize_items_length: "sanitize_items xs d = Inr ys \<Longrightarrow> length ys = length xs"
  by (induction xs arbitrary: ys) (auto split: sum.splits)

lemma sanitize_clean:
  "sanitize_value v key depth = Inr w \<Longrightarrow>
     (if key \<noteq> [] \<and> sensitive_key key then w = redacted else clean w depth)"
  "sanitize_fields kvs depth' = Inr kvs' \<Longrightarrow> (\<forall>kv \<in> set kvs. fst kv \<noteq> KOther) \<Longrightarrow> clean_fields kvs' depth'"
  "sanitize_items xs depth'' = Inr ys \<Longrightarrow> clean_items ys depth''"
proof (induction v key depth and kvs depth' and xs depth''
    arbitrary: w and kvs' and ys rule: sanitize_value_sanitize_fields_sanitize_items.induct)
  case (1 v key depth)
  show ?case
  proof (cases "(key \<noteq> [] \<and> sensitive_key key) \<or> depth > MAX_VALUE_DEPTH")
    case True
    with "1.prems" show ?thesis by (auto simp: sanitize_value.simps)
  next
    case False
    with "1" show ?thesis
      by (cases v)
        (auto simp: sanitize_value.simps sanitize_fields_length sanitize_items_length
          split: if_splits sum.splits pyfloat.splits intro!: exI [of _ "take MAX_VALUE_STRING_LENGTH _"])
  qed
next
  case (3 kv kvs depth)
  obtain k where k: "fst kv = KStr k" using "3.prems"(2) by (cases "fst kv") auto
  from "3.prems" obtain v rest where v: "sanitize_value (snd kv) k depth = Inr v"
    and rest: "sanitize_fields kvs depth = Inr rest" and eq: "kvs' = (fst kv, v) # rest"
    by (auto simp: k split: sum.splits)
  have "if k \<noteq> [] \<and> sensitive_key k then v = redacted else clean v depth"
    using "3.IH"(1) v k by simp
  moreover have "clean_fields rest depth"
    using "3.IH"(2) v k rest "3.prems"(2) by simp
  ultimately show ?case by (simp add: eq k)
next
  case (5 x xs depth)
  then show ?case by (auto split: sum.splits)
qed auto

lemma clean_plain:
  "clean v d \<Longrightarrow> plain_json v"
  "clean_fields kvs d \<Longrightarrow> plain_items kvs"
  "clean_items xs d \<Longrightarrow> plain_list xs"
  by (induction v d and kvs d and xs d rule: clean_clean_fields_clean_items.induct)
    (auto simp: redacted_def split: if_splits)

lemma sanitize_value_total_on_clean_dict:
  "sanitize_value v [] 0 = Inr (PDict kvs) \<Longrightarrow> \<exists>t. dumps fr (PDict kvs) = Some t"
  by (drule sanitize_clean(1), rule dumps_total(1), rule clean_plain(1) [of _ 0]) simp

section \<open>Texts without a separator are left alone\<close>

text \<open>\<open>needs r P\<close>: every match of \<open>r\<close> starts before a character that satisfies \<open>P\<close>.\<close>

definition needs :: "rx \<Rightarrow> (char \<Rightarrow> bool) \<Rightarrow> bool" where
  "needs r P \<longleftrightarrow> (\<forall>p. (\<forall>c \<in> set (snd p). \<not> P c) \<longrightarrow> ends r p = [])"

lemma needs_Chr: "(\<And>c. f c \<Longrightarrow> P c) \<Longrightarrow> needs (Chr f) P"
  by (auto simp: needs_def split: list.splits if_splits)

lemma needs_Seq1: "needs r P \<Longrightarrow> needs (Seq r t) P"
  by (simp add: needs_def)

lemma needs_Seq2:
  assumes "needs t P"
  shows "needs (Seq r t) P"
  unfolding needs_def
proof (intro allI impI)
  fix p :: pos assume free: "\<forall>c \<in> set (snd p). \<not> P c"
  have "ends t q = []" if "q \<in> set (ends r p)" for q
  proof -
    have "set (snd q) \<subseteq> set (snd p)" using ends_advances [OF that] by (auto simp: advances_def)
    with free assms show ?thesis unfolding needs_def by blast
  qed
  then show "ends (Seq r t) p = []" by simp
qed

lemma colon_or_equals_needs: "needs colon_or_equals (\<lambda>c. c = CHR '':'' \<or> c = CHR ''='')"
  unfolding colon_or_equals_def by (intro needs_Seq2 [OF needs_Seq1] needs_Chr)

lemma lead_group_None:
  assumes "needs r P" and "\<forall>c \<in> set (snd p). \<not> P c"
  shows "lead_group_match g r p = None"
proof -
  have "ends (Seq g r) p = []" using needs_Seq2 [OF assms(1), of g] assms(2) unfolding needs_def by blast
  then have "concat (map (\<lambda>q. map (\<lambda>e. (captured p q, e)) (ends r q)) (ends g p)) = []" by simp
  then show ?thesis by (simp only: lead_group_match_def list.case)
qed

lemma sub_from_id:
  assumes "\<And>p. (\<forall>c \<in> set (snd p). \<not> P c) \<Longrightarrow> m p = None"
  shows "(\<forall>c \<in> set (snd p). \<not> P c) \<Longrightarrow> length (snd p) \<le> n \<Longrightarrow> sub_from n m p = snd p"
  by (induction n arbitrary: p) (auto simp: assms split: list.splits)

lemma re_sub_id:
  assumes "\<And>p. (\<forall>c \<in> set (snd p). \<not> P c) \<Longrightarrow> m p = None" and "\<forall>c \<in> set s. \<not> P c"
  shows "re_sub m s = s"
  using sub_from_id [of P m "([], s)" "length s", OF assms(1)] assms(2) by (simp add: re_sub_def)

lemma sanitize_message_id:
  assumes "\<forall>c \<in> set s. c \<noteq> CHR '':'' \<and> c \<noteq> CHR ''='' \<and> c \<noteq> CHR ''@''"
  shows "sanitize_message s = s"
proof -
  let ?sep = "\<lambda>c. c = CHR '':'' \<or> c = CHR ''=''"
  have "needs authorization_rx ?sep"
    unfolding authorization_rx_def by (intro needs_Seq2 [OF needs_Seq2 [OF needs_Seq1 [OF colon_or_equals_needs]]])
  then have auth: "authorization_match p = None" if "\<forall>c \<in> set (snd p). \<not> ?sep c" for p
  proof -
    have "ends authorization_rx p = []" using that \<open>needs authorization_rx ?sep\<close> unfolding needs_def by blast
    then show ?thesis by (simp add: authorization_match_def)
  qed
  have "needs url_userinfo_rx (\<lambda>c. c = CHR ''@'')"
    unfolding url_userinfo_rx_def by (simp add: needs_Seq2 needs_Seq1 needs_Chr)
  then have url: "url_match p = None" if "\<forall>c \<in> set (snd p). c \<noteq> CHR ''@''" for p
    using lead_group_None [of url_userinfo_rx "\<lambda>c. c = CHR ''@''" p] that by (simp add: url_match_def)
  have "needs assignment_value_rx ?sep"
    unfolding assignment_value_rx_def by (intro needs_Seq1 colon_or_equals_needs)
  then have asg: "assignment_match p = None" if "\<forall>c \<in> set (snd p). \<not> ?sep c" for p
    using lead_group_None [of assignment_value_rx ?sep p] that by (simp add: assignment_match_def)
  have "re_sub authorization_match s = s" by (rule re_sub_id [of ?sep]) (use auth assms in auto)
  moreover have "re_sub url_match s = s" by (rule re_sub_id [of "\<lambda>c. c = CHR ''@''"]) (use url assms in auto)
  moreover have "re_sub assignment_match s = s" by (rule re_sub_id [of ?sep]) (use asg assms in auto)
  ultimately show ?thesis by (simp add: sanitize_message_def)
qed

end
