(* ===== verification/Contracts.thy ===== *)
theory Contracts
  imports Sanitization
begin

text \<open>
  \<open>toolkit/controller/contracts.py\<close>: job kinds and states, the operation payloads with their
  validators, requests and plan records.  A pydantic model becomes a constructor or a record and
  a validation function that returns the value or the error; string patterns become executable
  predicates on character lists.
\<close>

section \<open>Job kinds and states\<close>

datatype job_kind =
    GENERATE | VERIFY | SERVICE_VERIFY | DEPLOY | RECOVER | DESTROY_INFRA | DNS_SYNC | MAINTENANCE
  | BACKUP_DRILL | UPDATE | RESTORE_DRILL | HOST_RECONCILE | HOST_REMOVE | CONTAINER_ACTION
  | SERVICE_ACTION | CONFIG_APPLY | SECRET_ROTATION | WEBHOOK_HEAL | IDENTITY

datatype job_state =
    QUEUED | RUNNING | CANCEL_REQUESTED | SUCCEEDED | PARTIAL_FAILURE | FAILED | CANCELLED

definition NON_CANCELLABLE_AFTER_START :: "job_kind list" where
  "NON_CANCELLABLE_AFTER_START =
     [HOST_RECONCILE, HOST_REMOVE, IDENTITY, MAINTENANCE, BACKUP_DRILL, RESTORE_DRILL, UPDATE,
      SERVICE_ACTION]"

definition job_can_cancel :: "job_kind \<Rightarrow> job_state \<Rightarrow> bool" where
  "job_can_cancel kind state =
     (if state = QUEUED then True
      else state = RUNNING \<and> kind \<notin> set NON_CANCELLABLE_AFTER_START)"

definition TERMINAL_JOB_STATES :: "job_state list" where
  "TERMINAL_JOB_STATES = [SUCCEEDED, PARTIAL_FAILURE, FAILED, CANCELLED]"

definition terminal :: "job_state \<Rightarrow> bool" where
  "terminal st \<longleftrightarrow> st \<in> set TERMINAL_JOB_STATES"

definition active :: "job_state \<Rightarrow> bool" where
  "active st \<longleftrightarrow> st \<in> {QUEUED, RUNNING, CANCEL_REQUESTED}"

lemma terminal_simps [simp]:
  "\<not> terminal QUEUED" "\<not> terminal RUNNING" "\<not> terminal CANCEL_REQUESTED"
  "terminal SUCCEEDED" "terminal PARTIAL_FAILURE" "terminal FAILED" "terminal CANCELLED"
  by (simp_all add: terminal_def TERMINAL_JOB_STATES_def)

lemma active_iff_not_terminal: "active st \<longleftrightarrow> \<not> terminal st"
  by (cases st) (simp_all add: active_def)

datatype error_code =
    CONFIGURATION_BUSY | VALIDATION_ERROR | NOT_FOUND | CONFLICT | FORBIDDEN | CHECKPOINT_REQUIRED
  | CONTROLLER_UNAVAILABLE | OPERATION_REJECTED | OPERATION_FAILED | INTERNAL_ERROR

datatype event_level = DEBUG | INFO | WARNING | ERROR

section \<open>String patterns\<close>

definition head_tail :: "(char \<Rightarrow> bool) \<Rightarrow> (char \<Rightarrow> bool) \<Rightarrow> nat \<Rightarrow> nat \<Rightarrow> string \<Rightarrow> bool" where
  "head_tail h t lo hi s =
     (case s of [] \<Rightarrow> False | c # cs \<Rightarrow> h c \<and> list_all t cs \<and> lo \<le> length cs \<and> length cs \<le> hi)"

definition lower_alnum :: "char \<Rightarrow> bool" where
  "lower_alnum c \<longleftrightarrow> is_lower c \<or> is_digit c"

definition alnum :: "char \<Rightarrow> bool" where
  "alnum c \<longleftrightarrow> is_lower c \<or> is_upper c \<or> is_digit c"

definition machine_id :: "string \<Rightarrow> bool" where
  "machine_id = head_tail lower_alnum (\<lambda>c. lower_alnum c \<or> c = CHR ''-'') 0 62"

definition service_name :: "string \<Rightarrow> bool" where
  "service_name = machine_id"

definition node_name :: "string \<Rightarrow> bool" where
  "node_name = head_tail alnum (\<lambda>c. alnum c \<or> c = CHR ''_'' \<or> c = CHR ''-'') 0 62"

definition directory_user_id :: "string \<Rightarrow> bool" where
  "directory_user_id =
     head_tail lower_alnum (\<lambda>c. lower_alnum c \<or> c \<in> {CHR ''.'', CHR ''_'', CHR ''-''}) 0 31"

definition service_group_name :: "string \<Rightarrow> bool" where
  "service_group_name s \<longleftrightarrow> prefix ''homelab-'' s
     \<and> head_tail lower_alnum (\<lambda>c. lower_alnum c \<or> c = CHR ''-'') 0 54 (drop 8 s)"

definition hex_of_length :: "nat \<Rightarrow> string \<Rightarrow> bool" where
  "hex_of_length n s \<longleftrightarrow> length s = n \<and> list_all is_hex s"

definition bounded :: "nat \<Rightarrow> nat \<Rightarrow> string \<Rightarrow> bool" where
  "bounded lo hi s \<longleftrightarrow> lo \<le> length s \<and> length s \<le> hi"

text \<open>White space of the pattern engine of the model library, on code points below 256.\<close>

definition pattern_space :: "char \<Rightarrow> bool" where
  "pattern_space c \<longleftrightarrow> (9 \<le> code c \<and> code c \<le> 13) \<or> code c = 32 \<or> code c = 133 \<or> code c = 160"

text \<open>The address pattern: one at-sign, no white space, and a dot inside the domain.\<close>

definition email_pattern :: "string \<Rightarrow> bool" where
  "email_pattern s =
     (case partition_at (CHR ''@'') s of (local, found, domain) \<Rightarrow>
        found \<and> local \<noteq> [] \<and> CHR ''@'' \<notin> set domain \<and> list_all (\<lambda>c. \<not> pattern_space c) s
        \<and> CHR ''.'' \<in> set (butlast (tl domain)))"

section \<open>Commands and operations\<close>

datatype destruction_action = Destroy_all | Retire_machine
datatype dns_action = Dns_sync | Dns_cleanup
datatype update_action = Upd_refresh | Upd_apply | Upd_rollback | Upd_recover
datatype container_action = Ctr_start | Ctr_stop | Ctr_restart

record invite_user =
  inv_email :: string
  inv_display_name :: string
  inv_groups :: "string list"

datatype identity_command =
    InviteUserCommand invite_user
  | SealedInviteUserCommand string
  | ReprovisionUserCommand string
  | SetUserGroupsCommand string "string list"
  | DeleteDirectoryIdentityCommand string string

record destroy_infra =
  di_action :: destruction_action
  di_scopes :: "string list"
  di_config_revision :: string
  di_plan_id :: string
  di_plan_hash :: string
  di_approval_token :: string

datatype operation =
    GenerateOperation bool
  | VerifyOperation "string list"
  | ServiceVerifyOperation string
  | DeployOperation "string option" bool bool
  | RecoverOperation "string option"
  | DestroyInfraOperation destroy_infra
  | DnsSyncOperation dns_action bool
  | MaintenanceOperation
  | BackupDrillOperation
  | UpdateOperation update_action "string list" string
  | RestoreDrillOperation string
  | HostReconcileOperation string
  | HostRemoveOperation string string string
  | ContainerActionOperation string container_action
  | ServiceActionOperation string string
  | IdentityOperation identity_command
  | ConfigApplyOperation string string
  | SecretRotationOperation "string list"
  | WebhookHealOperation string string

primrec operation_kind :: "operation \<Rightarrow> job_kind" where
  "operation_kind (GenerateOperation _) = GENERATE"
| "operation_kind (VerifyOperation _) = VERIFY"
| "operation_kind (ServiceVerifyOperation _) = SERVICE_VERIFY"
| "operation_kind (DeployOperation _ _ _) = DEPLOY"
| "operation_kind (RecoverOperation _) = RECOVER"
| "operation_kind (DestroyInfraOperation _) = DESTROY_INFRA"
| "operation_kind (DnsSyncOperation _ _) = DNS_SYNC"
| "operation_kind MaintenanceOperation = MAINTENANCE"
| "operation_kind BackupDrillOperation = BACKUP_DRILL"
| "operation_kind (UpdateOperation _ _ _) = UPDATE"
| "operation_kind (RestoreDrillOperation _) = RESTORE_DRILL"
| "operation_kind (HostReconcileOperation _) = HOST_RECONCILE"
| "operation_kind (HostRemoveOperation _ _ _) = HOST_REMOVE"
| "operation_kind (ContainerActionOperation _ _) = CONTAINER_ACTION"
| "operation_kind (ServiceActionOperation _ _) = SERVICE_ACTION"
| "operation_kind (IdentityOperation _) = IDENTITY"
| "operation_kind (ConfigApplyOperation _ _) = CONFIG_APPLY"
| "operation_kind (SecretRotationOperation _) = SECRET_ROTATION"
| "operation_kind (WebhookHealOperation _ _) = WEBHOOK_HEAL"

record job_request =
  rq_idempotency_key :: string
  rq_operation :: operation

definition request_kind :: "job_request \<Rightarrow> job_kind" where
  "request_kind r = operation_kind (rq_operation r)"

section \<open>Validation\<close>

datatype contract_error =
    FieldError string
  | ValuesMustBeUnique
  | ApplyRequiresServicesAndRevision
  | OnlyApplyAcceptsServices
  | RefreshTakesNoRevision
  | RollbackRequiresRevision
  | RecoverTakesNoRevision
  | ConfirmationMismatch
  | UnsupportedUserGroups "string list"
  | EmailHasControlCharacters
  | OutcomeMismatch

definition require_unique :: "'a list \<Rightarrow> contract_error + 'a list" where
  "require_unique values = (if length values \<noteq> card (set values) then Inl ValuesMustBeUnique else Inr values)"

lemma require_unique_iff: "require_unique xs = Inr ys \<longleftrightarrow> distinct xs \<and> ys = xs"
  by (auto simp: require_unique_def distinct_card dest: card_distinct [OF sym])

definition validate_update :: "update_action \<Rightarrow> string list \<Rightarrow> string \<Rightarrow> contract_error + unit" where
  "validate_update action services revision =
     (if \<not> (length services \<le> 64 \<and> list_all service_name services) then Inl (FieldError ''services'')
      else if \<not> distinct services then Inl ValuesMustBeUnique
      else if \<not> (revision = [] \<or> hex_of_length 64 revision) then Inl (FieldError ''revision'')
      else if action = Upd_apply \<and> (services = [] \<or> revision = []) then Inl ApplyRequiresServicesAndRevision
      else if action \<noteq> Upd_apply \<and> services \<noteq> [] then Inl OnlyApplyAcceptsServices
      else if action = Upd_refresh \<and> revision \<noteq> [] then Inl RefreshTakesNoRevision
      else if action = Upd_rollback \<and> revision = [] then Inl RollbackRequiresRevision
      else if action = Upd_recover \<and> revision \<noteq> [] then Inl RecoverTakesNoRevision
      else Inr ())"

text \<open>
  \<open>validate_service_groups\<close> of \<open>core/identity/service_groups.py\<close>; the group names come from the
  category plugins and are the argument \<open>group_names\<close>.
\<close>

definition validate_service_groups :: "string list \<Rightarrow> string list \<Rightarrow> contract_error + string list" where
  "validate_service_groups group_names groups =
     (let selected = fromkeys groups;
          unsupported = sort (filter (\<lambda>g. g \<notin> set group_names) selected)
      in if unsupported \<noteq> [] then Inl (UnsupportedUserGroups unsupported) else Inr selected)"

definition contract_service_groups :: "string list \<Rightarrow> string list \<Rightarrow> contract_error + string list" where
  "contract_service_groups group_names values =
     (case require_unique values of Inl e \<Rightarrow> Inl e | Inr vs \<Rightarrow> validate_service_groups group_names vs)"

definition normalize_email :: "string \<Rightarrow> contract_error + string" where
  "normalize_email value =
     (let normalized = lower (strip value)
      in if list_ex (\<lambda>c. code c < 32 \<or> code c = 127) normalized then Inl EmailHasControlCharacters
         else Inr normalized)"

definition validate_invite ::
  "string list \<Rightarrow> string \<Rightarrow> string \<Rightarrow> string list \<Rightarrow> contract_error + invite_user" where
  "validate_invite group_names email display_name groups =
     (case normalize_email email of
        Inl e \<Rightarrow> Inl e
      | Inr em \<Rightarrow>
          (let dn = strip display_name
           in if \<not> (bounded 3 254 em \<and> email_pattern em) then Inl (FieldError ''email'')
              else if \<not> (length dn \<le> 128 \<and> list_all (\<lambda>c. 32 \<le> code c \<and> code c \<noteq> 127) dn)
                then Inl (FieldError ''display_name'')
              else if \<not> (groups \<noteq> [] \<and> length groups \<le> 256 \<and> list_all service_group_name groups)
                then Inl (FieldError ''groups'')
              else (case contract_service_groups group_names groups of
                      Inl e \<Rightarrow> Inl e
                    | Inr gs \<Rightarrow> Inr \<lparr>inv_email = em, inv_display_name = dn, inv_groups = gs\<rparr>)))"

definition validate_confirmation :: "string \<Rightarrow> string \<Rightarrow> contract_error + unit" where
  "validate_confirmation subject confirmation =
     (if confirmation \<noteq> subject then Inl ConfirmationMismatch else Inr ())"

fun validate_command :: "string list \<Rightarrow> identity_command \<Rightarrow> contract_error + unit" where
  "validate_command group_names (InviteUserCommand c) =
     (case validate_invite group_names (inv_email c) (inv_display_name c) (inv_groups c) of
        Inl e \<Rightarrow> Inl e | Inr _ \<Rightarrow> Inr ())"
| "validate_command group_names (SealedInviteUserCommand ciphertext) =
     (if bounded 64 4096 ciphertext
        \<and> (\<exists>n \<le> 2. list_all (\<lambda>c. alnum c \<or> c = CHR ''_'' \<or> c = CHR ''-'') (take (length ciphertext - n) ciphertext)
             \<and> drop (length ciphertext - n) ciphertext = replicate n (CHR ''=''))
      then Inr () else Inl (FieldError ''ciphertext''))"
| "validate_command group_names (ReprovisionUserCommand user) =
     (if directory_user_id user then Inr () else Inl (FieldError ''user_id''))"
| "validate_command group_names (SetUserGroupsCommand user groups) =
     (if \<not> directory_user_id user then Inl (FieldError ''user_id'')
      else if \<not> (length groups \<le> 256 \<and> list_all service_group_name groups) then Inl (FieldError ''groups'')
      else (case contract_service_groups group_names groups of Inl e \<Rightarrow> Inl e | Inr _ \<Rightarrow> Inr ()))"
| "validate_command group_names (DeleteDirectoryIdentityCommand user confirmation) =
     (if \<not> directory_user_id user then Inl (FieldError ''user_id'')
      else if \<not> directory_user_id confirmation then Inl (FieldError ''confirmation'')
      else validate_confirmation user confirmation)"

definition validate_destroy :: "destroy_infra \<Rightarrow> contract_error + unit" where
  "validate_destroy d =
     (if \<not> (di_scopes d \<noteq> [] \<and> length (di_scopes d) \<le> 256 \<and> list_all machine_id (di_scopes d))
        then Inl (FieldError ''scopes'')
      else if \<not> distinct (di_scopes d) then Inl ValuesMustBeUnique
      else if \<not> hex_of_length 64 (di_config_revision d) then Inl (FieldError ''config_revision'')
      else if \<not> (bounded 16 128 (di_plan_id d) \<and> list_all (\<lambda>c. alnum c \<or> c = CHR ''-'') (di_plan_id d))
        then Inl (FieldError ''plan_id'')
      else if \<not> hex_of_length 64 (di_plan_hash d) then Inl (FieldError ''plan_hash'')
      else if \<not> bounded 16 512 (di_approval_token d) then Inl (FieldError ''approval_token'')
      else Inr ())"

definition require_field :: "bool \<Rightarrow> string \<Rightarrow> contract_error + unit" where
  "require_field ok name = (if ok then Inr () else Inl (FieldError name))"

primrec validate_operation :: "string list \<Rightarrow> operation \<Rightarrow> contract_error + unit" where
  "validate_operation gn (GenerateOperation _) = Inr ()"
| "validate_operation gn (VerifyOperation targets) =
     (if \<not> (length targets \<le> 256 \<and> list_all machine_id targets) then Inl (FieldError ''targets'')
      else if \<not> distinct targets then Inl ValuesMustBeUnique else Inr ())"
| "validate_operation gn (ServiceVerifyOperation service) = require_field (service_name service) ''service''"
| "validate_operation gn (DeployOperation target _ _) =
     require_field (case target of None \<Rightarrow> True | Some t \<Rightarrow> machine_id t) ''target''"
| "validate_operation gn (RecoverOperation target) =
     require_field (case target of None \<Rightarrow> True | Some t \<Rightarrow> machine_id t) ''target''"
| "validate_operation gn (DestroyInfraOperation d) = validate_destroy d"
| "validate_operation gn (DnsSyncOperation _ _) = Inr ()"
| "validate_operation gn MaintenanceOperation = Inr ()"
| "validate_operation gn BackupDrillOperation = Inr ()"
| "validate_operation gn (UpdateOperation action services revision) = validate_update action services revision"
| "validate_operation gn (RestoreDrillOperation dump) =
     require_field (bounded 8 128 dump
       \<and> list_all (\<lambda>c. alnum c \<or> c \<in> {CHR ''.'', CHR ''_'', CHR ''-''}) dump) ''dump_id''"
| "validate_operation gn (HostReconcileOperation host) = require_field (node_name host) ''host_name''"
| "validate_operation gn (HostRemoveOperation host fingerprint confirmation) =
     (if \<not> node_name host then Inl (FieldError ''host_name'')
      else if \<not> hex_of_length 64 fingerprint then Inl (FieldError ''expected_fingerprint'')
      else if \<not> node_name confirmation then Inl (FieldError ''confirmation'')
      else validate_confirmation host confirmation)"
| "validate_operation gn (ContainerActionOperation service _) = require_field (service_name service) ''service''"
| "validate_operation gn (ServiceActionOperation service action) =
     (if \<not> service_name service then Inl (FieldError ''service'')
      else require_field (head_tail is_lower (\<lambda>c. lower_alnum c \<or> c = CHR ''-'') 0 62 action) ''action'')"
| "validate_operation gn (IdentityOperation command) = validate_command gn command"
| "validate_operation gn (ConfigApplyOperation revision_hash service) =
     (if \<not> hex_of_length 64 revision_hash then Inl (FieldError ''revision_hash'')
      else require_field (service_name service) ''service'')"
| "validate_operation gn (SecretRotationOperation names) =
     (if \<not> (names \<noteq> [] \<and> length names \<le> 64
            \<and> list_all (head_tail is_upper (\<lambda>c. is_upper c \<or> is_digit c \<or> c = CHR ''_'') 1 127) names)
        then Inl (FieldError ''secret_names'')
      else if \<not> distinct names then Inl ValuesMustBeUnique else Inr ())"
| "validate_operation gn (WebhookHealOperation service fingerprint) =
     (if \<not> service_name service then Inl (FieldError ''service'')
      else require_field (hex_of_length 64 fingerprint) ''alert_fingerprint'')"

definition validate_request :: "string list \<Rightarrow> job_request \<Rightarrow> contract_error + unit" where
  "validate_request gn r =
     (if \<not> (bounded 16 128 (rq_idempotency_key r)
            \<and> list_all (\<lambda>c. alnum c \<or> c \<in> {CHR ''.'', CHR ''_'', CHR ''~'', CHR ''-''}) (rq_idempotency_key r))
        then Inl (FieldError ''idempotency_key'')
      else validate_operation gn (rq_operation r))"

section \<open>Identity results\<close>

datatype step_status = St_completed | St_pending | St_skipped | St_warning | St_failed
datatype identity_outcome = Out_completed | Out_completed_with_warnings | Out_partial_failure

definition expected_outcome :: "step_status list \<Rightarrow> identity_outcome" where
  "expected_outcome statuses =
     (if St_failed \<in> set statuses then Out_partial_failure
      else if St_warning \<in> set statuses then Out_completed_with_warnings
      else Out_completed)"

definition validate_outcome ::
  "(string \<times> step_status) list \<Rightarrow> identity_outcome \<Rightarrow> contract_error + unit" where
  "validate_outcome steps outcome =
     (if \<not> (steps \<noteq> [] \<and> length steps \<le> 64) then Inl (FieldError ''steps'')
      else if \<not> distinct (map fst steps) then Inl ValuesMustBeUnique
      else if outcome \<noteq> expected_outcome (map snd steps) then Inl OutcomeMismatch
      else Inr ())"

section \<open>Plans and errors\<close>

record destroy_plan_spec =
  dp_action :: destruction_action
  dp_scopes :: "string list"
  dp_config_revision :: string
  dp_checkpoint_id :: string
  dp_checkpoint_verified_at :: int
  dp_evidence_digest :: string

record error_body =
  eb_code :: error_code
  eb_message :: string
  eb_details :: "(pykey \<times> pyval) list"

definition valid_error_body :: "error_body \<Rightarrow> bool" where
  "valid_error_body e \<longleftrightarrow> bounded 1 500 (eb_message e)"

section \<open>Properties of the validators\<close>

lemma validate_update_ok:
  "validate_update a services revision = Inr () \<Longrightarrow>
     (a = Upd_apply \<longleftrightarrow> services \<noteq> []) \<and> distinct services
     \<and> (a \<in> {Upd_apply, Upd_rollback} \<longleftrightarrow> revision \<noteq> []) \<and> (revision \<noteq> [] \<longrightarrow> hex_of_length 64 revision)"
  by (cases a) (auto simp: validate_update_def split: if_splits)

lemma validate_service_groups_ok:
  "validate_service_groups names gs = Inr sel \<longleftrightarrow> set gs \<subseteq> set names \<and> sel = fromkeys gs"
proof -
  have "sort (filter (\<lambda>g. g \<notin> set names) (fromkeys gs)) = [] \<longleftrightarrow> filter (\<lambda>g. g \<notin> set names) (fromkeys gs) = []"
    by (metis length_0_conv length_sort)
  then show ?thesis
    by (auto simp: validate_service_groups_def Let_def filter_empty_conv subset_iff)
qed

lemma contract_service_groups_ok:
  "contract_service_groups names gs = Inr sel \<longleftrightarrow> distinct gs \<and> set gs \<subseteq> set names \<and> sel = gs"
proof -
  have "contract_service_groups names gs = Inr sel
    \<longleftrightarrow> (\<exists>vs. require_unique gs = Inr vs \<and> validate_service_groups names vs = Inr sel)"
    by (simp add: contract_service_groups_def split: sum.split)
  then show ?thesis
    by (auto simp: require_unique_iff validate_service_groups_ok fromkeys_id)
qed

lemma job_can_cancel_not_terminal: "job_can_cancel k st \<Longrightarrow> st = QUEUED \<or> st = RUNNING"
  by (auto simp: job_can_cancel_def split: if_splits)

end
