(* ===== verification/Payload_Protection.thy ===== *)
theory Payload_Protection
  imports Contracts
begin

text \<open>
  \<open>toolkit/controller/payload_protection.py\<close>: invite commands are sealed with authenticated
  encryption before they are persisted, bound to the principal and the idempotency key.  AES-GCM
  and the JSON codec of the command come from third-party packages and are parameters; URL-safe
  base64 and UTF-8 are modelled.  Bytes are numbers below 256.
\<close>

type_synonym bytes = "nat list"

definition bytes_ok :: "bytes \<Rightarrow> bool" where
  "bytes_ok bs \<longleftrightarrow> list_all (\<lambda>b. b < 256) bs"

lemma bytes_ok_simps [simp]:
  "bytes_ok []" "bytes_ok (b # bs) \<longleftrightarrow> b < 256 \<and> bytes_ok bs"
  "bytes_ok (xs @ ys) \<longleftrightarrow> bytes_ok xs \<and> bytes_ok ys"
  by (auto simp: bytes_ok_def)

section \<open>URL-safe base64\<close>

definition b64_char :: "nat \<Rightarrow> char" where
  "b64_char n =
     (if n < 26 then char_of (65 + n) else if n < 52 then char_of (71 + n)
      else if n < 62 then char_of (n - 4) else if n = 62 then CHR ''-'' else CHR ''_'')"

text \<open>Decoding with \<open>altchars\<close> also accepts the characters the alternatives stand for.\<close>

definition b64_val :: "char \<Rightarrow> nat option" where
  "b64_val c =
     (if is_upper c then Some (code c - 65) else if is_lower c then Some (code c - 71)
      else if is_digit c then Some (code c + 4)
      else if c = CHR ''-'' \<or> c = CHR ''+'' then Some 62
      else if c = CHR ''_'' \<or> c = CHR ''/'' then Some 63 else None)"

fun urlsafe_b64encode :: "bytes \<Rightarrow> string" where
  "urlsafe_b64encode [] = []"
| "urlsafe_b64encode [a] = [b64_char (a div 4), b64_char (a mod 4 * 16), CHR ''='', CHR ''='']"
| "urlsafe_b64encode [a, b] =
     [b64_char (a div 4), b64_char (a mod 4 * 16 + b div 16), b64_char (b mod 16 * 4), CHR ''='']"
| "urlsafe_b64encode (a # b # c # rest) =
     b64_char (a div 4) # b64_char (a mod 4 * 16 + b div 16) # b64_char (b mod 16 * 4 + c div 64)
     # b64_char (c mod 64) # urlsafe_b64encode rest"

fun b64decode :: "string \<Rightarrow> bytes option" where
  "b64decode [] = Some []"
| "b64decode [x, y, z, w] =
     (case (b64_val x, b64_val y) of
        (Some p, Some q) \<Rightarrow>
          (if z = CHR ''='' \<and> w = CHR ''='' then Some [p * 4 + q div 16]
           else (case b64_val z of
                   None \<Rightarrow> None
                 | Some r \<Rightarrow>
                     (if w = CHR ''='' then Some [p * 4 + q div 16, q mod 16 * 16 + r div 4]
                      else map_option (\<lambda>s. [p * 4 + q div 16, q mod 16 * 16 + r div 4, r mod 4 * 64 + s]) (b64_val w))))
      | _ \<Rightarrow> None)"
| "b64decode (x # y # z # w # v # rest) =
     (case (b64_val x, b64_val y, b64_val z, b64_val w, b64decode (v # rest)) of
        (Some p, Some q, Some r, Some s, Some bs) \<Rightarrow>
          Some ((p * 4 + q div 16) # (q mod 16 * 16 + r div 4) # (r mod 4 * 64 + s) # bs)
      | _ \<Rightarrow> None)"
| "b64decode _ = None"

lemma b64_char_code:
  "n < 64 \<Longrightarrow> code (b64_char n) =
     (if n < 26 then 65 + n else if n < 52 then 71 + n else if n < 62 then n - 4
      else if n = 62 then 45 else 95)"
  by (simp add: b64_char_def code_def)

lemma b64_val_char [simp]: "n < 64 \<Longrightarrow> b64_val (b64_char n) = Some n"
proof -
  assume n: "n < 64"
  consider "n < 26" | "26 \<le> n" "n < 52" | "52 \<le> n" "n < 62" | "n = 62" | "n = 63"
    using n by linarith
  then show ?thesis
    using b64_char_code [OF n]
    by cases (auto simp: b64_val_def is_upper_def is_lower_def is_digit_def b64_char_def code_def)
qed

lemma b64_char_not_pad [simp]: "n < 64 \<Longrightarrow> b64_char n \<noteq> CHR ''=''"
  using b64_val_char [of n] by (auto simp: b64_val_def is_upper_def is_lower_def is_digit_def code_def)

lemma urlsafe_b64encode_Nil_iff [simp]: "urlsafe_b64encode bs = [] \<longleftrightarrow> bs = []"
  by (cases bs rule: urlsafe_b64encode.cases) auto

lemma sextets:
  fixes a b c :: nat
  assumes "a < 256" "b < 256" "c < 256"
  shows "a div 4 < 64" "a mod 4 * 16 < 64" "a mod 4 * 16 + b div 16 < 64" "b mod 16 * 4 < 64"
    "b mod 16 * 4 + c div 64 < 64" "c mod 64 < 64"
proof -
  have "a mod 4 \<le> 3" "b div 16 \<le> 15" "b mod 16 \<le> 15" "c div 64 \<le> 3" "a div 4 < 64"
    using assms by auto
  then show "a div 4 < 64" "a mod 4 * 16 < 64" "a mod 4 * 16 + b div 16 < 64" "b mod 16 * 4 < 64"
    "b mod 16 * 4 + c div 64 < 64" "c mod 64 < 64"
    by simp_all
qed

lemma recombine:
  fixes a b c :: nat
  assumes "b < 256" "c < 256"
  shows "a div 4 * 4 + a mod 4 * 16 div 16 = a"
    "a div 4 * 4 + (a mod 4 * 16 + b div 16) div 16 = a"
    "(a mod 4 * 16 + b div 16) mod 16 * 16 + b mod 16 * 4 div 4 = b"
    "(a mod 4 * 16 + b div 16) mod 16 * 16 + (b mod 16 * 4 + c div 64) div 4 = b"
    "(b mod 16 * 4 + c div 64) mod 4 * 64 + c mod 64 = c"
proof -
  have b: "b div 16 < 16" and c: "c div 64 < 4" using assms by auto
  from b have "(a mod 4 * 16 + b div 16) div 16 = a mod 4" "(a mod 4 * 16 + b div 16) mod 16 = b div 16"
    by simp_all
  moreover from c have "(b mod 16 * 4 + c div 64) div 4 = b mod 16" "(b mod 16 * 4 + c div 64) mod 4 = c div 64"
    by simp_all
  ultimately show "a div 4 * 4 + a mod 4 * 16 div 16 = a"
    "a div 4 * 4 + (a mod 4 * 16 + b div 16) div 16 = a"
    "(a mod 4 * 16 + b div 16) mod 16 * 16 + b mod 16 * 4 div 4 = b"
    "(a mod 4 * 16 + b div 16) mod 16 * 16 + (b mod 16 * 4 + c div 64) div 4 = b"
    "(b mod 16 * 4 + c div 64) mod 4 * 64 + c mod 64 = c"
    by simp_all
qed

lemma b64decode_encode: "bytes_ok bs \<Longrightarrow> b64decode (urlsafe_b64encode bs) = Some bs"
proof (induction bs rule: urlsafe_b64encode.induct)
  case (2 a)
  then show ?case using sextets [of a 0 0] recombine(1) [of 0 0 a] by simp
next
  case (3 a b)
  then show ?case using sextets [of a b 0] recombine [where b = b and c = 0] by simp
next
  case (4 a b c rest)
  then have abc: "a < 256" "b < 256" "c < 256" and rest: "bytes_ok rest" by auto
  note facts = sextets [OF abc] recombine [OF abc(2,3)]
  show ?case
  proof (cases "urlsafe_b64encode rest")
    case Nil
    then show ?thesis using facts by simp
  next
    case (Cons v vs)
    then show ?thesis using facts "4.IH" [OF rest] by simp
  qed
qed simp

section \<open>UTF-8 and the associated data\<close>

definition utf8_char :: "char \<Rightarrow> bytes" where
  "utf8_char c = (if code c < 128 then [code c] else [192 + code c div 64, 128 + code c mod 64])"

definition utf8 :: "string \<Rightarrow> bytes" where
  "utf8 s = concat (map utf8_char s)"

lemma utf8_simps [simp]: "utf8 [] = []" "utf8 (c # s) = utf8_char c @ utf8 s"
  by (simp_all add: utf8_def)

lemma code_lt_256: "code c < 256"
  by (simp add: code_def)

lemma utf8_inject: "utf8 s = utf8 t \<Longrightarrow> s = t"
proof (induction s arbitrary: t)
  case Nil
  then show ?case by (cases t) (auto simp: utf8_char_def split: if_splits)
next
  case (Cons c s)
  then obtain d t' where t: "t = d # t'" by (cases t) (auto simp: utf8_char_def split: if_splits)
  have "code c = code d \<or> (code c div 64 = code d div 64 \<and> code c mod 64 = code d mod 64)"
    and rest: "utf8 s = utf8 t'"
    using Cons.prems by (auto simp: t utf8_char_def split: if_splits)
  then have "code c = code d" by (metis div_mult_mod_eq)
  with Cons.IH rest t show ?case by (simp add: code_inject)
qed

definition AAD_VERSION :: bytes where
  "AAD_VERSION = utf8 ''homelab-controller-invite-v1''"

definition aad :: "string \<Rightarrow> string \<Rightarrow> bytes" where
  "aad prin idempotency_key = AAD_VERSION @ [0] @ utf8 prin @ [0] @ utf8 idempotency_key"

lemma utf8_no_nul: "CHR 0x00 \<notin> set s \<Longrightarrow> 0 \<notin> set (utf8 s)"
proof (induction s)
  case (Cons c s)
  have "code c \<noteq> 0" using Cons.prems code_inject [of c "CHR 0x00"] by (auto simp: code_def)
  with Cons show ?case by (auto simp: utf8_char_def)
qed simp

lemma last_separator_unique:
  assumes "xs @ [s] @ ys = xs' @ [s] @ ys'" and "s \<notin> set ys" and "s \<notin> set ys'"
  shows "xs = xs' \<and> ys = ys'"
proof -
  have "rev ys @ s # rev xs = rev ys' @ s # rev xs'"
    using arg_cong [OF assms(1), of rev] by simp
  moreover have "takeWhile (\<lambda>c. c \<noteq> s) (rev zs @ s # w) = rev zs" if "s \<notin> set zs" for zs w
    using that by (subst takeWhile_append2) auto
  ultimately have "rev ys = rev ys'" using assms(2,3) by metis
  with assms(1) show ?thesis by simp
qed

lemma aad_inject:
  assumes "aad p k = aad p' k'" and "CHR 0x00 \<notin> set k" and "CHR 0x00 \<notin> set k'"
  shows "p = p' \<and> k = k'"
proof -
  have "(AAD_VERSION @ [0] @ utf8 p) @ [0] @ utf8 k = (AAD_VERSION @ [0] @ utf8 p') @ [0] @ utf8 k'"
    using assms(1) by (simp add: aad_def)
  from last_separator_unique [OF this] assms(2,3)
  have "utf8 p = utf8 p'" "utf8 k = utf8 k'" by (simp_all add: utf8_no_nul)
  then show ?thesis by (simp add: utf8_inject)
qed

section \<open>Sealing and opening\<close>

record aead =
  ae_encrypt :: "bytes \<Rightarrow> bytes \<Rightarrow> bytes \<Rightarrow> bytes"
  ae_decrypt :: "bytes \<Rightarrow> bytes \<Rightarrow> bytes \<Rightarrow> bytes option"

record invite_codec =
  ic_dump :: "invite_user \<Rightarrow> bytes"
  ic_validate :: "bytes \<Rightarrow> invite_user option"

definition NONCE_BYTES :: nat where
  "NONCE_BYTES = 12"

datatype payload_error = PayloadProtectionError string | CiphertextInvalid

text \<open>The nonce is the 12 random bytes of \<open>os.urandom\<close>.\<close>

definition seal_invite_command ::
  "aead \<Rightarrow> invite_codec \<Rightarrow> bytes \<Rightarrow> invite_user \<Rightarrow> string \<Rightarrow> string \<Rightarrow> payload_error + identity_command" where
  "seal_invite_command ae ic nonce command prin idempotency_key =
     (let protected = nonce @ ae_encrypt ae nonce (ic_dump ic command) (aad prin idempotency_key);
          sealed = SealedInviteUserCommand (urlsafe_b64encode protected)
      in case validate_command [] sealed of Inl _ \<Rightarrow> Inl CiphertextInvalid | Inr _ \<Rightarrow> Inr sealed)"

definition open_invite_command ::
  "aead \<Rightarrow> invite_codec \<Rightarrow> string \<Rightarrow> string \<Rightarrow> string \<Rightarrow> payload_error + invite_user" where
  "open_invite_command ae ic ciphertext prin idempotency_key =
     (let failed = Inl (PayloadProtectionError ''controller invite payload could not be authenticated'')
      in case b64decode ciphertext of
           None \<Rightarrow> failed
         | Some protected \<Rightarrow>
             (let nonce = take NONCE_BYTES protected; ct = drop NONCE_BYTES protected
              in if length nonce \<noteq> NONCE_BYTES \<or> length ct < 16 then failed
                 else (case ae_decrypt ae nonce ct (aad prin idempotency_key) of
                         None \<Rightarrow> failed
                       | Some plaintext \<Rightarrow>
                           (case ic_validate ic plaintext of None \<Rightarrow> failed | Some c \<Rightarrow> Inr c))))"

end
