(* ===== verification/Controller_Tables.thy ===== *)
theory Controller_Tables
  imports Payload_Protection
begin

text \<open>
  The database of \<open>toolkit/controller/store.py\<close>: one record per table row, the store as the tables
  in rowid order with the AUTOINCREMENT counters of the event and audit tables, and the
  row-level helpers every operation shares.  A timestamp is its number of microseconds; the
  theory Timestamps shows that the texts the database compares are ordered the same way.
  SHA-256, HMAC, the JSON text of a request and AES-GCM are parameters in \<open>store_env\<close>.
\<close>

section \<open>Errors\<close>

datatype store_error =
    JobNotFoundError
  | JobConflictError string
  | JobQueueLimitError
  | IdempotencyConflictError
  | PlanNotFoundError
  | ApprovalError string
  | BootstrapCapabilityError string
  | PayloadError payload_error
  | StoreValueError string
  | StoreValidationError string
  | IntegrityError string
  | StoreSanitizationError sanitization_error

text \<open>\<open>except JobConflictError\<close> also catches its two subclasses.\<close>

fun is_job_conflict :: "store_error \<Rightarrow> bool" where
  "is_job_conflict (JobConflictError _) = True"
| "is_job_conflict JobQueueLimitError = True"
| "is_job_conflict IdempotencyConflictError = True"
| "is_job_conflict _ = False"

section \<open>Rows\<close>

record plan_row =
  pl_plan_id :: string
  pl_actor :: string
  pl_spec :: destroy_plan_spec
  pl_plan_hash :: string
  pl_created_at :: int

record approval_row =
  ap_approval_id :: string
  ap_plan_id :: string
  ap_actor :: string
  ap_token_hash :: string
  ap_created_at :: int
  ap_expires_at :: int
  ap_consumed_at :: "int option"

record capability_row =
  cp_capability_id :: string
  cp_issuer_principal :: string
  cp_token_hash :: string
  cp_created_at :: int
  cp_expires_at :: int
  cp_exchanged_at :: "int option"
  cp_revoked_at :: "int option"
  cp_failed_attempts :: nat

record session_row =
  se_session_id :: string
  se_capability_id :: string
  se_token_hash :: string
  se_created_at :: int
  se_expires_at :: int
  se_consumed_at :: "int option"
  se_revoked_at :: "int option"
  se_failed_attempts :: nat

type_synonym fields = "(pykey \<times> pyval) list"

record job_row =
  job_id :: string
  job_principal :: string
  job_idempotency_key :: string
  job_payload_hash :: string
  job_request_json :: job_request
  job_state :: job_state
  job_created_at :: int
  job_updated_at :: int
  job_cancel_requested :: bool
  job_result_json :: "fields option"
  job_error_json :: "error_body option"
  job_lease_owner :: "string option"
  job_lease_generation :: nat
  job_lease_expires_at :: "int option"

record event_row =
  ev_sequence :: nat
  ev_job_id :: string
  ev_timestamp :: int
  ev_level :: event_level
  ev_message :: string
  ev_payload :: fields

datatype audit_outcome = ALLOWED | DENIED | FAILED_OUTCOME

datatype detail =
    DText string
  | DTime int
  | DNat nat
  | DTexts "string list"
  | DKind job_kind
  | DState job_state

record audit_row =
  au_sequence :: nat
  au_timestamp :: int
  au_principal :: string
  au_action :: string
  au_resource :: string
  au_outcome :: audit_outcome
  au_details :: "(string \<times> detail) list"

record store =
  st_plans :: "plan_row list"
  st_approvals :: "approval_row list"
  st_capabilities :: "capability_row list"
  st_sessions :: "session_row list"
  st_jobs :: "job_row list"
  st_events :: "event_row list"
  st_event_seq :: nat
  st_audits :: "audit_row list"
  st_audit_seq :: nat

definition empty_store :: store where
  "empty_store =
     \<lparr>st_plans = [], st_approvals = [], st_capabilities = [], st_sessions = [], st_jobs = [],
      st_events = [], st_event_seq = 0, st_audits = [], st_audit_seq = 0\<rparr>"

section \<open>Environment\<close>

record store_env =
  env_sha256 :: "string \<Rightarrow> string"
  env_hmac :: "string \<Rightarrow> string"
  env_request_json :: "job_request \<Rightarrow> string"
  env_spec_json :: "destroy_plan_spec \<Rightarrow> string"
  env_aead :: aead
  env_codec :: invite_codec
  env_float_repr :: "int \<Rightarrow> int \<Rightarrow> string"

definition payload_hash :: "store_env \<Rightarrow> job_request \<Rightarrow> string" where
  "payload_hash env r = env_hmac env (env_request_json env r)"

text \<open>
  The clock: an aware reading is a local time and its offset from UTC, in microseconds; a naive
  reading is refused.
\<close>

datatype clock_reading = Naive int | Aware int int

fun now_utc :: "clock_reading \<Rightarrow> store_error + int" where
  "now_utc (Naive t) = Inl (StoreValueError ''controller clock must return a timezone-aware datetime'')"
| "now_utc (Aware t offset) = Inr (t - offset)"

section \<open>Audit records\<close>

definition append_audit_conn ::
  "int \<Rightarrow> string \<Rightarrow> string \<Rightarrow> string \<Rightarrow> audit_outcome \<Rightarrow> (string \<times> detail) list \<Rightarrow> store
     \<Rightarrow> store_error + (audit_row \<times> store)" where
  "append_audit_conn timestamp prin action resource outcome details s =
     (let row = \<lparr>au_sequence = Suc (st_audit_seq s), au_timestamp = timestamp, au_principal = prin,
                 au_action = action, au_resource = resource, au_outcome = outcome, au_details = details\<rparr>
      in if \<not> (bounded 1 255 prin \<and> bounded 1 128 action \<and> bounded 1 512 resource)
         then Inl (StoreValidationError ''AuditRecord'')
         else Inr (row, s\<lparr>st_audits := st_audits s @ [row], st_audit_seq := Suc (st_audit_seq s)\<rparr>))"

text \<open>The statement form, for the operations that ignore the returned record.\<close>

definition audited ::
  "int \<Rightarrow> string \<Rightarrow> string \<Rightarrow> string \<Rightarrow> (string \<times> detail) list \<Rightarrow> store \<Rightarrow> store_error + store" where
  "audited timestamp prin action resource details s =
     (case append_audit_conn timestamp prin action resource ALLOWED details s of
        Inl e \<Rightarrow> Inl e | Inr (_, s') \<Rightarrow> Inr s')"

lemma audited_Inr:
  "audited t p a r d s = Inr s' \<longleftrightarrow>
     bounded 1 255 p \<and> bounded 1 128 a \<and> bounded 1 512 r \<and>
     s' = s\<lparr>st_audits := st_audits s @
              [\<lparr>au_sequence = Suc (st_audit_seq s), au_timestamp = t, au_principal = p, au_action = a,
                au_resource = r, au_outcome = ALLOWED, au_details = d\<rparr>],
            st_audit_seq := Suc (st_audit_seq s)\<rparr>"
  by (auto simp: audited_def append_audit_conn_def Let_def)

lemma audited_frame:
  "audited t p a r d s = Inr s' \<Longrightarrow>
     st_plans s' = st_plans s \<and> st_approvals s' = st_approvals s \<and> st_capabilities s' = st_capabilities s
     \<and> st_sessions s' = st_sessions s \<and> st_jobs s' = st_jobs s \<and> st_events s' = st_events s
     \<and> st_event_seq s' = st_event_seq s"
  by (auto simp: audited_Inr)

definition append_audit ::
  "string \<Rightarrow> string \<Rightarrow> string \<Rightarrow> audit_outcome \<Rightarrow> (string \<times> detail) list \<Rightarrow> int
     \<Rightarrow> (store, store_error, audit_row) action" where
  "append_audit prin action resource outcome details now =
     write_tx (append_audit_conn now prin action resource outcome details)"

definition audit_after :: "nat \<Rightarrow> store \<Rightarrow> audit_row list" where
  "audit_after sequence s = sort_key au_sequence (filter (\<lambda>r. sequence < au_sequence r) (st_audits s))"

section \<open>Events\<close>

definition prepare_event ::
  "store_env \<Rightarrow> string \<Rightarrow> int \<Rightarrow> event_level \<Rightarrow> string \<Rightarrow> fields \<Rightarrow> store_error + event_row" where
  "prepare_event env jid timestamp level message payload =
     (let msg = sanitize_message message
      in case sanitize_object (env_float_repr env) (PDict payload) MAX_EVENT_PAYLOAD_BYTES of
           Inl e \<Rightarrow> Inl (StoreSanitizationError e)
         | Inr safe \<Rightarrow>
             (if \<not> (bounded 1 128 jid \<and> bounded 1 4000 msg) then Inl (StoreValidationError ''JobEvent'')
              else Inr \<lparr>ev_sequence = 1, ev_job_id = jid, ev_timestamp = timestamp, ev_level = level,
                        ev_message = msg, ev_payload = safe\<rparr>))"

definition insert_event :: "event_row \<Rightarrow> store \<Rightarrow> store_error + (nat \<times> store)" where
  "insert_event ev s =
     (if ev_job_id ev \<notin> job_id ` set (st_jobs s) then Inl (IntegrityError ''job_events.job_id'')
      else Inr (Suc (st_event_seq s),
                s\<lparr>st_events := st_events s @ [ev\<lparr>ev_sequence := Suc (st_event_seq s)\<rparr>],
                  st_event_seq := Suc (st_event_seq s)\<rparr>))"

section \<open>Jobs\<close>

record job_record =
  jr_job_id :: string
  jr_request :: job_request
  jr_state :: job_state
  jr_actor :: string
  jr_created_at :: int
  jr_updated_at :: int
  jr_cancel_requested :: bool
  jr_result :: "fields option"
  jr_error :: "error_body option"
  jr_lease_owner :: "string option"
  jr_lease_generation :: nat
  jr_lease_expires_at :: "int option"

definition job_from_row :: "job_row \<Rightarrow> store_error + job_record" where
  "job_from_row r =
     (if bounded 1 128 (job_id r) \<and> bounded 1 255 (job_principal r)
         \<and> (case job_lease_owner r of None \<Rightarrow> True | Some w \<Rightarrow> length w \<le> 255)
         \<and> (case job_error_json r of None \<Rightarrow> True | Some e \<Rightarrow> valid_error_body e)
      then Inr \<lparr>jr_job_id = job_id r, jr_request = job_request_json r, jr_state = job_state r,
                jr_actor = job_principal r, jr_created_at = job_created_at r, jr_updated_at = job_updated_at r,
                jr_cancel_requested = job_cancel_requested r, jr_result = job_result_json r,
                jr_error = job_error_json r, jr_lease_owner = job_lease_owner r,
                jr_lease_generation = job_lease_generation r, jr_lease_expires_at = job_lease_expires_at r\<rparr>
      else Inl (StoreValidationError ''JobRecord''))"

lemma job_from_row_Inr:
  "job_from_row r = Inr rec \<Longrightarrow>
     jr_job_id rec = job_id r \<and> jr_request rec = job_request_json r \<and> jr_state rec = job_state r
     \<and> jr_actor rec = job_principal r \<and> jr_lease_owner rec = job_lease_owner r
     \<and> jr_lease_generation rec = job_lease_generation r \<and> jr_lease_expires_at rec = job_lease_expires_at r"
  by (auto simp: job_from_row_def split: if_splits)

definition insert_job :: "job_row \<Rightarrow> store \<Rightarrow> store_error + store" where
  "insert_job r s =
     (if job_id r \<in> job_id ` set (st_jobs s) then Inl (IntegrityError ''jobs.job_id'')
      else if \<exists>q \<in> set (st_jobs s). job_principal q = job_principal r \<and> job_idempotency_key q = job_idempotency_key r
        then Inl (IntegrityError ''jobs.principal, jobs.idempotency_key'')
      else Inr (s\<lparr>st_jobs := st_jobs s @ [r]\<rparr>))"

definition fetch_job :: "string \<Rightarrow> store \<Rightarrow> job_row option" where
  "fetch_job jid s = fetch job_id jid (st_jobs s)"

definition update_job :: "string \<Rightarrow> (job_row \<Rightarrow> job_row) \<Rightarrow> store \<Rightarrow> store" where
  "update_job jid f s = s\<lparr>st_jobs := update_where (\<lambda>r. job_id r = jid) f (st_jobs s)\<rparr>"

definition require_live_lease :: "job_row \<Rightarrow> string \<Rightarrow> nat \<Rightarrow> int \<Rightarrow> store_error + unit" where
  "require_live_lease r worker_id lease_generation now =
     (let valid = job_state r \<in> {RUNNING, CANCEL_REQUESTED} \<and> job_lease_owner r = Some worker_id
            \<and> job_lease_generation r = lease_generation
            \<and> (case job_lease_expires_at r of None \<Rightarrow> False | Some e \<Rightarrow> e > now)
      in if valid then Inr () else Inl (JobConflictError ''job lease is not current''))"

definition live_lease :: "job_row \<Rightarrow> string \<Rightarrow> nat \<Rightarrow> int \<Rightarrow> bool" where
  "live_lease r w g now \<longleftrightarrow> require_live_lease r w g now = Inr ()"

lemma live_lease_iff:
  "live_lease r w g now \<longleftrightarrow> job_state r \<in> {RUNNING, CANCEL_REQUESTED} \<and> job_lease_owner r = Some w
     \<and> job_lease_generation r = g \<and> (\<exists>e. job_lease_expires_at r = Some e \<and> now < e)"
  by (auto simp: live_lease_def require_live_lease_def Let_def split: option.splits)

lemma require_live_lease_Inr: "require_live_lease r w g now = Inr u \<longleftrightarrow> live_lease r w g now"
  by (simp add: live_lease_def)

lemma require_live_lease_Inl:
  "require_live_lease r w g now = Inl e \<longleftrightarrow> \<not> live_lease r w g now \<and> e = JobConflictError ''job lease is not current''"
  by (auto simp: live_lease_def require_live_lease_def Let_def)

text \<open>What an UPDATE of one job row by its key does to the table.\<close>

lemma job_rows_simps [simp]:
  "st_jobs (update_job jid f s) = update_where (\<lambda>r. job_id r = jid) f (st_jobs s)"
  "st_plans (update_job jid f s) = st_plans s" "st_approvals (update_job jid f s) = st_approvals s"
  "st_capabilities (update_job jid f s) = st_capabilities s" "st_sessions (update_job jid f s) = st_sessions s"
  "st_events (update_job jid f s) = st_events s" "st_event_seq (update_job jid f s) = st_event_seq s"
  "st_audits (update_job jid f s) = st_audits s" "st_audit_seq (update_job jid f s) = st_audit_seq s"
  by (simp_all add: update_job_def)

lemma fetch_job_SomeD: "fetch_job jid s = Some r \<Longrightarrow> r \<in> set (st_jobs s) \<and> job_id r = jid"
  by (auto simp: fetch_job_def dest: fetch_SomeD)

end
