(* ===== verification/Job_Queue.thy ===== *)
theory Job_Queue
  imports Controller_Tables
begin

text \<open>
  The job operations of \<open>ControllerStore\<close>: submission with idempotency and queue limits, the
  consumption of a destructive approval, claims, leases, transitions, cancellation, events and
  queries.  Each operation takes the readings of the clock and of the random sources as
  arguments and returns its result with the store it leaves.
\<close>

section \<open>The transition table\<close>

fun transitions :: "job_state \<Rightarrow> job_state list" where
  "transitions QUEUED = [RUNNING, CANCELLED]"
| "transitions RUNNING = [CANCEL_REQUESTED, SUCCEEDED, PARTIAL_FAILURE, FAILED]"
| "transitions CANCEL_REQUESTED = [CANCELLED, FAILED]"
| "transitions SUCCEEDED = []"
| "transitions PARTIAL_FAILURE = []"
| "transitions FAILED = []"
| "transitions CANCELLED = []"

section \<open>Submission\<close>

text \<open>A result computed inside the transaction or after its commit.\<close>

definition finish :: "('e, ('e, 'a) result) result \<times> 'st \<Rightarrow> ('e, 'a) result \<times> 'st" where
  "finish p = (case p of (Inl e, s) \<Rightarrow> (Inl e, s) | (Inr r, s) \<Rightarrow> (r, s))"

definition protect_request ::
  "store_env \<Rightarrow> bytes \<Rightarrow> job_request \<Rightarrow> string \<Rightarrow> store_error + job_request" where
  "protect_request env nonce request prin =
     (case rq_operation request of
        IdentityOperation command \<Rightarrow>
          (case command of
             SealedInviteUserCommand _ \<Rightarrow>
               Inl (PayloadError (PayloadProtectionError ''sealed invite commands are internal controller records''))
           | InviteUserCommand c \<Rightarrow>
               (case seal_invite_command (env_aead env) (env_codec env) nonce c prin (rq_idempotency_key request) of
                  Inl e \<Rightarrow> Inl (PayloadError e)
                | Inr sealed \<Rightarrow> Inr (request\<lparr>rq_operation := IdentityOperation sealed\<rparr>))
           | _ \<Rightarrow> Inr request)
      | _ \<Rightarrow> Inr request)"

definition find_replay :: "string \<Rightarrow> string \<Rightarrow> store \<Rightarrow> job_row option" where
  "find_replay prin key s =
     find (\<lambda>r. job_principal r = prin \<and> job_idempotency_key r = key) (st_jobs s)"

definition active_of_kinds :: "job_kind list \<Rightarrow> store \<Rightarrow> nat" where
  "active_of_kinds kinds s =
     rowcount (\<lambda>r. job_state r \<in> {QUEUED, RUNNING, CANCEL_REQUESTED}
                 \<and> request_kind (job_request_json r) \<in> set kinds) (st_jobs s)"

definition new_job_row :: "string \<Rightarrow> string \<Rightarrow> string \<Rightarrow> string \<Rightarrow> job_request \<Rightarrow> int \<Rightarrow> job_row" where
  "new_job_row jid prin key hash persisted now =
     \<lparr>job_id = jid, job_principal = prin, job_idempotency_key = key, job_payload_hash = hash,
      job_request_json = persisted, job_state = QUEUED, job_created_at = now, job_updated_at = now,
      job_cancel_requested = False, job_result_json = None, job_error_json = None,
      job_lease_owner = None, job_lease_generation = 0, job_lease_expires_at = None\<rparr>"

definition consume_approval_row :: "int \<Rightarrow> approval_row \<Rightarrow> approval_row" where
  "consume_approval_row now a = a\<lparr>ap_consumed_at := Some now\<rparr>"

definition consume_destructive_approval ::
  "store_env \<Rightarrow> destroy_infra \<Rightarrow> string \<Rightarrow> int \<Rightarrow> store \<Rightarrow> store_error + store" where
  "consume_destructive_approval env op prin now s =
     (case fetch pl_plan_id (di_plan_id op) (st_plans s) of
        None \<Rightarrow> Inl (ApprovalError ''destructive plan is unknown'')
      | Some plan \<Rightarrow>
          if pl_actor plan \<noteq> prin then Inl (ApprovalError ''destructive plan belongs to another actor'')
          else if pl_plan_hash plan \<noteq> di_plan_hash op then Inl (ApprovalError ''destructive plan hash does not match'')
          else if dp_action (pl_spec plan) \<noteq> di_action op
            then Inl (ApprovalError ''destructive action does not match the plan'')
          else if dp_scopes (pl_spec plan) \<noteq> di_scopes op
            then Inl (ApprovalError ''destructive scopes do not match the plan'')
          else if dp_config_revision (pl_spec plan) \<noteq> di_config_revision op
            then Inl (ApprovalError ''configuration revision does not match the plan'')
          else
            (let token_hash = env_sha256 env (di_approval_token op);
                 matching = filter (\<lambda>a. ap_plan_id a = di_plan_id op \<and> ap_actor a = prin
                                     \<and> ap_token_hash a = token_hash) (st_approvals s)
             in case sort_key (\<lambda>a. - ap_created_at a) matching of
                  [] \<Rightarrow> Inl (ApprovalError ''approval is invalid'')
                | approval # _ \<Rightarrow>
                    if ap_consumed_at approval \<noteq> None then Inl (ApprovalError ''approval was already consumed'')
                    else if ap_expires_at approval \<le> now then Inl (ApprovalError ''approval has expired'')
                    else
                      (let hit = (\<lambda>a. ap_approval_id a = ap_approval_id approval \<and> ap_consumed_at a = None)
                       in if rowcount hit (st_approvals s) \<noteq> 1
                          then Inl (ApprovalError ''approval was already consumed'')
                          else Inr (s\<lparr>st_approvals :=
                                 update_where hit (consume_approval_row now) (st_approvals s)\<rparr>))))"

text \<open>The request as it is persisted, with the store after the approval was consumed.\<close>

definition persist_request ::
  "store_env \<Rightarrow> bytes \<Rightarrow> job_request \<Rightarrow> string \<Rightarrow> int \<Rightarrow> store \<Rightarrow> store_error + (job_request \<times> store)" where
  "persist_request env nonce request prin now s =
     (case rq_operation request of
        DestroyInfraOperation op \<Rightarrow>
          (case consume_destructive_approval env op prin now s of
             Inl e \<Rightarrow> Inl e
           | Inr s' \<Rightarrow>
               Inr (request\<lparr>rq_operation :=
                      DestroyInfraOperation (op\<lparr>di_approval_token := ''consumed-approval''\<rparr>)\<rparr>, s'))
      | _ \<Rightarrow>
          (case protect_request env nonce request prin of Inl e \<Rightarrow> Inl e | Inr p \<Rightarrow> Inr (p, s)))"

definition enqueue ::
  "job_request \<Rightarrow> job_request \<Rightarrow> string \<Rightarrow> string \<Rightarrow> int \<Rightarrow> string \<Rightarrow> store \<Rightarrow> store_error + (job_row \<times> store)" where
  "enqueue request persisted hash prin now jid s =
     (let row = new_job_row jid prin (rq_idempotency_key request) hash persisted now
      in case insert_job row s of
           Inl e \<Rightarrow> Inl e
         | Inr s1 \<Rightarrow>
             (case audited now prin ''JOB_CREATE'' (''job:'' @ jid)
                     [(''kind'', DKind (request_kind request)), (''payload_hash'', DText hash)] s1 of
                Inl e \<Rightarrow> Inl e
              | Inr s2 \<Rightarrow> Inr (row, s2)))"

definition submit_body ::
  "store_env \<Rightarrow> job_request \<Rightarrow> string \<Rightarrow> int option \<Rightarrow> job_kind list option \<Rightarrow> int \<Rightarrow> string \<Rightarrow> bytes
     \<Rightarrow> store \<Rightarrow> store_error + ((store_error + (job_record \<times> bool)) \<times> store)" where
  "submit_body env request prin active_limit active_kinds now jid nonce s =
     (let hash = payload_hash env request
      in case find_replay prin (rq_idempotency_key request) s of
           Some existing \<Rightarrow>
             (if job_payload_hash existing \<noteq> hash then Inl IdempotencyConflictError
              else (case job_from_row existing of Inl e \<Rightarrow> Inl e | Inr rec \<Rightarrow> Inr (Inr (rec, False), s)))
         | None \<Rightarrow>
             (if (case active_limit of
                    None \<Rightarrow> False
                  | Some limit \<Rightarrow>
                      int (active_of_kinds
                        (case active_kinds of None \<Rightarrow> [request_kind request] | Some ks \<Rightarrow> ks) s) \<ge> limit)
              then Inl JobQueueLimitError
              else
                (case persist_request env nonce request prin now s of
                   Inl e \<Rightarrow> Inl e
                 | Inr (persisted, s1) \<Rightarrow>
                     (case enqueue request persisted hash prin now jid s1 of
                        Inl e \<Rightarrow> Inl e
                      | Inr (row, s2) \<Rightarrow>
                          Inr (case job_from_row row of Inl e \<Rightarrow> Inl e | Inr rec \<Rightarrow> Inr (rec, True), s2)))))"

definition submit_job ::
  "store_env \<Rightarrow> job_request \<Rightarrow> string \<Rightarrow> int option \<Rightarrow> job_kind list option \<Rightarrow> int \<Rightarrow> string \<Rightarrow> bytes
     \<Rightarrow> (store, store_error, job_record \<times> bool) action" where
  "submit_job env request prin active_limit active_kinds now jid nonce s =
     (if (case active_limit of None \<Rightarrow> False | Some limit \<Rightarrow> limit < 1)
        then (Inl (StoreValueError ''active job limit must be positive''), s)
      else if (case active_kinds of None \<Rightarrow> False | Some ks \<Rightarrow> ks = [] \<or> request_kind request \<notin> set ks)
        then (Inl (StoreValueError ''active job kind scope is invalid''), s)
      else finish (write_tx (submit_body env request prin active_limit active_kinds now jid nonce) s))"

definition create_job ::
  "store_env \<Rightarrow> job_request \<Rightarrow> string \<Rightarrow> int \<Rightarrow> string \<Rightarrow> bytes \<Rightarrow> (store, store_error, job_record) action" where
  "create_job env request prin now jid nonce s =
     (case submit_job env request prin None None now jid nonce s of
        (Inl e, s') \<Rightarrow> (Inl e, s') | (Inr (rec, _), s') \<Rightarrow> (Inr rec, s'))"

section \<open>Batches\<close>

definition is_destroy :: "operation \<Rightarrow> bool" where
  "is_destroy op = (case op of DestroyInfraOperation _ \<Rightarrow> True | _ \<Rightarrow> False)"

text \<open>
  The first loop: replayed requests with their records, and the requests still to insert with
  the persisted form and the hash.
\<close>

fun batch_split ::
  "store_env \<Rightarrow> string \<Rightarrow> (job_request \<times> string \<times> bytes) list \<Rightarrow> store
     \<Rightarrow> store_error + ((string \<times> (job_record \<times> bool)) list
                       \<times> (job_request \<times> job_request \<times> string \<times> string) list)" where
  "batch_split env prin [] s = Inr ([], [])"
| "batch_split env prin ((request, jid, nonce) # rest) s =
     (let hash = payload_hash env request
      in case find_replay prin (rq_idempotency_key request) s of
           Some existing \<Rightarrow>
             (if job_payload_hash existing \<noteq> hash then Inl IdempotencyConflictError
              else (case job_from_row existing of
                      Inl e \<Rightarrow> Inl e
                    | Inr rec \<Rightarrow>
                        (case batch_split env prin rest s of
                           Inl e \<Rightarrow> Inl e
                         | Inr (done_, pending) \<Rightarrow> Inr ((rq_idempotency_key request, (rec, False)) # done_, pending))))
         | None \<Rightarrow>
             (case protect_request env nonce request prin of
                Inl e \<Rightarrow> Inl e
              | Inr persisted \<Rightarrow>
                  (case batch_split env prin rest s of
                     Inl e \<Rightarrow> Inl e
                   | Inr (done_, pending) \<Rightarrow> Inr (done_, (request, persisted, hash, jid) # pending))))"

fun batch_insert ::
  "string \<Rightarrow> int \<Rightarrow> (job_request \<times> job_request \<times> string \<times> string) list \<Rightarrow> store
     \<Rightarrow> store_error + ((string \<times> (job_record \<times> bool)) list \<times> store)" where
  "batch_insert prin now [] s = Inr ([], s)"
| "batch_insert prin now ((request, persisted, hash, jid) # rest) s =
     (case enqueue request persisted hash prin now jid s of
        Inl e \<Rightarrow> Inl e
      | Inr (row, s1) \<Rightarrow>
          (case job_from_row row of
             Inl e \<Rightarrow> Inl e
           | Inr rec \<Rightarrow>
               (case batch_insert prin now rest s1 of
                  Inl e \<Rightarrow> Inl e
                | Inr (made, s2) \<Rightarrow> Inr ((rq_idempotency_key request, (rec, True)) # made, s2))))"

definition batch_body ::
  "store_env \<Rightarrow> (job_request \<times> string \<times> bytes) list \<Rightarrow> string \<Rightarrow> int \<Rightarrow> int \<Rightarrow> store
     \<Rightarrow> store_error + ((string \<times> (job_record \<times> bool)) list \<times> store)" where
  "batch_body env requests prin active_limit now s =
     (case batch_split env prin requests s of
        Inl e \<Rightarrow> Inl e
      | Inr (done_, pending) \<Rightarrow>
          (if int (active_of_kinds (map (request_kind \<circ> fst) (take 1 requests)) s) + int (length pending) > active_limit
           then Inl JobQueueLimitError
           else (case batch_insert prin now pending s of
                   Inl e \<Rightarrow> Inl e
                 | Inr (made, s') \<Rightarrow> Inr (made @ done_, s'))))"

definition submit_job_batch_limited ::
  "store_env \<Rightarrow> (job_request \<times> string \<times> bytes) list \<Rightarrow> string \<Rightarrow> int \<Rightarrow> int
     \<Rightarrow> (store, store_error, (job_record \<times> bool) list) action" where
  "submit_job_batch_limited env requests prin active_limit now s =
     (if requests = [] \<or> int (length requests) > active_limit \<or> active_limit < 1
        then (Inl (StoreValueError ''limited job batch size is invalid''), s)
      else if card (set (map (rq_idempotency_key \<circ> fst) requests)) \<noteq> length requests
        then (Inl (StoreValueError ''limited job batch idempotency keys must be unique''), s)
      else if card (set (map (request_kind \<circ> fst) requests)) \<noteq> 1
              \<or> list_ex (\<lambda>(r, _). is_destroy (rq_operation r)) requests
        then (Inl (StoreValueError ''limited job batches must contain one non-destructive operation kind''), s)
      else
        (case write_tx (batch_body env requests prin active_limit now) s of
           (Inl e, s') \<Rightarrow> (Inl e, s')
         | (Inr results, s') \<Rightarrow>
             (Inr (map (\<lambda>(r, _). the (map_of results (rq_idempotency_key r))) requests), s')))"

section \<open>Claims\<close>

definition claim_row :: "string \<Rightarrow> int \<Rightarrow> int \<Rightarrow> job_row \<Rightarrow> job_row" where
  "claim_row worker_id expires_at now r =
     r\<lparr>job_state := RUNNING, job_lease_owner := Some worker_id,
       job_lease_generation := job_lease_generation r + 1, job_lease_expires_at := Some expires_at,
       job_updated_at := now\<rparr>"

definition MICROS :: int where
  "MICROS = 1000000"

text \<open>The two claims end with the same UPDATE, re-read and audit record.\<close>

definition take_claim :: "string \<Rightarrow> string \<Rightarrow> int \<Rightarrow> int \<Rightarrow> store \<Rightarrow> store_error + (job_row \<times> store)" where
  "take_claim jid worker_id expires_at now s =
     (let s1 = update_job jid (claim_row worker_id expires_at now) s
      in case fetch_job jid s1 of
           None \<Rightarrow> Inl JobNotFoundError
         | Some claimed \<Rightarrow>
             (case audited now worker_id ''JOB_CLAIM'' (''job:'' @ jid)
                     [(''lease_expires_at'', DTime expires_at),
                      (''lease_generation'', DNat (job_lease_generation claimed))] s1 of
                Inl e \<Rightarrow> Inl e
              | Inr s2 \<Rightarrow> Inr (claimed, s2)))"

definition can_claim :: "job_row \<Rightarrow> int \<Rightarrow> bool" where
  "can_claim r now \<longleftrightarrow> job_state r = QUEUED
     \<or> (job_state r = RUNNING \<and> (case job_lease_expires_at r of None \<Rightarrow> False | Some e \<Rightarrow> e \<le> now))"

definition claim_job_body ::
  "string \<Rightarrow> string \<Rightarrow> int \<Rightarrow> int \<Rightarrow> store \<Rightarrow> store_error + (job_row \<times> store)" where
  "claim_job_body jid worker_id lease_seconds now s =
     (case fetch_job jid s of
        None \<Rightarrow> Inl JobNotFoundError
      | Some r \<Rightarrow>
          if \<not> can_claim r now then Inl (JobConflictError ''job is not claimable'')
          else take_claim jid worker_id (now + lease_seconds * MICROS) now s)"

definition row_result :: "(store_error + job_row) \<times> store \<Rightarrow> (store_error + job_record) \<times> store" where
  "row_result p = finish (case p of (r, s) \<Rightarrow> (map_sum id job_from_row r, s))"

definition claim_job :: "string \<Rightarrow> string \<Rightarrow> int \<Rightarrow> int \<Rightarrow> (store, store_error, job_record) action" where
  "claim_job jid worker_id lease_seconds now s =
     (if lease_seconds \<le> 0 then (Inl (StoreValueError ''lease_seconds must be positive''), s)
      else row_result (write_tx (claim_job_body jid worker_id lease_seconds now) s))"

definition recover_cancel_row :: "int \<Rightarrow> job_row \<Rightarrow> job_row" where
  "recover_cancel_row now r =
     r\<lparr>job_state := CANCELLED, job_updated_at := now, job_lease_owner := None, job_lease_expires_at := None\<rparr>"

definition abandoned :: "int \<Rightarrow> job_row \<Rightarrow> bool" where
  "abandoned now r \<longleftrightarrow> job_state r = CANCEL_REQUESTED
     \<and> (case job_lease_expires_at r of None \<Rightarrow> True | Some e \<Rightarrow> e \<le> now)"

definition recover_event :: "string \<Rightarrow> int \<Rightarrow> event_row" where
  "recover_event jid now =
     \<lparr>ev_sequence = 1, ev_job_id = jid, ev_timestamp = now, ev_level = WARNING,
      ev_message = ''Cancellation finalized after worker lease expired'', ev_payload = []\<rparr>"

fun recover_abandoned :: "string \<Rightarrow> int \<Rightarrow> string list \<Rightarrow> store \<Rightarrow> store_error + store" where
  "recover_abandoned worker_id now [] s = Inr s"
| "recover_abandoned worker_id now (jid # rest) s =
     (case insert_event (recover_event jid now) (update_job jid (recover_cancel_row now) s) of
        Inl e \<Rightarrow> Inl e
      | Inr (_, s1) \<Rightarrow>
          (case audited now worker_id ''JOB_CANCEL_RECOVER'' (''job:'' @ jid)
                  [(''from'', DState CANCEL_REQUESTED), (''to'', DState CANCELLED)] s1 of
             Inl e \<Rightarrow> Inl e
           | Inr s2 \<Rightarrow> recover_abandoned worker_id now rest s2))"

definition claim_next_body ::
  "string \<Rightarrow> int \<Rightarrow> int \<Rightarrow> store \<Rightarrow> store_error + (job_row option \<times> store)" where
  "claim_next_body worker_id lease_seconds now s =
     (case recover_abandoned worker_id now
             (map job_id (sort_key job_created_at (filter (abandoned now) (st_jobs s)))) s of
        Inl e \<Rightarrow> Inl e
      | Inr s1 \<Rightarrow>
          (case sort_key job_created_at (filter (\<lambda>r. can_claim r now) (st_jobs s1)) of
             [] \<Rightarrow> Inr (None, s1)
           | r # _ \<Rightarrow>
               (case take_claim (job_id r) worker_id (now + lease_seconds * MICROS) now s1 of
                  Inl e \<Rightarrow> Inl e
                | Inr (claimed, s2) \<Rightarrow> Inr (Some claimed, s2))))"

definition claim_next :: "string \<Rightarrow> int \<Rightarrow> int \<Rightarrow> (store, store_error, job_record option) action" where
  "claim_next worker_id lease_seconds now s =
     (if lease_seconds \<le> 0 then (Inl (StoreValueError ''lease_seconds must be positive''), s)
      else (case write_tx (claim_next_body worker_id lease_seconds now) s of
              (Inl e, s') \<Rightarrow> (Inl e, s')
            | (Inr None, s') \<Rightarrow> (Inr None, s')
            | (Inr (Some r), s') \<Rightarrow>
                (case job_from_row r of Inl e \<Rightarrow> (Inl e, s') | Inr rec \<Rightarrow> (Inr (Some rec), s'))))"

section \<open>Leases\<close>

definition renew_row :: "int \<Rightarrow> int \<Rightarrow> job_row \<Rightarrow> job_row" where
  "renew_row expires_at now r = r\<lparr>job_lease_expires_at := Some expires_at, job_updated_at := now\<rparr>"

definition renew_body ::
  "string \<Rightarrow> string \<Rightarrow> nat \<Rightarrow> int \<Rightarrow> int \<Rightarrow> store \<Rightarrow> store_error + (job_row \<times> store)" where
  "renew_body jid worker_id lease_generation lease_seconds now s =
     (case fetch_job jid s of
        None \<Rightarrow> Inl JobNotFoundError
      | Some r \<Rightarrow>
          (case require_live_lease r worker_id lease_generation now of
             Inl e \<Rightarrow> Inl e
           | Inr _ \<Rightarrow>
               (let s1 = update_job jid (renew_row (now + lease_seconds * MICROS) now) s
                in case fetch_job jid s1 of None \<Rightarrow> Inl JobNotFoundError | Some renewed \<Rightarrow> Inr (renewed, s1))))"

definition renew_lease ::
  "string \<Rightarrow> string \<Rightarrow> nat \<Rightarrow> int \<Rightarrow> int \<Rightarrow> (store, store_error, job_record) action" where
  "renew_lease jid worker_id lease_generation lease_seconds now s =
     (if lease_seconds \<le> 0 then (Inl (StoreValueError ''lease_seconds must be positive''), s)
      else row_result (write_tx (renew_body jid worker_id lease_generation lease_seconds now) s))"

definition assert_lease :: "string \<Rightarrow> string \<Rightarrow> nat \<Rightarrow> int \<Rightarrow> store \<Rightarrow> store_error + job_record" where
  "assert_lease jid worker_id lease_generation now s =
     (case fetch_job jid s of
        None \<Rightarrow> Inl JobNotFoundError
      | Some r \<Rightarrow>
          (case require_live_lease r worker_id lease_generation now of
             Inl e \<Rightarrow> Inl e | Inr _ \<Rightarrow> job_from_row r))"

definition get_job :: "string \<Rightarrow> store \<Rightarrow> store_error + job_record" where
  "get_job jid s = (case fetch_job jid s of None \<Rightarrow> Inl JobNotFoundError | Some r \<Rightarrow> job_from_row r)"

section \<open>Transitions\<close>

definition transition_row ::
  "job_state \<Rightarrow> int \<Rightarrow> fields option \<Rightarrow> error_body option \<Rightarrow> job_row \<Rightarrow> job_row" where
  "transition_row target now result error r =
     r\<lparr>job_state := target, job_updated_at := now, job_result_json := result, job_error_json := error,
       job_lease_owner := (if terminal target then None else job_lease_owner r),
       job_lease_expires_at := (if terminal target then None else job_lease_expires_at r)\<rparr>"

definition safe_result :: "store_env \<Rightarrow> fields option \<Rightarrow> store_error + fields option" where
  "safe_result env result =
     (case result of
        None \<Rightarrow> Inr None
      | Some kvs \<Rightarrow>
          (case sanitize_object (env_float_repr env) (PDict kvs) MAX_RESULT_BYTES of
             Inl e \<Rightarrow> Inl (StoreSanitizationError e) | Inr safe \<Rightarrow> Inr (Some safe)))"

definition safe_error :: "store_env \<Rightarrow> error_body option \<Rightarrow> store_error + error_body option" where
  "safe_error env error =
     (case error of
        None \<Rightarrow> Inr None
      | Some e \<Rightarrow>
          (case sanitize_object (env_float_repr env) (PDict (eb_details e)) MAX_EVENT_PAYLOAD_BYTES of
             Inl x \<Rightarrow> Inl (StoreSanitizationError x)
           | Inr details \<Rightarrow>
               (let body = \<lparr>eb_code = eb_code e, eb_message = sanitize_message (eb_message e), eb_details = details\<rparr>
                in if valid_error_body body then Inr (Some body) else Inl (StoreValidationError ''ErrorBody''))))"

definition opt_event ::
  "store_env \<Rightarrow> string \<Rightarrow> int \<Rightarrow> (event_level \<times> string \<times> fields) option \<Rightarrow> store_error + event_row option" where
  "opt_event env jid now event =
     (case event of
        None \<Rightarrow> Inr None
      | Some (level, message, payload) \<Rightarrow>
          (case prepare_event env jid now level message payload of Inl e \<Rightarrow> Inl e | Inr ev \<Rightarrow> Inr (Some ev)))"

definition store_event :: "event_row option \<Rightarrow> store \<Rightarrow> store_error + store" where
  "store_event ev s =
     (case ev of None \<Rightarrow> Inr s
      | Some row \<Rightarrow> (case insert_event row s of Inl e \<Rightarrow> Inl e | Inr (_, s') \<Rightarrow> Inr s'))"

definition transition_body ::
  "string \<Rightarrow> job_state \<Rightarrow> job_state \<Rightarrow> fields option \<Rightarrow> error_body option \<Rightarrow> event_row option
     \<Rightarrow> string option \<Rightarrow> nat option \<Rightarrow> int \<Rightarrow> store \<Rightarrow> store_error + (job_row \<times> store)" where
  "transition_body jid expected target result error event worker_id lease_generation now s =
     (case fetch_job jid s of
        None \<Rightarrow> Inl JobNotFoundError
      | Some r \<Rightarrow>
          if job_state r \<noteq> expected then Inl (JobConflictError ''job state changed before transition'')
          else
            (case (if expected \<in> {RUNNING, CANCEL_REQUESTED}
                   then (case (worker_id, lease_generation) of
                           (Some w, Some g) \<Rightarrow> require_live_lease r w g now
                         | _ \<Rightarrow> Inl (JobConflictError ''worker lease is required for this transition''))
                   else Inr ()) of
               Inl e \<Rightarrow> Inl e
             | Inr _ \<Rightarrow>
                 (case store_event event (update_job jid (transition_row target now result error) s) of
                    Inl e \<Rightarrow> Inl e
                  | Inr s1 \<Rightarrow>
                      (case audited now
                              (case worker_id of None \<Rightarrow> job_principal r | Some w \<Rightarrow> if w = [] then job_principal r else w)
                              ''JOB_TRANSITION'' (''job:'' @ jid)
                              [(''from'', DState expected), (''to'', DState target)] s1 of
                         Inl e \<Rightarrow> Inl e
                       | Inr s2 \<Rightarrow>
                           (case fetch_job jid s2 of
                              None \<Rightarrow> Inl JobNotFoundError | Some row \<Rightarrow> Inr (row, s2))))))"

definition transition ::
  "store_env \<Rightarrow> string \<Rightarrow> job_state \<Rightarrow> job_state \<Rightarrow> fields option \<Rightarrow> error_body option
     \<Rightarrow> (event_level \<times> string \<times> fields) option \<Rightarrow> string option \<Rightarrow> nat option \<Rightarrow> int
     \<Rightarrow> (store, store_error, job_record) action" where
  "transition env jid expected target result error event worker_id lease_generation now s =
     (if target \<notin> set (transitions expected) then (Inl (JobConflictError ''transition is not allowed''), s)
      else case safe_result env result of Inl e \<Rightarrow> (Inl e, s)
      | Inr res \<Rightarrow>
          (case safe_error env error of Inl e \<Rightarrow> (Inl e, s)
           | Inr err \<Rightarrow>
               (case opt_event env jid now event of Inl e \<Rightarrow> (Inl e, s)
                | Inr ev \<Rightarrow>
                    row_result
                      (write_tx (transition_body jid expected target res err ev worker_id lease_generation now) s))))"

section \<open>Cancellation\<close>

definition cancel_row :: "job_state \<Rightarrow> int \<Rightarrow> job_row \<Rightarrow> job_row" where
  "cancel_row target now r =
     r\<lparr>job_state := target, job_cancel_requested := True, job_updated_at := now,
       job_lease_owner := (if target = CANCELLED then None else job_lease_owner r),
       job_lease_expires_at := (if target = CANCELLED then None else job_lease_expires_at r)\<rparr>"

definition request_cancel_body ::
  "store_env \<Rightarrow> string \<Rightarrow> string \<Rightarrow> int \<Rightarrow> store \<Rightarrow> store_error + (job_row \<times> store)" where
  "request_cancel_body env jid prin now s =
     (case fetch_job jid s of
        None \<Rightarrow> Inl JobNotFoundError
      | Some r \<Rightarrow>
          if \<not> job_can_cancel (request_kind (job_request_json r)) (job_state r)
          then Inl (JobConflictError ''job cannot be cancelled in its current state'')
          else
            (let target = (if job_state r = QUEUED then CANCELLED else CANCEL_REQUESTED);
                 s0 = update_job jid (cancel_row target now) s
             in case (if target = CANCELLED
                      then (case prepare_event env jid now WARNING ''Job cancelled before execution'' [] of
                              Inl e \<Rightarrow> Inl e | Inr ev \<Rightarrow> store_event (Some ev) s0)
                      else Inr s0) of
                  Inl e \<Rightarrow> Inl e
                | Inr s1 \<Rightarrow>
                    (case audited now prin ''JOB_CANCEL_REQUEST'' (''job:'' @ jid)
                            [(''from'', DState (job_state r)), (''to'', DState target)] s1 of
                       Inl e \<Rightarrow> Inl e
                     | Inr s2 \<Rightarrow>
                         (case fetch_job jid s2 of
                            None \<Rightarrow> Inl JobNotFoundError | Some row \<Rightarrow> Inr (row, s2)))))"

definition request_cancel ::
  "store_env \<Rightarrow> string \<Rightarrow> string \<Rightarrow> int \<Rightarrow> (store, store_error, job_record) action" where
  "request_cancel env jid prin now s =
     row_result (write_tx (request_cancel_body env jid prin now) s)"

section \<open>Events\<close>

definition append_event_body ::
  "event_row \<Rightarrow> string option \<Rightarrow> nat option \<Rightarrow> int \<Rightarrow> store \<Rightarrow> store_error + (event_row \<times> store)" where
  "append_event_body prepared worker_id lease_generation now s =
     (case fetch_job (ev_job_id prepared) s of
        None \<Rightarrow> Inl JobNotFoundError
      | Some r \<Rightarrow>
          if (worker_id = None) \<noteq> (lease_generation = None)
          then Inl (JobConflictError ''worker ID and lease generation must be supplied together'')
          else
            (case (case (worker_id, lease_generation) of
                     (Some w, Some g) \<Rightarrow> require_live_lease r w g now | _ \<Rightarrow> Inr ()) of
               Inl e \<Rightarrow> Inl e
             | Inr _ \<Rightarrow>
                 (case insert_event prepared s of
                    Inl e \<Rightarrow> Inl e
                  | Inr (sequence, s') \<Rightarrow> Inr (prepared\<lparr>ev_sequence := sequence\<rparr>, s'))))"

definition append_event ::
  "store_env \<Rightarrow> string \<Rightarrow> event_level \<Rightarrow> string \<Rightarrow> fields \<Rightarrow> string option \<Rightarrow> nat option \<Rightarrow> int
     \<Rightarrow> (store, store_error, event_row) action" where
  "append_event env jid level message payload worker_id lease_generation now s =
     (case prepare_event env jid now level message payload of
        Inl e \<Rightarrow> (Inl e, s)
      | Inr prepared \<Rightarrow> write_tx (append_event_body prepared worker_id lease_generation now) s)"

definition events_after :: "string \<Rightarrow> nat \<Rightarrow> int \<Rightarrow> store \<Rightarrow> store_error + event_row list" where
  "events_after jid sequence limit s =
     (if limit < 1 \<or> limit > 500 then Inl (StoreValueError ''event replay limit must be between 1 and 500'')
      else if fetch_job jid s = None then Inl JobNotFoundError
      else Inr (take (nat limit)
             (sort_key ev_sequence (filter (\<lambda>e. ev_job_id e = jid \<and> sequence < ev_sequence e) (st_events s)))))"

section \<open>Queries\<close>

definition active_job_counts :: "store \<Rightarrow> nat \<times> nat" where
  "active_job_counts s =
     (rowcount (\<lambda>r. job_state r = QUEUED) (st_jobs s),
      rowcount (\<lambda>r. job_state r = RUNNING) (st_jobs s) + rowcount (\<lambda>r. job_state r = CANCEL_REQUESTED) (st_jobs s))"

text \<open>ORDER BY created_at DESC, rowid DESC.\<close>

definition newest_first :: "job_row list \<Rightarrow> job_row list" where
  "newest_first rows = rev (sort_key job_created_at rows)"

fun records :: "job_row list \<Rightarrow> store_error + job_record list" where
  "records [] = Inr []"
| "records (r # rs) =
     (case job_from_row r of
        Inl e \<Rightarrow> Inl e
      | Inr x \<Rightarrow> (case records rs of Inl e \<Rightarrow> Inl e | Inr xs \<Rightarrow> Inr (x # xs)))"

definition require_principal :: "string \<Rightarrow> store_error + unit" where
  "require_principal prin =
     (if prin = [] \<or> length prin > 200 \<or> list_ex (\<lambda>c. code c < 32) prin
      then Inl (BootstrapCapabilityError ''bootstrap principal is invalid'') else Inr ())"

text \<open>
  \<open>active_jobs\<close> reads the 100 newest active rows and filters the kinds afterwards.  SQL leaves the
  order of equal \<open>created_at\<close> values open; the model takes the newer row first.
\<close>

definition active_jobs :: "string option \<Rightarrow> job_kind list \<Rightarrow> int \<Rightarrow> store \<Rightarrow> store_error + job_record list" where
  "active_jobs prin kinds limit s =
     (case (case prin of None \<Rightarrow> Inr () | Some p \<Rightarrow> require_principal p) of
        Inl e \<Rightarrow> Inl e
      | Inr _ \<Rightarrow>
          if kinds = [] \<or> limit < 1 \<or> limit > 50 then Inl (StoreValueError ''active job query is invalid'')
          else
            (case records (take 100 (newest_first
                    (filter (\<lambda>r. (case prin of None \<Rightarrow> True | Some p \<Rightarrow> job_principal r = p)
                                \<and> job_state r \<in> {QUEUED, RUNNING, CANCEL_REQUESTED}) (st_jobs s)))) of
               Inl e \<Rightarrow> Inl e
             | Inr js \<Rightarrow> Inr (take (nat limit) (filter (\<lambda>j. request_kind (jr_request j) \<in> set kinds) js))))"

definition recent_jobs :: "string option \<Rightarrow> int \<Rightarrow> store \<Rightarrow> store_error + job_record list" where
  "recent_jobs prin limit s =
     (case (case prin of None \<Rightarrow> Inr () | Some p \<Rightarrow> require_principal p) of
        Inl e \<Rightarrow> Inl e
      | Inr _ \<Rightarrow>
          if limit < 1 \<or> limit > 200 then Inl (StoreValueError ''recent job limit must be between 1 and 200'')
          else records (take (nat limit) (newest_first
                 (filter (\<lambda>r. case prin of None \<Rightarrow> True | Some p \<Rightarrow> job_principal r = p) (st_jobs s)))))"

definition recent_service_verification_jobs :: "string \<Rightarrow> int \<Rightarrow> store \<Rightarrow> store_error + job_record list" where
  "recent_service_verification_jobs service limit s =
     (if \<not> service_name service then Inl (StoreValidationError ''ServiceVerifyOperation'')
      else if limit < 1 \<or> limit > 50
        then Inl (StoreValueError ''service verification job limit must be between 1 and 50'')
      else records (take (nat limit) (newest_first
             (filter (\<lambda>r. rq_operation (job_request_json r) = ServiceVerifyOperation service) (st_jobs s)))))"

end
