(* ===== verification/Job_Steps.thy ===== *)
theory Job_Steps
  imports Job_Queue
begin

text \<open>
  What the job operations do to the rows of the jobs table.  \<open>row_step\<close> is the relation between a
  row before and after one operation, one rule per UPDATE statement with the guard the code
  checks first; \<open>table_step\<close> lifts it to the table, to which an operation may also append new
  queued rows.  Every operation is shown to be a \<open>table_step\<close>, so that a property of rows
  proved once by cases on \<open>row_step\<close> holds for all of them.
\<close>

section \<open>The UPDATE statements keep the primary key\<close>

interpretation claim_upd: row_update job_id "claim_row w e n" for w e n
  by unfold_locales (simp add: claim_row_def)

interpretation recover_upd: row_update job_id "recover_cancel_row n" for n
  by unfold_locales (simp add: recover_cancel_row_def)

interpretation renew_upd: row_update job_id "renew_row e n" for e n
  by unfold_locales (simp add: renew_row_def)

interpretation transition_upd: row_update job_id "transition_row t n res err" for t n res err
  by unfold_locales (simp add: transition_row_def)

interpretation cancel_upd: row_update job_id "cancel_row t n" for t n
  by unfold_locales (simp add: cancel_row_def)

lemmas row_defs = claim_row_def recover_cancel_row_def renew_row_def transition_row_def cancel_row_def

section \<open>Steps of a row\<close>

inductive row_step :: "int \<Rightarrow> job_row \<Rightarrow> job_row \<Rightarrow> bool" for now where
  same: "row_step now r r"
| claim: "can_claim r now \<Longrightarrow> bounded 1 255 w \<Longrightarrow> row_step now r (claim_row w e now r)"
| recover: "abandoned now r \<Longrightarrow> row_step now r (recover_cancel_row now r)"
| renew: "live_lease r w g now \<Longrightarrow> row_step now r (renew_row e now r)"
| finish: "live_lease r w g now \<Longrightarrow> target \<in> set (transitions (job_state r)) \<Longrightarrow>
     (\<And>b. err = Some b \<Longrightarrow> valid_error_body b) \<Longrightarrow> row_step now r (transition_row target now res err r)"
| unleased: "job_state r = QUEUED \<Longrightarrow> target \<in> set (transitions QUEUED) \<Longrightarrow>
     (\<And>b. err = Some b \<Longrightarrow> valid_error_body b) \<Longrightarrow> row_step now r (transition_row target now res err r)"
| cancel: "job_can_cancel (request_kind (job_request_json r)) (job_state r) \<Longrightarrow>
     row_step now r (cancel_row (if job_state r = QUEUED then CANCELLED else CANCEL_REQUESTED) now r)"

inductive_cases row_stepE: "row_step now r r'"

definition fresh_row :: "job_row \<Rightarrow> bool" where
  "fresh_row r \<longleftrightarrow> job_state r = QUEUED \<and> job_lease_owner r = None \<and> job_lease_expires_at r = None
     \<and> job_lease_generation r = 0 \<and> \<not> job_cancel_requested r \<and> job_result_json r = None
     \<and> job_error_json r = None \<and> bounded 1 255 (job_principal r)"

definition table_step :: "int \<Rightarrow> job_row list \<Rightarrow> job_row list \<Rightarrow> bool" where
  "table_step now rows rows' \<longleftrightarrow>
     (\<exists>old new. rows' = old @ new \<and> list_all2 (row_step now) rows old \<and> list_all fresh_row new
        \<and> (distinct (map job_id rows) \<longrightarrow> distinct (map job_id rows'))
        \<and> (distinct (map (\<lambda>r. (job_principal r, job_idempotency_key r)) rows) \<longrightarrow>
             distinct (map (\<lambda>r. (job_principal r, job_idempotency_key r)) rows')))"

lemma row_step_frame:
  "row_step now r r' \<Longrightarrow>
     job_id r' = job_id r \<and> job_principal r' = job_principal r
     \<and> job_idempotency_key r' = job_idempotency_key r \<and> job_payload_hash r' = job_payload_hash r
     \<and> job_request_json r' = job_request_json r \<and> job_created_at r' = job_created_at r"
  by (auto elim!: row_stepE simp: row_defs)

lemma row_step_keys:
  assumes "list_all2 (row_step now) rows rows'"
  shows "map job_id rows' = map job_id rows"
    and "map (\<lambda>r. (job_principal r, job_idempotency_key r)) rows'
           = map (\<lambda>r. (job_principal r, job_idempotency_key r)) rows"
  using assms by (induction rule: list_all2_induct) (auto dest: row_step_frame)

lemma table_step_old: "list_all2 (row_step now) rows rows' \<Longrightarrow> table_step now rows rows'"
  unfolding table_step_def using row_step_keys by (intro exI [of _ rows'] exI [of _ "[]"]) simp

lemma table_step_refl [simp]: "table_step now rows rows"
  by (intro table_step_old list_all2_refl row_step.same)

section \<open>The state machine of one job\<close>

lemma row_step_states:
  "row_step now r r' \<Longrightarrow>
     job_state r' = job_state r \<or> job_state r' \<in> set (transitions (job_state r))"
proof (erule row_stepE)
  fix w e assume c: "r' = claim_row w e now r" "can_claim r now"
  then show ?thesis by (cases "job_state r") (auto simp: claim_row_def can_claim_def)
next
  assume c: "r' = recover_cancel_row now r" "abandoned now r"
  then show ?thesis by (auto simp: recover_cancel_row_def abandoned_def)
next
  assume c: "r' = cancel_row (if job_state r = QUEUED then CANCELLED else CANCEL_REQUESTED) now r"
    "job_can_cancel (request_kind (job_request_json r)) (job_state r)"
  then show ?thesis by (cases "job_state r") (auto simp: cancel_row_def job_can_cancel_def)
qed (auto simp: renew_row_def transition_row_def)

lemma row_step_terminal: "row_step now r r' \<Longrightarrow> terminal (job_state r) \<Longrightarrow> r' = r"
  by (erule row_stepE)
    (auto simp: can_claim_def abandoned_def live_lease_iff job_can_cancel_def split: if_splits)

lemma row_step_generation:
  "row_step now r r' \<Longrightarrow>
     job_lease_generation r' = job_lease_generation r
     \<or> (job_lease_generation r' = Suc (job_lease_generation r) \<and> can_claim r now \<and> job_state r' = RUNNING)"
  by (erule row_stepE) (auto simp: row_defs)

text \<open>A live lease cannot be stolen: only its holder renews or finishes the job.\<close>

lemma live_lease_excludes_claim: "live_lease r w g now \<Longrightarrow> \<not> can_claim r now \<and> \<not> abandoned now r"
  by (auto simp: live_lease_iff can_claim_def abandoned_def)

lemma row_step_live:
  assumes "row_step now r r'" and "live_lease r w g now"
  shows "job_lease_generation r' = g \<and> (job_lease_owner r' = Some w \<or> terminal (job_state r'))"
  using assms live_lease_excludes_claim [OF assms(2)]
  by (auto elim!: row_stepE simp: row_defs live_lease_iff job_can_cancel_def split: if_splits)

section \<open>Well-formed rows\<close>

text \<open>
  The lease columns are set exactly in the two states that hold a lease, except that a job moved
  from QUEUED to RUNNING by \<open>transition\<close> itself has none; the row can be read back as a record.
\<close>

definition wf_row :: "job_row \<Rightarrow> bool" where
  "wf_row r \<longleftrightarrow>
     (job_state r \<in> {RUNNING, CANCEL_REQUESTED} \<or> (job_lease_owner r = None \<and> job_lease_expires_at r = None))
     \<and> (job_lease_owner r = None \<longleftrightarrow> job_lease_expires_at r = None)
     \<and> bounded 1 255 (job_principal r)
     \<and> (case job_lease_owner r of None \<Rightarrow> True | Some w \<Rightarrow> bounded 1 255 w)
     \<and> (case job_error_json r of None \<Rightarrow> True | Some e \<Rightarrow> valid_error_body e)"

lemma fresh_row_wf: "fresh_row r \<Longrightarrow> wf_row r"
  by (auto simp: fresh_row_def wf_row_def)

lemma row_step_wf: "row_step now r r' \<Longrightarrow> wf_row r \<Longrightarrow> wf_row r'"
  by (erule row_stepE)
    (auto simp: row_defs wf_row_def live_lease_iff job_can_cancel_def split: if_splits option.splits)

lemma table_step_wf:
  assumes "table_step now rows rows'" and "list_all wf_row rows"
  shows "list_all wf_row rows'"
proof -
  obtain old new where rows': "rows' = old @ new" and old: "list_all2 (row_step now) rows old"
    and new: "list_all fresh_row new"
    using assms(1) by (auto simp: table_step_def)
  from old assms(2) have "list_all wf_row old"
    by (induction rule: list_all2_induct) (auto intro: row_step_wf)
  with new rows' show ?thesis by (auto simp: list_all_iff fresh_row_wf)
qed

lemma wf_row_readable: "wf_row r \<Longrightarrow> bounded 1 128 (job_id r) \<Longrightarrow> \<exists>rec. job_from_row r = Inr rec"
  by (auto simp: wf_row_def job_from_row_def bounded_def split: option.splits)

section \<open>Following one job through the table\<close>

lemma table_step_fetch:
  assumes "table_step now rows rows'" and "fetch job_id jid rows = Some r"
  shows "\<exists>r'. fetch job_id jid rows' = Some r' \<and> row_step now r r'"
proof -
  obtain old new where rows': "rows' = old @ new" and old: "list_all2 (row_step now) rows old"
    using assms(1) by (auto simp: table_step_def)
  from old assms(2) have "\<exists>r'. fetch job_id jid old = Some r' \<and> row_step now r r'"
    by (induction rule: list_all2_induct) (auto dest: row_step_frame split: if_splits)
  then show ?thesis by (auto simp: rows' fetch_append)
qed

lemma update_row_step:
  assumes "distinct (map job_id rows)" and "fetch job_id jid rows = Some r" and "row_step now r (f r)"
  shows "list_all2 (row_step now) rows (update_where (\<lambda>r. job_id r = jid) f rows)"
proof -
  have "row_step now q (if job_id q = jid then f q else q)" if "q \<in> set rows" for q
  proof (cases "job_id q = jid")
    case True
    with that assms(2) have "q = r" by (metis fetch_eq_Some_iff [OF assms(1)] option.inject)
    with True assms(3) show ?thesis by simp
  qed (simp add: row_step.same)
  then show ?thesis
    by (simp add: update_where_def list.rel_map list.rel_refl_strong)
qed

end
