(* ===== verification/Job_Ops.thy ===== *)
theory Job_Ops
  imports Job_Steps
begin

text \<open>
  Each job operation as a step of the jobs table, with what it leaves alone: the frame lemmas,
  the \<open>table_step\<close> lemmas and the rollback contract of every operation.
\<close>

section \<open>Rollback\<close>

lemma finish_cases:
  assumes "finish (write_tx body s) = (r, s')"
  obtains (rolled_back) e where "body s = Inl e" "r = Inl e" "s' = s"
    | (committed) "body s = Inr (r, s')"
  using assms by (auto simp: finish_def write_tx_def split: sum.splits prod.splits)

lemma row_result_cases:
  assumes "row_result (write_tx body s) = (r, s')"
  obtains (rolled_back) e where "body s = Inl e" "r = Inl e" "s' = s"
    | (committed) row where "body s = Inr (row, s')" "r = job_from_row row"
  using assms by (auto simp: row_result_def finish_def write_tx_def split: sum.splits prod.splits)

section \<open>Submission\<close>

lemma consume_frame:
  "consume_destructive_approval env op prin now s = Inr s' \<Longrightarrow>
     st_jobs s' = st_jobs s \<and> st_events s' = st_events s \<and> st_event_seq s' = st_event_seq s
     \<and> st_audits s' = st_audits s \<and> st_audit_seq s' = st_audit_seq s \<and> st_plans s' = st_plans s
     \<and> st_capabilities s' = st_capabilities s \<and> st_sessions s' = st_sessions s"
  by (auto simp: consume_destructive_approval_def Let_def split: option.splits if_splits list.splits)

lemma persist_frame:
  "persist_request env nonce request prin now s = Inr (p, s') \<Longrightarrow>
     st_jobs s' = st_jobs s \<and> st_events s' = st_events s \<and> st_event_seq s' = st_event_seq s
     \<and> st_audits s' = st_audits s \<and> st_audit_seq s' = st_audit_seq s \<and> st_plans s' = st_plans s
     \<and> st_capabilities s' = st_capabilities s \<and> st_sessions s' = st_sessions s"
  by (auto simp: persist_request_def split: operation.splits sum.splits dest: consume_frame)

lemma enqueue_Inr:
  assumes "enqueue request persisted hash prin now jid s = Inr (row, s')"
  shows "row = new_job_row jid prin (rq_idempotency_key request) hash persisted now
     \<and> st_jobs s' = st_jobs s @ [row] \<and> jid \<notin> job_id ` set (st_jobs s)
     \<and> find_replay prin (rq_idempotency_key request) s = None
     \<and> bounded 1 255 prin \<and> length jid \<le> 508
     \<and> st_events s' = st_events s \<and> st_event_seq s' = st_event_seq s \<and> st_approvals s' = st_approvals s
     \<and> st_plans s' = st_plans s \<and> st_capabilities s' = st_capabilities s \<and> st_sessions s' = st_sessions s"
  using assms
  by (auto simp: enqueue_def insert_job_def Let_def audited_Inr new_job_row_def find_replay_def
      find_None_iff bounded_def split: sum.splits if_splits)

lemma new_job_row_fresh: "bounded 1 255 prin \<Longrightarrow> fresh_row (new_job_row jid prin key hash p now)"
  by (simp add: fresh_row_def new_job_row_def)

lemma find_replay_None_key:
  "find_replay prin key s = None \<longleftrightarrow> (prin, key) \<notin> (\<lambda>r. (job_principal r, job_idempotency_key r)) ` set (st_jobs s)"
  by (auto simp: find_replay_def find_None_iff)

lemma enqueue_table_step:
  assumes "enqueue request persisted hash prin now jid s = Inr (row, s')"
  shows "table_step now (st_jobs s) (st_jobs s')"
proof -
  note e = enqueue_Inr [OF assms]
  then have "fresh_row row" and jobs: "st_jobs s' = st_jobs s @ [row]" by (auto intro: new_job_row_fresh)
  moreover have "job_id row \<notin> job_id ` set (st_jobs s)"
    and "(job_principal row, job_idempotency_key row)
           \<notin> (\<lambda>r. (job_principal r, job_idempotency_key r)) ` set (st_jobs s)"
    using e by (auto simp: new_job_row_def find_replay_None_key)
  ultimately show ?thesis
    unfolding table_step_def
    by (intro exI [of _ "st_jobs s"] exI [of _ "[row]"]) (simp add: list_all2_refl row_step.same)
qed

lemma submit_body_cases:
  assumes "submit_body env request prin limit kinds now jid nonce s = Inr (r, s')"
  obtains (replay) existing rec where "find_replay prin (rq_idempotency_key request) s = Some existing"
      "job_payload_hash existing = payload_hash env request" "job_from_row existing = Inr rec"
      "r = Inr (rec, False)" "s' = s"
    | (created) persisted s1 row where "find_replay prin (rq_idempotency_key request) s = None"
      "persist_request env nonce request prin now s = Inr (persisted, s1)"
      "enqueue request persisted (payload_hash env request) prin now jid s1 = Inr (row, s')"
      "r = (case job_from_row row of Inl e \<Rightarrow> Inl e | Inr rec \<Rightarrow> Inr (rec, True))"
      "case limit of None \<Rightarrow> True
       | Some l \<Rightarrow> int (active_of_kinds (case kinds of None \<Rightarrow> [request_kind request] | Some ks \<Rightarrow> ks) s) < l"
  using assms
  by (auto simp: submit_body_def Let_def not_le split: option.splits if_splits sum.splits)

lemma submit_job_table_step:
  assumes "submit_job env request prin limit kinds now jid nonce s = (r, s')"
  shows "table_step now (st_jobs s) (st_jobs s')"
proof -
  have "s' = s \<or> submit_body env request prin limit kinds now jid nonce s = Inr (r, s')"
    using assms by (auto simp: submit_job_def split: if_splits option.splits elim: finish_cases)
  then show ?thesis
  proof
    assume "submit_body env request prin limit kinds now jid nonce s = Inr (r, s')"
    then show ?thesis
    proof (cases rule: submit_body_cases)
      case (created persisted s1 row)
      from persist_frame [OF created(2)] enqueue_table_step [OF created(3)] show ?thesis by simp
    qed simp
  qed simp
qed

section \<open>Batches\<close>

lemma table_step_trans_append:
  assumes "table_step now rows rows'" and "rows'' = rows' @ [row]" and "fresh_row row"
    and "job_id row \<notin> job_id ` set rows'"
    and "(job_principal row, job_idempotency_key row) \<notin> (\<lambda>r. (job_principal r, job_idempotency_key r)) ` set rows'"
  shows "table_step now rows rows''"
proof -
  obtain old new where "rows' = old @ new" "list_all2 (row_step now) rows old" "list_all fresh_row new"
    "distinct (map job_id rows) \<longrightarrow> distinct (map job_id rows')"
    "distinct (map (\<lambda>r. (job_principal r, job_idempotency_key r)) rows) \<longrightarrow>
       distinct (map (\<lambda>r. (job_principal r, job_idempotency_key r)) rows')"
    using assms(1) by (auto simp: table_step_def)
  with assms(2-) show ?thesis
    unfolding table_step_def by (intro exI [of _ old] exI [of _ "new @ [row]"]) auto
qed

lemma batch_insert_table_step:
  "batch_insert prin now pending s = Inr (made, s') \<Longrightarrow> table_step now rows (st_jobs s)
     \<Longrightarrow> table_step now rows (st_jobs s')"
proof (induction prin now pending s arbitrary: made rule: batch_insert.induct)
  case (2 prin now request persisted hash jid rest s)
  from "2.prems"(1) obtain row s1 rec made' where e: "enqueue request persisted hash prin now jid s = Inr (row, s1)"
    and rec: "job_from_row row = Inr rec" and rest: "batch_insert prin now rest s1 = Inr (made', s')"
    by (auto split: sum.splits)
  note q = enqueue_Inr [OF e]
  have "table_step now rows (st_jobs s1)"
    using "2.prems"(2) by (rule table_step_trans_append)
      (use q in \<open>auto simp: new_job_row_fresh new_job_row_def find_replay_None_key fresh_row_def\<close>)
  with "2.IH" [OF e _ rec] rest show ?case by blast
qed auto

lemma batch_table_step:
  assumes "submit_job_batch_limited env requests prin limit now s = (r, s')"
  shows "table_step now (st_jobs s) (st_jobs s')"
proof -
  have "s' = s \<or> (\<exists>results. batch_body env requests prin limit now s = Inr (results, s'))"
    using assms
    by (auto simp: submit_job_batch_limited_def write_tx_def split: if_splits sum.splits prod.splits)
  then show ?thesis
    by (auto simp: batch_body_def split: sum.splits if_splits
        intro: batch_insert_table_step [OF _ table_step_refl])
qed

section \<open>Claims\<close>

lemma take_claim_Inr:
  assumes "take_claim jid w e now s = Inr (claimed, s')" and "fetch_job jid s = Some r"
  shows "claimed = claim_row w e now r
     \<and> st_jobs s' = update_where (\<lambda>r. job_id r = jid) (claim_row w e now) (st_jobs s)
     \<and> bounded 1 255 w \<and> st_events s' = st_events s \<and> st_event_seq s' = st_event_seq s"
  using assms
  by (auto simp: take_claim_def Let_def audited_Inr fetch_job_def claim_upd.fetch_hit
      split: option.splits sum.splits)

lemma take_claim_table_step:
  assumes "take_claim jid w e now s = Inr (claimed, s')" and "fetch_job jid s = Some r"
    and "can_claim r now" and "distinct (map job_id (st_jobs s))"
  shows "list_all2 (row_step now) (st_jobs s) (st_jobs s')"
  using take_claim_Inr [OF assms(1,2)] assms(2-4)
  by (auto simp: fetch_job_def intro!: update_row_step row_step.claim)

lemma claim_job_table_step:
  assumes "claim_job jid w secs now s = (r, s')" and "distinct (map job_id (st_jobs s))"
  shows "table_step now (st_jobs s) (st_jobs s')"
proof -
  have "s' = s \<or> (\<exists>row. claim_job_body jid w secs now s = Inr (row, s'))"
    using assms(1) by (auto simp: claim_job_def split: if_splits elim: row_result_cases)
  then show ?thesis
  proof
    assume "\<exists>row. claim_job_body jid w secs now s = Inr (row, s')"
    then obtain row q where "fetch_job jid s = Some q" "can_claim q now"
      "take_claim jid w (now + secs * MICROS) now s = Inr (row, s')"
      by (auto simp: claim_job_body_def split: option.splits if_splits)
    with assms(2) show ?thesis by (intro table_step_old take_claim_table_step)
  qed simp
qed

lemma recover_cancel_row_idem: "recover_cancel_row n (recover_cancel_row n r) = recover_cancel_row n r"
  by (simp add: recover_cancel_row_def)

lemma insert_event_Inr:
  "insert_event ev s = Inr (n, s') \<longleftrightarrow> ev_job_id ev \<in> job_id ` set (st_jobs s) \<and> n = Suc (st_event_seq s)
     \<and> s' = s\<lparr>st_events := st_events s @ [ev\<lparr>ev_sequence := Suc (st_event_seq s)\<rparr>],
              st_event_seq := Suc (st_event_seq s)\<rparr>"
  by (auto simp: insert_event_def)

lemma recover_abandoned_jobs:
  "recover_abandoned w now jids s = Inr s' \<Longrightarrow>
     st_jobs s' = update_where (\<lambda>r. job_id r \<in> set jids) (recover_cancel_row now) (st_jobs s)"
proof (induction w now jids s rule: recover_abandoned.induct)
  case (1 w now s)
  then show ?case by (simp add: update_where_none)
next
  case (2 w now jid rest s)
  from "2.prems" obtain n s1 s2 where ev: "insert_event (recover_event jid now) (update_job jid (recover_cancel_row now) s) = Inr (n, s1)"
    and au: "audited now w ''JOB_CANCEL_RECOVER'' (''job:'' @ jid)
               [(''from'', DState CANCEL_REQUESTED), (''to'', DState CANCELLED)] s1 = Inr s2"
    and rest: "recover_abandoned w now rest s2 = Inr s'"
    by (auto split: sum.splits)
  have "st_jobs s2 = update_where (\<lambda>r. job_id r = jid) (recover_cancel_row now) (st_jobs s)"
    using ev au by (auto simp: insert_event_Inr audited_Inr)
  with "2.IH" [OF ev _ au] rest show ?case
    by (auto simp: update_where_def recover_cancel_row_idem recover_upd.key_upd)
qed

lemma recover_abandoned_sweep:
  assumes "recover_abandoned w now (map job_id (sort_key job_created_at (filter (abandoned now) (st_jobs s)))) s = Inr s'"
    and "distinct (map job_id (st_jobs s))"
  shows "st_jobs s' = update_where (abandoned now) (recover_cancel_row now) (st_jobs s)"
proof -
  have "job_id r \<in> job_id ` {q \<in> set (st_jobs s). abandoned now q} \<longleftrightarrow> abandoned now r"
    if "r \<in> set (st_jobs s)" for r
    using that assms(2) by (auto simp: distinct_map dest: inj_onD)
  then show ?thesis
    using recover_abandoned_jobs [OF assms(1)] by (auto intro: update_where_cong)
qed

lemma sort_key_hd_in: "sort_key k xs = y # ys \<Longrightarrow> y \<in> set xs"
  by (metis list.set_intros(1) set_sort)

lemma claim_next_body_cases:
  assumes "claim_next_body w secs now s = Inr (claimed, s')" and "distinct (map job_id (st_jobs s))"
  obtains (none) "claimed = None" "st_jobs s' = update_where (abandoned now) (recover_cancel_row now) (st_jobs s)"
      "\<And>r. r \<in> set (st_jobs s') \<Longrightarrow> \<not> can_claim r now"
    | (some) s1 r rest where "st_jobs s1 = update_where (abandoned now) (recover_cancel_row now) (st_jobs s)"
      "sort_key job_created_at (filter (\<lambda>r. can_claim r now) (st_jobs s1)) = r # rest"
      "fetch_job (job_id r) s1 = Some r" "can_claim r now"
      "take_claim (job_id r) w (now + secs * MICROS) now s1 = Inr (claim_row w (now + secs * MICROS) now r, s')"
      "claimed = Some (claim_row w (now + secs * MICROS) now r)"
proof -
  from assms(1) obtain s1 where sw: "recover_abandoned w now
      (map job_id (sort_key job_created_at (filter (abandoned now) (st_jobs s)))) s = Inr s1"
    by (auto simp: claim_next_body_def split: sum.splits)
  note jobs1 = recover_abandoned_sweep [OF sw assms(2)]
  have d1: "distinct (map job_id (st_jobs s1))"
    using assms(2) by (simp add: jobs1 recover_upd.distinct_keys)
  show thesis
  proof (cases "sort_key job_created_at (filter (\<lambda>r. can_claim r now) (st_jobs s1))")
    case Nil
    then have "filter (\<lambda>r. can_claim r now) (st_jobs s1) = []" by (metis length_0_conv length_sort)
    with assms(1) sw Nil jobs1 show thesis
      by (intro none) (auto simp: claim_next_body_def filter_empty_conv)
  next
    case (Cons r rest)
    then have r: "r \<in> set (st_jobs s1)" "can_claim r now" using sort_key_hd_in [OF Cons] by auto
    then have f: "fetch_job (job_id r) s1 = Some r" using d1 by (simp add: fetch_job_def fetch_eq_Some_iff)
    from assms(1) sw Cons obtain c where t: "take_claim (job_id r) w (now + secs * MICROS) now s1 = Inr (c, s')"
      and c: "claimed = Some c"
      by (auto simp: claim_next_body_def split: sum.splits)
    with take_claim_Inr [OF t f] show thesis using some [OF jobs1 Cons f r(2)] by simp
  qed
qed

lemma sweep_row_step: "list_all2 (row_step now) rows (update_where (abandoned now) (recover_cancel_row now) rows)"
  by (auto simp: update_where_def list.rel_map intro!: list.rel_refl_strong intro: row_step.intros)

lemma swept_or_same: "q = recover_cancel_row now r \<Longrightarrow> \<not> can_claim q now"
  by (simp add: recover_cancel_row_def can_claim_def)

lemma claim_after_sweep:
  assumes "distinct (map job_id rows)"
    and "rows1 = update_where (abandoned now) (recover_cancel_row now) rows"
    and "fetch job_id jid rows1 = Some r" and "can_claim r now" and "bounded 1 255 w"
  shows "list_all2 (row_step now) rows (update_where (\<lambda>r. job_id r = jid) (claim_row w e now) rows1)"
proof -
  have d1: "distinct (map job_id rows1)" using assms(1,2) by (simp add: recover_upd.distinct_keys)
  have step: "row_step now q (if job_id (if abandoned now q then recover_cancel_row now q else q) = jid
                        then claim_row w e now (if abandoned now q then recover_cancel_row now q else q)
                        else (if abandoned now q then recover_cancel_row now q else q))"
    (is "row_step now q (if job_id ?q = jid then _ else _)") if "q \<in> set rows" for q
  proof (cases "job_id ?q = jid")
    case True
    have "?q \<in> set rows1" using that by (auto simp: assms(2) set_update_where)
    with True have "fetch job_id jid rows1 = Some ?q" by (simp only: fetch_eq_Some_iff [OF d1])
    with assms(3) have qr: "?q = r" by simp
    have "\<not> abandoned now q"
    proof
      assume "abandoned now q"
      with qr have "r = recover_cancel_row now q" by simp
      then show False using assms(4) swept_or_same by blast
    qed
    with qr assms(4,5) True show ?thesis by (auto intro: row_step.claim)
  next
    case False
    then show ?thesis by (auto intro: row_step.intros)
  qed
  show ?thesis
    unfolding assms(2) update_where_def list.map_comp comp_def list.rel_map
    by (rule list.rel_refl_strong) (rule step)
qed

lemma claim_next_table_step:
  assumes "claim_next w secs now s = (r, s')" and "distinct (map job_id (st_jobs s))"
  shows "table_step now (st_jobs s) (st_jobs s')"
proof -
  have "s' = s \<or> (\<exists>c. claim_next_body w secs now s = Inr (c, s'))"
    using assms(1)
    by (auto simp: claim_next_def write_tx_def split: if_splits sum.splits option.splits prod.splits)
  then show ?thesis
  proof
    assume "\<exists>c. claim_next_body w secs now s = Inr (c, s')"
    then obtain c where "claim_next_body w secs now s = Inr (c, s')" ..
    then show ?thesis
      using assms(2)
    proof (cases rule: claim_next_body_cases)
      case none
      then show ?thesis by (simp add: table_step_old sweep_row_step)
    next
      case (some s1 r rest)
      then show ?thesis
        using take_claim_Inr [OF some(5,3)] assms(2)
        by (auto simp: fetch_job_def intro!: table_step_old claim_after_sweep)
    qed
  qed simp
qed

section \<open>Leases, transitions, cancellation, events\<close>

lemma renew_table_step:
  assumes "renew_lease jid w g secs now s = (r, s')" and "distinct (map job_id (st_jobs s))"
  shows "table_step now (st_jobs s) (st_jobs s')"
proof -
  have "s' = s \<or> (\<exists>row. renew_body jid w g secs now s = Inr (row, s'))"
    using assms(1) by (auto simp: renew_lease_def split: if_splits elim: row_result_cases)
  then show ?thesis
  proof
    assume "\<exists>row. renew_body jid w g secs now s = Inr (row, s')"
    then obtain q where "fetch_job jid s = Some q" "live_lease q w g now"
      "s' = update_job jid (renew_row (now + secs * MICROS) now) s"
      by (auto simp: renew_body_def Let_def require_live_lease_Inr split: option.splits sum.splits)
    with assms(2) show ?thesis
      by (auto simp: fetch_job_def intro!: table_step_old update_row_step intro: row_step.renew)
  qed simp
qed

lemma store_event_frame:
  "store_event ev s = Inr s' \<Longrightarrow> st_jobs s' = st_jobs s \<and> st_audits s' = st_audits s \<and> st_audit_seq s' = st_audit_seq s
     \<and> st_plans s' = st_plans s \<and> st_approvals s' = st_approvals s
     \<and> st_capabilities s' = st_capabilities s \<and> st_sessions s' = st_sessions s"
  by (auto simp: store_event_def insert_event_Inr split: option.splits sum.splits)

lemma safe_error_valid: "safe_error env err = Inr (Some b) \<Longrightarrow> valid_error_body b"
  by (auto simp: safe_error_def Let_def split: option.splits sum.splits if_splits)

lemma transition_body_Inr:
  assumes "transition_body jid expected target res err ev w g now s = Inr (row, s')"
  shows "\<exists>r. fetch_job jid s = Some r \<and> job_state r = expected \<and> row = transition_row target now res err r
     \<and> (expected \<in> {RUNNING, CANCEL_REQUESTED} \<longrightarrow> (\<exists>w' g'. w = Some w' \<and> g = Some g' \<and> live_lease r w' g' now))
     \<and> st_jobs s' = update_where (\<lambda>r. job_id r = jid) (transition_row target now res err) (st_jobs s)"
  using assms
  by (fastforce simp: transition_body_def require_live_lease_Inr fetch_job_def transition_upd.fetch_hit
      split: option.splits sum.splits if_splits dest: store_event_frame audited_frame)

lemma transition_cases:
  assumes "transition env jid expected target res err ev w g now s = (r, s')"
  obtains (rejected) e where "r = Inl e" "s' = s"
    | (committed) res' err' ev' row where "target \<in> set (transitions expected)"
      "safe_result env res = Inr res'" "safe_error env err = Inr err'" "opt_event env jid now ev = Inr ev'"
      "transition_body jid expected target res' err' ev' w g now s = Inr (row, s')" "r = job_from_row row"
  using assms
  by (auto simp: transition_def split: if_splits sum.splits elim: row_result_cases)

lemma transition_table_step:
  assumes "transition env jid expected target res err ev w g now s = (r, s')"
    and "distinct (map job_id (st_jobs s))"
  shows "table_step now (st_jobs s) (st_jobs s')"
  using assms(1)
proof (cases rule: transition_cases)
  case (committed res' err' ev' row)
  obtain q where q: "fetch_job jid s = Some q" "job_state q = expected"
    "expected \<in> {RUNNING, CANCEL_REQUESTED} \<longrightarrow> (\<exists>w' g'. live_lease q w' g' now)"
    "st_jobs s' = update_where (\<lambda>r. job_id r = jid) (transition_row target now res' err') (st_jobs s)"
    using transition_body_Inr [OF committed(5)] by blast
  have err: "\<And>b. err' = Some b \<Longrightarrow> valid_error_body b"
    using committed(3) by (auto dest: safe_error_valid)
  have "expected = QUEUED \<or> expected \<in> {RUNNING, CANCEL_REQUESTED}"
    using committed(1) by (cases expected) auto
  then have "row_step now q (transition_row target now res' err' q)"
    using q(2,3) committed(1) err by (auto intro: row_step.finish row_step.unleased)
  then show ?thesis
    using q(1,4) assms(2) by (auto simp: fetch_job_def intro!: table_step_old update_row_step)
qed simp

lemma request_cancel_body_Inr:
  assumes "request_cancel_body env jid prin now s = Inr (row, s')"
  shows "\<exists>r. fetch_job jid s = Some r \<and> job_can_cancel (request_kind (job_request_json r)) (job_state r)
     \<and> row = cancel_row (if job_state r = QUEUED then CANCELLED else CANCEL_REQUESTED) now r
     \<and> st_jobs s' = update_where (\<lambda>r. job_id r = jid)
          (cancel_row (if job_state r = QUEUED then CANCELLED else CANCEL_REQUESTED) now) (st_jobs s)"
  using assms
  by (fastforce simp: request_cancel_body_def Let_def fetch_job_def cancel_upd.fetch_hit
      split: option.splits sum.splits if_splits dest: store_event_frame audited_frame)

lemma request_cancel_table_step:
  assumes "request_cancel env jid prin now s = (r, s')" and "distinct (map job_id (st_jobs s))"
  shows "table_step now (st_jobs s) (st_jobs s')"
  using assms(1) unfolding request_cancel_def
proof (cases rule: row_result_cases)
  case (committed row)
  then obtain q where q: "fetch job_id jid (st_jobs s) = Some q"
    "job_can_cancel (request_kind (job_request_json q)) (job_state q)"
    "st_jobs s' = update_where (\<lambda>r. job_id r = jid)
       (cancel_row (if job_state q = QUEUED then CANCELLED else CANCEL_REQUESTED) now) (st_jobs s)"
    using request_cancel_body_Inr [OF committed(1)] unfolding fetch_job_def by blast
  have "row_step now q (cancel_row (if job_state q = QUEUED then CANCELLED else CANCEL_REQUESTED) now q)"
    using q(2) by (rule row_step.cancel)
  then show ?thesis
    unfolding q(3) by (intro table_step_old update_row_step [OF assms(2) q(1)])
qed simp

lemma append_event_jobs:
  assumes "append_event env jid level msg payload w g now s = (r, s')"
  shows "st_jobs s' = st_jobs s"
  using assms
  by (auto simp: append_event_def append_event_body_def write_tx_def insert_event_Inr
      split: sum.splits option.splits if_splits prod.splits)

end
