(* ===== verification/Destroy_Plans.thy ===== *)
theory Destroy_Plans
  imports Job_Ops
begin

text \<open>
  Destroy plans and the approvals that release them: \<open>create_plan\<close>, \<open>get_plan\<close>,
  \<open>issue_approval\<close> of \<open>ControllerStore\<close>, and what a destructive submission has to present.
\<close>

section \<open>Operations\<close>

definition MAX_APPROVAL_TTL :: int where
  "MAX_APPROVAL_TTL = 15 * 60 * MICROS"

definition plan_from_row :: "plan_row \<Rightarrow> store_error + plan_row" where
  "plan_from_row r =
     (if bounded 16 128 (pl_plan_id r) \<and> bounded 1 255 (pl_actor r) \<and> hex_of_length 64 (pl_plan_hash r)
      then Inr r else Inl (StoreValidationError ''PlanRecord''))"

definition insert_plan :: "plan_row \<Rightarrow> store \<Rightarrow> store_error + store" where
  "insert_plan r s =
     (if pl_plan_id r \<in> pl_plan_id ` set (st_plans s) then Inl (IntegrityError ''plans.plan_id'')
      else Inr (s\<lparr>st_plans := st_plans s @ [r]\<rparr>))"

definition new_plan_row :: "store_env \<Rightarrow> destroy_plan_spec \<Rightarrow> string \<Rightarrow> string \<Rightarrow> int \<Rightarrow> plan_row" where
  "new_plan_row env spec actor plan_id now =
     \<lparr>pl_plan_id = plan_id, pl_actor = actor, pl_spec = spec,
      pl_plan_hash = env_sha256 env (env_spec_json env spec), pl_created_at = now\<rparr>"

definition create_plan_body ::
  "store_env \<Rightarrow> destroy_plan_spec \<Rightarrow> string \<Rightarrow> string \<Rightarrow> int \<Rightarrow> store \<Rightarrow> store_error + (plan_row \<times> store)" where
  "create_plan_body env spec actor plan_id now s =
     (let row = new_plan_row env spec actor plan_id now
      in case insert_plan row s of
           Inl e \<Rightarrow> Inl e
         | Inr s1 \<Rightarrow>
             (case audited now actor ''PLAN_CREATE'' (''plan:'' @ plan_id)
                     [(''scopes'', DTexts (dp_scopes spec)), (''plan_hash'', DText (pl_plan_hash row))] s1 of
                Inl e \<Rightarrow> Inl e | Inr s2 \<Rightarrow> Inr (row, s2)))"

text \<open>The record is built after the commit: a record that fails validation leaves the row.\<close>

definition create_plan ::
  "store_env \<Rightarrow> destroy_plan_spec \<Rightarrow> string \<Rightarrow> string \<Rightarrow> int \<Rightarrow> (store, store_error, plan_row) action" where
  "create_plan env spec actor plan_id now s =
     finish (case write_tx (create_plan_body env spec actor plan_id now) s of
               (r, s') \<Rightarrow> (map_sum id plan_from_row r, s'))"

definition get_plan :: "string \<Rightarrow> store \<Rightarrow> store_error + plan_row" where
  "get_plan plan_id s =
     (case fetch pl_plan_id plan_id (st_plans s) of None \<Rightarrow> Inl PlanNotFoundError | Some r \<Rightarrow> plan_from_row r)"

record approval_grant =
  ag_plan_id :: string
  ag_actor :: string
  ag_token :: string
  ag_expires_at :: int

definition insert_approval :: "approval_row \<Rightarrow> store \<Rightarrow> store_error + store" where
  "insert_approval r s =
     (if ap_approval_id r \<in> ap_approval_id ` set (st_approvals s)
         \<or> ap_plan_id r \<notin> pl_plan_id ` set (st_plans s)
      then Inl (IntegrityError ''approvals'')
      else Inr (s\<lparr>st_approvals := st_approvals s @ [r]\<rparr>))"

definition issue_approval_body ::
  "store_env \<Rightarrow> string \<Rightarrow> string \<Rightarrow> int \<Rightarrow> string \<Rightarrow> string \<Rightarrow> int \<Rightarrow> store
     \<Rightarrow> store_error + (unit \<times> store)" where
  "issue_approval_body env plan_id actor expires_at approval_id token now s =
     (case insert_approval
             \<lparr>ap_approval_id = approval_id, ap_plan_id = plan_id, ap_actor = actor,
              ap_token_hash = env_sha256 env token, ap_created_at = now, ap_expires_at = expires_at,
              ap_consumed_at = None\<rparr> s of
        Inl e \<Rightarrow> Inl e
      | Inr s1 \<Rightarrow>
          (case audited now actor ''APPROVAL_ISSUE'' (''plan:'' @ plan_id)
                  [(''expires_at'', DTime expires_at)] s1 of
             Inl e \<Rightarrow> Inl e | Inr s2 \<Rightarrow> Inr ((), s2)))"

definition grant_record :: "string \<Rightarrow> string \<Rightarrow> string \<Rightarrow> int \<Rightarrow> store_error + approval_grant" where
  "grant_record plan_id actor token expires_at =
     (if bounded 16 128 plan_id \<and> bounded 1 255 actor \<and> bounded 16 512 token
      then Inr \<lparr>ag_plan_id = plan_id, ag_actor = actor, ag_token = token, ag_expires_at = expires_at\<rparr>
      else Inl (StoreValidationError ''ApprovalGrant''))"

definition issue_approval ::
  "store_env \<Rightarrow> string \<Rightarrow> string \<Rightarrow> int \<Rightarrow> string \<Rightarrow> string \<Rightarrow> int \<Rightarrow> (store, store_error, approval_grant) action" where
  "issue_approval env plan_id actor ttl approval_id token now s =
     (if ttl \<le> 0 \<or> ttl > MAX_APPROVAL_TTL
        then (Inl (ApprovalError ''approval lifetime must be between zero and fifteen minutes''), s)
      else case get_plan plan_id s of
        Inl e \<Rightarrow> (Inl e, s)
      | Inr plan \<Rightarrow>
          if pl_actor plan \<noteq> actor then (Inl (ApprovalError ''approval actor does not own the plan''), s)
          else finish
            (case write_tx (issue_approval_body env plan_id actor (now + ttl) approval_id token now) s of
               (r, s') \<Rightarrow> (map_sum id (\<lambda>_. grant_record plan_id actor token (now + ttl)) r, s')))"

section \<open>What a destructive submission presents\<close>

text \<open>The abstract contract: the operation is the plan's, and a live approval of the token exists.\<close>

definition plan_released :: "store_env \<Rightarrow> destroy_infra \<Rightarrow> string \<Rightarrow> int \<Rightarrow> store \<Rightarrow> plan_row \<Rightarrow> approval_row \<Rightarrow> bool" where
  "plan_released env op prin now s plan a \<longleftrightarrow>
     fetch pl_plan_id (di_plan_id op) (st_plans s) = Some plan \<and> pl_actor plan = prin
     \<and> pl_plan_hash plan = di_plan_hash op \<and> dp_action (pl_spec plan) = di_action op
     \<and> dp_scopes (pl_spec plan) = di_scopes op \<and> dp_config_revision (pl_spec plan) = di_config_revision op
     \<and> a \<in> set (st_approvals s) \<and> ap_plan_id a = di_plan_id op \<and> ap_actor a = prin
     \<and> ap_token_hash a = env_sha256 env (di_approval_token op) \<and> ap_consumed_at a = None \<and> now < ap_expires_at a"

definition consumes :: "approval_row \<Rightarrow> approval_row \<Rightarrow> bool" where
  "consumes a b \<longleftrightarrow> ap_approval_id b = ap_approval_id a \<and> ap_consumed_at b = None"

interpretation consume_upd: row_update ap_approval_id "consume_approval_row n" for n
  by unfold_locales (simp add: consume_approval_row_def)

lemma consume_InrD:
  assumes "consume_destructive_approval env op prin now s = Inr s'"
  shows "\<exists>plan a rest. plan_released env op prin now s plan a
     \<and> sort_key (\<lambda>a. - ap_created_at a) (filter (\<lambda>a. ap_plan_id a = di_plan_id op \<and> ap_actor a = prin
          \<and> ap_token_hash a = env_sha256 env (di_approval_token op)) (st_approvals s)) = a # rest
     \<and> rowcount (consumes a) (st_approvals s) = 1
     \<and> s' = s\<lparr>st_approvals := update_where (consumes a) (consume_approval_row now) (st_approvals s)\<rparr>"
proof -
  let ?m = "filter (\<lambda>a. ap_plan_id a = di_plan_id op \<and> ap_actor a = prin
          \<and> ap_token_hash a = env_sha256 env (di_approval_token op)) (st_approvals s)"
  obtain plan where p: "fetch pl_plan_id (di_plan_id op) (st_plans s) = Some plan"
    using assms by (auto simp: consume_destructive_approval_def split: option.splits)
  obtain a rest where m: "sort_key (\<lambda>a. - ap_created_at a) ?m = a # rest"
    using assms p by (auto simp: consume_destructive_approval_def Let_def split: if_splits list.splits)
  have "a \<in> set ?m" using sort_key_hd_in [OF m] .
  with assms p m have "plan_released env op prin now s plan a"
    by (auto simp: consume_destructive_approval_def Let_def plan_released_def split: if_splits)
  moreover have "rowcount (consumes a) (st_approvals s) = 1
     \<and> s' = s\<lparr>st_approvals := update_where (consumes a) (consume_approval_row now) (st_approvals s)\<rparr>"
    using assms p m
    by (auto simp: consume_destructive_approval_def Let_def consumes_def [abs_def] split: if_splits)
  ultimately show ?thesis using m by blast
qed

text \<open>The update of one approval does not reorder the matching rows, and marks the first.\<close>

lemma sort_key_map_cong:
  assumes "\<And>x. k (f x) = k x"
  shows "sort_key k (map f xs) = map f (sort_key k xs)"
proof -
  have ins: "insort_key k (f x) (map f ys) = map f (insort_key k x ys)" for x ys
    by (induction ys) (auto simp: assms)
  show ?thesis by (induction xs) (auto simp: ins)
qed

lemma consumed_stays_first:
  assumes "\<And>b. q (consume_approval_row now b) = q b"
  shows "sort_key (\<lambda>a. - ap_created_at a) (filter q (update_where p (consume_approval_row now) rows))
    = update_where p (consume_approval_row now) (sort_key (\<lambda>a. - ap_created_at a) (filter q rows))"
proof -
  have "filter q (update_where p (consume_approval_row now) rows)
      = map (\<lambda>r. if p r then consume_approval_row now r else r) (filter q rows)"
    by (induction rows) (auto simp: assms)
  then show ?thesis
    by (simp add: update_where_def sort_key_map_cong consume_approval_row_def)
qed

lemma consume_marks_first:
  assumes "consume_destructive_approval env op prin now s = Inr s'"
  shows "\<exists>a rest. sort_key (\<lambda>a. - ap_created_at a) (filter (\<lambda>a. ap_plan_id a = di_plan_id op \<and> ap_actor a = prin
          \<and> ap_token_hash a = env_sha256 env (di_approval_token op)) (st_approvals s')) = consume_approval_row now a # rest"
proof -
  let ?q = "\<lambda>a. ap_plan_id a = di_plan_id op \<and> ap_actor a = prin
          \<and> ap_token_hash a = env_sha256 env (di_approval_token op)"
  obtain plan a rest where r: "plan_released env op prin now s plan a"
    and m: "sort_key (\<lambda>a. - ap_created_at a) (filter ?q (st_approvals s)) = a # rest"
    and s': "s' = s\<lparr>st_approvals := update_where (consumes a) (consume_approval_row now) (st_approvals s)\<rparr>"
    using consume_InrD [OF assms] by blast
  have "consumes a a" using r by (simp add: plan_released_def consumes_def)
  then have "sort_key (\<lambda>a. - ap_created_at a) (filter ?q (st_approvals s'))
      = consume_approval_row now a # update_where (consumes a) (consume_approval_row now) rest"
    by (simp add: s' consumed_stays_first m consume_approval_row_def)
  then show ?thesis by blast
qed

text \<open>Each release turns exactly one approval row from open to consumed.\<close>

lemma rowcount_consume:
  "rowcount (\<lambda>a. ap_consumed_at a \<noteq> None) (update_where (consumes a) (consume_approval_row now) rows)
     = rowcount (\<lambda>a. ap_consumed_at a \<noteq> None) rows + rowcount (consumes a) rows"
  by (induction rows) (auto simp: consumes_def consume_approval_row_def)

definition consumed_count :: "store \<Rightarrow> nat" where
  "consumed_count s = rowcount (\<lambda>a. ap_consumed_at a \<noteq> None) (st_approvals s)"

lemma consume_count:
  "consume_destructive_approval env op prin now s = Inr s' \<Longrightarrow> consumed_count s' = Suc (consumed_count s)"
  using consume_InrD [of env op prin now s s']
  by (auto simp: consumed_count_def rowcount_consume simp del: not_None_eq)

section \<open>Frames\<close>

lemma create_plan_cases:
  assumes "create_plan env spec actor plan_id now s = (r, s')"
  obtains (rolled_back) "s' = s" "\<exists>e. r = Inl e"
    | (committed) "plan_id \<notin> pl_plan_id ` set (st_plans s)"
      "audited now actor ''PLAN_CREATE'' (''plan:'' @ plan_id)
         [(''scopes'', DTexts (dp_scopes spec)), (''plan_hash'', DText (env_sha256 env (env_spec_json env spec)))]
         (s\<lparr>st_plans := st_plans s @ [new_plan_row env spec actor plan_id now]\<rparr>) = Inr s'"
      "r = plan_from_row (new_plan_row env spec actor plan_id now)"
  using assms
  by (auto simp: create_plan_def create_plan_body_def insert_plan_def finish_def write_tx_def Let_def
      new_plan_row_def split: sum.splits if_splits prod.splits)

lemma issue_approval_cases:
  assumes "issue_approval env plan_id actor ttl approval_id token now s = (r, s')"
  obtains (rolled_back) "s' = s" "\<exists>e. r = Inl e"
    | (committed) plan row where "0 < ttl" "ttl \<le> MAX_APPROVAL_TTL" "get_plan plan_id s = Inr plan" "pl_actor plan = actor"
      "row = \<lparr>ap_approval_id = approval_id, ap_plan_id = plan_id, ap_actor = actor,
              ap_token_hash = env_sha256 env token, ap_created_at = now, ap_expires_at = now + ttl,
              ap_consumed_at = None\<rparr>"
      "approval_id \<notin> ap_approval_id ` set (st_approvals s)"
      "plan_id \<in> pl_plan_id ` set (st_plans s)"
      "audited now actor ''APPROVAL_ISSUE'' (''plan:'' @ plan_id) [(''expires_at'', DTime (now + ttl))]
         (s\<lparr>st_approvals := st_approvals s @ [row]\<rparr>) = Inr s'"
      "r = grant_record plan_id actor token (now + ttl)"
  using assms
  by (auto simp: issue_approval_def issue_approval_body_def insert_approval_def finish_def write_tx_def
      split: sum.splits if_splits prod.splits)

end
