(* ===== verification/Bootstrap_Grants.thy ===== *)
theory Bootstrap_Grants
  imports Job_Queue
begin

text \<open>
  The bootstrap credentials of \<open>ControllerStore\<close>: the one capability token that starts the setup
  wizard, its exchange for a session grant, guess counting and consumption.  Tokens are opaque
  texts \<open>id.secret\<close>; the random parts are arguments.
\<close>

section \<open>Operations\<close>

definition MAX_BOOTSTRAP_ATTEMPTS :: nat where
  "MAX_BOOTSTRAP_ATTEMPTS = 5"

definition MAX_BOOTSTRAP_TTL :: int where
  "MAX_BOOTSTRAP_TTL = 15 * 60 * MICROS"

definition require_bootstrap_ttl :: "int \<Rightarrow> store_error + unit" where
  "require_bootstrap_ttl ttl =
     (if ttl \<le> 0 \<or> ttl > MAX_BOOTSTRAP_TTL
      then Inl (BootstrapCapabilityError ''bootstrap credential lifetime must be between zero and fifteen minutes'')
      else Inr ())"

text \<open>
  \<open>uuid.UUID(text)\<close> accepts a text whose hexadecimal digits, after removal of the URN prefix,
  braces and dashes, number 32; \<open>str\<close> of the result is the canonical lower-case form with
  dashes after 8, 12, 16 and 20 digits.  A text equals its own canonical form exactly when it
  has that form.
\<close>

definition canonical_uuid :: "string \<Rightarrow> bool" where
  "canonical_uuid s \<longleftrightarrow> length s = 36
     \<and> (\<forall>i < 36. if i \<in> {8, 13, 18, 23} then s ! i = CHR ''-'' else is_hex (s ! i))"

definition new_opaque_token :: "string \<Rightarrow> string \<Rightarrow> string \<times> string" where
  "new_opaque_token token_id secret = (token_id, token_id @ ''.'' @ secret)"

definition opaque_token_id :: "string \<Rightarrow> string option" where
  "opaque_token_id token =
     (if length token > 512 then None
      else (case partition_at (CHR ''.'') token of (token_id, found, secret) \<Rightarrow>
              if \<not> found \<or> secret = [] \<or> CHR ''.'' \<in> set secret then None
              else if canonical_uuid token_id then Some token_id else None))"

definition revoke_capability :: "int \<Rightarrow> capability_row \<Rightarrow> capability_row" where
  "revoke_capability now r = r\<lparr>cp_revoked_at := Some now\<rparr>"

definition revoke_session :: "int \<Rightarrow> session_row \<Rightarrow> session_row" where
  "revoke_session now r = r\<lparr>se_revoked_at := Some now\<rparr>"

definition open_capability :: "int \<Rightarrow> capability_row \<Rightarrow> bool" where
  "open_capability now r \<longleftrightarrow> cp_exchanged_at r = None \<and> cp_revoked_at r = None \<and> cp_expires_at r > now"

definition open_session :: "int \<Rightarrow> session_row \<Rightarrow> bool" where
  "open_session now r \<longleftrightarrow> se_consumed_at r = None \<and> se_revoked_at r = None \<and> se_expires_at r > now"

definition insert_capability :: "capability_row \<Rightarrow> store \<Rightarrow> store_error + store" where
  "insert_capability r s =
     (if cp_capability_id r \<in> cp_capability_id ` set (st_capabilities s)
         \<or> cp_token_hash r \<in> cp_token_hash ` set (st_capabilities s)
      then Inl (IntegrityError ''bootstrap_capabilities'')
      else Inr (s\<lparr>st_capabilities := st_capabilities s @ [r]\<rparr>))"

definition insert_session :: "session_row \<Rightarrow> store \<Rightarrow> store_error + store" where
  "insert_session r s =
     (if se_session_id r \<in> se_session_id ` set (st_sessions s)
         \<or> se_capability_id r \<in> se_capability_id ` set (st_sessions s)
         \<or> se_token_hash r \<in> se_token_hash ` set (st_sessions s)
         \<or> se_capability_id r \<notin> cp_capability_id ` set (st_capabilities s)
      then Inl (IntegrityError ''bootstrap_sessions'')
      else Inr (s\<lparr>st_sessions := st_sessions s @ [r]\<rparr>))"

definition issue_body ::
  "store_env \<Rightarrow> string \<Rightarrow> int \<Rightarrow> string \<Rightarrow> string \<Rightarrow> int \<Rightarrow> store \<Rightarrow> store_error + ((string \<times> int) \<times> store)" where
  "issue_body env prin ttl token_id secret now s =
     (let (capability_id, token) = new_opaque_token token_id secret;
          expires_at = now + ttl;
          s1 = s\<lparr>st_capabilities := update_where (open_capability now) (revoke_capability now) (st_capabilities s),
                 st_sessions := update_where (open_session now) (revoke_session now) (st_sessions s)\<rparr>;
          row = \<lparr>cp_capability_id = capability_id, cp_issuer_principal = prin,
                 cp_token_hash = env_sha256 env token, cp_created_at = now, cp_expires_at = expires_at,
                 cp_exchanged_at = None, cp_revoked_at = None, cp_failed_attempts = 0\<rparr>
      in case insert_capability row s1 of
           Inl e \<Rightarrow> Inl e
         | Inr s2 \<Rightarrow>
             (case audited now prin ''BOOTSTRAP_CAPABILITY_ISSUE'' (''bootstrap-capability:'' @ capability_id)
                     [(''expires_at'', DTime expires_at)] s2 of
                Inl e \<Rightarrow> Inl e | Inr s3 \<Rightarrow> Inr ((token, expires_at), s3)))"

definition issue_bootstrap_capability ::
  "store_env \<Rightarrow> string \<Rightarrow> int \<Rightarrow> string \<Rightarrow> string \<Rightarrow> int \<Rightarrow> (store, store_error, string \<times> int) action" where
  "issue_bootstrap_capability env prin ttl token_id secret now s =
     (case require_bootstrap_ttl ttl of
        Inl e \<Rightarrow> (Inl e, s)
      | Inr _ \<Rightarrow>
          (case require_principal prin of
             Inl e \<Rightarrow> (Inl e, s)
           | Inr _ \<Rightarrow> write_tx (issue_body env prin ttl token_id secret now) s))"

definition fail_capability :: "int \<Rightarrow> capability_row \<Rightarrow> capability_row" where
  "fail_capability now r =
     r\<lparr>cp_failed_attempts := min (cp_failed_attempts r + 1) MAX_BOOTSTRAP_ATTEMPTS,
       cp_revoked_at := (if cp_failed_attempts r + 1 \<ge> MAX_BOOTSTRAP_ATTEMPTS then Some now else cp_revoked_at r)\<rparr>"

definition fail_session :: "int \<Rightarrow> session_row \<Rightarrow> session_row" where
  "fail_session now r =
     r\<lparr>se_failed_attempts := min (se_failed_attempts r + 1) MAX_BOOTSTRAP_ATTEMPTS,
       se_revoked_at := (if se_failed_attempts r + 1 \<ge> MAX_BOOTSTRAP_ATTEMPTS then Some now else se_revoked_at r)\<rparr>"

text \<open>\<open>_record_bootstrap_failure\<close> for its two tables.\<close>

definition record_capability_failure :: "string \<Rightarrow> int \<Rightarrow> store \<Rightarrow> store" where
  "record_capability_failure cid now s =
     s\<lparr>st_capabilities := update_where (\<lambda>r. cp_capability_id r = cid \<and> cp_revoked_at r = None)
          (fail_capability now) (st_capabilities s)\<rparr>"

definition record_session_failure :: "string \<Rightarrow> int \<Rightarrow> store \<Rightarrow> store" where
  "record_session_failure sid now s =
     s\<lparr>st_sessions := update_where (\<lambda>r. se_session_id r = sid \<and> se_revoked_at r = None)
          (fail_session now) (st_sessions s)\<rparr>"

definition capability_is_active :: "capability_row \<Rightarrow> int \<Rightarrow> bool" where
  "capability_is_active r now \<longleftrightarrow> cp_exchanged_at r = None \<and> cp_revoked_at r = None
     \<and> cp_failed_attempts r < MAX_BOOTSTRAP_ATTEMPTS \<and> cp_expires_at r > now"

definition exchange_row :: "int \<Rightarrow> capability_row \<Rightarrow> capability_row" where
  "exchange_row now r = r\<lparr>cp_exchanged_at := Some now\<rparr>"

text \<open>
  The transaction returns the grant, or None when the token is refused.  The exception is raised
  after the commit, so that the counted guess is kept.
\<close>

definition exchange_body ::
  "store_env \<Rightarrow> string \<Rightarrow> int \<Rightarrow> string \<Rightarrow> string \<Rightarrow> int \<Rightarrow> store
     \<Rightarrow> store_error + ((string \<times> int) option \<times> store)" where
  "exchange_body env token ttl session_id0 secret now s =
     (case opaque_token_id token of
        None \<Rightarrow> Inr (None, s)
      | Some cid \<Rightarrow>
          (case fetch cp_capability_id cid (st_capabilities s) of
             None \<Rightarrow> Inr (None, s)
           | Some row \<Rightarrow>
               if cp_token_hash row \<noteq> env_sha256 env token then Inr (None, record_capability_failure cid now s)
               else if \<not> capability_is_active row now then Inr (None, s)
               else
                 (let (session_id, session_token) = new_opaque_token session_id0 secret;
                      expires_at = min (now + ttl) (cp_expires_at row);
                      s1 = s\<lparr>st_capabilities := update_where (\<lambda>r. cp_capability_id r = cid) (exchange_row now)
                               (st_capabilities s)\<rparr>;
                      srow = \<lparr>se_session_id = session_id, se_capability_id = cid,
                              se_token_hash = env_sha256 env session_token, se_created_at = now,
                              se_expires_at = expires_at, se_consumed_at = None, se_revoked_at = None,
                              se_failed_attempts = 0\<rparr>
                  in case insert_session srow s1 of
                       Inl e \<Rightarrow> Inl e
                     | Inr s2 \<Rightarrow>
                         (case audited now (cp_issuer_principal row) ''BOOTSTRAP_CAPABILITY_EXCHANGE''
                                 (''bootstrap-session:'' @ session_id) [(''expires_at'', DTime expires_at)] s2 of
                            Inl e \<Rightarrow> Inl e
                          | Inr s3 \<Rightarrow> Inr (Some (session_token, expires_at), s3)))))"

definition or_raise :: "store_error \<Rightarrow> ('e + 'a option) \<times> store \<Rightarrow> (store_error \<Rightarrow> 'e) \<Rightarrow> ('e + 'a) \<times> store" where
  "or_raise err p f =
     (case p of (Inl e, s) \<Rightarrow> (Inl e, s) | (Inr None, s) \<Rightarrow> (Inl (f err), s) | (Inr (Some a), s) \<Rightarrow> (Inr a, s))"

definition exchange_bootstrap_capability ::
  "store_env \<Rightarrow> string \<Rightarrow> int \<Rightarrow> string \<Rightarrow> string \<Rightarrow> int \<Rightarrow> (store, store_error, string \<times> int) action" where
  "exchange_bootstrap_capability env token ttl session_id secret now s =
     (case require_bootstrap_ttl ttl of
        Inl e \<Rightarrow> (Inl e, s)
      | Inr _ \<Rightarrow>
          or_raise (BootstrapCapabilityError ''bootstrap capability is invalid'')
            (write_tx (exchange_body env token ttl session_id secret now) s) id)"

definition authenticate_bootstrap_session ::
  "store_env \<Rightarrow> string option \<Rightarrow> string \<Rightarrow> int \<Rightarrow> store \<Rightarrow> session_row option \<times> store" where
  "authenticate_bootstrap_session env session_id session_token now s =
     (case session_id of
        None \<Rightarrow> (None, s)
      | Some sid \<Rightarrow>
          (case fetch se_session_id sid (st_sessions s) of
             None \<Rightarrow> (None, s)
           | Some row \<Rightarrow>
               if se_token_hash row \<noteq> env_sha256 env session_token then (None, record_session_failure sid now s)
               else if se_consumed_at row \<noteq> None \<or> se_revoked_at row \<noteq> None
                       \<or> se_failed_attempts row \<ge> MAX_BOOTSTRAP_ATTEMPTS \<or> se_expires_at row \<le> now
                 then (None, s)
               else (Some row, s)))"

definition validate_bootstrap_grant ::
  "store_env \<Rightarrow> string \<Rightarrow> int \<Rightarrow> (store, store_error, string \<times> int) action" where
  "validate_bootstrap_grant env session_token now s =
     (case authenticate_bootstrap_session env (opaque_token_id session_token) session_token now s of
        (None, s') \<Rightarrow> (Inl (BootstrapCapabilityError ''bootstrap session grant is invalid''), s')
      | (Some row, s') \<Rightarrow> (Inr (session_token, se_expires_at row), s'))"

definition consume_session :: "int \<Rightarrow> session_row \<Rightarrow> session_row" where
  "consume_session now r = r\<lparr>se_consumed_at := Some now\<rparr>"

definition consume_body ::
  "store_env \<Rightarrow> string \<Rightarrow> string \<Rightarrow> int \<Rightarrow> store \<Rightarrow> store_error + (unit option \<times> store)" where
  "consume_body env session_token prin now s =
     (case authenticate_bootstrap_session env (opaque_token_id session_token) session_token now s of
        (None, s1) \<Rightarrow> Inr (None, s1)
      | (Some row, s1) \<Rightarrow>
          (let hit = (\<lambda>r. se_session_id r = se_session_id row \<and> se_consumed_at r = None \<and> se_revoked_at r = None);
               s2 = s1\<lparr>st_sessions := update_where hit (consume_session now) (st_sessions s1)\<rparr>
           in if rowcount hit (st_sessions s1) \<noteq> 1 then Inr (None, s2)
              else (case audited now prin ''BOOTSTRAP_SESSION_CONSUME''
                            (''bootstrap-session:'' @ se_session_id row) [] s2 of
                      Inl e \<Rightarrow> Inl e | Inr s3 \<Rightarrow> Inr (Some (), s3))))"

definition consume_bootstrap_grant ::
  "store_env \<Rightarrow> string \<Rightarrow> string \<Rightarrow> int \<Rightarrow> (store, store_error, unit) action" where
  "consume_bootstrap_grant env session_token prin now s =
     (case require_principal prin of
        Inl e \<Rightarrow> (Inl e, s)
      | Inr _ \<Rightarrow>
          or_raise (BootstrapCapabilityError ''bootstrap session grant is invalid'')
            (write_tx (consume_body env session_token prin now) s) id)"

definition bootstrap_access_state :: "int \<Rightarrow> store \<Rightarrow> bool \<times> bool" where
  "bootstrap_access_state now s =
     (list_ex (open_capability now) (st_capabilities s), list_ex (open_session now) (st_sessions s))"

section \<open>Token texts\<close>

lemma opaque_token_roundtrip:
  assumes "canonical_uuid token_id" and "secret \<noteq> []" and "CHR ''.'' \<notin> set secret" and "length secret \<le> 475"
  shows "opaque_token_id (snd (new_opaque_token token_id secret)) = Some token_id"
proof -
  have len: "length token_id = 36" using assms(1) by (simp add: canonical_uuid_def)
  have "CHR ''.'' \<notin> set token_id"
  proof
    assume "CHR ''.'' \<in> set token_id"
    then obtain i where "i < 36" "token_id ! i = CHR ''.''" using len by (auto simp: in_set_conv_nth)
    with assms(1) show False
      by (auto simp: canonical_uuid_def is_hex_def is_digit_def code_def split: if_splits)
  qed
  then show ?thesis
    using assms len partition_at_append [of "CHR ''.''" token_id secret]
    by (simp add: opaque_token_id_def new_opaque_token_def)
qed

section \<open>The invariant of the two tables\<close>

interpretation revoke_cap: row_update cp_capability_id "revoke_capability n" for n
  by unfold_locales (simp add: revoke_capability_def)

interpretation fail_cap: row_update cp_capability_id "fail_capability n" for n
  by unfold_locales (simp add: fail_capability_def)

interpretation exchange_cap: row_update cp_capability_id "exchange_row n" for n
  by unfold_locales (simp add: exchange_row_def)

interpretation revoke_ses: row_update se_session_id "revoke_session n" for n
  by unfold_locales (simp add: revoke_session_def)

interpretation fail_ses: row_update se_session_id "fail_session n" for n
  by unfold_locales (simp add: fail_session_def)

interpretation consume_ses: row_update se_session_id "consume_session n" for n
  by unfold_locales (simp add: consume_session_def)

lemmas grant_row_defs = revoke_capability_def revoke_session_def fail_capability_def fail_session_def
  exchange_row_def consume_session_def

definition wf_capability :: "capability_row \<Rightarrow> bool" where
  "wf_capability r \<longleftrightarrow> cp_failed_attempts r \<le> MAX_BOOTSTRAP_ATTEMPTS
     \<and> (cp_failed_attempts r = MAX_BOOTSTRAP_ATTEMPTS \<longrightarrow> cp_revoked_at r \<noteq> None)"

definition wf_session :: "session_row \<Rightarrow> bool" where
  "wf_session r \<longleftrightarrow> se_failed_attempts r \<le> MAX_BOOTSTRAP_ATTEMPTS
     \<and> (se_failed_attempts r = MAX_BOOTSTRAP_ATTEMPTS \<longrightarrow> se_revoked_at r \<noteq> None)"

text \<open>
  A session belongs to one capability, which is marked exchanged and does not expire before the
  session does; the CHECK, UNIQUE and foreign key constraints of the schema hold.
\<close>

definition grants_inv :: "store \<Rightarrow> bool" where
  "grants_inv s \<longleftrightarrow>
     list_all wf_capability (st_capabilities s) \<and> list_all wf_session (st_sessions s)
     \<and> distinct (map cp_capability_id (st_capabilities s)) \<and> distinct (map se_session_id (st_sessions s))
     \<and> distinct (map se_capability_id (st_sessions s))
     \<and> (\<forall>q \<in> set (st_sessions s). \<exists>r \<in> set (st_capabilities s). cp_capability_id r = se_capability_id q
          \<and> cp_exchanged_at r \<noteq> None \<and> se_expires_at q \<le> cp_expires_at r)"

end
