(* ===== verification/Grant_Safety.thy ===== *)
theory Grant_Safety
  imports Bootstrap_Grants
begin

text \<open>
  The lifecycle of the bootstrap credentials: every operation by its outcomes, the invariant of
  the two tables kept by each of them, and what a row can become.
\<close>

section \<open>Outcomes\<close>

definition other_tables :: "store \<Rightarrow> store \<Rightarrow> bool" where
  "other_tables s s' \<longleftrightarrow> st_plans s' = st_plans s \<and> st_approvals s' = st_approvals s \<and> st_jobs s' = st_jobs s
     \<and> st_events s' = st_events s \<and> st_event_seq s' = st_event_seq s"

lemma other_tables_refl [simp]: "other_tables s s"
  by (simp add: other_tables_def)

definition new_capability :: "store_env \<Rightarrow> string \<Rightarrow> int \<Rightarrow> string \<Rightarrow> string \<Rightarrow> int \<Rightarrow> capability_row" where
  "new_capability env prin ttl token_id secret now =
     \<lparr>cp_capability_id = token_id, cp_issuer_principal = prin,
      cp_token_hash = env_sha256 env (snd (new_opaque_token token_id secret)), cp_created_at = now,
      cp_expires_at = now + ttl, cp_exchanged_at = None, cp_revoked_at = None, cp_failed_attempts = 0\<rparr>"

lemma issue_cases:
  assumes "issue_bootstrap_capability env prin ttl token_id secret now s = (r, s')"
  obtains (rejected) e where "r = Inl e" "s' = s"
    | (issued) "r = Inr (snd (new_opaque_token token_id secret), now + ttl)" "0 < ttl" "ttl \<le> MAX_BOOTSTRAP_TTL"
      "token_id \<notin> cp_capability_id ` set (st_capabilities s)"
      "st_capabilities s' = update_where (open_capability now) (revoke_capability now) (st_capabilities s)
         @ [new_capability env prin ttl token_id secret now]"
      "st_sessions s' = update_where (open_session now) (revoke_session now) (st_sessions s)"
      "other_tables s s'" "\<exists>a. st_audits s' = st_audits s @ [a] \<and> au_sequence a = Suc (st_audit_seq s)"
      "st_audit_seq s' = Suc (st_audit_seq s)"
proof -
  have ids: "cp_capability_id ` set (update_where (open_capability now) (revoke_capability now) (st_capabilities s))
      = cp_capability_id ` set (st_capabilities s)"
    by (metis list.set_map revoke_cap.map_key)
  show thesis
  proof (cases r)
    case (Inl e)
    with assms rejected show thesis
      by (auto simp: issue_bootstrap_capability_def write_tx_def split: sum.splits prod.splits)
  next
    case (Inr a)
    with assms show thesis
      by (intro issued)
        (auto simp: issue_bootstrap_capability_def write_tx_Inr_iff issue_body_def new_opaque_token_def
           insert_capability_def audited_Inr Let_def new_capability_def other_tables_def
           require_bootstrap_ttl_def ids [simplified] split: sum.splits if_splits)
  qed
qed

definition new_session :: "store_env \<Rightarrow> capability_row \<Rightarrow> int \<Rightarrow> string \<Rightarrow> string \<Rightarrow> int \<Rightarrow> session_row" where
  "new_session env cap ttl session_id secret now =
     \<lparr>se_session_id = session_id, se_capability_id = cp_capability_id cap,
      se_token_hash = env_sha256 env (snd (new_opaque_token session_id secret)), se_created_at = now,
      se_expires_at = min (now + ttl) (cp_expires_at cap), se_consumed_at = None, se_revoked_at = None,
      se_failed_attempts = 0\<rparr>"

lemma exchange_cases:
  assumes "exchange_bootstrap_capability env token ttl session_id secret now s = (r, s')"
  obtains (rejected) e where "r = Inl e" "s' = s"
    | (counted) cid row where "r = Inl (BootstrapCapabilityError ''bootstrap capability is invalid'')"
      "opaque_token_id token = Some cid" "fetch cp_capability_id cid (st_capabilities s) = Some row"
      "cp_token_hash row \<noteq> env_sha256 env token" "s' = record_capability_failure cid now s"
    | (granted) cid row where
      "r = Inr (snd (new_opaque_token session_id secret), min (now + ttl) (cp_expires_at row))"
      "opaque_token_id token = Some cid" "fetch cp_capability_id cid (st_capabilities s) = Some row"
      "cp_token_hash row = env_sha256 env token" "capability_is_active row now"
      "0 < ttl" "ttl \<le> MAX_BOOTSTRAP_TTL"
      "session_id \<notin> se_session_id ` set (st_sessions s)" "cid \<notin> se_capability_id ` set (st_sessions s)"
      "st_capabilities s' = update_where (\<lambda>r. cp_capability_id r = cid) (exchange_row now) (st_capabilities s)"
      "st_sessions s' = st_sessions s @ [new_session env row ttl session_id secret now]"
      "other_tables s s'" "\<exists>a. st_audits s' = st_audits s @ [a] \<and> au_sequence a = Suc (st_audit_seq s)"
      "st_audit_seq s' = Suc (st_audit_seq s)"
proof (cases "require_bootstrap_ttl ttl")
  case (Inl e)
  with assms show thesis by (intro rejected [of e]) (auto simp: exchange_bootstrap_capability_def)
next
  case (Inr u)
  then have ttl: "0 < ttl" "ttl \<le> MAX_BOOTSTRAP_TTL" by (auto simp: require_bootstrap_ttl_def split: if_splits)
  consider (raised) e where "exchange_body env token ttl session_id secret now s = Inl e" "r = Inl e" "s' = s"
    | (refused) "exchange_body env token ttl session_id secret now s = Inr (None, s')"
        "r = Inl (BootstrapCapabilityError ''bootstrap capability is invalid'')"
    | (ok) a where "exchange_body env token ttl session_id secret now s = Inr (Some a, s')" "r = Inr a"
    using assms Inr
    by (auto simp: exchange_bootstrap_capability_def or_raise_def write_tx_def
        split: sum.splits prod.splits option.splits)
  then show thesis
  proof cases
    case raised
    then show thesis by (intro rejected)
  next
    case refused
    then have "s' = s \<or> (\<exists>cid row. opaque_token_id token = Some cid
        \<and> fetch cp_capability_id cid (st_capabilities s) = Some row
        \<and> cp_token_hash row \<noteq> env_sha256 env token \<and> s' = record_capability_failure cid now s)"
      by (auto simp: exchange_body_def Let_def new_opaque_token_def split: option.splits if_splits sum.splits)
    with refused(2) show thesis using rejected counted by blast
  next
    case (ok a)
    obtain cid where cid: "opaque_token_id token = Some cid"
      using ok(1) by (cases "opaque_token_id token") (auto simp: exchange_body_def)
    obtain row where row: "fetch cp_capability_id cid (st_capabilities s) = Some row"
      using ok(1) cid by (cases "fetch cp_capability_id cid (st_capabilities s)") (auto simp: exchange_body_def)
    have "cp_capability_id row = cid" using row by (auto dest: fetch_SomeD)
    then show thesis
      using ok cid row ttl
      by (intro granted [OF _ cid row])
        (auto simp: exchange_body_def Let_def new_opaque_token_def insert_session_def audited_Inr
           new_session_def other_tables_def split: if_splits sum.splits)
  qed
qed

lemma authenticate_cases:
  assumes "authenticate_bootstrap_session env sid token now s = (r, s')"
  obtains (refused) "r = None" "s' = s"
    | (counted) i row where "r = None" "sid = Some i" "fetch se_session_id i (st_sessions s) = Some row"
      "se_token_hash row \<noteq> env_sha256 env token" "s' = record_session_failure i now s"
    | (accepted) i row where "r = Some row" "s' = s" "sid = Some i" "fetch se_session_id i (st_sessions s) = Some row"
      "se_token_hash row = env_sha256 env token" "open_session now row"
      "se_failed_attempts row < MAX_BOOTSTRAP_ATTEMPTS"
proof (cases sid)
  case None
  with assms show thesis by (intro refused) (auto simp: authenticate_bootstrap_session_def)
next
  case (Some i)
  show thesis
  proof (cases "fetch se_session_id i (st_sessions s)")
    case None
    with assms Some show thesis by (intro refused) (auto simp: authenticate_bootstrap_session_def)
  next
    case row: (Some row)
    consider "se_token_hash row \<noteq> env_sha256 env token"
      | "se_token_hash row = env_sha256 env token" "r = None" "s' = s"
      | "se_token_hash row = env_sha256 env token" "open_session now row"
        "se_failed_attempts row < MAX_BOOTSTRAP_ATTEMPTS" "r = Some row" "s' = s"
      using assms Some row
      by (auto simp: authenticate_bootstrap_session_def open_session_def split: if_splits)
    then show thesis
    proof cases
      case 1
      with assms Some row show thesis
        by (intro counted [of i row]) (auto simp: authenticate_bootstrap_session_def)
    next
      case 2
      then show thesis by (intro refused)
    next
      case 3
      with Some row show thesis by (intro accepted [of row i])
    qed
  qed
qed

lemma validate_cases:
  assumes "validate_bootstrap_grant env token now s = (r, s')"
  obtains (refused) e where "r = Inl e" "s' = s"
    | (counted) i row where "r = Inl (BootstrapCapabilityError ''bootstrap session grant is invalid'')"
      "opaque_token_id token = Some i" "fetch se_session_id i (st_sessions s) = Some row"
      "se_token_hash row \<noteq> env_sha256 env token" "s' = record_session_failure i now s"
    | (accepted) i row where "r = Inr (token, se_expires_at row)" "s' = s" "opaque_token_id token = Some i"
      "fetch se_session_id i (st_sessions s) = Some row"
      "se_token_hash row = env_sha256 env token" "open_session now row"
proof -
  obtain q where a: "authenticate_bootstrap_session env (opaque_token_id token) token now s = (q, s')"
    using assms by (auto simp: validate_bootstrap_grant_def split: prod.splits option.splits)
  from a show thesis
    by (cases rule: authenticate_cases)
      (use assms a refused counted accepted in \<open>auto simp: validate_bootstrap_grant_def\<close>)
qed

lemma consume_cases:
  assumes "consume_bootstrap_grant env token prin now s = (r, s')"
    and "distinct (map se_session_id (st_sessions s))"
  obtains (rejected) e where "r = Inl e" "s' = s"
    | (guessed) i row where "r = Inl (BootstrapCapabilityError ''bootstrap session grant is invalid'')"
      "opaque_token_id token = Some i" "fetch se_session_id i (st_sessions s) = Some row"
      "se_token_hash row \<noteq> env_sha256 env token" "s' = record_session_failure i now s"
    | (consumed) i row where "r = Inr ()" "opaque_token_id token = Some i"
      "fetch se_session_id i (st_sessions s) = Some row"
      "se_token_hash row = env_sha256 env token" "open_session now row"
      "st_sessions s' = update_where (\<lambda>r. se_session_id r = i) (consume_session now) (st_sessions s)"
      "st_capabilities s' = st_capabilities s" "other_tables s s'"
      "\<exists>a. st_audits s' = st_audits s @ [a] \<and> au_sequence a = Suc (st_audit_seq s)"
      "st_audit_seq s' = Suc (st_audit_seq s)"
proof (cases "require_principal prin")
  case (Inl e)
  with assms show thesis by (intro rejected [of e]) (auto simp: consume_bootstrap_grant_def)
next
  case (Inr u)
  obtain q s1 where a: "authenticate_bootstrap_session env (opaque_token_id token) token now s = (q, s1)"
    by fastforce
  then show thesis
  proof (cases rule: authenticate_cases)
    case refused
    with assms Inr a rejected show thesis
      by (auto simp: consume_bootstrap_grant_def consume_body_def or_raise_def write_tx_def)
  next
    case (counted i row)
    with assms Inr a show thesis
      by (intro guessed [of i row])
        (auto simp: consume_bootstrap_grant_def consume_body_def or_raise_def write_tx_def)
  next
    case (accepted i row)
    let ?hit = "\<lambda>r. se_session_id r = se_session_id row \<and> se_consumed_at r = None \<and> se_revoked_at r = None"
    have row: "row \<in> set (st_sessions s)" "se_session_id row = i" using accepted by (auto dest: fetch_SomeD)
    have "?hit q \<longleftrightarrow> se_session_id q = i" if "q \<in> set (st_sessions s)" for q
    proof -
      have "q = row" if "se_session_id q = i"
        by (rule fetch_unique [OF assms(2) accepted(4) \<open>q \<in> set (st_sessions s)\<close> that])
      then show ?thesis using accepted(6) row by (auto simp: open_session_def)
    qed
    then have upd: "update_where ?hit (consume_session now) (st_sessions s)
        = update_where (\<lambda>r. se_session_id r = i) (consume_session now) (st_sessions s)"
      by (intro update_where_cong) auto
    show thesis
    proof (cases r)
      case (Inl e)
      have "s' = s \<or> rowcount ?hit (st_sessions s) \<noteq> 1"
        using assms(1) \<open>require_principal prin = Inr u\<close> a accepted Inl
        by (auto simp: consume_bootstrap_grant_def consume_body_def or_raise_def write_tx_def Let_def
            split: if_splits sum.splits option.splits prod.splits)
      moreover have "rowcount ?hit (st_sessions s) = 1"
      proof -
        have "rowcount ?hit (st_sessions s) \<noteq> 0"
          using row accepted(6) by (auto simp: rowcount_def filter_empty_conv open_session_def)
        then show ?thesis
          using rowcount_key_le_1 [OF assms(2), of "se_session_id row"
              "\<lambda>r. se_consumed_at r = None \<and> se_revoked_at r = None"] by simp
      qed
      ultimately show thesis using rejected Inl by blast
    next
      case (Inr x)
      then show thesis
        using assms(1) \<open>require_principal prin = Inr u\<close> a accepted upd row
        by (intro consumed [of i row])
          (auto simp: consume_bootstrap_grant_def consume_body_def or_raise_def write_tx_def Let_def
            audited_Inr other_tables_def split: if_splits sum.splits option.splits prod.splits)
    qed
  qed
qed

section \<open>Steps of a row\<close>

inductive cap_step :: "int \<Rightarrow> capability_row \<Rightarrow> capability_row \<Rightarrow> bool" for now where
  keep: "cap_step now r r"
| revoke: "open_capability now r \<Longrightarrow> cap_step now r (revoke_capability now r)"
| fail: "cp_revoked_at r = None \<Longrightarrow> cap_step now r (fail_capability now r)"
| exchange: "capability_is_active r now \<Longrightarrow> cap_step now r (exchange_row now r)"

inductive ses_step :: "int \<Rightarrow> session_row \<Rightarrow> session_row \<Rightarrow> bool" for now where
  keep: "ses_step now r r"
| revoke: "open_session now r \<Longrightarrow> ses_step now r (revoke_session now r)"
| fail: "se_revoked_at r = None \<Longrightarrow> ses_step now r (fail_session now r)"
| consume: "open_session now r \<Longrightarrow> ses_step now r (consume_session now r)"

inductive_cases cap_stepE: "cap_step now r r'"
inductive_cases ses_stepE: "ses_step now r r'"

lemma cap_step_frame:
  "cap_step now r r' \<Longrightarrow> cp_capability_id r' = cp_capability_id r \<and> cp_token_hash r' = cp_token_hash r
     \<and> cp_expires_at r' = cp_expires_at r \<and> cp_issuer_principal r' = cp_issuer_principal r
     \<and> (cp_exchanged_at r \<noteq> None \<longrightarrow> cp_exchanged_at r' = cp_exchanged_at r)
     \<and> (cp_revoked_at r \<noteq> None \<longrightarrow> cp_revoked_at r' = cp_revoked_at r)"
  by (auto elim!: cap_stepE simp: grant_row_defs capability_is_active_def open_capability_def)

lemma ses_step_frame:
  "ses_step now r r' \<Longrightarrow> se_session_id r' = se_session_id r \<and> se_capability_id r' = se_capability_id r
     \<and> se_token_hash r' = se_token_hash r \<and> se_expires_at r' = se_expires_at r
     \<and> (se_consumed_at r \<noteq> None \<longrightarrow> se_consumed_at r' = se_consumed_at r)
     \<and> (se_revoked_at r \<noteq> None \<longrightarrow> se_revoked_at r' = se_revoked_at r)"
  by (auto elim!: ses_stepE simp: grant_row_defs open_session_def)

lemma cap_step_wf: "cap_step now r r' \<Longrightarrow> wf_capability r \<Longrightarrow> wf_capability r'"
  by (auto elim!: cap_stepE simp: grant_row_defs wf_capability_def MAX_BOOTSTRAP_ATTEMPTS_def
      capability_is_active_def open_capability_def)

lemma ses_step_wf: "ses_step now r r' \<Longrightarrow> wf_session r \<Longrightarrow> wf_session r'"
  by (auto elim!: ses_stepE simp: grant_row_defs wf_session_def MAX_BOOTSTRAP_ATTEMPTS_def open_session_def)

text \<open>The SQL filters and the Python predicate agree on well-formed rows.\<close>

lemma open_capability_iff: "wf_capability r \<Longrightarrow> open_capability now r \<longleftrightarrow> capability_is_active r now"
  by (auto simp: open_capability_def capability_is_active_def wf_capability_def le_less)

section \<open>Steps of the two tables\<close>

definition grants_step :: "int \<Rightarrow> store \<Rightarrow> store \<Rightarrow> bool" where
  "grants_step now s s' \<longleftrightarrow>
     (\<exists>caps sess. list_all2 (cap_step now) (st_capabilities s) (take (length (st_capabilities s)) (st_capabilities s'))
        \<and> list_all2 (ses_step now) (st_sessions s) (take (length (st_sessions s)) (st_sessions s'))
        \<and> st_capabilities s' = take (length (st_capabilities s)) (st_capabilities s') @ caps
        \<and> st_sessions s' = take (length (st_sessions s)) (st_sessions s') @ sess)"

lemma update_where_rel:
  assumes "\<And>r. R r r" and "\<And>r. r \<in> set rows \<Longrightarrow> p r \<Longrightarrow> R r (f r)"
  shows "list_all2 R rows (update_where p f rows)"
  using assms by (auto simp: update_where_def list.rel_map intro!: list.rel_refl_strong)

lemma list_all2_mem1: "list_all2 R xs ys \<Longrightarrow> x \<in> set xs \<Longrightarrow> \<exists>y \<in> set ys. R x y"
  by (induction rule: list_all2_induct) auto

lemma list_all2_mem2: "list_all2 R xs ys \<Longrightarrow> y \<in> set ys \<Longrightarrow> \<exists>x \<in> set xs. R x y"
  by (induction rule: list_all2_induct) auto

lemma list_all2_map_eq: "list_all2 R xs ys \<Longrightarrow> (\<And>x y. R x y \<Longrightarrow> f y = f x) \<Longrightarrow> map f ys = map f xs"
  by (induction rule: list_all2_induct) auto

lemma grants_inv_rows:
  assumes "grants_inv s" and caps: "list_all2 (cap_step now) (st_capabilities s) (st_capabilities s')"
    and sess: "list_all2 (ses_step now) (st_sessions s) (st_sessions s')"
  shows "grants_inv s'"
proof -
  have ids: "map cp_capability_id (st_capabilities s') = map cp_capability_id (st_capabilities s)"
    "map se_session_id (st_sessions s') = map se_session_id (st_sessions s)"
    "map se_capability_id (st_sessions s') = map se_capability_id (st_sessions s)"
    by (rule list_all2_map_eq [OF caps], use cap_step_frame in blast)
      (rule list_all2_map_eq [OF sess], use ses_step_frame in blast)+
  have "\<exists>r \<in> set (st_capabilities s'). cp_capability_id r = se_capability_id q
          \<and> cp_exchanged_at r \<noteq> None \<and> se_expires_at q \<le> cp_expires_at r"
    if "q \<in> set (st_sessions s')" for q
  proof -
    from list_all2_mem2 [OF sess that] obtain q0 where q0: "q0 \<in> set (st_sessions s)" "ses_step now q0 q" by blast
    then obtain r0 where r0: "r0 \<in> set (st_capabilities s)" "cp_capability_id r0 = se_capability_id q0"
      "cp_exchanged_at r0 \<noteq> None" "se_expires_at q0 \<le> cp_expires_at r0"
      using assms(1) unfolding grants_inv_def by blast
    from list_all2_mem1 [OF caps r0(1)] obtain r where "r \<in> set (st_capabilities s')" "cap_step now r0 r" by blast
    with r0 ses_step_frame [OF q0(2)] show ?thesis
      by (intro bexI [of _ r]) (auto dest!: cap_step_frame)
  qed
  moreover have "list_all wf_capability (st_capabilities s')"
    using assms(1) list_all2_mem2 [OF caps] cap_step_wf by (fastforce simp: grants_inv_def list_all_iff)
  moreover have "list_all wf_session (st_sessions s')"
    using assms(1) list_all2_mem2 [OF sess] ses_step_wf by (fastforce simp: grants_inv_def list_all_iff)
  ultimately show ?thesis using assms(1) by (simp add: grants_inv_def ids)
qed

lemma grants_step_rows:
  assumes "list_all2 (cap_step now) (st_capabilities s) (st_capabilities s')"
    and "list_all2 (ses_step now) (st_sessions s) (st_sessions s')"
  shows "grants_step now s s'"
  using assms list_all2_lengthD [OF assms(1)] list_all2_lengthD [OF assms(2)] by (simp add: grants_step_def)

lemma failure_rows:
  "list_all2 (cap_step now) (st_capabilities s) (st_capabilities (record_capability_failure cid now s))"
  "list_all2 (ses_step now) (st_sessions s) (st_sessions (record_session_failure sid now s))"
  "st_sessions (record_capability_failure cid now s) = st_sessions s"
  "st_capabilities (record_session_failure sid now s) = st_capabilities s"
  "other_tables s (record_capability_failure cid now s)" "other_tables s (record_session_failure sid now s)"
  by (auto simp: record_capability_failure_def record_session_failure_def other_tables_def
      intro!: update_where_rel intro: cap_step.intros ses_step.intros)

lemma rows_refl [simp]:
  "list_all2 (cap_step now) caps caps" "list_all2 (ses_step now) sess sess"
  by (simp_all add: list_all2_refl cap_step.keep ses_step.keep)

lemma validate_rows:
  assumes "validate_bootstrap_grant env token now s = (r, s')"
  shows "list_all2 (cap_step now) (st_capabilities s) (st_capabilities s')
    \<and> list_all2 (ses_step now) (st_sessions s) (st_sessions s') \<and> other_tables s s'"
  using assms by (cases rule: validate_cases) (simp_all add: failure_rows)

lemma consume_rows:
  assumes "consume_bootstrap_grant env token prin now s = (r, s')"
    and "distinct (map se_session_id (st_sessions s))"
  shows "list_all2 (cap_step now) (st_capabilities s) (st_capabilities s')
    \<and> list_all2 (ses_step now) (st_sessions s) (st_sessions s') \<and> other_tables s s'"
  using assms
proof (cases rule: consume_cases)
  case (consumed i row)
  have "ses_step now q (consume_session now q)" if "q \<in> set (st_sessions s)" "se_session_id q = i" for q
    using fetch_unique [OF assms(2) consumed(3) that] consumed(5) by (auto intro: ses_step.consume)
  then show ?thesis using consumed by (auto intro!: update_where_rel intro: ses_step.keep)
qed (simp_all add: failure_rows)

lemma exchange_capability_rows:
  assumes "fetch cp_capability_id cid (st_capabilities s) = Some row" and "capability_is_active row now"
    and "distinct (map cp_capability_id (st_capabilities s))"
  shows "list_all2 (cap_step now) (st_capabilities s)
    (update_where (\<lambda>r. cp_capability_id r = cid) (exchange_row now) (st_capabilities s))"
proof (rule update_where_rel)
  fix r assume "r \<in> set (st_capabilities s)" "cp_capability_id r = cid"
  then have "r = row" by (rule fetch_unique [OF assms(3,1)])
  then show "cap_step now r (exchange_row now r)" using assms(2) by (simp add: cap_step.exchange)
qed (rule cap_step.keep)

lemma issue_rows:
  "list_all2 (cap_step now) caps (update_where (open_capability now) (revoke_capability now) caps)"
  "list_all2 (ses_step now) sess (update_where (open_session now) (revoke_session now) sess)"
  by (auto intro!: update_where_rel intro: cap_step.intros ses_step.intros)

text \<open>Every bootstrap operation is a step of the two tables and keeps their invariant.\<close>

lemma issue_step:
  assumes "issue_bootstrap_capability env prin ttl token_id secret now s = (r, s')" and "grants_inv s"
  shows "grants_inv s' \<and> grants_step now s s'"
  using assms(1)
proof (cases rule: issue_cases)
  case rejected
  with assms(2) show ?thesis by (simp add: grants_step_rows)
next
  case issued
  let ?s = "s\<lparr>st_capabilities := update_where (open_capability now) (revoke_capability now) (st_capabilities s),
              st_sessions := update_where (open_session now) (revoke_session now) (st_sessions s)\<rparr>"
  have inv: "grants_inv ?s" by (rule grants_inv_rows [OF assms(2), of now]) (simp_all add: issue_rows)
  have "token_id \<notin> cp_capability_id ` set (st_capabilities ?s)"
    using issued(4) arg_cong [OF revoke_cap.map_key [of "open_capability now" now "st_capabilities s"], of set]
    by simp
  then have "grants_inv s'"
    using inv issued by (auto simp: grants_inv_def new_capability_def wf_capability_def MAX_BOOTSTRAP_ATTEMPTS_def)
  then show ?thesis using issued by (simp add: grants_step_def issue_rows)
qed

lemma exchange_step:
  assumes "exchange_bootstrap_capability env token ttl session_id secret now s = (r, s')" and "grants_inv s"
  shows "grants_inv s' \<and> grants_step now s s'"
  using assms(1)
proof (cases rule: exchange_cases)
  case rejected
  with assms(2) show ?thesis by (simp add: grants_step_rows)
next
  case (counted cid row)
  then show ?thesis
    using grants_inv_rows [OF assms(2), of now s'] by (simp add: grants_step_rows failure_rows)
next
  case (granted cid row)
  have dist: "distinct (map cp_capability_id (st_capabilities s))" using assms(2) by (simp add: grants_inv_def)
  note rows = exchange_capability_rows [OF granted(3,5) dist]
  let ?s = "s\<lparr>st_capabilities := st_capabilities s'\<rparr>"
  have inv: "grants_inv ?s" by (rule grants_inv_rows [OF assms(2), of now]) (simp_all add: granted rows)
  have cap: "cp_capability_id row = cid" "row \<in> set (st_capabilities s)" using granted(3) by (auto dest: fetch_SomeD)
  then have "exchange_row now row \<in> set (st_capabilities s')" by (auto simp: granted(10) set_update_where)
  moreover have "cp_capability_id (exchange_row now row) = cid" "cp_exchanged_at (exchange_row now row) \<noteq> None"
    "min (now + ttl) (cp_expires_at row) \<le> cp_expires_at (exchange_row now row)"
    by (simp_all add: exchange_row_def cap)
  ultimately have "grants_inv s'"
    using inv granted(8,9) cap(1)
    by (fastforce simp: grants_inv_def granted(11) new_session_def wf_session_def MAX_BOOTSTRAP_ATTEMPTS_def)
  then show ?thesis using granted rows list_all2_lengthD [OF rows] by (simp add: grants_step_def)
qed

lemma validate_step:
  assumes "validate_bootstrap_grant env token now s = (r, s')" and "grants_inv s"
  shows "grants_inv s' \<and> grants_step now s s'"
  using validate_rows [OF assms(1)] grants_inv_rows [OF assms(2)] by (auto intro: grants_step_rows)

lemma consume_step:
  assumes "consume_bootstrap_grant env token prin now s = (r, s')" and "grants_inv s"
  shows "grants_inv s' \<and> grants_step now s s'"
proof -
  have "distinct (map se_session_id (st_sessions s))" using assms(2) by (simp add: grants_inv_def)
  with consume_rows [OF assms(1)] grants_inv_rows [OF assms(2)] show ?thesis by (auto intro: grants_step_rows)
qed

end
