(* ===== verification/Store_Frames.thy ===== *)
theory Store_Frames
  imports Destroy_Plans Grant_Safety
begin

text \<open>
  What the operations of \<open>ControllerStore\<close> leave alone.  The event and audit tables are logs: an
  operation only appends, with the next sequence numbers.  \<open>kept\<close> is the frame of the job
  operations that insert no job; the submissions are described by the rows they insert.
\<close>

section \<open>Append-only logs\<close>

definition log_ok :: "('r \<Rightarrow> nat) \<Rightarrow> nat \<Rightarrow> 'r list \<Rightarrow> bool" where
  "log_ok key seq rows \<longleftrightarrow> map key rows = [1..<Suc seq]"

definition log_step :: "('r \<Rightarrow> nat) \<Rightarrow> nat \<Rightarrow> 'r list \<Rightarrow> nat \<Rightarrow> 'r list \<Rightarrow> bool" where
  "log_step key seq rows seq' rows' \<longleftrightarrow>
     (\<exists>new. rows' = rows @ new \<and> map key new = [Suc seq..<Suc seq'] \<and> seq \<le> seq')"

lemma log_step_refl [simp]: "log_step key seq rows seq rows"
  by (simp add: log_step_def)

lemma log_step_trans:
  assumes "log_step key n xs m ys" and "log_step key m ys k zs"
  shows "log_step key n xs k zs"
proof -
  obtain new1 new2 where "ys = xs @ new1" "map key new1 = [Suc n..<Suc m]" "n \<le> m"
    "zs = ys @ new2" "map key new2 = [Suc m..<Suc k]" "m \<le> k"
    using assms by (auto simp: log_step_def)
  moreover from this have "[Suc n..<Suc k] = [Suc n..<Suc m] @ [Suc m..<Suc k]"
    by (metis Suc_le_mono le_Suc_ex upt_add_eq_append)
  ultimately show ?thesis
    unfolding log_step_def by (intro exI [of _ "new1 @ new2"]) simp
qed

lemma log_step_snoc: "key r = Suc seq \<Longrightarrow> log_step key seq rows (Suc seq) (rows @ [r])"
  by (simp add: log_step_def)

lemma log_step_ok: "log_step key n xs m ys \<Longrightarrow> log_ok key n xs \<Longrightarrow> log_ok key m ys"
proof -
  assume "log_step key n xs m ys" and ok: "log_ok key n xs"
  then obtain new where "ys = xs @ new" "map key new = [Suc n..<Suc m]" "n \<le> m" by (auto simp: log_step_def)
  moreover have "[1..<Suc m] = [1..<Suc n] @ [Suc n..<Suc m]" if "n \<le> m"
    using upt_add_eq_append [of 1 "Suc n" "m - n"] that by (simp del: upt_Suc)
  ultimately show "log_ok key m ys" using ok by (simp add: log_ok_def del: upt_Suc)
qed

section \<open>Frames of the job operations\<close>

definition job_ids :: "store \<Rightarrow> string set" where
  "job_ids s = job_id ` set (st_jobs s)"

definition events_closed :: "store \<Rightarrow> bool" where
  "events_closed s \<longleftrightarrow> ev_job_id ` set (st_events s) \<subseteq> job_ids s"

definition logs_step :: "store \<Rightarrow> store \<Rightarrow> bool" where
  "logs_step s s' \<longleftrightarrow>
     log_step ev_sequence (st_event_seq s) (st_events s) (st_event_seq s') (st_events s')
     \<and> log_step au_sequence (st_audit_seq s) (st_audits s) (st_audit_seq s') (st_audits s')
     \<and> (events_closed s \<longrightarrow> events_closed s')"

definition kept :: "store \<Rightarrow> store \<Rightarrow> bool" where
  "kept s s' \<longleftrightarrow> logs_step s s'
     \<and> map job_id (st_jobs s') = map job_id (st_jobs s)
     \<and> map job_request_json (st_jobs s') = map job_request_json (st_jobs s)
     \<and> st_plans s' = st_plans s \<and> st_approvals s' = st_approvals s
     \<and> st_capabilities s' = st_capabilities s \<and> st_sessions s' = st_sessions s"

lemma logs_step_refl [simp]: "logs_step s s"
  by (simp add: logs_step_def)

lemma logs_step_trans: "logs_step s t \<Longrightarrow> logs_step t u \<Longrightarrow> logs_step s u"
  by (auto simp: logs_step_def intro: log_step_trans)

lemma kept_refl [simp]: "kept s s"
  by (simp add: kept_def)

lemma kept_trans [trans]: "kept s t \<Longrightarrow> kept t u \<Longrightarrow> kept s u"
  by (auto simp: kept_def intro: logs_step_trans)

lemma job_ids_map: "job_ids s = set (map job_id (st_jobs s))"
  by (simp add: job_ids_def)

lemma audited_kept: "audited t p a r d s = Inr s' \<Longrightarrow> kept s s'"
  by (auto simp: audited_Inr kept_def logs_step_def events_closed_def job_ids_def intro!: log_step_snoc)

lemma insert_event_kept: "insert_event ev s = Inr (n, s') \<Longrightarrow> kept s s'"
  by (auto simp: insert_event_Inr kept_def logs_step_def events_closed_def job_ids_def intro!: log_step_snoc)

lemma store_event_kept: "store_event ev s = Inr s' \<Longrightarrow> kept s s'"
  by (auto simp: store_event_def split: option.splits sum.splits intro: insert_event_kept)

lemma update_where_map: "(\<And>r. f (u r) = f r) \<Longrightarrow> map f (update_where p u rows) = map f rows"
  by (induction rows) auto

lemma update_job_kept:
  assumes "\<And>r. job_id (f r) = job_id r" and "\<And>r. job_request_json (f r) = job_request_json r"
  shows "kept s (update_job jid f s)"
proof -
  have "map job_id (st_jobs (update_job jid f s)) = map job_id (st_jobs s)"
    "map job_request_json (st_jobs (update_job jid f s)) = map job_request_json (st_jobs s)"
    by (simp_all add: update_where_map assms)
  moreover from this have "job_ids (update_job jid f s) = job_ids s" by (simp only: job_ids_map)
  ultimately show ?thesis by (simp add: kept_def logs_step_def events_closed_def)
qed

lemma row_update_kept:
  "kept s (update_job jid (claim_row w e now) s)" "kept s (update_job jid (recover_cancel_row now) s)"
  "kept s (update_job jid (renew_row e now) s)" "kept s (update_job jid (transition_row t now res err) s)"
  "kept s (update_job jid (cancel_row t now) s)"
  by (rule update_job_kept; simp add: row_defs)+

lemma take_claim_kept: "take_claim jid w e now s = Inr (c, s') \<Longrightarrow> kept s s'"
  by (auto simp: take_claim_def Let_def split: option.splits sum.splits
      intro: kept_trans [OF row_update_kept(1)] audited_kept)

lemma recover_abandoned_kept: "recover_abandoned w now jids s = Inr s' \<Longrightarrow> kept s s'"
proof (induction w now jids s rule: recover_abandoned.induct)
  case (2 w now jid rest s)
  from "2.prems" obtain n s1 s2 where ev: "insert_event (recover_event jid now) (update_job jid (recover_cancel_row now) s) = Inr (n, s1)"
    and au: "audited now w ''JOB_CANCEL_RECOVER'' (''job:'' @ jid)
               [(''from'', DState CANCEL_REQUESTED), (''to'', DState CANCELLED)] s1 = Inr s2"
    and rest: "recover_abandoned w now rest s2 = Inr s'"
    by (auto split: sum.splits)
  have "kept s s1" using row_update_kept(2) insert_event_kept [OF ev] by (rule kept_trans)
  also have "kept s1 s2" by (rule audited_kept [OF au])
  also have "kept s2 s'" using "2.IH" [OF ev _ au] rest by simp
  finally show ?case .
qed simp

lemma claim_job_kept: "claim_job jid w secs now s = (r, s') \<Longrightarrow> kept s s'"
  by (auto simp: claim_job_def claim_job_body_def split: if_splits option.splits
      elim!: row_result_cases intro: take_claim_kept)

lemma claim_next_kept: "claim_next w secs now s = (r, s') \<Longrightarrow> kept s s'"
  by (auto simp: claim_next_def claim_next_body_def write_tx_def
      split: if_splits option.splits sum.splits list.splits prod.splits
      intro: take_claim_kept recover_abandoned_kept kept_trans [OF recover_abandoned_kept take_claim_kept])

lemma renew_kept: "renew_lease jid w g secs now s = (r, s') \<Longrightarrow> kept s s'"
  by (auto simp: renew_lease_def renew_body_def Let_def split: if_splits option.splits sum.splits
      elim!: row_result_cases intro: row_update_kept)

lemma transition_kept:
  assumes "transition env jid expected target res err ev w g now s = (r, s')"
  shows "kept s s'"
  using assms
proof (cases rule: transition_cases)
  case (committed res' err' ev' row)
  then obtain s1 where "store_event ev' (update_job jid (transition_row target now res' err') s) = Inr s1"
    and "\<exists>p d. audited now p ''JOB_TRANSITION'' (''job:'' @ jid) d s1 = Inr s'"
    by (auto simp: transition_body_def split: option.splits sum.splits if_splits)
  then show ?thesis
    using kept_trans [OF kept_trans [OF row_update_kept(4) store_event_kept] audited_kept] by blast
qed simp

lemma request_cancel_kept:
  assumes "request_cancel env jid prin now s = (r, s')"
  shows "kept s s'"
  using assms unfolding request_cancel_def
proof (cases rule: row_result_cases)
  case (committed row)
  then obtain t s1 where "update_job jid (cancel_row t now) s = s1 \<or>
      (\<exists>ev. store_event ev (update_job jid (cancel_row t now) s) = Inr s1)"
    and "\<exists>d. audited now prin ''JOB_CANCEL_REQUEST'' (''job:'' @ jid) d s1 = Inr s'"
    by (auto simp: request_cancel_body_def Let_def split: option.splits sum.splits if_splits)
  then show ?thesis
    by (auto intro: kept_trans [OF row_update_kept(5) audited_kept]
        kept_trans [OF kept_trans [OF row_update_kept(5) store_event_kept] audited_kept])
qed simp

lemma append_event_kept: "append_event env jid level msg payload w g now s = (r, s') \<Longrightarrow> kept s s'"
  by (auto simp: append_event_def append_event_body_def write_tx_def
      split: sum.splits option.splits if_splits prod.splits intro: insert_event_kept)

lemma append_audit_kept: "append_audit prin action resource outcome details now s = (r, s') \<Longrightarrow> kept s s'"
  by (auto simp: append_audit_def append_audit_conn_def write_tx_def Let_def kept_def logs_step_def
      events_closed_def job_ids_def image_subset_iff split: sum.splits if_splits prod.splits
      intro!: log_step_snoc)

end
