(* ===== verification/Store_Runs.thy ===== *)
theory Store_Runs
  imports Store_Frames
begin

text \<open>
  Sequences of calls on one \<open>ControllerStore\<close>.  A call is one public mutating method with its
  arguments, the clock reading and the random values it draws; \<open>exec\<close> is the store it leaves
  and \<open>run_calls\<close> a whole history.  Each call runs in one \<open>BEGIN IMMEDIATE\<close> transaction, so an
  interleaving of clients is a sequence of calls.  \<open>store_inv\<close> holds of every history.
\<close>

section \<open>Calls\<close>

datatype store_call =
    SubmitJob job_request string "int option" "job_kind list option" string bytes
  | SubmitBatch "(job_request \<times> string \<times> bytes) list" string int
  | ClaimJob string string int
  | ClaimNext string int
  | RenewLease string string nat int
  | Transition string job_state job_state "fields option" "error_body option"
      "(event_level \<times> string \<times> fields) option" "string option" "nat option"
  | RequestCancel string string
  | AppendEvent string event_level string fields "string option" "nat option"
  | AppendAudit string string string audit_outcome "(string \<times> detail) list"
  | CreatePlan destroy_plan_spec string string
  | IssueApproval string string int string string
  | IssueCapability string int string string
  | ExchangeCapability string int string string
  | ValidateGrant string
  | ConsumeGrant string string

fun exec :: "store_env \<Rightarrow> int \<Rightarrow> store_call \<Rightarrow> store \<Rightarrow> store" where
  "exec env now (SubmitJob request prin limit kinds jid nonce) s =
     snd (submit_job env request prin limit kinds now jid nonce s)"
| "exec env now (SubmitBatch requests prin limit) s = snd (submit_job_batch_limited env requests prin limit now s)"
| "exec env now (ClaimJob jid w secs) s = snd (claim_job jid w secs now s)"
| "exec env now (ClaimNext w secs) s = snd (claim_next w secs now s)"
| "exec env now (RenewLease jid w g secs) s = snd (renew_lease jid w g secs now s)"
| "exec env now (Transition jid expected target res err ev w g) s =
     snd (transition env jid expected target res err ev w g now s)"
| "exec env now (RequestCancel jid prin) s = snd (request_cancel env jid prin now s)"
| "exec env now (AppendEvent jid level msg payload w g) s = snd (append_event env jid level msg payload w g now s)"
| "exec env now (AppendAudit prin action resource outcome details) s =
     snd (append_audit prin action resource outcome details now s)"
| "exec env now (CreatePlan spec actor plan_id) s = snd (create_plan env spec actor plan_id now s)"
| "exec env now (IssueApproval plan_id actor ttl approval_id token) s =
     snd (issue_approval env plan_id actor ttl approval_id token now s)"
| "exec env now (IssueCapability prin ttl token_id secret) s =
     snd (issue_bootstrap_capability env prin ttl token_id secret now s)"
| "exec env now (ExchangeCapability token ttl session_id secret) s =
     snd (exchange_bootstrap_capability env token ttl session_id secret now s)"
| "exec env now (ValidateGrant token) s = snd (validate_bootstrap_grant env token now s)"
| "exec env now (ConsumeGrant token prin) s = snd (consume_bootstrap_grant env token prin now s)"

text \<open>The calls on jobs that insert no job, and the calls on the bootstrap tables.\<close>

fun quiet :: "store_call \<Rightarrow> bool" where
  "quiet (ClaimJob _ _ _) = True"
| "quiet (ClaimNext _ _) = True"
| "quiet (RenewLease _ _ _ _) = True"
| "quiet (Transition _ _ _ _ _ _ _ _) = True"
| "quiet (RequestCancel _ _) = True"
| "quiet (AppendEvent _ _ _ _ _ _) = True"
| "quiet (AppendAudit _ _ _ _ _) = True"
| "quiet _ = False"

fun bootstrap_call :: "store_call \<Rightarrow> bool" where
  "bootstrap_call (IssueCapability _ _ _ _) = True"
| "bootstrap_call (ExchangeCapability _ _ _ _) = True"
| "bootstrap_call (ValidateGrant _) = True"
| "bootstrap_call (ConsumeGrant _ _) = True"
| "bootstrap_call _ = False"

lemma quiet_kept: "quiet c \<Longrightarrow> kept s (exec env now c s)"
  by (cases c)
    (auto intro: claim_job_kept [OF prod.collapse [symmetric]] claim_next_kept [OF prod.collapse [symmetric]]
       renew_kept [OF prod.collapse [symmetric]] transition_kept [OF prod.collapse [symmetric]]
       request_cancel_kept [OF prod.collapse [symmetric]] append_event_kept [OF prod.collapse [symmetric]]
       append_audit_kept [OF prod.collapse [symmetric]])

lemma append_audit_jobs: "st_jobs (snd (append_audit prin action resource outcome details now s)) = st_jobs s"
  by (simp add: append_audit_def append_audit_conn_def write_tx_def Let_def)

lemma quiet_table_step:
  "quiet c \<Longrightarrow> distinct (map job_id (st_jobs s)) \<Longrightarrow> table_step now (st_jobs s) (st_jobs (exec env now c s))"
  by (cases c)
    (auto simp: append_event_jobs [OF prod.collapse [symmetric]] append_audit_jobs
       intro: claim_job_table_step [OF prod.collapse [symmetric]] claim_next_table_step [OF prod.collapse [symmetric]]
       renew_table_step [OF prod.collapse [symmetric]] transition_table_step [OF prod.collapse [symmetric]]
       request_cancel_table_step [OF prod.collapse [symmetric]])

definition run_calls :: "store_env \<Rightarrow> (int \<times> store_call) list \<Rightarrow> store \<Rightarrow> store" where
  "run_calls env calls s = fold (\<lambda>(now, c). exec env now c) calls s"

lemma run_calls_simps [simp]:
  "run_calls env [] s = s"
  "run_calls env ((now, c) # calls) s = run_calls env calls (exec env now c s)"
  by (simp_all add: run_calls_def)

section \<open>Requests at rest\<close>

definition protected_request :: "job_request \<Rightarrow> bool" where
  "protected_request r \<longleftrightarrow>
     (case rq_operation r of
        DestroyInfraOperation op \<Rightarrow> di_approval_token op = ''consumed-approval''
      | IdentityOperation (InviteUserCommand _) \<Rightarrow> False
      | _ \<Rightarrow> True)"

abbreviation destroys :: "job_request \<Rightarrow> bool" where
  "destroys r \<equiv> is_destroy (rq_operation r)"

definition destroy_jobs :: "store \<Rightarrow> nat" where
  "destroy_jobs s = rowcount (\<lambda>r. destroys (job_request_json r)) (st_jobs s)"

lemma protect_request_Inr:
  assumes "protect_request env nonce request prin = Inr p" and "\<not> destroys request"
  shows "protected_request p \<and> \<not> destroys p \<and> rq_idempotency_key p = rq_idempotency_key request"
  using assms
  by (auto simp: protect_request_def seal_invite_command_def protected_request_def is_destroy_def Let_def
      split: operation.splits identity_command.splits sum.splits)

lemma persist_request_Inr:
  assumes "persist_request env nonce request prin now s = Inr (p, s')"
  shows "protected_request p \<and> destroys p = destroys request
    \<and> consumed_count s' = consumed_count s + (if destroys p then 1 else 0)"
proof (cases "destroys request")
  case True
  then obtain op where "rq_operation request = DestroyInfraOperation op"
    by (auto simp: is_destroy_def split: operation.splits)
  with assms show ?thesis
    by (auto simp: persist_request_def protected_request_def is_destroy_def dest: consume_count split: sum.splits)
next
  case False
  with assms have "protect_request env nonce request prin = Inr p \<and> s' = s"
    by (auto simp: persist_request_def is_destroy_def split: operation.splits sum.splits)
  then show ?thesis using False protect_request_Inr [of env nonce request prin p] by simp
qed

section \<open>The invariant\<close>

definition jobs_inv :: "store \<Rightarrow> bool" where
  "jobs_inv s \<longleftrightarrow> distinct (map job_id (st_jobs s))
     \<and> distinct (map (\<lambda>r. (job_principal r, job_idempotency_key r)) (st_jobs s))
     \<and> list_all wf_row (st_jobs s) \<and> list_all (\<lambda>r. length (job_id r) \<le> 508) (st_jobs s)
     \<and> list_all (\<lambda>r. protected_request (job_request_json r)) (st_jobs s)"

definition approvals_inv :: "store \<Rightarrow> bool" where
  "approvals_inv s \<longleftrightarrow> distinct (map pl_plan_id (st_plans s)) \<and> distinct (map ap_approval_id (st_approvals s))
     \<and> ap_plan_id ` set (st_approvals s) \<subseteq> pl_plan_id ` set (st_plans s)
     \<and> (\<forall>a \<in> set (st_approvals s). ap_expires_at a \<le> ap_created_at a + MAX_APPROVAL_TTL)"

definition logs_inv :: "store \<Rightarrow> bool" where
  "logs_inv s \<longleftrightarrow> log_ok ev_sequence (st_event_seq s) (st_events s)
     \<and> log_ok au_sequence (st_audit_seq s) (st_audits s) \<and> events_closed s"

definition store_inv :: "store \<Rightarrow> bool" where
  "store_inv s \<longleftrightarrow> jobs_inv s \<and> approvals_inv s \<and> grants_inv s \<and> logs_inv s \<and> destroy_jobs s = consumed_count s"

lemma empty_store_inv: "store_inv empty_store"
  by (simp add: store_inv_def jobs_inv_def approvals_inv_def grants_inv_def logs_inv_def log_ok_def
      events_closed_def empty_store_def destroy_jobs_def consumed_count_def)

section \<open>Preservation\<close>

lemma destroy_jobs_map: "destroy_jobs s = length (filter destroys (map job_request_json (st_jobs s)))"
  by (simp add: destroy_jobs_def rowcount_def filter_map o_def)

lemma kept_inv:
  assumes "kept s s'" and "table_step now (st_jobs s) (st_jobs s')" and "store_inv s"
  shows "store_inv s'"
proof -
  note k = assms(1) [unfolded kept_def]
  have "list_all protected_request (map job_request_json (st_jobs s))"
    using assms(3) by (simp add: store_inv_def jobs_inv_def list.pred_map o_def)
  then have "list_all protected_request (map job_request_json (st_jobs s'))" using k by simp
  then have "list_all (\<lambda>r. protected_request (job_request_json r)) (st_jobs s')"
    by (simp add: list.pred_map o_def)
  moreover have "list_all (\<lambda>i. length i \<le> 508) (map job_id (st_jobs s))"
    using assms(3) by (simp add: store_inv_def jobs_inv_def list.pred_map o_def)
  then have "list_all (\<lambda>r. length (job_id r) \<le> 508) (st_jobs s')"
    using k by (metis (no_types, lifting) list.pred_map comp_def list.pred_cong)
  moreover have "distinct (map (\<lambda>r. (job_principal r, job_idempotency_key r)) (st_jobs s'))"
    and "list_all wf_row (st_jobs s')"
    using assms(2,3) table_step_wf [OF assms(2)] by (auto simp: store_inv_def jobs_inv_def table_step_def)
  ultimately have "jobs_inv s'"
    using k assms(3) by (simp add: store_inv_def jobs_inv_def)
  moreover have "approvals_inv s'" and "grants_inv s'" and "logs_inv s'"
    using k assms(3) by (auto simp: store_inv_def approvals_inv_def grants_inv_def logs_inv_def logs_step_def
        intro: log_step_ok)
  moreover have "destroy_jobs s' = consumed_count s'"
    using k assms(3) by (simp add: store_inv_def destroy_jobs_map consumed_count_def)
  ultimately show ?thesis by (simp add: store_inv_def)
qed

lemma same_jobs_inv:
  assumes "st_jobs s' = st_jobs s" and "logs_step s s'" and "approvals_inv s'" and "grants_inv s'"
    and "consumed_count s' = consumed_count s" and "store_inv s"
  shows "store_inv s'"
  using assms by (auto simp: store_inv_def jobs_inv_def logs_inv_def logs_step_def destroy_jobs_def intro: log_step_ok)

lemma enqueue_inv:
  assumes e: "enqueue request p hash prin now jid s = Inr (row, s')"
    and "jobs_inv s" and "approvals_inv s" and "grants_inv s" and "logs_inv s" and "protected_request p"
    and "destroy_jobs s + (if destroys p then 1 else 0) = consumed_count s"
  shows "store_inv s'"
proof -
  note q = enqueue_Inr [OF e]
  have jobs: "st_jobs s' = st_jobs s @ [row]" and row: "row = new_job_row jid prin (rq_idempotency_key request) hash p now"
    using q by auto
  have ts: "table_step now (st_jobs s) (st_jobs s')" by (rule enqueue_table_step [OF e])
  obtain a where au: "st_audits s' = st_audits s @ [a]" "au_sequence a = Suc (st_audit_seq s)"
    "st_audit_seq s' = Suc (st_audit_seq s)"
    using e by (auto simp: enqueue_def Let_def insert_job_def audited_Inr split: sum.splits if_splits)
  have "jobs_inv s'"
    using assms(2,6) table_step_wf [OF ts] ts q
    by (auto simp: jobs_inv_def jobs row new_job_row_def table_step_def)
  moreover have "approvals_inv s'" "grants_inv s'" using q assms(3,4) by (auto simp: approvals_inv_def grants_inv_def)
  moreover have "logs_inv s'"
    using assms(5) q au log_step_ok [OF log_step_snoc [where key = au_sequence, OF au(2)]]
    by (auto simp: logs_inv_def events_closed_def job_ids_def jobs)
  moreover have "destroy_jobs s' = consumed_count s'"
    using assms(7) q by (simp add: destroy_jobs_def jobs row new_job_row_def consumed_count_def)
  ultimately show ?thesis by (simp add: store_inv_def)
qed

lemma consume_approvals_inv:
  assumes "consume_destructive_approval env op prin now s = Inr s'" and "approvals_inv s"
  shows "approvals_inv s'"
proof -
  obtain a where s': "s' = s\<lparr>st_approvals := update_where (consumes a) (consume_approval_row now) (st_approvals s)\<rparr>"
    using consume_InrD [OF assms(1)] by blast
  have "map ap_plan_id (st_approvals s') = map ap_plan_id (st_approvals s)"
    by (simp add: s' update_where_map consume_approval_row_def)
  then have "ap_plan_id ` set (st_approvals s') = ap_plan_id ` set (st_approvals s)" by (metis list.set_map)
  then show ?thesis
    using assms(2) by (auto simp: s' approvals_inv_def consume_upd.distinct_keys set_update_where consume_approval_row_def)
qed

lemma persist_parts:
  assumes "persist_request env nonce request prin now s = Inr (p, s')" and "store_inv s"
  shows "jobs_inv s'" and "approvals_inv s'" and "grants_inv s'" and "logs_inv s'"
proof -
  note f = persist_frame [OF assms(1)]
  show "jobs_inv s'" "grants_inv s'" "logs_inv s'"
    using f assms(2) by (auto simp: store_inv_def jobs_inv_def grants_inv_def logs_inv_def events_closed_def job_ids_def)
  have "s' = s \<or> (\<exists>op. consume_destructive_approval env op prin now s = Inr s')"
    using assms(1) by (auto simp: persist_request_def split: operation.splits sum.splits)
  then show "approvals_inv s'" using assms(2) consume_approvals_inv by (auto simp: store_inv_def)
qed

lemma submit_inv:
  assumes "submit_job env request prin limit kinds now jid nonce s = (r, s')" and "store_inv s"
  shows "store_inv s'"
proof -
  have "s' = s \<or> submit_body env request prin limit kinds now jid nonce s = Inr (r, s')"
    using assms(1) by (auto simp: submit_job_def split: if_splits option.splits elim: finish_cases)
  then show ?thesis
  proof
    assume "submit_body env request prin limit kinds now jid nonce s = Inr (r, s')"
    then show ?thesis
    proof (cases rule: submit_body_cases)
      case (created p s1 row)
      have "destroy_jobs s1 + (if destroys p then 1 else 0) = consumed_count s1"
        using persist_request_Inr [OF created(2)] persist_frame [OF created(2)] assms(2)
        by (simp add: store_inv_def destroy_jobs_def)
      then show ?thesis
        using enqueue_inv [OF created(3) persist_parts [OF created(2) assms(2)]] persist_request_Inr [OF created(2)]
        by blast
    qed (use assms(2) in simp)
  qed (use assms(2) in simp)
qed

lemma batch_split_pending:
  "batch_split env prin requests s = Inr (replays, pending) \<Longrightarrow>
     (\<forall>x \<in> set requests. \<not> destroys (fst x)) \<Longrightarrow>
     (\<forall>(request, p, hash, jid) \<in> set pending. protected_request p \<and> \<not> destroys p)"
proof (induction env prin requests s arbitrary: replays pending rule: batch_split.induct)
  case (2 env prin request jid nonce rest s)
  have nd: "\<not> destroys request" and ih: "\<forall>x \<in> set rest. \<not> destroys (fst x)" using "2.prems"(2) by auto
  show ?case
  proof (cases "find_replay prin (rq_idempotency_key request) s")
    case None
    then obtain p replays' pending' where "protect_request env nonce request prin = Inr p"
      "batch_split env prin rest s = Inr (replays', pending')"
      "pending = (request, p, payload_hash env request, jid) # pending'"
      using "2.prems"(1) by (auto simp: Let_def split: sum.splits)
    with None "2.IH"(1) [OF refl None] ih protect_request_Inr [OF _ nd] show ?thesis by force
  next
    case (Some existing)
    then obtain rec replays' where "job_payload_hash existing = payload_hash env request"
      "job_from_row existing = Inr rec" "batch_split env prin rest s = Inr (replays', pending)"
      using "2.prems"(1) by (auto simp: Let_def split: sum.splits if_splits)
    with Some "2.IH"(2) [OF refl Some] ih show ?thesis by force
  qed
qed simp

lemma batch_insert_inv:
  "batch_insert prin now pending s = Inr (made, s') \<Longrightarrow> store_inv s \<Longrightarrow>
     (\<forall>(request, p, hash, jid) \<in> set pending. protected_request p \<and> \<not> destroys p) \<Longrightarrow> store_inv s'"
proof (induction prin now pending s arbitrary: made rule: batch_insert.induct)
  case (2 prin now request p hash jid rest s)
  from "2.prems"(1) obtain row s1 rec made' where e: "enqueue request p hash prin now jid s = Inr (row, s1)"
    and rec: "job_from_row row = Inr rec" and rest: "batch_insert prin now rest s1 = Inr (made', s')"
    by (auto split: sum.splits)
  have "store_inv s1"
    using "2.prems"(2,3) by (intro enqueue_inv [OF e]) (auto simp: store_inv_def)
  with "2.IH" [OF e _ rec] rest "2.prems"(3) show ?case by auto
qed simp

lemma batch_inv:
  assumes "submit_job_batch_limited env requests prin limit now s = (r, s')" and "store_inv s"
  shows "store_inv s'"
proof (cases "s' = s")
  case False
  then obtain results where b: "batch_body env requests prin limit now s = Inr (results, s')"
    and nd: "\<not> list_ex (\<lambda>(r, _). is_destroy (rq_operation r)) requests"
    using assms(1) by (auto simp: submit_job_batch_limited_def write_tx_def split: if_splits sum.splits prod.splits)
  from nd have "\<forall>x \<in> set requests. \<not> destroys (fst x)" by (auto simp: list_ex_iff split_beta)
  moreover obtain replays pending made where "batch_split env prin requests s = Inr (replays, pending)"
    "batch_insert prin now pending s = Inr (made, s')"
    using b by (auto simp: batch_body_def split: sum.splits if_splits)
  ultimately show ?thesis using batch_insert_inv [OF _ assms(2) batch_split_pending] by blast
qed (use assms in simp)

lemma create_plan_inv:
  assumes "create_plan env spec actor plan_id now s = (r, s')" and "store_inv s"
  shows "store_inv s' \<and> st_jobs s' = st_jobs s"
  using assms(1)
proof (cases rule: create_plan_cases)
  case committed
  let ?s = "s\<lparr>st_plans := st_plans s @ [new_plan_row env spec actor plan_id now]\<rparr>"
  have k: "kept ?s s'" by (rule audited_kept [OF committed(2)])
  have f: "st_jobs s' = st_jobs s \<and> st_capabilities s' = st_capabilities s \<and> st_sessions s' = st_sessions s
      \<and> st_approvals s' = st_approvals s \<and> st_plans s' = st_plans ?s"
    using audited_frame [OF committed(2)] by simp
  have "logs_step s s'" using k by (simp add: kept_def logs_step_def events_closed_def job_ids_def)
  moreover have "approvals_inv s'"
    using assms(2) f committed(1) by (auto simp: store_inv_def approvals_inv_def new_plan_row_def)
  moreover have "grants_inv s'" using f assms(2) by (simp add: grants_inv_def store_inv_def)
  moreover have "consumed_count s' = consumed_count s" using f by (simp add: consumed_count_def)
  ultimately show ?thesis using f assms(2) same_jobs_inv [of s' s] by blast
qed (use assms in simp)

lemma issue_approval_inv:
  assumes "issue_approval env plan_id actor ttl approval_id token now s = (r, s')" and "store_inv s"
  shows "store_inv s' \<and> st_jobs s' = st_jobs s"
  using assms(1)
proof (cases rule: issue_approval_cases)
  case (committed plan row)
  let ?s = "s\<lparr>st_approvals := st_approvals s @ [row]\<rparr>"
  have k: "kept ?s s'" by (rule audited_kept [OF committed(8)])
  have f: "st_jobs s' = st_jobs s \<and> st_capabilities s' = st_capabilities s \<and> st_sessions s' = st_sessions s
      \<and> st_approvals s' = st_approvals ?s \<and> st_plans s' = st_plans s"
    using audited_frame [OF committed(8)] by simp
  have "logs_step s s'" using k by (simp add: kept_def logs_step_def events_closed_def job_ids_def)
  moreover have "approvals_inv s'"
    using assms(2) f committed(2,5-7) by (auto simp: store_inv_def approvals_inv_def)
  moreover have "consumed_count s' = consumed_count s" using f by (simp add: consumed_count_def committed(5))
  moreover have "grants_inv s'" using f assms(2) by (simp add: grants_inv_def store_inv_def)
  ultimately show ?thesis using f assms(2) same_jobs_inv [of s' s] by blast
qed (use assms in simp)

text \<open>The bootstrap operations touch their two tables and the audit log.\<close>

lemma other_tables_inv:
  assumes "other_tables s s'" and "grants_inv s'" and "store_inv s"
    and "log_step au_sequence (st_audit_seq s) (st_audits s) (st_audit_seq s') (st_audits s')"
  shows "store_inv s' \<and> st_jobs s' = st_jobs s"
proof -
  have "logs_step s s'" using assms(1,4) by (simp add: other_tables_def logs_step_def events_closed_def job_ids_def)
  moreover have "approvals_inv s'" using assms(1,3) by (simp add: other_tables_def approvals_inv_def store_inv_def)
  moreover have "consumed_count s' = consumed_count s" using assms(1) by (simp add: consumed_count_def other_tables_def)
  ultimately show ?thesis using assms same_jobs_inv [of s' s] by (simp add: other_tables_def)
qed

lemma failure_audits [simp]:
  "st_audits (record_capability_failure cid now s) = st_audits s"
  "st_audit_seq (record_capability_failure cid now s) = st_audit_seq s"
  "st_audits (record_session_failure cid now s) = st_audits s"
  "st_audit_seq (record_session_failure cid now s) = st_audit_seq s"
  by (simp_all add: record_capability_failure_def record_session_failure_def)

lemma issue_frame:
  assumes "issue_bootstrap_capability env prin ttl token_id secret now s = (r, s')"
  shows "other_tables s s' \<and> log_step au_sequence (st_audit_seq s) (st_audits s) (st_audit_seq s') (st_audits s')"
  using assms by (cases rule: issue_cases) (auto intro: log_step_snoc)

lemma exchange_frame:
  assumes "exchange_bootstrap_capability env token ttl session_id secret now s = (r, s')"
  shows "other_tables s s' \<and> log_step au_sequence (st_audit_seq s) (st_audits s) (st_audit_seq s') (st_audits s')"
  using assms by (cases rule: exchange_cases) (auto simp: failure_rows intro: log_step_snoc)

lemma validate_frame:
  assumes "validate_bootstrap_grant env token now s = (r, s')"
  shows "other_tables s s' \<and> log_step au_sequence (st_audit_seq s) (st_audits s) (st_audit_seq s') (st_audits s')"
  using assms by (cases rule: validate_cases) (auto simp: failure_rows intro: log_step_snoc)

lemma consume_grant_frame:
  assumes "consume_bootstrap_grant env token prin now s = (r, s')"
    and "distinct (map se_session_id (st_sessions s))"
  shows "other_tables s s' \<and> log_step au_sequence (st_audit_seq s) (st_audits s) (st_audit_seq s') (st_audits s')"
  using assms by (cases rule: consume_cases) (auto simp: failure_rows intro: log_step_snoc)

lemma grants_of_inv: "store_inv s \<Longrightarrow> grants_inv s \<and> distinct (map se_session_id (st_sessions s))"
  by (simp add: store_inv_def grants_inv_def)

section \<open>Every call\<close>

lemma bootstrap_call_cases:
  assumes "bootstrap_call c"
  obtains prin ttl token_id secret where "c = IssueCapability prin ttl token_id secret"
    | token ttl session_id secret where "c = ExchangeCapability token ttl session_id secret"
    | token where "c = ValidateGrant token"
    | token prin where "c = ConsumeGrant token prin"
  using assms by (cases c) auto

lemma bootstrap_call_step:
  assumes "bootstrap_call c" and "store_inv s"
  shows "other_tables s (exec env now c s)
    \<and> log_step au_sequence (st_audit_seq s) (st_audits s) (st_audit_seq (exec env now c s)) (st_audits (exec env now c s))
    \<and> grants_inv (exec env now c s) \<and> grants_step now s (exec env now c s)"
proof -
  note g = conjunct1 [OF grants_of_inv [OF assms(2)]] and d = conjunct2 [OF grants_of_inv [OF assms(2)]]
  from assms(1) show ?thesis
  proof (cases rule: bootstrap_call_cases)
    case 1
    then show ?thesis
      using issue_frame [OF prod.collapse [symmetric]] issue_step [OF prod.collapse [symmetric] g] by simp
  next
    case 2
    then show ?thesis
      using exchange_frame [OF prod.collapse [symmetric]] exchange_step [OF prod.collapse [symmetric] g] by simp
  next
    case 3
    then show ?thesis
      using validate_frame [OF prod.collapse [symmetric]] validate_step [OF prod.collapse [symmetric] g] by simp
  next
    case 4
    then show ?thesis
      using consume_grant_frame [OF prod.collapse [symmetric] d] consume_step [OF prod.collapse [symmetric] g] by simp
  qed
qed

lemma exec_inv:
  assumes "store_inv s"
  shows "store_inv (exec env now c s) \<and> table_step now (st_jobs s) (st_jobs (exec env now c s))"
proof -
  have d: "distinct (map job_id (st_jobs s))" using assms by (simp add: store_inv_def jobs_inv_def)
  consider "quiet c" | "bootstrap_call c" | (other) "\<not> quiet c" "\<not> bootstrap_call c" by blast
  then show ?thesis
  proof cases
    case 1
    then show ?thesis using kept_inv [OF quiet_kept quiet_table_step assms] quiet_table_step d by blast
  next
    case 2
    then show ?thesis using bootstrap_call_step [OF 2 assms, of env now] other_tables_inv [OF _ _ assms] by auto
  next
    case other
    then show ?thesis
    proof (cases c)
      case (SubmitJob request prin limit kinds jid nonce)
      then show ?thesis
        using submit_inv [OF prod.collapse [symmetric] assms] submit_job_table_step [OF prod.collapse [symmetric]] by simp
    next
      case (SubmitBatch requests prin limit)
      then show ?thesis
        using batch_inv [OF prod.collapse [symmetric] assms] batch_table_step [OF prod.collapse [symmetric]] by simp
    next
      case (CreatePlan spec actor plan_id)
      then show ?thesis using create_plan_inv [OF prod.collapse [symmetric] assms] by simp
    next
      case (IssueApproval plan_id actor ttl approval_id token)
      then show ?thesis using issue_approval_inv [OF prod.collapse [symmetric] assms] by simp
    qed auto
  qed
qed

lemma run_inv: "store_inv s \<Longrightarrow> store_inv (run_calls env calls s)"
  by (induction calls arbitrary: s) (auto simp: exec_inv)

section \<open>Following one job through a history\<close>

inductive row_run :: "int list \<Rightarrow> job_row \<Rightarrow> job_row \<Rightarrow> bool" where
  stop: "row_run [] r r"
| step: "row_step now r r' \<Longrightarrow> row_run ts r' r'' \<Longrightarrow> row_run (now # ts) r r''"

lemma run_row:
  assumes "store_inv s" and "fetch_job jid s = Some r"
  shows "\<exists>r'. fetch_job jid (run_calls env calls s) = Some r' \<and> row_run (map fst calls) r r'"
  using assms
proof (induction calls arbitrary: s r)
  case Nil
  then show ?case by (auto intro: row_run.stop)
next
  case (Cons tc calls)
  obtain now c where tc: "tc = (now, c)" by fastforce
  from exec_inv [OF Cons.prems(1)] Cons.prems(2) obtain r1 where "fetch_job jid (exec env now c s) = Some r1"
    "row_step now r r1"
    using table_step_fetch unfolding fetch_job_def by blast
  with Cons.IH exec_inv [OF Cons.prems(1)] show ?case by (fastforce simp: tc intro: row_run.step)
qed

lemma row_run_frame:
  "row_run ts r r' \<Longrightarrow> job_id r' = job_id r \<and> job_principal r' = job_principal r
     \<and> job_idempotency_key r' = job_idempotency_key r \<and> job_payload_hash r' = job_payload_hash r
     \<and> job_request_json r' = job_request_json r \<and> job_created_at r' = job_created_at r"
  by (induction rule: row_run.induct) (auto dest: row_step_frame)

lemma row_run_terminal: "row_run ts r r' \<Longrightarrow> terminal (job_state r) \<Longrightarrow> r' = r"
  by (induction rule: row_run.induct) (auto dest: row_step_terminal)

lemma row_run_generation: "row_run ts r r' \<Longrightarrow> job_lease_generation r \<le> job_lease_generation r'"
  by (induction rule: row_run.induct) (auto dest!: row_step_generation)

definition moves :: "(job_state \<times> job_state) set" where
  "moves = {(a, b). b \<in> set (transitions a)}"

lemma row_run_states: "row_run ts r r' \<Longrightarrow> (job_state r, job_state r') \<in> moves\<^sup>*"
proof (induction rule: row_run.induct)
  case (step now r r' ts r'')
  then have "(job_state r, job_state r') \<in> moves\<^sup>*" using row_step_states [OF step.hyps(1)] by (auto simp: moves_def)
  with step.IH show ?case by simp
qed simp

end
