(* ===== verification/Store_Safety.thy ===== *)
theory Store_Safety
  imports Store_Runs
begin

text \<open>
  Properties of every history of calls on the controller store: the database invariant, the life
  of a job, lease fencing, the queue order of the worker, idempotent submission and queue limits.
\<close>

section \<open>Leases\<close>

lemma stale_lease_dead:
  assumes "fetch_job jid s = Some r" and "g < job_lease_generation r"
  shows "renew_lease jid w g secs now s =
      (Inl (if secs \<le> 0 then StoreValueError ''lease_seconds must be positive''
            else JobConflictError ''job lease is not current''), s)"
    and "assert_lease jid w g now s = Inl (JobConflictError ''job lease is not current'')"
    and "expected \<in> {RUNNING, CANCEL_REQUESTED} \<Longrightarrow>
      \<exists>e. transition env jid expected target res err ev (Some w) (Some g) now s = (Inl e, s)"
    and "\<exists>e. append_event env jid level msg payload (Some w) (Some g) now s = (Inl e, s)"
proof -
  have dead: "\<not> live_lease r w g now" using assms(2) by (simp add: live_lease_iff)
  then have chk: "require_live_lease r w g now = Inl (JobConflictError ''job lease is not current'')"
    by (simp add: require_live_lease_Inl)
  show "renew_lease jid w g secs now s =
      (Inl (if secs \<le> 0 then StoreValueError ''lease_seconds must be positive''
            else JobConflictError ''job lease is not current''), s)"
    by (simp add: renew_lease_def renew_body_def assms(1) chk row_result_def finish_def write_tx_def)
  show "assert_lease jid w g now s = Inl (JobConflictError ''job lease is not current'')"
    by (simp add: assert_lease_def assms(1) chk)
  show "\<exists>e. transition env jid expected target res err ev (Some w) (Some g) now s = (Inl e, s)"
    if "expected \<in> {RUNNING, CANCEL_REQUESTED}"
    using that
    by (auto simp: transition_def transition_body_def assms(1) chk row_result_def finish_def write_tx_def
        split: sum.splits option.splits)
  show "\<exists>e. append_event env jid level msg payload (Some w) (Some g) now s = (Inl e, s)"
  proof (cases "prepare_event env jid now level msg payload")
    case (Inr ev)
    then have "ev_job_id ev = jid"
      by (auto simp: prepare_event_def Let_def split: sum.splits if_splits)
    then show ?thesis
      by (simp add: append_event_def append_event_body_def Inr assms(1) chk write_tx_def)
  qed (simp add: append_event_def)
qed

lemma claim_job_Inr:
  assumes "claim_job jid w secs now s = (Inr rec, s')"
  shows "\<exists>r. fetch_job jid s = Some r \<and> can_claim r now \<and> bounded 1 255 w \<and> 0 < secs
    \<and> job_from_row (claim_row w (now + secs * MICROS) now r) = Inr rec
    \<and> fetch_job jid s' = Some (claim_row w (now + secs * MICROS) now r)"
proof -
  from assms have secs: "0 < secs" by (auto simp: claim_job_def split: if_splits)
  with assms have "row_result (write_tx (claim_job_body jid w secs now) s) = (Inr rec, s')"
    by (simp add: claim_job_def)
  then show ?thesis
  proof (cases rule: row_result_cases)
    case (committed row)
    then obtain r where r: "fetch_job jid s = Some r" "can_claim r now"
      and t: "take_claim jid w (now + secs * MICROS) now s = Inr (row, s')"
      by (auto simp: claim_job_body_def split: option.splits if_splits)
    with take_claim_Inr [OF t r(1)] committed secs show ?thesis
      by (auto simp: fetch_job_def claim_upd.fetch_hit)
  qed simp
qed

lemma live_claim_refused:
  assumes "fetch_job jid s = Some r" and "live_lease r w g now" and "0 < secs"
  shows "claim_job jid w' secs now s = (Inl (JobConflictError ''job is not claimable''), s)"
  using assms live_lease_excludes_claim [OF assms(2)]
  by (simp add: claim_job_def claim_job_body_def row_result_def finish_def write_tx_def)

section \<open>The queue\<close>

lemma sort_key_Cons_least: "sort_key k xs = y # ys \<Longrightarrow> x \<in> set xs \<Longrightarrow> k y \<le> k x"
proof -
  assume y: "sort_key k xs = y # ys" and x: "x \<in> set xs"
  have "sorted (map k (sort_key k xs))" by (rule sorted_sort_key)
  moreover have "x \<in> set (sort_key k xs)" using x by simp
  ultimately show "k y \<le> k x" by (auto simp: y)
qed

lemma recover_abandoned_total:
  assumes "bounded 1 255 w" and "set jids \<subseteq> job_ids s" and "\<And>j. j \<in> set jids \<Longrightarrow> length j \<le> 508"
  shows "\<exists>s'. recover_abandoned w now jids s = Inr s'"
  using assms(2,3)
proof (induction jids arbitrary: s)
  case (Cons jid rest)
  let ?u = "update_job jid (recover_cancel_row now) s"
  have ids: "job_ids ?u = job_ids s" using row_update_kept(2) [of s jid now] by (simp add: kept_def job_ids_map)
  then obtain n s1 where ev: "insert_event (recover_event jid now) ?u = Inr (n, s1)"
    using Cons.prems(1) by (auto simp: insert_event_def recover_event_def job_ids_def)
  obtain s2 where au: "audited now w ''JOB_CANCEL_RECOVER'' (''job:'' @ jid)
      [(''from'', DState CANCEL_REQUESTED), (''to'', DState CANCELLED)] s1 = Inr s2"
    using assms(1) Cons.prems(2) by (simp add: audited_Inr bounded_def)
  have "job_ids s2 = job_ids s"
    using insert_event_kept [OF ev] audited_kept [OF au] ids by (simp add: kept_def job_ids_map)
  then obtain s' where "recover_abandoned w now rest s2 = Inr s'" using Cons.IH [of s2] Cons.prems by auto
  then show ?case using au by (simp add: ev)
qed simp

lemma claim_next_body_total:
  assumes "store_inv s" and "bounded 1 255 w"
  shows "\<exists>c s'. claim_next_body w secs now s = Inr (c, s')"
proof -
  have ids: "distinct (map job_id (st_jobs s))" "\<And>r. r \<in> set (st_jobs s) \<Longrightarrow> length (job_id r) \<le> 508"
    using assms(1) by (auto simp: store_inv_def jobs_inv_def list_all_iff)
  obtain s1 where sw: "recover_abandoned w now
      (map job_id (sort_key job_created_at (filter (abandoned now) (st_jobs s)))) s = Inr s1"
    using recover_abandoned_total [OF assms(2), of "map job_id (sort_key job_created_at (filter (abandoned now) (st_jobs s)))" s now]
      ids(2) by (auto simp: job_ids_def)
  show ?thesis
  proof (cases "sort_key job_created_at (filter (\<lambda>r. can_claim r now) (st_jobs s1))")
    case (Cons r rest)
    then have r: "r \<in> set (st_jobs s1)" using sort_key_hd_in [OF Cons] by simp
    have k: "kept s s1" by (rule recover_abandoned_kept [OF sw])
    then have "job_ids s1 = job_ids s" by (simp only: kept_def job_ids_map)
    then have "job_id r \<in> job_ids s" using r by (auto simp: job_ids_def)
    then have len: "length (job_id r) \<le> 508" using ids(2) by (auto simp: job_ids_def)
    have "distinct (map job_id (st_jobs s1))" using k ids(1) by (simp add: kept_def)
    with r have "fetch job_id (job_id r) (st_jobs s1) = Some r" by (simp add: fetch_eq_Some_iff)
    then have "\<exists>c s2. take_claim (job_id r) w (now + secs * MICROS) now s1 = Inr (c, s2)"
      using assms(2) len
      by (auto simp: take_claim_def Let_def fetch_job_def claim_upd.fetch_hit audited_def append_audit_conn_def bounded_def)
    with sw Cons show ?thesis by (auto simp: claim_next_body_def)
  qed (simp add: claim_next_body_def sw)
qed

text \<open>The specification of \<open>claim_next\<close>, over the rows the sweep leaves.\<close>

definition swept :: "int \<Rightarrow> store \<Rightarrow> job_row list" where
  "swept now s = update_where (abandoned now) (recover_cancel_row now) (st_jobs s)"

lemma claim_next_spec_lemma:
  assumes "store_inv s" and "bounded 1 255 w" and "0 < secs"
    and "list_all (\<lambda>r. bounded 1 128 (job_id r)) (st_jobs s)"
  shows "(\<exists>s'. claim_next w secs now s = (Inr None, s') \<and> (\<forall>r \<in> set (st_jobs s). \<not> can_claim r now)
            \<and> st_jobs s' = swept now s)
    \<or> (\<exists>r rec s'. claim_next w secs now s = (Inr (Some rec), s') \<and> r \<in> set (st_jobs s) \<and> can_claim r now
            \<and> (\<forall>q \<in> set (st_jobs s). can_claim q now \<longrightarrow> job_created_at r \<le> job_created_at q)
            \<and> job_from_row (claim_row w (now + secs * MICROS) now r) = Inr rec
            \<and> st_jobs s' = update_where (\<lambda>q. job_id q = job_id r) (claim_row w (now + secs * MICROS) now) (swept now s))"
proof -
  have d: "distinct (map job_id (st_jobs s))" using assms(1) by (simp add: store_inv_def jobs_inv_def)
  obtain c s' where b: "claim_next_body w secs now s = Inr (c, s')" using claim_next_body_total [OF assms(1,2)] by blast
  have mem: "q \<in> set (swept now s) \<and> can_claim q now \<longleftrightarrow> q \<in> set (st_jobs s) \<and> can_claim q now" for q
    using swept_or_same by (auto simp: swept_def set_update_where can_claim_def abandoned_def)
  from b d show ?thesis
  proof (cases rule: claim_next_body_cases)
    case none
    then show ?thesis using b assms(3) mem by (auto simp: claim_next_def write_tx_def swept_def)
  next
    case (some s1 r rest)
    have r: "r \<in> set (st_jobs s)"
      using mem sort_key_hd_in [OF some(2)] some(1) by (simp add: swept_def)
    have "wf_row r" using assms(1) r by (auto simp: store_inv_def jobs_inv_def list_all_iff)
    then have "wf_row (claim_row w (now + secs * MICROS) now r)"
      using row_step_wf row_step.claim [OF some(4) assms(2)] by blast
    moreover have "bounded 1 128 (job_id (claim_row w (now + secs * MICROS) now r))"
      using assms(4) r by (simp add: claim_row_def list_all_iff)
    ultimately obtain rec where rec: "job_from_row (claim_row w (now + secs * MICROS) now r) = Inr rec"
      using wf_row_readable by blast
    have least: "job_created_at r \<le> job_created_at q" if "q \<in> set (st_jobs s)" "can_claim q now" for q
      using sort_key_Cons_least [OF some(2), of q] mem [of q] that some(1) by (simp add: swept_def)
    have "claim_next w secs now s = (Inr (Some rec), s')"
      using b some(6) rec assms(3) by (simp add: claim_next_def write_tx_def)
    then show ?thesis
      using r some(4) least rec take_claim_Inr [OF some(5,3)] some(1) by (auto simp: swept_def)
  qed
qed

section \<open>Submission\<close>

lemma job_key_unique:
  assumes "store_inv s" and "r \<in> set (st_jobs s)"
  shows "find_replay (job_principal r) (job_idempotency_key r) s = Some r"
proof -
  have "distinct (map (\<lambda>r. (job_principal r, job_idempotency_key r)) (st_jobs s))"
    using assms(1) by (simp add: store_inv_def jobs_inv_def)
  then have "fetch (\<lambda>r. (job_principal r, job_idempotency_key r)) (job_principal r, job_idempotency_key r) (st_jobs s) = Some r"
    using assms(2) by (simp add: fetch_eq_Some_iff)
  then show ?thesis by (simp add: fetch_def find_replay_def)
qed

lemma submit_created:
  assumes "submit_job env request prin limit kinds now jid nonce s = (Inr (rec, True), s')"
  shows "\<exists>persisted s1 row. persist_request env nonce request prin now s = Inr (persisted, s1)
     \<and> enqueue request persisted (payload_hash env request) prin now jid s1 = Inr (row, s')
     \<and> job_from_row row = Inr rec \<and> find_replay prin (rq_idempotency_key request) s = None
     \<and> (case limit of None \<Rightarrow> True
        | Some l \<Rightarrow> int (active_of_kinds (case kinds of None \<Rightarrow> [request_kind request] | Some ks \<Rightarrow> ks) s) < l)"
proof -
  have "submit_body env request prin limit kinds now jid nonce s = Inr (Inr (rec, True), s')"
    using assms by (auto simp: submit_job_def split: if_splits option.splits elim: finish_cases)
  then show ?thesis
    by (cases rule: submit_body_cases) (auto split: sum.splits)
qed

lemma submit_created_row:
  assumes "submit_job env request prin limit kinds now jid nonce s = (Inr (rec, True), s')"
  shows "\<exists>r. fetch_job jid s' = Some r \<and> job_from_row r = Inr rec \<and> job_principal r = prin
     \<and> job_idempotency_key r = rq_idempotency_key request \<and> job_payload_hash r = payload_hash env request"
proof -
  obtain persisted s1 row where e: "enqueue request persisted (payload_hash env request) prin now jid s1 = Inr (row, s')"
    and rec: "job_from_row row = Inr rec"
    using submit_created [OF assms] by blast
  from enqueue_Inr [OF e] rec show ?thesis
    by (auto simp: fetch_job_def fetch_append new_job_row_def table_simps split: option.splits dest: fetch_SomeD)
qed

lemma submit_replay:
  assumes "find_replay prin (rq_idempotency_key request) s = Some r"
    and "case limit of None \<Rightarrow> True | Some l \<Rightarrow> 1 \<le> l"
    and "case kinds of None \<Rightarrow> True | Some ks \<Rightarrow> request_kind request \<in> set ks"
  shows "submit_job env request prin limit kinds now jid nonce s =
    (if job_payload_hash r \<noteq> payload_hash env request then Inl IdempotencyConflictError
     else map_sum id (\<lambda>rec. (rec, False)) (job_from_row r), s)"
  using assms
  by (auto simp: submit_job_def submit_body_def Let_def finish_def write_tx_def
      split: option.splits sum.splits if_splits)

lemma active_of_kinds_snoc:
  "active_of_kinds ks (s\<lparr>st_jobs := st_jobs s @ [r]\<rparr>) \<le> Suc (active_of_kinds ks s)"
  by (simp add: active_of_kinds_def)

end
