(* ===== verification/Samples.thy ===== *)
theory Samples
  imports Store_Runs
begin

text \<open>
  Concrete inputs for the witnesses: an environment whose hashes, JSON texts and cipher are small
  concrete functions, and short histories of calls.
\<close>

section \<open>Environment\<close>

definition sample_tag :: "bytes \<Rightarrow> bytes" where
  "sample_tag data = concat (map (\<lambda>b. [1, b]) data) @ [0]"

definition sample_aead :: aead where
  "sample_aead =
     \<lparr>ae_encrypt = (\<lambda>nonce text data. sample_tag data @ text @ replicate 16 0),
      ae_decrypt = (\<lambda>nonce cipher data.
        let n = length (sample_tag data)
        in if take n cipher = sample_tag data \<and> length cipher \<ge> n + 16
           then Some (take (length cipher - n - 16) (drop n cipher)) else None)\<rparr>"

definition sample_codec :: invite_codec where
  "sample_codec =
     \<lparr>ic_dump = (\<lambda>c. utf8 (inv_email c) @ [0] @ utf8 (inv_display_name c)),
      ic_validate = (\<lambda>bs. Some
        \<lparr>inv_email = map char_of (takeWhile (\<lambda>b. b \<noteq> 0) bs),
         inv_display_name = map char_of (tl (dropWhile (\<lambda>b. b \<noteq> 0) bs)), inv_groups = []\<rparr>)\<rparr>"

text \<open>A digest of 64 hexadecimal digits that tells apart the texts that end in 1.\<close>

definition sample_digest :: "string \<Rightarrow> string" where
  "sample_digest text = (if text \<noteq> [] \<and> last text = CHR ''1'' then CHR ''1'' else CHR ''0'') # replicate 63 (CHR ''0'')"

definition sample_env :: store_env where
  "sample_env =
     \<lparr>env_sha256 = sample_digest, env_hmac = (\<lambda>text. ''hmac:'' @ text),
      env_request_json = (\<lambda>r. case rq_operation r of
          DeployOperation (Some m) _ _ \<Rightarrow> ''deploy:'' @ m | _ \<Rightarrow> ''request''),
      env_spec_json = (\<lambda>spec. join '','' (dp_scopes spec)),
      env_aead = sample_aead, env_codec = sample_codec, env_float_repr = (\<lambda>m e. show_int m)\<rparr>"

section \<open>Histories\<close>

definition sample_request :: "string \<Rightarrow> string \<Rightarrow> job_request" where
  "sample_request key machine =
     \<lparr>rq_idempotency_key = key, rq_operation = DeployOperation (Some machine) False False\<rparr>"

definition queued_calls :: "(int \<times> store_call) list" where
  "queued_calls =
     [(0, SubmitJob (sample_request ''key-0001'' ''apps'') ''alice'' None None ''job-0001'' []),
      (5, SubmitJob (sample_request ''key-0002'' ''media'') ''bob'' None None ''job-0002'' [])]"

definition queued_store :: store where
  "queued_store = run_calls sample_env queued_calls empty_store"

definition claimed_store :: store where
  "claimed_store = run_calls sample_env [(10, ClaimNext ''worker-a'' 30)] queued_store"

lemma queued_store_inv: "store_inv queued_store"
  by (simp add: queued_store_def run_inv empty_store_inv)

lemma claimed_store_inv: "store_inv claimed_store"
  unfolding claimed_store_def by (rule run_inv [OF queued_store_inv])

lemma queued_jobs:
  "st_jobs queued_store =
     [new_job_row ''job-0001'' ''alice'' ''key-0001'' ''hmac:deploy:apps'' (sample_request ''key-0001'' ''apps'') 0,
      new_job_row ''job-0002'' ''bob'' ''key-0002'' ''hmac:deploy:media'' (sample_request ''key-0002'' ''media'') 5]"
  by code_simp

lemma claimed_jobs:
  "st_jobs claimed_store =
     [claim_row ''worker-a'' 30000010 10
        (new_job_row ''job-0001'' ''alice'' ''key-0001'' ''hmac:deploy:apps'' (sample_request ''key-0001'' ''apps'') 0),
      new_job_row ''job-0002'' ''bob'' ''key-0002'' ''hmac:deploy:media'' (sample_request ''key-0002'' ''media'') 5]"
  by code_simp

section \<open>A destroy plan with its approval\<close>

definition sample_spec :: destroy_plan_spec where
  "sample_spec =
     \<lparr>dp_action = Destroy_all, dp_scopes = [''apps''], dp_config_revision = ''rev'', dp_checkpoint_id = ''chk'',
      dp_checkpoint_verified_at = 0, dp_evidence_digest = ''ev''\<rparr>"

definition approved_store :: store where
  "approved_store = run_calls sample_env
     [(0, CreatePlan sample_spec ''alice'' ''plan-0000-0000-0001''),
      (1, IssueApproval ''plan-0000-0000-0001'' ''alice'' 60000000 ''approval-1'' ''token-0000-0000-0001'')] empty_store"

definition sample_destroy :: destroy_infra where
  "sample_destroy =
     \<lparr>di_action = Destroy_all, di_scopes = [''apps''], di_config_revision = ''rev'', di_plan_id = ''plan-0000-0000-0001'',
      di_plan_hash = sample_digest ''apps'', di_approval_token = ''token-0000-0000-0001''\<rparr>"

definition destroy_request :: "string \<Rightarrow> job_request" where
  "destroy_request key = \<lparr>rq_idempotency_key = key, rq_operation = DestroyInfraOperation sample_destroy\<rparr>"

lemma approved_store_inv: "store_inv approved_store"
  unfolding approved_store_def by (rule run_inv [OF empty_store_inv])

end
