(* ===== verification/Queue_Properties.thy ===== *)
theory Queue_Properties
  imports Store_Safety Samples
begin

text \<open>
  What the job queue of the controller store guarantees over every history of calls.
\<close>

section \<open>The database\<close>

text \<open>
  C1. Every history of calls on a new database leaves it consistent: job ids and idempotency keys
  are unique, every job row is well-formed and stored without its secrets, the event and audit
  logs are gapless, foreign keys hold, bootstrap rows are well-formed, and the destroy jobs are as
  many as the approvals consumed.
\<close>

theorem every_history_consistent: "store_inv (run_calls env calls empty_store)"
  by (rule run_inv [OF empty_store_inv])

text \<open>
  C4. Whatever calls follow, a job is never lost and keeps its id, principal, idempotency key,
  request and creation time; its state only moves along the transition table; its lease
  generation never decreases; and once it is terminal its row never changes again.
\<close>

theorem job_life:
  assumes "store_inv s" and "fetch_job jid s = Some r"
  shows "\<exists>r'. fetch_job jid (run_calls env calls s) = Some r'
    \<and> job_id r' = job_id r \<and> job_principal r' = job_principal r \<and> job_idempotency_key r' = job_idempotency_key r
    \<and> job_request_json r' = job_request_json r \<and> job_created_at r' = job_created_at r
    \<and> (job_state r, job_state r') \<in> {(a, b). b \<in> set (transitions a)}\<^sup>*
    \<and> job_lease_generation r \<le> job_lease_generation r'
    \<and> (terminal (job_state r) \<longrightarrow> r' = r)"
proof -
  obtain r' where "fetch_job jid (run_calls env calls s) = Some r'" "row_run (map fst calls) r r'"
    using run_row [OF assms] by blast
  then show ?thesis
    using row_run_frame row_run_states row_run_generation row_run_terminal unfolding moves_def by blast
qed

theorem job_life_witness:
  "\<exists>r'. fetch_job ''job-0001'' (run_calls sample_env [(20, RequestCancel ''job-0001'' ''alice'')] claimed_store) = Some r'
     \<and> job_request_json r' = sample_request ''key-0001'' ''apps'' \<and> 1 \<le> job_lease_generation r'"
proof -
  have "fetch_job ''job-0001'' claimed_store = Some (claim_row ''worker-a'' 30000010 10
        (new_job_row ''job-0001'' ''alice'' ''key-0001'' ''hmac:deploy:apps'' (sample_request ''key-0001'' ''apps'') 0))"
    by (simp add: fetch_job_def claimed_jobs claim_row_def new_job_row_def)
  from job_life [OF claimed_store_inv this, of sample_env "[(20, RequestCancel ''job-0001'' ''alice'')]"]
  show ?thesis by (auto simp: claim_row_def new_job_row_def)
qed

section \<open>Leases\<close>

text \<open>
  C2. Fencing.  A claim takes the next lease generation.  Once a job was claimed again, every holder
  of a generation handed out before is shut out for good: whatever calls follow, it can neither renew, nor pass the lease check, nor finish
  the job, nor append an event, and each refused call leaves the store as it was.
\<close>

theorem stale_lease_fenced:
  assumes "store_inv s" and "claim_job jid w2 secs2 t s = (Inr rec, s1)"
    and "fetch_job jid s = Some r" and "g \<le> job_lease_generation r"
    and "s2 = run_calls env calls s1" and "0 < secs"
  shows "jr_lease_generation rec = job_lease_generation r + 1
    \<and> renew_lease jid w g secs now s2 = (Inl (JobConflictError ''job lease is not current''), s2)
    \<and> assert_lease jid w g now s2 = Inl (JobConflictError ''job lease is not current'')
    \<and> (\<exists>e. transition env jid RUNNING target res err ev (Some w) (Some g) now s2 = (Inl e, s2))
    \<and> (\<exists>e. transition env jid CANCEL_REQUESTED target res err ev (Some w) (Some g) now s2 = (Inl e, s2))
    \<and> (\<exists>e. append_event env jid level msg payload (Some w) (Some g) now s2 = (Inl e, s2))"
proof -
  obtain r1 where r1: "fetch_job jid s1 = Some r1" "job_from_row r1 = Inr rec"
      and gen: "job_lease_generation r1 = job_lease_generation r + 1"
    using claim_job_Inr [OF assms(2)] assms(3) by (auto simp: claim_row_def)
  have "store_inv s1" using exec_inv [OF assms(1), of env t "ClaimJob jid w2 secs2"] assms(2) by simp
  then obtain r2 where r2: "fetch_job jid s2 = Some r2" "row_run (map fst calls) r1 r2"
    using run_row [OF _ r1(1)] assms(5) by blast
  have "g < job_lease_generation r2"
    using assms(4) gen row_run_generation [OF r2(2)] by simp
  then show ?thesis using stale_lease_dead [OF r2(1)] gen job_from_row_Inr [OF r1(2)] assms(6) by auto
qed

theorem stale_lease_fenced_witness:
  "let s1 = snd (claim_job ''job-0001'' ''worker-b'' 30 40000000 claimed_store);
       s2 = run_calls sample_env [(40000001, RequestCancel ''job-0001'' ''alice'')] s1
   in renew_lease ''job-0001'' ''worker-a'' 1 30 40000002 s2 = (Inl (JobConflictError ''job lease is not current''), s2)"
proof -
  let ?r = "claim_row ''worker-a'' 30000010 10
        (new_job_row ''job-0001'' ''alice'' ''key-0001'' ''hmac:deploy:apps'' (sample_request ''key-0001'' ''apps'') 0)"
  have f: "fetch_job ''job-0001'' claimed_store = Some ?r"
    by (simp add: fetch_job_def claimed_jobs claim_row_def new_job_row_def)
  have "fst (claim_job ''job-0001'' ''worker-b'' 30 40000000 claimed_store)
      = job_from_row (claim_row ''worker-b'' 70000000 40000000 ?r)" by code_simp
  then obtain rec where rec: "claim_job ''job-0001'' ''worker-b'' 30 40000000 claimed_store =
      (Inr rec, snd (claim_job ''job-0001'' ''worker-b'' 30 40000000 claimed_store))"
    by (cases "claim_job ''job-0001'' ''worker-b'' 30 40000000 claimed_store")
      (auto simp: job_from_row_def claim_row_def new_job_row_def bounded_def)
  have "1 \<le> job_lease_generation ?r" by (simp add: claim_row_def)
  then show ?thesis
    unfolding Let_def
    by (intro stale_lease_fenced [OF claimed_store_inv rec f _ refl, THEN conjunct2, THEN conjunct1]) simp_all
qed

text \<open>
  C3. A live lease is exclusive.  While worker w holds a live lease on a job, a claim of the job
  is refused, \<open>claim_next\<close> never returns it and leaves its row untouched, and any other worker or
  generation that asks for a renewal or a result is refused.
\<close>

theorem live_lease_exclusive:
  assumes "store_inv s" and "fetch_job jid s = Some r" and "live_lease r w g now" and "0 < secs"
    and "w' \<noteq> w \<or> g' \<noteq> g"
  shows "claim_job jid w' secs now s = (Inl (JobConflictError ''job is not claimable''), s)
    \<and> (\<forall>rec s'. claim_next w' secs now s = (Inr (Some rec), s') \<longrightarrow> jr_job_id rec \<noteq> jid)
    \<and> fetch_job jid (snd (claim_next w' secs now s)) = Some r
    \<and> renew_lease jid w' g' secs now s = (Inl (JobConflictError ''job lease is not current''), s)
    \<and> assert_lease jid w' g' now s = Inl (JobConflictError ''job lease is not current'')"
proof -
  have d: "distinct (map job_id (st_jobs s))" using assms(1) by (simp add: store_inv_def jobs_inv_def)
  have not: "\<not> can_claim r now" "\<not> abandoned now r" using live_lease_excludes_claim [OF assms(3)] by auto
  have "require_live_lease r w' g' now = Inl (JobConflictError ''job lease is not current'')"
    using assms(3,5) by (auto simp: require_live_lease_Inl live_lease_iff)
  then have "renew_lease jid w' g' secs now s = (Inl (JobConflictError ''job lease is not current''), s)
      \<and> assert_lease jid w' g' now s = Inl (JobConflictError ''job lease is not current'')"
    using assms(2,4) by (simp add: renew_lease_def renew_body_def assert_lease_def row_result_def finish_def write_tx_def)
  moreover have "fetch_job jid s' = Some r \<and> (\<forall>rec. x = Inr (Some rec) \<longrightarrow> jr_job_id rec \<noteq> jid)"
    if cn: "claim_next w' secs now s = (x, s')" for x s'
  proof (cases "s' = s \<and> (\<exists>e. x = Inl e)")
    case True
    then show ?thesis using assms(2) by auto
  next
    case False
    then obtain c where b: "claim_next_body w' secs now s = Inr (c, s')"
      and x: "x = (case c of None \<Rightarrow> Inr None | Some q \<Rightarrow> (case job_from_row q of Inl e \<Rightarrow> Inl e | Inr rec \<Rightarrow> Inr (Some rec)))"
      using cn by (auto simp: claim_next_def write_tx_def split: if_splits sum.splits option.splits prod.splits)
    have swept: "fetch job_id jid (update_where (abandoned now) (recover_cancel_row now) (st_jobs s)) = Some r"
      using assms(2) not(2) by (simp add: fetch_job_def recover_upd.fetch_where)
    from b d show ?thesis
    proof (cases rule: claim_next_body_cases)
      case none
      then show ?thesis using swept x by (simp add: fetch_job_def)
    next
      case (some s1 q rest)
      have "job_id q \<noteq> jid"
      proof
        assume "job_id q = jid"
        with some(1,3) swept have "q = r" by (simp add: fetch_job_def)
        with some(4) not(1) show False by simp
      qed
      then show ?thesis
        using take_claim_Inr [OF some(5,3)] some(1,6) swept x
        by (auto simp: fetch_job_def claim_upd.fetch_miss claim_row_def split: sum.splits dest!: job_from_row_Inr)
    qed
  qed
  ultimately show ?thesis
    using live_claim_refused [OF assms(2-4)] by (metis prod.collapse)
qed

theorem live_lease_exclusive_witness:
  "claim_job ''job-0001'' ''worker-b'' 30 20 claimed_store = (Inl (JobConflictError ''job is not claimable''), claimed_store)"
proof -
  let ?r = "claim_row ''worker-a'' 30000010 10
        (new_job_row ''job-0001'' ''alice'' ''key-0001'' ''hmac:deploy:apps'' (sample_request ''key-0001'' ''apps'') 0)"
  have "fetch_job ''job-0001'' claimed_store = Some ?r"
    by (simp add: fetch_job_def claimed_jobs claim_row_def new_job_row_def)
  moreover have "live_lease ?r ''worker-a'' 1 20" by (simp add: live_lease_iff claim_row_def new_job_row_def)
  ultimately show ?thesis
    using live_lease_exclusive [OF claimed_store_inv, of "''job-0001''" ?r "''worker-a''" 1 20 30 "''worker-b''" 1] by simp
qed

section \<open>The queue order\<close>

text \<open>
  C5. The worker's \<open>claim_next\<close> always returns: it cancels every job whose cancellation was
  abandoned by an expired lease, and then either reports that no job is claimable, or claims a
  claimable job of least creation time for the worker, with the next lease generation and the
  requested expiry, changing no other row.
\<close>

theorem claim_next_takes_oldest:
  assumes "store_inv s" and "bounded 1 255 w" and "0 < secs"
    and "list_all (\<lambda>r. bounded 1 128 (job_id r)) (st_jobs s)"
  shows "(\<exists>s'. claim_next w secs now s = (Inr None, s') \<and> (\<forall>r \<in> set (st_jobs s). \<not> can_claim r now)
            \<and> st_jobs s' = update_where (abandoned now) (recover_cancel_row now) (st_jobs s))
    \<or> (\<exists>r rec s'. claim_next w secs now s = (Inr (Some rec), s') \<and> r \<in> set (st_jobs s) \<and> can_claim r now
            \<and> (\<forall>q \<in> set (st_jobs s). can_claim q now \<longrightarrow> job_created_at r \<le> job_created_at q)
            \<and> job_from_row (claim_row w (now + secs * MICROS) now r) = Inr rec
            \<and> st_jobs s' = update_where (\<lambda>q. job_id q = job_id r) (claim_row w (now + secs * MICROS) now)
                 (update_where (abandoned now) (recover_cancel_row now) (st_jobs s)))"
  using claim_next_spec_lemma [OF assms] unfolding swept_def .

theorem claim_next_takes_oldest_witness:
  "\<exists>rec s'. claim_next ''worker-b'' 30 20 claimed_store = (Inr (Some rec), s')
     \<and> jr_job_id rec = ''job-0002'' \<and> jr_lease_generation rec = 1"
proof -
  have "bounded 1 255 ''worker-b''" "list_all (\<lambda>r. bounded 1 128 (job_id r)) (st_jobs claimed_store)"
    by (simp_all add: bounded_def claimed_jobs claim_row_def new_job_row_def)
  from claim_next_takes_oldest [OF claimed_store_inv this(1) _ this(2), of 30 20]
  show ?thesis
    by (auto simp: claimed_jobs can_claim_def claim_row_def new_job_row_def dest!: job_from_row_Inr)
qed

end
