(* ===== verification/Submission_Properties.thy ===== *)
theory Submission_Properties
  imports Store_Safety Samples
begin

text \<open>
  What a submission to the controller guarantees: idempotency keys, queue limits, batches that
  are all or nothing, and the approvals that destructive requests consume.
\<close>

section \<open>Idempotency\<close>

text \<open>
  C5. Idempotent submission.  After a job was created, and whatever calls follow, the same
  principal repeating the key with the same payload gets the same job back and the store does not
  change; repeating the key with another payload is refused and the store does not change.
\<close>

theorem submit_idempotent:
  assumes "store_inv s" and "submit_job env request prin limit kinds now jid nonce s = (Inr (rec, True), s1)"
    and "s2 = run_calls env calls s1" and "rq_idempotency_key again = rq_idempotency_key request"
    and "case limit' of None \<Rightarrow> True | Some l \<Rightarrow> 1 \<le> l"
    and "case kinds' of None \<Rightarrow> True | Some ks \<Rightarrow> request_kind again \<in> set ks"
  shows "if payload_hash env again = payload_hash env request
    then (\<exists>rec'. submit_job env again prin limit' kinds' now' jid' nonce' s2 = (Inr (rec', False), s2)
            \<and> jr_job_id rec' = jid \<and> jr_request rec' = jr_request rec \<and> jr_actor rec' = prin)
    else submit_job env again prin limit' kinds' now' jid' nonce' s2 = (Inl IdempotencyConflictError, s2)"
proof -
  obtain r1 where r1: "fetch_job jid s1 = Some r1" "job_from_row r1 = Inr rec" "job_principal r1 = prin"
    "job_idempotency_key r1 = rq_idempotency_key request" "job_payload_hash r1 = payload_hash env request"
    using submit_created_row [OF assms(2)] by blast
  have i1: "store_inv s1" by (rule submit_inv [OF assms(2,1)])
  then obtain r2 where r2: "fetch_job jid s2 = Some r2" "row_run (map fst calls) r1 r2"
    using run_row [OF _ r1(1)] assms(3) by blast
  note f = row_run_frame [OF r2(2)]
  have i2: "store_inv s2" using run_inv [OF i1] assms(3) by simp
  have mem: "r2 \<in> set (st_jobs s2)" "job_id r2 = jid" using fetch_job_SomeD [OF r2(1)] by auto
  have "find_replay prin (rq_idempotency_key again) s2 = Some r2"
    using job_key_unique [OF i2 mem(1)] f r1 assms(4) by simp
  note replay = submit_replay [OF this assms(5,6), of env now' jid' nonce']
  have "bounded 1 128 (job_id r2)" using r1(2) f by (auto simp: job_from_row_def split: if_splits)
  moreover have "wf_row r2" using i2 mem(1) by (auto simp: store_inv_def jobs_inv_def list_all_iff)
  ultimately obtain rec' where rec': "job_from_row r2 = Inr rec'" using wf_row_readable by blast
  show ?thesis
    using replay rec' f r1 mem(2) job_from_row_Inr [OF rec'] job_from_row_Inr [OF r1(2)] by auto
qed

theorem submit_idempotent_witness:
  "\<exists>rec'. submit_job sample_env (sample_request ''key-0003'' ''apps'') ''alice'' None None 30 ''job-0009'' []
       (run_calls sample_env [(25, ClaimNext ''worker-b'' 30)]
         (snd (submit_job sample_env (sample_request ''key-0003'' ''apps'') ''alice'' None None 20 ''job-0003'' [] queued_store)))
     = (Inr (rec', False), run_calls sample_env [(25, ClaimNext ''worker-b'' 30)]
         (snd (submit_job sample_env (sample_request ''key-0003'' ''apps'') ''alice'' None None 20 ''job-0003'' [] queued_store)))
     \<and> jr_job_id rec' = ''job-0003''"
proof -
  let ?sub = "submit_job sample_env (sample_request ''key-0003'' ''apps'') ''alice'' None None 20 ''job-0003'' [] queued_store"
  have "map_sum id snd (fst ?sub) = Inr True" by code_simp
  then obtain rec where "?sub = (Inr (rec, True), snd ?sub)" by (cases ?sub; cases "fst ?sub") auto
  from submit_idempotent [OF queued_store_inv this refl refl, where limit' = None and kinds' = None
      and now' = 30 and jid' = "''job-0009''" and nonce' = "[]" and calls = "[(25, ClaimNext ''worker-b'' 30)]"]
  show ?thesis by auto
qed

section \<open>Queue limits\<close>

lemma active_of_kinds_jobs:
  "st_jobs s' = st_jobs s @ rows \<Longrightarrow> active_of_kinds ks s' \<le> active_of_kinds ks s + length rows"
  by (simp add: active_of_kinds_def rowcount_le_length)

text \<open>
  A submission with a limit never lets the active jobs of the limited kinds exceed it: when
  the job is created they were fewer than the limit, and they are at most the limit afterwards.
\<close>

theorem submit_within_limit:
  assumes "submit_job env request prin (Some limit) (Some ks) now jid nonce s = (Inr (rec, True), s')"
  shows "int (active_of_kinds ks s) < limit \<and> int (active_of_kinds ks s') \<le> limit
    \<and> request_kind request \<in> set ks"
proof -
  obtain persisted s1 row where p: "persist_request env nonce request prin now s = Inr (persisted, s1)"
    and e: "enqueue request persisted (payload_hash env request) prin now jid s1 = Inr (row, s')"
    and l: "int (active_of_kinds ks s) < limit"
    using submit_created [OF assms] by auto
  have "st_jobs s' = st_jobs s @ [row]" using enqueue_Inr [OF e] persist_frame [OF p] by simp
  from active_of_kinds_jobs [OF this, of ks] l have "int (active_of_kinds ks s') \<le> limit" by simp
  moreover have "request_kind request \<in> set ks" using assms by (auto simp: submit_job_def split: if_splits)
  ultimately show ?thesis using l by simp
qed

theorem submit_within_limit_witness:
  "int (active_of_kinds [DEPLOY] (snd (submit_job sample_env (sample_request ''key-0003'' ''apps'') ''alice''
      (Some 3) (Some [DEPLOY]) 20 ''job-0003'' [] queued_store))) \<le> 3"
proof -
  let ?sub = "submit_job sample_env (sample_request ''key-0003'' ''apps'') ''alice'' (Some 3) (Some [DEPLOY]) 20
      ''job-0003'' [] queued_store"
  have "map_sum id snd (fst ?sub) = Inr True" by code_simp
  then obtain rec where "?sub = (Inr (rec, True), snd ?sub)" by (cases ?sub; cases "fst ?sub") auto
  from submit_within_limit [OF this] show ?thesis by simp
qed

section \<open>Batches\<close>

abbreviation key_of :: "job_request \<Rightarrow> string" where
  "key_of \<equiv> rq_idempotency_key"

definition replayed :: "string \<Rightarrow> store \<Rightarrow> job_request \<Rightarrow> bool" where
  "replayed prin s r \<longleftrightarrow> find_replay prin (key_of r) s \<noteq> None"

text \<open>The row a request is answered with.\<close>

definition stored :: "store_env \<Rightarrow> string \<Rightarrow> store \<Rightarrow> job_request \<Rightarrow> job_record \<Rightarrow> bool" where
  "stored env prin s r rec \<longleftrightarrow> (\<exists>row \<in> set (st_jobs s). job_from_row row = Inr rec \<and> job_principal row = prin
     \<and> job_idempotency_key row = key_of r \<and> job_payload_hash row = payload_hash env r)"

lemma stored_mono: "set (st_jobs s) \<subseteq> set (st_jobs s') \<Longrightarrow> stored env prin s r rec \<Longrightarrow> stored env prin s' r rec"
  by (auto simp: stored_def)

definition answered ::
  "store_env \<Rightarrow> string \<Rightarrow> store \<Rightarrow> job_request list \<Rightarrow> bool \<Rightarrow> string \<times> (job_record \<times> bool) \<Rightarrow> bool" where
  "answered env prin s requests made e \<longleftrightarrow>
     snd (snd e) = made \<and> (\<exists>r \<in> set requests. key_of r = fst e \<and> stored env prin s r (fst (snd e)))"

lemma answered_mono:
  "answered env prin s rs made e \<Longrightarrow> set rs \<subseteq> set rs' \<Longrightarrow> set (st_jobs s) \<subseteq> set (st_jobs s') \<Longrightarrow>
     answered env prin s' rs' made e"
  unfolding answered_def using stored_mono by blast

lemma batch_split_lists:
  "batch_split env prin requests s = Inr (replays, pending) \<Longrightarrow>
     map fst replays = map key_of (filter (replayed prin s) (map fst requests))
     \<and> map fst pending = filter (\<lambda>r. \<not> replayed prin s r) (map fst requests)
     \<and> list_all (answered env prin s (map fst requests) False) replays
     \<and> list_all (\<lambda>(r, p, hash, jid). hash = payload_hash env r) pending"
proof (induction env prin requests s arbitrary: replays pending rule: batch_split.induct)
  case (2 env prin request jid nonce rest s)
  have mono: "list_all (answered env prin s (map fst rest) False) xs \<Longrightarrow>
      list_all (answered env prin s (request # map fst rest) False) xs" for xs
    by (rule list.pred_mono_strong, assumption) (auto elim: answered_mono)
  show ?case
  proof (cases "find_replay prin (key_of request) s")
    case None
    then obtain p pending' where p: "protect_request env nonce request prin = Inr p"
      "batch_split env prin rest s = Inr (replays, pending')"
      "pending = (request, p, payload_hash env request, jid) # pending'"
      using "2.prems" by (auto simp: Let_def split: sum.splits)
    with "2.IH"(1) [OF refl None p(1,2)] None mono show ?thesis by (simp add: replayed_def)
  next
    case (Some existing)
    then obtain rec replays' where p: "\<not> job_payload_hash existing \<noteq> payload_hash env request"
      "job_from_row existing = Inr rec" "batch_split env prin rest s = Inr (replays', pending)"
      "replays = (key_of request, rec, False) # replays'"
      using "2.prems" by (auto simp: Let_def split: sum.splits if_splits)
    have "existing \<in> set (st_jobs s) \<and> job_principal existing = prin \<and> job_idempotency_key existing = key_of request"
      using Some by (auto simp: find_replay_def find_Some_iff)
    with p(1,2) have "answered env prin s (request # map fst rest) False (key_of request, rec, False)"
      by (auto simp: answered_def stored_def)
    with "2.IH"(2) [OF refl Some p(1-3)] Some p(4) mono show ?thesis by (simp add: replayed_def)
  qed
qed simp

lemma batch_insert_lists:
  "batch_insert prin now pending s = Inr (made, s') \<Longrightarrow>
     list_all (\<lambda>(r, p, hash, jid). hash = payload_hash env r) pending \<Longrightarrow>
     map fst made = map (key_of \<circ> fst) pending
     \<and> (\<exists>rows. st_jobs s' = st_jobs s @ rows \<and> length rows = length pending)
     \<and> list_all (answered env prin s' (map fst pending) True) made"
proof (induction prin now pending s arbitrary: made rule: batch_insert.induct)
  case (2 prin now request p hash jid rest s)
  from "2.prems"(1) obtain row s1 rec made' where e: "enqueue request p hash prin now jid s = Inr (row, s1)"
    and rec: "job_from_row row = Inr rec" and rest: "batch_insert prin now rest s1 = Inr (made', s')"
    and made: "made = (key_of request, rec, True) # made'"
    by (auto split: sum.splits)
  note q = enqueue_Inr [OF e]
  have hash: "hash = payload_hash env request" and "list_all (\<lambda>(r, p, hash, jid). hash = payload_hash env r) rest"
    using "2.prems"(2) by auto
  then have ih: "map fst made' = map (key_of \<circ> fst) rest"
    "\<exists>rows. st_jobs s' = st_jobs s1 @ rows \<and> length rows = length rest"
    "list_all (answered env prin s' (map fst rest) True) made'"
    using "2.IH" [OF e refl rec rest] by auto
  from ih(2) obtain rows where rows: "st_jobs s' = st_jobs s1 @ rows" "length rows = length rest" by blast
  have "st_jobs s' = st_jobs s @ row # rows" using rows q by simp
  moreover have "answered env prin s' (request # map fst rest) True (key_of request, rec, True)"
    using q rows rec hash by (auto simp: new_job_row_def answered_def stored_def)
  moreover have "list_all (answered env prin s' (request # map fst rest) True) made'"
    using ih(3) by (rule list.pred_mono_strong) (auto elim: answered_mono)
  ultimately show ?case using ih(1) rows(2) by (auto simp: made intro: exI [of _ "row # rows"])
qed simp

lemma batch_Inr:
  assumes "submit_job_batch_limited env requests prin limit now s = (Inr results, s')"
  obtains replays pending made kind where
    "batch_split env prin requests s = Inr (replays, pending)" "batch_insert prin now pending s = Inr (made, s')"
    "results = map (\<lambda>(r, _). the (map_of (made @ replays) (key_of r))) requests"
    "distinct (map (key_of \<circ> fst) requests)" "\<And>r. r \<in> fst ` set requests \<Longrightarrow> request_kind r = kind"
    "map (request_kind \<circ> fst) (take 1 requests) = [kind]"
    "int (active_of_kinds [kind] s) + int (length pending) \<le> limit"
proof -
  from assms have ne: "requests \<noteq> []" and d: "distinct (map (key_of \<circ> fst) requests)"
    and one: "card (set (map (request_kind \<circ> fst) requests)) = 1"
    by (auto simp: submit_job_batch_limited_def card_distinct split: if_splits)
  obtain kind where kind: "set (map (request_kind \<circ> fst) requests) = {kind}"
    using one by (auto simp: card_1_singleton_iff)
  have k1: "map (request_kind \<circ> fst) (take 1 requests) = [kind]"
    using ne kind by (cases requests) auto
  obtain all where b: "batch_body env requests prin limit now s = Inr (all, s')"
    and res: "results = map (\<lambda>(r, _). the (map_of all (key_of r))) requests"
    using assms by (auto simp: submit_job_batch_limited_def write_tx_def split: if_splits sum.splits prod.splits)
  obtain replays pending made where "batch_split env prin requests s = Inr (replays, pending)"
    "batch_insert prin now pending s = Inr (made, s')" "all = made @ replays"
    "int (active_of_kinds [kind] s) + int (length pending) \<le> limit"
    using b k1 by (auto simp: batch_body_def split: sum.splits if_splits)
  with that [OF this(1,2) _ d _ k1 this(4)] res kind show thesis by auto
qed

lemma batch_answers:
  assumes "submit_job_batch_limited env requests prin limit now s = (Inr results, s')"
  shows "list_all2 (\<lambda>(r, _) (rec, made). made = (\<not> replayed prin s r) \<and> stored env prin s' r rec) requests results"
proof -
  from assms obtain replays pending made where
    sp: "batch_split env prin requests s = Inr (replays, pending)" and ins: "batch_insert prin now pending s = Inr (made, s')"
    and res: "results = map (\<lambda>(r, _). the (map_of (made @ replays) (key_of r))) requests"
    and d: "distinct (map (key_of \<circ> fst) requests)"
    by (rule batch_Inr) blast
  note S = batch_split_lists [OF sp]
  note I = batch_insert_lists [OF ins S [THEN conjunct2, THEN conjunct2, THEN conjunct2]]
  have sub: "set (st_jobs s) \<subseteq> set (st_jobs s')" using I by auto
  have inj: "r = r'" if "r \<in> fst ` set requests" "r' \<in> fst ` set requests" "key_of r = key_of r'" for r r'
    using d that by (auto simp: distinct_map inj_on_def)
  have pend: "set (map fst pending) = {r \<in> fst ` set requests. \<not> replayed prin s r}"
    using arg_cong [OF S [THEN conjunct2, THEN conjunct1], of set] by (simp only: set_filter list.set_map)
  have keys: "map fst (made @ replays) = map key_of (filter (\<lambda>r. \<not> replayed prin s r) (map fst requests)
      @ filter (replayed prin s) (map fst requests))"
    using S I by (simp add: map_eq_conv flip: map_map)
  have dist: "distinct (map fst (made @ replays))"
    unfolding keys using d
    by (auto simp: distinct_map inj_on_def distinct_filter)
  have "(case the (map_of (made @ replays) (key_of r)) of (rec, new) \<Rightarrow> new = (\<not> replayed prin s r) \<and> stored env prin s' r rec)"
    if r: "r \<in> fst ` set requests" for r
  proof -
    have "key_of r \<in> set (map fst (made @ replays))" unfolding keys using r by auto
    then have "\<exists>e \<in> set (made @ replays). key_of r = fst e" by (simp only: list.set_map image_iff)
    then obtain v where v: "(key_of r, v) \<in> set (made @ replays)" by (metis prod.collapse)
    then have lookup: "map_of (made @ replays) (key_of r) = Some v" using dist by (simp only: map_of_eq_Some_iff)
    have "snd v = (\<not> replayed prin s r) \<and> stored env prin s' r (fst v)"
    proof (cases "(key_of r, v) \<in> set made")
      case True
      with I have "answered env prin s' (map fst pending) True (key_of r, v)" by (auto simp: list_all_iff)
      then obtain r' where "r' \<in> set (map fst pending)" "key_of r' = key_of r" "stored env prin s' r' (fst v)" "snd v"
        by (auto simp: answered_def)
      moreover from this pend have "r' \<in> fst ` set requests" "\<not> replayed prin s r'" by blast+
      moreover from this have "r' = r" using inj [OF _ r] \<open>key_of r' = key_of r\<close> by blast
      ultimately show ?thesis by simp
    next
      case False
      with v have rep: "(key_of r, v) \<in> set replays" by simp
      with S have "answered env prin s (map fst requests) False (key_of r, v)" by (auto simp: list_all_iff)
      then obtain r' where r': "r' \<in> fst ` set requests" "key_of r' = key_of r" "stored env prin s r' (fst v)" "\<not> snd v"
        by (auto simp: answered_def)
      have "key_of r \<in> set (map fst replays)" using rep by force
      then have "key_of r \<in> key_of ` {q \<in> fst ` set requests. replayed prin s q}"
        by (simp only: S set_filter list.set_map)
      then have "replayed prin s r" using inj [OF r] by blast
      moreover have "r' = r" by (rule inj [OF r'(1) r r'(2)])
      ultimately show ?thesis using r'(3,4) stored_mono [OF sub] by simp
    qed
    then show ?thesis unfolding lookup by (simp add: split_beta)
  qed
  then show ?thesis by (auto simp: res list.rel_map split_beta intro!: list.rel_refl_strong)
qed

text \<open>
  A batch is all or nothing.  If it raises, the store is unchanged.  If it returns, every
  request is answered in order with the record of a stored job of the principal under its own key
  and payload hash, flagged new exactly when no such job existed, and the active jobs of the
  batch's kind do not exceed the limit.
\<close>

theorem batch_all_or_nothing:
  assumes "submit_job_batch_limited env requests prin limit now s = (res, s')"
  shows "case res of Inl e \<Rightarrow> s' = s
    | Inr results \<Rightarrow>
        list_all2 (\<lambda>(r, _) (rec, made). made = (find_replay prin (rq_idempotency_key r) s = None)
            \<and> (\<exists>row \<in> set (st_jobs s'). job_from_row row = Inr rec \<and> job_principal row = prin
                 \<and> job_idempotency_key row = rq_idempotency_key r \<and> job_payload_hash row = payload_hash env r))
          requests results
        \<and> (\<forall>(r, _) \<in> set requests. int (active_of_kinds [request_kind r] s') \<le> limit)"
proof (cases res)
  case (Inl e)
  then show ?thesis
    using assms by (auto simp: submit_job_batch_limited_def write_tx_def split: if_splits sum.splits prod.splits)
next
  case (Inr results)
  with assms have ok: "submit_job_batch_limited env requests prin limit now s = (Inr results, s')" by simp
  obtain replays pending made kind where
    sp: "batch_split env prin requests s = Inr (replays, pending)" and ins: "batch_insert prin now pending s = Inr (made, s')"
    and kind: "\<And>r. r \<in> fst ` set requests \<Longrightarrow> request_kind r = kind"
    and lim: "int (active_of_kinds [kind] s) + int (length pending) \<le> limit"
    using batch_Inr [OF ok] by metis
  obtain rows where "st_jobs s' = st_jobs s @ rows" "length rows = length pending"
    using batch_insert_lists [OF ins] batch_split_lists [OF sp] by blast
  from active_of_kinds_jobs [OF this(1), of "[kind]"] this(2) lim
  have "int (active_of_kinds [kind] s') \<le> limit" by simp
  with kind have "\<forall>(r, _) \<in> set requests. int (active_of_kinds [request_kind r] s') \<le> limit" by force
  then show ?thesis
    using batch_answers [OF ok] by (simp add: Inr stored_def replayed_def)
qed

theorem batch_all_or_nothing_witness:
  "snd (submit_job_batch_limited sample_env
      [(sample_request ''key-0008'' ''apps'', ''job-0008'', []), (sample_request ''key-0009'' ''media'', ''job-0001'', [])]
      ''alice'' 9 20 queued_store) = queued_store"
proof -
  let ?b = "submit_job_batch_limited sample_env
      [(sample_request ''key-0008'' ''apps'', ''job-0008'', []), (sample_request ''key-0009'' ''media'', ''job-0001'', [])]
      ''alice'' 9 20 queued_store"
  have "isl (fst ?b)" by code_simp
  then obtain e where "?b = (Inl e, snd ?b)" by (cases ?b; cases "fst ?b") auto
  from batch_all_or_nothing [OF this] show ?thesis by simp
qed

section \<open>Destructive requests\<close>

lemma submit_destroy:
  assumes "submit_job env request prin limit kinds now jid nonce s = (Inr (rec, True), s')"
    and "rq_operation request = DestroyInfraOperation op"
  shows "\<exists>s1. consume_destructive_approval env op prin now s = Inr s1 \<and> st_approvals s' = st_approvals s1
    \<and> jr_request rec = request\<lparr>rq_operation := DestroyInfraOperation (op\<lparr>di_approval_token := ''consumed-approval''\<rparr>)\<rparr>"
proof -
  obtain persisted s1 row where p: "persist_request env nonce request prin now s = Inr (persisted, s1)"
    and e: "enqueue request persisted (payload_hash env request) prin now jid s1 = Inr (row, s')"
    and rec: "job_from_row row = Inr rec"
    using submit_created [OF assms(1)] by blast
  from p assms(2) have "consume_destructive_approval env op prin now s = Inr s1"
    and "persisted = request\<lparr>rq_operation := DestroyInfraOperation (op\<lparr>di_approval_token := ''consumed-approval''\<rparr>)\<rparr>"
    by (auto simp: persist_request_def split: sum.splits)
  with enqueue_Inr [OF e] job_from_row_Inr [OF rec] show ?thesis by (auto simp: new_job_row_def)
qed

text \<open>
  C7. A destroy job is created only against its plan and a live approval: the plan exists and
  belongs to the caller, its hash, action, scopes and configuration revision are those of the
  request, an approval of that plan for the caller and the presented token was neither consumed
  nor expired, it is consumed now, and the stored request no longer holds the token.
\<close>

theorem destroy_needs_approval:
  assumes "submit_job env request prin limit kinds now jid nonce s = (Inr (rec, True), s')"
    and "rq_operation request = DestroyInfraOperation op"
  shows "\<exists>plan a. plan_released env op prin now s plan a
    \<and> (\<exists>b \<in> set (st_approvals s'). ap_approval_id b = ap_approval_id a \<and> ap_consumed_at b = Some now)
    \<and> jr_request rec = request\<lparr>rq_operation := DestroyInfraOperation (op\<lparr>di_approval_token := ''consumed-approval''\<rparr>)\<rparr>"
proof -
  obtain s1 where c: "consume_destructive_approval env op prin now s = Inr s1" "st_approvals s' = st_approvals s1"
    "jr_request rec = request\<lparr>rq_operation := DestroyInfraOperation (op\<lparr>di_approval_token := ''consumed-approval''\<rparr>)\<rparr>"
    using submit_destroy [OF assms] by blast
  obtain plan a where r: "plan_released env op prin now s plan a"
    and s1: "s1 = s\<lparr>st_approvals := update_where (consumes a) (consume_approval_row now) (st_approvals s)\<rparr>"
    using consume_InrD [OF c(1)] by blast
  have "a \<in> set (st_approvals s)" "consumes a a" using r by (auto simp: plan_released_def consumes_def)
  then have "consume_approval_row now a \<in> set (st_approvals s')" by (auto simp: c(2) s1 set_update_where)
  then have "\<exists>b \<in> set (st_approvals s'). ap_approval_id b = ap_approval_id a \<and> ap_consumed_at b = Some now"
    by (rule rev_bexI) (simp add: consume_approval_row_def)
  with r c(3) show ?thesis by blast
qed

lemma sample_destroy_created:
  obtains rec where "submit_job sample_env (destroy_request ''key-0001'') ''alice'' None None 2 ''job-0001'' [] approved_store =
    (Inr (rec, True), snd (submit_job sample_env (destroy_request ''key-0001'') ''alice'' None None 2 ''job-0001'' [] approved_store))"
proof -
  let ?sub = "submit_job sample_env (destroy_request ''key-0001'') ''alice'' None None 2 ''job-0001'' [] approved_store"
  have "map_sum id snd (fst ?sub) = Inr True" by code_simp
  then obtain rec where "?sub = (Inr (rec, True), snd ?sub)" by (cases ?sub; cases "fst ?sub") auto
  then show thesis by (rule that)
qed

theorem destroy_needs_approval_witness:
  "\<exists>b \<in> set (st_approvals (snd (submit_job sample_env (destroy_request ''key-0001'') ''alice'' None None 2
      ''job-0001'' [] approved_store))). ap_consumed_at b = Some 2"
proof -
  obtain rec where "submit_job sample_env (destroy_request ''key-0001'') ''alice'' None None 2 ''job-0001'' [] approved_store =
    (Inr (rec, True), snd (submit_job sample_env (destroy_request ''key-0001'') ''alice'' None None 2 ''job-0001'' [] approved_store))"
    by (rule sample_destroy_created)
  from destroy_needs_approval [OF this, of sample_destroy] show ?thesis by (auto simp: destroy_request_def)
qed

definition spent :: "store_env \<Rightarrow> destroy_infra \<Rightarrow> string \<Rightarrow> store \<Rightarrow> bool" where
  "spent env op prin s \<longleftrightarrow>
     (case sort_key (\<lambda>a. - ap_created_at a) (filter (\<lambda>a. ap_plan_id a = di_plan_id op \<and> ap_actor a = prin
          \<and> ap_token_hash a = env_sha256 env (di_approval_token op)) (st_approvals s)) of
        [] \<Rightarrow> False | a # _ \<Rightarrow> ap_consumed_at a \<noteq> None)"

lemma spent_refused: "spent env op prin s \<Longrightarrow> \<exists>e. consume_destructive_approval env op prin now s = Inl (ApprovalError e)"
  by (auto simp: spent_def consume_destructive_approval_def Let_def split: option.splits list.splits)

lemma spent_update:
  assumes "spent env op prin s" and "st_approvals s' = update_where (consumes b) (consume_approval_row now) (st_approvals s)"
  shows "spent env op prin s'"
proof -
  have "sort_key (\<lambda>a. - ap_created_at a) (filter (\<lambda>a. ap_plan_id a = di_plan_id op \<and> ap_actor a = prin
          \<and> ap_token_hash a = env_sha256 env (di_approval_token op)) (st_approvals s'))
    = update_where (consumes b) (consume_approval_row now) (sort_key (\<lambda>a. - ap_created_at a)
        (filter (\<lambda>a. ap_plan_id a = di_plan_id op \<and> ap_actor a = prin
          \<and> ap_token_hash a = env_sha256 env (di_approval_token op)) (st_approvals s)))"
    unfolding assms(2) by (rule consumed_stays_first) (simp add: consume_approval_row_def)
  with assms(1) show ?thesis
    by (auto simp: spent_def consume_approval_row_def split: list.splits if_splits)
qed

lemma consume_spends:
  "consume_destructive_approval env op prin now s = Inr s' \<Longrightarrow> spent env op prin s'"
  using consume_marks_first [of env op prin now s s'] by (auto simp: spent_def consume_approval_row_def)

lemma submit_approvals:
  assumes "submit_job env request prin limit kinds now jid nonce s = (r, s')"
  shows "st_approvals s' = st_approvals s
    \<or> (\<exists>b. st_approvals s' = update_where (consumes b) (consume_approval_row now) (st_approvals s))"
proof -
  have "s' = s \<or> submit_body env request prin limit kinds now jid nonce s = Inr (r, s')"
    using assms by (auto simp: submit_job_def split: if_splits option.splits elim: finish_cases)
  then show ?thesis
  proof
    assume "submit_body env request prin limit kinds now jid nonce s = Inr (r, s')"
    then show ?thesis
    proof (cases rule: submit_body_cases)
      case (created p s1 row)
      have "st_approvals s' = st_approvals s1" using enqueue_Inr [OF created(3)] by simp
      moreover have "s1 = s \<or> (\<exists>op. consume_destructive_approval env op prin now s = Inr s1)"
        using created(2) by (auto simp: persist_request_def split: operation.splits sum.splits)
      ultimately show ?thesis using consume_InrD by fastforce
    qed simp
  qed simp
qed

lemma batch_insert_approvals: "batch_insert prin now pending s = Inr (made, s') \<Longrightarrow> st_approvals s' = st_approvals s"
  by (induction prin now pending s arbitrary: made rule: batch_insert.induct)
    (auto split: sum.splits dest!: enqueue_Inr)

lemma batch_approvals:
  assumes "submit_job_batch_limited env requests prin limit now s = (r, s')"
  shows "st_approvals s' = st_approvals s"
  using assms
  by (auto simp: submit_job_batch_limited_def batch_body_def write_tx_def dest: batch_insert_approvals
      split: if_splits sum.splits prod.splits)

definition reissues :: "store_env \<Rightarrow> string \<Rightarrow> store_call \<Rightarrow> bool" where
  "reissues env token c =
     (case c of IssueApproval _ _ _ _ other \<Rightarrow> env_sha256 env other = env_sha256 env token | _ \<Rightarrow> False)"

lemma exec_approvals:
  assumes "store_inv s"
  shows "st_approvals (exec env now c s) = st_approvals s
    \<or> (\<exists>b. st_approvals (exec env now c s) = update_where (consumes b) (consume_approval_row now) (st_approvals s))
    \<or> (\<exists>row plan actor ttl aid token. c = IssueApproval plan actor ttl aid token
         \<and> st_approvals (exec env now c s) = st_approvals s @ [row] \<and> ap_token_hash row = env_sha256 env token)"
proof -
  consider "quiet c" | "bootstrap_call c" | (other) "\<not> quiet c" "\<not> bootstrap_call c" by blast
  then show ?thesis
  proof cases
    case 1
    then show ?thesis using quiet_kept [of c s env now] by (simp add: kept_def)
  next
    case 2
    then show ?thesis using bootstrap_call_step [OF 2 assms, of env now] by (simp add: other_tables_def)
  next
    case other
    then show ?thesis
    proof (cases c)
      case (SubmitJob request prin limit kinds jid nonce)
      then show ?thesis using submit_approvals [OF prod.collapse [symmetric]] by auto
    next
      case (SubmitBatch requests prin limit)
      then show ?thesis using batch_approvals [OF prod.collapse [symmetric]] by simp
    next
      case (CreatePlan spec actor plan_id)
      obtain r s' where cp: "create_plan env spec actor plan_id now s = (r, s')" by fastforce
      then have "st_approvals s' = st_approvals s"
        by (cases rule: create_plan_cases) (auto dest: audited_frame)
      then show ?thesis using cp CreatePlan by simp
    next
      case (IssueApproval plan_id actor ttl approval_id token)
      obtain r s' where ia: "issue_approval env plan_id actor ttl approval_id token now s = (r, s')" by fastforce
      then have "st_approvals s' = st_approvals s \<or> (\<exists>row. st_approvals s' = st_approvals s @ [row]
          \<and> ap_token_hash row = env_sha256 env token)"
        by (cases rule: issue_approval_cases) (auto dest: audited_frame)
      then show ?thesis using ia IssueApproval by auto
    qed auto
  qed
qed

lemma run_spent:
  assumes "store_inv s" and "spent env op prin s"
    and "list_all (\<lambda>(t, c). \<not> reissues env (di_approval_token op) c) calls"
  shows "spent env op prin (run_calls env calls s)"
  using assms
proof (induction calls arbitrary: s)
  case (Cons tc calls)
  obtain t c where tc: "tc = (t, c)" by fastforce
  let ?s = "exec env t c s"
  have "spent env op prin ?s"
    using exec_approvals [OF Cons.prems(1), of env t c]
  proof (elim disjE exE conjE)
    assume "st_approvals ?s = st_approvals s"
    then show ?thesis using Cons.prems(2) by (simp add: spent_def)
  next
    fix b assume "st_approvals ?s = update_where (consumes b) (consume_approval_row t) (st_approvals s)"
    then show ?thesis by (rule spent_update [OF Cons.prems(2)])
  next
    fix row plan actor ttl aid token
    assume "c = IssueApproval plan actor ttl aid token" "st_approvals ?s = st_approvals s @ [row]"
      "ap_token_hash row = env_sha256 env token"
    then show ?thesis using Cons.prems(2,3) by (auto simp: spent_def tc reissues_def)
  qed
  then show ?case using Cons exec_inv [OF Cons.prems(1)] by (simp add: tc)
qed simp

text \<open>
  C6. An approval token releases one destroy job at most.  After it was used, and whatever calls
  follow short of issuing another approval whose token has the same hash, presenting the same
  plan and token again under any new idempotency key raises \<open>ApprovalError\<close> and changes nothing.
\<close>

theorem approval_single_use:
  assumes "store_inv s" and "submit_job env request prin limit kinds now jid nonce s = (Inr (rec, True), s1)"
    and "rq_operation request = DestroyInfraOperation op"
    and "list_all (\<lambda>(t, c). \<not> reissues env (di_approval_token op) c) calls" and "s2 = run_calls env calls s1"
    and "rq_operation again = DestroyInfraOperation op" and "find_replay prin (rq_idempotency_key again) s2 = None"
  shows "\<exists>e. submit_job env again prin None None now' jid' nonce' s2 = (Inl (ApprovalError e), s2)"
proof -
  have "store_inv s1" by (rule submit_inv [OF assms(2,1)])
  moreover have "spent env op prin s1"
    using submit_destroy [OF assms(2,3)] consume_spends by (fastforce simp: spent_def)
  ultimately have "spent env op prin s2" using run_spent assms(4,5) by blast
  then obtain e where "consume_destructive_approval env op prin now' s2 = Inl (ApprovalError e)"
    using spent_refused by blast
  then show ?thesis
    using assms(6,7)
    by (simp add: submit_job_def submit_body_def Let_def persist_request_def finish_def write_tx_def)
qed

theorem approval_single_use_witness:
  "\<exists>e s2. s2 = run_calls sample_env [(3, ClaimNext ''worker-a'' 30)]
      (snd (submit_job sample_env (destroy_request ''key-0001'') ''alice'' None None 2 ''job-0001'' [] approved_store))
    \<and> submit_job sample_env (destroy_request ''key-0002'') ''alice'' None None 4 ''job-0002'' [] s2 = (Inl (ApprovalError e), s2)"
proof -
  let ?sub = "submit_job sample_env (destroy_request ''key-0001'') ''alice'' None None 2 ''job-0001'' [] approved_store"
  let ?s2 = "run_calls sample_env [(3, ClaimNext ''worker-a'' 30)] (snd ?sub)"
  obtain rec where sub: "?sub = (Inr (rec, True), snd ?sub)" by (rule sample_destroy_created)
  have new: "find_replay ''alice'' (rq_idempotency_key (destroy_request ''key-0002'')) ?s2 = None" by code_simp
  have "\<exists>e. submit_job sample_env (destroy_request ''key-0002'') ''alice'' None None 4 ''job-0002'' [] ?s2
      = (Inl (ApprovalError e), ?s2)"
    by (rule approval_single_use [OF approved_store_inv sub _ _ refl _ new, where op = sample_destroy])
      (simp_all add: destroy_request_def reissues_def)
  then show ?thesis by blast
qed

text \<open>
  Accounting over whole histories: the destroy jobs ever created are exactly as many as the
  approvals consumed, hence never more than the approvals issued, and no stored job holds an
  approval token or the plain text of an invitation.
\<close>

theorem destroy_jobs_accounted:
  "rowcount (\<lambda>r. is_destroy (rq_operation (job_request_json r))) (st_jobs (run_calls env calls empty_store))
     = rowcount (\<lambda>a. ap_consumed_at a \<noteq> None) (st_approvals (run_calls env calls empty_store))
   \<and> rowcount (\<lambda>r. is_destroy (rq_operation (job_request_json r))) (st_jobs (run_calls env calls empty_store))
     \<le> length (st_approvals (run_calls env calls empty_store))
   \<and> list_all (\<lambda>r. protected_request (job_request_json r)) (st_jobs (run_calls env calls empty_store))"
  using run_inv [OF empty_store_inv, of env calls] rowcount_le_length
  by (auto simp: store_inv_def jobs_inv_def destroy_jobs_def consumed_count_def simp del: not_None_eq)

end
