(* ===== verification/Grant_Properties.thy ===== *)
theory Grant_Properties
  imports Store_Safety Samples
begin

text \<open>
  What the bootstrap credentials guarantee over every history of calls: one active capability,
  one session per capability, a bounded number of guesses, one use of a grant.
\<close>

section \<open>The rows of the two tables along a history\<close>

lemma kept_grants: "kept s s' \<Longrightarrow> grants_step now s s'"
  by (intro grants_step_rows) (simp_all add: kept_def)

lemma same_grants:
  "st_capabilities s' = st_capabilities s \<Longrightarrow> st_sessions s' = st_sessions s \<Longrightarrow> grants_step now s s'"
  by (intro grants_step_rows) simp_all

lemma batch_insert_grants:
  "batch_insert prin now pending s = Inr (made, s') \<Longrightarrow>
     st_capabilities s' = st_capabilities s \<and> st_sessions s' = st_sessions s"
  by (induction prin now pending s arbitrary: made rule: batch_insert.induct)
    (auto split: sum.splits dest!: enqueue_Inr)

lemma submit_grants:
  assumes "submit_job env request prin limit kinds now jid nonce s = (r, s')"
  shows "st_capabilities s' = st_capabilities s \<and> st_sessions s' = st_sessions s"
proof -
  have "s' = s \<or> submit_body env request prin limit kinds now jid nonce s = Inr (r, s')"
    using assms by (auto simp: submit_job_def split: if_splits option.splits elim: finish_cases)
  then show ?thesis
    by (auto elim!: submit_body_cases dest!: persist_frame enqueue_Inr)
qed

lemma batch_grants:
  assumes "submit_job_batch_limited env requests prin limit now s = (r, s')"
  shows "st_capabilities s' = st_capabilities s \<and> st_sessions s' = st_sessions s"
  using assms
  by (auto simp: submit_job_batch_limited_def batch_body_def write_tx_def dest: batch_insert_grants
      split: if_splits sum.splits prod.splits)

lemma exec_grants:
  assumes "store_inv s"
  shows "grants_step now s (exec env now c s)"
proof -
  consider "quiet c" | "bootstrap_call c" | (other) "\<not> quiet c" "\<not> bootstrap_call c" by blast
  then show ?thesis
  proof cases
    case 1
    then show ?thesis by (intro kept_grants quiet_kept)
  next
    case 2
    then show ?thesis using bootstrap_call_step [OF 2 assms, of env now] by simp
  next
    case other
    then show ?thesis
    proof (cases c)
      case (SubmitJob request prin limit kinds jid nonce)
      then show ?thesis using submit_grants [OF prod.collapse [symmetric]] by (simp add: same_grants)
    next
      case (SubmitBatch requests prin limit)
      then show ?thesis using batch_grants [OF prod.collapse [symmetric]] by (simp add: same_grants)
    next
      case (CreatePlan spec actor plan_id)
      obtain r s' where cp: "create_plan env spec actor plan_id now s = (r, s')" by fastforce
      then have "st_capabilities s' = st_capabilities s \<and> st_sessions s' = st_sessions s"
        by (cases rule: create_plan_cases) (auto dest: audited_frame)
      then show ?thesis using cp CreatePlan by (simp add: same_grants)
    next
      case (IssueApproval plan_id actor ttl aid token)
      obtain r s' where ia: "issue_approval env plan_id actor ttl aid token now s = (r, s')" by fastforce
      then have "st_capabilities s' = st_capabilities s \<and> st_sessions s' = st_sessions s"
        by (cases rule: issue_approval_cases) (auto dest: audited_frame)
      then show ?thesis using ia IssueApproval by (simp add: same_grants)
    qed auto
  qed
qed

lemma fetch_step:
  assumes "list_all2 R xs ys" and "\<And>x y. R x y \<Longrightarrow> key y = key x" and "fetch key k xs = Some x"
  shows "\<exists>y. fetch key k (ys @ zs) = Some y \<and> R x y"
  using assms by (induction rule: list_all2_induct) (auto split: if_splits)

lemma grants_step_capability:
  assumes "grants_step now s s'" and "fetch cp_capability_id cid (st_capabilities s) = Some r"
  shows "\<exists>r'. fetch cp_capability_id cid (st_capabilities s') = Some r' \<and> cap_step now r r'"
proof -
  obtain caps where "list_all2 (cap_step now) (st_capabilities s) (take (length (st_capabilities s)) (st_capabilities s'))"
    "st_capabilities s' = take (length (st_capabilities s)) (st_capabilities s') @ caps"
    using assms(1) by (auto simp: grants_step_def)
  then show ?thesis using fetch_step [OF _ _ assms(2), of "cap_step now" _ caps] cap_step_frame by metis
qed

lemma grants_step_session:
  assumes "grants_step now s s'" and "fetch se_session_id sid (st_sessions s) = Some r"
  shows "\<exists>r'. fetch se_session_id sid (st_sessions s') = Some r' \<and> ses_step now r r'"
proof -
  obtain sess where "list_all2 (ses_step now) (st_sessions s) (take (length (st_sessions s)) (st_sessions s'))"
    "st_sessions s' = take (length (st_sessions s)) (st_sessions s') @ sess"
    using assms(1) by (auto simp: grants_step_def)
  then show ?thesis using fetch_step [OF _ _ assms(2), of "ses_step now" _ sess] ses_step_frame by metis
qed

text \<open>A closed capability or session stays closed.\<close>

lemma run_closed_capability:
  assumes "store_inv s" and "fetch cp_capability_id cid (st_capabilities s) = Some r"
    and "cp_exchanged_at r \<noteq> None \<or> cp_revoked_at r \<noteq> None"
  shows "\<exists>r'. fetch cp_capability_id cid (st_capabilities (run_calls env calls s)) = Some r'
    \<and> (cp_exchanged_at r' \<noteq> None \<or> cp_revoked_at r' \<noteq> None)"
  using assms
proof (induction calls arbitrary: s r)
  case (Cons tc calls)
  obtain t c where tc: "tc = (t, c)" by fastforce
  obtain r1 where r1: "fetch cp_capability_id cid (st_capabilities (exec env t c s)) = Some r1" "cap_step t r r1"
    using grants_step_capability [OF exec_grants [OF Cons.prems(1)] Cons.prems(2)] by blast
  have "cp_exchanged_at r1 \<noteq> None \<or> cp_revoked_at r1 \<noteq> None"
    using cap_step_frame [OF r1(2)] Cons.prems(3) by auto
  then show ?case using Cons.IH [OF _ r1(1)] exec_inv [OF Cons.prems(1)] by (simp add: tc)
qed auto

lemma run_closed_session:
  assumes "store_inv s" and "fetch se_session_id sid (st_sessions s) = Some r"
    and "se_consumed_at r \<noteq> None \<or> se_revoked_at r \<noteq> None"
  shows "\<exists>r'. fetch se_session_id sid (st_sessions (run_calls env calls s)) = Some r'
    \<and> (se_consumed_at r' \<noteq> None \<or> se_revoked_at r' \<noteq> None)"
  using assms
proof (induction calls arbitrary: s r)
  case (Cons tc calls)
  obtain t c where tc: "tc = (t, c)" by fastforce
  obtain r1 where r1: "fetch se_session_id sid (st_sessions (exec env t c s)) = Some r1" "ses_step t r r1"
    using grants_step_session [OF exec_grants [OF Cons.prems(1)] Cons.prems(2)] by blast
  have "se_consumed_at r1 \<noteq> None \<or> se_revoked_at r1 \<noteq> None"
    using ses_step_frame [OF r1(2)] Cons.prems(3) by auto
  then show ?case using Cons.IH [OF _ r1(1)] exec_inv [OF Cons.prems(1)] by (simp add: tc)
qed auto

lemma closed_capability_refused:
  assumes "fetch cp_capability_id cid (st_capabilities s) = Some r" and "opaque_token_id token = Some cid"
    and "cp_exchanged_at r \<noteq> None \<or> cp_revoked_at r \<noteq> None"
  shows "\<exists>e. fst (exchange_bootstrap_capability env token ttl session_id secret now s) = Inl e"
proof -
  obtain x s' where e: "exchange_bootstrap_capability env token ttl session_id secret now s = (x, s')" by fastforce
  then show ?thesis
    by (cases rule: exchange_cases) (use assms e in \<open>auto simp: capability_is_active_def\<close>)
qed

lemma closed_session_refused:
  assumes "fetch se_session_id sid (st_sessions s) = Some r" and "opaque_token_id token = Some sid"
    and "se_consumed_at r \<noteq> None \<or> se_revoked_at r \<noteq> None" and "distinct (map se_session_id (st_sessions s))"
  shows "\<exists>e. fst (validate_bootstrap_grant env token now s) = Inl e"
    and "\<exists>e. fst (consume_bootstrap_grant env token prin now s) = Inl e"
proof -
  obtain x s' where e: "validate_bootstrap_grant env token now s = (x, s')" by fastforce
  then show "\<exists>e. fst (validate_bootstrap_grant env token now s) = Inl e"
    by (cases rule: validate_cases) (use assms e in \<open>auto simp: open_session_def\<close>)
  obtain x s' where e: "consume_bootstrap_grant env token prin now s = (x, s')" by fastforce
  then show "\<exists>e. fst (consume_bootstrap_grant env token prin now s) = Inl e"
    using assms(4) by (cases rule: consume_cases) (use assms e in \<open>auto simp: open_session_def\<close>)
qed

section \<open>Samples\<close>

definition cap_id :: string where
  "cap_id = ''00000000-0000-4000-8000-00000000000a''"

definition ses_id :: string where
  "ses_id = ''00000000-0000-4000-8000-00000000000b''"

definition issued_store :: store where
  "issued_store = run_calls sample_env [(0, IssueCapability ''root'' 60000000 cap_id ''secret1'')] empty_store"

lemma issued_store_inv: "store_inv issued_store"
  unfolding issued_store_def by (rule run_inv [OF empty_store_inv])

section \<open>One active capability\<close>

text \<open>
  Issuing a bootstrap capability leaves it the only active one: from that moment on every
  other capability row is inactive and no session grant is open, and the new capability is active
  until it expires, at most fifteen minutes later.
\<close>

theorem issue_leaves_sole_capability:
  assumes "grants_inv s" and "issue_bootstrap_capability env prin ttl token_id secret now s = (Inr (token, expires_at), s')"
    and "now \<le> t"
  shows "(\<forall>r \<in> set (st_capabilities s'). capability_is_active r t \<longleftrightarrow> cp_capability_id r = token_id \<and> t < expires_at)
    \<and> (\<forall>q \<in> set (st_sessions s'). \<not> open_session t q)
    \<and> token_id \<in> cp_capability_id ` set (st_capabilities s') \<and> expires_at \<le> now + MAX_BOOTSTRAP_TTL"
  using assms(2)
proof (cases rule: issue_cases)
  case issued
  have old: "\<not> capability_is_active r t \<and> cp_capability_id r \<noteq> token_id"
    if "r \<in> set (update_where (open_capability now) (revoke_capability now) (st_capabilities s))" for r
    using that issued(4) assms(3)
    by (auto simp: set_update_where capability_is_active_def open_capability_def revoke_capability_def)
  have new: "capability_is_active (new_capability env prin ttl token_id secret now) t \<longleftrightarrow> t < expires_at"
    "cp_capability_id (new_capability env prin ttl token_id secret now) = token_id"
    using issued(1) by (auto simp: capability_is_active_def new_capability_def MAX_BOOTSTRAP_ATTEMPTS_def)
  have "\<not> open_session t q" if "q \<in> set (st_sessions s')" for q
    using that assms(3) by (auto simp: issued(6) set_update_where open_session_def revoke_session_def)
  then show ?thesis using old new issued(1,3) by (auto simp: issued(5))
qed simp

theorem issue_leaves_sole_capability_witness:
  "list_all (\<lambda>r. capability_is_active r 20 = (cp_capability_id r = ses_id))
     (st_capabilities (snd (issue_bootstrap_capability sample_env ''root'' 60000000 ses_id ''secret2'' 10 issued_store)))"
proof -
  let ?i = "issue_bootstrap_capability sample_env ''root'' 60000000 ses_id ''secret2'' 10 issued_store"
  have "fst ?i = Inr (ses_id @ ''.secret2'', 60000010)" by code_simp
  then have i: "?i = (Inr (ses_id @ ''.secret2'', 60000010), snd ?i)" by (metis prod.collapse)
  have "grants_inv issued_store" using issued_store_inv by (simp add: store_inv_def)
  from issue_leaves_sole_capability [OF this i, of 20] show ?thesis by (auto simp: list_all_iff)
qed

section \<open>One session per capability\<close>

text \<open>
  C8. A capability is exchanged for exactly one session.  A successful exchange stores one open
  session of that capability that expires no later than the capability, and whatever calls follow,
  no exchange of the same token ever succeeds again.
\<close>

theorem exchange_only_once:
  assumes "store_inv s"
    and "exchange_bootstrap_capability env token ttl session_id secret now s = (Inr (session_token, expires_at), s1)"
  shows "(\<exists>cid cap q. opaque_token_id token = Some cid \<and> cap \<in> set (st_capabilities s) \<and> cp_capability_id cap = cid
        \<and> q \<in> set (st_sessions s1) \<and> se_capability_id q = cid \<and> open_session now q
        \<and> se_expires_at q = expires_at \<and> expires_at \<le> cp_expires_at cap \<and> expires_at \<le> now + ttl)
    \<and> (\<exists>e. fst (exchange_bootstrap_capability env token ttl' session_id' secret' now' (run_calls env calls s1)) = Inl e)"
  using assms(2)
proof (cases rule: exchange_cases)
  case (granted cid row)
  have row: "row \<in> set (st_capabilities s)" "cp_capability_id row = cid" using granted(3) by (auto dest: fetch_SomeD)
  have act: "now < cp_expires_at row" using granted(5) by (simp add: capability_is_active_def)
  let ?q = "new_session env row ttl session_id secret now"
  have "open_session now ?q \<and> se_capability_id ?q = cid \<and> se_expires_at ?q = expires_at"
    using granted(1,6) act row(2) by (auto simp: new_session_def open_session_def)
  moreover have "?q \<in> set (st_sessions s1)" by (simp add: granted(11))
  moreover have "expires_at \<le> cp_expires_at row" "expires_at \<le> now + ttl" using granted(1) by auto
  ultimately have first: "\<exists>cid cap q. opaque_token_id token = Some cid \<and> cap \<in> set (st_capabilities s)
        \<and> cp_capability_id cap = cid \<and> q \<in> set (st_sessions s1) \<and> se_capability_id q = cid \<and> open_session now q
        \<and> se_expires_at q = expires_at \<and> expires_at \<le> cp_expires_at cap \<and> expires_at \<le> now + ttl"
    using row granted(2) by blast
  have "store_inv s1" using exec_inv [OF assms(1), of env now "ExchangeCapability token ttl session_id secret"] assms(2) by simp
  moreover have "fetch cp_capability_id cid (st_capabilities s1) = Some (exchange_row now row)"
    by (simp add: granted(10) exchange_cap.fetch_hit granted(3))
  ultimately obtain r' where "fetch cp_capability_id cid (st_capabilities (run_calls env calls s1)) = Some r'"
    "cp_exchanged_at r' \<noteq> None \<or> cp_revoked_at r' \<noteq> None"
    using run_closed_capability [of s1 cid "exchange_row now row" env calls] by (auto simp: exchange_row_def)
  then show ?thesis using first closed_capability_refused [OF _ granted(2)] by blast
qed simp_all

theorem exchange_only_once_witness:
  "\<exists>e. fst (exchange_bootstrap_capability sample_env (cap_id @ ''.secret1'') 60000000 cap_id ''x1'' 20
      (run_calls sample_env [(15, ClaimNext ''worker-a'' 30)]
        (snd (exchange_bootstrap_capability sample_env (cap_id @ ''.secret1'') 60000000 ses_id ''x2'' 10 issued_store)))) = Inl e"
proof -
  let ?x = "exchange_bootstrap_capability sample_env (cap_id @ ''.secret1'') 60000000 ses_id ''x2'' 10 issued_store"
  have "fst ?x = Inr (ses_id @ ''.x2'', 60000000)" by code_simp
  then have "?x = (Inr (ses_id @ ''.x2'', 60000000), snd ?x)" by (metis prod.collapse)
  from exchange_only_once [OF issued_store_inv this] show ?thesis by blast
qed

section \<open>Guessing\<close>

lemma wrong_guess:
  assumes "opaque_token_id token = Some cid" and "fetch cp_capability_id cid (st_capabilities s) = Some row"
    and "cp_token_hash row \<noteq> env_sha256 env token" and "0 < ttl" and "ttl \<le> MAX_BOOTSTRAP_TTL"
  shows "exchange_bootstrap_capability env token ttl session_id secret now s =
    (Inl (BootstrapCapabilityError ''bootstrap capability is invalid''), record_capability_failure cid now s)"
  using assms
  by (simp add: exchange_bootstrap_capability_def require_bootstrap_ttl_def exchange_body_def or_raise_def write_tx_def)

lemma failure_row:
  assumes "fetch cp_capability_id cid (st_capabilities s) = Some row"
  shows "fetch cp_capability_id cid (st_capabilities (record_capability_failure cid now s)) =
    Some (if cp_revoked_at row = None then fail_capability now row else row)"
  using assms fetch_SomeD [OF assms] by (simp add: record_capability_failure_def fail_cap.fetch_where)

definition wrong_guesses :: "store_env \<Rightarrow> string \<Rightarrow> string \<Rightarrow> (int \<times> store_call) list \<Rightarrow> bool" where
  "wrong_guesses env cid hash calls \<longleftrightarrow>
     list_all (\<lambda>(t, c). case c of
        ExchangeCapability token ttl session_id secret \<Rightarrow>
          opaque_token_id token = Some cid \<and> env_sha256 env token \<noteq> hash \<and> 0 < ttl \<and> ttl \<le> MAX_BOOTSTRAP_TTL
      | _ \<Rightarrow> False) calls"

lemma guesses_counted:
  assumes "fetch cp_capability_id cid (st_capabilities s) = Some row" and "wrong_guesses env cid (cp_token_hash row) calls"
  shows "\<exists>row'. fetch cp_capability_id cid (st_capabilities (run_calls env calls s)) = Some row'
    \<and> (cp_revoked_at row' \<noteq> None
       \<or> (cp_revoked_at row = None \<and> cp_failed_attempts row' = cp_failed_attempts row + length calls
          \<and> (calls = [] \<or> cp_failed_attempts row' < MAX_BOOTSTRAP_ATTEMPTS)))"
  using assms
proof (induction calls arbitrary: s row)
  case (Cons tc calls)
  obtain t token ttl session_id secret where tc: "tc = (t, ExchangeCapability token ttl session_id secret)"
    and g: "opaque_token_id token = Some cid" "env_sha256 env token \<noteq> cp_token_hash row" "0 < ttl" "ttl \<le> MAX_BOOTSTRAP_TTL"
    using Cons.prems(2) by (auto simp: wrong_guesses_def split: prod.splits store_call.splits)
  define row1 where "row1 = (if cp_revoked_at row = None then fail_capability t row else row)"
  have e: "exec env t (ExchangeCapability token ttl session_id secret) s = record_capability_failure cid t s"
    using wrong_guess [OF g(1) Cons.prems(1) _ g(3,4)] g(2) by simp
  have hash: "cp_token_hash row1 = cp_token_hash row" by (simp add: row1_def fail_capability_def)
  have w: "wrong_guesses env cid (cp_token_hash row1) calls"
    using Cons.prems(2) unfolding hash by (simp add: wrong_guesses_def)
  have f1: "fetch cp_capability_id cid (st_capabilities (record_capability_failure cid t s)) = Some row1"
    unfolding row1_def by (rule failure_row [OF Cons.prems(1)])
  have st: "cp_revoked_at row1 = None \<Longrightarrow> cp_revoked_at row = None
      \<and> cp_failed_attempts row1 = Suc (cp_failed_attempts row) \<and> cp_failed_attempts row1 < MAX_BOOTSTRAP_ATTEMPTS"
    by (auto simp: row1_def fail_capability_def split: if_splits)
  obtain row' where r': "fetch cp_capability_id cid (st_capabilities (run_calls env calls (record_capability_failure cid t s))) = Some row'"
    and alt: "cp_revoked_at row' \<noteq> None
       \<or> (cp_revoked_at row1 = None \<and> cp_failed_attempts row' = cp_failed_attempts row1 + length calls
          \<and> (calls = [] \<or> cp_failed_attempts row' < MAX_BOOTSTRAP_ATTEMPTS))"
    using Cons.IH [OF f1 w] by blast
  have "cp_revoked_at row' \<noteq> None \<or> (cp_revoked_at row = None
      \<and> cp_failed_attempts row' = cp_failed_attempts row + length (tc # calls) \<and> cp_failed_attempts row' < MAX_BOOTSTRAP_ATTEMPTS)"
    using alt
  proof
    assume "cp_revoked_at row1 = None \<and> cp_failed_attempts row' = cp_failed_attempts row1 + length calls
          \<and> (calls = [] \<or> cp_failed_attempts row' < MAX_BOOTSTRAP_ATTEMPTS)"
    with st show ?thesis by (cases "calls = []") simp_all
  qed simp
  with r' show ?case by (simp only: tc run_calls_simps e) blast
qed auto

text \<open>
  C9. Guesses are bounded.  Every wrong secret for a capability raises an error and still counts
  in the database; after five of them, and whatever calls follow, the capability is locked: no
  exchange of any token for it ever succeeds, the right one included.
\<close>

theorem guessing_locks_capability:
  assumes "store_inv s" and "fetch cp_capability_id cid (st_capabilities s) = Some row"
    and "wrong_guesses env cid (cp_token_hash row) guesses" and "length guesses \<ge> MAX_BOOTSTRAP_ATTEMPTS"
    and "opaque_token_id token = Some cid"
  shows "\<exists>e. fst (exchange_bootstrap_capability env token ttl session_id secret now
      (run_calls env calls (run_calls env guesses s))) = Inl e"
proof -
  obtain row' where r': "fetch cp_capability_id cid (st_capabilities (run_calls env guesses s)) = Some row'"
    "cp_revoked_at row' \<noteq> None"
    using guesses_counted [OF assms(2,3)] assms(4) by (auto simp: MAX_BOOTSTRAP_ATTEMPTS_def)
  then obtain r2 where "fetch cp_capability_id cid (st_capabilities (run_calls env calls (run_calls env guesses s))) = Some r2"
    "cp_exchanged_at r2 \<noteq> None \<or> cp_revoked_at r2 \<noteq> None"
    using run_closed_capability [OF run_inv [OF assms(1)] r'(1), of env calls] by blast
  then show ?thesis using closed_capability_refused [OF _ assms(5)] by blast
qed

theorem guessing_locks_capability_witness:
  "\<exists>e. fst (exchange_bootstrap_capability sample_env (cap_id @ ''.secret1'') 60000000 ses_id ''x2'' 10
      (run_calls sample_env [] (run_calls sample_env
         (replicate 5 (5, ExchangeCapability (cap_id @ ''.guess'') 60000000 ses_id ''x'')) issued_store))) = Inl e"
proof -
  let ?row = "new_capability sample_env ''root'' 60000000 cap_id ''secret1'' 0"
  have f: "fetch cp_capability_id cap_id (st_capabilities issued_store) = Some ?row" by code_simp
  have h: "cp_token_hash ?row = sample_digest (cap_id @ ''.secret1'')"
    by (simp add: new_capability_def sample_env_def new_opaque_token_def)
  have w: "wrong_guesses sample_env cap_id (cp_token_hash ?row)
      (replicate 5 (5, ExchangeCapability (cap_id @ ''.guess'') 60000000 ses_id ''x''))"
    by code_simp
  have t: "opaque_token_id (cap_id @ ''.secret1'') = Some cap_id" by code_simp
  show ?thesis
    by (rule guessing_locks_capability [OF issued_store_inv f w _ t]) (simp add: MAX_BOOTSTRAP_ATTEMPTS_def)
qed

section \<open>One use of a grant\<close>

text \<open>
  A session grant is used once.  After it was consumed, and whatever calls follow, neither
  validating nor consuming the same grant ever succeeds again.
\<close>

theorem grant_used_once:
  assumes "store_inv s" and "consume_bootstrap_grant env token prin now s = (Inr u, s1)"
    and "s2 = run_calls env calls s1"
  shows "(\<exists>e. fst (validate_bootstrap_grant env token t s2) = Inl e)
    \<and> (\<exists>e. fst (consume_bootstrap_grant env token prin' t s2) = Inl e)"
proof -
  have d: "distinct (map se_session_id (st_sessions s))" using grants_of_inv [OF assms(1)] by simp
  have i1: "store_inv s1" using exec_inv [OF assms(1), of env now "ConsumeGrant token prin"] assms(2) by simp
  have d2: "distinct (map se_session_id (st_sessions s2))"
    using grants_of_inv [OF run_inv [OF i1]] assms(3) by blast
  from assms(2) d show ?thesis
  proof (cases rule: consume_cases)
    case (consumed i row)
    have "fetch se_session_id i (st_sessions s1) = Some (consume_session now row)"
      by (simp add: consumed(6) consume_ses.fetch_hit consumed(3))
    moreover have "se_consumed_at (consume_session now row) \<noteq> None" by (simp add: consume_session_def)
    ultimately obtain r' where "fetch se_session_id i (st_sessions s2) = Some r'"
      "se_consumed_at r' \<noteq> None \<or> se_revoked_at r' \<noteq> None"
      using run_closed_session [OF i1] assms(3) by blast
    then show ?thesis using closed_session_refused [OF _ consumed(2) _ d2] by blast
  qed simp_all
qed

definition session_store :: store where
  "session_store = run_calls sample_env [(10, ExchangeCapability (cap_id @ ''.secret1'') 60000000 ses_id ''x1'')] issued_store"

theorem grant_used_once_witness:
  "\<exists>e. fst (validate_bootstrap_grant sample_env (ses_id @ ''.x1'') 30
      (run_calls sample_env [(25, ClaimNext ''worker-a'' 30)]
        (snd (consume_bootstrap_grant sample_env (ses_id @ ''.x1'') ''root'' 20 session_store)))) = Inl e"
proof -
  let ?c = "consume_bootstrap_grant sample_env (ses_id @ ''.x1'') ''root'' 20 session_store"
  have "fst ?c = Inr ()" by code_simp
  then have c: "?c = (Inr (), snd ?c)" by (metis prod.collapse)
  have "store_inv session_store" unfolding session_store_def by (rule run_inv [OF issued_store_inv])
  from grant_used_once [OF this c refl] show ?thesis by blast
qed

section \<open>The access flags\<close>

text \<open>
  The flags of \<open>bootstrap_access_state\<close>, computed by SQL, are what the operations enforce:
  the first is set exactly when some capability passes the activity check of the exchange; the
  second is set exactly when some session passes the checks for the holder of its token, and is
  set whenever any token is accepted.
\<close>

theorem access_flags_exact:
  assumes "store_inv s"
  shows "(fst (bootstrap_access_state now s) \<longleftrightarrow> (\<exists>r \<in> set (st_capabilities s). capability_is_active r now))
    \<and> (snd (bootstrap_access_state now s) \<longrightarrow>
         (\<exists>q \<in> set (st_sessions s). \<forall>token. env_sha256 env token = se_token_hash q \<longrightarrow>
            authenticate_bootstrap_session env (Some (se_session_id q)) token now s = (Some q, s)))
    \<and> (\<forall>sid token row s'. authenticate_bootstrap_session env sid token now s = (Some row, s') \<longrightarrow>
         snd (bootstrap_access_state now s))"
proof -
  have wf: "\<And>r. r \<in> set (st_capabilities s) \<Longrightarrow> wf_capability r" "\<And>q. q \<in> set (st_sessions s) \<Longrightarrow> wf_session q"
    and d: "distinct (map se_session_id (st_sessions s))"
    using assms by (auto simp: store_inv_def grants_inv_def list_all_iff)
  have "fst (bootstrap_access_state now s) \<longleftrightarrow> (\<exists>r \<in> set (st_capabilities s). capability_is_active r now)"
    using wf(1) by (auto simp: bootstrap_access_state_def list_ex_iff open_capability_iff)
  moreover have "authenticate_bootstrap_session env (Some (se_session_id q)) token now s = (Some q, s)"
    if "q \<in> set (st_sessions s)" "open_session now q" "env_sha256 env token = se_token_hash q" for q token
  proof -
    have "fetch se_session_id (se_session_id q) (st_sessions s) = Some q" using that(1) d by (simp add: fetch_eq_Some_iff)
    moreover have "se_failed_attempts q < MAX_BOOTSTRAP_ATTEMPTS"
      using wf(2) [OF that(1)] that(2) by (auto simp: wf_session_def open_session_def le_less)
    ultimately show ?thesis using that by (auto simp: authenticate_bootstrap_session_def open_session_def)
  qed
  moreover have "snd (bootstrap_access_state now s)"
    if "authenticate_bootstrap_session env sid token now s = (Some row, s')" for sid token row s'
    using that
    by (cases rule: authenticate_cases) (auto simp: bootstrap_access_state_def list_ex_iff dest: fetch_SomeD)
  ultimately show ?thesis by (auto simp: bootstrap_access_state_def list_ex_iff)
qed

theorem access_flags_exact_witness:
  "fst (bootstrap_access_state 10 issued_store) \<longleftrightarrow> (\<exists>r \<in> set (st_capabilities issued_store). capability_is_active r 10)"
  using access_flags_exact [OF issued_store_inv] by blast

end
