(* ===== verification/Timestamps.thy ===== *)
theory Timestamps
  imports Prelude
begin

text \<open>
  Time in the controller store.  The store keeps every timestamp as the text that
  \<open>datetime.isoformat\<close> gives for an aware UTC value, and its SQL statements compare these texts
  (\<open>expires_at > ?\<close>, \<open>lease_expires_at <= ?\<close>, ORDER BY \<open>created_at\<close>).  The Python code compares
  parsed datetimes.  This theory models both: \<open>datetime\<close> with the calendar arithmetic of the
  standard library, \<open>isoformat\<close> with its omitted microseconds, and proves that text order is time
  order.  The other theories of the store can therefore work with one number, microseconds,
  for every timestamp.
\<close>

section \<open>Calendar\<close>

record datetime =
  dt_year :: nat
  dt_month :: nat
  dt_day :: nat
  dt_hour :: nat
  dt_minute :: nat
  dt_second :: nat
  dt_microsecond :: nat

definition is_leap :: "nat \<Rightarrow> bool" where
  "is_leap y \<longleftrightarrow> y mod 4 = 0 \<and> (y mod 100 \<noteq> 0 \<or> y mod 400 = 0)"

definition days_in_month :: "nat \<Rightarrow> nat \<Rightarrow> nat" where
  "days_in_month y m =
     (if m = 2 then (if is_leap y then 29 else 28)
      else if m = 4 \<or> m = 6 \<or> m = 9 \<or> m = 11 then 30 else 31)"

definition valid_datetime :: "datetime \<Rightarrow> bool" where
  "valid_datetime d \<longleftrightarrow>
     1 \<le> dt_year d \<and> dt_year d \<le> 9999 \<and> 1 \<le> dt_month d \<and> dt_month d \<le> 12
     \<and> 1 \<le> dt_day d \<and> dt_day d \<le> days_in_month (dt_year d) (dt_month d)
     \<and> dt_hour d < 24 \<and> dt_minute d < 60 \<and> dt_second d < 60 \<and> dt_microsecond d < 1000000"

definition days_before_year :: "nat \<Rightarrow> nat" where
  "days_before_year y = (let p = y - 1 in p * 365 + p div 4 + p div 400 - p div 100)"

fun days_before_month :: "nat \<Rightarrow> nat \<Rightarrow> nat" where
  "days_before_month y 0 = 0"
| "days_before_month y (Suc m) = (if m = 0 then 0 else days_before_month y m + days_in_month y m)"

definition ymd2ord :: "nat \<Rightarrow> nat \<Rightarrow> nat \<Rightarrow> nat" where
  "ymd2ord y m d = days_before_year y + days_before_month y m + d"

definition to_micros :: "datetime \<Rightarrow> nat" where
  "to_micros d =
     (((ymd2ord (dt_year d) (dt_month d) (dt_day d) * 24 + dt_hour d) * 60 + dt_minute d) * 60
        + dt_second d) * 1000000 + dt_microsecond d"

lemma days_in_month_bounds: "28 \<le> days_in_month y m \<and> days_in_month y m \<le> 31"
  by (simp add: days_in_month_def)

lemma days_before_year_Suc:
  "days_before_year (Suc (Suc p)) = days_before_year (Suc p) + (if is_leap (Suc p) then 366 else 365)"
proof -
  have dec: "p div 100 \<le> p div 4" "Suc p div 100 \<le> Suc p div 4"
    by (simp_all add: div_le_mono2)
  have q4: "Suc p div 4 = p div 4 + (if Suc p mod 4 = 0 then 1 else 0)"
    and q100: "Suc p div 100 = p div 100 + (if Suc p mod 100 = 0 then 1 else 0)"
    and q400: "Suc p div 400 = p div 400 + (if Suc p mod 400 = 0 then 1 else 0)"
    by (simp_all add: div_Suc)
  have m: "Suc p mod 400 = 0 \<Longrightarrow> Suc p mod 100 = 0" "Suc p mod 100 = 0 \<Longrightarrow> Suc p mod 4 = 0"
    using dvd_trans [of 100 400 "Suc p"] dvd_trans [of 4 100 "Suc p"]
    by (simp_all add: mod_eq_0_iff_dvd)
  show ?thesis
    using dec m unfolding days_before_year_def is_leap_def Let_def diff_Suc_1 q4 q100 q400
    by (auto simp: algebra_simps)
qed

lemma days_before_year_mono: "0 < y \<Longrightarrow> y \<le> z \<Longrightarrow> days_before_year y \<le> days_before_year z"
proof (induction z)
  case (Suc z)
  show ?case
  proof (cases "y \<le> z")
    case True
    with Suc.prems obtain p where "z = Suc p" by (cases z) auto
    with Suc True show ?thesis by (simp add: days_before_year_Suc)
  next
    case False
    with Suc.prems have "y = Suc z" by simp
    then show ?thesis by simp
  qed
qed simp

lemma days_before_month_mono: "0 < m \<Longrightarrow> m \<le> n \<Longrightarrow> days_before_month y m \<le> days_before_month y n"
proof (induction n)
  case (Suc n)
  show ?case
  proof (cases "m \<le> n")
    case True
    with Suc show ?thesis by auto
  next
    case False
    with Suc.prems have "m = Suc n" by simp
    then show ?thesis by simp
  qed
qed simp

lemma days_in_year: "days_before_month y 12 + days_in_month y 12 = (if is_leap y then 366 else 365)"
  by (simp add: numeral_eq_Suc days_in_month_def)

lemma ymd2ord_less_year:
  assumes "0 < y" and "y < z" and "0 < m" "m \<le> 12" "d \<le> days_in_month y m" "0 < d'"
  shows "ymd2ord y m d < ymd2ord z n d'"
proof -
  obtain p where p: "y = Suc p" using assms(1) by (cases y) auto
  have "days_before_month y m + d \<le> days_before_month y 12 + days_in_month y 12"
  proof (cases "m = 12")
    case True
    with assms(5) show ?thesis by simp
  next
    case False
    with assms(4) have "m < 12" by simp
    with assms(3) have "days_before_month y (Suc m) \<le> days_before_month y 12"
      by (intro days_before_month_mono) auto
    with assms(3,5) show ?thesis by simp
  qed
  then have "ymd2ord y m d \<le> days_before_year (Suc y)"
    by (simp only: ymd2ord_def days_in_year p days_before_year_Suc)
  also have "\<dots> \<le> days_before_year z"
    using assms(2) by (intro days_before_year_mono) auto
  also have "\<dots> < ymd2ord z n d'"
    using assms(6) by (simp add: ymd2ord_def)
  finally show ?thesis .
qed

lemma ymd2ord_less_month:
  assumes "0 < m" and "m < n" and "d \<le> days_in_month y m" and "0 < d'"
  shows "ymd2ord y m d < ymd2ord y n d'"
proof -
  have "days_before_month y (Suc m) \<le> days_before_month y n"
    using assms by (intro days_before_month_mono) auto
  with assms show ?thesis by (simp add: ymd2ord_def)
qed

lemma ymd2ord_less_day: "d < d' \<Longrightarrow> ymd2ord y m d < ymd2ord y m d'"
  by (simp add: ymd2ord_def)

section \<open>The order of the fields\<close>

definition datetime_less :: "datetime \<Rightarrow> datetime \<Rightarrow> bool" where
  "datetime_less a b \<longleftrightarrow>
     (dt_year a, dt_month a, dt_day a, dt_hour a, dt_minute a, dt_second a, dt_microsecond a)
     < (dt_year b, dt_month b, dt_day b, dt_hour b, dt_minute b, dt_second b, dt_microsecond b)"

lemma pair_less_iff:
  fixes a b :: "'a::linorder" and x y :: "'b::linorder"
  shows "(a, x) < (b, y) \<longleftrightarrow> a < b \<or> (a = b \<and> x < y)"
  by (auto simp: le_less)

lemma positional_less:
  fixes a b x y :: nat
  assumes "x < n" "y < n"
  shows "a * n + x < b * n + y \<longleftrightarrow> a < b \<or> (a = b \<and> x < y)"
proof -
  have "a < b \<Longrightarrow> a * n + x < b * n + y" if "x < n" for a b x y :: nat
  proof -
    assume "a < b"
    then have "Suc a * n \<le> b * n" by (intro mult_le_mono1) simp
    with that show ?thesis by simp
  qed
  with assms show ?thesis by (metis add_less_cancel_left linorder_neqE_nat order_less_asym)
qed

lemma ymd2ord_eq_iff_less:
  assumes "valid_datetime a" "valid_datetime b"
  shows "ymd2ord (dt_year a) (dt_month a) (dt_day a) < ymd2ord (dt_year b) (dt_month b) (dt_day b)
     \<longleftrightarrow> (dt_year a, dt_month a, dt_day a) < (dt_year b, dt_month b, dt_day b)"
  (is "?oa < ?ob \<longleftrightarrow> ?ta < ?tb")
proof -
  have fwd: "ymd2ord (dt_year c) (dt_month c) (dt_day c) < ymd2ord (dt_year d) (dt_month d) (dt_day d)"
    if v: "valid_datetime c" "valid_datetime d"
      and lt: "(dt_year c, dt_month c, dt_day c) < (dt_year d, dt_month d, dt_day d)" for c d
  proof -
    consider "dt_year c < dt_year d" | "dt_year c = dt_year d" "dt_month c < dt_month d"
      | "dt_year c = dt_year d" "dt_month c = dt_month d" "dt_day c < dt_day d"
      using lt by (auto simp: less_prod_def le_less)
    then show ?thesis
      using v by cases (auto simp: valid_datetime_def
          intro!: ymd2ord_less_year ymd2ord_less_month ymd2ord_less_day)
  qed
  show ?thesis
  proof
    assume lt: "?oa < ?ob"
    show "?ta < ?tb"
    proof (rule ccontr)
      assume "\<not> ?ta < ?tb"
      then consider "?tb < ?ta" | "?ta = ?tb" by fastforce
      then show False
        using fwd [of b a] assms lt by cases auto
    qed
  qed (use fwd assms in blast)
qed

lemma ymd2ord_eq_iff:
  assumes "valid_datetime a" "valid_datetime b"
  shows "ymd2ord (dt_year a) (dt_month a) (dt_day a) = ymd2ord (dt_year b) (dt_month b) (dt_day b)
     \<longleftrightarrow> (dt_year a, dt_month a, dt_day a) = (dt_year b, dt_month b, dt_day b)"
  using ymd2ord_eq_iff_less [OF assms] ymd2ord_eq_iff_less [OF assms(2,1)]
  by (metis linorder_neq_iff order_less_irrefl)

lemma to_micros_less_iff:
  assumes "valid_datetime a" "valid_datetime b"
  shows "to_micros a < to_micros b \<longleftrightarrow> datetime_less a b"
proof -
  have bounds: "dt_hour a < 24" "dt_hour b < 24" "dt_minute a < 60" "dt_minute b < 60"
    "dt_second a < 60" "dt_second b < 60" "dt_microsecond a < 1000000" "dt_microsecond b < 1000000"
    using assms by (simp_all add: valid_datetime_def)
  have eq: "x * n + u = y * n + v \<longleftrightarrow> x = y \<and> u = v" if "u < n" "v < n" for x y u v n :: nat
    using positional_less [OF that, of x y] positional_less [OF that(2,1), of y x]
    by (metis linorder_neq_iff order_less_irrefl)
  have ymd: "(dt_year a, dt_month a, dt_day a, t) < (dt_year b, dt_month b, dt_day b, t')
    \<longleftrightarrow> ymd2ord (dt_year a) (dt_month a) (dt_day a) < ymd2ord (dt_year b) (dt_month b) (dt_day b)
      \<or> (ymd2ord (dt_year a) (dt_month a) (dt_day a) = ymd2ord (dt_year b) (dt_month b) (dt_day b) \<and> t < t')"
    for t t' :: "nat \<times> nat \<times> nat \<times> nat"
    unfolding ymd2ord_eq_iff_less [OF assms] ymd2ord_eq_iff [OF assms] pair_less_iff by blast
  show ?thesis
    unfolding to_micros_def datetime_less_def ymd
    by (simp only: pair_less_iff positional_less eq bounds) blast
qed

section \<open>The text of a timestamp\<close>

fun digits :: "nat \<Rightarrow> nat \<Rightarrow> string" where
  "digits 0 v = []"
| "digits (Suc w) v = digits w (v div 10) @ [digit_char (v mod 10)]"

definition isoformat :: "datetime \<Rightarrow> string" where
  "isoformat d =
     digits 4 (dt_year d) @ ''-'' @ digits 2 (dt_month d) @ ''-'' @ digits 2 (dt_day d) @ ''T''
     @ digits 2 (dt_hour d) @ '':'' @ digits 2 (dt_minute d) @ '':'' @ digits 2 (dt_second d)
     @ (if dt_microsecond d = 0 then [] else ''.'' @ digits 6 (dt_microsecond d)) @ ''+00:00''"

lemma length_digits [simp]: "length (digits w v) = w"
  by (induction w arbitrary: v) auto

lemma append_less_append_iff:
  fixes xs ys :: "'a::linorder list"
  shows "length xs = length ys \<Longrightarrow> xs @ s < ys @ t \<longleftrightarrow> xs < ys \<or> (xs = ys \<and> s < t)"
  by (induction xs ys rule: list_induct2) auto

lemma digit_char_less: "u < 10 \<Longrightarrow> v < 10 \<Longrightarrow> digit_char u < digit_char v \<longleftrightarrow> u < v"
  by (simp add: code_less_iff [symmetric] code_digit_char)

lemma digit_char_eq: "u < 10 \<Longrightarrow> v < 10 \<Longrightarrow> digit_char u = digit_char v \<longleftrightarrow> u = v"
  by (simp add: code_inject [symmetric] code_digit_char)

lemma digits_less_eq_iff:
  "u < 10 ^ w \<Longrightarrow> v < 10 ^ w \<Longrightarrow>
     (digits w u < digits w v \<longleftrightarrow> u < v) \<and> (digits w u = digits w v \<longleftrightarrow> u = v)"
proof (induction w arbitrary: u v)
  case (Suc w)
  have "u div 10 < 10 ^ w" "v div 10 < 10 ^ w" using Suc.prems by auto
  note IH = Suc.IH [OF this]
  have "u < v \<longleftrightarrow> u div 10 < v div 10 \<or> (u div 10 = v div 10 \<and> u mod 10 < v mod 10)"
    using positional_less [of "u mod 10" 10 "v mod 10" "u div 10" "v div 10"] by simp
  moreover have "u = v \<longleftrightarrow> u div 10 = v div 10 \<and> u mod 10 = v mod 10"
    by (metis div_mult_mod_eq)
  ultimately
  show ?case using IH
    by (simp add: append_less_append_iff digit_char_less digit_char_eq)
qed simp

lemma digits_append_less_iff:
  assumes "u < 10 ^ w" "v < 10 ^ w"
  shows "digits w u @ s < digits w v @ t \<longleftrightarrow> u < v \<or> (u = v \<and> s < t)"
  using digits_less_eq_iff [OF assms] by (simp add: append_less_append_iff)

lemma micro_suffix_less_iff:
  assumes "u < 1000000" "v < 1000000"
  shows "(if u = 0 then [] else ''.'' @ digits 6 u) @ ''+00:00''
           < (if v = 0 then [] else ''.'' @ digits 6 v) @ ''+00:00'' \<longleftrightarrow> u < v"
  using assms by (auto simp: digits_append_less_iff less_char_def)

lemma isoformat_less_iff:
  assumes "valid_datetime a" "valid_datetime b"
  shows "isoformat a < isoformat b \<longleftrightarrow> datetime_less a b"
proof -
  have dim: "dt_day c \<le> 31" if "valid_datetime c" for c
    using that days_in_month_bounds [of "dt_year c" "dt_month c"] by (simp add: valid_datetime_def)
  have f: "dt_year c < 10 ^ 4" "dt_month c < 10 ^ 2" "dt_day c < 10 ^ 2" "dt_hour c < 10 ^ 2"
    "dt_minute c < 10 ^ 2" "dt_second c < 10 ^ 2" "dt_microsecond c < 1000000"
    if "valid_datetime c" for c
    using that dim [OF that] by (simp_all add: valid_datetime_def)
  note fa = f [OF assms(1)] and fb = f [OF assms(2)]
  have sep: "[c] @ s < [c] @ t \<longleftrightarrow> s < t" for c :: char and s t by simp
  show ?thesis
    unfolding isoformat_def datetime_less_def pair_less_iff
    by (simp only: digits_append_less_iff fa(1-6) fb(1-6) sep
        micro_suffix_less_iff [OF fa(7) fb(7)])
qed

end
