(* ===== verification/Data_Properties.thy ===== *)
theory Data_Properties
  imports Timestamps Store_Safety Samples
begin

text \<open>
  Properties of the data the controller persists: the order of its timestamps, redaction, sealed
  invitations, and the replay of the event log.
\<close>

section \<open>Timestamps\<close>

text \<open>
  The condition \<open>expires_at > ?\<close> of the SQL statements, which compare the ISO-8601 texts that
  \<open>isoformat\<close> wrote for two UTC times.
\<close>

definition sql_later :: "datetime \<Rightarrow> datetime \<Rightarrow> bool" where
  "sql_later expires_at now \<longleftrightarrow> isoformat now < isoformat expires_at"

text \<open>
  The database compares timestamps as texts.  For any two valid UTC times the comparison of
  the texts, with or without a microsecond part, is the comparison of the instants, so that the
  rows may carry the instants.
\<close>

theorem timestamp_text_order:
  assumes "valid_datetime a" and "valid_datetime b"
  shows "sql_later a b \<longleftrightarrow> to_micros b < to_micros a"
  using isoformat_less_iff [OF assms(2,1)] to_micros_less_iff [OF assms(2,1)] by (simp add: sql_later_def)

theorem timestamp_text_order_witness:
  "sql_later \<lparr>dt_year = 2024, dt_month = 2, dt_day = 29, dt_hour = 23, dt_minute = 59, dt_second = 59, dt_microsecond = 1\<rparr>
     \<lparr>dt_year = 2024, dt_month = 2, dt_day = 29, dt_hour = 23, dt_minute = 59, dt_second = 59, dt_microsecond = 0\<rparr>"
  by (subst timestamp_text_order)
    (simp_all add: valid_datetime_def days_in_month_def is_leap_def to_micros_def)

section \<open>Redaction\<close>

text \<open>
  A payload that passes \<open>sanitize_object\<close> is safe to persist: at every depth a sensitive key
  carries only the redaction mark, every text is the redacted form of a text of at most 4000
  characters, nesting and collections are bounded, every number is finite, and its JSON text
  exists and is within the size limit.
\<close>

theorem persisted_payload_clean:
  assumes "sanitize_object fr value max_bytes = Inr kvs"
  shows "clean (PDict kvs) 0 \<and> (\<exists>text. dumps fr (PDict kvs) = Some text \<and> length text \<le> max_bytes)"
proof -
  have v: "sanitize_value value [] 0 = Inr (PDict kvs)"
    and "\<exists>text. dumps fr (PDict kvs) = Some text \<and> length text \<le> max_bytes"
    using assms by (auto simp: sanitize_object_def split: sum.splits pyval.splits option.splits if_splits)
  with sanitize_clean(1) [OF v] show ?thesis by simp
qed

theorem persisted_payload_clean_witness:
  "clean (PDict [(KStr ''n'', PInt 3), (KStr ''pwd'', redacted)]) 0"
proof -
  have "sanitize_object (\<lambda>m e. show_int m) (PDict [(KStr ''n'', PInt 3), (KStr ''pwd'', PInt 7)]) 100
      = Inr [(KStr ''n'', PInt 3), (KStr ''pwd'', redacted)]"
    by code_simp
  from persisted_payload_clean [OF this] show ?thesis by (rule conjunct1)
qed

section \<open>Sealed invitations\<close>

definition b64_body :: "char \<Rightarrow> bool" where
  "b64_body c \<longleftrightarrow> alnum c \<or> c = CHR ''_'' \<or> c = CHR ''-''"

lemma b64_body_char: "n < 64 \<Longrightarrow> b64_body (b64_char n)"
  using b64_char_code [of n]
  by (auto simp: b64_body_def alnum_def is_lower_def is_upper_def is_digit_def b64_char_def split: if_splits)

lemma b64_shape:
  "bytes_ok bs \<Longrightarrow> \<exists>body n. urlsafe_b64encode bs = body @ replicate n (CHR ''='') \<and> n \<le> 2 \<and> list_all b64_body body"
proof (induction bs rule: urlsafe_b64encode.induct)
  case 1
  then show ?case by (intro exI [of _ "[]"] exI [of _ 0]) simp
next
  case (2 a)
  then show ?case
    using sextets [of a 0 0]
    by (intro exI [of _ "[b64_char (a div 4), b64_char (a mod 4 * 16)]"] exI [of _ 2]) (simp add: b64_body_char numeral_2_eq_2)
next
  case (3 a b)
  then show ?case
    using sextets [of a b 0]
    by (intro exI [of _ "[b64_char (a div 4), b64_char (a mod 4 * 16 + b div 16), b64_char (b mod 16 * 4)]"] exI [of _ 1])
      (simp add: b64_body_char)
next
  case (4 a b c rest)
  then obtain body n where r: "urlsafe_b64encode rest = body @ replicate n (CHR ''='')" "n \<le> 2" "list_all b64_body body"
    by auto
  with 4 sextets [of a b c] show ?case
    by (intro exI [of _ "[b64_char (a div 4), b64_char (a mod 4 * 16 + b div 16), b64_char (b mod 16 * 4 + c div 64),
          b64_char (c mod 64)] @ body"] exI [of _ n]) (simp add: b64_body_char)
qed

lemma length_b64: "length (urlsafe_b64encode bs) = 4 * ((length bs + 2) div 3)"
proof (induction bs rule: urlsafe_b64encode.induct)
  case (4 a b c rest)
  have "(length (a # b # c # rest) + 2) div 3 = Suc ((length rest + 2) div 3)" by simp
  with 4 show ?case by simp
qed simp_all

lemma seal_succeeds:
  assumes "protected = nonce @ ae_encrypt ae nonce (ic_dump ic command) (aad prin key)" and "bytes_ok protected"
    and "46 \<le> length protected" and "length protected \<le> 3072"
  shows "seal_invite_command ae ic nonce command prin key = Inr (SealedInviteUserCommand (urlsafe_b64encode protected))"
proof -
  obtain body n where s: "urlsafe_b64encode protected = body @ replicate n (CHR ''='')" "n \<le> 2" "list_all b64_body body"
    using b64_shape [OF assms(2)] by blast
  have "bounded 64 4096 (urlsafe_b64encode protected)" using assms(3,4) by (auto simp: bounded_def length_b64)
  moreover have "\<exists>n \<le> 2. list_all b64_body (take (length (urlsafe_b64encode protected) - n) (urlsafe_b64encode protected))
      \<and> drop (length (urlsafe_b64encode protected) - n) (urlsafe_b64encode protected) = replicate n (CHR ''='')"
    using s by (intro exI [of _ n]) simp
  ultimately have "validate_command [] (SealedInviteUserCommand (urlsafe_b64encode protected)) = Inr ()"
    by (simp add: b64_body_def [abs_def])
  then show ?thesis by (simp add: seal_invite_command_def flip: assms(1))
qed

text \<open>
  An invitation survives sealing and is bound to its request.  With an authenticated cipher
  that returns bytes, decrypts what it encrypted and rejects other associated data, sealing a
  command of ordinary size succeeds; opening the result as the same principal under the same key
  gives the command back, and opening it for any other principal or idempotency key fails.
\<close>

theorem seal_open_bound:
  assumes nonce: "length nonce = NONCE_BYTES" "bytes_ok nonce"
    and ct: "ct = ae_encrypt ae nonce (ic_dump ic command) (aad prin key)"
    and bytes: "bytes_ok ct" "34 \<le> length ct" "length ct \<le> 3060"
    and decrypts: "\<And>data. ae_decrypt ae nonce ct data = (if data = aad prin key then Some (ic_dump ic command) else None)"
    and codec: "ic_validate ic (ic_dump ic command) = Some command"
    and nul: "CHR 0x00 \<notin> set key"
  shows "\<exists>ciphertext. seal_invite_command ae ic nonce command prin key = Inr (SealedInviteUserCommand ciphertext)
    \<and> (\<forall>prin' key'. CHR 0x00 \<notin> set key' \<longrightarrow> open_invite_command ae ic ciphertext prin' key' =
         (if prin' = prin \<and> key' = key then Inr command
          else Inl (PayloadProtectionError ''controller invite payload could not be authenticated'')))"
proof -
  have ok: "bytes_ok (nonce @ ct)" using nonce(2) bytes(1) by simp
  have "seal_invite_command ae ic nonce command prin key = Inr (SealedInviteUserCommand (urlsafe_b64encode (nonce @ ct)))"
    by (rule seal_succeeds) (use ok ct bytes nonce in \<open>simp_all add: NONCE_BYTES_def\<close>)
  moreover have "open_invite_command ae ic (urlsafe_b64encode (nonce @ ct)) prin' key' =
      (if prin' = prin \<and> key' = key then Inr command
       else Inl (PayloadProtectionError ''controller invite payload could not be authenticated''))"
    if "CHR 0x00 \<notin> set key'" for prin' key'
  proof -
    have "aad prin' key' = aad prin key \<longleftrightarrow> prin' = prin \<and> key' = key"
      using aad_inject [of prin' key' prin key] nul that by auto
    then show ?thesis
      using nonce(1) bytes(2) codec by (simp add: open_invite_command_def b64decode_encode [OF ok] decrypts Let_def)
  qed
  ultimately show ?thesis by blast
qed

definition sample_invite :: invite_user where
  "sample_invite = \<lparr>inv_email = ''a@b.co'', inv_display_name = ''Ann'', inv_groups = []\<rparr>"

definition sample_nonce :: bytes where
  "sample_nonce = [0, 1, 2, 3, 4, 5, 6, 7, 8, 9, 10, 11]"

lemma sample_tag_prefix:
  "take (length (sample_tag d')) (sample_tag d @ rest) = sample_tag d' \<Longrightarrow> d' = d"
proof (induction d arbitrary: d')
  case Nil
  then show ?case by (cases d') (auto simp: sample_tag_def)
next
  case (Cons b d)
  then show ?case by (cases d') (auto simp: sample_tag_def)
qed

lemma sample_aead_laws:
  "ae_decrypt sample_aead nonce (ae_encrypt sample_aead nonce text data) data' = (if data' = data then Some text else None)"
proof (cases "data' = data")
  case True
  then show ?thesis by (simp add: sample_aead_def Let_def)
next
  case False
  then have "take (length (sample_tag data')) (sample_tag data @ text @ replicate 16 0) \<noteq> sample_tag data'"
    using sample_tag_prefix by blast
  with False show ?thesis by (simp add: sample_aead_def Let_def)
qed

lemma sample_tag_facts:
  "length (sample_tag data) = 2 * length data + 1" "bytes_ok data \<Longrightarrow> bytes_ok (sample_tag data)"
  by (induction data) (simp_all add: sample_tag_def)

lemma utf8_bytes_ok: "bytes_ok (utf8 s)"
proof (induction s)
  case (Cons c s)
  have "code c < 256" by (rule code_lt_256)
  then show ?case using Cons by (auto simp: utf8_char_def)
qed simp

theorem seal_open_bound_witness:
  "\<exists>ciphertext. seal_invite_command sample_aead sample_codec sample_nonce sample_invite ''alice'' ''key-0001''
       = Inr (SealedInviteUserCommand ciphertext)
     \<and> open_invite_command sample_aead sample_codec ciphertext ''alice'' ''key-0001'' = Inr sample_invite
     \<and> open_invite_command sample_aead sample_codec ciphertext ''bob'' ''key-0001''
       = Inl (PayloadProtectionError ''controller invite payload could not be authenticated'')"
proof -
  let ?ct = "ae_encrypt sample_aead sample_nonce (ic_dump sample_codec sample_invite) (aad ''alice'' ''key-0001'')"
  have n: "length sample_nonce = NONCE_BYTES" "bytes_ok sample_nonce" by (simp_all add: sample_nonce_def NONCE_BYTES_def)
  have aad_ok: "bytes_ok (aad ''alice'' ''key-0001'')" by (simp add: aad_def AAD_VERSION_def utf8_bytes_ok del: utf8_simps)
  have ct: "?ct = sample_tag (aad ''alice'' ''key-0001'') @ ic_dump sample_codec sample_invite @ replicate 16 0"
    by (simp add: sample_aead_def)
  have b: "bytes_ok ?ct"
    unfolding ct by (simp add: sample_tag_facts aad_ok sample_codec_def utf8_bytes_ok del: utf8_simps)
      (simp add: bytes_ok_def list_all_iff)
  have l: "34 \<le> length ?ct" "length ?ct \<le> 3060"
    unfolding ct by (simp_all add: sample_tag_facts aad_def AAD_VERSION_def sample_codec_def sample_invite_def utf8_char_def code_def)
  have codec: "ic_validate sample_codec (ic_dump sample_codec sample_invite) = Some sample_invite"
    by code_simp
  have dec: "ae_decrypt sample_aead sample_nonce ?ct data =
      (if data = aad ''alice'' ''key-0001'' then Some (ic_dump sample_codec sample_invite) else None)" for data
    by (rule sample_aead_laws)
  have nul: "CHR 0x00 \<notin> set ''key-0001''" by simp
  from seal_open_bound [OF n refl b l dec codec nul] nul show ?thesis by fastforce
qed

section \<open>Replay of the event log\<close>

lemma events_sorted:
  assumes "store_inv s"
  shows "sorted_wrt (<) (map ev_sequence (st_events s))"
  using assms by (simp add: store_inv_def logs_inv_def log_ok_def del: upt_Suc)

text \<open>
  Replaying events loses and repeats nothing.  A page is at most the limit long and lists the
  job's events after the given sequence in order; what remains after it is exactly what the next
  call returns when it starts from the last sequence of the page, and an empty page means that
  nothing remains.
\<close>

theorem event_pages_complete:
  assumes "store_inv s" and "events_after jid n limit s = Inr page"
  shows "int (length page) \<le> limit
    \<and> filter (\<lambda>e. ev_job_id e = jid \<and> n < ev_sequence e) (st_events s)
        = page @ (if page = [] then [] else
            filter (\<lambda>e. ev_job_id e = jid \<and> ev_sequence (last page) < ev_sequence e) (st_events s))"
proof -
  let ?all = "filter (\<lambda>e. ev_job_id e = jid \<and> n < ev_sequence e) (st_events s)"
  have srt: "sorted_wrt (<) (map ev_sequence ?all)"
    using events_sorted [OF assms(1)] by (simp add: sorted_wrt_map sorted_wrt_filter)
  then have "sort_key ev_sequence ?all = ?all"
    by (intro sort_key_id_if_sorted) (rule strict_sorted_imp_sorted)
  with assms(2) have page: "page = take (nat limit) ?all" and lim: "1 \<le> limit"
    by (auto simp: events_after_def split: if_splits)
  have rest: "filter (\<lambda>e. ev_job_id e = jid \<and> ev_sequence (last page) < ev_sequence e) (st_events s) = drop (nat limit) ?all"
    if ne: "page \<noteq> []"
  proof -
    have "?all = page @ drop (nat limit) ?all" unfolding page by (rule append_take_drop_id [symmetric])
    also have "page = butlast page @ [last page]" using ne by simp
    finally have split: "?all = butlast page @ [last page] @ drop (nat limit) ?all" by (simp only: append.assoc)
    have "n < ev_sequence (last page)" using last_in_set [OF ne] by (auto simp: page dest: in_set_takeD)
    then have "filter (\<lambda>e. ev_job_id e = jid \<and> ev_sequence (last page) < ev_sequence e) (st_events s)
        = filter (\<lambda>e. ev_sequence (last page) < ev_sequence e) ?all"
      by (auto intro: filter_cong)
    also have "\<dots> = drop (nat limit) ?all" by (rule take_filter_sorted_split [OF srt split])
    finally show ?thesis .
  qed
  show ?thesis
  proof (cases "page = []")
    case True
    with page lim have "?all = []" by simp
    then show ?thesis using True lim by simp
  next
    case False
    then show ?thesis using rest page lim by simp
  qed
qed

definition swept_calls :: "(int \<times> store_call) list" where
  "swept_calls = [(0, SubmitJob (sample_request ''k'' ''m'') ''a'' None None ''j'' []), (1, ClaimJob ''j'' ''w'' 1),
     (2, RequestCancel ''j'' ''a''), (2000000, ClaimNext ''w'' 1)]"

lemma map_sum_InrD: "map_sum g f x = Inr y \<Longrightarrow> \<exists>a. x = Inr a"
  by (cases x) auto

lemma swept_page: "map_sum id length (events_after ''j'' 0 1 (run_calls sample_env swept_calls empty_store)) = Inr 1"
  by code_simp

theorem event_pages_complete_witness:
  "\<exists>page. events_after ''j'' 0 1 (run_calls sample_env swept_calls empty_store) = Inr page \<and> int (length page) \<le> 1"
proof -
  obtain page where p: "events_after ''j'' 0 1 (run_calls sample_env swept_calls empty_store) = Inr page"
    using map_sum_InrD [OF swept_page] by blast
  have "int (length page) \<le> 1"
    by (rule conjunct1 [OF event_pages_complete [OF run_inv [OF empty_store_inv] p]])
  with p show ?thesis by (intro exI [of _ page] conjI)
qed

end
