(* ===== verification/Worker.thy ===== *)
theory Worker
  imports Store_Safety
begin

text \<open>
  \<open>toolkit/controller/worker.py\<close>: the worker that claims one job, runs its handler in process or
  in a child process, and settles the job.  What the handler returns or raises, what the child
  process sends, and the calls other clients and the heartbeat make on the store meanwhile are
  arguments; the exceptions are values of \<open>op_error\<close>.  The locale \<open>fenced\<close> is the contract of a
  write that needs a live lease, which the worker's own writes rely on.
\<close>

section \<open>Exceptions\<close>

datatype op_error =
    OperationCancelledError
  | OperationLeaseLostError
  | OperationHandlerNotFoundError
  | OperationWorkerShutdownError
  | IsolatedOperationError string
  | SafeOperationError error_code string
  | StoreRaised store_error
  | OtherException string

fun store_error_name :: "store_error \<Rightarrow> string" where
  "store_error_name JobNotFoundError = ''JobNotFoundError''"
| "store_error_name (JobConflictError _) = ''JobConflictError''"
| "store_error_name JobQueueLimitError = ''JobQueueLimitError''"
| "store_error_name IdempotencyConflictError = ''IdempotencyConflictError''"
| "store_error_name PlanNotFoundError = ''PlanNotFoundError''"
| "store_error_name (ApprovalError _) = ''ApprovalError''"
| "store_error_name (BootstrapCapabilityError _) = ''BootstrapCapabilityError''"
| "store_error_name (PayloadError (PayloadProtectionError _)) = ''PayloadProtectionError''"
| "store_error_name (PayloadError CiphertextInvalid) = ''ValidationError''"
| "store_error_name (StoreValueError _) = ''ValueError''"
| "store_error_name (StoreValidationError _) = ''ValidationError''"
| "store_error_name (IntegrityError _) = ''IntegrityError''"
| "store_error_name (StoreSanitizationError _) = ''SanitizationError''"

fun type_name :: "op_error \<Rightarrow> string" where
  "type_name OperationCancelledError = ''OperationCancelledError''"
| "type_name OperationLeaseLostError = ''OperationLeaseLostError''"
| "type_name OperationHandlerNotFoundError = ''OperationHandlerNotFoundError''"
| "type_name OperationWorkerShutdownError = ''OperationWorkerShutdownError''"
| "type_name (IsolatedOperationError _) = ''IsolatedOperationError''"
| "type_name (SafeOperationError _ _) = ''SafeOperationError''"
| "type_name (StoreRaised e) = store_error_name e"
| "type_name (OtherException n) = n"

section \<open>The handler registry\<close>

type_synonym 'h registry = "(job_kind \<times> 'h) list"

definition register :: "job_kind \<Rightarrow> 'h \<Rightarrow> 'h registry \<Rightarrow> op_error + 'h registry" where
  "register kind handler reg =
     (if kind \<in> fst ` set reg then Inl (OtherException ''ValueError'') else Inr (reg @ [(kind, handler)]))"

definition resolve :: "job_kind \<Rightarrow> 'h registry \<Rightarrow> op_error + 'h" where
  "resolve kind reg = (case map_of reg kind of None \<Rightarrow> Inl OperationHandlerNotFoundError | Some h \<Rightarrow> Inr h)"

definition registered_kinds :: "'h registry \<Rightarrow> job_kind set" where
  "registered_kinds reg = fst ` set reg"

section \<open>The operation context\<close>

record op_context =
  cx_job_id :: string
  cx_worker_id :: string
  cx_lease_generation :: nat
  cx_lease_seconds :: int
  cx_actor :: string

text \<open>
  \<open>log\<close> and \<open>check_cancelled\<close> also return whether they marked the lease as lost.  The flag the
  heartbeat thread may have set is the argument \<open>lost\<close>.
\<close>

definition context_log ::
  "store_env \<Rightarrow> op_context \<Rightarrow> event_level \<Rightarrow> string \<Rightarrow> fields \<Rightarrow> int \<Rightarrow> store \<Rightarrow> (op_error + unit) \<times> bool \<times> store" where
  "context_log env cx level message payload now s =
     (case sanitize_object (env_float_repr env) (PDict payload) MAX_EVENT_PAYLOAD_BYTES of
        Inl e \<Rightarrow> (Inl (StoreRaised (StoreSanitizationError e)), False, s)
      | Inr safe \<Rightarrow>
          (case append_event env (cx_job_id cx) level (sanitize_message message) safe
                  (Some (cx_worker_id cx)) (Some (cx_lease_generation cx)) now s of
             (Inl e, s') \<Rightarrow>
               (if is_job_conflict e then (Inl OperationLeaseLostError, True, s') else (Inl (StoreRaised e), False, s'))
           | (Inr _, s') \<Rightarrow> (Inr (), False, s')))"

definition check_cancelled :: "op_context \<Rightarrow> bool \<Rightarrow> int \<Rightarrow> store \<Rightarrow> (op_error + unit) \<times> bool" where
  "check_cancelled cx lost now s =
     (if lost then (Inl OperationLeaseLostError, True)
      else case assert_lease (cx_job_id cx) (cx_worker_id cx) (cx_lease_generation cx) now s of
             Inl e \<Rightarrow> (if is_job_conflict e then (Inl OperationLeaseLostError, True) else (Inl (StoreRaised e), False))
           | Inr rec \<Rightarrow>
               (if jr_state rec = CANCEL_REQUESTED then (Inl OperationCancelledError, False) else (Inr (), False)))"

text \<open>One beat of \<open>_LeaseHeartbeat._run\<close>: whether the thread goes on, and the store.\<close>

definition heartbeat :: "op_context \<Rightarrow> int \<Rightarrow> store \<Rightarrow> bool \<times> store" where
  "heartbeat cx now s =
     (case renew_lease (cx_job_id cx) (cx_worker_id cx) (cx_lease_generation cx) (cx_lease_seconds cx) now s of
        (Inl _, s') \<Rightarrow> (False, s') | (Inr _, s') \<Rightarrow> (True, s'))"

section \<open>The child process\<close>

datatype child_message =
    Ready
  | Succeeded fields
  | ChildCancelled
  | ChildLeaseLost
  | ChildSafeError error_code string
  | ChildError string
  | Malformed

text \<open>What \<open>_isolated_operation_entry\<close> sends for what the handler returned or raised.\<close>

definition child_reply ::
  "store_env \<Rightarrow> op_context \<Rightarrow> op_error + fields \<Rightarrow> int \<Rightarrow> store \<Rightarrow> child_message" where
  "child_reply env cx outcome now s =
     (let reply = (\<lambda>e. case e of
            OperationCancelledError \<Rightarrow> ChildCancelled
          | OperationLeaseLostError \<Rightarrow> ChildLeaseLost
          | SafeOperationError ec message \<Rightarrow> ChildSafeError ec (take 500 (sanitize_message message))
          | _ \<Rightarrow> ChildError (take 128 (sanitize_message (type_name e))))
      in case outcome of
           Inl e \<Rightarrow> reply e
         | Inr result \<Rightarrow>
             (case sanitize_object (env_float_repr env) (PDict result) MAX_RESULT_BYTES of
                Inl e \<Rightarrow> reply (StoreRaised (StoreSanitizationError e))
              | Inr safe \<Rightarrow>
                  (case fst (check_cancelled cx False now s) of Inl e \<Rightarrow> reply e | Inr _ \<Rightarrow> Succeeded safe)))"

fun decode_reply :: "child_message option \<Rightarrow> op_error + fields" where
  "decode_reply None = Inl (IsolatedOperationError ''OperationProcessExit'')"
| "decode_reply (Some (Succeeded result)) = Inr result"
| "decode_reply (Some ChildCancelled) = Inl OperationCancelledError"
| "decode_reply (Some ChildLeaseLost) = Inl OperationLeaseLostError"
| "decode_reply (Some (ChildSafeError ec message)) = Inl (SafeOperationError ec message)"
| "decode_reply (Some (ChildError n)) = Inl (IsolatedOperationError n)"
| "decode_reply (Some _) = Inl (IsolatedOperationError ''OperationProtocolError'')"

text \<open>
  One round of the parent's polling loop, after the store calls others made since the last one:
  a message (None at end of file), the exit of the child with the message left in the pipe, or a
  timeout of the poll with the clock, the stop flag and whether the deadline has passed.
\<close>

datatype poll =
    Received "child_message option"
  | Exited "child_message option"
  | Waiting int bool bool bool

fun await_reply ::
  "store_env \<Rightarrow> op_context \<Rightarrow> job_kind \<Rightarrow> ((int \<times> store_call) list \<times> poll) list \<Rightarrow> store
     \<Rightarrow> ((op_error + child_message option) \<times> store) option" where
  "await_reply env cx kind [] s = None"
| "await_reply env cx kind ((calls, p) # rest) s =
     (let s' = run_calls env calls s
      in case p of
           Received m \<Rightarrow> (if m = Some Ready then await_reply env cx kind rest s' else Some (Inr m, s'))
         | Exited m \<Rightarrow> Some (Inr m, s')
         | Waiting now lost stop late \<Rightarrow>
             (if stop \<and> kind \<noteq> SECRET_ROTATION then Some (Inl OperationWorkerShutdownError, s')
              else case (if kind \<noteq> SECRET_ROTATION then fst (check_cancelled cx lost now s') else Inr ()) of
                     Inl e \<Rightarrow> Some (Inl e, s')
                   | Inr _ \<Rightarrow>
                       (if late
                        then Some (Inl (SafeOperationError OPERATION_FAILED ''Operation exceeded its execution deadline''), s')
                        else await_reply env cx kind rest s')))"

definition run_isolated ::
  "store_env \<Rightarrow> op_context \<Rightarrow> job_kind \<Rightarrow> ((int \<times> store_call) list \<times> poll) list \<Rightarrow> store
     \<Rightarrow> ((op_error + fields) \<times> store) option" where
  "run_isolated env cx kind polls s =
     map_option (\<lambda>(r, s'). (case r of Inl e \<Rightarrow> Inl e | Inr m \<Rightarrow> decode_reply m, s')) (await_reply env cx kind polls s)"

section \<open>One job\<close>

text \<open>
  The inputs of one \<open>run_once\<close>: clock readings, the lost flag at the two checks, the calls on the
  store while the handler runs and before the final transition, and how the handler ends.
\<close>

datatype execution =
    InProcess "op_error + fields"
  | Isolated "((int \<times> store_call) list \<times> poll) list"

record attempt =
  at_claim :: int
  at_log :: int
  at_calls :: "(int \<times> store_call) list"
  at_execution :: execution
  at_check :: int
  at_check_lost :: bool
  at_recheck :: int
  at_recheck_lost :: bool
  at_late_calls :: "(int \<times> store_call) list"
  at_settle :: int

definition is_partial :: "fields \<Rightarrow> bool" where
  "is_partial result \<longleftrightarrow> map_of result (KStr ''outcome'') = Some (PStr ''partial_failure'')"

definition settle ::
  "store_env \<Rightarrow> op_context \<Rightarrow> fields \<Rightarrow> int \<Rightarrow> store \<Rightarrow> (op_error + unit) \<times> store" where
  "settle env cx result now s =
     (let partial = is_partial result
      in case transition env (cx_job_id cx) RUNNING (if partial then PARTIAL_FAILURE else SUCCEEDED) (Some result) None
                (Some (if partial then WARNING else INFO,
                       if partial then ''Job completed with partial failure'' else ''Job succeeded'', []))
                (Some (cx_worker_id cx)) (Some (cx_lease_generation cx)) now s of
           (Inl e, s') \<Rightarrow> (Inl (StoreRaised e), s') | (Inr _, s') \<Rightarrow> (Inr (), s'))"

definition settle_cancelled :: "store_env \<Rightarrow> op_context \<Rightarrow> int \<Rightarrow> store \<Rightarrow> (store_error + unit) \<times> store" where
  "settle_cancelled env cx now s =
     (case transition env (cx_job_id cx) CANCEL_REQUESTED CANCELLED None None (Some (WARNING, ''Job cancelled'', []))
             (Some (cx_worker_id cx)) (Some (cx_lease_generation cx)) now s of
        (Inl e, s') \<Rightarrow> (if is_job_conflict e then Inr () else Inl e, s') | (Inr _, s') \<Rightarrow> (Inr (), s'))"

definition finalize_won_cancellation :: "store_env \<Rightarrow> op_context \<Rightarrow> int \<Rightarrow> store \<Rightarrow> (store_error + unit) \<times> store" where
  "finalize_won_cancellation env cx now s =
     (case assert_lease (cx_job_id cx) (cx_worker_id cx) (cx_lease_generation cx) now s of
        Inl e \<Rightarrow> (if is_job_conflict e then Inr () else Inl e, s)
      | Inr current \<Rightarrow> (if jr_state current = CANCEL_REQUESTED then settle_cancelled env cx now s else (Inr (), s)))"

definition fail_job ::
  "store_env \<Rightarrow> op_context \<Rightarrow> string \<Rightarrow> error_code \<Rightarrow> string \<Rightarrow> int \<Rightarrow> store \<Rightarrow> (store_error + bool) \<times> store" where
  "fail_job env cx error_type ec message now s =
     (case assert_lease (cx_job_id cx) (cx_worker_id cx) (cx_lease_generation cx) now s of
        Inl e \<Rightarrow> (if is_job_conflict e then Inr False else Inl e, s)
      | Inr current \<Rightarrow>
          (let body = \<lparr>eb_code = ec, eb_message = message, eb_details = []\<rparr>
           in if \<not> valid_error_body body then (Inl (StoreValidationError ''ErrorBody''), s)
              else (case transition env (cx_job_id cx) (jr_state current) FAILED None (Some body)
                           (Some (ERROR, ''Job failed ('' @ error_type @ '')'', []))
                           (Some (cx_worker_id cx)) (Some (cx_lease_generation cx)) now s of
                      (Inl e, s') \<Rightarrow> (if is_job_conflict e then Inr False else Inl e, s')
                    | (Inr _, s') \<Rightarrow> (Inr True, s'))))"

text \<open>The \<open>except\<close> clauses of \<open>run_once\<close>, in their order.\<close>

definition handle_error ::
  "store_env \<Rightarrow> op_context \<Rightarrow> op_error \<Rightarrow> int \<Rightarrow> store \<Rightarrow> (store_error + unit) \<times> store" where
  "handle_error env cx err now s =
     (case err of
        OperationCancelledError \<Rightarrow> settle_cancelled env cx now s
      | OperationLeaseLostError \<Rightarrow> (Inr (), s)
      | OperationWorkerShutdownError \<Rightarrow> (Inr (), s)
      | IsolatedOperationError n \<Rightarrow>
          (case fail_job env cx n INTERNAL_ERROR ''Operation failed'' now s of (r, s') \<Rightarrow> (map_sum id (\<lambda>_. ()) r, s'))
      | SafeOperationError ec message \<Rightarrow>
          (case fail_job env cx (type_name err) ec message now s of (r, s') \<Rightarrow> (map_sum id (\<lambda>_. ()) r, s'))
      | _ \<Rightarrow>
          (if (case err of StoreRaised e \<Rightarrow> is_job_conflict e | _ \<Rightarrow> False) then finalize_won_cancellation env cx now s
           else (case fail_job env cx (type_name err) INTERNAL_ERROR ''Operation failed'' now s of
                   (r, s') \<Rightarrow> (map_sum id (\<lambda>_. ()) r, s'))))"

fun job_kind_value :: "job_kind \<Rightarrow> string" where
  "job_kind_value GENERATE = ''GENERATE''"
| "job_kind_value VERIFY = ''VERIFY''"
| "job_kind_value SERVICE_VERIFY = ''SERVICE_VERIFY''"
| "job_kind_value DEPLOY = ''DEPLOY''"
| "job_kind_value RECOVER = ''RECOVER''"
| "job_kind_value DESTROY_INFRA = ''DESTROY_INFRA''"
| "job_kind_value DNS_SYNC = ''DNS_SYNC''"
| "job_kind_value MAINTENANCE = ''MAINTENANCE''"
| "job_kind_value BACKUP_DRILL = ''BACKUP_DRILL''"
| "job_kind_value UPDATE = ''UPDATE''"
| "job_kind_value RESTORE_DRILL = ''RESTORE_DRILL''"
| "job_kind_value HOST_RECONCILE = ''HOST_RECONCILE''"
| "job_kind_value HOST_REMOVE = ''HOST_REMOVE''"
| "job_kind_value CONTAINER_ACTION = ''CONTAINER_ACTION''"
| "job_kind_value SERVICE_ACTION = ''SERVICE_ACTION''"
| "job_kind_value CONFIG_APPLY = ''CONFIG_APPLY''"
| "job_kind_value SECRET_ROTATION = ''SECRET_ROTATION''"
| "job_kind_value WEBHOOK_HEAL = ''WEBHOOK_HEAL''"
| "job_kind_value IDENTITY = ''IDENTITY''"

definition execute ::
  "store_env \<Rightarrow> 'h registry \<Rightarrow> op_context \<Rightarrow> job_kind \<Rightarrow> attempt \<Rightarrow> store \<Rightarrow> ((op_error + fields) \<times> store) option" where
  "execute env reg cx kind at s =
     (case at_execution at of
        InProcess outcome \<Rightarrow>
          (case resolve kind reg of
             Inl e \<Rightarrow> Some (Inl e, s)
           | Inr _ \<Rightarrow>
               (let s' = run_calls env (at_calls at) s
                in Some (case outcome of
                     Inl e \<Rightarrow> Inl e
                   | Inr result \<Rightarrow>
                       (case fst (check_cancelled cx (at_check_lost at) (at_check at) s') of
                          Inl e \<Rightarrow> Inl e | Inr _ \<Rightarrow> Inr result), s')))
      | Isolated polls \<Rightarrow> run_isolated env cx kind polls s)"

definition operate ::
  "store_env \<Rightarrow> 'h registry \<Rightarrow> op_context \<Rightarrow> job_kind \<Rightarrow> attempt \<Rightarrow> store \<Rightarrow> ((op_error + unit) \<times> store) option" where
  "operate env reg cx kind at s =
     (case context_log env cx INFO ''Job started'' [(KStr ''kind'', PStr (job_kind_value kind))] (at_log at) s of
        (Inl e, _, s1) \<Rightarrow> Some (Inl e, s1)
      | (Inr _, _, s1) \<Rightarrow>
          (case execute env reg cx kind at s1 of
             None \<Rightarrow> None
           | Some (Inl e, s2) \<Rightarrow> Some (Inl e, s2)
           | Some (Inr result, s2) \<Rightarrow>
               (case fst (check_cancelled cx (at_recheck_lost at) (at_recheck at) s2) of
                  Inl e \<Rightarrow> Some (Inl e, s2)
                | Inr _ \<Rightarrow> Some (settle env cx result (at_settle at) (run_calls env (at_late_calls at) s2)))))"

definition job_context :: "string \<Rightarrow> int \<Rightarrow> job_record \<Rightarrow> op_context" where
  "job_context w secs job =
     \<lparr>cx_job_id = jr_job_id job, cx_worker_id = w, cx_lease_generation = jr_lease_generation job,
      cx_lease_seconds = secs, cx_actor = jr_actor job\<rparr>"

text \<open>None: the child process has neither replied nor exited yet and the deadline is not reached.\<close>

definition run_once ::
  "store_env \<Rightarrow> 'h registry \<Rightarrow> string \<Rightarrow> int \<Rightarrow> attempt \<Rightarrow> store \<Rightarrow> ((store_error + bool) \<times> store) option" where
  "run_once env reg w secs at s =
     (case claim_next w secs (at_claim at) s of
        (Inl e, s1) \<Rightarrow> Some (Inl e, s1)
      | (Inr None, s1) \<Rightarrow> Some (Inr False, s1)
      | (Inr (Some job), s1) \<Rightarrow>
          (let cx = job_context w secs job
           in case operate env reg cx (request_kind (jr_request job)) at s1 of
                None \<Rightarrow> None
              | Some (Inr _, s2) \<Rightarrow> Some (Inr True, s2)
              | Some (Inl e, s2) \<Rightarrow>
                  (case handle_error env cx e (at_settle at) s2 of
                     (Inl x, s3) \<Rightarrow> Some (Inl x, s3) | (Inr _, s3) \<Rightarrow> Some (Inr True, s3))))"

section \<open>Timeouts and health\<close>

definition LONG_RUNNING_KINDS :: "job_kind list" where
  "LONG_RUNNING_KINDS =
     [DEPLOY, RECOVER, DESTROY_INFRA, HOST_RECONCILE, CONFIG_APPLY, MAINTENANCE, BACKUP_DRILL, RESTORE_DRILL,
      UPDATE, SECRET_ROTATION]"

definition operation_timeout :: "int option \<Rightarrow> job_kind \<Rightarrow> int" where
  "operation_timeout configured kind =
     (case configured of
        Some t \<Rightarrow> t
      | None \<Rightarrow> if kind \<in> set LONG_RUNNING_KINDS then 4 * 60 * 60 * MICROS else 30 * 60 * MICROS)"

record health =
  he_running :: bool
  he_last_heartbeat :: int
  he_consecutive_failures :: nat

definition record_success :: "int \<Rightarrow> health \<Rightarrow> health" where
  "record_success monotonic h = h\<lparr>he_last_heartbeat := monotonic, he_consecutive_failures := 0\<rparr>"

definition record_failure :: "health \<Rightarrow> health" where
  "record_failure h = h\<lparr>he_consecutive_failures := Suc (he_consecutive_failures h)\<rparr>"

definition is_healthy :: "int option \<Rightarrow> int \<Rightarrow> int \<Rightarrow> health \<Rightarrow> bool" where
  "is_healthy stale_after lease_seconds monotonic h \<longleftrightarrow>
     (let threshold = (case stale_after of Some t \<Rightarrow> t | None \<Rightarrow> max (5 * MICROS) (lease_seconds * MICROS div 2))
      in he_running h \<and> he_consecutive_failures h = 0 \<and> monotonic - he_last_heartbeat h \<le> threshold)"

text \<open>One round of \<open>run_forever\<close>: the store, the health record and whether to wait for the poll interval.\<close>

definition forever_round ::
  "store_env \<Rightarrow> 'h registry \<Rightarrow> string \<Rightarrow> int \<Rightarrow> attempt \<Rightarrow> int \<Rightarrow> store \<times> health \<Rightarrow> (bool \<times> store \<times> health) option" where
  "forever_round env reg w secs at monotonic sh =
     (case sh of (s, h) \<Rightarrow>
        let h1 = record_success monotonic h
        in case run_once env reg w secs at s of
             None \<Rightarrow> None
           | Some (Inl e, s') \<Rightarrow> Some (True, s', record_failure h1)
           | Some (Inr worked, s') \<Rightarrow> Some (\<not> worked, s', h1))"

end
