(* ===== verification/Worker_Safety.thy ===== *)
theory Worker_Safety
  imports Worker Samples
begin

text \<open>
  What the worker guarantees about the job it claimed: its writes need a live lease, a worker
  whose job was claimed again changes nothing, and a worker that kept its lease settles the job
  in the state its handler's outcome calls for.
\<close>

section \<open>Writes under a lease\<close>

locale fenced =
  fixes holds :: "'st \<Rightarrow> bool" and run :: "('st, 'e, 'a) action"
  assumes refused: "\<not> holds s \<Longrightarrow> \<exists>e. run s = (Inl e, s)"
begin

lemma success_holds: "run s = (Inr a, s') \<Longrightarrow> holds s"
  using refused by fastforce

lemma changed_holds: "run s = (r, s') \<Longrightarrow> s' \<noteq> s \<Longrightarrow> holds s"
  using refused by fastforce

end

definition holds_lease :: "string \<Rightarrow> string \<Rightarrow> nat \<Rightarrow> int \<Rightarrow> store \<Rightarrow> bool" where
  "holds_lease jid w g now s \<longleftrightarrow> (\<exists>r. fetch_job jid s = Some r \<and> live_lease r w g now)"

lemma not_held_refused:
  assumes "fetch_job jid s = Some r" and "\<not> live_lease r w g now"
  shows "require_live_lease r w g now = Inl (JobConflictError ''job lease is not current'')"
  using assms(2) by (simp add: require_live_lease_Inl)

interpretation renewing: fenced "holds_lease jid w g now" "renew_lease jid w g secs now" for jid w g secs now
proof
  fix s assume "\<not> holds_lease jid w g now s"
  then show "\<exists>e. renew_lease jid w g secs now s = (Inl e, s)"
    by (auto simp: holds_lease_def renew_lease_def renew_body_def row_result_def finish_def write_tx_def
        not_held_refused split: option.splits)
qed

interpretation settling: fenced "holds_lease jid w g now"
    "transition env jid (if running then RUNNING else CANCEL_REQUESTED) target res err ev (Some w) (Some g) now"
  for jid w g now env running target res err ev
proof
  fix s assume "\<not> holds_lease jid w g now s"
  then show "\<exists>e. transition env jid (if running then RUNNING else CANCEL_REQUESTED) target res err ev (Some w) (Some g) now s
      = (Inl e, s)"
    by (auto simp: holds_lease_def transition_def transition_body_def row_result_def finish_def write_tx_def
        not_held_refused split: option.splits sum.splits)
qed

interpretation logging: fenced "holds_lease jid w g now" "append_event env jid level msg payload (Some w) (Some g) now"
  for jid w g now env level msg payload
proof
  fix s assume nh: "\<not> holds_lease jid w g now s"
  show "\<exists>e. append_event env jid level msg payload (Some w) (Some g) now s = (Inl e, s)"
  proof (cases "prepare_event env jid now level msg payload")
    case (Inr ev)
    then have "ev_job_id ev = jid" by (auto simp: prepare_event_def Let_def split: sum.splits if_splits)
    with nh show ?thesis
      by (auto simp: holds_lease_def append_event_def append_event_body_def Inr write_tx_def not_held_refused
          split: option.splits)
  qed (simp add: append_event_def)
qed

section \<open>A superseded worker\<close>

definition superseded :: "op_context \<Rightarrow> store \<Rightarrow> bool" where
  "superseded cx s \<longleftrightarrow> (\<exists>r. fetch_job (cx_job_id cx) s = Some r \<and> cx_lease_generation cx < job_lease_generation r)"

lemma superseded_not_held:
  "superseded cx s \<Longrightarrow> \<not> holds_lease (cx_job_id cx) (cx_worker_id cx) (cx_lease_generation cx) now s"
  by (auto simp: superseded_def holds_lease_def live_lease_iff)

lemma superseded_assert:
  "superseded cx s \<Longrightarrow> assert_lease (cx_job_id cx) (cx_worker_id cx) (cx_lease_generation cx) now s
     = Inl (JobConflictError ''job lease is not current'')"
  using stale_lease_dead(2) by (auto simp: superseded_def)

lemma transition_unheld:
  assumes "\<not> holds_lease jid w g now s" and "expected \<in> {RUNNING, CANCEL_REQUESTED}"
  shows "\<exists>e. transition env jid expected target res err ev (Some w) (Some g) now s = (Inl e, s)"
  using assms settling.refused [of jid w g now s env True] settling.refused [of jid w g now s env False] by auto

lemma superseded_inert:
  assumes "superseded cx s"
  shows "snd (settle_cancelled env cx now s) = s" and "finalize_won_cancellation env cx now s = (Inr (), s)"
    and "fail_job env cx n ec m now s = (Inr False, s)" and "snd (settle env cx result now s) = s"
    and "fst (check_cancelled cx lost now s) = Inl OperationLeaseLostError"
    and "heartbeat cx now s = (False, s)" and "snd (snd (context_log env cx level msg payload now s)) = s"
proof -
  note nh = superseded_not_held [OF assms]
  show "snd (settle_cancelled env cx now s) = s"
    using transition_unheld [OF nh, of CANCEL_REQUESTED env CANCELLED None None "Some (WARNING, ''Job cancelled'', [])" now]
    by (auto simp: settle_cancelled_def)
  show "snd (settle env cx result now s) = s"
  proof -
    have "RUNNING \<in> {RUNNING, CANCEL_REQUESTED}" by simp
    from transition_unheld [OF nh this, of env "if is_partial result then PARTIAL_FAILURE else SUCCEEDED" "Some result" None
        "Some (if is_partial result then WARNING else INFO,
           if is_partial result then ''Job completed with partial failure'' else ''Job succeeded'', [])" now]
    obtain e where "transition env (cx_job_id cx) RUNNING (if is_partial result then PARTIAL_FAILURE else SUCCEEDED)
        (Some result) None (Some (if is_partial result then WARNING else INFO,
           if is_partial result then ''Job completed with partial failure'' else ''Job succeeded'', []))
        (Some (cx_worker_id cx)) (Some (cx_lease_generation cx)) now s = (Inl e, s)" ..
    then show ?thesis unfolding settle_def Let_def by simp
  qed
  show "finalize_won_cancellation env cx now s = (Inr (), s)" "fail_job env cx n ec m now s = (Inr False, s)"
    "fst (check_cancelled cx lost now s) = Inl OperationLeaseLostError"
    by (simp_all add: finalize_won_cancellation_def fail_job_def check_cancelled_def superseded_assert [OF assms])
  show "heartbeat cx now s = (False, s)"
    using renewing.refused [OF nh [of now], of "cx_lease_seconds cx"] by (auto simp: heartbeat_def)
  show "snd (snd (context_log env cx level msg payload now s)) = s"
  proof (cases "sanitize_object (env_float_repr env) (PDict payload) MAX_EVENT_PAYLOAD_BYTES")
    case (Inr safe)
    obtain e where "append_event env (cx_job_id cx) level (sanitize_message msg) safe (Some (cx_worker_id cx))
        (Some (cx_lease_generation cx)) now s = (Inl e, s)"
      using logging.refused [OF nh] by blast
    then show ?thesis by (simp add: context_log_def Inr)
  qed (simp add: context_log_def)
qed

lemma handle_error_superseded: "superseded cx s \<Longrightarrow> snd (handle_error env cx err now s) = s"
  by (cases err) (simp_all add: handle_error_def superseded_inert)

lemma run_superseded:
  assumes "store_inv s" and "superseded cx s"
  shows "superseded cx (run_calls env calls s)"
proof -
  obtain r where r: "fetch_job (cx_job_id cx) s = Some r" "cx_lease_generation cx < job_lease_generation r"
    using assms(2) by (auto simp: superseded_def)
  obtain r' where "fetch_job (cx_job_id cx) (run_calls env calls s) = Some r'" "row_run (map fst calls) r r'"
    using run_row [OF assms(1) r(1)] by blast
  with r(2) row_run_generation show ?thesis unfolding superseded_def by fastforce
qed

text \<open>
  C13. A worker whose job was claimed again while its handler ran does no harm: however the handler
  ends, the rest of \<open>run_once\<close> leaves the store exactly as it found it when the handler ended, and
  the heartbeat of that worker stops without touching it either.
\<close>

theorem superseded_worker_inert:
  assumes "store_inv s" and "claim_next w secs (at_claim at) s = (Inr (Some job), s1)"
    and "cx = job_context w secs job"
    and "context_log env cx INFO ''Job started''
          [(KStr ''kind'', PStr (job_kind_value (request_kind (jr_request job))))] (at_log at) s1 = (Inr (), marked, s2)"
    and "at_execution at = InProcess outcome" and "resolve (request_kind (jr_request job)) reg = Inr h"
    and "s3 = run_calls env (at_calls at) s2" and "superseded cx s3"
  shows "(\<exists>r. run_once env reg w secs at s = Some (r, s3)) \<and> heartbeat cx t s3 = (False, s3)"
proof -
  let ?kind = "request_kind (jr_request job)"
  have ex: "execute env reg cx ?kind at s2 = Some (case outcome of Inl e \<Rightarrow> Inl e | Inr _ \<Rightarrow> Inl OperationLeaseLostError, s3)"
    using assms(5-8) superseded_inert(5) [OF assms(8)]
    by (simp add: execute_def split: sum.splits)
  have op: "operate env reg cx ?kind at s1 = Some (Inl (case outcome of Inl e \<Rightarrow> e | Inr _ \<Rightarrow> OperationLeaseLostError), s3)"
    using ex by (cases outcome) (simp_all add: operate_def assms(4))
  have "snd (handle_error env cx e (at_settle at) s3) = s3" for e by (rule handle_error_superseded [OF assms(8)])
  then have "\<exists>r. run_once env reg w secs at s = Some (r, s3)"
    using op by (auto simp: run_once_def assms(2,3) split: sum.splits prod.splits) (metis snd_conv)+
  then show ?thesis using superseded_inert(6) [OF assms(8)] by simp
qed

section \<open>A worker that kept its lease\<close>

definition plain_text :: "string \<Rightarrow> bool" where
  "plain_text m \<longleftrightarrow> list_all (\<lambda>c. c \<noteq> CHR '':'' \<and> c \<noteq> CHR ''='' \<and> c \<noteq> CHR ''@'') m"

lemma sanitize_plain: "plain_text m \<Longrightarrow> sanitize_message m = m"
  by (rule sanitize_message_id) (simp add: plain_text_def list_all_iff)

lemma plain_text_append [simp]: "plain_text (xs @ ys) \<longleftrightarrow> plain_text xs \<and> plain_text ys"
  by (simp add: plain_text_def)

lemma sanitize_object_empty: "2 \<le> n \<Longrightarrow> sanitize_object fr (PDict []) n = Inr []"
  by (simp add: sanitize_object_def sanitize_value.simps)

lemma prepare_plain:
  assumes "bounded 1 128 jid" and "plain_text msg" and "bounded 1 4000 msg"
  shows "prepare_event env jid now level msg [] =
    Inr \<lparr>ev_sequence = 1, ev_job_id = jid, ev_timestamp = now, ev_level = level, ev_message = msg, ev_payload = []\<rparr>"
  using assms by (simp add: prepare_event_def sanitize_plain sanitize_object_empty MAX_EVENT_PAYLOAD_BYTES_def)

lemma transition_succeeds:
  assumes "store_inv s" and "fetch_job jid s = Some r" and "live_lease r w g now"
    and "target \<in> set (transitions (job_state r))" and "safe_result env res = Inr res'" and "safe_error env err = Inr err'"
    and "bounded 1 128 jid" and "bounded 1 255 w" and "plain_text msg" and "bounded 1 4000 msg"
  shows "\<exists>rec s'. transition env jid (job_state r) target res err (Some (level, msg, [])) (Some w) (Some g) now s = (Inr rec, s')
    \<and> fetch_job jid s' = Some (transition_row target now res' err' r)"
proof -
  let ?ev = "\<lparr>ev_sequence = 1, ev_job_id = jid, ev_timestamp = now, ev_level = level, ev_message = msg, ev_payload = []\<rparr>"
  let ?u = "update_job jid (transition_row target now res' err') s"
  let ?d = "[(''from'', DState (job_state r)), (''to'', DState target)]"
  have leased: "job_state r \<in> {RUNNING, CANCEL_REQUESTED}" using assms(3) by (simp add: live_lease_iff)
  have row: "fetch_job jid ?u = Some (transition_row target now res' err' r)"
    using assms(2) by (simp add: fetch_job_def transition_upd.fetch_hit)
  have "jid \<in> job_id ` set (st_jobs ?u)" using fetch_job_SomeD [OF row] by auto
  then obtain s1 where ev: "store_event (Some ?ev) ?u = Inr s1" and j1: "st_jobs s1 = st_jobs ?u"
    by (auto simp: store_event_def insert_event_def)
  obtain s2 where au: "audited now w ''JOB_TRANSITION'' (''job:'' @ jid) ?d s1 = Inr s2"
    using assms(7,8) by (simp add: audited_Inr bounded_def)
  have row2: "fetch_job jid s2 = Some (transition_row target now res' err' r)"
    using row audited_frame [OF au] by (simp add: fetch_job_def j1)
  have "w \<noteq> []" using assms(8) by (auto simp: bounded_def)
  then have body: "transition_body jid (job_state r) target res' err' (Some ?ev) (Some w) (Some g) now s
      = Inr (transition_row target now res' err' r, s2)"
    using assms(2,3) leased ev au row2 by (simp add: transition_body_def live_lease_def)
  have "r \<in> set (st_jobs s)" "job_id r = jid" using fetch_job_SomeD [OF assms(2)] by auto
  then have "wf_row r" using assms(1) by (auto simp: store_inv_def jobs_inv_def list_all_iff)
  moreover have "row_step now r (transition_row target now res' err' r)"
    by (rule row_step.finish [OF assms(3,4)]) (use assms(6) safe_error_valid in auto)
  ultimately have "wf_row (transition_row target now res' err' r)" by (rule row_step_wf [rotated])
  moreover have "bounded 1 128 (job_id (transition_row target now res' err' r))"
    using assms(7) \<open>job_id r = jid\<close> by (simp add: transition_row_def)
  ultimately obtain rec where "job_from_row (transition_row target now res' err' r) = Inr rec" using wf_row_readable by blast
  moreover have "opt_event env jid now (Some (level, msg, [])) = Inr (Some ?ev)"
    using prepare_plain [OF assms(7,9,10)] by (simp add: opt_event_def)
  ultimately show ?thesis
    using assms(4,5,6) body row2 by (simp add: transition_def row_result_def finish_def write_tx_def)
qed

lemma live_state: "live_lease r w g now \<Longrightarrow> job_state r = RUNNING \<or> job_state r = CANCEL_REQUESTED"
  by (auto simp: live_lease_iff)

lemma assert_lease_live:
  assumes "store_inv s" and "fetch_job jid s = Some r" and "live_lease r w g now" and "bounded 1 128 jid"
  shows "\<exists>rec. assert_lease jid w g now s = Inr rec \<and> jr_state rec = job_state r"
proof -
  have r: "r \<in> set (st_jobs s)" "job_id r = jid" using fetch_job_SomeD [OF assms(2)] by auto
  then have "wf_row r" using assms(1) by (auto simp: store_inv_def jobs_inv_def list_all_iff)
  then obtain rec where rec: "job_from_row r = Inr rec" using wf_row_readable assms(4) r(2) by blast
  with job_from_row_Inr [OF rec] assms(2,3) show ?thesis by (simp add: assert_lease_def live_lease_def)
qed

lemma fail_job_succeeds:
  assumes "store_inv s" and "fetch_job (cx_job_id cx) s = Some r"
    and "live_lease r (cx_worker_id cx) (cx_lease_generation cx) now"
    and "bounded 1 128 (cx_job_id cx)" and "bounded 1 255 (cx_worker_id cx)"
    and "plain_text n" and "length n \<le> 3900" and "plain_text m" and "bounded 1 500 m"
  shows "\<exists>s'. fail_job env cx n ec m now s = (Inr True, s') \<and> fetch_job (cx_job_id cx) s' =
    Some (transition_row FAILED now None (Some \<lparr>eb_code = ec, eb_message = m, eb_details = []\<rparr>) r)"
proof -
  let ?b = "\<lparr>eb_code = ec, eb_message = m, eb_details = []\<rparr>"
  obtain rec where rec: "assert_lease (cx_job_id cx) (cx_worker_id cx) (cx_lease_generation cx) now s = Inr rec"
    "jr_state rec = job_state r"
    using assert_lease_live [OF assms(1-4)] by blast
  have b: "safe_error env (Some ?b) = Inr (Some ?b)"
    using assms(8,9) by (simp add: safe_error_def sanitize_object_empty MAX_EVENT_PAYLOAD_BYTES_def sanitize_plain valid_error_body_def)
  have t: "FAILED \<in> set (transitions (job_state r))" using live_state [OF assms(3)] by auto
  have msg: "plain_text (''Job failed ('' @ n @ '')'')" "bounded 1 4000 (''Job failed ('' @ n @ '')'')"
    using assms(6,7) by (simp_all add: plain_text_def bounded_def)
  have "safe_result env None = Inr None" by (simp add: safe_result_def)
  from transition_succeeds [OF assms(1-3) t this b assms(4,5) msg, of ERROR] show ?thesis
    using assms(9) by (auto simp: fail_job_def rec valid_error_body_def)
qed

lemma settle_cancelled_succeeds:
  assumes "store_inv s" and "fetch_job (cx_job_id cx) s = Some r"
    and "live_lease r (cx_worker_id cx) (cx_lease_generation cx) now" and "job_state r = CANCEL_REQUESTED"
    and "bounded 1 128 (cx_job_id cx)" and "bounded 1 255 (cx_worker_id cx)"
  shows "\<exists>s'. settle_cancelled env cx now s = (Inr (), s')
    \<and> fetch_job (cx_job_id cx) s' = Some (transition_row CANCELLED now None None r)"
proof -
  have t: "CANCELLED \<in> set (transitions (job_state r))" by (simp add: assms(4))
  have n: "safe_result env None = Inr None" "safe_error env None = Inr None" by (simp_all add: safe_result_def safe_error_def)
  have msg: "plain_text ''Job cancelled''" "bounded 1 4000 ''Job cancelled''" by (simp_all add: plain_text_def bounded_def)
  from transition_succeeds [OF assms(1-3) t n assms(5,6) msg, of WARNING] assms(4) show ?thesis
    by (auto simp: settle_cancelled_def)
qed


section \<open>Witnesses\<close>

definition worker_a :: op_context where
  "worker_a = \<lparr>cx_job_id = ''job-0001'', cx_worker_id = ''worker-a'', cx_lease_generation = 1, cx_lease_seconds = 30,
     cx_actor = ''alice''\<rparr>"

definition claimed_row :: job_row where
  "claimed_row = claim_row ''worker-a'' 30000010 10
     (new_job_row ''job-0001'' ''alice'' ''key-0001'' ''hmac:deploy:apps'' (sample_request ''key-0001'' ''apps'') 0)"

lemma claimed_row_facts:
  "fetch_job ''job-0001'' claimed_store = Some claimed_row" "live_lease claimed_row ''worker-a'' 1 20"
  "job_state claimed_row = RUNNING" "can_claim claimed_row 40000000"
  by (simp_all add: fetch_job_def claimed_jobs claimed_row_def claim_row_def new_job_row_def live_lease_iff can_claim_def)


lemma claim_job_succeeds:
  assumes "fetch_job jid s = Some r" and "can_claim r now" and "bounded 1 128 jid" and "bounded 1 255 w" and "0 < secs"
  shows "fetch_job jid (snd (claim_job jid w secs now s)) = Some (claim_row w (now + secs * MICROS) now r)"
proof -
  have "fetch_job jid (update_job jid (claim_row w (now + secs * MICROS) now) s) = Some (claim_row w (now + secs * MICROS) now r)"
    using assms(1) by (simp add: fetch_job_def claim_upd.fetch_hit)
  moreover have "bounded 1 512 (''job:'' @ jid)" using assms(3) by (simp add: bounded_def)
  ultimately show ?thesis
    using assms
    by (simp add: claim_job_def claim_job_body_def take_claim_def audited_def append_audit_conn_def Let_def row_result_def
        finish_def write_tx_def bounded_def fetch_job_def split: sum.splits)
qed

lemma sensitive_kind: "\<not> sensitive_key ''kind''"
  by code_simp

lemma deploy_payload:
  "sanitize_object fr (PDict [(KStr ''kind'', PStr ''DEPLOY'')]) MAX_EVENT_PAYLOAD_BYTES = Inr [(KStr ''kind'', PStr ''DEPLOY'')]"
proof -
  have "sanitize_message ''DEPLOY'' = ''DEPLOY''" by (rule sanitize_plain) (simp add: plain_text_def)
  then show ?thesis
    by (simp add: sanitize_object_def sanitize_value.simps sensitive_kind limit_defs json_string_def json_escape_def code_def)
qed

lemma log_started:
  assumes "fetch_job (cx_job_id cx) s = Some r" and "live_lease r (cx_worker_id cx) (cx_lease_generation cx) now"
    and "bounded 1 128 (cx_job_id cx)"
  shows "\<exists>s'. context_log env cx INFO ''Job started'' [(KStr ''kind'', PStr ''DEPLOY'')] now s = (Inr (), False, s')
    \<and> st_jobs s' = st_jobs s"
proof -
  have msg: "sanitize_message ''Job started'' = ''Job started''" by (rule sanitize_plain) (simp add: plain_text_def)
  have "cx_job_id cx \<in> job_id ` set (st_jobs s)" using fetch_job_SomeD [OF assms(1)] by (metis imageI)
  then show ?thesis
    using assms
    by (simp add: context_log_def deploy_payload append_event_def prepare_event_def msg append_event_body_def insert_event_def
        write_tx_def bounded_def live_lease_def)
qed

text \<open>The handler of worker a returns after worker b took the job over.\<close>

definition late_attempt :: attempt where
  "late_attempt =
     \<lparr>at_claim = 10, at_log = 20, at_calls = [(40000000, ClaimJob ''job-0001'' ''worker-b'' 30)],
      at_execution = InProcess (Inr []), at_check = 40000001, at_check_lost = False, at_recheck = 40000002,
      at_recheck_lost = False, at_late_calls = [], at_settle = 40000003\<rparr>"

theorem superseded_worker_inert_witness:
  "\<exists>r s3. run_once sample_env [(DEPLOY, ())] ''worker-a'' 30 late_attempt queued_store = Some (r, s3)
     \<and> heartbeat worker_a 40000004 s3 = (False, s3)"
proof -
  have "claimed_store = snd (claim_next ''worker-a'' 30 10 queued_store)" by (simp add: claimed_store_def)
  moreover have "map_sum id (map_option (\<lambda>rec. (jr_job_id rec, jr_actor rec, jr_lease_generation rec, jr_request rec)))
      (fst (claim_next ''worker-a'' 30 10 queued_store))
      = Inr (Some (''job-0001'', ''alice'', 1, sample_request ''key-0001'' ''apps''))"
    by code_simp
  ultimately obtain job where job: "claim_next ''worker-a'' 30 (at_claim late_attempt) queued_store = (Inr (Some job), claimed_store)"
    "jr_job_id job = ''job-0001''" "jr_actor job = ''alice''" "jr_lease_generation job = 1"
    "jr_request job = sample_request ''key-0001'' ''apps''"
    by (cases "claim_next ''worker-a'' 30 10 queued_store"; cases "fst (claim_next ''worker-a'' 30 10 queued_store)")
      (auto simp: late_attempt_def)
  have cx: "worker_a = job_context ''worker-a'' 30 job" by (simp add: worker_a_def job_context_def job)
  have kind: "request_kind (jr_request job) = DEPLOY" by (simp add: job request_kind_def sample_request_def)
  obtain s2 where s2: "context_log sample_env worker_a INFO ''Job started'' [(KStr ''kind'', PStr ''DEPLOY'')]
      (at_log late_attempt) claimed_store = (Inr (), False, s2)" "st_jobs s2 = st_jobs claimed_store"
    using log_started [of worker_a claimed_store claimed_row "at_log late_attempt" sample_env] claimed_row_facts(1,2)
    by (auto simp: worker_a_def late_attempt_def bounded_def)
  let ?s3 = "run_calls sample_env (at_calls late_attempt) s2"
  have "fetch_job ''job-0001'' s2 = Some claimed_row" using s2(2) claimed_row_facts(1) by (simp add: fetch_job_def)
  from claim_job_succeeds [OF this claimed_row_facts(4), of "''worker-b''" 30]
  have "superseded worker_a ?s3"
    by (simp add: superseded_def late_attempt_def worker_a_def bounded_def claim_row_def claimed_row_def new_job_row_def)
  moreover have "at_execution late_attempt = InProcess (Inr [])" by (simp add: late_attempt_def)
  moreover have "resolve (request_kind (jr_request job)) [(DEPLOY, ())] = Inr ()" by (simp add: kind resolve_def)
  ultimately have "(\<exists>r. run_once sample_env [(DEPLOY, ())] ''worker-a'' 30 late_attempt queued_store = Some (r, ?s3))
      \<and> heartbeat worker_a 40000004 ?s3 = (False, ?s3)"
    using superseded_worker_inert [OF queued_store_inv job(1) cx, of sample_env False s2 "Inr []" "[(DEPLOY, ())]" "()" ?s3 40000004] s2(1)
    by (simp add: kind)
  then show ?thesis by blast
qed

section \<open>The polling loop\<close>

fun past_deadline :: "(int \<times> store_call) list \<times> poll \<Rightarrow> bool" where
  "past_deadline (calls, Waiting now lost stop late) = late"
| "past_deadline (calls, _) = False"

lemma await_deadline: "list_ex past_deadline polls \<Longrightarrow> \<exists>r. await_reply env cx kind polls s = Some r"
proof (induction polls arbitrary: s)
  case (Cons obs polls)
  then show ?case
    by (cases obs rule: past_deadline.cases) (auto simp: Let_def split: sum.splits)
qed simp

lemma await_rotation:
  "await_reply env cx SECRET_ROTATION polls s = Some (Inl e, s') \<Longrightarrow>
     e = SafeOperationError OPERATION_FAILED ''Operation exceeded its execution deadline'' \<and> list_ex past_deadline polls"
proof (induction polls arbitrary: s)
  case (Cons obs polls)
  then show ?case
    by (cases obs rule: past_deadline.cases) (auto simp: Let_def split: if_splits)
qed simp



end
