(* ===== verification/Py_Documents.thy ===== *)
theory Py_Documents
  imports Py_Values
begin

text \<open>
  Reading decoded YAML and JSON documents: \<open>dict.get\<close>, truth values, \<open>str()\<close> of a value,
  \<open>str.split\<close> and \<open>str.startswith\<close>.  The text Python prints for a float, and for an object the
  decoder builds that is none of the constructors of \<open>pyval\<close> (a date, say), are the two fields of
  \<open>py_texts\<close>.
\<close>

type_synonym document = "(pykey \<times> pyval) list"

record py_texts =
  float_text :: "pyfloat \<Rightarrow> string"
  other_text :: string

section \<open>Lookup and truth\<close>

definition dict_get :: "string \<Rightarrow> document \<Rightarrow> pyval option" where
  "dict_get k kvs = map_of kvs (KStr k)"

definition dict_get_or :: "string \<Rightarrow> pyval \<Rightarrow> document \<Rightarrow> pyval" where
  "dict_get_or k d kvs = (case dict_get k kvs of None \<Rightarrow> d | Some v \<Rightarrow> v)"

fun float_is_zero :: "pyfloat \<Rightarrow> bool" where
  "float_is_zero (Finite m e) = (m = 0)"
| "float_is_zero _ = False"

fun truthy :: "pyval \<Rightarrow> bool" where
  "truthy PNone = False"
| "truthy (PBool b) = b"
| "truthy (PInt i) = (i \<noteq> 0)"
| "truthy (PFloat f) = (\<not> float_is_zero f)"
| "truthy (PStr s) = (s \<noteq> [])"
| "truthy (PDict kvs) = (kvs \<noteq> [])"
| "truthy (PList xs) = (xs \<noteq> [])"
| "truthy (PTuple xs) = (xs \<noteq> [])"
| "truthy POther = True"

text \<open>\<open>d.get(k) or fallback\<close>.\<close>

definition get_or :: "string \<Rightarrow> pyval \<Rightarrow> document \<Rightarrow> pyval" where
  "get_or k d kvs = (let v = dict_get_or k PNone kvs in if truthy v then v else d)"

section \<open>str() and repr()\<close>

definition unprintable :: "char \<Rightarrow> bool" where
  "unprintable c \<longleftrightarrow> code c < 32 \<or> (127 \<le> code c \<and> code c \<le> 160) \<or> code c = 173"

definition repr_char :: "char \<Rightarrow> char \<Rightarrow> string" where
  "repr_char q c =
     (if c = q \<or> c = CHR 0x5C then [CHR 0x5C, c]
      else if code c = 10 then [CHR 0x5C, CHR ''n'']
      else if code c = 13 then [CHR 0x5C, CHR ''r'']
      else if code c = 9 then [CHR 0x5C, CHR ''t'']
      else if unprintable c
        then [CHR 0x5C, CHR ''x'', hex_digit (code c div 16), hex_digit (code c mod 16)]
      else [c])"

definition repr_string :: "string \<Rightarrow> string" where
  "repr_string s =
     (let q = (if CHR 0x27 \<in> set s \<and> CHR 0x22 \<notin> set s then CHR 0x22 else CHR 0x27)
      in [q] @ concat (map (repr_char q) s) @ [q])"

fun key_repr :: "py_texts \<Rightarrow> pykey \<Rightarrow> string" where
  "key_repr tx (KStr s) = repr_string s"
| "key_repr tx KOther = other_text tx"

fun py_repr :: "py_texts \<Rightarrow> pyval \<Rightarrow> string"
  and repr_pairs :: "py_texts \<Rightarrow> document \<Rightarrow> string list"
  and repr_list :: "py_texts \<Rightarrow> pyval list \<Rightarrow> string list"
where
  "py_repr tx PNone = ''None''"
| "py_repr tx (PBool b) = (if b then ''True'' else ''False'')"
| "py_repr tx (PInt i) = show_int i"
| "py_repr tx (PFloat f) = float_text tx f"
| "py_repr tx (PStr s) = repr_string s"
| "py_repr tx (PDict kvs) = ''{'' @ join '', '' (repr_pairs tx kvs) @ ''}''"
| "py_repr tx (PList xs) = ''['' @ join '', '' (repr_list tx xs) @ '']''"
| "py_repr tx (PTuple xs) =
     (case xs of [x] \<Rightarrow> ''('' @ py_repr tx x @ '',)'' | _ \<Rightarrow> ''('' @ join '', '' (repr_list tx xs) @ '')'')"
| "py_repr tx POther = other_text tx"
| "repr_pairs tx [] = []"
| "repr_pairs tx (kv # kvs) = (key_repr tx (fst kv) @ '': '' @ py_repr tx (snd kv)) # repr_pairs tx kvs"
| "repr_list tx [] = []"
| "repr_list tx (v # vs) = py_repr tx v # repr_list tx vs"

fun py_str :: "py_texts \<Rightarrow> pyval \<Rightarrow> string" where
  "py_str tx (PStr s) = s"
| "py_str tx v = py_repr tx v"

fun key_str :: "py_texts \<Rightarrow> pykey \<Rightarrow> string" where
  "key_str tx (KStr s) = s"
| "key_str tx KOther = other_text tx"

section \<open>Splitting text\<close>

fun split_on :: "char \<Rightarrow> string \<Rightarrow> string list" where
  "split_on d [] = [[]]"
| "split_on d (c # cs) =
     (if c = d then [] # split_on d cs
      else (case split_on d cs of [] \<Rightarrow> [[c]] | p # ps \<Rightarrow> (c # p) # ps))"

lemma split_on_nonempty: "split_on d s \<noteq> []"
  by (induction s) (auto split: list.splits)

lemma split_on_no_sep: "d \<notin> set s \<Longrightarrow> split_on d s = [s]"
  by (induction s) auto

lemma split_on_append: "d \<notin> set p \<Longrightarrow> split_on d (p @ d # t) = p # split_on d t"
  by (induction p) auto

lemma length_split_on: "length (split_on d s) = Suc (count_list s d)"
  by (induction s) (auto split: list.splits simp: split_on_nonempty)

text \<open>\<open>int(s)\<close> of a text of digits.\<close>

definition digits_number :: "string \<Rightarrow> int" where
  "digits_number s = foldl (\<lambda>n c. n * 10 + (int (code c) - 48)) 0 s"

definition remove_prefix :: "string \<Rightarrow> string \<Rightarrow> string" where
  "remove_prefix p s = (if prefix p s then drop (length p) s else s)"

section \<open>Insertion-ordered dictionaries with text keys\<close>

text \<open>\<open>d[k] = v\<close>: an existing key keeps its place, a new one goes to the end.\<close>

fun dict_set :: "'k \<Rightarrow> 'v \<Rightarrow> ('k \<times> 'v) list \<Rightarrow> ('k \<times> 'v) list" where
  "dict_set k v [] = [(k, v)]"
| "dict_set k v ((k', v') # kvs) = (if k' = k then (k, v) # kvs else (k', v') # dict_set k v kvs)"

lemma map_of_dict_set: "map_of (dict_set k v kvs) = (map_of kvs)(k \<mapsto> v)"
  by (induction kvs) (auto simp: fun_eq_iff)

lemma keys_dict_set:
  "map fst (dict_set k v kvs) = (if k \<in> fst ` set kvs then map fst kvs else map fst kvs @ [k])"
  by (induction kvs) (force simp: image_iff)+

lemma distinct_dict_set [intro]: "distinct (map fst kvs) \<Longrightarrow> distinct (map fst (dict_set k v kvs))"
  by (simp add: keys_dict_set)

lemma dom_dict_set: "fst ` set (dict_set k v kvs) = insert k (fst ` set kvs)"
proof -
  have "set (map fst (dict_set k v kvs)) = insert k (set (map fst kvs))"
    by (auto simp: keys_dict_set)
  then show ?thesis by simp
qed

lemma map_of_values_distinct:
  assumes "distinct (map fst kvs)" and "(k, v) \<in> set kvs"
  shows "map_of kvs k = Some v"
  using assms by simp

end
