(* ===== verification/Desired_State.thy ===== *)
theory Desired_State
  imports Py_Documents
begin

text \<open>
  The desired state and the service manifests as the planning code reads them: the machine table
  and the node queries of \<open>Config\<close> (\<open>core/config/config.py\<close>), the parts of
  \<open>ServiceManifest\<close> (\<open>core/manifest/schema.py\<close>) that placement, routes and startup order use,
  the typed service settings of \<open>core/manifest/settings.py\<close>, and the predicates that switch a
  service on (\<open>core/manifest/routes.py\<close>).  Loading and validating the YAML files is not modelled.

  The category plugins and the default service catalog are process-wide in the program; they are
  the record \<open>plugins\<close> here.
\<close>

section \<open>Errors\<close>

datatype config_error =
    Unknown_name string
  | Disabled_machine string
  | No_single_control
  | No_machine string
  | Many_machines string "string list"
  | No_configured_machine string
  | Invalid_placement string config_error
  | No_endpoint string
  | No_published_port string
  | Not_one_route string
  | No_static_port string
  | Bad_text string
  | Undeclared_setting string string
  | Bad_setting string
  | Undeclared_overrides string "string list"
  | Route_error string

text \<open>
  The exceptions a handler \<open>except ValueError\<close> catches: \<open>ServiceSettingError\<close> is a subclass;
  \<open>KeyError\<close> and \<open>RouteCompilationError\<close> are not.
\<close>

fun is_value_error :: "config_error \<Rightarrow> bool" where
  "is_value_error (Unknown_name _) = False"
| "is_value_error (Disabled_machine _) = False"
| "is_value_error (Route_error _) = False"
| "is_value_error _ = True"

section \<open>Sequencing\<close>

definition then_do :: "'e + 'a \<Rightarrow> ('a \<Rightarrow> 'e + 'b) \<Rightarrow> 'e + 'b" where
  "then_do r f = (case r of Inl e \<Rightarrow> Inl e | Inr a \<Rightarrow> f a)"

fun each :: "('a \<Rightarrow> 'e + 'b) \<Rightarrow> 'a list \<Rightarrow> 'e + 'b list" where
  "each f [] = Inr []"
| "each f (x # xs) = then_do (f x) (\<lambda>y. then_do (each f xs) (\<lambda>ys. Inr (y # ys)))"

lemma then_do_simps [simp]: "then_do (Inl e) f = Inl e" "then_do (Inr a) f = f a"
  by (simp_all add: then_do_def)

lemma then_do_Inr_iff: "then_do r f = Inr b \<longleftrightarrow> (\<exists>a. r = Inr a \<and> f a = Inr b)"
  by (cases r) simp_all

lemma then_do_Inl_iff: "then_do r f = Inl e \<longleftrightarrow> r = Inl e \<or> (\<exists>a. r = Inr a \<and> f a = Inl e)"
  by (cases r) simp_all

lemma each_Inr_iff: "each f xs = Inr ys \<longleftrightarrow> list_all2 (\<lambda>x y. f x = Inr y) xs ys"
proof (induction xs arbitrary: ys)
  case Nil
  then show ?case by auto
next
  case (Cons x xs)
  then show ?case by (cases ys) (auto simp: then_do_Inr_iff list_all2_Cons1)
qed

lemma each_from:
  assumes "each f xs = Inr ys" and "y \<in> set ys"
  obtains x where "x \<in> set xs" and "f x = Inr y"
proof -
  from assms have "list_all2 (\<lambda>x y. f x = Inr y) xs ys" by (simp add: each_Inr_iff)
  with assms(2) obtain i where "i < length xs" "f (xs ! i) = Inr (ys ! i)" "ys ! i = y"
    by (auto simp: in_set_conv_nth list_all2_conv_all_nth)
  with that [of "xs ! i"] show thesis by simp
qed

lemma each_to:
  assumes "each f xs = Inr ys" and "x \<in> set xs"
  obtains y where "y \<in> set ys" and "f x = Inr y"
proof -
  from assms have "list_all2 (\<lambda>x y. f x = Inr y) xs ys" by (simp add: each_Inr_iff)
  with assms(2) obtain i where "i < length ys" "f (xs ! i) = Inr (ys ! i)" "xs ! i = x"
    by (auto simp: in_set_conv_nth list_all2_conv_all_nth)
  with that [of "ys ! i"] show thesis by simp
qed

lemma map_sum_Inr_iff: "map_sum f g r = Inr b \<longleftrightarrow> (\<exists>a. r = Inr a \<and> g a = b)"
  by (cases r) auto

lemma map_sum_InrE:
  assumes "map_sum f id r = Inr a"
  obtains "r = Inr a"
  using assms by (auto simp: map_sum_Inr_iff)

section \<open>Settings and predicates\<close>

text \<open>The labels, descriptions and the step width of a setting are for display only and left out.\<close>

datatype setting_type = Boolean_setting | Number_setting | Text_setting | Select_setting

record service_setting =
  set_key :: string
  set_type :: setting_type
  set_default :: pyval
  set_minimum :: "(int \<times> int) option"
  set_maximum :: "(int \<times> int) option"
  set_choices :: "string list"
  set_setup :: bool

text \<open>Exactly one of \<open>pred_path\<close> and \<open>pred_setting\<close>, exactly one of \<open>pred_equals\<close> and \<open>pred_one_of\<close>.\<close>

record config_predicate =
  pred_path :: "string option"
  pred_setting :: "string option"
  pred_equals :: "pyval option"
  pred_one_of :: "pyval list"

section \<open>Manifests\<close>

datatype exposure = Public | Private
datatype auth_mode = Forward_auth | Oidc | Native | Split | No_auth
datatype match_kind = Exact_match | Prefix_match
datatype probe_method = Probe_GET | Probe_HEAD | Probe_OPTIONS

record route_auth =
  auth_mode :: auth_mode
  passthrough_paths :: "string list"
  probe_statuses :: "int list"
  probe_method :: probe_method

record route_match =
  match_kind :: match_kind
  match_paths :: "string list"

record route_variant =
  variant_when :: config_predicate
  variant_upstream :: string
  variant_compose_service :: string

record route_manifest =
  subdomain :: "string option"
  upstream :: string
  route_port :: "int option"
  compose_service :: string
  exposure :: exposure
  auth :: route_auth
  match :: "route_match option"
  variants :: "route_variant list"
  file_server_root :: string
  response_body :: string
  request_body_max_mb :: "int option"
  deny :: "route_match list"
  response_headers :: "(string \<times> string) list"

datatype runtime_mode = Daemon | Oneshot

record runtime_service =
  placements :: "string list"
  compose_profile :: "string option"
  runtime_mode :: runtime_mode
  runtime_memory_floor :: "int option"
  runtime_cpu_floor :: "(int \<times> int) option"
  required_host_paths :: "string list"

record service_endpoint =
  endpoint_service :: string
  container_port :: int
  published_port :: "int option"

record service_manifest =
  manifest_name :: string
  manifest_label :: string
  category :: string
  placement :: string
  priority :: int
  manifest_depends_on :: "string list"
  runtimes :: "(string \<times> runtime_service) list"
  routes :: "route_manifest list"
  settings :: "service_setting list"
  enabled_when :: "config_predicate list"
  endpoint :: "service_endpoint option"

record plugins =
  categories :: "(string \<times> bool) list"
  catalog :: "service_manifest list"

definition require_service :: "service_manifest list \<Rightarrow> string \<Rightarrow> config_error + service_manifest" where
  "require_service manifests name =
     (case find (\<lambda>m. manifest_name m = name) manifests of None \<Rightarrow> Inl (Unknown_name name) | Some m \<Rightarrow> Inr m)"

section \<open>The desired state\<close>

record machine_spec =
  enabled :: bool
  address :: string
  machine_labels :: "string list"
  machine_gateway :: string
  machine_cidr :: nat
  startup_order :: int

record project_entry =
  project_name :: string
  project_subdomain :: string
  project_auth :: auth_mode
  project_exposure :: exposure
  project_port :: int
  project_placement :: string
  project_image :: string
  project_health :: string
  project_read_only :: bool
  project_database :: string

datatype host_kind = Plain_host | Fleet_host

record external_host =
  host_name :: string
  host_address :: string
  host_kind :: host_kind
  host_services :: "string list"

text \<open>
  What a dotted predicate path may walk through: pydantic models by field name, and the value at
  the end.  \<open>Dict_field\<close> is a dictionary, which only manifest variables walk through, and \<open>Other_field\<close>
  any other value.
\<close>

datatype config_tree =
    Model_field "(string \<times> config_tree) list"
  | Dict_field "(string \<times> config_tree) list"
  | Scalar_field pyval
  | Other_field

record network_settings =
  mesh_ipv4_cidr :: string
  container_ipv4_cidr :: string
  container_network_prefix :: nat

record config =
  machines :: "(string \<times> machine_spec) list"
  category_flags :: "(string \<times> bool) list"
  service_settings :: "(string \<times> (string \<times> pyval) list) list"
  projects :: "project_entry list"
  domain :: string
  email :: string
  expose_via_internet :: bool
  network :: network_settings
  external_hosts :: "external_host list"
  backups_enabled :: bool
  model_fields :: "(string \<times> config_tree) list"

definition enabled_nodes :: "config \<Rightarrow> string list" where
  "enabled_nodes cfg =
     map fst (sort_key (\<lambda>(i, m). (startup_order m, i)) (filter (\<lambda>(i, m). enabled m) (machines cfg)))"

definition is_multi_node :: "config \<Rightarrow> bool" where
  "is_multi_node cfg \<longleftrightarrow> length (enabled_nodes cfg) > 1"

definition control_node :: "config \<Rightarrow> config_error + string" where
  "control_node cfg =
     (case map fst (filter (\<lambda>(i, m). enabled m \<and> ''control'' \<in> set (machine_labels m)) (machines cfg)) of
        [c] \<Rightarrow> Inr c
      | _ \<Rightarrow> Inl No_single_control)"

definition node_ip :: "config \<Rightarrow> string \<Rightarrow> config_error + string" where
  "node_ip cfg node =
     (case map_of (machines cfg) node of
        None \<Rightarrow> Inl (Unknown_name node)
      | Some m \<Rightarrow> if \<not> enabled m then Inl (Disabled_machine node) else Inr (address m))"

definition category_enabled :: "plugins \<Rightarrow> config \<Rightarrow> string \<Rightarrow> config_error + bool" where
  "category_enabled pl cfg name =
     (case map_of (categories pl) name of
        None \<Rightarrow> Inl (Unknown_name name)
      | Some always_on \<Rightarrow>
          Inr (always_on \<or> (case map_of (category_flags cfg) name of None \<Rightarrow> True | Some b \<Rightarrow> b)))"

section \<open>Typed service settings\<close>

text \<open>Numbers as mantissa and binary exponent, compared exactly, as Python does.\<close>

fun number_of :: "pyval \<Rightarrow> (int \<times> int) option" where
  "number_of (PInt i) = Some (i, 0)"
| "number_of (PFloat (Finite m e)) = Some (m, e)"
| "number_of _ = None"

definition num_less :: "int \<times> int \<Rightarrow> int \<times> int \<Rightarrow> bool" where
  "num_less x y =
     (let k = min (snd x) (snd y) in fst x * 2 ^ nat (snd x - k) < fst y * 2 ^ nat (snd y - k))"

definition validate_setting_value :: "service_setting \<Rightarrow> pyval \<Rightarrow> config_error + pyval" where
  "validate_setting_value st v =
     (case set_type st of
        Boolean_setting \<Rightarrow> (case v of PBool b \<Rightarrow> Inr v | _ \<Rightarrow> Inl (Bad_setting (set_key st)))
      | Number_setting \<Rightarrow>
          (case number_of v of
             None \<Rightarrow> Inl (Bad_setting (set_key st))
           | Some n \<Rightarrow>
               if (case set_minimum st of None \<Rightarrow> False | Some lo \<Rightarrow> num_less n lo) then Inl (Bad_setting (set_key st))
               else if (case set_maximum st of None \<Rightarrow> False | Some hi \<Rightarrow> num_less hi n) then Inl (Bad_setting (set_key st))
               else Inr v)
      | Text_setting \<Rightarrow> (case v of PStr s \<Rightarrow> Inr v | _ \<Rightarrow> Inl (Bad_setting (set_key st)))
      | Select_setting \<Rightarrow>
          (case v of
             PStr s \<Rightarrow> if s \<in> set (set_choices st) then Inr v else Inl (Bad_setting (set_key st))
           | _ \<Rightarrow> Inl (Bad_setting (set_key st))))"

definition setting_definition :: "service_manifest \<Rightarrow> string \<Rightarrow> config_error + service_setting" where
  "setting_definition man key =
     (case find (\<lambda>s. set_key s = key) (settings man) of
        None \<Rightarrow> Inl (Undeclared_setting (manifest_name man) key)
      | Some s \<Rightarrow> Inr s)"

definition override_of :: "config \<Rightarrow> string \<Rightarrow> (string \<times> pyval) list" where
  "override_of cfg service = (case map_of (service_settings cfg) service of None \<Rightarrow> [] | Some kvs \<Rightarrow> kvs)"

definition service_setting_value :: "config \<Rightarrow> service_manifest \<Rightarrow> string \<Rightarrow> config_error + pyval" where
  "service_setting_value cfg man key =
     then_do (setting_definition man key) (\<lambda>st.
       validate_setting_value st
         (case map_of (override_of cfg (manifest_name man)) key of None \<Rightarrow> set_default st | Some v \<Rightarrow> v))"

definition check_overrides :: "service_manifest list \<Rightarrow> string \<times> (string \<times> pyval) list \<Rightarrow> config_error + unit" where
  "check_overrides manifests = (\<lambda>(service, kvs).
     then_do
       (case find (\<lambda>m. manifest_name m = service) (rev manifests) of
          None \<Rightarrow> Inl (Unknown_name service) | Some m \<Rightarrow> Inr m) (\<lambda>man.
       (let declared = map set_key (settings man);
            unknown = sort (filter (\<lambda>k. k \<notin> set declared) (map fst kvs))
        in if unknown \<noteq> [] then Inl (Undeclared_overrides service unknown)
           else then_do
                  (each (\<lambda>(k, v).
                     then_do (case find (\<lambda>s. set_key s = k) (rev (settings man)) of
                                None \<Rightarrow> Inl (Unknown_name k) | Some st \<Rightarrow> Inr st)
                       (\<lambda>st. validate_setting_value st v)) kvs)
                  (\<lambda>vs. Inr ()))))"

definition validate_service_setting_overrides :: "config \<Rightarrow> service_manifest list \<Rightarrow> config_error + unit" where
  "validate_service_setting_overrides cfg manifests =
     then_do (each (check_overrides manifests) (service_settings cfg)) (\<lambda>us. Inr ())"

section \<open>Switching services on\<close>

text \<open>\<open>==\<close> on the scalar values a predicate compares: a bool counts as the number 0 or 1.\<close>

fun numeric_view :: "pyval \<Rightarrow> (int \<times> int) option" where
  "numeric_view (PBool b) = Some (if b then 1 else 0, 0)"
| "numeric_view v = number_of v"

definition scalar_eq :: "pyval \<Rightarrow> pyval \<Rightarrow> bool" where
  "scalar_eq v w =
     (case (numeric_view v, numeric_view w) of
        (Some x, Some y) \<Rightarrow> \<not> num_less x y \<and> \<not> num_less y x
      | (None, None) \<Rightarrow>
          (case (v, w) of (PStr s, PStr t) \<Rightarrow> s = t | (PNone, PNone) \<Rightarrow> True | _ \<Rightarrow> False)
      | _ \<Rightarrow> False)"

fun walk_path :: "string \<Rightarrow> string list \<Rightarrow> config_tree \<Rightarrow> config_error + config_tree" where
  "walk_path p [] t = Inr t"
| "walk_path p (part # parts) (Model_field fs) =
     (case map_of fs part of None \<Rightarrow> Inl (Route_error p) | Some t \<Rightarrow> walk_path p parts t)"
| "walk_path p (part # parts) _ = Inl (Route_error p)"

definition scalar_at :: "string \<Rightarrow> config_tree \<Rightarrow> config_error + pyval" where
  "scalar_at p t =
     (case t of
        Scalar_field v \<Rightarrow>
          (case v of PNone \<Rightarrow> Inr v | PBool b \<Rightarrow> Inr v | PStr s \<Rightarrow> Inr v | PInt i \<Rightarrow> Inr v | PFloat f \<Rightarrow> Inr v
           | _ \<Rightarrow> Inl (Route_error p))
      | _ \<Rightarrow> Inl (Route_error p))"

definition predicate_value :: "config \<Rightarrow> config_predicate \<Rightarrow> service_manifest list \<Rightarrow> config_error + pyval" where
  "predicate_value cfg pr manifests =
     (case pred_setting pr of
        Some ref \<Rightarrow>
          (case partition_at (CHR ''.'') ref of
             (service, found, key) \<Rightarrow>
               if \<not> found then Inl (Bad_text ref)
               else (case require_service manifests service of
                       Inl e \<Rightarrow> Inl (Route_error service)
                     | Inr man \<Rightarrow> service_setting_value cfg man key))
      | None \<Rightarrow>
          (case pred_path pr of
             None \<Rightarrow> Inl (Route_error [])
           | Some p \<Rightarrow>
               then_do (walk_path p (split_on (CHR ''.'') p) (Model_field (model_fields cfg))) (scalar_at p)))"

definition predicate_matches :: "config \<Rightarrow> config_predicate \<Rightarrow> service_manifest list \<Rightarrow> config_error + bool" where
  "predicate_matches cfg pr manifests =
     then_do (predicate_value cfg pr manifests) (\<lambda>v.
       case pred_equals pr of
         Some w \<Rightarrow> Inr (scalar_eq v w)
       | None \<Rightarrow> Inr (list_ex (scalar_eq v) (pred_one_of pr)))"

text \<open>\<open>all(...)\<close> over a generator: stops at the first predicate that does not match.\<close>

fun all_match :: "config \<Rightarrow> service_manifest list \<Rightarrow> config_predicate list \<Rightarrow> config_error + bool" where
  "all_match cfg manifests [] = Inr True"
| "all_match cfg manifests (p # ps) =
     then_do (predicate_matches cfg p manifests) (\<lambda>b. if b then all_match cfg manifests ps else Inr False)"

definition service_is_enabled ::
  "plugins \<Rightarrow> config \<Rightarrow> service_manifest \<Rightarrow> service_manifest list \<Rightarrow> config_error + bool"
where
  "service_is_enabled pl cfg man manifests =
     then_do (category_enabled pl cfg (category man)) (\<lambda>on.
       if \<not> on then Inr False
       else then_do
         (case find (\<lambda>s. set_key s = ''enabled'') (settings man) of
            None \<Rightarrow> Inr True
          | Some st \<Rightarrow>
              if set_type st \<noteq> Boolean_setting then Inl (Route_error (manifest_name man))
              else then_do (service_setting_value cfg man ''enabled'') (\<lambda>v. Inr (truthy v)))
         (\<lambda>sw. if \<not> sw then Inr False else all_match cfg manifests (enabled_when man)))"

section \<open>Facts on the machine table\<close>

lemma set_enabled_nodes:
  "set (enabled_nodes cfg) = {i. \<exists>m. (i, m) \<in> set (machines cfg) \<and> enabled m}"
  by (force simp: enabled_nodes_def)

lemma distinct_enabled_nodes: "distinct (map fst (machines cfg)) \<Longrightarrow> distinct (enabled_nodes cfg)"
  unfolding enabled_nodes_def by (auto simp: distinct_map inj_on_def)

lemma control_node_enabled: "control_node cfg = Inr c \<Longrightarrow> c \<in> set (enabled_nodes cfg)"
  by (force simp: control_node_def set_enabled_nodes filter_eq_Cons_iff split: list.splits)

lemma node_ip_enabled:
  assumes "distinct (map fst (machines cfg))" and "n \<in> set (enabled_nodes cfg)"
  shows "\<exists>a. node_ip cfg n = Inr a"
  using assms by (auto simp: set_enabled_nodes node_ip_def dest!: map_of_values_distinct)

lemma setting_in_bounds:
  assumes "validate_setting_value st v = Inr w" and "set_type st = Number_setting"
  shows "\<exists>n. w = v \<and> number_of v = Some n \<and> pred_option (\<lambda>lo. \<not> num_less n lo) (set_minimum st)
           \<and> pred_option (\<lambda>hi. \<not> num_less hi n) (set_maximum st)"
  using assms by (auto simp: validate_setting_value_def split: option.splits if_splits)

end
