(* ===== verification/Placement.thy ===== *)
theory Placement
  imports Desired_State
begin

text \<open>
  \<open>core/manifest/placement.py\<close> and \<open>core/projects/placement.py\<close>: which machine runs which
  service, which ports a service offers, and which Compose profiles a machine starts.
\<close>

section \<open>Ports\<close>

definition service_endpoint_port :: "service_manifest list \<Rightarrow> string \<Rightarrow> bool \<Rightarrow> config_error + int" where
  "service_endpoint_port manifests service published =
     then_do (require_service manifests service) (\<lambda>man.
       case endpoint man of
         None \<Rightarrow> Inl (No_endpoint service)
       | Some ep \<Rightarrow>
           if published
           then (case published_port ep of None \<Rightarrow> Inl (No_published_port service) | Some p \<Rightarrow> Inr p)
           else Inr (container_port ep))"

text \<open>
  \<open>int(text)\<close>: surrounding white space, a sign, and decimal digits with single underscores
  between them.
\<close>

fun digits_value :: "int \<Rightarrow> bool \<Rightarrow> string \<Rightarrow> int option" where
  "digits_value acc after_digit [] = (if after_digit then Some acc else None)"
| "digits_value acc after_digit (c # cs) =
     (if is_digit c then digits_value (acc * 10 + int (code c - 48)) True cs
      else if c = CHR ''_'' \<and> after_digit then digits_value acc False cs
      else None)"

definition int_of_text :: "string \<Rightarrow> int option" where
  "int_of_text s =
     (case strip s of
        [] \<Rightarrow> None
      | c # cs \<Rightarrow>
          if c = CHR ''-'' then map_option uminus (digits_value 0 False cs)
          else if c = CHR ''+'' then digits_value 0 False cs
          else digits_value 0 False (c # cs))"

definition service_route_port ::
  "service_manifest list \<Rightarrow> string \<Rightarrow> string option \<Rightarrow> bool \<Rightarrow> config_error + int"
where
  "service_route_port manifests service sub published =
     then_do (require_service manifests service) (\<lambda>man.
       case filter (\<lambda>r. sub = None \<or> subdomain r = sub) (routes man) of
         [route] \<Rightarrow>
           if published
           then (case route_port route of None \<Rightarrow> Inl (No_published_port service) | Some p \<Rightarrow> Inr p)
           else if upstream route = [] \<or> CHR '':'' \<notin> set (upstream route) then Inl (No_static_port service)
           else (case int_of_text (last (split_on (CHR '':'') (upstream route))) of
                   None \<Rightarrow> Inl (Bad_text (upstream route)) | Some p \<Rightarrow> Inr p)
       | _ \<Rightarrow> Inl (Not_one_route service))"

section \<open>Machines\<close>

definition selector_matches :: "config \<Rightarrow> bool \<Rightarrow> string \<Rightarrow> string list" where
  "selector_matches cfg enabled_only selector =
     sort (map fst (filter (\<lambda>(i, m). (enabled m \<or> \<not> enabled_only) \<and> selector \<in> set (machine_labels m))
       (machines cfg)))"

definition resolve_node_selector :: "config \<Rightarrow> bool \<Rightarrow> string \<Rightarrow> config_error + string" where
  "resolve_node_selector cfg enabled_only selector =
     (case map_of (machines cfg) selector of
        Some m \<Rightarrow>
          if enabled m \<or> \<not> enabled_only then Inr selector
          else (case selector_matches cfg enabled_only selector of
                  [] \<Rightarrow> Inl (No_machine selector) | [n] \<Rightarrow> Inr n | ns \<Rightarrow> Inl (Many_machines selector ns))
      | None \<Rightarrow>
          (case selector_matches cfg enabled_only selector of
             [] \<Rightarrow> Inl (No_machine selector) | [n] \<Rightarrow> Inr n | ns \<Rightarrow> Inl (Many_machines selector ns)))"

definition manifest_node :: "config \<Rightarrow> service_manifest \<Rightarrow> config_error + string" where
  "manifest_node cfg man =
     (if \<not> is_multi_node cfg then control_node cfg else resolve_node_selector cfg True (placement man))"

definition category_node :: "config \<Rightarrow> string \<Rightarrow> config_error + string" where
  "category_node cfg selector =
     (if \<not> is_multi_node cfg then control_node cfg else resolve_node_selector cfg True selector)"

definition primary_or :: "config \<Rightarrow> service_manifest \<Rightarrow> string option \<Rightarrow> config_error + string" where
  "primary_or cfg man primary_node =
     (case primary_node of
        Some p \<Rightarrow> if p \<noteq> [] then Inr p else manifest_node cfg man
      | None \<Rightarrow> manifest_node cfg man)"

definition runtime_selector :: "config \<Rightarrow> string \<Rightarrow> string \<Rightarrow> config_error + string list" where
  "runtime_selector cfg primary selector =
     (if selector = ''@primary'' then Inr [primary]
      else if selector = ''@all'' then Inr (enabled_nodes cfg)
      else if selector = ''@non-primary'' then Inr (filter (\<lambda>n. n \<noteq> primary) (enabled_nodes cfg))
      else (case map_of (machines cfg) selector of
              Some m \<Rightarrow> Inr (if enabled m then [selector] else [])
            | None \<Rightarrow>
                (let configured = map fst (filter (\<lambda>(i, m). selector \<in> set (machine_labels m)) (machines cfg))
                 in if configured = [] then Inl (No_configured_machine selector)
                    else Inr (filter (\<lambda>n. n \<in> set configured) (enabled_nodes cfg)))))"

definition manifest_runtime_nodes ::
  "config \<Rightarrow> service_manifest \<Rightarrow> string \<Rightarrow> string option \<Rightarrow> config_error + string list"
where
  "manifest_runtime_nodes cfg man runtime_service primary_node =
     then_do (primary_or cfg man primary_node) (\<lambda>primary.
       case map_of (runtimes man) runtime_service of
         None \<Rightarrow> Inr [primary]
       | Some rt \<Rightarrow>
           if placements rt = [] then Inr [primary]
           else then_do (each (runtime_selector cfg primary) (placements rt)) (\<lambda>nss. Inr (fromkeys (concat nss))))"

definition runtime_profile ::
  "config \<Rightarrow> string \<Rightarrow> service_manifest \<Rightarrow> string \<times> runtime_service \<Rightarrow> config_error + string list"
where
  "runtime_profile cfg node man = (\<lambda>(runtime_service, rt).
     case compose_profile rt of
       Some p \<Rightarrow>
         if p = [] then Inr []
         else then_do (manifest_runtime_nodes cfg man runtime_service None) (\<lambda>ns.
                Inr (if node \<in> set ns then [p] else []))
     | None \<Rightarrow> Inr [])"

definition runtime_profiles_for_node ::
  "plugins \<Rightarrow> config \<Rightarrow> service_manifest list \<Rightarrow> string \<Rightarrow> config_error + string list"
where
  "runtime_profiles_for_node pl cfg manifests node =
     then_do
       (each (\<lambda>man.
          then_do (service_is_enabled pl cfg man (catalog pl)) (\<lambda>on.
            if on then then_do (each (runtime_profile cfg node man) (runtimes man)) (\<lambda>ps. Inr (concat ps))
            else Inr [])) manifests)
       (\<lambda>pss. Inr (sort (remdups (concat pss))))"

definition manifest_storage_nodes :: "config \<Rightarrow> service_manifest \<Rightarrow> string \<Rightarrow> config_error + string list" where
  "manifest_storage_nodes cfg man runtime_service =
     (if runtime_service \<noteq> [] then manifest_runtime_nodes cfg man runtime_service None
      else then_do (manifest_node cfg man) (\<lambda>n. Inr [n]))"

definition owner_node :: "plugins \<Rightarrow> config \<Rightarrow> service_manifest \<Rightarrow> config_error + string" where
  "owner_node pl cfg man =
     then_do (service_is_enabled pl cfg man (catalog pl)) (\<lambda>on.
       if on then manifest_node cfg man
       else (case resolve_node_selector cfg False (placement man) of
               Inl e \<Rightarrow> if is_value_error e then control_node cfg else Inl e
             | Inr n \<Rightarrow> Inr n))"

fun service_node_map_from ::
  "plugins \<Rightarrow> config \<Rightarrow> service_manifest list \<Rightarrow> (string \<times> string) list \<Rightarrow> config_error + (string \<times> string) list"
where
  "service_node_map_from pl cfg [] resolved = Inr resolved"
| "service_node_map_from pl cfg (man # mans) resolved =
     then_do (owner_node pl cfg man) (\<lambda>n.
       service_node_map_from pl cfg mans (dict_set (manifest_name man) n resolved))"

definition service_node_map ::
  "plugins \<Rightarrow> config \<Rightarrow> service_manifest list \<Rightarrow> config_error + (string \<times> string) list"
where
  "service_node_map pl cfg manifests = service_node_map_from pl cfg manifests []"

definition service_node :: "plugins \<Rightarrow> config \<Rightarrow> string \<Rightarrow> config_error + string" where
  "service_node pl cfg service =
     (if \<not> is_multi_node cfg then control_node cfg
      else then_do (require_service (catalog pl) service) (\<lambda>man.
             case manifest_node cfg man of
               Inl e \<Rightarrow> Inl (if is_value_error e then Invalid_placement service e else e)
             | Inr n \<Rightarrow> Inr n))"

definition service_address :: "plugins \<Rightarrow> config \<Rightarrow> string \<Rightarrow> config_error + string" where
  "service_address pl cfg service = then_do (service_node pl cfg service) (node_ip cfg)"

definition service_is_local :: "plugins \<Rightarrow> config \<Rightarrow> string \<Rightarrow> string \<Rightarrow> config_error + bool" where
  "service_is_local pl cfg current service =
     (if \<not> is_multi_node cfg then Inr True
      else then_do (service_node pl cfg service) (\<lambda>n. Inr (current = n)))"

section \<open>Custom projects\<close>

definition project_node :: "config \<Rightarrow> project_entry \<Rightarrow> config_error + string" where
  "project_node cfg project =
     (if \<not> is_multi_node cfg then control_node cfg
      else (case resolve_node_selector cfg True (project_placement project) of
              Inl e \<Rightarrow> Inl (if is_value_error e then Invalid_placement (project_subdomain project) e else e)
            | Inr n \<Rightarrow> Inr n))"

definition project_service_name :: "project_entry \<Rightarrow> string" where
  "project_service_name project = ''project-'' @ project_subdomain project"

definition project_profiles_for_vm :: "config \<Rightarrow> string \<Rightarrow> config_error + string list" where
  "project_profiles_for_vm cfg vm =
     (if \<not> is_multi_node cfg
      then then_do (control_node cfg) (\<lambda>c.
             if vm \<noteq> c then Inr [] else Inr (sort (map project_service_name (projects cfg))))
      else then_do
             (each (\<lambda>project. then_do (project_node cfg project) (\<lambda>n.
                Inr (if n = vm then [project_service_name project] else []))) (projects cfg))
             (\<lambda>pss. Inr (sort (concat pss))))"

datatype placement_kind = Capability | Machine

definition add_labels ::
  "config \<Rightarrow> string \<Rightarrow> (string \<times> string list) list \<Rightarrow> (string \<times> string list) list"
where
  "add_labels cfg machine_id labels =
     fold (\<lambda>label d. dict_set label ((case map_of d label of None \<Rightarrow> [] | Some ns \<Rightarrow> ns) @ [machine_id]) d)
       (case map_of (machines cfg) machine_id of None \<Rightarrow> [] | Some m \<Rightarrow> machine_labels m) labels"

definition project_placement_options :: "config \<Rightarrow> (string \<times> string \<times> placement_kind) list" where
  "project_placement_options cfg =
     (let labels = fold (add_labels cfg) (enabled_nodes cfg) [];
          options = map (\<lambda>(label, ns). (label, hd ns, Capability))
                      (filter (\<lambda>(label, ns). length ns = 1) (sort_key fst labels));
          portable = map fst options
      in options @ map (\<lambda>i. (i, i, Machine)) (filter (\<lambda>i. i \<notin> set portable) (enabled_nodes cfg)))"

definition default_project_placement :: "config \<Rightarrow> config_error + string" where
  "default_project_placement cfg = control_node cfg"

section \<open>Resolved machines are enabled\<close>

lemma selector_matches_iff:
  "n \<in> set (selector_matches cfg True selector) \<longleftrightarrow>
     (\<exists>m. (n, m) \<in> set (machines cfg) \<and> enabled m \<and> selector \<in> set (machine_labels m))"
  by (force simp: selector_matches_def)

lemma map_of_enabled: "map_of (machines cfg) i = Some m \<Longrightarrow> enabled m \<Longrightarrow> i \<in> set (enabled_nodes cfg)"
  by (auto simp: set_enabled_nodes dest: map_of_SomeD)

lemma resolve_enabled:
  assumes "resolve_node_selector cfg True selector = Inr n"
  shows "n \<in> set (enabled_nodes cfg)"
proof -
  consider (exact) m where "map_of (machines cfg) selector = Some m" "enabled m" "n = selector"
    | (label) "selector_matches cfg True selector = [n]"
    using assms by (auto simp: resolve_node_selector_def split: option.splits if_splits list.splits)
  then show ?thesis
  proof cases
    case exact
    then show ?thesis by (simp add: map_of_enabled)
  next
    case label
    then have "n \<in> set (selector_matches cfg True selector)" by simp
    then show ?thesis unfolding selector_matches_iff set_enabled_nodes by blast
  qed
qed

lemma manifest_node_enabled: "manifest_node cfg man = Inr n \<Longrightarrow> n \<in> set (enabled_nodes cfg)"
  by (auto simp: manifest_node_def resolve_enabled control_node_enabled split: if_splits)

lemma runtime_selector_enabled:
  assumes "runtime_selector cfg primary selector = Inr ns" and "primary \<in> set (enabled_nodes cfg)"
  shows "set ns \<subseteq> set (enabled_nodes cfg)"
  using assms
  by (auto simp: runtime_selector_def map_of_enabled Let_def split: if_splits option.splits)

lemma project_node_enabled: "project_node cfg project = Inr n \<Longrightarrow> n \<in> set (enabled_nodes cfg)"
  by (auto simp: project_node_def resolve_enabled control_node_enabled split: if_splits sum.splits)

lemma each_concat_subset:
  assumes "each f xs = Inr yss" and "\<And>x ys. x \<in> set xs \<Longrightarrow> f x = Inr ys \<Longrightarrow> set ys \<subseteq> S"
  shows "set (concat yss) \<subseteq> S"
proof -
  have "list_all2 (\<lambda>x ys. f x = Inr ys) xs yss" using assms(1) by (simp add: each_Inr_iff)
  then show ?thesis using assms(2)
    by (induction xs yss rule: list_all2_induct) (auto, blast+)
qed

lemma runtime_nodes_enabled:
  assumes "manifest_runtime_nodes cfg man runtime_service None = Inr ns"
  shows "distinct ns \<and> set ns \<subseteq> set (enabled_nodes cfg)"
proof -
  obtain primary where p: "manifest_node cfg man = Inr primary"
    using assms by (auto simp: manifest_runtime_nodes_def primary_or_def then_do_Inr_iff)
  then have en: "primary \<in> set (enabled_nodes cfg)" by (rule manifest_node_enabled)
  have "ns = [primary] \<or> (\<exists>sels nss. each (runtime_selector cfg primary) sels = Inr nss \<and> ns = fromkeys (concat nss))"
    using assms p
    by (auto simp: manifest_runtime_nodes_def primary_or_def then_do_Inr_iff split: option.splits if_splits)
  then show ?thesis
  proof (elim disjE exE conjE)
    assume "ns = [primary]"
    then show ?thesis using en by simp
  next
    fix sels nss
    assume run: "each (runtime_selector cfg primary) sels = Inr nss" and ns: "ns = fromkeys (concat nss)"
    from run have "set (concat nss) \<subseteq> set (enabled_nodes cfg)"
      by (rule each_concat_subset) (rule runtime_selector_enabled [OF _ en])
    with ns show ?thesis by simp
  qed
qed

end
