(* ===== verification/Dependency_Plans.thy ===== *)
theory Dependency_Plans
  imports Main
begin

text \<open>
  What the planners of the registry share: both take a finite set of named items with dependency
  edges and either order the items, dependencies first, or report that they are stuck.  The locale
  \<open>dependency_plan\<close> is that contract; its lemmas say that being stuck means a dependency cycle.
\<close>

section \<open>Stuck sets and cycles\<close>

definition stuck :: "('a \<times> 'a) set \<Rightarrow> 'a set \<Rightarrow> bool" where
  "stuck E R \<longleftrightarrow> R \<noteq> {} \<and> (\<forall>n \<in> R. \<exists>d \<in> R. (n, d) \<in> E)"

definition cyclic :: "('a \<times> 'a) set \<Rightarrow> bool" where
  "cyclic E \<longleftrightarrow> (\<exists>n. (n, n) \<in> E\<^sup>+)"

lemma cyclic_iff: "cyclic E \<longleftrightarrow> \<not> acyclic E"
  by (auto simp: cyclic_def acyclic_def)

lemma stuck_cyclic:
  assumes "finite R" and "stuck E R"
  shows "cyclic E"
proof (rule ccontr)
  assume "\<not> cyclic E"
  then have ac: "acyclic (E \<inter> R \<times> R)" by (auto simp: cyclic_iff intro: acyclic_subset)
  have "finite (E \<inter> R \<times> R)" using assms(1) by (auto intro: finite_subset)
  with ac have "wf ((E \<inter> R \<times> R)\<inverse>)" by (intro finite_acyclic_wf_converse)
  moreover obtain x where "x \<in> R" using assms(2) by (auto simp: stuck_def)
  ultimately obtain z where z: "z \<in> R" and min: "\<And>y. (y, z) \<in> (E \<inter> R \<times> R)\<inverse> \<Longrightarrow> y \<notin> R"
    by (rule wfE_min) blast
  obtain d where "d \<in> R" "(z, d) \<in> E" using assms(2) z by (auto simp: stuck_def)
  with z min show False by blast
qed

text \<open>Every member of a stuck set leads into a cycle.\<close>

lemma stuck_reaches_cycle:
  assumes "finite R" and "stuck E R" and "n \<in> R"
  shows "\<exists>c. (n, c) \<in> E\<^sup>* \<and> (c, c) \<in> E\<^sup>+"
proof -
  let ?F = "E \<inter> R \<times> R"
  define S where "S = ?F\<^sup>* `` {n}"
  have sub: "S \<subseteq> R"
  proof
    fix m
    assume "m \<in> S"
    then have "(n, m) \<in> ?F\<^sup>*" by (simp add: S_def)
    then show "m \<in> R" using assms(3) by (induction rule: rtrancl_induct) auto
  qed
  have "\<exists>d \<in> S. (m, d) \<in> E \<inter> S \<times> S" if m: "m \<in> S" for m
  proof -
    obtain d where d: "d \<in> R" "(m, d) \<in> E" using m sub assms(2) by (auto simp: stuck_def)
    then have "(m, d) \<in> ?F" using m sub by blast
    then have "d \<in> S" using m unfolding S_def by (auto intro: rtrancl_into_rtrancl)
    with d m show ?thesis by blast
  qed
  then have "stuck (E \<inter> S \<times> S) S" by (auto simp: stuck_def S_def)
  then have "cyclic (E \<inter> S \<times> S)" using sub assms(1) by (meson finite_subset stuck_cyclic)
  then obtain c where c: "(c, c) \<in> (E \<inter> S \<times> S)\<^sup>+" by (auto simp: cyclic_def)
  then have "c \<in> S" by (auto dest: tranclD)
  then have "(n, c) \<in> E\<^sup>*" unfolding S_def by (auto intro: in_rtrancl_UnI rtrancl_mono [THEN subsetD, rotated])
  moreover have "(c, c) \<in> E\<^sup>+" using c by (rule trancl_mono) auto
  ultimately show ?thesis by blast
qed

section \<open>The contract of a planner\<close>

text \<open>
  \<open>steps\<close> is the sequence of groups the planner starts one after the other.  A plan is sound when
  it covers the items exactly once and the dependencies of every group lie in earlier groups.
\<close>

definition ordered_steps :: "('a \<times> 'a) set \<Rightarrow> 'a list list \<Rightarrow> bool" where
  "ordered_steps E steps \<longleftrightarrow>
     (\<forall>i < length steps. \<forall>n \<in> set (steps ! i). \<forall>d. (n, d) \<in> E \<longrightarrow> (\<exists>j < i. d \<in> set (steps ! j)))"

lemma ordered_steps_trancl:
  assumes "ordered_steps E steps" and "(n, d) \<in> E\<^sup>+" and "i < length steps" and "n \<in> set (steps ! i)"
  shows "\<exists>j < i. d \<in> set (steps ! j)"
  using assms(2)
proof (induction rule: trancl_induct)
  case (base d)
  with assms show ?case unfolding ordered_steps_def by blast
next
  case (step d d')
  then obtain j where j: "j < i" "d \<in> set (steps ! j)" by blast
  with assms(3) have "j < length steps" by simp
  with assms(1) j step.hyps obtain k where "k < j" "d' \<in> set (steps ! k)"
    unfolding ordered_steps_def by blast
  with j show ?case by (meson order.strict_trans)
qed

lemma ordered_no_loop:
  assumes "ordered_steps E steps" and "c \<in> set (concat steps)"
  shows "(c, c) \<notin> E\<^sup>+"
proof
  assume loop: "(c, c) \<in> E\<^sup>+"
  have "c \<notin> set (steps ! i)" if "i < length steps" for i
    using that
  proof (induction i rule: less_induct)
    case (less i)
    show ?case
    proof
      assume "c \<in> set (steps ! i)"
      then obtain j where "j < i" "c \<in> set (steps ! j)"
        using ordered_steps_trancl [OF assms(1) loop less.prems] by blast
      with less show False by simp
    qed
  qed
  with assms(2) show False by (auto simp: set_conv_nth [of steps])
qed

lemma ordered_reaches_no_loop:
  assumes "ordered_steps E steps" and "n \<in> set (concat steps)" and "(n, c) \<in> E\<^sup>*"
  shows "(c, c) \<notin> E\<^sup>+"
proof -
  obtain i where i: "i < length steps" "n \<in> set (steps ! i)"
    using assms(2) by (auto simp: set_conv_nth [of steps])
  have "c \<in> set (concat steps)"
  proof (cases "c = n")
    case False
    then have "(n, c) \<in> E\<^sup>+" using assms(3) by (simp add: rtrancl_eq_or_trancl)
    then obtain j where "j < i" "c \<in> set (steps ! j)" using ordered_steps_trancl [OF assms(1) _ i] by blast
    with i show ?thesis by (auto intro!: bexI [of _ "steps ! j"])
  qed (use assms(2) in simp)
  with assms(1) show ?thesis by (rule ordered_no_loop)
qed

locale dependency_plan =
  fixes E :: "('a \<times> 'a) set" and items :: "'a set" and plan :: "'e + 'a list list"
  assumes finite_items: "finite items"
    and edges: "E \<subseteq> items \<times> items"
    and success: "plan = Inr steps \<Longrightarrow>
          distinct (concat steps) \<and> set (concat steps) = items \<and> ordered_steps E steps"
    and failure: "plan = Inl e \<Longrightarrow> \<exists>R \<subseteq> items. stuck E R"
begin

lemma planned_acyclic:
  assumes "plan = Inr steps"
  shows "\<not> cyclic E"
proof -
  have "(n, n) \<notin> E\<^sup>+" for n
  proof
    assume loop: "(n, n) \<in> E\<^sup>+"
    then have "n \<in> items" using edges by (auto dest: tranclD)
    with loop show False using success [OF assms] ordered_no_loop by metis
  qed
  then show ?thesis by (simp add: cyclic_def)
qed

lemma fails_iff_cyclic: "(\<exists>e. plan = Inl e) \<longleftrightarrow> cyclic E"
proof
  assume "\<exists>e. plan = Inl e"
  then obtain R where R: "R \<subseteq> items" "stuck E R" using failure by blast
  from R(1) finite_items have "finite R" by (rule finite_subset)
  then show "cyclic E" using R(2) by (rule stuck_cyclic)
next
  assume "cyclic E"
  then show "\<exists>e. plan = Inl e" using planned_acyclic by (cases plan) auto
qed

end

end
