(* ===== verification/Service_Graph.thy ===== *)
theory Service_Graph
  imports Py_Documents Dependency_Plans
begin

text \<open>
  \<open>toolkit/core/registry/service_graph.py\<close>: the index of a Compose document and its topological
  layers.  A dictionary is the list of its items in insertion order, with distinct keys.  Compose
  requires service names to be text; an entry of \<open>services\<close> with another key is left out here.
  Reading the document from disk or from \<open>docker compose config\<close> is not modelled: the definitions
  start from the decoded mapping.
\<close>

section \<open>Data\<close>

record port_binding =
  published :: string
  target :: string
  host_ip :: string

record service_node =
  snode_name :: string
  image_ref :: string
  profiles :: "string list"
  depends_on :: "string list"
  ports :: "port_binding list"
  labels :: document

type_synonym service_graph = "(string \<times> service_node) list"

datatype graph_error = Services_not_a_mapping | Cycle_in_depends_on "string list"

section \<open>Parsing\<close>

definition parse_profiles :: "py_texts \<Rightarrow> pyval \<Rightarrow> string list" where
  "parse_profiles tx v =
     (if \<not> truthy v then []
      else (case v of PStr s \<Rightarrow> [s] | PList xs \<Rightarrow> map (py_str tx) xs | _ \<Rightarrow> []))"

definition parse_depends_on :: "py_texts \<Rightarrow> pyval \<Rightarrow> string list" where
  "parse_depends_on tx v =
     (if \<not> truthy v then []
      else (case v of PList xs \<Rightarrow> map (py_str tx) xs | PDict kvs \<Rightarrow> map (key_str tx \<circ> fst) kvs | _ \<Rightarrow> []))"

definition parse_port_string :: "string \<Rightarrow> port_binding" where
  "parse_port_string v =
     (case split_on (CHR '':'') v of
        [p, t] \<Rightarrow> \<lparr>published = p, target = t, host_ip = []\<rparr>
      | h # p # t # rest \<Rightarrow> \<lparr>published = p, target = t, host_ip = h\<rparr>
      | _ \<Rightarrow> \<lparr>published = v, target = [], host_ip = []\<rparr>)"

definition parse_port_entry :: "py_texts \<Rightarrow> pyval \<Rightarrow> port_binding list" where
  "parse_port_entry tx entry =
     (case entry of
        PStr s \<Rightarrow> [parse_port_string s]
      | PDict kvs \<Rightarrow>
          [\<lparr>published = py_str tx (dict_get_or ''published'' (PStr []) kvs),
            target = py_str tx (dict_get_or ''target'' (PStr []) kvs),
            host_ip = py_str tx (dict_get_or ''host_ip'' (PStr []) kvs)\<rparr>]
      | _ \<Rightarrow> [])"

definition parse_ports :: "py_texts \<Rightarrow> pyval \<Rightarrow> port_binding list" where
  "parse_ports tx v = (case v of PList xs \<Rightarrow> concat (map (parse_port_entry tx) xs) | _ \<Rightarrow> [])"

definition parse_homelab_labels :: "py_texts \<Rightarrow> document \<Rightarrow> document" where
  "parse_homelab_labels tx spec =
     (case dict_get ''x-homelab'' spec of
        Some (PDict kvs) \<Rightarrow> kvs
      | _ \<Rightarrow>
          (case get_or ''labels'' (PDict []) spec of
             PDict kvs \<Rightarrow> filter (\<lambda>(k, v). prefix ''x-homelab.'' (key_str tx k)) kvs
           | _ \<Rightarrow> []))"

definition compose_node :: "py_texts \<Rightarrow> string \<Rightarrow> document \<Rightarrow> service_node" where
  "compose_node tx name spec =
     \<lparr>snode_name = name,
      image_ref = py_str tx (get_or ''image'' (PStr []) spec),
      profiles = parse_profiles tx (dict_get_or ''profiles'' PNone spec),
      depends_on = parse_depends_on tx (dict_get_or ''depends_on'' PNone spec),
      ports = parse_ports tx (dict_get_or ''ports'' PNone spec),
      labels = parse_homelab_labels tx spec\<rparr>"

fun add_service :: "py_texts \<Rightarrow> pykey \<times> pyval \<Rightarrow> service_graph \<Rightarrow> service_graph" where
  "add_service tx (KStr name, PDict spec) nodes = dict_set name (compose_node tx name spec) nodes"
| "add_service tx _ nodes = nodes"

definition compose_nodes :: "py_texts \<Rightarrow> document \<Rightarrow> service_graph" where
  "compose_nodes tx services = fold (add_service tx) services []"

definition from_compose_dict :: "py_texts \<Rightarrow> document \<Rightarrow> graph_error + service_graph" where
  "from_compose_dict tx raw =
     (case get_or ''services'' (PDict []) raw of
        PDict services \<Rightarrow> Inr (compose_nodes tx services)
      | _ \<Rightarrow> Inl Services_not_a_mapping)"

section \<open>Queries\<close>

definition service_names :: "service_graph \<Rightarrow> string list" where
  "service_names g = map fst g"

definition filter_by_profiles :: "service_graph \<Rightarrow> string set \<Rightarrow> service_graph" where
  "filter_by_profiles g enabled =
     filter (\<lambda>(name, node). profiles node = [] \<or> list_ex (\<lambda>p. p \<in> enabled) (profiles node)) g"

definition dependency_map :: "service_graph \<Rightarrow> (string \<times> string list) list" where
  "dependency_map g =
     map (\<lambda>(name, node). (name, filter (\<lambda>d. d \<in> set (service_names g)) (depends_on node))) g"

section \<open>Topological layers\<close>

text \<open>
  The two dictionaries of the algorithm: how many edges of a service still wait, and for each
  service the ones that wait for it.  They are filled by one loop over the edges; a repeated entry
  of \<open>depends_on\<close> counts as often as it is written.
\<close>

type_synonym edge_index = "(string \<Rightarrow> int) \<times> (string \<Rightarrow> string list)"

definition add_edge :: "string list \<Rightarrow> string \<times> string \<Rightarrow> edge_index \<Rightarrow> edge_index" where
  "add_edge names = (\<lambda>(name, dep) (in_degree, dependents).
     if dep \<notin> set names then (in_degree, dependents)
     else (in_degree(name := in_degree name + 1), dependents(dep := dependents dep @ [name])))"

definition declared_edges :: "service_graph \<Rightarrow> (string \<times> string) list" where
  "declared_edges g = concat (map (\<lambda>(name, node). map (Pair name) (depends_on node)) g)"

definition index_edges :: "service_graph \<Rightarrow> edge_index" where
  "index_edges g = fold (add_edge (service_names g)) (declared_edges g) (\<lambda>_. 0, \<lambda>_. [])"

definition release :: "string \<Rightarrow> (string \<Rightarrow> int) \<times> string list \<Rightarrow> (string \<Rightarrow> int) \<times> string list" where
  "release child = (\<lambda>(in_degree, ready).
     (let d = in_degree child - 1
      in (in_degree(child := d), if d = 0 then ready @ [child] else ready)))"

definition run_layer ::
  "(string \<Rightarrow> string list) \<Rightarrow> string list \<Rightarrow> (string \<Rightarrow> int) \<Rightarrow> (string \<Rightarrow> int) \<times> string list"
where
  "run_layer dependents layer in_degree = fold release (concat (map dependents layer)) (in_degree, [])"

partial_function (option) layers_from ::
  "(string \<Rightarrow> string list) \<Rightarrow> string list \<Rightarrow> (string \<Rightarrow> int) \<Rightarrow> string list list
     \<Rightarrow> (string list list \<times> (string \<Rightarrow> int)) option"
where
  [code]: "layers_from dependents ready in_degree layers =
     (if ready = [] then Some (layers, in_degree)
      else
        (let layer = sort ready; (in_degree', ready') = run_layer dependents layer in_degree
         in layers_from dependents ready' in_degree' (layers @ [layer])))"

definition topo_layers :: "service_graph \<Rightarrow> (graph_error + string list list) option" where
  "topo_layers g =
     (let (in_degree, dependents) = index_edges g;
          ready = sort (filter (\<lambda>n. in_degree n = 0) (service_names g))
      in case layers_from dependents ready in_degree [] of
           None \<Rightarrow> None
         | Some (layers, in_degree') \<Rightarrow>
             (let remaining = filter (\<lambda>n. in_degree' n > 0) (service_names g)
              in Some (if remaining \<noteq> [] then Inl (Cycle_in_depends_on (sort remaining)) else Inr layers)))"

lemma sort_eq_Nil [simp]: "sort xs = [] \<longleftrightarrow> xs = []"
  by (metis set_empty set_sort)

section \<open>The edges between services of the graph\<close>

definition graph_edges :: "service_graph \<Rightarrow> (string \<times> string) set" where
  "graph_edges g = {e \<in> set (declared_edges g). snd e \<in> set (service_names g)}"

definition edge_count :: "service_graph \<Rightarrow> (string \<Rightarrow> bool) \<Rightarrow> string \<Rightarrow> nat" where
  "edge_count g p n = length (filter (\<lambda>e. fst e = n \<and> p (snd e)) (declared_edges g))"

text \<open>How many declared edges of \<open>n\<close> wait for services of the graph outside \<open>D\<close>.\<close>

definition waits :: "service_graph \<Rightarrow> string set \<Rightarrow> string \<Rightarrow> nat" where
  "waits g D n = edge_count g (\<lambda>d. d \<in> set (service_names g) \<and> d \<notin> D) n"

lemma declared_edges_source: "e \<in> set (declared_edges g) \<Longrightarrow> fst e \<in> set (service_names g)"
  by (force simp: declared_edges_def service_names_def)

lemma graph_edges_iff:
  "distinct (service_names g) \<Longrightarrow>
     (n, d) \<in> graph_edges g \<longleftrightarrow>
       (\<exists>node. map_of g n = Some node \<and> d \<in> set (depends_on node) \<and> d \<in> set (service_names g))"
  by (force simp: graph_edges_def declared_edges_def service_names_def)

lemma graph_edges_subset: "graph_edges g \<subseteq> set (service_names g) \<times> set (service_names g)"
proof
  fix e
  assume "e \<in> graph_edges g"
  then show "e \<in> set (service_names g) \<times> set (service_names g)"
    using declared_edges_source [of e g] by (cases e) (auto simp: graph_edges_def)
qed

lemma waits_zero_iff: "waits g D n = 0 \<longleftrightarrow> (\<forall>d. (n, d) \<in> graph_edges g \<longrightarrow> d \<in> D)"
  by (force simp: waits_def edge_count_def graph_edges_def filter_empty_conv)

lemma fold_add_edge:
  "fold (add_edge names) es (i, d) =
     (\<lambda>n. i n + int (length (filter (\<lambda>e. fst e = n \<and> snd e \<in> set names) es)),
      \<lambda>m. d m @ (if m \<in> set names then map fst (filter (\<lambda>e. snd e = m) es) else []))"
  by (induction es arbitrary: i d) (auto simp: add_edge_def fun_eq_iff)

lemma index_edges_eq:
  "index_edges g =
     (\<lambda>n. int (waits g {} n),
      \<lambda>m. if m \<in> set (service_names g) then map fst (filter (\<lambda>e. snd e = m) (declared_edges g)) else [])"
  by (auto simp: index_edges_def fold_add_edge waits_def edge_count_def fun_eq_iff)

section \<open>One layer\<close>

lemma fold_release:
  assumes "\<And>n. int (count_list cs n) \<le> deg n" and "distinct rdy"
    and "\<And>n. n \<in> set rdy \<Longrightarrow> deg n = 0"
  shows "fst (fold release cs (deg, rdy)) = (\<lambda>n. deg n - int (count_list cs n))
    \<and> distinct (snd (fold release cs (deg, rdy)))
    \<and> set (snd (fold release cs (deg, rdy))) = set rdy \<union> {n \<in> set cs. deg n = int (count_list cs n)}"
  using assms
proof (induction cs arbitrary: deg rdy)
  case Nil
  then show ?case by simp
next
  case (Cons c cs)
  let ?deg = "deg(c := deg c - 1)" and ?rdy = "if deg c - 1 = 0 then rdy @ [c] else rdy"
  have step: "release c (deg, rdy) = (?deg, ?rdy)" by (simp add: release_def Let_def)
  have c: "1 + int (count_list cs c) \<le> deg c" using Cons.prems(1) [of c] by simp
  have le: "int (count_list cs n) \<le> ?deg n" for n
    using Cons.prems(1) [of n] by (auto split: if_splits)
  have fresh: "c \<notin> set rdy" using Cons.prems(3) [of c] c by auto
  have zero: "?deg n = 0" if "n \<in> set ?rdy" for n
    using that Cons.prems(3) [of n] fresh by (auto split: if_splits)
  have "distinct ?rdy" using Cons.prems(2) fresh by simp
  note IH = Cons.IH [of ?deg ?rdy, OF le this zero]
  have none: "count_list cs c = 0" if "deg c = 1" using c that by simp
  then have sets: "set ?rdy \<union> {n \<in> set cs. ?deg n = int (count_list cs n)}
      = set rdy \<union> {n \<in> set (c # cs). deg n = int (count_list (c # cs) n)}"
    using fresh c by (auto simp: count_list_0_iff split: if_splits)
  have degs: "(\<lambda>n. ?deg n - int (count_list cs n)) = (\<lambda>n. deg n - int (count_list (c # cs) n))"
    by (auto simp: fun_eq_iff)
  have "fold release (c # cs) (deg, rdy) = fold release cs (?deg, ?rdy)" by (simp add: step)
  with IH show ?case by (simp only: sets degs)
qed

lemma count_sources: "count_list (map fst (filter (\<lambda>e. snd e = m) es)) n
    = length (filter (\<lambda>e. fst e = n \<and> snd e = m) es)"
  by (induction es) auto

lemma edge_count_split:
  assumes "\<And>d. \<not> (p d \<and> q d)"
  shows "edge_count g (\<lambda>d. p d \<or> q d) n = edge_count g p n + edge_count g q n"
proof -
  have "length (filter (\<lambda>e. fst e = n \<and> (p (snd e) \<or> q (snd e))) es)
      = length (filter (\<lambda>e. fst e = n \<and> p (snd e)) es) + length (filter (\<lambda>e. fst e = n \<and> q (snd e)) es)" for es
    using assms by (induction es) auto
  then show ?thesis by (simp add: edge_count_def)
qed

lemma count_dependents:
  assumes "distinct layer" and "set layer \<subseteq> set (service_names g)"
  shows "count_list (concat (map (snd (index_edges g)) layer)) n = edge_count g (\<lambda>d. d \<in> set layer) n"
  using assms
proof (induction layer)
  case Nil
  then show ?case by (simp add: edge_count_def)
next
  case (Cons m layer)
  have "edge_count g (\<lambda>d. d \<in> set (m # layer)) n
      = edge_count g (\<lambda>d. d = m \<or> d \<in> set layer) n"
    by simp
  also have "\<dots> = edge_count g (\<lambda>d. d = m) n + edge_count g (\<lambda>d. d \<in> set layer) n"
    using Cons.prems(1) by (intro edge_count_split) auto
  finally show ?case using Cons by (simp add: index_edges_eq count_sources edge_count_def)
qed

lemma waits_split:
  assumes "set layer \<subseteq> set (service_names g)" and "set layer \<inter> D = {}"
  shows "waits g D n = waits g (D \<union> set layer) n + edge_count g (\<lambda>d. d \<in> set layer) n"
proof -
  have "waits g D n = edge_count g
      (\<lambda>d. (d \<in> set (service_names g) \<and> d \<notin> D \<union> set layer) \<or> d \<in> set layer) n"
    unfolding waits_def by (rule arg_cong [where f = "\<lambda>p. edge_count g p n"]) (use assms in auto)
  also have "\<dots> = waits g (D \<union> set layer) n + edge_count g (\<lambda>d. d \<in> set layer) n"
    unfolding waits_def by (rule edge_count_split) auto
  finally show ?thesis .
qed

section \<open>The loop\<close>

text \<open>
  What holds whenever the loop looks at \<open>ready\<close>: the finished services are ordered, the counters
  count the edges into unfinished services, and \<open>ready\<close> holds exactly the unfinished services
  with no edge left.  \<open>as_early\<close> says that no service could have been in an earlier layer.
\<close>

definition as_early :: "(string \<times> string) set \<Rightarrow> string list list \<Rightarrow> bool" where
  "as_early E layers \<longleftrightarrow>
     (\<forall>i. Suc i < length layers \<longrightarrow> (\<forall>n \<in> set (layers ! Suc i). \<exists>d \<in> set (layers ! i). (n, d) \<in> E))"

definition kahn_inv :: "service_graph \<Rightarrow> string list \<Rightarrow> (string \<Rightarrow> int) \<Rightarrow> string list list \<Rightarrow> bool" where
  "kahn_inv g ready deg layers \<longleftrightarrow>
     distinct (concat layers) \<and> set (concat layers) \<subseteq> set (service_names g)
     \<and> ordered_steps (graph_edges g) layers \<and> as_early (graph_edges g) layers
     \<and> list_all (\<lambda>l. l \<noteq> [] \<and> sorted l) layers
     \<and> deg = (\<lambda>n. int (waits g (set (concat layers)) n))
     \<and> distinct ready
     \<and> set ready = {n \<in> set (service_names g). n \<notin> set (concat layers) \<and> waits g (set (concat layers)) n = 0}
     \<and> (layers \<noteq> [] \<longrightarrow> (\<forall>n \<in> set ready. \<exists>d \<in> set (last layers). (n, d) \<in> graph_edges g))"

lemma ordered_steps_snoc:
  "ordered_steps E (layers @ [l]) \<longleftrightarrow>
     ordered_steps E layers \<and> (\<forall>n \<in> set l. \<forall>d. (n, d) \<in> E \<longrightarrow> d \<in> set (concat layers))"
  (is "?L \<longleftrightarrow> ?R")
proof
  assume L: ?L
  have "ordered_steps E layers"
    unfolding ordered_steps_def
  proof (intro allI impI ballI)
    fix i n d
    assume "i < length layers" "n \<in> set (layers ! i)" "(n, d) \<in> E"
    with L have "\<exists>j < i. d \<in> set ((layers @ [l]) ! j)"
      unfolding ordered_steps_def by (metis length_append_singleton less_SucI nth_append)
    with \<open>i < length layers\<close> show "\<exists>j < i. d \<in> set (layers ! j)"
      by (metis nth_append order.strict_trans)
  qed
  moreover have "d \<in> set (concat layers)" if "n \<in> set l" "(n, d) \<in> E" for n d
  proof -
    have "\<exists>j < length layers. d \<in> set ((layers @ [l]) ! j)"
      using L that unfolding ordered_steps_def
      by (metis length_append_singleton lessI nth_append_length)
    then show ?thesis by (auto simp: nth_append)
  qed
  ultimately show ?R by blast
next
  assume R: ?R
  show ?L
    unfolding ordered_steps_def
  proof (intro allI impI ballI)
    fix i n d
    assume i: "i < length (layers @ [l])" and n: "n \<in> set ((layers @ [l]) ! i)" and e: "(n, d) \<in> E"
    show "\<exists>j < i. d \<in> set ((layers @ [l]) ! j)"
    proof (cases "i < length layers")
      case True
      then have "n \<in> set (layers ! i)" using n by (simp add: nth_append)
      with True R e obtain j where "j < i" "d \<in> set (layers ! j)"
        unfolding ordered_steps_def by blast
      with True show ?thesis by (auto simp: nth_append intro!: exI [of _ j])
    next
      case False
      with i n have "i = length layers" "n \<in> set l" by (auto simp: nth_append)
      with R e have "d \<in> set (concat layers)" by blast
      then obtain j where "j < length layers" "d \<in> set (layers ! j)"
        by (auto simp: set_conv_nth [of layers])
      with \<open>i = length layers\<close> show ?thesis by (auto simp: nth_append intro!: exI [of _ j])
    qed
  qed
qed

lemma as_early_snoc:
  assumes "as_early E layers" and "layers \<noteq> [] \<Longrightarrow> \<forall>n \<in> set l. \<exists>d \<in> set (last layers). (n, d) \<in> E"
  shows "as_early E (layers @ [l])"
  unfolding as_early_def
proof (intro allI impI ballI)
  fix i n
  assume i: "Suc i < length (layers @ [l])" and n: "n \<in> set ((layers @ [l]) ! Suc i)"
  show "\<exists>d \<in> set ((layers @ [l]) ! i). (n, d) \<in> E"
  proof (cases "Suc i < length layers")
    case True
    with assms(1) n show ?thesis by (simp add: as_early_def nth_append)
  next
    case False
    with i have eq: "length layers = Suc i" by simp
    then have ne: "layers \<noteq> []" by auto
    then have "last layers = layers ! i" using eq by (simp add: last_conv_nth)
    with ne eq n assms(2) show ?thesis by (simp add: nth_append)
  qed
qed

lemma kahn_start:
  "kahn_inv g (sort (filter (\<lambda>n. int (waits g {} n) = 0) (service_names g))) (\<lambda>n. int (waits g {} n)) []"
  if "distinct (service_names g)"
  using that by (auto simp: kahn_inv_def ordered_steps_def as_early_def)

lemma run_layer_result:
  assumes inv: "kahn_inv g ready deg layers" and layer: "layer = sort ready"
    and run: "run_layer (snd (index_edges g)) layer deg = (deg', ready')"
  defines "D \<equiv> set (concat layers)"
  shows "deg' = (\<lambda>n. int (waits g (D \<union> set layer) n)) \<and> distinct ready'
    \<and> set ready' = {n. 0 < waits g D n \<and> waits g (D \<union> set layer) n = 0}"
proof -
  let ?cs = "concat (map (snd (index_edges g)) layer)"
  have lay: "set layer \<subseteq> set (service_names g)" "set layer \<inter> D = {}" "distinct layer"
    using inv by (auto simp: kahn_inv_def layer D_def)
  have cnt: "count_list ?cs n = edge_count g (\<lambda>d. d \<in> set layer) n" for n
    by (rule count_dependents [OF lay(3,1)])
  have deg: "deg n = int (waits g D n)" for n using inv by (simp add: kahn_inv_def D_def)
  have split: "waits g D n = waits g (D \<union> set layer) n + count_list ?cs n" for n
    using waits_split [OF lay(1,2), of n] cnt by simp
  have le: "int (count_list ?cs n) \<le> deg n" for n using split [of n] deg [of n] by simp
  have R: "fst (fold release ?cs (deg, [])) = (\<lambda>n. deg n - int (count_list ?cs n))
    \<and> distinct (snd (fold release ?cs (deg, [])))
    \<and> set (snd (fold release ?cs (deg, []))) = {n \<in> set ?cs. deg n = int (count_list ?cs n)}"
    using fold_release [OF le, of "[]"] by simp
  have run': "fold release ?cs (deg, []) = (deg', ready')" using run by (simp add: run_layer_def)
  have "n \<in> set ?cs \<longleftrightarrow> 0 < count_list ?cs n" for n
    using count_list_0_iff [of ?cs n] by auto
  then have "{n \<in> set ?cs. deg n = int (count_list ?cs n)} = {n. 0 < waits g D n \<and> waits g (D \<union> set layer) n = 0}"
    using split deg by fastforce
  moreover have "(\<lambda>n. deg n - int (count_list ?cs n)) = (\<lambda>n. int (waits g (D \<union> set layer) n))"
    using split deg by (simp add: fun_eq_iff)
  ultimately show ?thesis using R unfolding run' by simp
qed

lemma kahn_finished:
  assumes inv: "kahn_inv g ready deg layers" and n: "n \<in> set (concat layers)"
  shows "waits g (set (concat layers)) n = 0"
proof -
  from n obtain i where i: "i < length layers" "n \<in> set (layers ! i)"
    by (auto simp: set_conv_nth [of layers])
  have "\<exists>j < i. d \<in> set (layers ! j)" if "(n, d) \<in> graph_edges g" for d
    using inv i that unfolding kahn_inv_def ordered_steps_def by blast
  then show ?thesis using i(1) by (auto simp: waits_zero_iff) (metis nth_mem order.strict_trans)
qed

lemma kahn_step:
  assumes inv: "kahn_inv g ready deg layers" and ne: "ready \<noteq> []"
    and run: "run_layer (snd (index_edges g)) (sort ready) deg = (deg', ready')"
  shows "kahn_inv g ready' deg' (layers @ [sort ready])"
proof -
  define D where "D = set (concat layers)"
  define layer where "layer = sort ready"
  note res = run_layer_result [OF inv layer_def run [folded layer_def], folded D_def]
  have lay: "set layer = {n \<in> set (service_names g). n \<notin> D \<and> waits g D n = 0}" "distinct layer"
      "layer \<noteq> []" "sorted layer"
    using inv ne by (auto simp: kahn_inv_def layer_def D_def)
  have D': "set (concat (layers @ [layer])) = D \<union> set layer" by (simp add: D_def)
  have ord: "ordered_steps (graph_edges g) (layers @ [layer])"
    using inv lay(1) by (auto simp: kahn_inv_def ordered_steps_snoc waits_zero_iff D_def)
  have finished: "waits g D n = 0" if "n \<in> D" for n
    using kahn_finished [OF inv] that by (simp add: D_def)
  have new: "set ready' = {n \<in> set (service_names g). n \<notin> D \<union> set layer \<and> waits g (D \<union> set layer) n = 0}"
  proof -
    have "n \<in> set (service_names g)" if "0 < waits g D n" for n
    proof -
      from that obtain d where "(n, d) \<in> graph_edges g" using waits_zero_iff [of g D n] by auto
      then show ?thesis using graph_edges_subset by blast
    qed
    then show ?thesis using res lay(1) finished by auto
  qed
  have linked: "\<exists>d \<in> set layer. (n, d) \<in> graph_edges g" if "n \<in> set ready'" for n
  proof -
    have "0 < waits g D n" "waits g (D \<union> set layer) n = 0" using that res by auto
    then show ?thesis using waits_zero_iff [of g D n] waits_zero_iff [of g "D \<union> set layer" n] by auto
  qed
  have "as_early (graph_edges g) (layers @ [layer])"
    using inv by (intro as_early_snoc) (auto simp: kahn_inv_def layer_def)
  moreover have "distinct (concat (layers @ [layer]))" "D \<union> set layer \<subseteq> set (service_names g)"
    using inv lay by (auto simp: kahn_inv_def D_def)
  moreover have "list_all (\<lambda>l. l \<noteq> [] \<and> sorted l) (layers @ [layer])"
    using inv lay by (simp add: kahn_inv_def)
  ultimately show ?thesis
    using ord res new linked unfolding layer_def [symmetric] kahn_inv_def D' by simp
qed

text \<open>The loop ends: every round moves at least one service to the finished ones.\<close>

lemma layers_from_ends:
  assumes "kahn_inv g ready deg layers"
  shows "\<exists>layers' deg'. layers_from (snd (index_edges g)) ready deg layers = Some (layers', deg')
    \<and> kahn_inv g [] deg' layers'"
  using assms
proof (induction "card (set (service_names g) - set (concat layers))" arbitrary: ready deg layers
    rule: less_induct)
  case less
  show ?case
  proof (cases "ready = []")
    case True
    with less.prems show ?thesis by (simp add: layers_from.simps)
  next
    case False
    obtain deg' ready' where run: "run_layer (snd (index_edges g)) (sort ready) deg = (deg', ready')"
      by (cases "run_layer (snd (index_edges g)) (sort ready) deg")
    have "set ready \<subseteq> set (service_names g)" "set ready \<inter> set (concat layers) = {}"
      using less.prems by (auto simp: kahn_inv_def)
    moreover obtain r where "r \<in> set ready" using False by (cases ready) auto
    ultimately have "set (service_names g) - (set (concat layers) \<union> set ready)
        \<subset> set (service_names g) - set (concat layers)" by blast
    then have "card (set (service_names g) - set (concat (layers @ [sort ready])))
        < card (set (service_names g) - set (concat layers))" by (simp add: psubset_card_mono)
    from less.hyps [OF this kahn_step [OF less.prems False run]] show ?thesis
      using False run by (simp add: layers_from.simps [of _ ready])
  qed
qed

lemma topo_layers_cases:
  assumes "distinct (service_names g)"
  shows "(\<exists>layers. topo_layers g = Some (Inr layers) \<and> kahn_inv g [] (\<lambda>_. 0) layers
            \<and> set (concat layers) = set (service_names g))
       \<or> (\<exists>rest. topo_layers g = Some (Inl (Cycle_in_depends_on rest)) \<and> sorted rest \<and> distinct rest
            \<and> set rest \<subseteq> set (service_names g) \<and> stuck (graph_edges g) (set rest)
            \<and> (\<exists>layers. ordered_steps (graph_edges g) layers
                  \<and> set (concat layers) = set (service_names g) - set rest))"
proof -
  let ?dep = "snd (index_edges g)"
  obtain layers deg where run: "layers_from ?dep
        (sort (filter (\<lambda>n. int (waits g {} n) = 0) (service_names g))) (\<lambda>n. int (waits g {} n)) []
        = Some (layers, deg)"
      and inv: "kahn_inv g [] deg layers"
    using layers_from_ends [OF kahn_start [OF assms]] by blast
  define D where "D = set (concat layers)"
  define rest where "rest = sort (filter (\<lambda>n. deg n > 0) (service_names g))"
  have eq: "topo_layers g = Some (if rest \<noteq> [] then Inl (Cycle_in_depends_on rest) else Inr layers)"
    using run by (simp add: topo_layers_def index_edges_eq Let_def rest_def split: prod.splits)
  have deg: "deg = (\<lambda>n. int (waits g D n))" using inv by (simp add: kahn_inv_def D_def)
  have left: "0 < waits g D n" if "n \<in> set (service_names g)" "n \<notin> D" for n
    using inv that by (auto simp: kahn_inv_def D_def)
  show ?thesis
  proof (cases "rest = []")
    case True
    then have zero: "waits g D n = 0" if "n \<in> set (service_names g)" for n
      using that by (auto simp: rest_def deg filter_empty_conv)
    moreover have "waits g D n = 0" if "n \<notin> set (service_names g)" for n
      using that graph_edges_subset by (auto simp: waits_zero_iff)
    ultimately have "deg = (\<lambda>_. 0)" using deg by (auto simp: fun_eq_iff)
    moreover have "D = set (service_names g)"
      using inv left zero by (fastforce simp: kahn_inv_def D_def)
    ultimately show ?thesis using eq True inv by (simp add: D_def)
  next
    case False
    have "\<exists>d \<in> set rest. (n, d) \<in> graph_edges g" if n: "n \<in> set rest" for n
    proof -
      have "0 < waits g D n" using n by (simp add: rest_def deg)
      then obtain d where d: "(n, d) \<in> graph_edges g" "d \<notin> D" using waits_zero_iff [of g D n] by auto
      then have "d \<in> set (service_names g)" using graph_edges_subset by blast
      with d show ?thesis using left by (auto simp: rest_def deg)
    qed
    then have st: "stuck (graph_edges g) (set rest)" using False by (auto simp: stuck_def)
    have "ordered_steps (graph_edges g) layers" "D \<subseteq> set (service_names g)"
      using inv by (auto simp: kahn_inv_def D_def)
    moreover have "waits g D n = 0" if "n \<in> D" for n
      using kahn_finished [OF inv] that by (simp add: D_def)
    ultimately have "ordered_steps (graph_edges g) layers \<and> set (concat layers) = set (service_names g) - set rest"
      using left by (auto simp: rest_def deg D_def [symmetric] simp del: set_concat)
    moreover have "sorted rest" "distinct rest" "set rest \<subseteq> set (service_names g)"
      using assms by (auto simp: rest_def)
    ultimately show ?thesis using eq False st by auto
  qed
qed

section \<open>Graphs with distinct names\<close>

locale service_dictionary =
  fixes g :: service_graph
  assumes distinct_names: "distinct (service_names g)"
begin

lemma returns: "\<exists>r. topo_layers g = Some r"
  using topo_layers_cases [OF distinct_names] by auto

lemma layers_inv:
  "topo_layers g = Some (Inr layers) \<Longrightarrow>
     kahn_inv g [] (\<lambda>_. 0) layers \<and> set (concat layers) = set (service_names g)"
  using topo_layers_cases [OF distinct_names] by auto

lemma rest_stuck:
  "topo_layers g = Some (Inl e) \<Longrightarrow>
     \<exists>rest. e = Cycle_in_depends_on rest \<and> set rest \<subseteq> set (service_names g) \<and> stuck (graph_edges g) (set rest)"
  using topo_layers_cases [OF distinct_names] by auto

text \<open>The services named in the error are exactly those that lead into a cycle.\<close>

lemma rest_exact:
  assumes "topo_layers g = Some (Inl (Cycle_in_depends_on rest))"
  shows "n \<in> set rest \<longleftrightarrow> (n \<in> set (service_names g) \<and> (\<exists>c. (n, c) \<in> (graph_edges g)\<^sup>* \<and> (c, c) \<in> (graph_edges g)\<^sup>+))"
proof -
  obtain layers where rest: "set rest \<subseteq> set (service_names g)" "stuck (graph_edges g) (set rest)"
      and fin: "ordered_steps (graph_edges g) layers" "set (concat layers) = set (service_names g) - set rest"
    using topo_layers_cases [OF distinct_names] assms by auto
  show ?thesis
  proof (cases "n \<in> set rest")
    case True
    with rest show ?thesis using stuck_reaches_cycle [OF _ rest(2) True] by auto
  next
    case False
    then show ?thesis using ordered_reaches_no_loop [OF fin(1)] fin(2) by blast
  qed
qed

end

sublocale service_dictionary \<subseteq> topo: dependency_plan "graph_edges g" "set (service_names g)" "the (topo_layers g)"
proof
  show "finite (set (service_names g))" by simp
  show "graph_edges g \<subseteq> set (service_names g) \<times> set (service_names g)" by (rule graph_edges_subset)
next
  fix layers
  assume "the (topo_layers g) = Inr layers"
  then have "topo_layers g = Some (Inr layers)" using returns by auto
  from layers_inv [OF this] show "distinct (concat layers) \<and> set (concat layers) = set (service_names g)
      \<and> ordered_steps (graph_edges g) layers"
    unfolding kahn_inv_def by blast
next
  fix e
  assume "the (topo_layers g) = Inl e"
  then have "topo_layers g = Some (Inl e)" using returns by auto
  from rest_stuck [OF this] show "\<exists>R \<subseteq> set (service_names g). stuck (graph_edges g) R" by blast
qed

text \<open>The dictionary built from a document has distinct names, and so has every part of it.\<close>

lemma add_service_distinct: "distinct (map fst g) \<Longrightarrow> distinct (map fst (add_service tx kv g))"
  by (cases "(tx, kv, g)" rule: add_service.cases) auto

lemma compose_nodes_distinct: "distinct (service_names (compose_nodes tx services))"
proof -
  have "distinct (map fst g) \<Longrightarrow> distinct (map fst (fold (add_service tx) services g))" for g
    by (induction services arbitrary: g) (auto intro: add_service_distinct)
  then show ?thesis by (simp add: service_names_def compose_nodes_def)
qed

lemma filter_by_profiles_distinct:
  "distinct (service_names g) \<Longrightarrow> distinct (service_names (filter_by_profiles g enabled))"
  by (simp add: service_names_def filter_by_profiles_def distinct_map_filter)

interpretation composed: service_dictionary "compose_nodes tx services" for tx services
  by unfold_locales (rule compose_nodes_distinct)

interpretation profiled: service_dictionary "filter_by_profiles (compose_nodes tx services) enabled"
  for tx services enabled
  by unfold_locales (rule filter_by_profiles_distinct [OF compose_nodes_distinct])

lemma from_compose_nodes: "from_compose_dict tx raw = Inr g \<Longrightarrow> \<exists>services. g = compose_nodes tx services"
  by (auto simp: from_compose_dict_def split: pyval.splits)

end
