(* ===== verification/Stagger_Planner.thy ===== *)
theory Stagger_Planner
  imports Placement Service_Graph "HOL-Library.Multiset"
begin

text \<open>
  \<open>core/registry/stagger_planner.py\<close>: the order in which the applications of one machine start.
  A Compose file on disk is missing, unreadable, or decodes to a value; the function from a plugin
  name to its Compose file is a parameter.  Python sets are lists here, used only through
  membership, and the loops over them do not depend on the order.
\<close>

section \<open>Compose files\<close>

datatype compose_file = Missing_file | Unreadable_file | Decoded_file pyval

datatype stagger_error =
    Bad_compose_model
  | Unnamed_service
  | Type_error
  | Unknown_runtimes string "string list"
  | Placement_error config_error
  | Unowned_services "string list"
  | Startup_cycle "(string \<times> string list) list"

definition compose_services :: "compose_file \<Rightarrow> stagger_error + document" where
  "compose_services f =
     (case f of
        Decoded_file v \<Rightarrow>
          (case (if truthy v then v else PDict []) of
             PDict kvs \<Rightarrow>
               (case dict_get ''services'' kvs of Some (PDict services) \<Rightarrow> Inr services | _ \<Rightarrow> Inl Bad_compose_model)
           | _ \<Rightarrow> Inl Bad_compose_model)
      | _ \<Rightarrow> Inl Bad_compose_model)"

text \<open>\<open>set(value)\<close>: a text gives its characters; a list must hold hashable values.\<close>

fun hashable :: "pyval \<Rightarrow> bool" where
  "hashable (PDict _) = False"
| "hashable (PList _) = False"
| "hashable (PTuple vs) = list_all hashable vs"
| "hashable _ = True"

fun members :: "pyval \<Rightarrow> stagger_error + pyval list" where
  "members (PList vs) = (if list_all hashable vs then Inr vs else Inl Type_error)"
| "members (PTuple vs) = (if list_all hashable vs then Inr vs else Inl Type_error)"
| "members (PStr s) = Inr (map (\<lambda>c. PStr [c]) s)"
| "members (PDict kvs) = Inr (map (\<lambda>(k, v). case k of KStr s \<Rightarrow> PStr s | KOther \<Rightarrow> POther) kvs)"
| "members _ = Inl Type_error"

definition service_active :: "document \<Rightarrow> string list \<Rightarrow> stagger_error + bool" where
  "service_active raw enabled_profiles =
     then_do (members (get_or ''profiles'' (PTuple []) raw)) (\<lambda>declared.
       Inr (declared = [] \<or> list_ex (\<lambda>p. PStr p \<in> set declared) enabled_profiles))"

fun active_services :: "document \<Rightarrow> string list \<Rightarrow> stagger_error + (string \<times> document) list" where
  "active_services [] ps = Inr []"
| "active_services ((KStr name, PDict raw) # kvs) ps =
     then_do (service_active raw ps) (\<lambda>on.
       then_do (active_services kvs ps) (\<lambda>rest. Inr (if on then (name, raw) # rest else rest)))"
| "active_services ((_, _) # kvs) ps = Inl Unnamed_service"

definition shared_namespace :: "document \<Rightarrow> string \<Rightarrow> string list" where
  "shared_namespace spec field =
     (case dict_get field spec of
        Some (PStr v) \<Rightarrow> if prefix ''service:'' v then [remove_prefix ''service:'' v] else []
      | _ \<Rightarrow> [])"

definition service_dependencies :: "document \<Rightarrow> string list" where
  "service_dependencies spec =
     (case get_or ''depends_on'' (PTuple []) spec of
        PDict kvs \<Rightarrow> concat (map (\<lambda>(k, v). case k of KStr s \<Rightarrow> [s] | KOther \<Rightarrow> []) kvs)
      | PList vs \<Rightarrow> concat (map (\<lambda>v. case v of PStr s \<Rightarrow> [s] | _ \<Rightarrow> []) vs)
      | _ \<Rightarrow> [])
     @ concat (map (shared_namespace spec) [''network_mode'', ''ipc'', ''pid''])"

section \<open>Owners\<close>

record planning =
  owners :: "string \<rightharpoonup> string"
  priorities :: "string \<rightharpoonup> int"
  manifest_dependencies :: "string \<rightharpoonup> string list"

definition no_planning :: planning where
  "no_planning = \<lparr>owners = Map.empty, priorities = Map.empty, manifest_dependencies = Map.empty\<rparr>"

fun own_services ::
  "config \<Rightarrow> string \<Rightarrow> string list \<Rightarrow> service_manifest \<Rightarrow> string list \<Rightarrow> (string \<rightharpoonup> string)
     \<Rightarrow> stagger_error + (string \<rightharpoonup> string)"
where
  "own_services cfg node active_names man [] own = Inr own"
| "own_services cfg node active_names man (s # ss) own =
     (case manifest_runtime_nodes cfg man s None of
        Inl e \<Rightarrow> Inl (Placement_error e)
      | Inr ns \<Rightarrow>
          own_services cfg node active_names man ss
            (if node \<in> set ns \<and> s \<in> set active_names then own(s \<mapsto> manifest_name man) else own))"

definition key_texts :: "document \<Rightarrow> string list" where
  "key_texts kvs = concat (map (\<lambda>(k, v). case k of KStr s \<Rightarrow> [s] | KOther \<Rightarrow> []) kvs)"

definition own_manifest ::
  "plugins \<Rightarrow> config \<Rightarrow> (string \<Rightarrow> compose_file) \<Rightarrow> string \<Rightarrow> string list \<Rightarrow> service_manifest \<Rightarrow> planning
     \<Rightarrow> stagger_error + planning"
where
  "own_manifest pl cfg files node active_names man p =
     (case service_is_enabled pl cfg man (catalog pl) of
        Inl e \<Rightarrow> Inl (Placement_error e)
      | Inr on \<Rightarrow>
          if \<not> on \<or> files (manifest_name man) = Missing_file then Inr p
          else then_do (compose_services (files (manifest_name man))) (\<lambda>services.
            (let application_services = key_texts services;
                 unknown = filter (\<lambda>s. s \<notin> set application_services) (map fst (runtimes man))
             in if unknown \<noteq> [] then Inl (Unknown_runtimes (manifest_name man) (sort unknown))
                else then_do (own_services cfg node active_names man application_services (owners p)) (\<lambda>own.
                  Inr \<lparr>owners = own,
                       priorities = (priorities p)(manifest_name man \<mapsto> priority man),
                       manifest_dependencies =
                         (manifest_dependencies p)(manifest_name man \<mapsto> manifest_depends_on man)\<rparr>))))"

fun own_manifests ::
  "plugins \<Rightarrow> config \<Rightarrow> (string \<Rightarrow> compose_file) \<Rightarrow> string \<Rightarrow> string list \<Rightarrow> service_manifest list \<Rightarrow> planning
     \<Rightarrow> stagger_error + planning"
where
  "own_manifests pl cfg files node active_names [] p = Inr p"
| "own_manifests pl cfg files node active_names (man # mans) p =
     then_do (own_manifest pl cfg files node active_names man p)
       (own_manifests pl cfg files node active_names mans)"

fun own_projects :: "config \<Rightarrow> string \<Rightarrow> string list \<Rightarrow> project_entry list \<Rightarrow> planning \<Rightarrow> stagger_error + planning" where
  "own_projects cfg node active_names [] p = Inr p"
| "own_projects cfg node active_names (proj # projs) p =
     (case project_node cfg proj of
        Inl e \<Rightarrow> Inl (Placement_error e)
      | Inr n \<Rightarrow>
          (let s = project_service_name proj
           in own_projects cfg node active_names projs
                (if n = node \<and> s \<in> set active_names
                 then \<lparr>owners = (owners p)(s \<mapsto> s), priorities = (priorities p)(s \<mapsto> 10000),
                       manifest_dependencies = (manifest_dependencies p)(s \<mapsto> [])\<rparr>
                 else p)))"

section \<open>Groups and dependencies\<close>

definition owner_of :: "planning \<Rightarrow> string \<Rightarrow> string" where
  "owner_of p service = the (owners p service)"

definition add_to_group :: "planning \<Rightarrow> string \<Rightarrow> (string \<times> string list) list \<Rightarrow> (string \<times> string list) list" where
  "add_to_group p service d =
     dict_set (owner_of p service)
       ((case map_of d (owner_of p service) of None \<Rightarrow> [] | Some ss \<Rightarrow> ss) @ [service]) d"

definition group_services :: "planning \<Rightarrow> string list \<Rightarrow> (string \<times> string list) list" where
  "group_services p active_names = fold (add_to_group p) active_names []"

definition owner_dependencies :: "planning \<Rightarrow> (string \<times> document) list \<Rightarrow> string list \<Rightarrow> string \<Rightarrow> string list" where
  "owner_dependencies p act grouped owner =
     filter (\<lambda>d. d \<in> set grouped \<and> d \<noteq> owner)
       (case manifest_dependencies p owner of None \<Rightarrow> [] | Some ds \<Rightarrow> ds)
     @ concat (map (\<lambda>(service, spec).
         if owner_of p service = owner
         then concat (map (\<lambda>d. case owners p d of
                None \<Rightarrow> [] | Some od \<Rightarrow> if od \<noteq> owner then [od] else []) (service_dependencies spec))
         else []) act)"

section \<open>The order\<close>

definition start_key :: "(string \<rightharpoonup> int) \<Rightarrow> string \<Rightarrow> int \<times> string" where
  "start_key prio owner = ((case prio owner of None \<Rightarrow> 10000 | Some n \<Rightarrow> n), owner)"

function start_order ::
  "(string \<Rightarrow> string list) \<Rightarrow> (string \<rightharpoonup> int) \<Rightarrow> string list \<Rightarrow> string list \<Rightarrow> stagger_error + string list"
where
  "start_order deps prio remaining completed =
     (if remaining = [] then Inr []
      else
        (let ready = filter (\<lambda>owner. set (deps owner) \<subseteq> set completed) remaining
         in if ready = []
            then Inl (Startup_cycle (map (\<lambda>owner.
                   (owner, sort (remdups (filter (\<lambda>d. d \<notin> set completed) (deps owner))))) (sort remaining)))
            else
              (let owner = arg_min_list (start_key prio) ready
               in then_do (start_order deps prio (removeAll owner remaining) (owner # completed))
                    (\<lambda>rest. Inr (owner # rest)))))"
  by pat_completeness auto

termination
proof (relation "measure (\<lambda>(deps, prio, remaining, completed). length remaining)", simp, goal_cases)
  case (1 deps prio remaining completed ready owner)
  then have "owner \<in> set ready" by (metis arg_min_list_in)
  with 1(2) have "owner \<in> set remaining" by auto
  then have "length (removeAll owner remaining) < length remaining"
    by (simp add: length_removeAll_less)
  then show ?case by simp
qed

declare start_order.simps [simp del]

definition plan_owners ::
  "plugins \<Rightarrow> config \<Rightarrow> (string \<Rightarrow> compose_file) \<Rightarrow> service_manifest list \<Rightarrow> string \<Rightarrow> string list
     \<Rightarrow> stagger_error + planning"
where
  "plan_owners pl cfg files manifests node active_names =
     then_do (own_manifests pl cfg files node active_names manifests no_planning) (\<lambda>p1.
     then_do (own_projects cfg node active_names (projects cfg) p1) (\<lambda>p.
       (let unowned = filter (\<lambda>s. owners p s = None) active_names
        in if unowned \<noteq> [] then Inl (Unowned_services (sort unowned)) else Inr p)))"

record stagger_wave =
  wave_name :: string
  wave_services :: "string list"

definition compose_stagger_waves ::
  "plugins \<Rightarrow> config \<Rightarrow> (string \<Rightarrow> compose_file) \<Rightarrow> service_manifest list \<Rightarrow> string \<Rightarrow> compose_file \<Rightarrow> string list
     \<Rightarrow> stagger_error + stagger_wave list"
where
  "compose_stagger_waves pl cfg files manifests node compose_path enabled_profiles =
     then_do (compose_services compose_path) (\<lambda>services.
     then_do (active_services services enabled_profiles) (\<lambda>act.
     then_do (plan_owners pl cfg files manifests node (map fst act)) (\<lambda>p.
       (let grouped = group_services p (map fst act)
        in then_do (start_order (owner_dependencies p act (map fst grouped)) (priorities p) (map fst grouped) [])
             (\<lambda>order. Inr (map (\<lambda>owner. \<lparr>wave_name = owner, wave_services = the (map_of grouped owner)\<rparr>) order))))))"

text \<open>The edges for cascading recovery: those of the Compose graph, then those of the manifests.\<close>

definition merge_dependencies ::
  "service_manifest \<Rightarrow> (string \<times> string list) list \<Rightarrow> (string \<times> string list) list"
where
  "merge_dependencies man merged =
     dict_set (manifest_name man)
       (fold (\<lambda>d bucket. if d \<in> set bucket then bucket else bucket @ [d]) (manifest_depends_on man)
         (case map_of merged (manifest_name man) of None \<Rightarrow> [] | Some ds \<Rightarrow> ds)) merged"

definition compose_dependency_map ::
  "py_texts \<Rightarrow> document option \<Rightarrow> service_manifest list \<Rightarrow> graph_error + (string \<times> string list) list"
where
  "compose_dependency_map tx compose manifests =
     then_do (case compose of
                None \<Rightarrow> Inr []
              | Some raw \<Rightarrow> then_do (from_compose_dict tx raw) (\<lambda>g. Inr (dependency_map g)))
       (\<lambda>merged. Inr (fold merge_dependencies manifests merged))"

section \<open>The order is a plan\<close>

definition owner_edges :: "(string \<Rightarrow> string list) \<Rightarrow> string list \<Rightarrow> (string \<times> string) set" where
  "owner_edges deps items = {(o1, o2). o1 \<in> set items \<and> o2 \<in> set (deps o1)}"

text \<open>
  \<open>greedy\<close> relates an order to the set of owners already started: each next owner has all its
  dependencies started and the least key of all owners for which that holds.
\<close>

fun greedy :: "(string \<Rightarrow> string list) \<Rightarrow> (string \<rightharpoonup> int) \<Rightarrow> string list \<Rightarrow> string set \<Rightarrow> string list \<Rightarrow> bool" where
  "greedy deps prio remaining started [] \<longleftrightarrow> remaining = []"
| "greedy deps prio remaining started (x # xs) \<longleftrightarrow>
     x \<in> set remaining \<and> set (deps x) \<subseteq> started
     \<and> (\<forall>y \<in> set remaining. set (deps y) \<subseteq> started \<longrightarrow> start_key prio x \<le> start_key prio y)
     \<and> greedy deps prio (removeAll x remaining) (insert x started) xs"

lemma arg_min_list_le: "y \<in> set xs \<Longrightarrow> f (arg_min_list f xs) \<le> f y"
proof -
  assume y: "y \<in> set xs"
  then have "xs \<noteq> []" by auto
  then have "f (arg_min_list f xs) = Min (f ` set xs)" by (rule f_arg_min_list_f)
  with y show ?thesis by simp
qed

lemma start_order_greedy:
  "start_order deps prio remaining completed = Inr order \<Longrightarrow> greedy deps prio remaining (set completed) order"
proof (induction deps prio remaining completed arbitrary: order rule: start_order.induct)
  case (1 deps prio remaining completed)
  show ?case
  proof (cases "remaining = []")
    case True
    with "1.prems" show ?thesis by (simp add: start_order.simps)
  next
    case False
    define ready where "ready = filter (\<lambda>owner. set (deps owner) \<subseteq> set completed) remaining"
    define x where "x = arg_min_list (start_key prio) ready"
    have ne: "ready \<noteq> []"
      using "1.prems" False by (auto simp: start_order.simps [of _ _ remaining] ready_def Let_def)
    then obtain rest where rest: "start_order deps prio (removeAll x remaining) (x # completed) = Inr rest"
        and order: "order = x # rest"
      using "1.prems" False
      by (auto simp: start_order.simps [of _ _ remaining] ready_def [symmetric] x_def [symmetric] Let_def then_do_Inr_iff)
    have "x \<in> set ready" unfolding x_def using ne by (rule arg_min_list_in)
    moreover have "start_key prio x \<le> start_key prio y" if "y \<in> set ready" for y
      unfolding x_def using that by (rule arg_min_list_le)
    moreover have "greedy deps prio (removeAll x remaining) (set (x # completed)) rest"
      using "1.IH" [OF False ready_def ne x_def rest] .
    ultimately show ?thesis by (auto simp: order ready_def)
  qed
qed

lemma greedy_order:
  assumes "greedy deps prio remaining started xs"
  shows "distinct xs \<and> set xs = set remaining
    \<and> (\<forall>i < length xs. set (deps (xs ! i)) \<subseteq> started \<union> set (take i xs))"
  using assms
proof (induction xs arbitrary: remaining started)
  case Nil
  then show ?case by simp
next
  case (Cons x xs)
  then have "greedy deps prio (removeAll x remaining) (insert x started) xs" by simp
  note all = Cons.IH [OF this]
  then have IH: "distinct xs" "set xs = set (removeAll x remaining)"
      "\<forall>i < length xs. set (deps (xs ! i)) \<subseteq> insert x started \<union> set (take i xs)" by blast+
  have "set (deps ((x # xs) ! i)) \<subseteq> started \<union> set (take i (x # xs))" if "i < length (x # xs)" for i
    using that IH(3) Cons.prems by (cases i) auto
  then show ?case using IH Cons.prems by auto
qed

lemma start_order_stuck:
  "start_order deps prio remaining completed = Inl e \<Longrightarrow>
     \<exists>R \<subseteq> set remaining. R \<noteq> {} \<and> (\<forall>x \<in> R. \<exists>d \<in> set (deps x). d \<notin> set completed \<union> (set remaining - R))"
proof (induction deps prio remaining completed arbitrary: e rule: start_order.induct)
  case (1 deps prio remaining completed)
  have nonempty: "remaining \<noteq> []" using "1.prems" by (auto simp: start_order.simps)
  define ready where "ready = filter (\<lambda>owner. set (deps owner) \<subseteq> set completed) remaining"
  define x where "x = arg_min_list (start_key prio) ready"
  show ?case
  proof (cases "ready = []")
    case True
    then show ?thesis using nonempty
      by (intro exI [of _ "set remaining"]) (auto simp: ready_def filter_empty_conv)
  next
    case ne: False
    then have "start_order deps prio (removeAll x remaining) (x # completed) = Inl e"
      using "1.prems" nonempty
      by (auto simp: start_order.simps [of _ _ remaining] ready_def [symmetric] x_def [symmetric] Let_def
          then_do_def split: sum.splits)
    from "1.IH" [OF nonempty ready_def ne x_def this] obtain R where
      R: "R \<subseteq> set (removeAll x remaining)" "R \<noteq> {}"
        "\<forall>y \<in> R. \<exists>d \<in> set (deps y). d \<notin> set (x # completed) \<union> (set (removeAll x remaining) - R)"
      by blast
    then show ?thesis by (intro exI [of _ R]) auto
  qed
qed

lemma start_order_plan:
  assumes "distinct items" and "\<And>x. x \<in> set items \<Longrightarrow> set (deps x) \<subseteq> set items"
  shows "dependency_plan (owner_edges deps items) (set items)
    (then_do (start_order deps prio items []) (\<lambda>order. Inr (map (\<lambda>x. [x]) order)))"
proof
  show "finite (set items)" by simp
  show "owner_edges deps items \<subseteq> set items \<times> set items" using assms(2) by (auto simp: owner_edges_def)
next
  fix steps
  assume "then_do (start_order deps prio items []) (\<lambda>order. Inr (map (\<lambda>x. [x]) order)) = Inr steps"
  then obtain order where run: "start_order deps prio items [] = Inr order" and steps: "steps = map (\<lambda>x. [x]) order"
    by (auto simp: then_do_Inr_iff)
  have o: "distinct order" "set order = set items" "\<forall>i < length order. set (deps (order ! i)) \<subseteq> set (take i order)"
    using greedy_order [OF start_order_greedy [OF run]] by auto
  have "concat steps = order" by (simp add: steps)
  moreover have "ordered_steps (owner_edges deps items) steps"
    unfolding ordered_steps_def
  proof (intro allI impI ballI)
    fix i n d
    assume i: "i < length steps" "n \<in> set (steps ! i)" and e: "(n, d) \<in> owner_edges deps items"
    then have "d \<in> set (take i order)" using o(3) by (auto simp: steps owner_edges_def)
    then show "\<exists>j < i. d \<in> set (steps ! j)" using i by (auto simp: steps in_set_conv_nth)
  qed
  ultimately show "distinct (concat steps) \<and> set (concat steps) = set items
      \<and> ordered_steps (owner_edges deps items) steps" using o by simp
next
  fix e
  assume "then_do (start_order deps prio items []) (\<lambda>order. Inr (map (\<lambda>x. [x]) order)) = Inl e"
  then have "start_order deps prio items [] = Inl e" by (auto simp: then_do_def split: sum.splits)
  from start_order_stuck [OF this] obtain R where R: "R \<subseteq> set items" "R \<noteq> {}"
      "\<forall>x \<in> R. \<exists>d \<in> set (deps x). d \<notin> set items - R" by auto
  then have "stuck (owner_edges deps items) R"
    using assms(2) unfolding stuck_def owner_edges_def by blast
  with R(1) show "\<exists>R \<subseteq> set items. stuck (owner_edges deps items) R" by blast
qed

section \<open>Owners and groups\<close>

lemma own_services_dom:
  "own_services cfg node names man ss own = Inr own' \<Longrightarrow> dom own \<subseteq> set names \<Longrightarrow> dom own' \<subseteq> set names"
  by (induction cfg node names man ss own rule: own_services.induct) (auto split: sum.splits if_splits)

lemma own_manifest_dom:
  assumes "own_manifest pl cfg files node names man p = Inr p'" and "dom (owners p) \<subseteq> set names"
  shows "dom (owners p') \<subseteq> set names"
proof -
  consider "p' = p" | ss where "own_services cfg node names man ss (owners p) = Inr (owners p')"
    using assms(1)
    by (auto simp: own_manifest_def Let_def then_do_Inr_iff split: sum.splits if_splits)
  then show ?thesis by cases (use assms(2) own_services_dom in blast)+
qed

lemma own_manifests_dom:
  "own_manifests pl cfg files node names mans p = Inr p' \<Longrightarrow> dom (owners p) \<subseteq> set names \<Longrightarrow> dom (owners p') \<subseteq> set names"
proof (induction mans arbitrary: p)
  case (Cons man mans)
  then obtain q where "own_manifest pl cfg files node names man p = Inr q"
      "own_manifests pl cfg files node names mans q = Inr p'" by (auto simp: then_do_Inr_iff)
  with Cons show ?case using own_manifest_dom by blast
qed simp

lemma own_projects_dom:
  "own_projects cfg node names projs p = Inr p' \<Longrightarrow> dom (owners p) \<subseteq> set names \<Longrightarrow> dom (owners p') \<subseteq> set names"
  by (induction cfg node names projs p rule: own_projects.induct)
    (auto simp: Let_def split: sum.splits if_splits)

lemma plan_owners_dom:
  assumes "plan_owners pl cfg files manifests node names = Inr p"
  shows "dom (owners p) = set names"
proof
  obtain p1 where p1: "own_manifests pl cfg files node names manifests no_planning = Inr p1"
      and p: "own_projects cfg node names (projects cfg) p1 = Inr p"
      and all: "filter (\<lambda>s. owners p s = None) names = []"
    using assms by (auto simp: plan_owners_def Let_def then_do_Inr_iff split: if_splits)
  show "dom (owners p) \<subseteq> set names"
    using own_projects_dom [OF p] own_manifests_dom [OF p1] by (simp add: no_planning_def)
  show "set names \<subseteq> dom (owners p)" using all by (auto simp: filter_empty_conv)
qed

lemma fold_add_to_group:
  "map_of (fold (add_to_group p) ss d) owner =
     (if owner \<in> owner_of p ` set ss \<or> owner \<in> fst ` set d
      then Some ((case map_of d owner of None \<Rightarrow> [] | Some xs \<Rightarrow> xs) @ filter (\<lambda>s. owner_of p s = owner) ss)
      else None)"
proof (induction ss arbitrary: d)
  case Nil
  then show ?case by (auto simp: map_of_eq_None_iff split: option.splits)
next
  case (Cons s ss)
  show ?case
    unfolding fold_simps Cons.IH
    by (auto simp: add_to_group_def map_of_dict_set dom_dict_set)
qed

lemma keys_add_to_group:
  "distinct (map fst d) \<Longrightarrow> distinct (map fst (fold (add_to_group p) ss d))
     \<and> fst ` set (fold (add_to_group p) ss d) = owner_of p ` set ss \<union> fst ` set d"
proof (induction ss arbitrary: d)
  case (Cons s ss)
  have "distinct (map fst (add_to_group p s d))" using Cons.prems by (auto simp: add_to_group_def)
  moreover have "fst ` set (add_to_group p s d) = insert (owner_of p s) (fst ` set d)"
    by (simp add: add_to_group_def dom_dict_set)
  ultimately show ?case using Cons.IH [of "add_to_group p s d"] by simp
qed simp

lemma group_services_facts:
  "distinct (map fst (group_services p ss))"
  "set (map fst (group_services p ss)) = owner_of p ` set ss"
  "owner \<in> owner_of p ` set ss \<Longrightarrow> map_of (group_services p ss) owner = Some (filter (\<lambda>s. owner_of p s = owner) ss)"
  using keys_add_to_group [of "[]" p ss] by (simp_all add: group_services_def fold_add_to_group)

lemma owner_dependencies_closed:
  assumes "dom (owners p) = fst ` set act"
  shows "set (owner_dependencies p act (map fst (group_services p (map fst act))) owner)
    \<subseteq> set (map fst (group_services p (map fst act))) - {owner}"
proof -
  have "od \<in> owner_of p ` fst ` set act" if "owners p d = Some od" for d od
  proof -
    have "d \<in> fst ` set act" using that assms by auto
    moreover have "od = owner_of p d" using that by (simp add: owner_of_def)
    ultimately show ?thesis by blast
  qed
  moreover have "set (map fst (group_services p (map fst act))) = owner_of p ` fst ` set act"
    using group_services_facts(2) [of p "map fst act"] by simp
  ultimately show ?thesis
    unfolding owner_dependencies_def by (auto split: option.splits if_splits)
qed

lemma mset_groups:
  "distinct os \<Longrightarrow> (\<And>x. x \<in> set xs \<Longrightarrow> f x \<in> set os) \<Longrightarrow>
     mset (concat (map (\<lambda>k. filter (\<lambda>x. f x = k) xs) os)) = mset xs"
proof (induction os arbitrary: xs)
  case Nil
  then show ?case by (cases xs) auto
next
  case (Cons k os)
  let ?rest = "filter (\<lambda>x. f x \<noteq> k) xs"
  have "filter (\<lambda>x. f x = j) xs = filter (\<lambda>x. f x = j) ?rest" if "j \<in> set os" for j
    using that Cons.prems(1) by (auto intro!: filter_cong)
  then have eq: "map (\<lambda>j. filter (\<lambda>x. f x = j) xs) os = map (\<lambda>j. filter (\<lambda>x. f x = j) ?rest) os"
    by (intro map_cong refl)
  have "mset (concat (map (\<lambda>j. filter (\<lambda>x. f x = j) ?rest) os)) = mset ?rest"
    using Cons.prems by (intro Cons.IH) auto
  then have "mset (concat (map (\<lambda>j. filter (\<lambda>x. f x = j) xs) os)) = mset ?rest" by (simp only: eq)
  then show ?case by (simp add: add.commute)
qed

end
