(* ===== verification/Registry_Properties.thy ===== *)
theory Registry_Properties
  imports Stagger_Planner
begin

text \<open>
  Properties of the service registry: topological layers of the Compose graph, placement of
  services on machines, and the startup waves of one machine.
\<close>

section \<open>Sample documents\<close>

definition sample_texts :: py_texts where
  "sample_texts = \<lparr>float_text = (\<lambda>f. ''1.0''), other_text = ''?''\<rparr>"

definition sample_service :: "string list \<Rightarrow> pyval" where
  "sample_service ds = PDict [(KStr ''depends_on'', PList (map PStr ds))]"

definition web_document :: document where
  "web_document = [(KStr ''services'', PDict
     [(KStr ''web'', sample_service [''api'', ''cache'']), (KStr ''db'', sample_service []),
      (KStr ''api'', sample_service [''db'', ''db'']), (KStr ''cache'', sample_service [])])]"

definition looping_document :: document where
  "looping_document = [(KStr ''services'', PDict
     [(KStr ''web'', sample_service [''api'']), (KStr ''api'', sample_service [''auth'']),
      (KStr ''auth'', sample_service [''api'']), (KStr ''db'', sample_service [])])]"

section \<open>Topological layers\<close>

text \<open>
  C12: the layers of a Compose graph, after any profile filter.  The computation always ends.  It
  raises exactly when the dependencies between the services of the graph have a cycle; otherwise
  every service is in exactly one layer, its dependencies are in earlier layers, every layer is
  sorted and not empty, and no service could be in an earlier layer: one of its dependencies is in
  the layer just before.
\<close>

theorem topo_layers_correct:
  fixes selected :: "string set"
  assumes "from_compose_dict tx raw = Inr g"
  defines "h \<equiv> filter_by_profiles g selected"
  shows "\<exists>r. topo_layers h = Some r \<and> ((\<exists>e. r = Inl e) \<longleftrightarrow> cyclic (graph_edges h))
    \<and> (\<forall>layers. r = Inr layers \<longrightarrow>
         distinct (concat layers) \<and> set (concat layers) = set (service_names h)
         \<and> ordered_steps (graph_edges h) layers \<and> as_early (graph_edges h) layers
         \<and> list_all (\<lambda>l. l \<noteq> [] \<and> sorted l) layers)"
proof -
  obtain services where g: "g = compose_nodes tx services" using from_compose_nodes [OF assms(1)] by blast
  obtain r where r: "topo_layers h = Some r"
    using profiled.returns [of tx services selected] unfolding h_def g by blast
  have "(\<exists>e. r = Inl e) \<longleftrightarrow> cyclic (graph_edges h)"
    using profiled.topo.fails_iff_cyclic [of tx services selected] r unfolding h_def g by simp
  moreover have "kahn_inv h [] (\<lambda>_. 0) layers \<and> set (concat layers) = set (service_names h)"
    if "r = Inr layers" for layers
    using profiled.layers_inv [of tx services selected layers] r that unfolding h_def g by blast
  ultimately show ?thesis using r unfolding kahn_inv_def by blast
qed

theorem topo_layers_correct_witness:
  "from_compose_dict sample_texts web_document = Inr (projr (from_compose_dict sample_texts web_document))
   \<and> topo_layers (filter_by_profiles (projr (from_compose_dict sample_texts web_document)) {})
       = Some (Inr [[''cache'', ''db''], [''api''], [''web'']])
   \<and> ordered_steps (graph_edges (filter_by_profiles (projr (from_compose_dict sample_texts web_document)) {}))
       [[''cache'', ''db''], [''api''], [''web'']]"
proof -
  have g: "from_compose_dict sample_texts web_document = Inr (projr (from_compose_dict sample_texts web_document))"
    by code_simp
  have r: "topo_layers (filter_by_profiles (projr (from_compose_dict sample_texts web_document)) {})
       = Some (Inr [[''cache'', ''db''], [''api''], [''web'']])" by code_simp
  from topo_layers_correct [OF g, of "{}"] g r show ?thesis by auto
qed

text \<open>
  C20: the error of \<open>topo_layers\<close> names exactly the services from which a dependency cycle can be
  reached, in sorted order: the members of the cycles and everything that depends on them.
\<close>

theorem topo_error_names_blocked:
  assumes "from_compose_dict tx raw = Inr g" and "topo_layers g = Some (Inl e)"
  shows "\<exists>rest. e = Cycle_in_depends_on rest \<and> sorted rest \<and> distinct rest \<and> rest \<noteq> []
    \<and> set rest = {n \<in> set (service_names g). \<exists>c. (n, c) \<in> (graph_edges g)\<^sup>* \<and> (c, c) \<in> (graph_edges g)\<^sup>+}"
proof -
  obtain services where g: "g = compose_nodes tx services" using from_compose_nodes [OF assms(1)] by blast
  have dist: "distinct (service_names g)" unfolding g by (rule compose_nodes_distinct)
  from topo_layers_cases [OF dist] assms(2) obtain rest where
    e: "e = Cycle_in_depends_on rest" and rest: "sorted rest" "distinct rest" "rest \<noteq> []"
    by (auto simp: stuck_def)
  have "set rest = {n \<in> set (service_names g). \<exists>c. (n, c) \<in> (graph_edges g)\<^sup>* \<and> (c, c) \<in> (graph_edges g)\<^sup>+}"
    using composed.rest_exact [of tx services rest] assms(2) unfolding e g by blast
  with e rest show ?thesis by blast
qed

theorem topo_error_names_blocked_witness:
  "\<exists>g. from_compose_dict sample_texts looping_document = Inr g
     \<and> topo_layers g = Some (Inl (Cycle_in_depends_on [''api'', ''auth'', ''web'']))
     \<and> {''api'', ''auth'', ''web''} =
         {n \<in> set (service_names g). \<exists>c. (n, c) \<in> (graph_edges g)\<^sup>* \<and> (c, c) \<in> (graph_edges g)\<^sup>+}"
proof -
  obtain g where g: "from_compose_dict sample_texts looping_document = Inr g"
    by (cases "from_compose_dict sample_texts looping_document") (auto simp: from_compose_dict_def
      looping_document_def get_or_def dict_get_or_def dict_get_def sample_service_def Let_def)
  have "topo_layers (projr (from_compose_dict sample_texts looping_document))
      = Some (Inl (Cycle_in_depends_on [''api'', ''auth'', ''web'']))" by code_simp
  then have t: "topo_layers g = Some (Inl (Cycle_in_depends_on [''api'', ''auth'', ''web'']))" by (simp add: g)
  from topo_error_names_blocked [OF g t] t g show ?thesis by auto
qed

section \<open>Startup waves\<close>

lemma then_do_total_fails: "(\<exists>e. then_do r (\<lambda>x. Inr (f x)) = Inl e) \<longleftrightarrow> (\<exists>e. r = Inl e)"
  by (cases r) auto

lemma stagger_stages:
  assumes "compose_services path = Inr services" and "active_services services ps = Inr act"
    and "plan_owners pl cfg files manifests node (map fst act) = Inr p"
  defines "G \<equiv> group_services p (map fst act)"
  shows "compose_stagger_waves pl cfg files manifests node path ps =
    then_do (start_order (owner_dependencies p act (map fst G)) (priorities p) (map fst G) [])
      (\<lambda>order. Inr (map (\<lambda>owner. \<lparr>wave_name = owner, wave_services = the (map_of G owner)\<rparr>) order))"
  using assms by (simp add: compose_stagger_waves_def Let_def)

lemma stagger_plan:
  assumes "plan_owners pl cfg files manifests node (map fst act) = Inr p"
  defines "items \<equiv> map fst (group_services p (map fst act))"
  defines "deps \<equiv> owner_dependencies p act items"
  shows "dependency_plan (owner_edges deps items) (set items)
    (then_do (start_order deps (priorities p) items []) (\<lambda>order. Inr (map (\<lambda>x. [x]) order)))"
proof (rule start_order_plan)
  show "distinct items" unfolding items_def by (rule group_services_facts(1))
  have "dom (owners p) = fst ` set act" using plan_owners_dom [OF assms(1)] by simp
  from owner_dependencies_closed [OF this] show "set (deps x) \<subseteq> set items" for x
    unfolding deps_def items_def by blast
qed

text \<open>
  C13: the startup waves of a machine.  One wave per application, every active service in exactly
  one wave, and a service never starts before an active service it depends on (through
  \<open>depends_on\<close> or a shared network, ipc or pid namespace): the wave of the dependency is the same
  one, when both belong to one application, or an earlier one.
\<close>

theorem startup_waves_ordered:
  assumes "compose_services path = Inr services" and "active_services services ps = Inr act"
    and "compose_stagger_waves pl cfg files manifests node path ps = Inr waves"
  shows "distinct (map wave_name waves)
    \<and> mset (concat (map wave_services waves)) = mset (map fst act)
    \<and> (\<forall>s spec d i j. (s, spec) \<in> set act \<longrightarrow> d \<in> set (service_dependencies spec) \<longrightarrow>
         i < length waves \<longrightarrow> j < length waves \<longrightarrow>
         s \<in> set (wave_services (waves ! i)) \<longrightarrow> d \<in> set (wave_services (waves ! j)) \<longrightarrow> j \<le> i)"
proof -
  obtain p where p: "plan_owners pl cfg files manifests node (map fst act) = Inr p"
    using assms by (auto simp: compose_stagger_waves_def then_do_Inr_iff)
  define G where "G = group_services p (map fst act)"
  define deps where "deps = owner_dependencies p act (map fst G)"
  obtain order where run: "start_order deps (priorities p) (map fst G) [] = Inr order"
      and waves: "waves = map (\<lambda>owner. \<lparr>wave_name = owner, wave_services = the (map_of G owner)\<rparr>) order"
    using assms(3) unfolding stagger_stages [OF assms(1,2) p] G_def deps_def by (auto simp: then_do_Inr_iff)
  have o: "distinct order" "set order = set (map fst G)"
      "\<forall>i < length order. set (deps (order ! i)) \<subseteq> set (take i order)"
    using greedy_order [OF start_order_greedy [OF run]] by auto
  have set_order: "set order = owner_of p ` fst ` set act"
    using group_services_facts(2) [of p "map fst act"] o(2) by (simp add: G_def)
  have wave: "the (map_of G x) = filter (\<lambda>s. owner_of p s = x) (map fst act)" if "x \<in> set order" for x
    using group_services_facts(3) [of x p "map fst act"] that by (simp add: G_def set_order)
  have names: "map wave_name waves = order" by (simp add: waves comp_def)
  have "map wave_services waves = map (\<lambda>x. filter (\<lambda>s. owner_of p s = x) (map fst act)) order"
    using wave by (simp add: waves)
  moreover have "mset (concat (map (\<lambda>x. filter (\<lambda>s. owner_of p s = x) (map fst act)) order)) = mset (map fst act)"
    using set_order by (intro mset_groups [OF o(1)]) auto
  ultimately have parts: "mset (concat (map wave_services waves)) = mset (map fst act)" by (simp only:)
  have later: "j \<le> i" if s: "(s, spec) \<in> set act" "d \<in> set (service_dependencies spec)"
      and i: "i < length waves" "s \<in> set (wave_services (waves ! i))"
      and j: "j < length waves" "d \<in> set (wave_services (waves ! j))" for s spec d i j
  proof (rule ccontr)
    assume less: "\<not> j \<le> i"
    have os: "owner_of p s = order ! i" and od: "owner_of p d = order ! j" and act: "d \<in> fst ` set act"
      using i j wave by (auto simp: waves)
    have ne: "order ! j \<noteq> order ! i" using less i j o(1) by (simp add: waves nth_eq_iff_index_eq)
    have "d \<in> dom (owners p)" using plan_owners_dom [OF p] act by simp
    then have "owners p d = Some (order ! j)" using od by (auto simp: owner_of_def)
    then have "order ! j \<in> set (deps (order ! i))"
      using s os ne unfolding deps_def owner_dependencies_def by force
    then have "order ! j \<in> set (take i order)" using o(3) i by (auto simp: waves)
    then obtain k where "k < i" "order ! k = order ! j" "k < length order" by (auto simp: in_set_conv_nth)
    then show False using less j o(1) by (simp add: waves nth_eq_iff_index_eq)
  qed
  show ?thesis using o(1) names parts later by simp
qed

text \<open>
  Planning ends, and it reports a startup cycle exactly when the applications depend on each
  other in a circle; with owners for all services it has no other way to fail.
\<close>

theorem startup_cycle_exact:
  assumes "compose_services path = Inr services" and "active_services services ps = Inr act"
    and "plan_owners pl cfg files manifests node (map fst act) = Inr p"
  defines "items \<equiv> map fst (group_services p (map fst act))"
  shows "(\<exists>e. compose_stagger_waves pl cfg files manifests node path ps = Inl e)
      \<longleftrightarrow> cyclic (owner_edges (owner_dependencies p act items) items)"
proof -
  show ?thesis
    using dependency_plan.fails_iff_cyclic [OF stagger_plan [OF assms(3)]]
    unfolding stagger_stages [OF assms(1-3)] items_def then_do_total_fails .
qed

section \<open>A sample deployment\<close>

definition sample_machine :: "bool \<Rightarrow> string list \<Rightarrow> int \<Rightarrow> machine_spec" where
  "sample_machine on ls ord = \<lparr>enabled = on, address = ''10.0.0.1'', machine_labels = ls, machine_gateway = ''10.0.0.254'', machine_cidr = 24, startup_order = ord\<rparr>"

definition sample_config :: config where
  "sample_config =
     \<lparr>machines = [(''edge'', sample_machine True [''edge''] 20), (''core'', sample_machine True [''control'', ''apps''] 10),
                  (''old'', sample_machine False [''apps''] 30)],
      category_flags = [], service_settings = [], projects = [], domain = ''example.org'',
      email = [], expose_via_internet = False,
      network = \<lparr>mesh_ipv4_cidr = ''100.64.0.0/10'', container_ipv4_cidr = ''172.31.0.0/17'', container_network_prefix = 28\<rparr>, external_hosts = [], backups_enabled = False, model_fields = []\<rparr>"

definition sample_manifest :: "string \<Rightarrow> string list \<Rightarrow> int \<Rightarrow> (string \<times> runtime_service) list \<Rightarrow> service_manifest" where
  "sample_manifest name ds prio rts =
     \<lparr>manifest_name = name, manifest_label = name, category = ''base'', placement = ''apps'', priority = prio,
      manifest_depends_on = ds, runtimes = rts, routes = [], settings = [], enabled_when = [], endpoint = None\<rparr>"

definition shop :: service_manifest where
  "shop = sample_manifest ''shop'' [] 1 [(''web'', \<lparr>placements = [''@all''], compose_profile = None,
     runtime_mode = Daemon, runtime_memory_floor = None, runtime_cpu_floor = None, required_host_paths = []\<rparr>)]"

definition store_db :: service_manifest where
  "store_db = sample_manifest ''store'' [] 5 []"

definition sample_plugins :: plugins where
  "sample_plugins = \<lparr>categories = [(''base'', True)], catalog = [shop, store_db]\<rparr>"

definition shop_file :: pyval where
  "shop_file = PDict [(KStr ''services'', PDict [(KStr ''web'', PDict []), (KStr ''api'', PDict [])])]"

definition store_file :: pyval where
  "store_file = PDict [(KStr ''services'', PDict [(KStr ''db'', PDict [])])]"

definition sample_files :: "string \<Rightarrow> compose_file" where
  "sample_files name =
     (if name = ''shop'' then Decoded_file shop_file
      else if name = ''store'' then Decoded_file store_file else Missing_file)"

definition node_services :: document where
  "node_services =
     [(KStr ''web'', sample_service [''api'']), (KStr ''api'', PDict [(KStr ''network_mode'', PStr ''service:db'')]),
      (KStr ''db'', sample_service [])]"

definition node_file :: compose_file where
  "node_file = Decoded_file (PDict [(KStr ''services'', PDict node_services)])"

definition node_active :: "(string \<times> document) list" where
  "node_active =
     [(''web'', [(KStr ''depends_on'', PList [PStr ''api''])]), (''api'', [(KStr ''network_mode'', PStr ''service:db'')]),
      (''db'', [(KStr ''depends_on'', PList [])])]"

lemma sample_stages:
  "compose_services node_file = Inr node_services"
  "active_services node_services [] = Inr node_active"
  by code_simp+

definition sample_waves :: "stagger_wave list" where
  "sample_waves = [\<lparr>wave_name = ''store'', wave_services = [''db'']\<rparr>,
     \<lparr>wave_name = ''shop'', wave_services = [''web'', ''api'']\<rparr>]"

lemma sample_waves_run:
  "compose_stagger_waves sample_plugins sample_config sample_files [shop, store_db] ''core'' node_file [] = Inr sample_waves"
  by code_simp

theorem startup_waves_ordered_witness:
  "compose_stagger_waves sample_plugins sample_config sample_files [shop, store_db] ''core'' node_file [] = Inr sample_waves
   \<and> mset (concat (map wave_services sample_waves)) = mset [''web'', ''api'', ''db'']
   \<and> distinct (map wave_name sample_waves)"
proof -
  have names: "map fst node_active = [''web'', ''api'', ''db'']" by code_simp
  show ?thesis
    using startup_waves_ordered [OF sample_stages sample_waves_run] sample_waves_run unfolding names by blast
qed

theorem startup_cycle_exact_witness:
  "\<exists>p. plan_owners sample_plugins sample_config sample_files [shop, store_db] ''core'' (map fst node_active) = Inr p
     \<and> \<not> cyclic (owner_edges (owner_dependencies p node_active (map fst (group_services p (map fst node_active))))
          (map fst (group_services p (map fst node_active))))"
proof -
  obtain p where p: "plan_owners sample_plugins sample_config sample_files [shop, store_db] ''core'' (map fst node_active) = Inr p"
    using sample_waves_run sample_stages by (auto simp: compose_stagger_waves_def then_do_Inr_iff)
  from startup_cycle_exact [OF sample_stages p] sample_waves_run p show ?thesis by auto
qed

section \<open>Placement\<close>

text \<open>
  A placement selector means one enabled machine: the machine of that name if it is enabled,
  otherwise the only enabled machine that carries the label; any other selector is refused.
\<close>

theorem selector_exact:
  fixes sel :: string
  assumes "distinct (map fst (machines cfg))"
  defines "labelled \<equiv> {i. \<exists>m. map_of (machines cfg) i = Some m \<and> enabled m \<and> sel \<in> set (machine_labels m)}"
  shows "resolve_node_selector cfg True sel = Inr n \<longleftrightarrow>
    (if sel \<in> set (enabled_nodes cfg) then n = sel else labelled = {n})"
proof -
  have set: "set (selector_matches cfg True sel) = labelled"
    unfolding labelled_def using assms(1) by (auto simp: set_eq_iff selector_matches_iff)
  have "distinct (selector_matches cfg True sel)"
    using assms(1) unfolding selector_matches_def distinct_sort by (rule distinct_map_filter)
  then have one: "(selector_matches cfg True sel = [n]) \<longleftrightarrow> labelled = {n}"
    unfolding set [symmetric] by (cases "selector_matches cfg True sel") (auto simp: subset_singleton_iff dest: sym)
  have exact: "sel \<in> set (enabled_nodes cfg) \<longleftrightarrow> (\<exists>m. map_of (machines cfg) sel = Some m \<and> enabled m)"
    using assms(1) by (simp add: set_enabled_nodes)
  show ?thesis
    unfolding exact one [symmetric]
    by (auto simp: resolve_node_selector_def split: option.splits if_splits list.splits)
qed

theorem selector_exact_witness:
  "distinct (map fst (machines sample_config))
   \<and> resolve_node_selector sample_config True ''apps'' = Inr ''core''
   \<and> {i. \<exists>m. map_of (machines sample_config) i = Some m \<and> enabled m \<and> ''apps'' \<in> set (machine_labels m)} = {''core''}"
proof -
  have d: "distinct (map fst (machines sample_config))" by code_simp
  have r: "resolve_node_selector sample_config True ''apps'' = Inr ''core''" by code_simp
  have "(''apps'' \<in> set (enabled_nodes sample_config)) = False" by code_simp
  with selector_exact [OF d, of "''apps''" "''core''"] d r show ?thesis by (simp only: if_False simp_thms)
qed

text \<open>
  The machines a runtime service is placed on are distinct and enabled, whatever mix of
  machine names, labels and the selectors for all, the primary and the other machines it declares;
  a service placed on all machines is placed on every enabled one.
\<close>

theorem runtime_placement_sound:
  assumes "manifest_runtime_nodes cfg man rs None = Inr ns"
  shows "distinct ns \<and> set ns \<subseteq> set (enabled_nodes cfg)
    \<and> (\<forall>rt. map_of (runtimes man) rs = Some rt \<longrightarrow> ''@all'' \<in> set (placements rt) \<longrightarrow>
         set ns = set (enabled_nodes cfg))"
proof -
  have "set (enabled_nodes cfg) \<subseteq> set ns"
    if rt: "map_of (runtimes man) rs = Some rt" "''@all'' \<in> set (placements rt)" for rt
  proof -
    obtain primary nss where run: "each (runtime_selector cfg primary) (placements rt) = Inr nss"
        and ns: "ns = fromkeys (concat nss)"
      using assms rt by (auto simp: manifest_runtime_nodes_def then_do_Inr_iff split: if_splits)
    have "list_all2 (\<lambda>x y. runtime_selector cfg primary x = Inr y) (placements rt) nss"
      using run by (simp add: each_Inr_iff)
    moreover obtain k where "k < length (placements rt)" "placements rt ! k = ''@all''"
      using rt(2) by (auto simp: in_set_conv_nth)
    ultimately have "k < length nss" "runtime_selector cfg primary ''@all'' = Inr (nss ! k)"
      by (auto simp: list_all2_conv_all_nth)
    then have "nss ! k \<in> set nss" "nss ! k = enabled_nodes cfg" by (auto simp: runtime_selector_def)
    then show ?thesis unfolding ns by (metis UN_upper set_concat set_fromkeys)
  qed
  then show ?thesis using runtime_nodes_enabled [OF assms] by blast
qed

theorem runtime_placement_sound_witness:
  "manifest_runtime_nodes sample_config shop ''web'' None = Inr [''core'', ''edge'']
   \<and> set [''core'', ''edge''] \<subseteq> set (enabled_nodes sample_config)"
proof -
  have r: "manifest_runtime_nodes sample_config shop ''web'' None = Inr [''core'', ''edge'']" by code_simp
  from runtime_placement_sound [OF r] r show ?thesis by blast
qed

end
