(* ===== verification/Route_Schema.thy ===== *)
theory Route_Schema
  imports Desired_State
begin

text \<open>
  The validators that \<open>core/manifest/schema.py\<close> runs on settings, predicates and routes when a
  manifest is loaded.  Every validator raises \<open>ValueError\<close>; here it is the predicate that holds
  when none is raised, with the bounds and patterns the pydantic fields declare.
\<close>

lemma pred_option_code [code]: "pred_option P x = (case x of None \<Rightarrow> True | Some y \<Rightarrow> P y)"
  by (cases x) simp_all

section \<open>Texts\<close>

definition slug_char :: "char \<Rightarrow> bool" where
  "slug_char c \<longleftrightarrow> is_lower c \<or> is_digit c"

definition dns_label :: "string \<Rightarrow> bool" where
  "dns_label s \<longleftrightarrow> s \<noteq> [] \<and> length s \<le> 63 \<and> slug_char (hd s) \<and> slug_char (last s)
     \<and> list_all (\<lambda>c. slug_char c \<or> c = CHR ''-'') s"

definition slug :: "string \<Rightarrow> bool" where
  "slug s \<longleftrightarrow> s \<noteq> [] \<and> length s \<le> 63 \<and> slug_char (hd s) \<and> list_all (\<lambda>c. slug_char c \<or> c = CHR ''-'') s"

definition key_slug :: "string \<Rightarrow> bool" where
  "key_slug s \<longleftrightarrow> s \<noteq> [] \<and> length s \<le> 63 \<and> is_lower (hd s) \<and> list_all (\<lambda>c. slug_char c \<or> c = CHR ''-'') s"

definition printable :: "string \<Rightarrow> bool" where
  "printable s \<longleftrightarrow> list_all (\<lambda>c. 32 \<le> code c \<and> code c \<noteq> 127) s"

definition valid_absolute_path :: "string \<Rightarrow> bool" where
  "valid_absolute_path path \<longleftrightarrow>
     prefix ''/'' path \<and> path \<noteq> ''/'' \<and> \<not> sublist ''//'' path
     \<and> list_all (\<lambda>seg. seg \<noteq> ''.'' \<and> seg \<noteq> ''..'') (split_on (CHR ''/'') path)
     \<and> list_all (\<lambda>c. c \<notin> set (''*{}?#%'' @ [CHR 0x5C])) path
     \<and> printable path"

definition host_char :: "char \<Rightarrow> bool" where
  "host_char c \<longleftrightarrow> is_lower c \<or> is_upper c \<or> is_digit c"

definition valid_upstream :: "string \<Rightarrow> bool" where
  "valid_upstream v =
     (case split_on (CHR '':'') v of
        [host, port] \<Rightarrow>
          host \<noteq> [] \<and> length host \<le> 253 \<and> host_char (hd host) \<and> host_char (last host)
          \<and> list_all (\<lambda>c. host_char c \<or> c = CHR ''.'' \<or> c = CHR ''-'') host
          \<and> port \<noteq> [] \<and> length port \<le> 5 \<and> list_all is_digit port
          \<and> 1 \<le> digits_number port \<and> digits_number port \<le> 65535
          \<and> lower host = host \<and> list_all dns_label (split_on (CHR ''.'') host)
      | _ \<Rightarrow> False)"

section \<open>Predicates and settings\<close>

definition path_part :: "string \<Rightarrow> bool" where
  "path_part s \<longleftrightarrow> s \<noteq> [] \<and> is_lower (hd s) \<and> list_all (\<lambda>c. slug_char c \<or> c = CHR ''_'') s"

definition valid_predicate_path :: "string \<Rightarrow> bool" where
  "valid_predicate_path p \<longleftrightarrow> 3 \<le> length p \<and> length p \<le> 128
     \<and> 2 \<le> length (split_on (CHR ''.'') p) \<and> list_all path_part (split_on (CHR ''.'') p)"

definition valid_setting_reference :: "string \<Rightarrow> bool" where
  "valid_setting_reference r \<longleftrightarrow> 3 \<le> length r \<and> length r \<le> 126
     \<and> (case split_on (CHR ''.'') r of [service, key] \<Rightarrow> slug service \<and> key_slug key | _ \<Rightarrow> False)"

fun finite_value :: "pyval \<Rightarrow> bool" where
  "finite_value (PFloat (Finite m e)) = True"
| "finite_value (PFloat _) = False"
| "finite_value _ = True"

fun unique_values :: "pyval list \<Rightarrow> bool" where
  "unique_values [] = True"
| "unique_values (v # vs) \<longleftrightarrow> \<not> list_ex (scalar_eq v) vs \<and> unique_values vs"

definition valid_predicate :: "config_predicate \<Rightarrow> bool" where
  "valid_predicate pr \<longleftrightarrow>
     pred_option valid_predicate_path (pred_path pr) \<and> pred_option valid_setting_reference (pred_setting pr)
     \<and> (pred_path pr = None) \<noteq> (pred_setting pr = None)
     \<and> (pred_equals pr \<noteq> None) \<noteq> (pred_one_of pr \<noteq> [])
     \<and> unique_values (pred_one_of pr)
     \<and> list_all finite_value (case pred_equals pr of Some v \<Rightarrow> [v] | None \<Rightarrow> pred_one_of pr)"

definition valid_setting :: "service_setting \<Rightarrow> bool" where
  "valid_setting st \<longleftrightarrow>
     key_slug (set_key st) \<and> length (set_choices st) \<le> 32
     \<and> (if set_type st = Select_setting then 2 \<le> length (set_choices st) \<and> distinct (set_choices st)
        else set_choices st = [])
     \<and> (set_type st = Number_setting \<or> (set_minimum st = None \<and> set_maximum st = None))
     \<and> (case (set_minimum st, set_maximum st) of (Some lo, Some hi) \<Rightarrow> \<not> num_less hi lo | _ \<Rightarrow> True)
     \<and> (case set_type st of
          Boolean_setting \<Rightarrow> (case set_default st of PBool b \<Rightarrow> True | _ \<Rightarrow> False)
        | Number_setting \<Rightarrow>
            (case number_of (set_default st) of
               None \<Rightarrow> False
             | Some n \<Rightarrow> (case set_minimum st of None \<Rightarrow> True | Some lo \<Rightarrow> \<not> num_less n lo)
                 \<and> (case set_maximum st of None \<Rightarrow> True | Some hi \<Rightarrow> \<not> num_less hi n))
        | Text_setting \<Rightarrow> (case set_default st of PStr s \<Rightarrow> True | _ \<Rightarrow> False)
        | Select_setting \<Rightarrow> (case set_default st of PStr s \<Rightarrow> s \<in> set (set_choices st) | _ \<Rightarrow> False))"

section \<open>Routes\<close>

definition valid_route_auth :: "route_auth \<Rightarrow> bool" where
  "valid_route_auth a \<longleftrightarrow>
     list_all valid_absolute_path (passthrough_paths a) \<and> distinct (passthrough_paths a)
     \<and> distinct (probe_statuses a) \<and> list_all (\<lambda>s. 100 \<le> s \<and> s < 600) (probe_statuses a)
     \<and> (auth_mode a = Split \<longleftrightarrow> passthrough_paths a \<noteq> [])
     \<and> (auth_mode a \<noteq> Split \<longrightarrow> probe_statuses a = [] \<and> probe_method a = Probe_GET)"

definition valid_route_match :: "route_match \<Rightarrow> bool" where
  "valid_route_match m \<longleftrightarrow>
     match_paths m \<noteq> [] \<and> length (match_paths m) \<le> 128
     \<and> list_all valid_absolute_path (match_paths m) \<and> distinct (match_paths m)
     \<and> (match_kind m = Prefix_match \<longrightarrow> list_all (\<lambda>p. suffix ''/'' p) (match_paths m))"

definition optional_slug :: "string \<Rightarrow> bool" where
  "optional_slug s \<longleftrightarrow> s = [] \<or> slug s"

definition valid_route_variant :: "route_variant \<Rightarrow> bool" where
  "valid_route_variant v \<longleftrightarrow>
     valid_predicate (variant_when v) \<and> valid_upstream (variant_upstream v) \<and> optional_slug (variant_compose_service v)"

definition valid_response_header :: "string \<times> string \<Rightarrow> bool" where
  "valid_response_header h \<longleftrightarrow>
     fst h \<noteq> [] \<and> length (fst h) \<le> 64 \<and> (is_lower (hd (fst h)) \<or> is_upper (hd (fst h)))
     \<and> list_all (\<lambda>c. host_char c \<or> c = CHR ''-'') (fst h)
     \<and> snd h \<noteq> [] \<and> length (snd h) \<le> 4096 \<and> printable (snd h)"

definition valid_target :: "route_manifest \<Rightarrow> bool" where
  "valid_target r \<longleftrightarrow>
     (response_body r \<noteq> [] \<longrightarrow>
        file_server_root r = [] \<and> upstream r = [] \<and> variants r = [] \<and> compose_service r = []
        \<and> auth_mode (auth r) = No_auth)
     \<and> (response_body r = [] \<and> file_server_root r \<noteq> [] \<longrightarrow>
          upstream r = [] \<and> variants r = [] \<and> compose_service r = [] \<and> route_port r = None)
     \<and> (response_body r = [] \<and> file_server_root r = [] \<longrightarrow> upstream r \<noteq> [] \<or> variants r \<noteq> [])
     \<and> (auth_mode (auth r) = No_auth \<longrightarrow> response_body r \<noteq> [])
     \<and> (auth_mode (auth r) = Split \<longrightarrow> match r = None)
     \<and> (deny r \<noteq> [] \<longrightarrow> match r = None)
     \<and> distinct (concat (map (\<lambda>m. map (Pair (match_kind m)) (match_paths m)) (deny r)))
     \<and> distinct (map (lower \<circ> fst) (response_headers r))"

definition valid_port :: "int \<Rightarrow> bool" where
  "valid_port p \<longleftrightarrow> 1 \<le> p \<and> p \<le> 65535"

definition valid_route :: "route_manifest \<Rightarrow> bool" where
  "valid_route r \<longleftrightarrow>
     (case subdomain r of None \<Rightarrow> True | Some s \<Rightarrow> s = [] \<or> dns_label s)
     \<and> (upstream r = [] \<or> valid_upstream (upstream r))
     \<and> pred_option valid_port (route_port r)
     \<and> optional_slug (compose_service r)
     \<and> valid_route_auth (auth r) \<and> pred_option valid_route_match (match r)
     \<and> list_all valid_route_variant (variants r)
     \<and> length (file_server_root r) \<le> 4096 \<and> (file_server_root r = [] \<or> prefix ''/'' (file_server_root r))
     \<and> length (response_body r) \<le> 32768 \<and> printable (response_body r)
     \<and> pred_option (\<lambda>n. 1 \<le> n \<and> n \<le> 100) (request_body_max_mb r)
     \<and> list_all valid_route_match (deny r) \<and> list_all valid_response_header (response_headers r)
     \<and> valid_target r"

text \<open>The fields of a manifest that the planning code relies on.\<close>

definition valid_manifest :: "service_manifest \<Rightarrow> bool" where
  "valid_manifest man \<longleftrightarrow>
     slug (manifest_name man) \<and> slug (category man) \<and> 0 \<le> priority man \<and> priority man \<le> 10000
     \<and> list_all valid_route (routes man) \<and> list_all valid_setting (settings man)
     \<and> list_all valid_predicate (enabled_when man)"

section \<open>Consequences\<close>

lemma slug_char_not_space: "slug_char c \<or> c = CHR ''-'' \<Longrightarrow> \<not> is_space c"
  by (auto simp: slug_char_def is_lower_def is_digit_def is_space_def code_def)

lemma strip_no_space:
  assumes "list_all (\<lambda>c. \<not> is_space c) s"
  shows "strip s = s"
proof -
  have keep: "dropWhile is_space t = t" if "list_all (\<lambda>c. \<not> is_space c) t" for t
    using that by (cases t) auto
  have "list_all (\<lambda>c. \<not> is_space c) (rev s)" using assms by (simp add: list_all_iff)
  then show ?thesis using assms by (simp add: strip_def lstrip_def rstrip_def keep)
qed

lemma dns_label_strip: "dns_label s \<Longrightarrow> strip s = s"
  by (rule strip_no_space) (auto simp: dns_label_def list_all_iff slug_char_not_space)

lemma slug_strip: "slug s \<Longrightarrow> strip s = s"
  by (rule strip_no_space) (auto simp: slug_def list_all_iff slug_char_not_space)

lemma valid_setting_default: "valid_setting st \<Longrightarrow> validate_setting_value st (set_default st) = Inr (set_default st)"
  by (auto simp: valid_setting_def validate_setting_value_def split: setting_type.splits pyval.splits option.splits if_splits)

end
