(* ===== verification/Routes.thy ===== *)
theory Routes
  imports Placement Route_Schema
begin

text \<open>
  \<open>core/manifest/routes.py\<close>: the HTTP routes of the enabled services and of the custom projects.
  The predicates of that file are in \<open>Desired_State\<close>.
\<close>

section \<open>Compilation\<close>

record compiled_route =
  cr_service :: string
  cr_category :: string
  cr_node :: string
  cr_label :: string
  cr_subdomain :: string
  cr_host :: string
  cr_upstream :: string
  cr_published_port :: "int option"
  cr_compose_service :: string
  cr_exposure :: exposure
  cr_auth :: route_auth
  cr_match :: "route_match option"
  cr_file_server_root :: string
  cr_response_body :: string
  cr_request_body_max_mb :: "int option"
  cr_deny :: "route_match list"
  cr_response_headers :: "(string \<times> string) list"

definition route_fqdn :: "string \<Rightarrow> string \<Rightarrow> string" where
  "route_fqdn sub dn = (let v = strip sub in if v = [] then dn else v @ ''.'' @ dn)"

text \<open>\<open>str.replace\<close> with a pattern that is not empty.\<close>

function replace_all :: "string \<Rightarrow> string \<Rightarrow> string \<Rightarrow> string" where
  "replace_all old new [] = []"
| "replace_all old new (c # cs) =
     (if old \<noteq> [] \<and> prefix old (c # cs) then new @ replace_all old new (drop (length old) (c # cs))
      else c # replace_all old new cs)"
  by pat_completeness auto

termination
  by (relation "measure (\<lambda>(old, new, s). length s)") (auto simp: length_greater_0_conv [symmetric] simp del: length_greater_0_conv)

fun matching_variants ::
  "config \<Rightarrow> service_manifest list \<Rightarrow> route_variant list \<Rightarrow> config_error + route_variant list"
where
  "matching_variants cfg manifests [] = Inr []"
| "matching_variants cfg manifests (v # vs) =
     then_do (predicate_matches cfg (variant_when v) manifests) (\<lambda>b.
       then_do (matching_variants cfg manifests vs) (\<lambda>rest. Inr (if b then v # rest else rest)))"

definition effective_exposure :: "config \<Rightarrow> exposure \<Rightarrow> exposure" where
  "effective_exposure cfg e = (if e = Public \<and> \<not> expose_via_internet cfg then Private else e)"

definition or_else :: "string \<Rightarrow> string \<Rightarrow> string" where
  "or_else a b = (if a \<noteq> [] then a else b)"

definition route_subdomain :: "service_manifest \<Rightarrow> route_manifest \<Rightarrow> string" where
  "route_subdomain man route = (case subdomain route of None \<Rightarrow> manifest_name man | Some s \<Rightarrow> s)"

definition compile_route ::
  "config \<Rightarrow> service_manifest list \<Rightarrow> service_manifest \<Rightarrow> route_manifest \<Rightarrow> config_error + compiled_route"
where
  "compile_route cfg manifests man route =
     then_do (matching_variants cfg manifests (variants route)) (\<lambda>matching.
       if length matching > 1 then Inl (Route_error (manifest_name man))
       else
         (let variant = (case matching of [] \<Rightarrow> None | v # _ \<Rightarrow> Some v);
              up = (case variant of None \<Rightarrow> upstream route | Some v \<Rightarrow> variant_upstream v);
              svc = or_else (case variant of None \<Rightarrow> [] | Some v \<Rightarrow> variant_compose_service v)
                      (or_else (compose_service route) (manifest_name man));
              sub = route_subdomain man route
          in if file_server_root route = [] \<and> response_body route = [] \<and> up = []
             then Inl (Route_error (manifest_name man))
             else then_do (manifest_node cfg man) (\<lambda>node.
               Inr \<lparr>cr_service = manifest_name man, cr_category = category man, cr_node = node,
                    cr_label = manifest_label man, cr_subdomain = sub,
                    cr_host = (if sub = [] then domain cfg else sub @ ''.'' @ domain cfg),
                    cr_upstream = up, cr_published_port = route_port route, cr_compose_service = svc,
                    cr_exposure = effective_exposure cfg (exposure route), cr_auth = auth route,
                    cr_match = match route, cr_file_server_root = file_server_root route,
                    cr_response_body = replace_all ''{domain}'' (domain cfg) (response_body route),
                    cr_request_body_max_mb = request_body_max_mb route, cr_deny = deny route,
                    cr_response_headers = response_headers route\<rparr>)))"

definition compile_service ::
  "plugins \<Rightarrow> config \<Rightarrow> service_manifest list \<Rightarrow> service_manifest \<Rightarrow> config_error + compiled_route list"
where
  "compile_service pl cfg manifests man =
     then_do (service_is_enabled pl cfg man manifests) (\<lambda>on.
       if on then each (compile_route cfg manifests man) (routes man) else Inr [])"

definition project_upstream :: "project_entry \<Rightarrow> string" where
  "project_upstream proj = project_subdomain proj @ '':'' @ show_int (project_port proj)"

definition project_route_auth :: "project_entry \<Rightarrow> route_auth" where
  "project_route_auth proj =
     \<lparr>auth_mode = project_auth proj, passthrough_paths = [], probe_statuses = [], probe_method = Probe_GET\<rparr>"

definition compile_project :: "config \<Rightarrow> project_entry \<Rightarrow> config_error + compiled_route" where
  "compile_project cfg proj =
     then_do (project_node cfg proj) (\<lambda>node.
       Inr \<lparr>cr_service = project_service_name proj, cr_category = ''projects'', cr_node = node,
            cr_label = or_else (project_name proj) (project_subdomain proj),
            cr_subdomain = project_subdomain proj,
            cr_host = project_subdomain proj @ ''.'' @ domain cfg,
            cr_upstream = project_upstream proj, cr_published_port = Some (project_port proj),
            cr_compose_service = project_service_name proj,
            cr_exposure = effective_exposure cfg (project_exposure proj),
            cr_auth = project_route_auth proj,
            cr_match = None, cr_file_server_root = [], cr_response_body = [],
            cr_request_body_max_mb = None, cr_deny = [], cr_response_headers = []\<rparr>)"

definition compile_routes ::
  "plugins \<Rightarrow> config \<Rightarrow> service_manifest list \<Rightarrow> config_error + compiled_route list"
where
  "compile_routes pl cfg manifests =
     then_do (each (compile_service pl cfg manifests) manifests) (\<lambda>rss.
     then_do (each (compile_project cfg) (projects cfg)) (\<lambda>ps.
       Inr (concat rss @ ps)))"

definition public_routes :: "plugins \<Rightarrow> config \<Rightarrow> service_manifest list \<Rightarrow> config_error + compiled_route list" where
  "public_routes pl cfg manifests =
     then_do (compile_routes pl cfg manifests) (\<lambda>rs. Inr (filter (\<lambda>r. cr_exposure r = Public) rs))"

definition private_routes :: "plugins \<Rightarrow> config \<Rightarrow> service_manifest list \<Rightarrow> config_error + compiled_route list" where
  "private_routes pl cfg manifests =
     then_do (compile_routes pl cfg manifests) (\<lambda>rs. Inr (filter (\<lambda>r. cr_exposure r = Private) rs))"

definition managed_route_hosts :: "config \<Rightarrow> service_manifest list \<Rightarrow> string list" where
  "managed_route_hosts cfg manifests =
     concat (map (\<lambda>man. map (\<lambda>route. route_fqdn (route_subdomain man route) (domain cfg)) (routes man)) manifests)
     @ map (\<lambda>proj. project_subdomain proj @ ''.'' @ domain cfg) (projects cfg)"

fun match_kind_text :: "match_kind \<Rightarrow> string" where
  "match_kind_text Exact_match = ''exact''"
| "match_kind_text Prefix_match = ''prefix''"

definition route_scope :: "compiled_route \<Rightarrow> string" where
  "route_scope route =
     (case cr_match route of
        Some m \<Rightarrow>
          (let suffix = (if match_kind m = Prefix_match then ''*'' else []);
               shown = map (\<lambda>path. take 120 path @ (if length path > 120 then ''...'' else []) @ suffix)
                         (take 3 (match_paths m));
               examples = (if length (match_paths m) > length shown
                           then shown @ [''+'' @ show_nat (length (match_paths m) - length shown) @ '' more''] else shown);
               scope = match_kind_text (match_kind m) @ '': '' @ join '', '' examples
           in if length scope > 500 then take 497 scope @ ''...'' else scope)
      | None \<Rightarrow>
          if auth_mode (cr_auth route) = Split
          then ''default; '' @ show_nat (length (passthrough_paths (cr_auth route))) @ '' exact native paths''
          else ''default'')"

section \<open>Where compiled routes come from\<close>

lemma compile_route_facts:
  assumes "compile_route cfg manifests man route = Inr r"
  shows "cr_service r = manifest_name man \<and> cr_node r \<in> set (enabled_nodes cfg)
    \<and> cr_host r = (if route_subdomain man route = [] then domain cfg else route_subdomain man route @ ''.'' @ domain cfg)
    \<and> cr_exposure r = effective_exposure cfg (exposure route) \<and> cr_auth r = auth route
    \<and> (cr_file_server_root r \<noteq> [] \<or> response_body route \<noteq> [] \<or> cr_upstream r \<noteq> [])"
  using assms
  by (auto simp: compile_route_def Let_def then_do_Inr_iff dest: manifest_node_enabled split: if_splits)

lemma compile_project_facts:
  assumes "compile_project cfg proj = Inr r"
  shows "cr_service r = project_service_name proj \<and> cr_node r \<in> set (enabled_nodes cfg)
    \<and> cr_host r = project_subdomain proj @ ''.'' @ domain cfg
    \<and> cr_exposure r = effective_exposure cfg (project_exposure proj)
    \<and> cr_auth r = project_route_auth proj"
  using assms by (auto simp: compile_project_def then_do_Inr_iff dest: project_node_enabled)

lemma each_member:
  assumes "each f xs = Inr ys" and "y \<in> set ys"
  shows "\<exists>x \<in> set xs. f x = Inr y"
proof -
  have "list_all2 (\<lambda>x y. f x = Inr y) xs ys" using assms(1) by (simp add: each_Inr_iff)
  then show ?thesis using assms(2) by (induction xs ys rule: list_all2_induct) auto
qed

lemma compile_routes_cases:
  assumes "compile_routes pl cfg manifests = Inr rs" and "r \<in> set rs"
  obtains (service) man route where "man \<in> set manifests" "service_is_enabled pl cfg man manifests = Inr True"
      "route \<in> set (routes man)" "compile_route cfg manifests man route = Inr r"
    | (project) proj where "proj \<in> set (projects cfg)" "compile_project cfg proj = Inr r"
proof -
  obtain rss ps where rss: "each (compile_service pl cfg manifests) manifests = Inr rss"
      and ps: "each (compile_project cfg) (projects cfg) = Inr ps" and rs: "rs = concat rss @ ps"
    using assms(1) by (auto simp: compile_routes_def then_do_Inr_iff)
  from assms(2) rs consider (svc) rs' where "rs' \<in> set rss" "r \<in> set rs'" | (proj) "r \<in> set ps" by auto
  then show ?thesis
  proof cases
    case svc
    from each_member [OF rss svc(1)] obtain man where man: "man \<in> set manifests"
        "compile_service pl cfg manifests man = Inr rs'" by blast
    then have on: "service_is_enabled pl cfg man manifests = Inr True"
        and "each (compile_route cfg manifests man) (routes man) = Inr rs'"
      using svc(2) by (auto simp: compile_service_def then_do_Inr_iff split: if_splits)
    from each_member [OF this(2) svc(2)] man on show ?thesis using service by blast
  next
    case proj
    from each_member [OF ps proj] show ?thesis using project by blast
  qed
qed

end
