(* ===== verification/Route_Properties.thy ===== *)
theory Route_Properties
  imports Routes
begin

text \<open>
  Properties of the compiled routes: what is published, where it runs, who owns its host name, and
  which typed settings the predicates read.
\<close>

section \<open>Routes\<close>

lemma managed_host_service:
  assumes "man \<in> set manifests" and "route \<in> set (routes man)" and "valid_manifest man"
  shows "(if route_subdomain man route = [] then domain cfg else route_subdomain man route @ ''.'' @ domain cfg)
    \<in> set (managed_route_hosts cfg manifests)"
proof -
  have "strip (route_subdomain man route) = route_subdomain man route"
  proof (cases "subdomain route")
    case None
    then show ?thesis using assms(3) by (simp add: route_subdomain_def valid_manifest_def slug_strip)
  next
    case (Some s)
    then have "s = [] \<or> dns_label s"
      using assms(2,3) by (auto simp: valid_manifest_def valid_route_def list_all_iff)
    then show ?thesis using Some by (auto simp: route_subdomain_def dns_label_strip strip_no_space)
  qed
  then have "route_fqdn (route_subdomain man route) (domain cfg)
      = (if route_subdomain man route = [] then domain cfg else route_subdomain man route @ ''.'' @ domain cfg)"
    by (simp add: route_fqdn_def Let_def)
  then show ?thesis using assms(1,2) by (force simp: managed_route_hosts_def)
qed

lemma managed_host_project:
  "proj \<in> set (projects cfg) \<Longrightarrow> project_subdomain proj @ ''.'' @ domain cfg \<in> set (managed_route_hosts cfg manifests)"
  by (simp add: managed_route_hosts_def)

text \<open>
  C14: every compiled route points at an enabled machine and has a host name that reconciliation
  owns; it is public only when the configuration publishes services on the internet; and a route
  without authentication serves a fixed text and proxies nowhere.  The catalog has passed the
  validators of the schema.
\<close>

theorem compiled_route_safe:
  assumes "compile_routes pl cfg manifests = Inr rs" and "r \<in> set rs"
    and "list_all valid_manifest manifests"
    and "list_all (\<lambda>proj. project_auth proj = Forward_auth \<or> project_auth proj = Native) (projects cfg)"
  shows "cr_node r \<in> set (enabled_nodes cfg) \<and> cr_host r \<in> set (managed_route_hosts cfg manifests)
    \<and> (cr_exposure r = Public \<longrightarrow> expose_via_internet cfg)
    \<and> (auth_mode (cr_auth r) = No_auth \<longrightarrow> cr_upstream r = [] \<and> cr_file_server_root r = [])"
  using assms(1,2)
proof (cases rule: compile_routes_cases)
  case (service man route)
  have vm: "valid_manifest man" using assms(3) service(1) by (simp add: list_all_iff)
  then have vt: "valid_target route"
    using service(3) by (simp add: valid_manifest_def valid_route_def list_all_iff)
  have "cr_upstream r = [] \<and> cr_file_server_root r = []" if "auth_mode (auth route) = No_auth"
  proof -
    have "response_body route \<noteq> []" "variants route = []" "upstream route = []" "file_server_root route = []"
      using vt that by (auto simp: valid_target_def)
    then show ?thesis using service(4)
      by (auto simp: compile_route_def Let_def then_do_Inr_iff split: if_splits)
  qed
  then show ?thesis
    using compile_route_facts [OF service(4)] managed_host_service [OF service(1,3) vm, of cfg]
    by (auto simp: effective_exposure_def split: if_splits)
next
  case (project proj)
  then have "project_auth proj \<noteq> No_auth" using assms(4) by (auto simp: list_all_iff)
  then show ?thesis
    using compile_project_facts [OF project(2)] managed_host_project [OF project(1)]
    by (auto simp: effective_exposure_def project_route_auth_def split: if_splits)
qed

definition quiet_auth :: "auth_mode \<Rightarrow> route_auth" where
  "quiet_auth m = \<lparr>auth_mode = m, passthrough_paths = [], probe_statuses = [], probe_method = Probe_GET\<rparr>"

definition plain_route :: route_manifest where
  "plain_route =
     \<lparr>subdomain = None, upstream = ''wiki:80'', route_port = Some 8080, compose_service = [], exposure = Public,
      auth = quiet_auth Forward_auth, match = None, variants = [], file_server_root = [], response_body = [],
      request_body_max_mb = None, deny = [], response_headers = []\<rparr>"

definition wiki :: service_manifest where
  "wiki = \<lparr>manifest_name = ''wiki'', manifest_label = ''Wiki'', category = ''base'', placement = ''apps'', priority = 1,
     manifest_depends_on = [], runtimes = [], routes = [plain_route], settings = [], enabled_when = [], endpoint = None\<rparr>"

definition one_machine :: config where
  "one_machine =
     \<lparr>machines = [(''core'', \<lparr>enabled = True, address = ''10.0.0.1'', machine_labels = [''control''], machine_gateway = ''10.0.0.254'', machine_cidr = 24, startup_order = 1\<rparr>)],
      category_flags = [], service_settings = [], projects = [], domain = ''example.org'',
      email = [], expose_via_internet = False,
      network = \<lparr>mesh_ipv4_cidr = ''100.64.0.0/10'', container_ipv4_cidr = ''172.31.0.0/17'', container_network_prefix = 28\<rparr>, external_hosts = [], backups_enabled = False, model_fields = []\<rparr>"

definition wiki_plugins :: plugins where
  "wiki_plugins = \<lparr>categories = [(''base'', True)], catalog = [wiki]\<rparr>"

theorem compiled_route_safe_witness:
  "\<exists>r. compile_routes wiki_plugins one_machine [wiki] = Inr [r] \<and> cr_exposure r = Private
     \<and> cr_host r = ''wiki.example.org'' \<and> cr_host r \<in> set (managed_route_hosts one_machine [wiki])"
proof -
  let ?rs = "projr (compile_routes wiki_plugins one_machine [wiki])"
  have run: "compile_routes wiki_plugins one_machine [wiki] = Inr [hd ?rs]" by code_simp
  have facts: "cr_exposure (hd ?rs) = Private" "cr_host (hd ?rs) = ''wiki.example.org''" by code_simp+
  have up: "valid_upstream ''wiki:80''" by code_simp
  have names: "slug ''wiki''" "slug ''base''" by code_simp+
  have "valid_manifest wiki"
    using up names
    by (simp add: wiki_def valid_manifest_def valid_route_def plain_route_def quiet_auth_def valid_route_auth_def
        valid_target_def valid_port_def optional_slug_def printable_def)
  then have valid: "list_all valid_manifest [wiki]" by simp
  have "list_all (\<lambda>proj. project_auth proj = Forward_auth \<or> project_auth proj = Native) (projects one_machine)"
    by (simp add: one_machine_def)
  then have "cr_host (hd ?rs) \<in> set (managed_route_hosts one_machine [wiki])"
    using compiled_route_safe [OF run list.set_intros(1) valid] by blast
  with run facts show ?thesis by blast
qed

section \<open>Settings\<close>

text \<open>
  C15: once the overrides of a configuration have been validated, every declared setting of every
  service can be read, and what is read is a value its definition accepts: of the declared type,
  within the declared bounds and among the declared choices.
\<close>

theorem settings_readable:
  assumes "validate_service_setting_overrides cfg manifests = Inr ()"
    and "list_all valid_manifest manifests" and "distinct (map manifest_name manifests)"
    and "man \<in> set manifests" and "distinct (map set_key (settings man))" and "st \<in> set (settings man)"
  shows "\<exists>v. service_setting_value cfg man (set_key st) = Inr v \<and> validate_setting_value st v = Inr v"
proof -
  have def: "setting_definition man (set_key st) = Inr st"
    using assms(5,6) fetch_eq_Some_iff [of set_key "settings man" "set_key st" st]
    by (simp add: setting_definition_def fetch_def)
  have vst: "valid_setting st" using assms(2,4,6) by (auto simp: valid_manifest_def list_all_iff)
  have keep: "validate_setting_value st v = Inr w \<Longrightarrow> w = v" for v w
    by (auto simp: validate_setting_value_def split: setting_type.splits pyval.splits option.splits if_splits)
  show ?thesis
  proof (cases "map_of (override_of cfg (manifest_name man)) (set_key st)")
    case None
    then show ?thesis using def valid_setting_default [OF vst] by (simp add: service_setting_value_def)
  next
    case (Some v)
    then obtain kvs where kvs: "map_of (service_settings cfg) (manifest_name man) = Some kvs" "map_of kvs (set_key st) = Some v"
      by (auto simp: override_of_def split: option.splits)
    obtain us where "each (check_overrides manifests) (service_settings cfg) = Inr us"
      using assms(1) by (auto simp: validate_service_setting_overrides_def then_do_Inr_iff)
    then have ok: "check_overrides manifests (manifest_name man, kvs) = Inr ()"
      using map_of_SomeD [OF kvs(1)] by (auto simp: each_Inr_iff in_set_conv_nth list_all2_conv_all_nth)
    have dist: "distinct (map manifest_name (rev manifests))" "distinct (map set_key (rev (settings man)))"
      using assms(3,5) by (simp_all add: rev_map [symmetric])
    have found: "find (\<lambda>m. manifest_name m = manifest_name man) (rev manifests) = Some man"
        "find (\<lambda>s. set_key s = set_key st) (rev (settings man)) = Some st"
      using fetch_eq_Some_iff [OF dist(1), of "manifest_name man" man] assms(4)
        fetch_eq_Some_iff [OF dist(2), of "set_key st" st] assms(6) by (simp_all add: fetch_def)
    obtain vs where "each (\<lambda>(k, v).
                     then_do (case find (\<lambda>s. set_key s = k) (rev (settings man)) of
                                None \<Rightarrow> Inl (Unknown_name k) | Some st \<Rightarrow> Inr st)
                       (\<lambda>st. validate_setting_value st v)) kvs = Inr vs"
      using ok found(1) by (auto simp: check_overrides_def Let_def then_do_Inr_iff split: if_splits)
    then have "\<exists>w. validate_setting_value st v = Inr w"
      using map_of_SomeD [OF kvs(2)] found(2)
      by (auto simp: each_Inr_iff in_set_conv_nth list_all2_conv_all_nth)
    then have "validate_setting_value st v = Inr v" using keep by blast
    then show ?thesis using def Some by (simp add: service_setting_value_def)
  qed
qed

definition retention_setting :: service_setting where
  "retention_setting = \<lparr>set_key = ''days'', set_type = Number_setting, set_default = PInt 7,
     set_minimum = Some (1, 0), set_maximum = Some (45, -1), set_choices = [], set_setup = False\<rparr>"

definition keeper :: service_manifest where
  "keeper = wiki\<lparr>manifest_name := ''keeper'', routes := [], settings := [retention_setting]\<rparr>"

definition keeper_config :: config where
  "keeper_config = one_machine\<lparr>service_settings := [(''keeper'', [(''days'', PFloat (Finite 21 (-1)))])]\<rparr>"

theorem settings_readable_witness:
  "service_setting_value keeper_config keeper ''days'' = Inr (PFloat (Finite 21 (-1)))
   \<and> (\<exists>v. service_setting_value keeper_config keeper ''days'' = Inr v \<and> validate_setting_value retention_setting v = Inr v)"
proof -
  have ok: "validate_service_setting_overrides keeper_config [keeper] = Inr ()" by code_simp
  have names: "slug ''keeper''" "slug ''base''" by code_simp+
  have st: "valid_setting retention_setting" by code_simp
  have "valid_manifest keeper"
    using names st by (simp add: keeper_def wiki_def valid_manifest_def)
  then have valid: "list_all valid_manifest [keeper]" by simp
  have run: "service_setting_value keeper_config keeper ''days'' = Inr (PFloat (Finite 21 (-1)))" by code_simp
  have "\<exists>v. service_setting_value keeper_config keeper (set_key retention_setting) = Inr v
      \<and> validate_setting_value retention_setting v = Inr v"
    by (rule settings_readable [OF ok valid]) (simp_all add: keeper_def)
  with run show ?thesis by (simp add: retention_setting_def)
qed

end
