(* ===== verification/Json_Text.thy ===== *)
theory Json_Text
  imports Py_Documents
begin

text \<open>
  The JSON texts that \<open>json.dumps\<close> writes without sorting keys: compact (separators \<open>,\<close> and
  \<open>:\<close>) and indented.  \<open>None\<close> stands for the TypeError or ValueError of a value that cannot be
  encoded; \<open>fr\<close> is the decimal text of a finite float.  Keys are texts.

  A file is the document its text decodes to and the length of the text; \<open>json.loads\<close> gives the
  document back.
\<close>

definition newline :: "nat option \<Rightarrow> nat \<Rightarrow> string" where
  "newline ind level = (case ind of None \<Rightarrow> [] | Some k \<Rightarrow> char_of (10 :: nat) # replicate (k * level) (CHR '' ''))"

definition frame :: "nat option \<Rightarrow> nat \<Rightarrow> char \<Rightarrow> char \<Rightarrow> string list \<Rightarrow> string" where
  "frame ind level opening closing parts =
     (if parts = [] then [opening, closing]
      else [opening] @ newline ind (Suc level) @ join ('','' @ newline ind (Suc level)) parts
             @ newline ind level @ [closing])"

definition key_sep :: "nat option \<Rightarrow> string" where
  "key_sep ind = (case ind of None \<Rightarrow> '':'' | Some k \<Rightarrow> '': '')"

fun json_text :: "(int \<Rightarrow> int \<Rightarrow> string) \<Rightarrow> nat option \<Rightarrow> nat \<Rightarrow> pyval \<Rightarrow> string option"
  and json_pairs :: "(int \<Rightarrow> int \<Rightarrow> string) \<Rightarrow> nat option \<Rightarrow> nat \<Rightarrow> document \<Rightarrow> string list option"
  and json_elements :: "(int \<Rightarrow> int \<Rightarrow> string) \<Rightarrow> nat option \<Rightarrow> nat \<Rightarrow> pyval list \<Rightarrow> string list option"
where
  "json_text fr ind l PNone = Some ''null''"
| "json_text fr ind l (PBool b) = Some (if b then ''true'' else ''false'')"
| "json_text fr ind l (PInt i) = Some (show_int i)"
| "json_text fr ind l (PFloat (Finite m e)) = Some (fr m e)"
| "json_text fr ind l (PFloat Infinite) = None"
| "json_text fr ind l (PFloat NaN) = None"
| "json_text fr ind l (PStr s) = Some (json_string s)"
| "json_text fr ind l (PDict kvs) =
     map_option (frame ind l (CHR ''{'') (CHR ''}'')) (json_pairs fr ind (Suc l) kvs)"
| "json_text fr ind l (PList vs) =
     map_option (frame ind l (CHR ''['') (CHR '']'')) (json_elements fr ind (Suc l) vs)"
| "json_text fr ind l (PTuple vs) =
     map_option (frame ind l (CHR ''['') (CHR '']'')) (json_elements fr ind (Suc l) vs)"
| "json_text fr ind l POther = None"
| "json_pairs fr ind l [] = Some []"
| "json_pairs fr ind l ((KStr k, v) # kvs) =
     (case json_text fr ind l v of
        None \<Rightarrow> None
      | Some t \<Rightarrow> map_option ((#) (json_string k @ key_sep ind @ t)) (json_pairs fr ind l kvs))"
| "json_pairs fr ind l ((KOther, v) # kvs) = None"
| "json_elements fr ind l [] = Some []"
| "json_elements fr ind l (v # vs) =
     (case json_text fr ind l v of
        None \<Rightarrow> None
      | Some t \<Rightarrow> map_option ((#) t) (json_elements fr ind l vs))"

record json_file =
  decoded :: pyval
  text_size :: nat

text \<open>\<open>atomic_write_json\<close>: \<open>indent=2\<close> and a final newline.\<close>

definition write_json :: "(int \<Rightarrow> int \<Rightarrow> string) \<Rightarrow> pyval \<Rightarrow> json_file option" where
  "write_json fr v = map_option (\<lambda>t. \<lparr>decoded = v, text_size = Suc (length t)\<rparr>) (json_text fr (Some 2) 0 v)"

definition compact_size :: "(int \<Rightarrow> int \<Rightarrow> string) \<Rightarrow> pyval \<Rightarrow> nat option" where
  "compact_size fr v = map_option length (json_text fr None 0 v)"

section \<open>Fixed schemas\<close>

text \<open>\<open>set(d) == {...}\<close>, \<open>d.get(k)\<close>, and the hexadecimal digests the schemas ask for.\<close>

definition has_keys :: "string list \<Rightarrow> document \<Rightarrow> bool" where
  "has_keys ks d \<longleftrightarrow> set (map fst d) = set (map KStr ks)"

definition field :: "string \<Rightarrow> document \<Rightarrow> pyval" where
  "field k d = dict_get_or k PNone d"

definition hex64 :: "string \<Rightarrow> bool" where
  "hex64 s \<longleftrightarrow> length s = 64 \<and> list_all is_hex s"

section \<open>Plain values have a text\<close>

lemma json_text_total:
  "plain_json v \<Longrightarrow> \<exists>t. json_text fr ind l v = Some t"
  "plain_items kvs \<Longrightarrow> \<exists>ts. json_pairs fr ind l kvs = Some ts"
  "plain_list vs \<Longrightarrow> \<exists>us. json_elements fr ind l vs = Some us"
proof (induction v and kvs and vs arbitrary: l and l and l rule: plain_json_plain_items_plain_list.induct)
  case (2 kvs)
  then show ?case by (metis json_text.simps(8) option.simps(9) plain_json.simps(2))
next
  case (3 xs)
  then show ?case by (metis json_text.simps(9) option.simps(9) plain_json.simps(3))
next
  case (4 xs)
  then show ?case by (metis json_text.simps(10) option.simps(9) plain_json.simps(4))
next
  case (11 kv kvs)
  then obtain k where k: "fst kv = KStr k" and v: "plain_json (snd kv)" and kvs: "plain_items kvs" by auto
  obtain t ts where "json_text fr ind l (snd kv) = Some t" "json_pairs fr ind l kvs = Some ts"
    using "11.IH"(1) [OF v, of l] "11.IH"(2) [OF kvs, of l] by blast
  then show ?case using k by (cases kv) auto
next
  case (13 v vs)
  then have v: "plain_json v" and vs: "plain_list vs" by auto
  obtain t ts where "json_text fr ind l v = Some t" "json_elements fr ind l vs = Some ts"
    using "13.IH"(1) [OF v, of l] "13.IH"(2) [OF vs, of l] by blast
  then show ?case by auto
qed (auto split: pyfloat.splits)

section \<open>Sizes\<close>

definition plain_char :: "char \<Rightarrow> bool" where
  "plain_char c \<longleftrightarrow> 32 \<le> code c \<and> code c \<le> 126 \<and> c \<noteq> CHR 0x22 \<and> c \<noteq> CHR 0x5C"

lemma json_escape_plain: "plain_char c \<Longrightarrow> json_escape c = [c]"
  by (auto simp: json_escape_def plain_char_def)

lemma length_json_string: "list_all plain_char s \<Longrightarrow> length (json_string s) = length s + 2"
proof -
  assume "list_all plain_char s"
  then have "concat (map json_escape s) = s" by (induction s) (auto simp: json_escape_plain)
  then show ?thesis by (simp add: json_string_def)
qed

lemma length_newline: "length (newline ind l) = (case ind of None \<Rightarrow> 0 | Some k \<Rightarrow> Suc (k * l))"
  by (simp add: newline_def split: option.splits)

lemma length_join_const:
  "list_all (\<lambda>t. length t = c) ts \<Longrightarrow> length (join sep ts) = length ts * c + (length ts - 1) * length sep"
  by (induction sep ts rule: join.induct) auto

lemma json_elements_map:
  "(\<And>x. x \<in> set xs \<Longrightarrow> json_text fr ind l (g x) = Some (h x)) \<Longrightarrow>
     json_elements fr ind l (map g xs) = Some (map h xs)"
  by (induction xs) auto

text \<open>A list of \<open>n > 0\<close> elements whose texts have \<open>c\<close> characters each.\<close>

lemma length_frame_const:
  assumes "list_all (\<lambda>t. length t = c) ts" and "ts \<noteq> []"
  shows "length (frame ind l a b ts)
    = 2 + length (newline ind (Suc l)) * length ts + length (newline ind l) + length ts * c + (length ts - 1)"
proof -
  have "length (frame ind l a b ts)
      = 2 + length (newline ind (Suc l)) + length (join ('','' @ newline ind (Suc l)) ts) + length (newline ind l)"
    using assms(2) by (simp add: frame_def)
  also have "length (join ('','' @ newline ind (Suc l)) ts)
      = length ts * c + (length ts - 1) * Suc (length (newline ind (Suc l)))"
    using length_join_const [OF assms(1)] by simp
  finally show ?thesis using assms(2) by (cases ts) (simp_all add: algebra_simps)
qed

end
