(* ===== verification/Approvals.thy ===== *)
theory Approvals
  imports Json_Text Desired_State
begin

text \<open>
  \<open>core/ops/approvals/__init__.py\<close>: the queue of operational approvals.  The fields of an
  approval are Python values, as the class checks their types when an instance is made.  The queue
  file is absent, cannot be opened, holds something that is not JSON, or holds a JSON document.
  The clock, the random ids and whether the final write succeeds are arguments of the operations;
  the advisory lock makes one mutation run at a time.

  \<open>env\<close> gives the decimal text of a float and what \<open>float()\<close> makes of a text.  A decision time
  that is an integer beyond the range of a double, on which \<open>math.isfinite\<close> itself fails, is not
  considered.
\<close>

section \<open>Data\<close>

record approval_env =
  float_repr :: "int \<Rightarrow> int \<Rightarrow> string"
  parse_float :: "string \<Rightarrow> pyfloat option"

datatype approval_kind = Rightsize
datatype approval_status = Requested | Approved | Rejected | Executed

datatype approval_error =
    Persistence_error | Value_error | Key_error | Type_error | Attribute_error | Overflow_error

record approval =
  ap_kind :: approval_kind
  ap_service :: pyval
  ap_current :: pyval
  ap_proposed :: pyval
  ap_id :: pyval
  ap_status :: approval_status
  ap_reason :: pyval
  ap_requested_at :: pyval
  ap_requested_by :: pyval
  ap_decided_at :: pyval
  ap_decided_by :: pyval
  ap_decision_reason :: pyval
  ap_outcome :: pyval
  ap_payload :: pyval

definition MAX_PAYLOAD_BYTES :: nat where
  "MAX_PAYLOAD_BYTES = 32 * 1024"

definition MAX_QUEUE_BYTES :: nat where
  "MAX_QUEUE_BYTES = 1024 * 1024"

definition MAX_ENTRIES :: nat where
  "MAX_ENTRIES = 2048"

section \<open>Validation\<close>

definition approval_id :: "pyval \<Rightarrow> bool" where
  "approval_id v = (case v of PStr s \<Rightarrow> length s = 32 \<and> list_all is_hex s | _ \<Rightarrow> False)"

definition approval_service :: "pyval \<Rightarrow> bool" where
  "approval_service v =
     (case v of
        PStr s \<Rightarrow> s \<noteq> [] \<and> length s \<le> 63 \<and> (is_lower (hd s) \<or> is_digit (hd s))
          \<and> list_all (\<lambda>c. is_lower c \<or> is_digit c \<or> c = CHR ''-'') s
      | _ \<Rightarrow> False)"

definition bounded_text :: "nat \<Rightarrow> pyval \<Rightarrow> bool" where
  "bounded_text maximum v =
     (case v of PStr s \<Rightarrow> length s \<le> maximum \<and> \<not> list_ex (\<lambda>c. code c < 32) s | _ \<Rightarrow> False)"

definition bounded_object :: "approval_env \<Rightarrow> pyval \<Rightarrow> bool" where
  "bounded_object env v =
     (case v of
        PDict kvs \<Rightarrow> (case compact_size (float_repr env) v of None \<Rightarrow> False | Some n \<Rightarrow> n \<le> MAX_PAYLOAD_BYTES)
      | _ \<Rightarrow> False)"

definition positive_time :: "pyval \<Rightarrow> bool" where
  "positive_time v = (case numeric_view v of None \<Rightarrow> False | Some n \<Rightarrow> fst n > 0)"

definition valid_approval :: "approval_env \<Rightarrow> approval \<Rightarrow> bool" where
  "valid_approval env a \<longleftrightarrow>
     approval_id (ap_id a) \<and> approval_service (ap_service a)
     \<and> bounded_text 256 (ap_current a) \<and> bounded_text 256 (ap_proposed a) \<and> bounded_text 500 (ap_reason a)
     \<and> bounded_text 128 (ap_requested_by a) \<and> bounded_text 128 (ap_decided_by a)
     \<and> bounded_text 500 (ap_decision_reason a)
     \<and> positive_time (ap_requested_at a)
     \<and> (ap_decided_at a = PNone \<or> positive_time (ap_decided_at a))
     \<and> bounded_object env (ap_payload a)
     \<and> (ap_outcome a = PNone \<or> bounded_object env (ap_outcome a))"

definition post_init :: "approval_env \<Rightarrow> approval \<Rightarrow> approval_error + approval" where
  "post_init env a = (if valid_approval env a then Inr a else Inl Value_error)"

section \<open>Dictionaries\<close>

fun kind_text :: "approval_kind \<Rightarrow> string" where
  "kind_text Rightsize = ''rightsize''"

fun status_text :: "approval_status \<Rightarrow> string" where
  "status_text Requested = ''requested''"
| "status_text Approved = ''approved''"
| "status_text Rejected = ''rejected''"
| "status_text Executed = ''executed''"

definition kind_of :: "pyval \<Rightarrow> approval_error + approval_kind" where
  "kind_of v = (if v = PStr ''rightsize'' then Inr Rightsize else Inl Value_error)"

definition status_of :: "pyval \<Rightarrow> approval_error + approval_status" where
  "status_of v =
     (if v = PStr ''requested'' then Inr Requested
      else if v = PStr ''approved'' then Inr Approved
      else if v = PStr ''rejected'' then Inr Rejected
      else if v = PStr ''executed'' then Inr Executed
      else Inl Value_error)"

definition to_dict :: "approval \<Rightarrow> pyval" where
  "to_dict a = PDict
     [(KStr ''id'', ap_id a), (KStr ''kind'', PStr (kind_text (ap_kind a))), (KStr ''service'', ap_service a),
      (KStr ''current'', ap_current a), (KStr ''proposed'', ap_proposed a),
      (KStr ''status'', PStr (status_text (ap_status a))), (KStr ''reason'', ap_reason a),
      (KStr ''requested_at'', ap_requested_at a), (KStr ''requested_by'', ap_requested_by a),
      (KStr ''decided_at'', ap_decided_at a), (KStr ''decided_by'', ap_decided_by a),
      (KStr ''decision_reason'', ap_decision_reason a), (KStr ''outcome'', ap_outcome a),
      (KStr ''payload'', ap_payload a)]"

text \<open>
  \<open>float(int)\<close> rounds to 53 bits, half to even, and overflows beyond the range of a double.
\<close>

function bit_length :: "nat \<Rightarrow> nat" where
  "bit_length n = (if n = 0 then 0 else Suc (bit_length (n div 2)))"
  by pat_completeness auto

termination
  by (relation "measure id") auto

declare bit_length.simps [simp del]

definition round_half_even :: "nat \<Rightarrow> nat \<Rightarrow> nat" where
  "round_half_even n k =
     (let q = n div 2 ^ k; r = 2 * (n mod 2 ^ k)
      in if r < 2 ^ k \<or> (r = 2 ^ k \<and> even q) then q else q + 1)"

definition int_to_float :: "int \<Rightarrow> approval_error + pyfloat" where
  "int_to_float i =
     (let n = nat \<bar>i\<bar>; k = bit_length n - 53; q = round_half_even n k
      in if bit_length (q * 2 ^ k) > 1024 then Inl Overflow_error
         else Inr (Finite (sgn i * int q) (int k)))"

fun to_float :: "approval_env \<Rightarrow> pyval \<Rightarrow> approval_error + pyval" where
  "to_float env (PFloat f) = Inr (PFloat f)"
| "to_float env (PInt i) = then_do (int_to_float i) (\<lambda>f. Inr (PFloat f))"
| "to_float env (PBool b) = Inr (PFloat (Finite (if b then 1 else 0) 0))"
| "to_float env (PStr s) = (case parse_float env s of None \<Rightarrow> Inl Value_error | Some f \<Rightarrow> Inr (PFloat f))"
| "to_float env _ = Inl Type_error"

definition from_dict :: "approval_env \<Rightarrow> pyval \<Rightarrow> approval_error + approval" where
  "from_dict env v =
     (case v of
        PDict d \<Rightarrow>
          (case dict_get_or ''payload'' (PDict []) d of
             PDict payload \<Rightarrow>
               then_do (case dict_get ''id'' d of None \<Rightarrow> Inl Key_error | Some i \<Rightarrow> Inr i) (\<lambda>i.
               then_do (case dict_get ''kind'' d of None \<Rightarrow> Inl Key_error | Some k \<Rightarrow> kind_of k) (\<lambda>kind.
               then_do (status_of (dict_get_or ''status'' (PStr ''requested'') d)) (\<lambda>status.
               then_do (to_float env (dict_get_or ''requested_at'' (PInt 0) d)) (\<lambda>at.
                 post_init env
                   \<lparr>ap_kind = kind, ap_service = dict_get_or ''service'' (PStr []) d,
                    ap_current = dict_get_or ''current'' (PStr []) d,
                    ap_proposed = dict_get_or ''proposed'' (PStr []) d, ap_id = i, ap_status = status,
                    ap_reason = dict_get_or ''reason'' (PStr []) d, ap_requested_at = at,
                    ap_requested_by = dict_get_or ''requested_by'' (PStr ''system'') d,
                    ap_decided_at = dict_get_or ''decided_at'' PNone d,
                    ap_decided_by = dict_get_or ''decided_by'' (PStr []) d,
                    ap_decision_reason = dict_get_or ''decision_reason'' (PStr []) d,
                    ap_outcome = dict_get_or ''outcome'' PNone d, ap_payload = PDict payload\<rparr>))))
           | _ \<Rightarrow> Inl Value_error)
      | _ \<Rightarrow> Inl Attribute_error)"

section \<open>Persistence\<close>

datatype queue_file = No_queue | Unopenable | Not_json | Queue json_file

record approval_store =
  queue :: queue_file
  entries :: "approval list"

text \<open>\<open>time.time() - retention_days * 86400\<close>, a number with the exponent of the clock or 0.\<close>

definition cutoff :: "int \<Rightarrow> int \<times> int \<Rightarrow> int \<times> int" where
  "cutoff retention_days now =
     (let k = retention_days * 86400
      in if snd now \<le> 0 then (fst now - k * 2 ^ nat (- snd now), snd now)
         else (fst now * 2 ^ nat (snd now) - k, 0))"

definition terminal_time :: "approval \<Rightarrow> pyval" where
  "terminal_time a = (if truthy (ap_decided_at a) then ap_decided_at a else ap_requested_at a)"

definition expired :: "int \<times> int \<Rightarrow> approval \<Rightarrow> bool" where
  "expired limit a \<longleftrightarrow>
     ap_status a \<in> {Executed, Rejected}
     \<and> (case numeric_view (terminal_time a) of None \<Rightarrow> False | Some t \<Rightarrow> num_less t limit)"

fun caught :: "approval_error \<Rightarrow> approval_error" where
  "caught Attribute_error = Attribute_error"
| "caught Overflow_error = Overflow_error"
| "caught _ = Persistence_error"

fun load_entries :: "approval_env \<Rightarrow> int \<times> int \<Rightarrow> pyval list \<Rightarrow> approval_error + approval list" where
  "load_entries env limit [] = Inr []"
| "load_entries env limit (d # ds) =
     (case from_dict env d of
        Inl e \<Rightarrow> Inl (caught e)
      | Inr a \<Rightarrow> then_do (load_entries env limit ds) (\<lambda>rest. Inr (if expired limit a then rest else a # rest)))"

definition queue_entries :: "json_file \<Rightarrow> approval_error + pyval list" where
  "queue_entries f =
     (if text_size f > MAX_QUEUE_BYTES then Inl Persistence_error
      else (case decoded f of
              PDict kvs \<Rightarrow>
                (case dict_get ''entries'' kvs of
                   Some (PList ds) \<Rightarrow> if length ds > MAX_ENTRIES then Inl Persistence_error else Inr ds
                 | _ \<Rightarrow> Inl Persistence_error)
            | _ \<Rightarrow> Inl Persistence_error))"

definition load :: "approval_env \<Rightarrow> int \<times> int \<Rightarrow> queue_file \<Rightarrow> approval_error + approval list" where
  "load env limit q =
     (case q of
        No_queue \<Rightarrow> Inr []
      | Queue f \<Rightarrow> then_do (queue_entries f) (load_entries env limit)
      | _ \<Rightarrow> Inl Persistence_error)"

definition entries_document :: "pyval list \<Rightarrow> pyval" where
  "entries_document payload = PDict [(KStr ''entries'', PList payload)]"

definition save :: "approval_env \<Rightarrow> bool \<Rightarrow> approval list \<Rightarrow> approval_error + queue_file" where
  "save env io es =
     (case each (\<lambda>a. then_do (from_dict env (to_dict a)) (\<lambda>b. Inr (to_dict b))) es of
        Inl e \<Rightarrow> Inl Persistence_error
      | Inr payload \<Rightarrow>
          if length payload > MAX_ENTRIES then Inl Persistence_error
          else (case compact_size (float_repr env) (entries_document payload) of
                  None \<Rightarrow> Inl Persistence_error
                | Some n \<Rightarrow>
                    if n > MAX_QUEUE_BYTES then Inl Persistence_error
                    else if \<not> io then Inl Persistence_error
                    else (case write_json (float_repr env) (entries_document payload) of
                            None \<Rightarrow> Inl Persistence_error
                          | Some f \<Rightarrow> Inr (Queue f))))"

definition mutation ::
  "approval_env \<Rightarrow> int \<times> int \<Rightarrow> bool \<Rightarrow> (approval list \<Rightarrow> approval_error + 'r \<times> approval list)
     \<Rightarrow> approval_store \<Rightarrow> (approval_error + 'r) \<times> approval_store"
where
  "mutation env limit io body st =
     (case load env limit (queue st) of
        Inl e \<Rightarrow> (Inl e, st)
      | Inr es \<Rightarrow>
          (case body es of
             Inl e \<Rightarrow> (Inl e, st\<lparr>entries := es\<rparr>)
           | Inr (r, es') \<Rightarrow>
               (case save env io es' of
                  Inl e \<Rightarrow> (Inl e, st\<lparr>entries := es'\<rparr>)
                | Inr q \<Rightarrow> (Inr r, \<lparr>queue = q, entries = es'\<rparr>))))"

section \<open>Life cycle\<close>

fun update_first :: "('a \<Rightarrow> bool) \<Rightarrow> ('a \<Rightarrow> 'a) \<Rightarrow> 'a list \<Rightarrow> 'a option \<times> 'a list" where
  "update_first p f [] = (None, [])"
| "update_first p f (x # xs) =
     (if p x then (Some (f x), f x # xs)
      else (case update_first p f xs of (r, ys) \<Rightarrow> (r, x # ys)))"

record enqueue_args =
  arg_service :: pyval
  arg_current :: pyval
  arg_proposed :: pyval
  arg_reason :: pyval
  arg_requested_by :: pyval
  arg_payload :: pyval

definition new_approval :: "pyval \<Rightarrow> int \<times> int \<Rightarrow> approval_kind \<Rightarrow> enqueue_args \<Rightarrow> approval" where
  "new_approval i now kind args =
     \<lparr>ap_kind = kind, ap_service = arg_service args, ap_current = arg_current args,
      ap_proposed = arg_proposed args, ap_id = i, ap_status = Requested, ap_reason = arg_reason args,
      ap_requested_at = PFloat (Finite (fst now) (snd now)), ap_requested_by = arg_requested_by args,
      ap_decided_at = PNone, ap_decided_by = PStr [], ap_decision_reason = PStr [], ap_outcome = PNone,
      ap_payload = arg_payload args\<rparr>"

definition enqueue_body ::
  "approval_env \<Rightarrow> pyval \<Rightarrow> int \<times> int \<Rightarrow> approval_kind \<Rightarrow> enqueue_args \<Rightarrow> approval list
     \<Rightarrow> approval_error + approval \<times> approval list"
where
  "enqueue_body env i now kind args es =
     then_do (post_init env (new_approval i now kind args)) (\<lambda>a. Inr (a, es @ [a]))"

definition is_at :: "pyval \<Rightarrow> approval_status \<Rightarrow> approval \<Rightarrow> bool" where
  "is_at i status a \<longleftrightarrow> ap_id a = i \<and> ap_status a = status"

definition approve_entry :: "int \<times> int \<Rightarrow> pyval \<Rightarrow> approval \<Rightarrow> approval" where
  "approve_entry now who a =
     a\<lparr>ap_status := Approved, ap_decided_at := PFloat (Finite (fst now) (snd now)), ap_decided_by := who\<rparr>"

definition reject_entry :: "int \<times> int \<Rightarrow> pyval \<Rightarrow> pyval \<Rightarrow> approval \<Rightarrow> approval" where
  "reject_entry now who why a =
     a\<lparr>ap_status := Rejected, ap_decided_at := PFloat (Finite (fst now) (snd now)), ap_decided_by := who,
       ap_decision_reason := why\<rparr>"

definition outcome_entry :: "bool \<Rightarrow> pyval \<Rightarrow> approval \<Rightarrow> approval" where
  "outcome_entry success detail a =
     a\<lparr>ap_status := Executed,
       ap_outcome := PDict [(KStr ''success'', PBool success), (KStr ''detail'', detail)]\<rparr>"

definition enqueue ::
  "approval_env \<Rightarrow> int \<Rightarrow> int \<times> int \<Rightarrow> bool \<Rightarrow> pyval \<Rightarrow> approval_kind \<Rightarrow> enqueue_args \<Rightarrow> approval_store
     \<Rightarrow> (approval_error + approval) \<times> approval_store"
where
  "enqueue env days now io i kind args = mutation env (cutoff days now) io (enqueue_body env i now kind args)"

definition approve ::
  "approval_env \<Rightarrow> int \<Rightarrow> int \<times> int \<Rightarrow> bool \<Rightarrow> pyval \<Rightarrow> pyval \<Rightarrow> approval_store
     \<Rightarrow> (approval_error + approval option) \<times> approval_store"
where
  "approve env days now io i who =
     mutation env (cutoff days now) io (\<lambda>es. Inr (update_first (is_at i Requested) (approve_entry now who) es))"

definition reject ::
  "approval_env \<Rightarrow> int \<Rightarrow> int \<times> int \<Rightarrow> bool \<Rightarrow> pyval \<Rightarrow> pyval \<Rightarrow> pyval \<Rightarrow> approval_store
     \<Rightarrow> (approval_error + approval option) \<times> approval_store"
where
  "reject env days now io i who why =
     mutation env (cutoff days now) io (\<lambda>es. Inr (update_first (is_at i Requested) (reject_entry now who why) es))"

definition record_outcome ::
  "approval_env \<Rightarrow> int \<Rightarrow> int \<times> int \<Rightarrow> bool \<Rightarrow> pyval \<Rightarrow> bool \<Rightarrow> pyval \<Rightarrow> approval_store
     \<Rightarrow> (approval_error + approval option) \<times> approval_store"
where
  "record_outcome env days now io i success detail =
     mutation env (cutoff days now) io (\<lambda>es. Inr (update_first (is_at i Approved) (outcome_entry success detail) es))"

definition open_store :: "approval_env \<Rightarrow> int \<Rightarrow> int \<times> int \<Rightarrow> queue_file \<Rightarrow> approval_error + approval_store" where
  "open_store env days now q = then_do (load env (cutoff days now) q) (\<lambda>es. Inr \<lparr>queue = q, entries = es\<rparr>)"

section \<open>Queries\<close>

definition with_status :: "approval_status \<Rightarrow> approval_kind option \<Rightarrow> approval_store \<Rightarrow> approval list" where
  "with_status status kind st =
     filter (\<lambda>a. ap_status a = status \<and> (kind = None \<or> kind = Some (ap_kind a))) (entries st)"

definition actionable :: "approval_store \<Rightarrow> approval list" where
  "actionable st = filter (\<lambda>a. ap_status a \<in> {Requested, Approved}) (entries st)"

definition find_approval :: "pyval \<Rightarrow> approval_store \<Rightarrow> approval option" where
  "find_approval i st = find (\<lambda>a. ap_id a = i) (entries st)"

end
