(* ===== verification/Approval_Safety.thy ===== *)
theory Approval_Safety
  imports Approvals
begin

text \<open>
  The approval queue as an abstract life cycle: requests are added, decided once, executed once
  after approval, and dropped when they are old and closed.  The locale \<open>approval_change\<close> is the
  contract of the body of a mutation; every operation interprets it, and the refinement of the
  life cycle is proved once inside.
\<close>

section \<open>The abstract queue\<close>

definition same_request :: "approval \<Rightarrow> approval \<Rightarrow> bool" where
  "same_request a b \<longleftrightarrow>
     ap_id b = ap_id a \<and> ap_kind b = ap_kind a \<and> ap_service b = ap_service a \<and> ap_current b = ap_current a
     \<and> ap_proposed b = ap_proposed a \<and> ap_reason b = ap_reason a \<and> ap_requested_at b = ap_requested_at a
     \<and> ap_requested_by b = ap_requested_by a \<and> ap_payload b = ap_payload a"

definition decision_step :: "approval \<Rightarrow> approval \<Rightarrow> bool" where
  "decision_step a b \<longleftrightarrow> same_request a b \<and>
     ((ap_status a = Requested \<and> ap_status b \<in> {Approved, Rejected}
         \<and> ap_decided_at b \<noteq> PNone \<and> ap_outcome b = ap_outcome a)
      \<or> (ap_status a = Approved \<and> ap_status b = Executed \<and> ap_decided_at b = ap_decided_at a
         \<and> ap_decided_by b = ap_decided_by a \<and> ap_outcome b \<noteq> PNone))"

inductive queue_step :: "int \<times> int \<Rightarrow> approval list \<Rightarrow> approval list \<Rightarrow> bool" for limit where
  drop: "expired limit a \<Longrightarrow> queue_step limit (xs @ a # ys) (xs @ ys)"
| request: "ap_status a = Requested \<Longrightarrow> ap_decided_at a = PNone \<Longrightarrow> ap_outcome a = PNone
    \<Longrightarrow> queue_step limit xs (xs @ [a])"
| decide: "decision_step a b \<Longrightarrow> queue_step limit (xs @ a # ys) (xs @ b # ys)"

text \<open>What the file holds, before anything is dropped.\<close>

definition disk_queue :: "approval_env \<Rightarrow> queue_file \<Rightarrow> approval list option" where
  "disk_queue env q =
     (case q of
        No_queue \<Rightarrow> Some []
      | Queue f \<Rightarrow>
          (case decoded f of
             PDict kvs \<Rightarrow>
               (case dict_get ''entries'' kvs of
                  Some (PList ds) \<Rightarrow> (case each (from_dict env) ds of Inr es \<Rightarrow> Some es | Inl e \<Rightarrow> None)
                | _ \<Rightarrow> None)
           | _ \<Rightarrow> None)
      | _ \<Rightarrow> None)"

lemma drops_filter: "(queue_step limit)\<^sup>*\<^sup>* (us @ xs) (us @ filter (\<lambda>a. \<not> expired limit a) xs)"
proof (induction xs arbitrary: us)
  case (Cons x xs)
  show ?case
  proof (cases "expired limit x")
    case True
    then have "queue_step limit (us @ x # xs) (us @ xs)" by (rule queue_step.drop)
    with Cons.IH [of us] True show ?thesis by (auto intro: converse_rtranclp_into_rtranclp)
  next
    case False
    with Cons.IH [of "us @ [x]"] show ?thesis by simp
  qed
qed simp

section \<open>Reading and writing\<close>

definition typed :: "approval \<Rightarrow> bool" where
  "typed a \<longleftrightarrow> (\<exists>f. ap_requested_at a = PFloat f) \<and> (\<exists>kvs. ap_payload a = PDict kvs)"

lemma kind_of_text [simp]: "kind_of (PStr (kind_text k)) = Inr k"
  by (cases k) (simp add: kind_of_def)

lemma status_of_text [simp]: "status_of (PStr (status_text s)) = Inr s"
  by (cases s) (simp_all add: status_of_def)

lemma to_dict_fields:
  assumes "to_dict a = PDict d"
  shows "dict_get ''id'' d = Some (ap_id a)" "dict_get ''kind'' d = Some (PStr (kind_text (ap_kind a)))"
    "dict_get ''service'' d = Some (ap_service a)" "dict_get ''current'' d = Some (ap_current a)"
    "dict_get ''proposed'' d = Some (ap_proposed a)" "dict_get ''status'' d = Some (PStr (status_text (ap_status a)))"
    "dict_get ''reason'' d = Some (ap_reason a)" "dict_get ''requested_at'' d = Some (ap_requested_at a)"
    "dict_get ''requested_by'' d = Some (ap_requested_by a)" "dict_get ''decided_at'' d = Some (ap_decided_at a)"
    "dict_get ''decided_by'' d = Some (ap_decided_by a)"
    "dict_get ''decision_reason'' d = Some (ap_decision_reason a)" "dict_get ''outcome'' d = Some (ap_outcome a)"
    "dict_get ''payload'' d = Some (ap_payload a)"
  using assms by (auto simp: to_dict_def dict_get_def)

lemma from_to_dict:
  assumes "typed a"
  shows "from_dict env (to_dict a) = post_init env a"
proof -
  obtain d where d: "to_dict a = PDict d" by (simp add: to_dict_def)
  obtain f kvs where "ap_requested_at a = PFloat f" "ap_payload a = PDict kvs"
    using assms by (auto simp: typed_def)
  then show ?thesis
    unfolding d by (cases a) (simp add: from_dict_def dict_get_or_def to_dict_fields [OF d])
qed

lemma from_dict_Inr:
  assumes "from_dict env v = Inr a"
  shows "valid_approval env a \<and> typed a"
proof -
  have "to_float env w = Inr u \<Longrightarrow> \<exists>f. u = PFloat f" for w u
    by (cases "(env, w)" rule: to_float.cases) (auto simp: then_do_Inr_iff split: option.splits)
  with assms show ?thesis
    by (auto simp: from_dict_def post_init_def typed_def then_do_Inr_iff split: pyval.splits if_splits)
qed

lemma load_entries_filter:
  "load_entries env limit ds = Inr es \<Longrightarrow>
     \<exists>all. each (from_dict env) ds = Inr all \<and> es = filter (\<lambda>a. \<not> expired limit a) all"
proof (induction ds arbitrary: es)
  case (Cons d ds)
  then obtain a rest where a: "from_dict env d = Inr a" and rest: "load_entries env limit ds = Inr rest"
      and es: "es = (if expired limit a then rest else a # rest)"
    by (auto simp: then_do_Inr_iff split: sum.splits)
  from Cons.IH [OF rest] a es show ?case by auto
qed simp

lemma load_disk:
  assumes "load env limit q = Inr es"
  shows "\<exists>all. disk_queue env q = Some all \<and> es = filter (\<lambda>a. \<not> expired limit a) all \<and> list_all typed all"
proof (cases q)
  case No_queue
  with assms show ?thesis by (simp add: load_def disk_queue_def)
next
  case (Queue f)
  with assms obtain ds where ds: "queue_entries f = Inr ds" "load_entries env limit ds = Inr es"
    by (auto simp: load_def then_do_Inr_iff)
  from load_entries_filter [OF ds(2)] obtain all where
    all: "each (from_dict env) ds = Inr all" "es = filter (\<lambda>a. \<not> expired limit a) all" by blast
  have "list_all typed all"
    using all(1) from_dict_Inr unfolding each_Inr_iff by (auto simp: list_all_length list_all2_conv_all_nth)
  moreover have "disk_queue env q = Some all"
    using ds(1) all(1) by (auto simp: Queue disk_queue_def queue_entries_def split: if_splits pyval.splits option.splits)
  ultimately show ?thesis using all(2) by blast
qed (use assms in \<open>simp_all add: load_def\<close>)

lemma each_reencode:
  assumes "list_all typed es" and "each (\<lambda>a. then_do (from_dict env (to_dict a)) (\<lambda>b. Inr (to_dict b))) es = Inr payload"
  shows "payload = map to_dict es \<and> list_all (valid_approval env) es"
  using assms
proof (induction es arbitrary: payload)
  case (Cons a es)
  then show ?case by (auto simp: then_do_Inr_iff from_to_dict post_init_def split: if_splits)
qed simp

lemma save_facts:
  assumes "save env io es = Inr q" and "list_all typed es"
  shows "\<exists>f. q = Queue f \<and> write_json (float_repr env) (entries_document (map to_dict es)) = Some f
    \<and> list_all (valid_approval env) es \<and> length es \<le> MAX_ENTRIES"
proof -
  obtain payload f where p: "each (\<lambda>a. then_do (from_dict env (to_dict a)) (\<lambda>b. Inr (to_dict b))) es = Inr payload"
      and len: "length payload \<le> MAX_ENTRIES"
      and f: "write_json (float_repr env) (entries_document payload) = Some f" "q = Queue f"
    using assms(1) by (auto simp: save_def split: sum.splits if_splits option.splits)
  from each_reencode [OF assms(2) p] f len show ?thesis by auto
qed

lemma each_from_to:
  "list_all typed es \<Longrightarrow> list_all (valid_approval env) es \<Longrightarrow> each (from_dict env) (map to_dict es) = Inr es"
  by (induction es) (auto simp: from_to_dict post_init_def)

lemma written_disk:
  assumes "write_json fr (entries_document (map to_dict es)) = Some f"
    and "list_all typed es" and "list_all (valid_approval env) es"
  shows "disk_queue env (Queue f) = Some es"
proof -
  have "decoded f = entries_document (map to_dict es)" using assms(1) by (auto simp: write_json_def)
  then show ?thesis using each_from_to [OF assms(2,3)]
    by (simp add: disk_queue_def entries_document_def dict_get_def)
qed

section \<open>Mutations\<close>

lemma mutation_cases:
  assumes "mutation env limit io body st = (r, st')"
  obtains (kept) "queue st' = queue st"
    | (saved) es x es' where "load env limit (queue st) = Inr es" "body es = Inr (x, es')"
        "save env io es' = Inr (queue st')" "r = Inr x" "entries st' = es'"
  using assms by (auto simp: mutation_def split: sum.splits prod.splits)

locale approval_change =
  fixes body :: "approval list \<Rightarrow> approval_error + 'r \<times> approval list"
  assumes step: "body es = Inr (x, es') \<Longrightarrow> (queue_step limit)\<^sup>*\<^sup>* es es'"
    and typed_kept: "body es = Inr (x, es') \<Longrightarrow> list_all typed es \<Longrightarrow> list_all typed es'"
begin

lemma refines:
  assumes "mutation env limit io body st = (r, st')"
  shows "queue st' = queue st \<or>
    (\<exists>es es'. disk_queue env (queue st) = Some es \<and> disk_queue env (queue st') = Some es'
        \<and> entries st' = es' \<and> (queue_step limit)\<^sup>*\<^sup>* es es' \<and> list_all (valid_approval env) es')"
  using assms
proof (cases rule: mutation_cases)
  case (saved es x es')
  from load_disk [OF saved(1)] obtain all where
    all: "disk_queue env (queue st) = Some all" "es = filter (\<lambda>a. \<not> expired limit a) all" "list_all typed all" by blast
  have "list_all typed es" using all(2,3) by (simp add: list_all_iff)
  then have typed': "list_all typed es'" using typed_kept [OF saved(2)] by blast
  from save_facts [OF saved(3) this] obtain f where
    f: "queue st' = Queue f" "write_json (float_repr env) (entries_document (map to_dict es')) = Some f"
      "list_all (valid_approval env) es'" by blast
  have "(queue_step limit)\<^sup>*\<^sup>* all es" using drops_filter [of limit "[]" all] all(2) by simp
  also have "(queue_step limit)\<^sup>*\<^sup>* es es'" by (rule step [OF saved(2)])
  finally show ?thesis using all(1) f saved(5) written_disk [OF f(2) typed' f(3)] by auto
qed simp

end

section \<open>The operations\<close>

lemma update_first_split:
  assumes "update_first p f xs = (r, ys)"
  shows "(r = None \<and> ys = xs) \<or> (\<exists>us x vs. xs = us @ x # vs \<and> p x \<and> r = Some (f x) \<and> ys = us @ f x # vs)"
  using assms
proof (induction xs arbitrary: r ys)
  case (Cons x xs)
  show ?case
  proof (cases "p x")
    case True
    with Cons.prems show ?thesis by (intro disjI2 exI [of _ "[]"]) auto
  next
    case False
    then obtain zs where zs: "update_first p f xs = (r, zs)" "ys = x # zs"
      using Cons.prems by (auto split: prod.splits)
    from Cons.IH [OF zs(1)] zs(2) show ?thesis by (metis append_Cons)
  qed
qed simp

lemma update_first_change:
  assumes "\<And>a. p a \<Longrightarrow> decision_step a (f a)" and "\<And>a. typed a \<Longrightarrow> typed (f a)"
  shows "approval_change (\<lambda>es. Inr (update_first p f es))"
proof
  fix es x es' limit
  assume "(Inr (update_first p f es) :: approval_error + _) = Inr (x, es')"
  then show "(queue_step limit)\<^sup>*\<^sup>* es es'"
    using update_first_split [of p f es x es'] assms(1) by (auto intro: queue_step.decide)
next
  fix es x es'
  assume "(Inr (update_first p f es) :: approval_error + _) = Inr (x, es')" and "list_all typed es"
  then show "list_all typed es'"
    using update_first_split [of p f es x es'] assms(2) by (auto simp: list_all_iff)
qed

interpretation enqueuing: approval_change "enqueue_body env i now kind args" for env i now kind args
proof
  fix es x es' limit
  assume "enqueue_body env i now kind args es = Inr (x, es')"
  then have "es' = es @ [new_approval i now kind args]"
    by (auto simp: enqueue_body_def then_do_Inr_iff post_init_def split: if_splits)
  moreover have "queue_step limit es (es @ [new_approval i now kind args])"
    by (rule queue_step.request) (simp_all add: new_approval_def)
  ultimately show "(queue_step limit)\<^sup>*\<^sup>* es es'" by auto
next
  fix es x es'
  assume "enqueue_body env i now kind args es = Inr (x, es')" and "list_all typed es"
  then show "list_all typed es'"
    by (auto simp: enqueue_body_def then_do_Inr_iff post_init_def valid_approval_def bounded_object_def typed_def
        new_approval_def split: if_splits pyval.splits)
qed

interpretation approving: approval_change "\<lambda>es. Inr (update_first (is_at i Requested) (approve_entry now who) es)"
  for i now who
  by (rule update_first_change) (auto simp: is_at_def decision_step_def same_request_def approve_entry_def typed_def)

interpretation rejecting: approval_change "\<lambda>es. Inr (update_first (is_at i Requested) (reject_entry now who why) es)"
  for i now who why
  by (rule update_first_change) (auto simp: is_at_def decision_step_def same_request_def reject_entry_def typed_def)

interpretation recording: approval_change "\<lambda>es. Inr (update_first (is_at i Approved) (outcome_entry success detail) es)"
  for i success detail
  by (rule update_first_change) (auto simp: is_at_def decision_step_def same_request_def outcome_entry_def typed_def)

end
