(* ===== verification/Approval_Properties.thy ===== *)
theory Approval_Properties
  imports Approval_Safety
begin

text \<open>Properties of the approval queue over single operations, whole histories and restarts.\<close>

section \<open>Calls\<close>

datatype approval_call =
    Enqueue "int \<times> int" bool pyval approval_kind enqueue_args
  | Approve "int \<times> int" bool pyval pyval
  | Reject "int \<times> int" bool pyval pyval pyval
  | Record_outcome "int \<times> int" bool pyval bool pyval

fun call_time :: "approval_call \<Rightarrow> int \<times> int" where
  "call_time (Enqueue now io i kind args) = now"
| "call_time (Approve now io i who) = now"
| "call_time (Reject now io i who why) = now"
| "call_time (Record_outcome now io i success detail) = now"

fun call_approvals ::
  "approval_env \<Rightarrow> int \<Rightarrow> approval_call \<Rightarrow> approval_store \<Rightarrow> (approval_error + approval option) \<times> approval_store"
where
  "call_approvals env days (Enqueue now io i kind args) st =
     (case enqueue env days now io i kind args st of (r, st') \<Rightarrow> (then_do r (\<lambda>a. Inr (Some a)), st'))"
| "call_approvals env days (Approve now io i who) st = approve env days now io i who st"
| "call_approvals env days (Reject now io i who why) st = reject env days now io i who why st"
| "call_approvals env days (Record_outcome now io i success detail) st =
     record_outcome env days now io i success detail st"

definition run_approvals :: "approval_env \<Rightarrow> int \<Rightarrow> approval_call list \<Rightarrow> approval_store \<Rightarrow> approval_store" where
  "run_approvals env days calls st = fold (\<lambda>c s. snd (call_approvals env days c s)) calls st"

definition fresh_store :: approval_store where
  "fresh_store = \<lparr>queue = No_queue, entries = []\<rparr>"

lemmas approval_ops = enqueue_def approve_def reject_def record_outcome_def

section \<open>Refinement\<close>

lemma call_refines:
  "queue (snd (call_approvals env days c st)) = queue st \<or>
    (\<exists>es es'. disk_queue env (queue st) = Some es \<and> disk_queue env (queue (snd (call_approvals env days c st))) = Some es'
        \<and> entries (snd (call_approvals env days c st)) = es'
        \<and> (queue_step (cutoff days (call_time c)))\<^sup>*\<^sup>* es es' \<and> list_all (valid_approval env) es')"
proof (cases c)
  case (Enqueue now io i kind args)
  then show ?thesis
    using enqueuing.refines [of env "cutoff days now" io env i now kind args st]
    by (simp add: approval_ops split: prod.splits)
next
  case (Approve now io i who)
  then show ?thesis
    using approving.refines [of env "cutoff days now" io i now who st] by (simp add: approval_ops) (metis prod.collapse)
next
  case (Reject now io i who why)
  then show ?thesis
    using rejecting.refines [of env "cutoff days now" io i now who why st] by (simp add: approval_ops) (metis prod.collapse)
next
  case (Record_outcome now io i success detail)
  then show ?thesis
    using recording.refines [of env "cutoff days now" io i success detail st] by (simp add: approval_ops) (metis prod.collapse)
qed

text \<open>
  C16: every operation on the approval store refines the abstract life cycle.  It leaves the file
  as it was, or the queue in the file moves by abstract steps: closed entries older than the
  retention are dropped, a new request is added, a request is approved or rejected, an approved
  entry is executed.  What was requested never changes, no step is skipped, and the memory copy
  then equals the file.
\<close>

theorem approvals_refine_life_cycle:
  "queue (snd (call_approvals env days c st)) = queue st \<or>
    (\<exists>es es'. disk_queue env (queue st) = Some es \<and> disk_queue env (queue (snd (call_approvals env days c st))) = Some es'
        \<and> entries (snd (call_approvals env days c st)) = es'
        \<and> (queue_step (cutoff days (call_time c)))\<^sup>*\<^sup>* es es' \<and> list_all (valid_approval env) es')"
  by (rule call_refines)

section \<open>Histories\<close>

text \<open>
  What the status of an entry says of its other fields: an open request has no decision, a
  decision has a time, and only an executed entry, which was approved before, has an outcome.
\<close>

definition coherent :: "approval \<Rightarrow> bool" where
  "coherent a =
     (case ap_status a of
        Requested \<Rightarrow> ap_decided_at a = PNone \<and> ap_outcome a = PNone
      | Executed \<Rightarrow> ap_decided_at a \<noteq> PNone \<and> ap_outcome a \<noteq> PNone
      | _ \<Rightarrow> ap_decided_at a \<noteq> PNone \<and> ap_outcome a = PNone)"

lemma queue_step_coherent: "queue_step limit xs ys \<Longrightarrow> list_all coherent xs \<Longrightarrow> list_all coherent ys"
proof (induction rule: queue_step.induct)
  case (decide a b xs ys)
  then show ?case by (auto simp: coherent_def decision_step_def split: approval_status.splits)
qed (auto simp: coherent_def)

lemma queue_steps_coherent: "(queue_step limit)\<^sup>*\<^sup>* xs ys \<Longrightarrow> list_all coherent xs \<Longrightarrow> list_all coherent ys"
  by (induction rule: rtranclp_induct) (auto intro: queue_step_coherent)

lemma call_keeps_coherent:
  assumes "disk_queue env (queue st) = Some es" and "list_all coherent es"
  shows "\<exists>es'. disk_queue env (queue (snd (call_approvals env days c st))) = Some es' \<and> list_all coherent es'"
  using call_refines [of env days c st] assms queue_steps_coherent by fastforce

text \<open>
  Over every history of calls from an empty directory, with any interleaving of failed writes,
  invalid arguments and clock values, the file decodes, whatever its size, to a queue of approvals
  whose fields agree with their status; in particular every executed entry was approved and has an outcome.
\<close>

theorem approval_history_coherent:
  "\<exists>es. disk_queue env (queue (run_approvals env days calls fresh_store)) = Some es \<and> list_all coherent es"
proof -
  have "\<exists>es. disk_queue env (queue (run_approvals env days calls st)) = Some es \<and> list_all coherent es"
    if "disk_queue env (queue st) = Some es" "list_all coherent es" for st es
    using that
  proof (induction calls arbitrary: st es)
    case Nil
    then show ?case by (simp add: run_approvals_def)
  next
    case (Cons c calls)
    from call_keeps_coherent [OF Cons.prems] obtain es' where
      "disk_queue env (queue (snd (call_approvals env days c st))) = Some es'" "list_all coherent es'" by blast
    from Cons.IH [OF this] show ?case by (simp add: run_approvals_def)
  qed
  then show ?thesis by (simp add: fresh_store_def disk_queue_def)
qed

section \<open>Restarts\<close>

lemma load_entries_each:
  "each (from_dict env) ds = Inr all \<Longrightarrow> load_entries env limit ds = Inr (filter (\<lambda>a. \<not> expired limit a) all)"
proof (induction ds arbitrary: all)
  case (Cons d ds)
  then show ?case by (auto simp: then_do_Inr_iff)
qed simp

lemma load_written:
  assumes "write_json fr (entries_document (map to_dict es)) = Some f" and "text_size f \<le> MAX_QUEUE_BYTES"
    and "list_all typed es" and "list_all (valid_approval env) es" and "length es \<le> MAX_ENTRIES"
  shows "load env limit (Queue f) = Inr (filter (\<lambda>a. \<not> expired limit a) es)"
proof -
  have "decoded f = entries_document (map to_dict es)" using assms(1) by (auto simp: write_json_def)
  then have "queue_entries f = Inr (map to_dict es)"
    using assms(2,5) by (simp add: queue_entries_def entries_document_def dict_get_def)
  then show ?thesis using load_entries_each [OF each_from_to [OF assms(3,4)]] by (simp add: load_def)
qed

lemma mutation_success:
  assumes "mutation env limit io body st = (Inr x, st')" and "approval_change body"
  shows "\<exists>f es. body es = Inr (x, entries st') \<and> queue st' = Queue f
    \<and> write_json (float_repr env) (entries_document (map to_dict (entries st'))) = Some f
    \<and> list_all typed (entries st') \<and> list_all (valid_approval env) (entries st') \<and> length (entries st') \<le> MAX_ENTRIES"
proof -
  obtain es where es: "load env limit (queue st) = Inr es" "body es = Inr (x, entries st')"
      "save env io (entries st') = Inr (queue st')"
    using assms(1) by (auto simp: mutation_def split: sum.splits prod.splits)
  from load_disk [OF es(1)] have "list_all typed es" by (auto simp: list_all_iff)
  then have ty: "list_all typed (entries st')" using approval_change.typed_kept [OF assms(2) es(2)] by blast
  from save_facts [OF es(3) ty] ty es(2) show ?thesis by blast
qed

text \<open>
  An operation that returns has written the queue: a process that opens the store later, with
  any clock, finds exactly the entries of the first one, less the closed ones that have passed the
  retention, as long as the written text is within the size a load accepts.
\<close>

theorem approvals_survive_restart:
  assumes "approve env days now io i who st = (Inr r, st')"
    and "queue st' = Queue f" and "text_size f \<le> MAX_QUEUE_BYTES"
  shows "open_store env days later (queue st')
      = Inr \<lparr>queue = queue st', entries = filter (\<lambda>a. \<not> expired (cutoff days later) a) (entries st')\<rparr>
    \<and> (r = None \<or> (\<exists>a. r = Some a \<and> a \<in> set (entries st') \<and> ap_id a = i \<and> ap_status a = Approved \<and> ap_decided_by a = who))"
proof -
  have run: "mutation env (cutoff days now) io (\<lambda>es. Inr (update_first (is_at i Requested) (approve_entry now who) es)) st
      = (Inr r, st')" using assms(1) by (simp add: approve_def)
  from mutation_success [OF this approving.approval_change_axioms] obtain g es where
    upd: "update_first (is_at i Requested) (approve_entry now who) es = (r, entries st')"
    and g: "queue st' = Queue g" "write_json (float_repr env) (entries_document (map to_dict (entries st'))) = Some g"
      "list_all typed (entries st')" "list_all (valid_approval env) (entries st')" "length (entries st') \<le> MAX_ENTRIES"
    by auto
  have "load env (cutoff days later) (queue st') = Inr (filter (\<lambda>a. \<not> expired (cutoff days later) a) (entries st'))"
    using load_written [OF g(2) _ g(3-5)] g(1) assms(2,3) by simp
  moreover have "r = None \<or> (\<exists>a. r = Some a \<and> a \<in> set (entries st') \<and> ap_id a = i \<and> ap_status a = Approved \<and> ap_decided_by a = who)"
    using update_first_split [OF upd] by (auto simp: is_at_def approve_entry_def)
  ultimately show ?thesis by (simp add: open_store_def)
qed

section \<open>A concrete queue\<close>

definition plain_env :: approval_env where
  "plain_env = \<lparr>float_repr = (\<lambda>m e. ''1.5''), parse_float = (\<lambda>s. None)\<rparr>"

definition sample_args :: enqueue_args where
  "sample_args = \<lparr>arg_service = PStr ''web'', arg_current = PStr ''1'', arg_proposed = PStr ''2'',
     arg_reason = PStr (replicate 200 (CHR ''x'')), arg_requested_by = PStr ''system'', arg_payload = PDict []\<rparr>"

definition request_with :: "string \<Rightarrow> approval" where
  "request_with i = new_approval (PStr i) (3, -1) Rightsize sample_args"

definition hex_id :: "string \<Rightarrow> bool" where
  "hex_id i \<longleftrightarrow> length i = 32 \<and> list_all is_hex i"

lemma hex_plain: "is_hex c \<Longrightarrow> plain_char c"
  by (auto simp: is_hex_def is_digit_def plain_char_def code_def)

lemma length_id_text: "hex_id i \<Longrightarrow> length (json_string i) = 34"
  using length_json_string [of i] hex_plain by (auto simp: hex_id_def list_all_iff)

lemma length_reason_text: "length (json_string (replicate 200 (CHR ''x''))) = 202"
proof -
  have "plain_char (CHR ''x'')" by code_simp
  then have "list_all plain_char (replicate 200 (CHR ''x''))" by (simp add: list_all_iff)
  then show ?thesis using length_json_string [of "replicate 200 (CHR ''x'')"] by (simp only: length_replicate)
qed

lemma word_lengths:
  "length (json_string ''id'') = 4" "length (json_string ''kind'') = 6" "length (json_string ''service'') = 9"
  "length (json_string ''current'') = 9" "length (json_string ''proposed'') = 10" "length (json_string ''status'') = 8"
  "length (json_string ''reason'') = 8" "length (json_string ''requested_at'') = 14"
  "length (json_string ''requested_by'') = 14" "length (json_string ''decided_at'') = 12"
  "length (json_string ''decided_by'') = 12" "length (json_string ''decision_reason'') = 17"
  "length (json_string ''outcome'') = 9" "length (json_string ''payload'') = 9" "length (json_string ''rightsize'') = 11"
  "length (json_string ''web'') = 5" "length (json_string ''1'') = 3" "length (json_string ''2'') = 3"
  "length (json_string ''requested'') = 11" "length (json_string ''system'') = 8" "length (json_string []) = 2"
  "length (json_string ''entries'') = 9"
  by code_simp+

lemma request_texts:
  assumes "hex_id i"
  shows "\<exists>t. json_text (float_repr plain_env) None 2 (to_dict (request_with i)) = Some t \<and> length t = 464"
    and "\<exists>t. json_text (float_repr plain_env) (Some 2) 2 (to_dict (request_with i)) = Some t \<and> length t = 581"
  using length_id_text [OF assms]
  by (simp_all add: to_dict_def request_with_def new_approval_def sample_args_def plain_env_def frame_def
      length_newline key_sep_def word_lengths length_reason_text)

lemma request_valid:
  assumes "hex_id i"
  shows "valid_approval plain_env (request_with i)" and "typed (request_with i)"
proof -
  have "approval_service (PStr ''web'')" "bounded_text 256 (PStr ''1'')" "bounded_text 256 (PStr ''2'')"
    "bounded_text 128 (PStr ''system'')" by code_simp+
  moreover have "bounded_text 500 (PStr (replicate 200 (CHR ''x'')))"
  proof -
    have "\<not> code (CHR ''x'') < 32" by code_simp
    then show ?thesis by (simp add: bounded_text_def list_ex_iff)
  qed
  ultimately show "valid_approval plain_env (request_with i)"
    using assms
    by (simp add: valid_approval_def request_with_def new_approval_def sample_args_def approval_id_def hex_id_def
        bounded_text_def positive_time_def bounded_object_def compact_size_def frame_def MAX_PAYLOAD_BYTES_def)
  show "typed (request_with i)" by (simp add: typed_def request_with_def new_approval_def sample_args_def)
qed

lemma document_size:
  assumes "list_all hex_id ids" and "ids \<noteq> []"
  defines "v \<equiv> entries_document (map to_dict (map request_with ids))"
  shows "compact_size (float_repr plain_env) v = Some (14 + 464 * length ids + (length ids - 1))"
    and "\<exists>f. write_json (float_repr plain_env) v = Some f \<and> decoded f = v
      \<and> text_size f = 23 + 586 * length ids + (length ids - 1)"
proof -
  let ?fr = "float_repr plain_env"
  define h where "h ind i = the (json_text ?fr ind 2 (to_dict (request_with i)))" for ind i
  have h: "json_text ?fr ind 2 (to_dict (request_with i)) = Some (h ind i)" if "ind = None \<or> ind = Some 2" "i \<in> set ids" for ind i
    using that assms(1) request_texts [of i] by (auto simp: h_def list_all_iff)
  have len: "length (h None i) = 464" "length (h (Some 2) i) = 581" if "i \<in> set ids" for i
    using that assms(1) request_texts [of i] by (auto simp: h_def list_all_iff)
  have els: "json_elements ?fr ind 2 (map (to_dict \<circ> request_with) ids) = Some (map (h ind) ids)"
    if "ind = None \<or> ind = Some 2" for ind
    using h [OF that] by (intro json_elements_map) simp
  have eqs: "json_text ?fr ind 0 v = Some (frame ind 0 (CHR ''{'') (CHR ''}'')
      [json_string ''entries'' @ key_sep ind @ frame ind 1 (CHR ''['') (CHR '']'') (map (h ind) ids)])"
    if "ind = None \<or> ind = Some 2" for ind
    using els [OF that] by (simp add: v_def entries_document_def numeral_2_eq_2 comp_def)
  have "length (frame None 1 (CHR ''['') (CHR '']'') (map (h None) ids)) = 2 + 464 * length ids + (length ids - 1)"
    using len(1) assms(2) by (subst length_frame_const [where c = 464]) (auto simp: list_all_iff length_newline)
  then show "compact_size ?fr v = Some (14 + 464 * length ids + (length ids - 1))"
    by (simp add: compact_size_def eqs frame_def length_newline key_sep_def word_lengths)
  have "length (frame (Some 2) 1 (CHR ''['') (CHR '']'') (map (h (Some 2)) ids)) = 5 + 586 * length ids + (length ids - 1)"
    using len(2) assms(2) by (subst length_frame_const [where c = 581]) (auto simp: list_all_iff length_newline)
  then show "\<exists>f. write_json ?fr v = Some f \<and> decoded f = v \<and> text_size f = 23 + 586 * length ids + (length ids - 1)"
    by (simp add: write_json_def eqs frame_def length_newline key_sep_def word_lengths)
qed

lemma requests_ok:
  assumes "list_all hex_id ids"
  shows "list_all typed (map request_with ids)" and "list_all (valid_approval plain_env) (map request_with ids)"
  using assms by (simp_all add: list_all_iff request_valid)

lemma requests_kept: "filter (\<lambda>a. \<not> expired limit a) (map request_with ids) = map request_with ids"
  by (induction ids) (auto simp: expired_def request_with_def new_approval_def)

lemma save_requests:
  assumes "list_all hex_id ids" and "ids \<noteq> []" and "length ids \<le> MAX_ENTRIES"
    and "14 + 464 * length ids + (length ids - 1) \<le> MAX_QUEUE_BYTES"
  shows "\<exists>f. save plain_env True (map request_with ids) = Inr (Queue f)
    \<and> write_json (float_repr plain_env) (entries_document (map to_dict (map request_with ids))) = Some f
    \<and> text_size f = 23 + 586 * length ids + (length ids - 1)"
proof -
  have ok: "from_dict plain_env (to_dict a) = Inr a" if "a \<in> set (map request_with ids)" for a
    using that requests_ok [OF assms(1)] by (auto simp: list_all_iff from_to_dict post_init_def)
  have "each (\<lambda>a. then_do (from_dict plain_env (to_dict a)) (\<lambda>b. Inr (to_dict b))) as = Inr (map to_dict as)"
    if "set as \<subseteq> set (map request_with ids)" for as
    using that
  proof (induction as)
    case (Cons a as)
    then show ?case using ok [of a] by simp
  qed simp
  then have "each (\<lambda>a. then_do (from_dict plain_env (to_dict a)) (\<lambda>b. Inr (to_dict b))) (map request_with ids)
      = Inr (map to_dict (map request_with ids))" by blast
  with document_size [OF assms(1,2)] assms(3,4) show ?thesis by (auto simp: save_def)
qed

text \<open>
  C17: the queue can lock itself out.  \<open>_save\<close> measures the compact JSON text but writes an
  indented one, and \<open>_load\<close> measures the file.  With 1786 open requests on disk, for any ids, the
  next request is accepted and written although the file is then longer than a load accepts: from
  there on every load, and with it every operation, fails.
\<close>

theorem full_queue_locks_out:
  assumes "list_all hex_id (i # ids)" and "length ids = 1786"
  shows "\<exists>f f'. load plain_env limit (Queue f) = Inr (map request_with ids)
    \<and> enqueue plain_env 30 (3, -1) True (PStr i) Rightsize sample_args \<lparr>queue = Queue f, entries = []\<rparr>
        = (Inr (request_with i), \<lparr>queue = Queue f', entries = map request_with (ids @ [i])\<rparr>)
    \<and> load plain_env later (Queue f') = Inl Persistence_error"
proof -
  have ids: "list_all hex_id ids" "ids \<noteq> []" "length ids \<le> MAX_ENTRIES"
    and both: "list_all hex_id (ids @ [i])" "ids @ [i] \<noteq> []" "length (ids @ [i]) \<le> MAX_ENTRIES"
    using assms by (auto simp: MAX_ENTRIES_def)
  obtain f where f: "write_json (float_repr plain_env) (entries_document (map to_dict (map request_with ids))) = Some f"
      and size: "text_size f = 1048404"
    using save_requests [OF ids] assms(2) by (auto simp: MAX_QUEUE_BYTES_def)
  have load: "load plain_env lim (Queue f) = Inr (map request_with ids)" for lim
    using load_written [OF f _ requests_ok [OF ids(1)], of lim] size ids(3) requests_kept by (simp add: MAX_QUEUE_BYTES_def)
  obtain f' where f': "save plain_env True (map request_with (ids @ [i])) = Inr (Queue f')"
      and size': "text_size f' = 1048991"
    using save_requests [OF both] assms(2) by (auto simp: MAX_QUEUE_BYTES_def)
  have "post_init plain_env (request_with i) = Inr (request_with i)"
    using request_valid [of i] assms(1) by (simp add: post_init_def)
  then have "enqueue_body plain_env (PStr i) (3, -1) Rightsize sample_args (map request_with ids)
      = Inr (request_with i, map request_with (ids @ [i]))"
    by (simp add: enqueue_body_def request_with_def)
  then have "enqueue plain_env 30 (3, -1) True (PStr i) Rightsize sample_args \<lparr>queue = Queue f, entries = []\<rparr>
        = (Inr (request_with i), \<lparr>queue = Queue f', entries = map request_with (ids @ [i])\<rparr>)"
    using load f' by (simp add: enqueue_def mutation_def)
  moreover have "load plain_env later (Queue f') = Inl Persistence_error"
    using size' by (simp add: load_def queue_entries_def MAX_QUEUE_BYTES_def)
  ultimately show ?thesis using load by blast
qed

definition zero_id :: string where
  "zero_id = replicate 32 (CHR ''0'')"

lemma zero_id_hex: "hex_id zero_id"
  by code_simp

theorem full_queue_locks_out_witness:
  "\<exists>f f'. load plain_env (0, 0) (Queue f) = Inr (map request_with (replicate 1786 zero_id))
    \<and> enqueue plain_env 30 (3, -1) True (PStr zero_id) Rightsize sample_args \<lparr>queue = Queue f, entries = []\<rparr>
        = (Inr (request_with zero_id), \<lparr>queue = Queue f', entries = map request_with (replicate 1786 zero_id @ [zero_id])\<rparr>)
    \<and> load plain_env (0, 0) (Queue f') = Inl Persistence_error"
proof (rule full_queue_locks_out)
  show "list_all hex_id (zero_id # replicate 1786 zero_id)" using zero_id_hex by (simp add: list_all_iff)
  show "length (replicate 1786 zero_id) = 1786" by (rule length_replicate)
qed

theorem approvals_survive_restart_witness:
  "\<exists>f a st'. approve plain_env 30 (9, 0) True (PStr zero_id) (PStr ''ops'') \<lparr>queue = Queue f, entries = []\<rparr> = (Inr (Some a), st')
     \<and> ap_status a = Approved \<and> a \<in> set (entries st')
     \<and> open_store plain_env 30 (50, 0) (queue st') = Inr st'"
proof -
  let ?a = "approve_entry (9, 0) (PStr ''ops'') (request_with zero_id)"
  have ids: "list_all hex_id [zero_id]" "[zero_id] \<noteq> []" "length [zero_id] \<le> MAX_ENTRIES"
    using zero_id_hex by (simp_all add: MAX_ENTRIES_def)
  obtain f where f: "write_json (float_repr plain_env) (entries_document (map to_dict (map request_with [zero_id]))) = Some f"
      and size: "text_size f = 609"
    using save_requests [OF ids] by (auto simp: MAX_QUEUE_BYTES_def)
  have load: "load plain_env lim (Queue f) = Inr [request_with zero_id]" for lim
    using load_written [OF f _ requests_ok [OF ids(1)], of lim] size ids(3) requests_kept [of lim "[zero_id]"]
    by (simp add: MAX_QUEUE_BYTES_def)
  have valid: "valid_approval plain_env ?a" and ty: "typed ?a"
    using request_valid [OF zero_id_hex]
    by (simp_all add: valid_approval_def approve_entry_def typed_def positive_time_def bounded_text_def code_def)
  have "from_dict plain_env (to_dict ?a) = Inr ?a" using from_to_dict [OF ty] valid by (simp add: post_init_def)
  then have re: "each (\<lambda>a. then_do (from_dict plain_env (to_dict a)) (\<lambda>b. Inr (to_dict b))) [?a] = Inr [to_dict ?a]" by simp
  have "map_option (\<lambda>n. n < 1000) (compact_size (float_repr plain_env) (entries_document [to_dict ?a])) = Some True"
    by code_simp
  then obtain n where n: "compact_size (float_repr plain_env) (entries_document [to_dict ?a]) = Some n" "n < 1000" by auto
  have "map_option (\<lambda>g. text_size g < 1000) (write_json (float_repr plain_env) (entries_document [to_dict ?a])) = Some True"
    by code_simp
  then obtain g where g: "write_json (float_repr plain_env) (entries_document [to_dict ?a]) = Some g" "text_size g < 1000" by auto
  have saved: "save plain_env True [?a] = Inr (Queue g)"
    unfolding save_def re using n g by (simp add: MAX_ENTRIES_def MAX_QUEUE_BYTES_def)
  define st' where "st' = \<lparr>queue = Queue g, entries = [?a]\<rparr>"
  have at: "is_at (PStr zero_id) Requested (request_with zero_id)" by (simp add: is_at_def request_with_def new_approval_def)
  have run: "approve plain_env 30 (9, 0) True (PStr zero_id) (PStr ''ops'') \<lparr>queue = Queue f, entries = []\<rparr> = (Inr (Some ?a), st')"
    using load saved at by (simp add: approve_def mutation_def st'_def)
  have q: "queue st' = Queue g" "text_size g \<le> MAX_QUEUE_BYTES" using g(2) by (simp_all add: st'_def MAX_QUEUE_BYTES_def)
  have open_expired: "\<not> expired lim ?a" for lim by (simp add: expired_def approve_entry_def)
  from approvals_survive_restart [OF run q, of "(50, 0)"]
  have "open_store plain_env 30 (50, 0) (queue st') = Inr st'" using open_expired by (simp add: st'_def)
  moreover have "ap_status ?a = Approved" "?a \<in> set (entries st')" by (simp_all add: approve_entry_def st'_def)
  ultimately show ?thesis using run by blast
qed

end
