(* ===== verification/Operation_Lease.thy ===== *)
theory Operation_Lease
  imports Placement
begin

text \<open>
  \<open>core/deploy/operation_lease.py\<close>: the lease that serialises deployment operations.  The state is
  the lock file (its inode, who holds the advisory lock, its text) and the cancel marker; a holder
  of the lock is an open file description, numbered here.  Each method is one definition; how the
  methods of several processes interleave is in \<open>Lease_Interleavings\<close>.  A path that is not a regular
  file counts as one that cannot be opened.
\<close>

section \<open>Data\<close>

record lease_snapshot =
  lease_id :: string
  lease_operation :: string
  lease_pid :: int
  started_at :: string
  cancel_requested :: bool

record lease_inspection =
  inspected_active :: bool
  inspected_snapshot :: "lease_snapshot option"

datatype lease_error =
    Lease_busy
  | Lease_cancelled string string
  | Lease_released
  | Other_root
  | Lock_unavailable
  | Lock_replaced

text \<open>The text of the lock file: none yet, not JSON, or a JSON value.\<close>

datatype lock_text = Lock_empty | Lock_garbage | Lock_json pyval

record lease_disk =
  lock_inode :: "nat option"
  lock_holder :: "nat option"
  lock_text :: lock_text
  cancel_marker :: "string option"

record operation_lease =
  lease_root :: string
  lease_handle :: nat
  lease_inode :: nat
  own_snapshot :: lease_snapshot
  released :: bool
  shielded :: bool

section \<open>The record in the lock file\<close>

definition snapshot_document :: "lease_snapshot \<Rightarrow> pyval" where
  "snapshot_document s = PDict
     [(KStr ''cancel_requested'', PBool (cancel_requested s)), (KStr ''lease_id'', PStr (lease_id s)),
      (KStr ''operation'', PStr (lease_operation s)), (KStr ''pid'', PInt (lease_pid s)),
      (KStr ''started_at'', PStr (started_at s))]"

text \<open>\<open>int(value)\<close>; \<open>None\<close> is the TypeError or ValueError the caller turns into no snapshot.\<close>

fun py_int :: "pyval \<Rightarrow> int option" where
  "py_int (PInt i) = Some i"
| "py_int (PBool b) = Some (if b then 1 else 0)"
| "py_int (PStr s) = int_of_text s"
| "py_int (PFloat (Finite m e)) =
     Some (if 0 \<le> e then m * 2 ^ nat e else sgn m * (\<bar>m\<bar> div 2 ^ nat (- e)))"
| "py_int _ = None"

definition read_snapshot :: "py_texts \<Rightarrow> lock_text \<Rightarrow> lease_snapshot option" where
  "read_snapshot tx t =
     (case t of
        Lock_json (PDict d) \<Rightarrow>
          (case (dict_get ''lease_id'' d, dict_get ''operation'' d, dict_get ''pid'' d, dict_get ''started_at'' d,
                 dict_get ''cancel_requested'' d) of
             (Some i, Some op, Some p, Some at, Some c) \<Rightarrow>
               (case py_int p of
                  None \<Rightarrow> None
                | Some pid \<Rightarrow>
                    Some \<lparr>lease_id = py_str tx i, lease_operation = py_str tx op, lease_pid = pid,
                          started_at = py_str tx at, cancel_requested = truthy c\<rparr>)
           | _ \<Rightarrow> None)
      | _ \<Rightarrow> None)"

section \<open>The cancel marker\<close>

definition cancel_requested_for :: "lease_disk \<Rightarrow> string \<Rightarrow> bool" where
  "cancel_requested_for d i = (case cancel_marker d of None \<Rightarrow> False | Some t \<Rightarrow> strip t = i)"

definition clear_cancel_request :: "string option \<Rightarrow> lease_disk \<Rightarrow> lease_disk" where
  "clear_cancel_request expected d =
     (case cancel_marker d of
        None \<Rightarrow> d
      | Some t \<Rightarrow>
          if expected = None \<or> expected = Some (strip t) then d\<lparr>cancel_marker := None\<rparr> else d)"

section \<open>Operations\<close>

text \<open>\<open>handle\<close> and \<open>inode\<close> are what opening the file returns; \<open>inode\<close> is used if the file is new.\<close>

definition acquire ::
  "string \<Rightarrow> string \<Rightarrow> nat \<Rightarrow> nat \<Rightarrow> string \<Rightarrow> int \<Rightarrow> string \<Rightarrow> lease_disk \<Rightarrow> (lease_error + operation_lease) \<times> lease_disk"
where
  "acquire root operation handle inode i pid at d =
     (let ino = (case lock_inode d of None \<Rightarrow> inode | Some n \<Rightarrow> n);
          d1 = d\<lparr>lock_inode := Some ino\<rparr>
      in if lock_holder d \<noteq> None then (Inl Lease_busy, d1)
         else
           (let s = \<lparr>lease_id = i, lease_operation = operation, lease_pid = pid, started_at = at, cancel_requested = False\<rparr>;
                d2 = clear_cancel_request None (d1\<lparr>lock_holder := Some handle\<rparr>)
            in (Inr \<lparr>lease_root = root, lease_handle = handle, lease_inode = ino, own_snapshot = s,
                     released = False, shielded = False\<rparr>,
                d2\<lparr>lock_text := Lock_json (snapshot_document s)\<rparr>)))"

definition inspect :: "py_texts \<Rightarrow> lease_disk \<Rightarrow> lease_inspection" where
  "inspect tx d =
     (case lock_inode d of
        None \<Rightarrow> \<lparr>inspected_active = False, inspected_snapshot = None\<rparr>
      | Some _ \<Rightarrow>
          \<lparr>inspected_active = (lock_holder d \<noteq> None),
           inspected_snapshot =
             map_option (\<lambda>s. s\<lparr>cancel_requested := cancel_requested_for d (lease_id s)\<rparr>) (read_snapshot tx (lock_text d))\<rparr>)"

definition request_active_cancel :: "py_texts \<Rightarrow> string option \<Rightarrow> lease_disk \<Rightarrow> lease_inspection \<times> lease_disk" where
  "request_active_cancel tx expected d =
     (let found = inspect tx d
      in case inspected_snapshot found of
           None \<Rightarrow> (found, d)
         | Some s \<Rightarrow>
             if \<not> inspected_active found then (found, d)
             else if expected \<noteq> None \<and> expected \<noteq> Some (lease_id s) then (found, d)
             else (let d' = d\<lparr>cancel_marker := Some (lease_id s @ [char_of (10 :: nat)])\<rparr> in (inspect tx d', d')))"

definition require_owned :: "operation_lease \<Rightarrow> lease_error + unit" where
  "require_owned l = (if released l then Inl Lease_released else Inr ())"

definition request_cancel :: "py_texts \<Rightarrow> operation_lease \<Rightarrow> lease_disk \<Rightarrow> (lease_error + unit) \<times> lease_disk" where
  "request_cancel tx l d =
     (case require_owned l of
        Inl e \<Rightarrow> (Inl e, d)
      | Inr u \<Rightarrow> (Inr (), snd (request_active_cancel tx (Some (lease_id (own_snapshot l))) d)))"

definition raise_if_cancelled :: "operation_lease \<Rightarrow> lease_disk \<Rightarrow> lease_error + unit" where
  "raise_if_cancelled l d =
     then_do (require_owned l) (\<lambda>u.
       if shielded l then Inr ()
       else if cancel_requested_for d (lease_id (own_snapshot l))
         then Inl (Lease_cancelled (lease_id (own_snapshot l)) (lease_operation (own_snapshot l)))
       else Inr ())"

text \<open>\<open>shield_cancellation\<close> as its entry, which yields the flag to restore, and its exit.\<close>

definition shield_enter ::
  "operation_lease \<Rightarrow> lease_disk \<Rightarrow> (lease_error + bool) \<times> operation_lease \<times> lease_disk"
where
  "shield_enter l d =
     (case require_owned l of
        Inl e \<Rightarrow> (Inl e, l, d)
      | Inr u \<Rightarrow>
          (Inr (shielded l), l\<lparr>shielded := True\<rparr>,
           if \<not> shielded l then clear_cancel_request (Some (lease_id (own_snapshot l))) d else d))"

definition shield_exit :: "bool \<Rightarrow> operation_lease \<Rightarrow> operation_lease" where
  "shield_exit previous l = l\<lparr>shielded := previous\<rparr>"

definition release_lease :: "operation_lease \<Rightarrow> lease_disk \<Rightarrow> operation_lease \<times> lease_disk" where
  "release_lease l d =
     (if released l then (l, d)
      else
        (let d1 = (if lock_holder d = Some (lease_handle l) then d\<lparr>lock_holder := None\<rparr> else d)
         in (l\<lparr>released := True\<rparr>, clear_cancel_request (Some (lease_id (own_snapshot l))) d1)))"

definition assert_owns_root :: "operation_lease \<Rightarrow> string \<Rightarrow> lease_disk \<Rightarrow> lease_error + unit" where
  "assert_owns_root l root d =
     then_do (require_owned l) (\<lambda>u.
       if lease_root l \<noteq> root then Inl Other_root
       else (case lock_inode d of
               None \<Rightarrow> Inl Lock_unavailable
             | Some n \<Rightarrow> if n \<noteq> lease_inode l then Inl Lock_replaced else Inr ()))"

definition lease_snapshot_now :: "operation_lease \<Rightarrow> lease_disk \<Rightarrow> lease_snapshot" where
  "lease_snapshot_now l d = (own_snapshot l)\<lparr>cancel_requested := cancel_requested_for d (lease_id (own_snapshot l))\<rparr>"

section \<open>Facts\<close>

lemma read_written: "read_snapshot tx (Lock_json (snapshot_document s)) = Some s"
  by (simp add: read_snapshot_def snapshot_document_def dict_get_def)

definition no_space :: "string \<Rightarrow> bool" where
  "no_space s \<longleftrightarrow> list_all (\<lambda>c. \<not> is_space c) s"

lemma strip_marker: "no_space s \<Longrightarrow> strip (s @ [char_of (10 :: nat)]) = s"
proof -
  assume s: "no_space s"
  have keep: "dropWhile is_space t = t" if "list_all (\<lambda>c. \<not> is_space c) t" for t
    using that by (cases t) auto
  have nl: "is_space (char_of (10 :: nat))" by (simp add: is_space_def code_def)
  have "list_all (\<lambda>c. \<not> is_space c) (rev s)" using s by (simp add: no_space_def list_all_iff)
  then have "rev (dropWhile is_space (rev (s @ [char_of (10 :: nat)]))) = s" using nl by (simp add: keep)
  moreover have "dropWhile is_space (s @ [char_of (10 :: nat)]) = (if s = [] then [] else s @ [char_of (10 :: nat)])"
    using s nl by (cases s) (auto simp: no_space_def)
  ultimately show ?thesis by (auto simp: strip_def lstrip_def rstrip_def)
qed

end
