(* ===== verification/Lease_Interleavings.thy ===== *)
theory Lease_Interleavings
  imports Operation_Lease
begin

text \<open>
  How the methods of \<open>OperationLease\<close> interleave when several processes run them on one root.  Each
  step is one effect on the shared files: taking or dropping the advisory lock, reading or
  replacing the cancel marker, writing the record.  A process is idle, inside \<open>acquire\<close> (\<open>Locking\<close>,
  \<open>Writing\<close>), owns the lease, is inside \<open>release\<close> (\<open>Unlocked\<close>, \<open>Unlinking\<close>), inside \<open>inspect\<close>
  (\<open>Probing\<close>, \<open>Probed\<close>), or inside \<open>request_active_cancel\<close> (\<open>Aiming\<close>).  Writing the record may
  fail and leave the old record, none or the new one, and a process may die anywhere: the kernel
  then drops its lock.  Lease ids are random and assumed not to repeat; \<open>asked\<close> records the ids for
  which a cancellation has been decided.
\<close>

datatype lease_phase =
    Idle
  | Locking string
  | Writing string
  | Owning string bool
  | Unlocked string
  | Unlinking string
  | Probing
  | Probed bool
  | Aiming string

record lease_system =
  holder :: "nat option"
  recorded :: "string option"
  marker :: "string option"
  phase :: "nat \<Rightarrow> lease_phase"
  issued :: "string set"
  asked :: "string set"

definition lease_start :: lease_system where
  "lease_start = \<lparr>holder = None, recorded = None, marker = None, phase = (\<lambda>p. Idle), issued = {}, asked = {}\<rparr>"

inductive lease_step :: "lease_system \<Rightarrow> lease_system \<Rightarrow> bool" where
  take: "phase s p = Idle \<Longrightarrow> holder s = None \<Longrightarrow> i \<notin> issued s \<Longrightarrow>
    lease_step s (s\<lparr>holder := Some p, phase := (phase s)(p := Locking i), issued := insert i (issued s)\<rparr>)"
| clear: "phase s p = Locking i \<Longrightarrow>
    lease_step s (s\<lparr>marker := None, phase := (phase s)(p := Writing i)\<rparr>)"
| persist: "phase s p = Writing i \<Longrightarrow>
    lease_step s (s\<lparr>recorded := Some i, phase := (phase s)(p := Owning i False)\<rparr>)"
| shield: "phase s p = Owning i False \<Longrightarrow>
    lease_step s (s\<lparr>marker := (if marker s = Some i then None else marker s), phase := (phase s)(p := Owning i True)\<rparr>)"
| unshield: "phase s p = Owning i True \<Longrightarrow> lease_step s (s\<lparr>phase := (phase s)(p := Owning i False)\<rparr>)"
| unlock: "phase s p = Owning i b \<Longrightarrow>
    lease_step s (s\<lparr>holder := None, phase := (phase s)(p := Unlocked i)\<rparr>)"
| look: "phase s p = Unlocked i \<Longrightarrow>
    lease_step s (s\<lparr>phase := (phase s)(p := if marker s = Some i then Unlinking i else Idle)\<rparr>)"
| unlink: "phase s p = Unlinking i \<Longrightarrow>
    lease_step s (s\<lparr>marker := None, phase := (phase s)(p := Idle)\<rparr>)"
| probe_free: "phase s p = Idle \<Longrightarrow> holder s = None \<Longrightarrow>
    lease_step s (s\<lparr>holder := Some p, phase := (phase s)(p := Probing)\<rparr>)"
| probe_busy: "phase s p = Idle \<Longrightarrow> holder s \<noteq> None \<Longrightarrow>
    lease_step s (s\<lparr>phase := (phase s)(p := Probed True)\<rparr>)"
| probe_end: "phase s p = Probing \<Longrightarrow>
    lease_step s (s\<lparr>holder := None, phase := (phase s)(p := Probed False)\<rparr>)"
| aim: "phase s p = Probed True \<Longrightarrow> recorded s = Some i \<Longrightarrow>
    lease_step s (s\<lparr>phase := (phase s)(p := Aiming i), asked := insert i (asked s)\<rparr>)"
| leave: "phase s p = Probed b \<Longrightarrow> lease_step s (s\<lparr>phase := (phase s)(p := Idle)\<rparr>)"
| fire: "phase s p = Aiming i \<Longrightarrow>
    lease_step s (s\<lparr>marker := Some i, phase := (phase s)(p := Idle)\<rparr>)"
| abandon: "phase s p = Writing i \<Longrightarrow> r \<in> {recorded s, None, Some i} \<Longrightarrow>
    lease_step s (s\<lparr>holder := None, recorded := r, phase := (phase s)(p := Idle)\<rparr>)"
| die: "lease_step s (s\<lparr>holder := (if holder s = Some p then None else holder s), phase := (phase s)(p := Idle)\<rparr>)"

definition lease_reachable :: "lease_system \<Rightarrow> bool" where
  "lease_reachable s \<longleftrightarrow> lease_step\<^sup>*\<^sup>* lease_start s"

section \<open>Invariant\<close>

fun holds_lock :: "lease_phase \<Rightarrow> bool" where
  "holds_lock (Locking i) = True"
| "holds_lock (Writing i) = True"
| "holds_lock (Owning i b) = True"
| "holds_lock Probing = True"
| "holds_lock _ = False"

definition lock_inv :: "lease_system \<Rightarrow> bool" where
  "lock_inv s \<longleftrightarrow> (\<forall>p. holds_lock (phase s p) \<longleftrightarrow> holder s = Some p)"

definition id_inv :: "lease_system \<Rightarrow> bool" where
  "id_inv s \<longleftrightarrow>
     asked s \<subseteq> issued s
     \<and> (\<forall>i. recorded s = Some i \<longrightarrow> i \<in> issued s)
     \<and> (\<forall>i. marker s = Some i \<longrightarrow> i \<in> asked s)
     \<and> (\<forall>p i. phase s p = Aiming i \<longrightarrow> i \<in> asked s)
     \<and> (\<forall>p i. phase s p \<in> {Locking i, Writing i} \<longrightarrow> i \<in> issued s \<and> i \<notin> asked s \<and> recorded s \<noteq> Some i)
     \<and> (\<forall>p i b. phase s p = Owning i b \<longrightarrow> recorded s = Some i)"

lemma lock_inv_update:
  assumes "lock_inv s" and "phase s' = (phase s)(p := x)"
    and "(holds_lock x = holds_lock (phase s p) \<and> holder s' = holder s)
      \<or> (holds_lock x \<and> holder s = None \<and> holder s' = Some p)
      \<or> (\<not> holds_lock x \<and> holds_lock (phase s p) \<and> holder s' = None)"
  shows "lock_inv s'"
  unfolding lock_inv_def
proof
  fix q
  have p: "holds_lock (phase s p) \<longleftrightarrow> holder s = Some p" and q: "holds_lock (phase s q) \<longleftrightarrow> holder s = Some q"
    using assms(1) by (simp_all add: lock_inv_def)
  show "holds_lock (phase s' q) \<longleftrightarrow> holder s' = Some q"
  proof (cases "q = p")
    case True
    then show ?thesis using assms(2,3) p by auto
  next
    case False
    then have "phase s' q = phase s q" using assms(2) by simp
    then show ?thesis using False assms(3) p q by fastforce
  qed
qed

lemma lock_inv_step: "lease_step s s' \<Longrightarrow> lock_inv s \<Longrightarrow> lock_inv s'"
proof (induction rule: lease_step.induct)
  case (die s p)
  then show ?case by (auto simp: lock_inv_def)
qed (erule lock_inv_update, simp, simp)+

lemma lock_inv_unique: "lock_inv s \<Longrightarrow> holds_lock (phase s p) \<Longrightarrow> holds_lock (phase s q) \<Longrightarrow> p = q"
  by (simp add: lock_inv_def)

lemma lock_alone:
  assumes "lock_inv s" and "holder s = None \<or> holder s = Some p \<and> q \<noteq> p"
  shows "phase s q \<notin> {Locking j, Writing j, Owning j b}"
proof -
  have "\<not> holds_lock (phase s q)" using assms by (auto simp: lock_inv_def)
  then show ?thesis by (metis holds_lock.simps(1-3) insertE singletonD)
qed

lemma lock_of: "lock_inv s \<Longrightarrow> holds_lock (phase s p) \<Longrightarrow> holder s = Some p"
  by (simp add: lock_inv_def)

lemma id_inv_step:
  assumes "lease_step s s'" and "lock_inv s" and "id_inv s"
  shows "id_inv s'"
  using assms
proof (induction rule: lease_step.induct)
  case (take s p i)
  then have "phase s q \<notin> {Locking j, Writing j, Owning j b}" for q j b
    using lock_alone by blast
  with take show ?case unfolding id_inv_def by auto
next
  case (persist s p i)
  then have "phase s q \<notin> {Locking j, Writing j, Owning j b}" if "q \<noteq> p" for q j b
    using that lock_of [of s p] lock_alone [of s p q] by simp
  with persist show ?case unfolding id_inv_def by auto
next
  case (abandon s p i r)
  then have "phase s q \<notin> {Locking j, Writing j, Owning j b}" if "q \<noteq> p" for q j b
    using that lock_of [of s p] lock_alone [of s p q] by simp
  with abandon show ?case unfolding id_inv_def by auto
next
  case (shield s p i)
  then have "recorded s = Some i" unfolding id_inv_def by blast
  with shield show ?case by (auto simp: id_inv_def)
next
  case (unshield s p i)
  then have "recorded s = Some i" unfolding id_inv_def by blast
  with unshield show ?case by (auto simp: id_inv_def)
qed (auto simp: id_inv_def)

lemma reachable_inv:
  assumes "lease_reachable s"
  shows "lock_inv s \<and> id_inv s"
proof -
  have "lock_inv lease_start \<and> id_inv lease_start" by (simp add: lease_start_def lock_inv_def id_inv_def)
  with assms show ?thesis
    unfolding lease_reachable_def
    by (induction rule: rtranclp_induct) (auto dest: lock_inv_step id_inv_step)
qed

section \<open>Properties\<close>

text \<open>
  C18: in every interleaving at most one process owns the lease, and while it does nobody else can
  take it.  A lease about to start has no request against it, not on disk and not on its way: a
  request that was meant for an earlier operation cannot cancel it, and the owner finds its own id
  in the marker only after a request decided against that very id.
\<close>

theorem lease_exclusive:
  assumes "lease_reachable s"
  shows "(\<forall>p q i j b c. phase s p = Owning i b \<longrightarrow> phase s q = Owning j c \<longrightarrow> p = q)
    \<and> (\<forall>p i b. phase s p = Owning i b \<longrightarrow> holder s = Some p \<and> (marker s = Some i \<longrightarrow> i \<in> asked s))
    \<and> (\<forall>p q i. phase s p = Writing i \<longrightarrow> i \<notin> asked s \<and> marker s \<noteq> Some i \<and> phase s q \<noteq> Aiming i)"
proof -
  have lock: "lock_inv s" and ids: "id_inv s" using reachable_inv [OF assms] by auto
  have "p = q" if "phase s p = Owning i b" "phase s q = Owning j c" for p q i j b c
    using lock_inv_unique [OF lock, of p q] that by simp
  moreover have "holder s = Some p" if "phase s p = Owning i b" for p i b
    using lock that by (metis holds_lock.simps(3) lock_inv_def)
  ultimately show ?thesis using ids unfolding id_inv_def by blast
qed

text \<open>Two ids and three processes.\<close>

definition owner_a :: lease_system where
  "owner_a = \<lparr>holder = Some 0, recorded = Some ''a'', marker = None,
     phase = (\<lambda>p. Idle)(0 := Owning ''a'' False), issued = {''a''}, asked = {}\<rparr>"

lemma owner_a_reachable: "lease_reachable owner_a"
proof -
  let ?s1 = "lease_start\<lparr>holder := Some 0, phase := (phase lease_start)(0 := Locking ''a''),
      issued := insert ''a'' (issued lease_start)\<rparr>"
  let ?s2 = "?s1\<lparr>marker := None, phase := (phase ?s1)(0 := Writing ''a'')\<rparr>"
  let ?s3 = "?s2\<lparr>recorded := Some ''a'', phase := (phase ?s2)(0 := Owning ''a'' False)\<rparr>"
  have "lease_step lease_start ?s1" by (rule lease_step.take) (simp_all add: lease_start_def)
  moreover have "lease_step ?s1 ?s2" by (rule lease_step.clear) simp
  moreover have "lease_step ?s2 ?s3" by (rule lease_step.persist) simp
  ultimately have "lease_step\<^sup>*\<^sup>* lease_start ?s3" by (meson converse_rtranclp_into_rtranclp rtranclp.rtrancl_refl)
  moreover have "?s3 = owner_a" by (simp add: lease_start_def owner_a_def)
  ultimately show ?thesis by (simp add: lease_reachable_def)
qed

theorem lease_exclusive_witness:
  "lease_reachable owner_a \<and> phase owner_a 0 = Owning ''a'' False \<and> holder owner_a = Some 0"
  using lease_exclusive [OF owner_a_reachable] owner_a_reachable by (simp add: owner_a_def)

section \<open>Two races\<close>

definition trio :: "lease_phase \<Rightarrow> lease_phase \<Rightarrow> lease_phase \<Rightarrow> nat \<Rightarrow> lease_phase" where
  "trio a b c p = (if p = 0 then a else if p = 1 then b else if p = 2 then c else Idle)"

definition sys3 ::
  "nat option \<Rightarrow> string option \<Rightarrow> string option \<Rightarrow> lease_phase \<Rightarrow> lease_phase \<Rightarrow> lease_phase \<Rightarrow> string set \<Rightarrow> string set \<Rightarrow> lease_system"
where
  "sys3 h r m a b c iss ask = \<lparr>holder = h, recorded = r, marker = m, phase = trio a b c, issued = iss, asked = ask\<rparr>"

lemma trio_simps [simp]:
  "trio a b c 0 = a" "trio a b c 1 = b" "trio a b c (Suc 0) = b" "trio a b c 2 = c"
  "(trio a b c)(0 := x) = trio x b c" "(trio a b c)(1 := x) = trio a x c" "(trio a b c)(Suc 0 := x) = trio a x c"
  "(trio a b c)(2 := x) = trio a b x"
  by (auto simp: trio_def fun_eq_iff)

lemma sys3_simps [simp]:
  "holder (sys3 h r m a b c iss ask) = h" "recorded (sys3 h r m a b c iss ask) = r"
  "marker (sys3 h r m a b c iss ask) = m" "phase (sys3 h r m a b c iss ask) = trio a b c"
  "issued (sys3 h r m a b c iss ask) = iss" "asked (sys3 h r m a b c iss ask) = ask"
  "(sys3 h r m a b c iss ask)\<lparr>holder := h'\<rparr> = sys3 h' r m a b c iss ask"
  "(sys3 h r m a b c iss ask)\<lparr>recorded := r'\<rparr> = sys3 h r' m a b c iss ask"
  "(sys3 h r m a b c iss ask)\<lparr>marker := m'\<rparr> = sys3 h r m' a b c iss ask"
  "(sys3 h r m a b c iss ask)\<lparr>phase := trio a' b' c'\<rparr> = sys3 h r m a' b' c' iss ask"
  "(sys3 h r m a b c iss ask)\<lparr>issued := iss'\<rparr> = sys3 h r m a b c iss' ask"
  "(sys3 h r m a b c iss ask)\<lparr>asked := ask'\<rparr> = sys3 h r m a b c iss ask'"
  by (simp_all add: sys3_def)

lemma start_sys3: "lease_start = sys3 None None None Idle Idle Idle {} {}"
  by (auto simp: lease_start_def sys3_def trio_def fun_eq_iff)

lemma reach_step: "lease_reachable s \<Longrightarrow> lease_step s s' \<Longrightarrow> lease_reachable s'"
  by (auto simp: lease_reachable_def)

lemma reach_acquire:
  assumes "lease_reachable (sys3 None r m Idle b c iss ask)" and "i \<notin> iss"
  shows "lease_reachable (sys3 (Some 0) (Some i) None (Owning i False) b c (insert i iss) ask)"
proof -
  let ?s = "sys3 None r m Idle b c iss ask"
  have "lease_reachable (sys3 (Some 0) r m (Locking i) b c (insert i iss) ask)"
    using reach_step [OF assms(1) lease_step.take [of ?s 0 i]] assms(2) by simp
  then have "lease_reachable (sys3 (Some 0) r None (Writing i) b c (insert i iss) ask)"
    using reach_step [OF _ lease_step.clear [of "sys3 (Some 0) r m (Locking i) b c (insert i iss) ask" 0 i]] by simp
  then show ?thesis
    using reach_step [OF _ lease_step.persist [of "sys3 (Some 0) r None (Writing i) b c (insert i iss) ask" 0 i]] by simp
qed

lemma reach_acquire_2:
  assumes "lease_reachable (sys3 None r m a b Idle iss ask)" and "i \<notin> iss"
  shows "lease_reachable (sys3 (Some 2) (Some i) None a b (Owning i False) (insert i iss) ask)"
proof -
  let ?s = "sys3 None r m a b Idle iss ask"
  have "lease_reachable (sys3 (Some 2) r m a b (Locking i) (insert i iss) ask)"
    using reach_step [OF assms(1) lease_step.take [of ?s 2 i]] assms(2) by simp
  then have "lease_reachable (sys3 (Some 2) r None a b (Writing i) (insert i iss) ask)"
    using reach_step [OF _ lease_step.clear [of "sys3 (Some 2) r m a b (Locking i) (insert i iss) ask" 2 i]] by simp
  then show ?thesis
    using reach_step [OF _ lease_step.persist [of "sys3 (Some 2) r None a b (Writing i) (insert i iss) ask" 2 i]] by simp
qed

text \<open>Process 1 asks to cancel the recorded lease.\<close>

lemma reach_cancel:
  assumes "lease_reachable (sys3 (Some h) (Some i) m a Idle c iss ask)"
  shows "lease_reachable (sys3 (Some h) (Some i) (Some i) a Idle c iss (insert i ask))"
proof -
  have "lease_reachable (sys3 (Some h) (Some i) m a (Probed True) c iss ask)"
    using reach_step [OF assms lease_step.probe_busy [of "sys3 (Some h) (Some i) m a Idle c iss ask" 1]] by simp
  then have "lease_reachable (sys3 (Some h) (Some i) m a (Aiming i) c iss (insert i ask))"
    using reach_step [OF _ lease_step.aim [of "sys3 (Some h) (Some i) m a (Probed True) c iss ask" 1 i]] by simp
  then show ?thesis
    using reach_step [OF _ lease_step.fire [of "sys3 (Some h) (Some i) m a (Aiming i) c iss (insert i ask)" 1 i]] by simp
qed


section \<open>One process at a time\<close>

text \<open>
  Without interference the methods do what they promise.  A lease that has just been acquired
  is not cancelled, whatever marker was left; the lock refuses a second owner; a cancellation for
  any lease or for this one is seen at the next checkpoint unless the lease is shielded, and one
  that expects another lease changes nothing; releasing frees the lock, removes the request and
  keeps the record for diagnosis.
\<close>

theorem lease_methods:
  fixes tx :: py_texts
  assumes "acquire root op h ino i pid at d = (Inr l, d1)" and "no_space i"
  defines "d2 \<equiv> snd (request_active_cancel tx None d1)"
  shows "raise_if_cancelled l d1 = Inr ()
    \<and> fst (acquire root op' h' ino' i' pid' at' d1) = Inl Lease_busy
    \<and> raise_if_cancelled l d2 = Inl (Lease_cancelled i op)
    \<and> snd (request_active_cancel tx (Some i) d1) = d2
    \<and> (j \<noteq> i \<longrightarrow> snd (request_active_cancel tx (Some j) d1) = d1)
    \<and> raise_if_cancelled (fst (snd (shield_enter l d2))) d2 = Inr ()
    \<and> lock_holder (snd (release_lease l d2)) = None \<and> cancel_marker (snd (release_lease l d2)) = None
    \<and> inspect tx (snd (release_lease l d2)) = \<lparr>inspected_active = False, inspected_snapshot = Some (own_snapshot l)\<rparr>"
proof -
  define s where "s = \<lparr>lease_id = i, lease_operation = op, lease_pid = pid, started_at = at, cancel_requested = False\<rparr>"
  obtain n where d1: "d1 = \<lparr>lock_inode = Some n, lock_holder = Some h, lock_text = Lock_json (snapshot_document s),
        cancel_marker = None\<rparr>"
      and l: "l = \<lparr>lease_root = root, lease_handle = h, lease_inode = n, own_snapshot = s, released = False, shielded = False\<rparr>"
    using assms(1)
    by (cases d) (auto simp: acquire_def Let_def clear_cancel_request_def s_def split: if_splits option.splits)
  have found: "inspect tx d1 = \<lparr>inspected_active = True, inspected_snapshot = Some s\<rparr>"
    by (simp add: inspect_def d1 read_written cancel_requested_for_def s_def)
  have d2: "d2 = d1\<lparr>cancel_marker := Some (i @ [char_of (10 :: nat)])\<rparr>"
    by (simp add: d2_def request_active_cancel_def found Let_def s_def)
  have mark: "strip (i @ [char_of (10 :: nat)]) = i" by (rule strip_marker [OF assms(2)])
  have "raise_if_cancelled l d1 = Inr ()"
    by (simp add: raise_if_cancelled_def require_owned_def l d1 cancel_requested_for_def)
  moreover have "fst (acquire root op' h' ino' i' pid' at' d1) = Inl Lease_busy" by (simp add: acquire_def Let_def d1)
  moreover have "raise_if_cancelled l d2 = Inl (Lease_cancelled i op)"
    using mark by (simp add: raise_if_cancelled_def require_owned_def l d2 cancel_requested_for_def s_def)
  moreover have "snd (request_active_cancel tx (Some i) d1) = d2"
    by (simp add: d2_def request_active_cancel_def found Let_def s_def)
  moreover have "j \<noteq> i \<longrightarrow> snd (request_active_cancel tx (Some j) d1) = d1"
    by (simp add: request_active_cancel_def found Let_def s_def)
  moreover have "raise_if_cancelled (fst (snd (shield_enter l d2))) d2 = Inr ()"
    by (simp add: raise_if_cancelled_def shield_enter_def require_owned_def l)
  moreover have rel: "snd (release_lease l d2) = d1\<lparr>lock_holder := None\<rparr>"
    using mark by (simp add: release_lease_def Let_def l d2 d1 clear_cancel_request_def s_def)
  moreover have "inspect tx (d1\<lparr>lock_holder := None\<rparr>) = \<lparr>inspected_active = False, inspected_snapshot = Some (own_snapshot l)\<rparr>"
    by (simp add: inspect_def d1 read_written cancel_requested_for_def l s_def)
  ultimately show ?thesis by (simp add: d1)
qed

definition empty_disk :: lease_disk where
  "empty_disk = \<lparr>lock_inode = None, lock_holder = None, lock_text = Lock_empty, cancel_marker = Some ''old''\<rparr>"

definition plain_texts :: py_texts where
  "plain_texts = \<lparr>float_text = (\<lambda>f. ''1.0''), other_text = ''?''\<rparr>"

theorem lease_methods_witness:
  "\<exists>l d1. acquire ''/srv'' ''deploy'' 3 7 ''ab12'' 100 ''now'' empty_disk = (Inr l, d1) \<and> no_space ''ab12''
     \<and> raise_if_cancelled l (snd (request_active_cancel plain_texts None d1)) = Inl (Lease_cancelled ''ab12'' ''deploy'')"
proof -
  obtain l d1 where run: "acquire ''/srv'' ''deploy'' 3 7 ''ab12'' 100 ''now'' empty_disk = (Inr l, d1)"
    by (simp add: acquire_def Let_def empty_disk_def)
  have "no_space ''ab12''" by code_simp
  from lease_methods [OF run this] run this show ?thesis by blast
qed

end
