(* ===== verification/Release_State.thy ===== *)
theory Release_State
  imports Json_Text Route_Schema
begin

text \<open>
  \<open>core/ops/release_state.py\<close>: the digest-pinned releases and the three files that hold them.
  \<open>env\<close> has the parts of the standard library the code relies on: the hexadecimal SHA-256 of a text
  and what \<open>datetime.fromisoformat\<close> makes of one (an error, or whether it has a time zone).  A file
  is absent, cannot be opened safely, is not JSON, or is a JSON text.  Dictionaries are item lists
  in the order of the file; writing them with \<open>sort_keys\<close> sorts them.
\<close>

section \<open>Data\<close>

record release_env =
  sha256_hex :: "string \<Rightarrow> string"
  iso_zone :: "string \<Rightarrow> bool option"
  number_text :: "int \<Rightarrow> int \<Rightarrow> string"

datatype release_error =
    Bad_images | Bad_versions | Bad_timestamp | Timestamp_type | Unsafe_file | Too_large | Not_json
  | Bad_schema | Bad_revision | Not_canonical | Bad_embedded

record release_state =
  revision :: string
  created_at :: string
  images :: "(string \<times> string) list"
  versions :: "(string \<times> string) list"
  schema_version :: int

record rollback_release =
  expected_active_revision :: string
  rollback_previous :: "release_state option"
  rollback_revision :: string

record recovery_release =
  recovery_previous :: "release_state option"
  recovery_failed :: release_state
  recovery_revision :: string

definition MAX_RELEASE_BYTES :: nat where
  "MAX_RELEASE_BYTES = 256 * 1024"

section \<open>Revisions\<close>

definition text_dict :: "(string \<times> string) list \<Rightarrow> pyval" where
  "text_dict kvs = PDict (map (\<lambda>(k, v). (KStr k, PStr v)) kvs)"

definition release_payload :: "string \<Rightarrow> (string \<times> string) list \<Rightarrow> (string \<times> string) list \<Rightarrow> pyval" where
  "release_payload at imgs vers =
     PDict [(KStr ''schema_version'', PInt 1), (KStr ''created_at'', PStr at),
            (KStr ''images'', text_dict (sort_key fst imgs)), (KStr ''versions'', text_dict (sort_key fst vers))]"

text \<open>\<open>None\<close> only for a value without a canonical text, which the callers reject as a mismatch.\<close>

definition revision_of :: "release_env \<Rightarrow> pyval \<Rightarrow> string option" where
  "revision_of env payload = map_option (sha256_hex env) (dumps (number_text env) payload)"

section \<open>Validation\<close>

definition digest_image :: "string \<Rightarrow> bool" where
  "digest_image s =
     (case partition_at (CHR ''@'') s of
        (repo, found, digest) \<Rightarrow>
          found \<and> 1 \<le> length repo \<and> length repo \<le> 440 \<and> list_all (\<lambda>c. \<not> is_space c) repo
          \<and> prefix ''sha256:'' digest \<and> hex64 (remove_prefix ''sha256:'' digest))"

fun image_items :: "document \<Rightarrow> release_error + (string \<times> string) list" where
  "image_items [] = Inr []"
| "image_items ((KStr k, PStr v) # kvs) =
     (if slug k \<and> digest_image v then then_do (image_items kvs) (\<lambda>rest. Inr ((k, v) # rest)) else Inl Bad_images)"
| "image_items (_ # kvs) = Inl Bad_images"

definition validate_images :: "pyval \<Rightarrow> release_error + (string \<times> string) list" where
  "validate_images v =
     (case v of
        PDict kvs \<Rightarrow>
          if kvs = [] \<or> length kvs > 512 then Inl Bad_images
          else then_do (image_items kvs) (\<lambda>items. Inr (sort_key fst items))
      | _ \<Rightarrow> Inl Bad_images)"

text \<open>\<open>str.rfind\<close> of one character: the last position, or -1.\<close>

definition rfind :: "char \<Rightarrow> string \<Rightarrow> int" where
  "rfind c s = (if c \<in> set s then int (length s) - 1 - int (length (takeWhile (\<lambda>x. x \<noteq> c) (rev s))) else -1)"

definition tag_char :: "char \<Rightarrow> bool" where
  "tag_char c \<longleftrightarrow> host_char c \<or> c = CHR ''_''"

definition valid_tag :: "string \<Rightarrow> bool" where
  "valid_tag t \<longleftrightarrow> t \<noteq> [] \<and> length t \<le> 128 \<and> tag_char (hd t)
     \<and> list_all (\<lambda>c. tag_char c \<or> c = CHR ''.'' \<or> c = CHR ''-'') t"

definition version_image :: "string \<Rightarrow> bool" where
  "version_image s \<longleftrightarrow>
     length s \<le> 512 \<and> CHR ''@'' \<notin> set s \<and> \<not> sublist ''${'' s \<and> list_all (\<lambda>c. \<not> is_space c) s
     \<and> rfind (CHR ''/'') s < rfind (CHR '':'') s
     \<and> valid_tag (drop (nat (rfind (CHR '':'') s + 1)) s)"

fun version_items :: "document \<Rightarrow> release_error + (string \<times> string) list" where
  "version_items [] = Inr []"
| "version_items ((KStr k, PStr v) # kvs) =
     (if version_image v then then_do (version_items kvs) (\<lambda>rest. Inr ((k, v) # rest)) else Inl Bad_versions)"
| "version_items (_ # kvs) = Inl Bad_versions"

definition validate_versions :: "pyval \<Rightarrow> string list \<Rightarrow> release_error + (string \<times> string) list" where
  "validate_versions v services =
     (case v of
        PDict kvs \<Rightarrow>
          if set (map fst kvs) \<noteq> set (map KStr services) then Inl Bad_versions
          else then_do (version_items kvs) (\<lambda>items. Inr (sort_key fst items))
      | _ \<Rightarrow> Inl Bad_versions)"

definition build_release :: "release_env \<Rightarrow> pyval \<Rightarrow> pyval \<Rightarrow> pyval \<Rightarrow> release_error + release_state" where
  "build_release env imgs vers at =
     then_do (validate_images imgs) (\<lambda>vi.
     then_do (validate_versions vers (map fst vi)) (\<lambda>vv.
       case at of
         PStr t \<Rightarrow>
           (case iso_zone env t of
              Some True \<Rightarrow>
                (case revision_of env (release_payload t vi vv) of
                   None \<Rightarrow> Inl Bad_revision
                 | Some r \<Rightarrow> Inr \<lparr>revision = r, created_at = t, images = vi, versions = vv, schema_version = 1\<rparr>)
            | _ \<Rightarrow> Inl Bad_timestamp)
       | _ \<Rightarrow> Inl Timestamp_type))"

section \<open>Files\<close>

datatype release_file = No_release | Unsafe_release | Garbage_release | Release_text json_file

record release_dir =
  active_file :: release_file
  rollback_file :: release_file
  recovery_file :: release_file

definition read_release :: "release_file \<Rightarrow> release_error + document option" where
  "read_release f =
     (case f of
        No_release \<Rightarrow> Inr None
      | Unsafe_release \<Rightarrow> Inl Unsafe_file
      | Garbage_release \<Rightarrow> Inl Not_json
      | Release_text jf \<Rightarrow>
          if text_size jf > MAX_RELEASE_BYTES then Inl Too_large
          else (case decoded jf of PDict d \<Rightarrow> Inr (Some d) | _ \<Rightarrow> Inl Bad_schema))"

definition release_keys :: "string list" where
  "release_keys = [''schema_version'', ''revision'', ''created_at'', ''images'', ''versions'']"

text \<open>A stored release: rebuilt from its images and versions and compared with its revision.\<close>

definition rebuild :: "release_env \<Rightarrow> document \<Rightarrow> release_error + release_state" where
  "rebuild env d =
     then_do (build_release env (field ''images'' d) (field ''versions'' d) (field ''created_at'' d)) (\<lambda>r.
       if field ''revision'' d = PStr (revision r) then Inr r else Inl Bad_revision)"

definition load_active_release :: "release_env \<Rightarrow> release_dir \<Rightarrow> release_error + release_state option" where
  "load_active_release env dir =
     then_do (read_release (active_file dir)) (\<lambda>raw.
       case raw of
         None \<Rightarrow> Inr None
       | Some d \<Rightarrow>
           if \<not> has_keys release_keys d then Inl Bad_schema
           else if \<not> scalar_eq (field ''schema_version'' d) (PInt 1)
                \<or> (case field ''revision'' d of PStr s \<Rightarrow> False | _ \<Rightarrow> True) then Inl Bad_schema
           else then_do (rebuild env d) (\<lambda>r. Inr (Some r)))"

definition embedded_release :: "release_env \<Rightarrow> pyval \<Rightarrow> bool \<Rightarrow> release_error + release_state option" where
  "embedded_release env raw allow_none =
     (if raw = PNone \<and> allow_none then Inr None
      else (case raw of
              PDict d \<Rightarrow>
                if \<not> has_keys release_keys d then Inl Bad_embedded
                else then_do (rebuild env d) (\<lambda>r.
                  if scalar_eq (field ''schema_version'' d) (PInt 1) then Inr (Some r) else Inl Bad_embedded)
            | _ \<Rightarrow> Inl Bad_embedded))"

text \<open>\<open>raw.pop("revision")\<close> and the comparison with the rest.\<close>

definition sealed :: "release_env \<Rightarrow> document \<Rightarrow> bool" where
  "sealed env d \<longleftrightarrow>
     scalar_eq (field ''schema_version'' d) (PInt 1)
     \<and> (case revision_of env (PDict (filter (\<lambda>(k, v). k \<noteq> KStr ''revision'') d)) of
          None \<Rightarrow> False | Some r \<Rightarrow> field ''revision'' d = PStr r)"

definition load_rollback_release :: "release_env \<Rightarrow> release_dir \<Rightarrow> release_error + rollback_release option" where
  "load_rollback_release env dir =
     then_do (read_release (rollback_file dir)) (\<lambda>raw.
       case raw of
         None \<Rightarrow> Inr None
       | Some d \<Rightarrow>
           if \<not> has_keys [''schema_version'', ''revision'', ''expected_active_revision'', ''previous''] d then Inl Bad_schema
           else if \<not> sealed env d then Inl Bad_revision
           else (case (field ''expected_active_revision'' d, field ''revision'' d) of
                   (PStr e, PStr seal) \<Rightarrow>
                     if \<not> hex64 e then Inl Bad_revision
                     else then_do (embedded_release env (field ''previous'' d) True) (\<lambda>p.
                       Inr (Some \<lparr>expected_active_revision = e, rollback_previous = p, rollback_revision = seal\<rparr>))
                 | _ \<Rightarrow> Inl Bad_revision))"

definition load_recovery_release :: "release_env \<Rightarrow> release_dir \<Rightarrow> release_error + recovery_release option" where
  "load_recovery_release env dir =
     then_do (read_release (recovery_file dir)) (\<lambda>raw.
       case raw of
         None \<Rightarrow> Inr None
       | Some d \<Rightarrow>
           if \<not> has_keys [''schema_version'', ''revision'', ''previous'', ''failed''] d then Inl Bad_schema
           else if \<not> sealed env d then Inl Bad_revision
           else then_do (embedded_release env (field ''previous'' d) True) (\<lambda>p.
                then_do (embedded_release env (field ''failed'' d) False) (\<lambda>f.
                  case (f, field ''revision'' d) of
                    (Some failed, PStr seal) \<Rightarrow>
                      Inr (Some \<lparr>recovery_previous = p, recovery_failed = failed, recovery_revision = seal\<rparr>)
                  | _ \<Rightarrow> Inl Bad_embedded)))"

section \<open>Writing\<close>

text \<open>Equality of dataclasses compares dictionaries without their order.\<close>

definition same_release :: "release_state \<Rightarrow> release_state \<Rightarrow> bool" where
  "same_release a b \<longleftrightarrow>
     revision a = revision b \<and> created_at a = created_at b \<and> schema_version a = schema_version b
     \<and> sort_key fst (images a) = sort_key fst (images b) \<and> sort_key fst (versions a) = sort_key fst (versions b)"

text \<open>The items in the order \<open>sort_keys\<close> writes them.\<close>

definition release_dict :: "release_env \<Rightarrow> release_state \<Rightarrow> release_error + pyval" where
  "release_dict env r =
     then_do (build_release env (text_dict (images r)) (text_dict (versions r)) (PStr (created_at r))) (\<lambda>rebuilt.
       if \<not> same_release rebuilt r then Inl Not_canonical
       else Inr (PDict
         [(KStr ''created_at'', PStr (created_at r)), (KStr ''images'', text_dict (sort_key fst (images r))),
          (KStr ''revision'', PStr (revision r)), (KStr ''schema_version'', PInt (schema_version r)),
          (KStr ''versions'', text_dict (sort_key fst (versions r)))]))"

definition release_text :: "release_env \<Rightarrow> pyval \<Rightarrow> release_file" where
  "release_text env v =
     (case write_json (number_text env) v of None \<Rightarrow> Garbage_release | Some f \<Rightarrow> Release_text f)"

definition write_active_release ::
  "release_env \<Rightarrow> release_state option \<Rightarrow> release_dir \<Rightarrow> (release_error + unit) \<times> release_dir"
where
  "write_active_release env rel dir =
     (case rel of
        None \<Rightarrow> (Inr (), dir\<lparr>active_file := No_release\<rparr>)
      | Some r \<Rightarrow>
          (case release_dict env r of
             Inl e \<Rightarrow> (Inl e, dir)
           | Inr v \<Rightarrow> (Inr (), dir\<lparr>active_file := release_text env v\<rparr>)))"

definition optional_dict :: "release_env \<Rightarrow> release_state option \<Rightarrow> release_error + pyval" where
  "optional_dict env rel = (case rel of None \<Rightarrow> Inr PNone | Some r \<Rightarrow> release_dict env r)"

definition write_rollback_release ::
  "release_env \<Rightarrow> string \<Rightarrow> release_state option \<Rightarrow> release_dir \<Rightarrow> (release_error + unit) \<times> release_dir"
where
  "write_rollback_release env expected previous dir =
     (if \<not> hex64 expected then (Inl Bad_revision, dir)
      else (case optional_dict env previous of
              Inl e \<Rightarrow> (Inl e, dir)
            | Inr p \<Rightarrow>
                (case revision_of env (PDict [(KStr ''expected_active_revision'', PStr expected), (KStr ''previous'', p),
                        (KStr ''schema_version'', PInt 1)]) of
                   None \<Rightarrow> (Inl Bad_revision, dir)
                 | Some seal \<Rightarrow>
                     (Inr (), dir\<lparr>rollback_file := release_text env
                        (PDict [(KStr ''expected_active_revision'', PStr expected), (KStr ''previous'', p),
                                (KStr ''revision'', PStr seal), (KStr ''schema_version'', PInt 1)])\<rparr>))))"

definition write_recovery_release ::
  "release_env \<Rightarrow> release_state option \<Rightarrow> release_state \<Rightarrow> release_dir \<Rightarrow> (release_error + unit) \<times> release_dir"
where
  "write_recovery_release env previous failed dir =
     (case optional_dict env previous of
        Inl e \<Rightarrow> (Inl e, dir)
      | Inr p \<Rightarrow>
          (case release_dict env failed of
             Inl e \<Rightarrow> (Inl e, dir)
           | Inr f \<Rightarrow>
               (case revision_of env (PDict [(KStr ''failed'', f), (KStr ''previous'', p), (KStr ''schema_version'', PInt 1)]) of
                  None \<Rightarrow> (Inl Bad_revision, dir)
                | Some seal \<Rightarrow>
                    (Inr (), dir\<lparr>recovery_file := release_text env
                       (PDict [(KStr ''failed'', f), (KStr ''previous'', p), (KStr ''revision'', PStr seal),
                               (KStr ''schema_version'', PInt 1)])\<rparr>))))"

definition clear_rollback_release :: "release_dir \<Rightarrow> release_dir" where
  "clear_rollback_release dir = dir\<lparr>rollback_file := No_release\<rparr>"

definition clear_recovery_release :: "release_dir \<Rightarrow> release_dir" where
  "clear_recovery_release dir = dir\<lparr>recovery_file := No_release\<rparr>"

end
