(* ===== verification/Json_Injective.thy ===== *)
theory Json_Injective
  imports Py_Values
begin

text \<open>
  The canonical JSON text determines what it was made from, for texts and for dictionaries of
  texts.  This is what makes the hash of a canonical text speak for its content.
\<close>

section \<open>Characters and texts\<close>

definition hex_value :: "char \<Rightarrow> nat" where
  "hex_value c = (if code c < 58 then code c - 48 else code c - 87)"

fun unescape :: "string \<Rightarrow> (char \<times> string) option" where
  "unescape [] = None"
| "unescape [c] = (if c = CHR 0x5C then None else Some (c, []))"
| "unescape (c # d # cs) =
     (if c \<noteq> CHR 0x5C then Some (c, d # cs)
      else if d = CHR 0x22 \<or> d = CHR 0x5C then Some (d, cs)
      else if d = CHR ''n'' then Some (char_of (10 :: nat), cs)
      else if d = CHR ''r'' then Some (char_of (13 :: nat), cs)
      else if d = CHR ''t'' then Some (char_of (9 :: nat), cs)
      else if d = CHR ''f'' then Some (char_of (12 :: nat), cs)
      else if d = CHR ''b'' then Some (char_of (8 :: nat), cs)
      else (case cs of
              z1 # z2 # a # b # rest \<Rightarrow> Some (char_of (hex_value a * 16 + hex_value b), rest)
            | _ \<Rightarrow> None))"

lemma hex_value_digit: "d < 16 \<Longrightarrow> hex_value (hex_digit d) = d"
  by (auto simp: hex_value_def hex_digit_def code_def)

lemma code_less: "code c < 256"
  by (simp add: code_def)

lemma char_of_code: "char_of (code c) = c"
  by (simp add: code_def)

lemma unescape_plain: "c \<noteq> CHR 0x5C \<Longrightarrow> unescape (c # u) = Some (c, u)"
  by (cases u) auto

lemma char_eqI: "code c = n \<Longrightarrow> char_of n = c"
  by (auto simp: char_of_code)

lemma unescape_escape: "unescape (json_escape c @ u) = Some (c, u)"
proof -
  have hex: "hex_value (hex_digit (code c div 16)) * 16 + hex_value (hex_digit (code c mod 16)) = code c"
    using code_less [of c] by (simp add: hex_value_digit)
  show ?thesis
    by (auto simp: json_escape_def unescape_plain hex char_of_code char_eqI)
qed

lemma escape_append_inject: "json_escape c @ u = json_escape d @ v \<Longrightarrow> c = d \<and> u = v"
  by (metis Pair_inject option.inject unescape_escape)

lemma escape_head: "\<exists>x xs. json_escape c = x # xs \<and> x \<noteq> CHR 0x22"
  by (auto simp: json_escape_def)

lemma escaped_inject:
  "concat (map json_escape s) @ CHR 0x22 # x = concat (map json_escape t) @ CHR 0x22 # y \<Longrightarrow> s = t \<and> x = y"
proof (induction s arbitrary: t)
  case Nil
  then show ?case
  proof (cases t)
    case (Cons d ds)
    then show ?thesis using Nil escape_head [of d] by auto
  qed simp
next
  case (Cons c s)
  show ?case
  proof (cases t)
    case Nil
    then show ?thesis using Cons.prems escape_head [of c] by auto
  next
    case (Cons d ds)
    then have "json_escape c @ (concat (map json_escape s) @ CHR 0x22 # x)
        = json_escape d @ (concat (map json_escape ds) @ CHR 0x22 # y)" using Cons.prems by simp
    then have "c = d" "concat (map json_escape s) @ CHR 0x22 # x = concat (map json_escape ds) @ CHR 0x22 # y"
      using escape_append_inject by blast+
    with Cons.IH Cons show ?thesis by blast
  qed
qed

lemma json_string_append_inject:
  assumes "json_string s @ x = json_string t @ y"
  shows "s = t \<and> x = y"
  using assms escaped_inject [of s x t y] by (simp add: json_string_def)

section \<open>Dictionaries of texts\<close>

definition pair_text :: "string \<times> string \<Rightarrow> string" where
  "pair_text p = json_string (fst p) @ '':'' @ json_string (snd p)"

definition object_text :: "(string \<times> string) list \<Rightarrow> string" where
  "object_text kvs = ''{'' @ join '','' (map pair_text kvs) @ ''}''"

lemma pair_text_append_inject: "pair_text p @ x = pair_text q @ y \<Longrightarrow> p = q \<and> x = y"
proof -
  assume "pair_text p @ x = pair_text q @ y"
  then have "json_string (fst p) @ ('':'' @ json_string (snd p) @ x) = json_string (fst q) @ ('':'' @ json_string (snd q) @ y)"
    by (simp add: pair_text_def)
  from json_string_append_inject [OF this]
  have "fst p = fst q" and rest: "json_string (snd p) @ x = json_string (snd q) @ y" by simp_all
  with json_string_append_inject [OF rest] show ?thesis by (simp add: prod_eq_iff)
qed

lemma pair_text_head: "\<exists>xs. pair_text p = CHR 0x22 # xs"
  by (simp add: pair_text_def json_string_def)

lemma join_pairs: "join '','' (map pair_text (p # ps)) = pair_text p @ concat (map (\<lambda>q. CHR '','' # pair_text q) ps)"
  by (induction ps arbitrary: p) auto

lemma tail_inject:
  "concat (map (\<lambda>q. CHR '','' # pair_text q) ps) @ CHR ''}'' # x
     = concat (map (\<lambda>q. CHR '','' # pair_text q) qs) @ CHR ''}'' # y \<Longrightarrow> ps = qs \<and> x = y"
proof (induction ps arbitrary: qs)
  case Nil
  then show ?case by (cases qs) auto
next
  case (Cons p ps)
  show ?case
  proof (cases qs)
    case Nil
    then show ?thesis using Cons.prems by simp
  next
    case (Cons q qs')
    then have "pair_text p @ (concat (map (\<lambda>q. CHR '','' # pair_text q) ps) @ CHR ''}'' # x)
        = pair_text q @ (concat (map (\<lambda>q. CHR '','' # pair_text q) qs') @ CHR ''}'' # y)" using Cons.prems by simp
    from pair_text_append_inject [OF this] Cons.IH Cons show ?thesis by blast
  qed
qed

lemma object_text_append_inject:
  assumes "object_text ps @ x = object_text qs @ y"
  shows "ps = qs \<and> x = y"
proof (cases ps)
  case Nil
  then show ?thesis
  proof (cases qs)
    case (Cons q qs')
    obtain xs where "pair_text q = CHR 0x22 # xs" using pair_text_head by blast
    then show ?thesis using assms unfolding Nil Cons object_text_def join_pairs by simp
  qed (use assms Nil in \<open>simp add: object_text_def\<close>)
next
  case (Cons p ps')
  show ?thesis
  proof (cases qs)
    case Nil
    obtain xs where "pair_text p = CHR 0x22 # xs" using pair_text_head by blast
    then show ?thesis using assms unfolding Nil Cons object_text_def join_pairs by simp
  next
    case q: (Cons q qs')
    have "pair_text p @ (concat (map (\<lambda>q. CHR '','' # pair_text q) ps') @ CHR ''}'' # x)
        = pair_text q @ (concat (map (\<lambda>q. CHR '','' # pair_text q) qs') @ CHR ''}'' # y)"
      using assms unfolding object_text_def Cons q join_pairs by simp
    from pair_text_append_inject [OF this] tail_inject [of ps' x qs' y] Cons q show ?thesis by blast
  qed
qed

lemma dump_items_texts:
  "dump_items fr (map (\<lambda>(k, v). (KStr k, PStr v)) kvs) = Some (map (\<lambda>(k, v). (k, json_string v)) kvs)"
  by (induction kvs) auto

lemma dumps_text_dict:
  assumes "sorted (map fst kvs)"
  shows "dumps fr (PDict (map (\<lambda>(k, v). (KStr k, PStr v)) kvs)) = Some (object_text kvs)"
proof -
  let ?items = "map (\<lambda>(k, v). (k, json_string v)) kvs"
  have "map fst ?items = map fst kvs" by (simp add: comp_def case_prod_beta)
  then have "sorted (map fst ?items)" using assms by (simp only:)
  then have "sort_key fst ?items = ?items" by (rule sort_key_id_if_sorted)
  then show ?thesis
    by (simp add: dump_items_texts object_text_def pair_text_def [abs_def] comp_def case_prod_beta)
qed

end
