(* ===== verification/Release_Properties.thy ===== *)
theory Release_Properties
  imports Release_State Json_Injective
begin

text \<open>Round trips of the three release files, and what the revision of a release says of its content.\<close>

section \<open>Canonical releases\<close>

definition canonical :: "release_env \<Rightarrow> release_state \<Rightarrow> bool" where
  "canonical env r \<longleftrightarrow>
     build_release env (text_dict (images r)) (text_dict (versions r)) (PStr (created_at r)) = Inr r"

lemma image_items_texts:
  "list_all (\<lambda>(k, v). slug k \<and> digest_image v) items \<Longrightarrow>
     image_items (map (\<lambda>(k, v). (KStr k, PStr v)) items) = Inr items"
  by (induction items) auto

lemma image_items_valid: "image_items kvs = Inr items \<Longrightarrow> list_all (\<lambda>(k, v). slug k \<and> digest_image v) items \<and> length items = length kvs"
  by (induction kvs arbitrary: items rule: image_items.induct) (auto simp: then_do_Inr_iff split: if_splits)

lemma version_items_texts:
  "list_all (\<lambda>(k, v). version_image v) items \<Longrightarrow> version_items (map (\<lambda>(k, v). (KStr k, PStr v)) items) = Inr items"
  by (induction items) auto

lemma version_items_valid:
  "version_items kvs = Inr items \<Longrightarrow> list_all (\<lambda>(k, v). version_image v) items \<and> map fst kvs = map (KStr \<circ> fst) items"
  by (induction kvs arbitrary: items rule: version_items.induct) (auto simp: then_do_Inr_iff split: if_splits)

lemma sort_key_idem: "sort_key f (sort_key f xs) = sort_key f xs"
  by (rule sort_key_id_if_sorted) simp

lemma validate_images_again:
  assumes "validate_images v = Inr vi"
  shows "validate_images (text_dict vi) = Inr vi \<and> sorted (map fst vi)"
proof -
  obtain kvs items where kvs: "kvs \<noteq> []" "length kvs \<le> 512" "image_items kvs = Inr items" and vi: "vi = sort_key fst items"
    using assms by (auto simp: validate_images_def then_do_Inr_iff split: pyval.splits if_splits)
  have ok: "list_all (\<lambda>(k, v). slug k \<and> digest_image v) vi" and len: "length vi = length kvs"
    using image_items_valid [OF kvs(3)] by (simp_all add: vi list_all_iff)
  have "vi \<noteq> []" using len kvs(1) by auto
  then show ?thesis
    using kvs(2) len image_items_texts [OF ok] by (simp add: validate_images_def text_dict_def) (simp add: vi sort_key_idem)
qed

lemma validate_versions_again:
  assumes "validate_versions v services = Inr vv"
  shows "validate_versions (text_dict vv) services = Inr vv \<and> sorted (map fst vv)"
proof -
  obtain kvs items where kvs: "set (map fst kvs) = set (map KStr services)" "version_items kvs = Inr items"
      and vv: "vv = sort_key fst items"
    using assms by (auto simp: validate_versions_def then_do_Inr_iff split: pyval.splits if_splits)
  note valid = version_items_valid [OF kvs(2)]
  have ok: "list_all (\<lambda>(k, v). version_image v) vv" using valid by (simp add: vv list_all_iff)
  have "set (map fst (map (\<lambda>(k, v). (KStr k, PStr v)) vv)) = (KStr \<circ> fst) ` set items"
    by (force simp: vv)
  also have "\<dots> = set (map KStr services)" using valid kvs(1) by (metis list.set_map)
  finally show ?thesis
    using version_items_texts [OF ok] by (simp add: validate_versions_def text_dict_def vv sort_key_idem)
qed

lemma build_release_facts:
  assumes "build_release env iv vv av = Inr r"
  shows "canonical env r \<and> schema_version r = 1 \<and> sorted (map fst (images r)) \<and> sorted (map fst (versions r))
    \<and> revision_of env (release_payload (created_at r) (images r) (versions r)) = Some (revision r)"
proof -
  obtain vi ve where vi: "validate_images iv = Inr vi" and ve: "validate_versions vv (map fst vi) = Inr ve"
      and rest: "(case av of
         PStr t \<Rightarrow>
           (case iso_zone env t of
              Some True \<Rightarrow>
                (case revision_of env (release_payload t vi ve) of
                   None \<Rightarrow> Inl Bad_revision
                 | Some r \<Rightarrow> Inr \<lparr>revision = r, created_at = t, images = vi, versions = ve, schema_version = 1\<rparr>)
            | _ \<Rightarrow> Inl Bad_timestamp)
       | _ \<Rightarrow> Inl Timestamp_type) = Inr r"
    using assms unfolding build_release_def then_do_Inr_iff by blast
  from rest obtain t where "av = PStr t" by (cases av) auto
  with rest have t: "iso_zone env t = Some True" by (auto split: option.splits bool.splits)
  with rest \<open>av = PStr t\<close> obtain rv where rv: "revision_of env (release_payload t vi ve) = Some rv"
      and r: "r = \<lparr>revision = rv, created_at = t, images = vi, versions = ve, schema_version = 1\<rparr>"
    by (auto split: option.splits)
  show ?thesis
    using validate_images_again [OF vi] validate_versions_again [OF ve] t rv
    by (simp add: r canonical_def build_release_def)
qed

lemma canonical_facts:
  assumes "canonical env r"
  shows "schema_version r = 1 \<and> sorted (map fst (images r)) \<and> sorted (map fst (versions r))
    \<and> revision_of env (release_payload (created_at r) (images r) (versions r)) = Some (revision r)"
  using assms build_release_facts unfolding canonical_def by blast

section \<open>Reading back what was written\<close>

definition stored_release :: "release_state \<Rightarrow> pyval" where
  "stored_release r = PDict
     [(KStr ''created_at'', PStr (created_at r)), (KStr ''images'', text_dict (images r)),
      (KStr ''revision'', PStr (revision r)), (KStr ''schema_version'', PInt 1),
      (KStr ''versions'', text_dict (versions r))]"

lemma release_dict_canonical:
  assumes "canonical env r"
  shows "release_dict env r = Inr (stored_release r)"
  using assms canonical_facts [OF assms]
  by (simp add: release_dict_def canonical_def same_release_def stored_release_def sort_key_id_if_sorted)

lemma stored_fields:
  assumes "stored_release r = PDict d"
  shows "field ''images'' d = text_dict (images r)" "field ''versions'' d = text_dict (versions r)"
    "field ''created_at'' d = PStr (created_at r)" "field ''revision'' d = PStr (revision r)"
    "field ''schema_version'' d = PInt 1" "has_keys release_keys d"
  using assms by (auto simp: stored_release_def field_def dict_get_or_def dict_get_def has_keys_def release_keys_def)

lemma rebuild_stored:
  assumes "canonical env r" and "stored_release r = PDict d"
  shows "rebuild env d = Inr r"
  using assms(1) by (simp add: rebuild_def stored_fields [OF assms(2)] canonical_def)

lemma scalar_one: "scalar_eq (PInt 1) (PInt 1)"
  by (simp add: scalar_eq_def num_less_def)

lemma embedded_stored:
  assumes "canonical env r"
  shows "embedded_release env (stored_release r) b = Inr (Some r)"
proof -
  obtain d where d: "stored_release r = PDict d" by (simp add: stored_release_def)
  show ?thesis
    using rebuild_stored [OF assms d] by (simp add: embedded_release_def d stored_fields [OF d] scalar_one)
qed

lemma plain_text_dict: "plain_json (text_dict kvs)"
proof -
  have "plain_items (map (\<lambda>(k, v). (KStr k, PStr v)) kvs)" by (induction kvs) auto
  then show ?thesis by (simp add: text_dict_def)
qed

lemma plain_stored: "plain_json (stored_release r)"
  by (simp add: stored_release_def plain_text_dict)

definition stored_size :: "release_file \<Rightarrow> nat" where
  "stored_size f = (case f of Release_text jf \<Rightarrow> text_size jf | _ \<Rightarrow> 0)"

lemma read_written_release:
  assumes "plain_json (PDict d)"
  shows "read_release (release_text env (PDict d))
    = (if stored_size (release_text env (PDict d)) > MAX_RELEASE_BYTES then Inl Too_large else Inr (Some d))"
proof -
  obtain t where "json_text (number_text env) (Some 2) 0 (PDict d) = Some t"
    using json_text_total(1) [OF assms] by blast
  then have "release_text env (PDict d) = Release_text \<lparr>decoded = PDict d, text_size = Suc (length t)\<rparr>"
    by (simp only: release_text_def write_json_def option.map option.case)
  then show ?thesis by (simp add: read_release_def stored_size_def)
qed

lemma optional_canonical:
  assumes "pred_option (canonical env) previous"
  shows "\<exists>p. optional_dict env previous = Inr p \<and> plain_json p \<and> embedded_release env p True = Inr previous"
proof (cases previous)
  case None
  then show ?thesis by (simp add: optional_dict_def embedded_release_def)
next
  case (Some r)
  then have "canonical env r" using assms by simp
  then show ?thesis using Some release_dict_canonical embedded_stored plain_stored by (simp add: optional_dict_def)
qed

lemma revision_plain: "plain_json v \<Longrightarrow> \<exists>t. revision_of env v = Some t"
  using dumps_total(1) by (fastforce simp: revision_of_def)

lemma active_round_trip:
  fixes dir :: release_dir
  assumes "canonical env r"
  defines "dir' \<equiv> snd (write_active_release env (Some r) dir)"
  shows "fst (write_active_release env (Some r) dir) = Inr ()
    \<and> load_active_release env dir'
      = (if stored_size (active_file dir') > MAX_RELEASE_BYTES then Inl Too_large else Inr (Some r))"
proof -
  obtain d where d: "stored_release r = PDict d" by (simp add: stored_release_def)
  have w: "write_active_release env (Some r) dir = (Inr (), dir\<lparr>active_file := release_text env (PDict d)\<rparr>)"
    by (simp add: write_active_release_def release_dict_canonical [OF assms(1)] d)
  have "plain_json (PDict d)" using plain_stored [of r] by (simp only: d)
  from read_written_release [OF this, of env] show ?thesis
    using rebuild_stored [OF assms(1) d]
    by (simp add: dir'_def w load_active_release_def stored_fields [OF d] scalar_one)
qed

lemma rollback_round_trip:
  fixes dir :: release_dir and e :: string
  assumes "pred_option (canonical env) previous" and "hex64 e"
  defines "dir' \<equiv> snd (write_rollback_release env e previous dir)"
  shows "\<exists>seal. fst (write_rollback_release env e previous dir) = Inr ()
    \<and> load_rollback_release env dir'
      = (if stored_size (rollback_file dir') > MAX_RELEASE_BYTES then Inl Too_large
         else Inr (Some \<lparr>expected_active_revision = e, rollback_previous = previous, rollback_revision = seal\<rparr>))"
proof -
  obtain p where p: "optional_dict env previous = Inr p" "plain_json p" "embedded_release env p True = Inr previous"
    using optional_canonical [OF assms(1)] by blast
  let ?payload = "[(KStr ''expected_active_revision'', PStr e), (KStr ''previous'', p), (KStr ''schema_version'', PInt 1)]"
  obtain seal where seal: "revision_of env (PDict ?payload) = Some seal"
    using revision_plain [of "PDict ?payload" env] p(2) by auto
  let ?d = "[(KStr ''expected_active_revision'', PStr e), (KStr ''previous'', p), (KStr ''revision'', PStr seal),
    (KStr ''schema_version'', PInt 1)]"
  have w: "write_rollback_release env e previous dir = (Inr (), dir\<lparr>rollback_file := release_text env (PDict ?d)\<rparr>)"
    using assms(2) seal by (simp add: write_rollback_release_def p(1))
  have "plain_json (PDict ?d)" using p(2) by simp
  note read = read_written_release [OF this, of env]
  have "field ''expected_active_revision'' ?d = PStr e" "field ''previous'' ?d = p"
    "field ''revision'' ?d = PStr seal" "field ''schema_version'' ?d = PInt 1"
    "has_keys [''schema_version'', ''revision'', ''expected_active_revision'', ''previous''] ?d"
    by (auto simp: field_def dict_get_or_def dict_get_def has_keys_def)
  moreover from this have "sealed env ?d" using seal by (simp add: sealed_def scalar_one)
  ultimately have "load_rollback_release env dir'
      = (if stored_size (rollback_file dir') > MAX_RELEASE_BYTES then Inl Too_large
         else Inr (Some \<lparr>expected_active_revision = e, rollback_previous = previous, rollback_revision = seal\<rparr>))"
    using read p(3) assms(2) by (simp add: dir'_def w load_rollback_release_def)
  then show ?thesis using w by auto
qed

lemma recovery_round_trip:
  fixes dir :: release_dir
  assumes "pred_option (canonical env) previous" and "canonical env failed"
  defines "dir' \<equiv> snd (write_recovery_release env previous failed dir)"
  shows "\<exists>seal. fst (write_recovery_release env previous failed dir) = Inr ()
    \<and> load_recovery_release env dir'
      = (if stored_size (recovery_file dir') > MAX_RELEASE_BYTES then Inl Too_large
         else Inr (Some \<lparr>recovery_previous = previous, recovery_failed = failed, recovery_revision = seal\<rparr>))"
proof -
  obtain p where p: "optional_dict env previous = Inr p" "plain_json p" "embedded_release env p True = Inr previous"
    using optional_canonical [OF assms(1)] by blast
  let ?f = "stored_release failed"
  let ?payload = "[(KStr ''failed'', ?f), (KStr ''previous'', p), (KStr ''schema_version'', PInt 1)]"
  obtain seal where seal: "revision_of env (PDict ?payload) = Some seal"
    using revision_plain [of "PDict ?payload" env] p(2) plain_stored by auto
  let ?d = "[(KStr ''failed'', ?f), (KStr ''previous'', p), (KStr ''revision'', PStr seal), (KStr ''schema_version'', PInt 1)]"
  have w: "write_recovery_release env previous failed dir = (Inr (), dir\<lparr>recovery_file := release_text env (PDict ?d)\<rparr>)"
    using seal by (simp add: write_recovery_release_def p(1) release_dict_canonical [OF assms(2)])
  have "plain_json (PDict ?d)" using p(2) plain_stored by simp
  note read = read_written_release [OF this, of env]
  have "field ''failed'' ?d = ?f" "field ''previous'' ?d = p"
    "field ''revision'' ?d = PStr seal" "field ''schema_version'' ?d = PInt 1"
    "has_keys [''schema_version'', ''revision'', ''previous'', ''failed''] ?d"
    by (auto simp: field_def dict_get_or_def dict_get_def has_keys_def)
  moreover from this have "sealed env ?d" using seal by (simp add: sealed_def scalar_one)
  ultimately have "load_recovery_release env dir'
      = (if stored_size (recovery_file dir') > MAX_RELEASE_BYTES then Inl Too_large
         else Inr (Some \<lparr>recovery_previous = previous, recovery_failed = failed, recovery_revision = seal\<rparr>))"
    using read p(3) embedded_stored [OF assms(2)] by (simp add: dir'_def w load_recovery_release_def)
  then show ?thesis using w by auto
qed

section \<open>Properties\<close>

text \<open>
  C20: what is written is what is read.  For releases that \<open>build_release\<close> accepts, writing the
  active release, a rollback record or a recovery record succeeds, and reading it back gives the
  same releases, with one exception: the writers do not check the size of the text, so a release
  whose text exceeds the limit of the readers is stored and then refused.
\<close>

theorem release_files_round_trip:
  fixes dir :: release_dir and e :: string
  assumes "build_release env iv vv av = Inr r" and "build_release env iv' vv' av' = Inr q" and "hex64 e"
  defines "a \<equiv> snd (write_active_release env (Some r) dir)"
    and "b \<equiv> snd (write_rollback_release env e (Some q) dir)"
    and "c \<equiv> snd (write_recovery_release env (Some q) r dir)"
  shows "load_active_release env a = (if stored_size (active_file a) > MAX_RELEASE_BYTES then Inl Too_large else Inr (Some r))
    \<and> (\<exists>seal. load_rollback_release env b
         = (if stored_size (rollback_file b) > MAX_RELEASE_BYTES then Inl Too_large
            else Inr (Some \<lparr>expected_active_revision = e, rollback_previous = Some q, rollback_revision = seal\<rparr>)))
    \<and> (\<exists>seal. load_recovery_release env c
         = (if stored_size (recovery_file c) > MAX_RELEASE_BYTES then Inl Too_large
            else Inr (Some \<lparr>recovery_previous = Some q, recovery_failed = r, recovery_revision = seal\<rparr>)))"
proof -
  have r: "canonical env r" and q: "pred_option (canonical env) (Some q)"
    using build_release_facts [OF assms(1)] build_release_facts [OF assms(2)] by simp_all
  show ?thesis
    using active_round_trip [OF r, of dir] rollback_round_trip [OF q assms(3), of dir] recovery_round_trip [OF q r, of dir]
    unfolding a_def b_def c_def by blast
qed

lemma payload_text:
  assumes "sorted (map fst imgs)" and "sorted (map fst vers)"
  shows "dumps fr (release_payload t imgs vers)
    = Some (''{'' @ json_string ''created_at'' @ '':'' @ json_string t @ '','' @ json_string ''images'' @ '':'' @ object_text imgs
        @ '','' @ json_string ''schema_version'' @ '':'' @ show_int 1 @ '','' @ json_string ''versions'' @ '':''
        @ object_text vers @ ''}'')"
proof -
  have sorted: "sort_key fst imgs = imgs" "sort_key fst vers = vers"
    using assms by (simp_all add: sort_key_id_if_sorted)
  have order: "sort_key fst [(''schema_version'', a), (''created_at'', b), (''images'', c), (''versions'', d)]
      = [(''created_at'', b), (''images'', c), (''schema_version'', a), (''versions'', d)]" for a b c d :: string
    by (simp add: less_list_code less_char_def)
  have "dumps fr (text_dict imgs) = Some (object_text imgs)" "dumps fr (text_dict vers) = Some (object_text vers)"
    using dumps_text_dict [OF assms(1)] dumps_text_dict [OF assms(2)] by (simp_all only: text_dict_def)
  then show ?thesis by (simp add: release_payload_def sorted order)
qed

lemma payload_inject:
  assumes "sorted (map fst imgs)" "sorted (map fst vers)" "sorted (map fst imgs')" "sorted (map fst vers')"
    and "dumps fr (release_payload t imgs vers) = dumps fr (release_payload t' imgs' vers')"
  shows "t = t' \<and> imgs = imgs' \<and> vers = vers'"
proof -
  let ?tail = "\<lambda>v. '','' @ json_string ''schema_version'' @ '':'' @ show_int 1 @ '','' @ json_string ''versions'' @ '':'' @ object_text v @ ''}''"
  have "json_string t @ ('','' @ json_string ''images'' @ '':'' @ object_text imgs @ ?tail vers)
      = json_string t' @ ('','' @ json_string ''images'' @ '':'' @ object_text imgs' @ ?tail vers')"
    using assms(5) unfolding payload_text [OF assms(1,2)] payload_text [OF assms(3,4)] by simp
  from json_string_append_inject [OF this] have t: "t = t'" and "object_text imgs @ ?tail vers = object_text imgs' @ ?tail vers'"
    by simp_all
  from object_text_append_inject [OF this(2)] have i: "imgs = imgs'" and "object_text vers @ ''}'' = object_text vers' @ ''}''"
    by simp_all
  from object_text_append_inject [OF this(2)] t i show ?thesis by simp
qed

lemma load_active_canonical:
  assumes "load_active_release env dir = Inr (Some r)"
  shows "canonical env r"
proof -
  obtain d where "rebuild env d = Inr r"
    using assms by (auto simp: load_active_release_def then_do_Inr_iff split: option.splits if_splits)
  then obtain x y z where "build_release env x y z = Inr r"
    by (auto simp: rebuild_def then_do_Inr_iff split: if_splits)
  then show ?thesis using build_release_facts by blast
qed

text \<open>
  The revision of a release speaks for its content.  Two active releases that are read under
  the same revision, from files in whatever state, are the same release, or a collision of SHA-256
  has been found.
\<close>

theorem release_tamper_evident:
  assumes "load_active_release env dir = Inr (Some r)" and "load_active_release env dir' = Inr (Some r')"
    and "revision r = revision r'"
  shows "r = r' \<or> (\<exists>t u. t \<noteq> u \<and> sha256_hex env t = sha256_hex env u)"
proof (cases "\<exists>t u. t \<noteq> u \<and> sha256_hex env t = sha256_hex env u")
  case False
  note r = canonical_facts [OF load_active_canonical [OF assms(1)]]
  note r' = canonical_facts [OF load_active_canonical [OF assms(2)]]
  obtain t u where t: "dumps (number_text env) (release_payload (created_at r) (images r) (versions r)) = Some t"
        "revision r = sha256_hex env t"
      and u: "dumps (number_text env) (release_payload (created_at r') (images r') (versions r')) = Some u"
        "revision r' = sha256_hex env u"
    using r r' by (auto simp: revision_of_def)
  have "t = u" using False assms(3) t(2) u(2) by auto
  then have "created_at r = created_at r' \<and> images r = images r' \<and> versions r = versions r'"
    using payload_inject r r' t(1) u(1) by metis
  then show ?thesis using r r' assms(3) by simp
qed simp

section \<open>A concrete release\<close>

definition plain_release_env :: release_env where
  "plain_release_env = \<lparr>sha256_hex = (\<lambda>t. t), iso_zone = (\<lambda>t. Some True), number_text = (\<lambda>m e. [])\<rparr>"

definition sample_digest :: string where
  "sample_digest = ''web@sha256:'' @ replicate 64 (CHR ''a'')"

definition sample_release :: release_state where
  "sample_release = projr (build_release plain_release_env (PDict [(KStr ''web'', PStr sample_digest)])
     (PDict [(KStr ''web'', PStr ''web:1'')]) (PStr ''now''))"

lemma sample_built:
  "build_release plain_release_env (PDict [(KStr ''web'', PStr sample_digest)])
     (PDict [(KStr ''web'', PStr ''web:1'')]) (PStr ''now'') = Inr sample_release"
  by code_simp

definition empty_dir :: release_dir where
  "empty_dir = \<lparr>active_file = No_release, rollback_file = No_release, recovery_file = No_release\<rparr>"

definition sample_dir :: release_dir where
  "sample_dir = snd (write_active_release plain_release_env (Some sample_release) empty_dir)"

lemma sample_small: "\<not> stored_size (active_file sample_dir) > MAX_RELEASE_BYTES"
proof -
  have "stored_size (release_text plain_release_env (stored_release sample_release)) < 1000" by code_simp
  then have "stored_size (active_file sample_dir) < 1000"
    using build_release_facts [OF sample_built] by (simp add: sample_dir_def write_active_release_def release_dict_canonical)
  then show ?thesis by (simp add: MAX_RELEASE_BYTES_def)
qed

theorem release_files_round_trip_witness:
  "load_active_release plain_release_env sample_dir = Inr (Some sample_release)"
proof -
  have "hex64 (replicate 64 (CHR ''0''))" by code_simp
  from release_files_round_trip [OF sample_built sample_built this, of empty_dir] sample_small
  show ?thesis unfolding sample_dir_def [symmetric] by (simp only: if_False)
qed

lemma sample_loads: "load_active_release plain_release_env sample_dir = Inr (Some sample_release)"
  using active_round_trip [of plain_release_env sample_release empty_dir] build_release_facts [OF sample_built] sample_small
  unfolding sample_dir_def [symmetric] by (simp only: if_False)

theorem release_tamper_evident_witness:
  "load_active_release plain_release_env sample_dir = Inr (Some sample_release)
   \<and> (sample_release = sample_release \<or> (\<exists>t u. t \<noteq> u \<and> sha256_hex plain_release_env t = sha256_hex plain_release_env u))"
  using release_tamper_evident [OF sample_loads sample_loads refl] sample_loads by blast

end
