(* ===== verification/Invites.thy ===== *)
theory Invites
  imports Json_Text Desired_State
begin

text \<open>
  \<open>core/identity/invite_token.py\<close>: invitations that can be activated once.  The payload of an
  invitation is kept in Redis under a random id; the bearer holds a signed token with that id.

  The Redis server and the signing of \<open>itsdangerous\<close> are parameters, the fields of \<open>env\<close>; so are
  SHA-256 and HMAC.  \<open>rd_get env r now k\<close> is the value of a key at an instant (in seconds), and the
  Lua scripts are translated into sequences of the three commands they call; Redis runs a script as
  one step.  A value is the JSON text of a document, or a text that does not decode to an object.
  Random ids and the clock are arguments.  A call that cannot reach Redis is not considered.
\<close>

section \<open>Redis and the environment\<close>

datatype redis_text = Json_text pyval | Raw string

record 'r invite_env =
  rd_get :: "'r \<Rightarrow> int \<Rightarrow> string \<Rightarrow> redis_text option"
  rd_setex :: "string \<Rightarrow> int \<Rightarrow> redis_text \<Rightarrow> int \<Rightarrow> 'r \<Rightarrow> 'r"
  rd_del :: "string \<Rightarrow> 'r \<Rightarrow> 'r"
  sign_token :: "string \<Rightarrow> int \<Rightarrow> pyval \<Rightarrow> string"
  open_token :: "string \<Rightarrow> int \<Rightarrow> string \<Rightarrow> pyval option"
  invite_sha256 :: "string \<Rightarrow> string"
  invite_hmac :: "string \<Rightarrow> string \<Rightarrow> string"
  value_texts :: py_texts

definition TOKEN_MAX_AGE_SECONDS :: int where
  "TOKEN_MAX_AGE_SECONDS = 72 * 3600"

definition plain_dumps :: "pyval \<Rightarrow> string" where
  "plain_dumps v = (case dumps (\<lambda>m e. []) v of None \<Rightarrow> [] | Some t \<Rightarrow> t)"

fun text_of :: "redis_text \<Rightarrow> string" where
  "text_of (Raw s) = s"
| "text_of (Json_text v) = plain_dumps v"

section \<open>Payloads\<close>

record invite_payload =
  inv_email :: string
  inv_user_id :: string
  inv_display_name :: string
  inv_groups :: "string list"

definition payload_document :: "invite_payload \<Rightarrow> pyval" where
  "payload_document p = PDict
     [(KStr ''email'', PStr (inv_email p)), (KStr ''user_id'', PStr (inv_user_id p)),
      (KStr ''display_name'', PStr (inv_display_name p)), (KStr ''groups'', PList (map PStr (inv_groups p)))]"

definition control_char :: "char \<Rightarrow> bool" where
  "control_char c \<longleftrightarrow> code c < 32 \<or> code c = 127"

definition letter_or_digit :: "char \<Rightarrow> bool" where
  "letter_or_digit c \<longleftrightarrow> is_lower c \<or> is_upper c \<or> is_digit c"

definition valid_email :: "string \<Rightarrow> bool" where
  "valid_email s \<longleftrightarrow>
     s \<noteq> [] \<and> length s \<le> 254 \<and> length (filter (\<lambda>c. c = CHR ''@'') s) = 1
     \<and> hd s \<noteq> CHR ''@'' \<and> last s \<noteq> CHR ''@'' \<and> \<not> list_ex control_char s"

definition valid_user_id :: "string \<Rightarrow> bool" where
  "valid_user_id s \<longleftrightarrow>
     s \<noteq> [] \<and> length s \<le> 32 \<and> (is_lower (hd s) \<or> is_digit (hd s))
     \<and> list_all (\<lambda>c. is_lower c \<or> is_digit c \<or> c \<in> {CHR ''.'', CHR ''_'', CHR ''-''}) s
     \<and> s \<notin> {''admin'', ''ldap-bind''}"

definition valid_group :: "string \<Rightarrow> bool" where
  "valid_group s \<longleftrightarrow>
     s \<noteq> [] \<and> length s \<le> 128 \<and> letter_or_digit (hd s)
     \<and> list_all (\<lambda>c. letter_or_digit c \<or> c \<in> {CHR ''.'', CHR ''_'', CHR ''-''}) s"

definition valid_jti :: "string \<Rightarrow> bool" where
  "valid_jti s \<longleftrightarrow>
     16 \<le> length s \<and> length s \<le> 64 \<and> list_all (\<lambda>c. letter_or_digit c \<or> c \<in> {CHR ''_'', CHR ''-''}) s"

definition valid_issuance_id :: "string \<Rightarrow> bool" where
  "valid_issuance_id s \<longleftrightarrow>
     8 \<le> length s \<and> length s \<le> 128
     \<and> list_all (\<lambda>c. letter_or_digit c \<or> c \<in> {CHR ''.'', CHR ''_'', CHR ''-''}) s"

fun texts_of :: "pyval list \<Rightarrow> string list option" where
  "texts_of [] = Some []"
| "texts_of (PStr s # vs) = map_option ((#) s) (texts_of vs)"
| "texts_of (_ # vs) = None"

definition valid_payload :: "invite_payload \<Rightarrow> bool" where
  "valid_payload p \<longleftrightarrow>
     valid_email (inv_email p) \<and> valid_user_id (inv_user_id p)
     \<and> length (inv_display_name p) \<le> 128 \<and> \<not> list_ex control_char (inv_display_name p)
     \<and> length (inv_groups p) \<le> 64 \<and> list_all valid_group (inv_groups p) \<and> distinct (inv_groups p)"

definition validated_payload :: "pyval \<Rightarrow> invite_payload option" where
  "validated_payload v =
     (case v of
        PDict d \<Rightarrow>
          if \<not> has_keys [''email'', ''user_id'', ''display_name'', ''groups''] d then None
          else (case (field ''email'' d, field ''user_id'' d, field ''display_name'' d, field ''groups'' d) of
                  (PStr e, PStr u, PStr n, PList gs) \<Rightarrow>
                    (case texts_of gs of
                       None \<Rightarrow> None
                     | Some groups \<Rightarrow>
                         (let p = \<lparr>inv_email = e, inv_user_id = u, inv_display_name = n, inv_groups = groups\<rparr>
                          in if valid_payload p then Some p else None))
                | _ \<Rightarrow> None)
      | _ \<Rightarrow> None)"

definition parse_payload :: "redis_text \<Rightarrow> invite_payload option" where
  "parse_payload t = (case t of Json_text v \<Rightarrow> validated_payload v | Raw s \<Rightarrow> None)"

definition payload_digest :: "'r invite_env \<Rightarrow> invite_payload \<Rightarrow> string" where
  "payload_digest env p = invite_sha256 env (plain_dumps (payload_document p))"

definition subject_id :: "'r invite_env \<Rightarrow> invite_payload \<Rightarrow> string" where
  "subject_id env p = invite_sha256 env (inv_user_id p)"

definition payload_matches :: "'r invite_env \<Rightarrow> invite_payload \<Rightarrow> string \<Rightarrow> string \<Rightarrow> bool" where
  "payload_matches env p subject digest \<longleftrightarrow> subject_id env p = subject \<and> payload_digest env p = digest"

section \<open>Keys\<close>

definition payload_key :: "string \<Rightarrow> string" where
  "payload_key jti = ''homelab:invite:'' @ jti"

definition subject_key :: "string \<Rightarrow> string" where
  "subject_key subject = ''homelab:invite:subject:'' @ subject"

definition activation_key :: "string \<Rightarrow> string" where
  "activation_key jti = ''homelab:invite:activation:'' @ jti"

definition delivery_key :: "'r invite_env \<Rightarrow> string option \<Rightarrow> string" where
  "delivery_key env issuance =
     (case issuance of None \<Rightarrow> [] | Some i \<Rightarrow> ''homelab:invite:delivery:'' @ invite_sha256 env i)"

section \<open>Scripts\<close>

datatype issue_reply = Cached redis_text | Issued

text \<open>\<open>INVITE_ISSUE\<close>.\<close>

definition issue_script ::
  "'r invite_env \<Rightarrow> int \<Rightarrow> string \<Rightarrow> string \<Rightarrow> string \<Rightarrow> redis_text \<Rightarrow> redis_text \<Rightarrow> 'r \<Rightarrow> issue_reply \<times> 'r"
where
  "issue_script env now jti subject delivery payload delivered r =
     (case (if delivery \<noteq> [] then rd_get env r now delivery else None) of
        Some c \<Rightarrow> (Cached c, r)
      | None \<Rightarrow>
          (let r1 = (case rd_get env r now (subject_key subject) of
                       Some previous \<Rightarrow> rd_del env (payload_key (text_of previous)) r
                     | None \<Rightarrow> r);
               r2 = rd_setex env (payload_key jti) TOKEN_MAX_AGE_SECONDS payload now r1;
               r3 = rd_setex env (subject_key subject) TOKEN_MAX_AGE_SECONDS (Raw jti) now r2
           in (Issued, if delivery \<noteq> [] then rd_setex env delivery TOKEN_MAX_AGE_SECONDS delivered now r3 else r3)))"

text \<open>The value of an invitation that is still the current one of its subject.\<close>

definition current_value :: "'r invite_env \<Rightarrow> int \<Rightarrow> string \<Rightarrow> string \<Rightarrow> 'r \<Rightarrow> redis_text option" where
  "current_value env now jti subject r =
     (case rd_get env r now (payload_key jti) of
        None \<Rightarrow> None
      | Some v \<Rightarrow>
          if map_option text_of (rd_get env r now (subject_key subject)) \<noteq> Some jti then None else Some v)"

datatype begin_reply = State_reply redis_text | Value_reply redis_text | Nil_reply

text \<open>\<open>INVITE_ACTIVATION_BEGIN\<close> and \<open>INVITE_ACTIVATION_FINISH\<close>; \<open>INVITE_PEEK\<close> is \<open>current_value\<close>.\<close>

definition begin_script ::
  "'r invite_env \<Rightarrow> int \<Rightarrow> string \<Rightarrow> string \<Rightarrow> string \<Rightarrow> 'r \<Rightarrow> begin_reply \<times> 'r"
where
  "begin_script env now jti subject aid r =
     (case rd_get env r now (activation_key jti) of
        Some state \<Rightarrow> (State_reply state, r)
      | None \<Rightarrow>
          (case current_value env now jti subject r of
             None \<Rightarrow> (Nil_reply, r)
           | Some v \<Rightarrow>
               (Value_reply v,
                rd_del env (subject_key subject) (rd_del env (payload_key jti)
                  (rd_setex env (activation_key jti) TOKEN_MAX_AGE_SECONDS (Raw (''ACTIVATING:'' @ aid)) now r)))))"

definition finish_script :: "'r invite_env \<Rightarrow> int \<Rightarrow> string \<Rightarrow> string \<Rightarrow> string \<Rightarrow> 'r \<Rightarrow> bool \<times> 'r" where
  "finish_script env now jti aid outcome r =
     (if map_option text_of (rd_get env r now (activation_key jti)) \<noteq> Some (''ACTIVATING:'' @ aid) then (False, r)
      else (True, rd_setex env (activation_key jti) TOKEN_MAX_AGE_SECONDS (Raw outcome) now r))"

section \<open>Tokens\<close>

datatype invite_error =
    Secret_short | Secret_missing | Payload_invalid | Issuance_invalid
  | Cached_invalid | Issuance_reused | Cached_type | Cached_token

definition invite_secret :: "(string \<times> string) list \<Rightarrow> invite_error + string" where
  "invite_secret secrets =
     (let v = strip (case map_of secrets ''INVITE_TOKEN_SECRET'' of None \<Rightarrow> [] | Some s \<Rightarrow> s)
      in if length v \<ge> 32 then Inr v else if v \<noteq> [] then Inl Secret_short else Inl Secret_missing)"

definition invite_csrf_token :: "'r invite_env \<Rightarrow> (string \<times> string) list \<Rightarrow> string \<Rightarrow> invite_error + string" where
  "invite_csrf_token env secrets token =
     then_do (invite_secret secrets) (\<lambda>s. Inr (invite_hmac env s (''homelab-invite-csrf-v1'' @ [CHR 0x00] @ token)))"

definition validate_invite_csrf ::
  "'r invite_env \<Rightarrow> (string \<times> string) list \<Rightarrow> string \<Rightarrow> string \<Rightarrow> invite_error + bool"
where
  "validate_invite_csrf env secrets token supplied =
     (if \<not> hex64 supplied then Inr False
      else then_do (invite_csrf_token env secrets token) (\<lambda>t. Inr (t = supplied)))"

definition token_document :: "string \<Rightarrow> string \<Rightarrow> string \<Rightarrow> pyval" where
  "token_document jti subject digest = PDict
     [(KStr ''v'', PInt 2), (KStr ''jti'', PStr jti), (KStr ''subject'', PStr subject),
      (KStr ''payload_sha256'', PStr digest)]"

definition token_fields :: "pyval \<Rightarrow> (string \<times> string \<times> string) option" where
  "token_fields data =
     (case data of
        PDict d \<Rightarrow>
          if \<not> has_keys [''v'', ''jti'', ''subject'', ''payload_sha256''] d then None
          else (case (field ''v'' d, field ''jti'' d, field ''subject'' d, field ''payload_sha256'' d) of
                  (PInt v, PStr jti, PStr subject, PStr digest) \<Rightarrow>
                    if v = 2 \<and> valid_jti jti \<and> hex64 subject \<and> hex64 digest then Some (jti, subject, digest) else None
                | _ \<Rightarrow> None)
      | _ \<Rightarrow> None)"

definition signed_token_data ::
  "'r invite_env \<Rightarrow> (string \<times> string) list \<Rightarrow> int \<Rightarrow> string \<Rightarrow> invite_error + (string \<times> string \<times> string) option"
where
  "signed_token_data env secrets now token =
     then_do (invite_secret secrets) (\<lambda>s.
       Inr (case open_token env s now token of None \<Rightarrow> None | Some data \<Rightarrow> token_fields data))"

section \<open>Operations\<close>

record invite_args =
  arg_email :: string
  arg_user_id :: string
  arg_display_name :: "string option"
  arg_groups :: "string list"
  arg_issuance :: "string option"

definition candidate_payload :: "invite_args \<Rightarrow> invite_payload" where
  "candidate_payload a =
     \<lparr>inv_email = lower (strip (arg_email a)), inv_user_id = strip (arg_user_id a),
      inv_display_name = strip (case arg_display_name a of None \<Rightarrow> [] | Some n \<Rightarrow> n),
      inv_groups = map strip (arg_groups a)\<rparr>"

definition cached_token :: "'r invite_env \<Rightarrow> string \<Rightarrow> redis_text \<Rightarrow> invite_error + string" where
  "cached_token env digest c =
     (case c of
        Json_text (PDict d) \<Rightarrow>
          if \<not> has_keys [''payload_sha256'', ''token''] d then Inl Cached_invalid
          else (let h = py_str (value_texts env) (field ''payload_sha256'' d)
                in if list_ex (\<lambda>c. 127 < code c) h then Inl Cached_type
                   else if h \<noteq> digest then Inl Issuance_reused
                   else (case field ''token'' d of PStr t \<Rightarrow> Inr t | _ \<Rightarrow> Inl Cached_token))
      | _ \<Rightarrow> Inl Cached_invalid)"

definition create_invite_token ::
  "'r invite_env \<Rightarrow> (string \<times> string) list \<Rightarrow> int \<Rightarrow> string \<Rightarrow> invite_args \<Rightarrow> 'r \<Rightarrow> (invite_error + string) \<times> 'r"
where
  "create_invite_token env secrets now jti a r =
     (case invite_secret secrets of
        Inl e \<Rightarrow> (Inl e, r)
      | Inr secret \<Rightarrow>
          (let p = candidate_payload a
           in if \<not> valid_payload p then (Inl Payload_invalid, r)
              else if \<not> pred_option valid_issuance_id (arg_issuance a) then (Inl Issuance_invalid, r)
              else
                (let subject = subject_id env p; digest = payload_digest env p;
                     token = sign_token env secret now (token_document jti subject digest);
                     delivered = Json_text (PDict [(KStr ''payload_sha256'', PStr digest), (KStr ''token'', PStr token)])
                 in case issue_script env now jti subject (delivery_key env (arg_issuance a))
                           (Json_text (payload_document p)) delivered r of
                      (Cached c, r') \<Rightarrow> (cached_token env digest c, r')
                    | (Issued, r') \<Rightarrow> (Inr token, r'))))"

definition peek_invite_token ::
  "'r invite_env \<Rightarrow> (string \<times> string) list \<Rightarrow> int \<Rightarrow> string \<Rightarrow> 'r \<Rightarrow> invite_error + invite_payload option"
where
  "peek_invite_token env secrets now token r =
     then_do (signed_token_data env secrets now token) (\<lambda>data.
       Inr (case data of
              None \<Rightarrow> None
            | Some (jti, subject, digest) \<Rightarrow>
                (case current_value env now jti subject r of
                   None \<Rightarrow> None
                 | Some raw \<Rightarrow>
                     if text_of raw = [] then None
                     else (case parse_payload raw of
                             None \<Rightarrow> None
                           | Some p \<Rightarrow> if payload_matches env p subject digest then Some p else None))))"

datatype activation_state = Acquired | Activating | Activation_succeeded | Activation_failed | Activation_invalid

record invite_activation =
  act_state :: activation_state
  act_payload :: "invite_payload option"
  act_id :: string

definition no_activation :: "activation_state \<Rightarrow> invite_activation" where
  "no_activation s = \<lparr>act_state = s, act_payload = None, act_id = []\<rparr>"

definition complete_invite_activation ::
  "'r invite_env \<Rightarrow> (string \<times> string) list \<Rightarrow> int \<Rightarrow> string \<Rightarrow> string \<Rightarrow> bool \<Rightarrow> 'r \<Rightarrow> (invite_error + bool) \<times> 'r"
where
  "complete_invite_activation env secrets now token aid succeeded r =
     (case signed_token_data env secrets now token of
        Inl e \<Rightarrow> (Inl e, r)
      | Inr None \<Rightarrow> (Inr False, r)
      | Inr (Some (jti, subject, digest)) \<Rightarrow>
          if \<not> valid_jti aid then (Inr False, r)
          else (case finish_script env now jti aid (if succeeded then ''SUCCEEDED'' else ''FAILED'') r of
                  (b, r') \<Rightarrow> (Inr b, r')))"

definition state_result :: "string \<Rightarrow> invite_activation" where
  "state_result stored = no_activation
     (if prefix ''ACTIVATING:'' stored then Activating
      else if stored = ''SUCCEEDED'' then Activation_succeeded
      else if stored = ''FAILED'' then Activation_failed
      else Activation_invalid)"

definition begin_invite_activation ::
  "'r invite_env \<Rightarrow> (string \<times> string) list \<Rightarrow> int \<Rightarrow> string \<Rightarrow> string \<Rightarrow> 'r \<Rightarrow> (invite_error + invite_activation) \<times> 'r"
where
  "begin_invite_activation env secrets now aid token r =
     (case signed_token_data env secrets now token of
        Inl e \<Rightarrow> (Inl e, r)
      | Inr None \<Rightarrow> (Inr (no_activation Activation_invalid), r)
      | Inr (Some (jti, subject, digest)) \<Rightarrow>
          (case begin_script env now jti subject aid r of
             (Nil_reply, r') \<Rightarrow> (Inr (no_activation Activation_invalid), r')
           | (State_reply state, r') \<Rightarrow> (Inr (state_result (text_of state)), r')
           | (Value_reply raw, r') \<Rightarrow>
               if text_of raw = [] then (Inr (no_activation Activation_invalid), r')
               else if prefix ''STATE:'' (text_of raw)
                 then (Inr (state_result (remove_prefix ''STATE:'' (text_of raw))), r')
               else (case parse_payload raw of
                       Some p \<Rightarrow>
                         if payload_matches env p subject digest
                           then (Inr \<lparr>act_state = Acquired, act_payload = Some p, act_id = aid\<rparr>, r')
                         else (Inr (no_activation Activation_failed), snd (complete_invite_activation env secrets now token aid False r'))
                     | None \<Rightarrow>
                         (Inr (no_activation Activation_failed),
                          snd (complete_invite_activation env secrets now token aid False r')))))"

end
