(* ===== verification/Invite_Properties.thy ===== *)
theory Invite_Properties
  imports Invites
begin

text \<open>
  What an invitation promises, over every sequence of calls: it is activated at most once, a newer
  invitation of the same user takes its place, and within its life it goes from issue to its
  recorded outcome.  \<open>redis_laws\<close> is what the code relies on of Redis.
\<close>

section \<open>Laws\<close>

definition redis_laws :: "'r invite_env \<Rightarrow> bool" where
  "redis_laws env \<longleftrightarrow>
     (\<forall>r k now k'. rd_get env (rd_del env k r) now k' = (if k' = k then None else rd_get env r now k'))
     \<and> (\<forall>r k ttl v t now k'. k' \<noteq> k \<longrightarrow> rd_get env (rd_setex env k ttl v t r) now k' = rd_get env r now k')
     \<and> (\<forall>r k ttl v t now. rd_get env (rd_setex env k ttl v t r) now k \<in> {None, Some v})
     \<and> (\<forall>r k ttl v t now. t \<le> now \<and> now < t + ttl \<longrightarrow> rd_get env (rd_setex env k ttl v t r) now k = Some v)"

lemma get_del: "redis_laws env \<Longrightarrow> rd_get env (rd_del env k r) now k' = (if k' = k then None else rd_get env r now k')"
  by (simp add: redis_laws_def)

lemma get_other: "redis_laws env \<Longrightarrow> k' \<noteq> k \<Longrightarrow> rd_get env (rd_setex env k ttl v t r) now k' = rd_get env r now k'"
  by (simp add: redis_laws_def)

lemma get_set: "redis_laws env \<Longrightarrow> rd_get env (rd_setex env k ttl v t r) now k = None \<or> rd_get env (rd_setex env k ttl v t r) now k = Some v"
  unfolding redis_laws_def by blast

lemma get_live: "redis_laws env \<Longrightarrow> t \<le> now \<Longrightarrow> now < t + ttl \<Longrightarrow> rd_get env (rd_setex env k ttl v t r) now k = Some v"
  unfolding redis_laws_def by blast

section \<open>Keys\<close>

lemma jti_no_colon: "valid_jti j \<Longrightarrow> CHR '':'' \<notin> set j"
  by (auto simp: valid_jti_def letter_or_digit_def is_lower_def is_upper_def is_digit_def code_def list_all_iff)

lemma payload_key_other:
  assumes "valid_jti j"
  shows "payload_key j \<noteq> subject_key s" "payload_key j \<noteq> activation_key i" "payload_key j \<noteq> delivery_key env d"
  using jti_no_colon [OF assms]
  by (auto simp: payload_key_def subject_key_def activation_key_def delivery_key_def split: option.splits)

lemma key_inject [simp]:
  "payload_key j = payload_key j' \<longleftrightarrow> j = j'" "subject_key s = subject_key s' \<longleftrightarrow> s = s'"
  "activation_key i = activation_key i' \<longleftrightarrow> i = i'"
  by (simp_all add: payload_key_def subject_key_def activation_key_def)

lemma keys_disjoint [simp]:
  "subject_key s \<noteq> activation_key i" "activation_key i \<noteq> subject_key s"
  "subject_key s \<noteq> delivery_key env d" "delivery_key env d \<noteq> subject_key s"
  "activation_key i \<noteq> delivery_key env d" "delivery_key env d \<noteq> activation_key i"
  by (auto simp: subject_key_def activation_key_def delivery_key_def split: option.splits)

section \<open>Histories\<close>

datatype invite_call = Create string invite_args | Begin string string | Complete string string bool

fun call_invite ::
  "'r invite_env \<Rightarrow> (string \<times> string) list \<times> int \<times> invite_call \<Rightarrow> 'r \<Rightarrow> 'r"
where
  "call_invite env (secrets, now, Create jti a) r = snd (create_invite_token env secrets now jti a r)"
| "call_invite env (secrets, now, Begin aid token) r = snd (begin_invite_activation env secrets now aid token r)"
| "call_invite env (secrets, now, Complete token aid ok) r = snd (complete_invite_activation env secrets now token aid ok r)"

definition run_invites :: "'r invite_env \<Rightarrow> ((string \<times> string) list \<times> int \<times> invite_call) list \<Rightarrow> 'r \<Rightarrow> 'r" where
  "run_invites env calls r = fold (call_invite env) calls r"

text \<open>New invitations draw ids of the right form and not the one in question.\<close>

fun draws_other :: "string \<Rightarrow> (string \<times> string) list \<times> int \<times> invite_call \<Rightarrow> bool" where
  "draws_other jti (secrets, now, Create j a) \<longleftrightarrow> valid_jti j \<and> j \<noteq> jti"
| "draws_other jti c \<longleftrightarrow> True"

text \<open>
  A predicate on the database that the writes of a call respect: deletions below the prefix of the
  invitations, states of activations, and what an issue writes.
\<close>

definition kept_by_writes :: "'r invite_env \<Rightarrow> string \<Rightarrow> ('r \<Rightarrow> bool) \<Rightarrow> bool" where
  "kept_by_writes env jti P \<longleftrightarrow>
     (\<forall>r k. P r \<longrightarrow> P (rd_del env k r))
     \<and> (\<forall>r i ttl v t. P r \<longrightarrow> P (rd_setex env (activation_key i) ttl v t r))
     \<and> (\<forall>r d ttl v t. P r \<longrightarrow> P (rd_setex env (delivery_key env d) ttl v t r))
     \<and> (\<forall>r j ttl v t. valid_jti j \<and> j \<noteq> jti \<longrightarrow> P r \<longrightarrow> P (rd_setex env (payload_key j) ttl v t r))
     \<and> (\<forall>r s j ttl t. valid_jti j \<and> j \<noteq> jti \<longrightarrow> P r \<longrightarrow> P (rd_setex env (subject_key s) ttl (Raw j) t r))"

lemma complete_keeps:
  "kept_by_writes env jti P \<Longrightarrow> P r \<Longrightarrow> P (snd (complete_invite_activation env secrets now token aid ok r))"
  by (auto simp: complete_invite_activation_def finish_script_def kept_by_writes_def
      split: sum.splits option.splits prod.splits if_splits)

lemma begin_script_keeps:
  "kept_by_writes env jti P \<Longrightarrow> P r \<Longrightarrow> P (snd (begin_script env now j subject aid r))"
  by (auto simp: begin_script_def kept_by_writes_def split: option.splits)

lemma begin_keeps:
  assumes "kept_by_writes env jti P" and "P r"
  shows "P (snd (begin_invite_activation env secrets now aid token r))"
proof -
  have "P (snd (begin_script env now j subject aid r))" for j subject
    using begin_script_keeps [OF assms] by blast
  then show ?thesis
    using assms(2) complete_keeps [OF assms(1)]
    by (auto simp: begin_invite_activation_def split: sum.splits option.splits prod.splits begin_reply.splits)
      (metis snd_conv)+
qed

lemma create_keeps:
  assumes "kept_by_writes env jti P" and "P r" and "valid_jti j" and "j \<noteq> jti"
  shows "P (snd (create_invite_token env secrets now j a r))"
proof -
  have "P (snd (issue_script env now j s (delivery_key env d) v w r))" for s d v w
    using assms by (auto simp: issue_script_def kept_by_writes_def Let_def split: option.splits)
  then show ?thesis
    using assms(2)
    by (auto simp: create_invite_token_def Let_def split: sum.splits prod.splits issue_reply.splits) (metis snd_conv)+
qed

lemma run_keeps:
  assumes "kept_by_writes env jti P" and "P r" and "list_all (draws_other jti) calls"
  shows "P (run_invites env calls r)"
proof -
  have "P (call_invite env c r)" if "P r" "draws_other jti c" for c r
    using that create_keeps [OF assms(1)] begin_keeps [OF assms(1)] complete_keeps [OF assms(1)]
    by (cases "(jti, c)" rule: draws_other.cases) auto
  then show ?thesis
    using assms(2,3) unfolding run_invites_def by (induction calls arbitrary: r) auto
qed

section \<open>Once only\<close>

definition spent :: "'r invite_env \<Rightarrow> string \<Rightarrow> 'r \<Rightarrow> bool" where
  "spent env jti r \<longleftrightarrow> (\<forall>now. rd_get env r now (payload_key jti) = None)"

lemma spent_kept: "redis_laws env \<Longrightarrow> valid_jti jti \<Longrightarrow> kept_by_writes env jti (spent env jti)"
  unfolding kept_by_writes_def spent_def
  by (intro conjI allI impI) (auto simp: get_del get_other payload_key_other)

text \<open>An invitation without a current value cannot be acquired or looked at.\<close>

lemma no_value_refused:
  assumes "current_value env now jti subject r = None"
    and "signed_token_data env secrets now token = Inr (Some (jti, subject, digest))"
  shows "(\<exists>a. fst (begin_invite_activation env secrets now aid token r) = Inr a \<and> act_state a \<noteq> Acquired)
    \<and> peek_invite_token env secrets now token r = Inr None"
  using assms
  by (auto simp: begin_invite_activation_def begin_script_def peek_invite_token_def no_activation_def state_result_def
      split: option.splits)

lemma token_fields_Some: "token_fields data = Some (jti, subject, digest) \<Longrightarrow> valid_jti jti"
proof (cases data)
  case (PDict d)
  assume "token_fields data = Some (jti, subject, digest)"
  then show ?thesis
    unfolding PDict token_fields_def
    by ((cases "field ''v'' d"; simp split: if_splits), (cases "field ''jti'' d"; simp),
        (cases "field ''subject'' d"; simp), (cases "field ''payload_sha256'' d"; simp split: if_splits))
qed (simp_all add: token_fields_def)

lemma token_jti:
  "signed_token_data env secrets now token = Inr (Some (jti, subject, digest)) \<Longrightarrow> valid_jti jti"
  by (auto simp: signed_token_data_def then_do_Inr_iff split: option.splits dest: token_fields_Some)

lemma acquired_spends:
  assumes "redis_laws env" and "signed_token_data env secrets now token = Inr (Some (jti, subject, digest))"
    and "begin_invite_activation env secrets now aid token r = (Inr act, r1)" and "act_state act = Acquired"
  shows "spent env jti r1"
proof -
  obtain v where v: "begin_script env now jti subject aid r = (Value_reply v, r1)"
    using assms(2-4)
    by (auto simp: begin_invite_activation_def no_activation_def state_result_def
        split: prod.splits begin_reply.splits option.splits if_splits)
  then show ?thesis
    using assms(1) payload_key_other [OF token_jti [OF assms(2)]]
    by (auto simp: begin_script_def spent_def get_del split: option.splits)
qed

text \<open>
  An invitation is activated at most once.  After one bearer has acquired it, no other call, with
  the same token or another one for the same invitation, at any time, under any secrets and after
  any sequence of further calls, acquires it or sees its payload, unless its random id is drawn
  again for a new invitation.
\<close>

theorem invite_activated_once:
  assumes "redis_laws env"
    and "signed_token_data env secrets now token = Inr (Some (jti, subject, digest))"
    and "begin_invite_activation env secrets now aid token r = (Inr act, r1)" and "act_state act = Acquired"
    and "list_all (draws_other jti) calls"
    and "signed_token_data env secrets' later token' = Inr (Some (jti, subject', digest'))"
  shows "(\<exists>a. fst (begin_invite_activation env secrets' later aid' token' (run_invites env calls r1)) = Inr a
        \<and> act_state a \<noteq> Acquired)
    \<and> peek_invite_token env secrets' later token' (run_invites env calls r1) = Inr None"
proof -
  have "spent env jti (run_invites env calls r1)"
    by (rule run_keeps [OF spent_kept [OF assms(1) token_jti [OF assms(2)]] acquired_spends [OF assms(1-4)] assms(5)])
  then have "current_value env later jti subject' (run_invites env calls r1) = None"
    by (simp add: spent_def current_value_def)
  from no_value_refused [OF this assms(6)] show ?thesis by blast
qed

section \<open>Superseded invitations\<close>

definition superseded :: "'r invite_env \<Rightarrow> string \<Rightarrow> string \<Rightarrow> 'r \<Rightarrow> bool" where
  "superseded env jti subject r \<longleftrightarrow> (\<forall>now. map_option text_of (rd_get env r now (subject_key subject)) \<noteq> Some jti)"

lemma superseded_kept:
  assumes "redis_laws env"
  shows "kept_by_writes env jti (superseded env jti subject)"
proof -
  have subject: "superseded env jti subject (rd_setex env (subject_key s) ttl (Raw j) t r)"
    if "superseded env jti subject r" "j \<noteq> jti" for s ttl j t r
    unfolding superseded_def
  proof
    fix now
    have "rd_get env (rd_setex env (subject_key s) ttl (Raw j) t r) now (subject_key subject)
        \<in> {rd_get env r now (subject_key subject), None, Some (Raw j)}"
      using get_set [OF assms] get_other [OF assms] by (cases "s = subject") auto
    then show "map_option text_of (rd_get env (rd_setex env (subject_key s) ttl (Raw j) t r) now (subject_key subject)) \<noteq> Some jti"
      using that unfolding superseded_def by force
  qed
  have "superseded env jti subject (rd_setex env k ttl v t r)"
    if "superseded env jti subject r" "subject_key subject \<noteq> k" for k ttl v t r
    using that by (simp add: superseded_def get_other [OF assms])
  moreover have "superseded env jti subject (rd_del env k r)" if "superseded env jti subject r" for k r
    using that by (simp add: superseded_def get_del [OF assms])
  ultimately show ?thesis
    using subject payload_key_other [THEN not_sym] unfolding kept_by_writes_def by simp
qed

text \<open>A new invitation: the issue script ran to its end.\<close>

definition newly_issued :: "'r invite_env \<Rightarrow> int \<Rightarrow> invite_args \<Rightarrow> 'r \<Rightarrow> bool" where
  "newly_issued env now a r \<longleftrightarrow> arg_issuance a = None \<or> rd_get env r now (delivery_key env (arg_issuance a)) = None"

lemma create_issued:
  assumes "create_invite_token env secrets now jti a r = (Inr token, r1)" and "newly_issued env now a r"
  shows "\<exists>secret v w. invite_secret secrets = Inr secret \<and> valid_payload (candidate_payload a)
    \<and> token = sign_token env secret now (token_document jti (subject_id env (candidate_payload a)) (payload_digest env (candidate_payload a)))
    \<and> v = Json_text (payload_document (candidate_payload a))
    \<and> w = Json_text (PDict [(KStr ''payload_sha256'', PStr (payload_digest env (candidate_payload a))), (KStr ''token'', PStr token)])
    \<and> issue_script env now jti (subject_id env (candidate_payload a)) (delivery_key env (arg_issuance a)) v w r = (Issued, r1)
    \<and> pred_option valid_issuance_id (arg_issuance a)"
proof -
  have "issue_script env now jti s (delivery_key env (arg_issuance a)) v w r \<noteq> (Cached c, r')" for s v w c r'
    using assms(2) by (auto simp: newly_issued_def issue_script_def delivery_key_def Let_def)
  then show ?thesis
    using assms(1)
    by (auto simp: create_invite_token_def Let_def split: sum.splits if_splits prod.splits issue_reply.splits)
qed

lemma issue_supersedes:
  assumes "redis_laws env" and "issue_script env now jti2 subject (delivery_key env d) v w r = (Issued, r1)" and "jti2 \<noteq> jti"
  shows "superseded env jti subject r1"
  unfolding superseded_def
proof
  fix later
  obtain r0 where "rd_get env r1 later (subject_key subject)
      = rd_get env (rd_setex env (subject_key subject) TOKEN_MAX_AGE_SECONDS (Raw jti2) now r0) later (subject_key subject)"
    using assms(2) by (auto simp: issue_script_def Let_def get_other [OF assms(1)] split: option.splits if_splits)
  then have "rd_get env r1 later (subject_key subject) \<in> {None, Some (Raw jti2)}"
    using get_set [OF assms(1)] by auto
  then show "map_option text_of (rd_get env r1 later (subject_key subject)) \<noteq> Some jti"
    using assms(3) by auto
qed

text \<open>
  A newer invitation takes the place of the older ones.  Once an invitation has been issued for a
  user, every token of that user with another id is refused for good, whatever calls follow that
  draw fresh ids: it shows no payload and cannot be activated.
\<close>

theorem invite_superseded:
  assumes "redis_laws env"
    and "create_invite_token env secrets now jti2 a r = (Inr token2, r1)" and "newly_issued env now a r"
    and "signed_token_data env secrets' later token = Inr (Some (jti, subject_id env (candidate_payload a), digest))"
    and "jti2 \<noteq> jti" and "list_all (draws_other jti) calls"
  shows "(\<exists>x. fst (begin_invite_activation env secrets' later aid token (run_invites env calls r1)) = Inr x
        \<and> act_state x \<noteq> Acquired)
    \<and> peek_invite_token env secrets' later token (run_invites env calls r1) = Inr None"
proof -
  let ?s = "subject_id env (candidate_payload a)"
  have "superseded env jti ?s r1"
    using create_issued [OF assms(2,3)] issue_supersedes [OF assms(1) _ assms(5)] by blast
  from run_keeps [OF superseded_kept [OF assms(1)] this assms(6)]
  have "current_value env later jti ?s (run_invites env calls r1) = None"
    by (auto simp: superseded_def current_value_def split: option.splits)
  from no_value_refused [OF this assms(4)] show ?thesis by blast
qed

section \<open>The life of an invitation\<close>

lemma texts_of_map: "texts_of (map PStr ts) = Some ts"
  by (induction ts) simp_all

lemma validated_document: "valid_payload p \<Longrightarrow> validated_payload (payload_document p) = Some p"
  by (cases p) (simp add: validated_payload_def payload_document_def has_keys_def field_def dict_get_or_def dict_get_def texts_of_map insert_commute Let_def)

lemma token_fields_document:
  "valid_jti j \<Longrightarrow> hex64 s \<Longrightarrow> hex64 d \<Longrightarrow> token_fields (token_document j s d) = Some (j, s, d)"
  by (simp add: token_fields_def token_document_def has_keys_def field_def dict_get_or_def dict_get_def insert_commute)

lemma document_text:
  "text_of (Json_text (payload_document p)) \<noteq> [] \<and> \<not> prefix ''STATE:'' (text_of (Json_text (payload_document p)))"
proof -
  have "\<exists>ts. dump_list (\<lambda>m e. []) (map PStr gs) = Some ts" for gs by (induction gs) auto
  then obtain ts where "dump_list (\<lambda>m e. []) (map PStr (inv_groups p)) = Some ts" by blast
  then obtain t where "plain_dumps (payload_document p) = CHR ''{'' # t"
    by (auto simp: plain_dumps_def payload_document_def)
  then show ?thesis by simp
qed

lemma issue_result:
  assumes "redis_laws env" and "issue_script env now jti subject (delivery_key env d) v w r = (Issued, r1)"
    and "valid_jti jti" and "now \<le> t" and "t < now + TOKEN_MAX_AGE_SECONDS"
  shows "current_value env t jti subject r1 = Some v"
    and "d \<noteq> None \<Longrightarrow> rd_get env r1 t (delivery_key env d) = Some w"
    and "(\<forall>t. rd_get env r t (activation_key i) = None) \<Longrightarrow> rd_get env r1 t (activation_key i) = None"
proof -
  note get = get_live [OF assms(1,4,5)] get_other [OF assms(1)] get_del [OF assms(1)]
  note keys = payload_key_other [OF assms(3)] payload_key_other [OF assms(3), THEN not_sym]
  have "delivery_key env d \<noteq> []" if "d \<noteq> None" using that by (auto simp: delivery_key_def)
  then show "d \<noteq> None \<Longrightarrow> rd_get env r1 t (delivery_key env d) = Some w"
    using assms(2) by (auto simp: issue_script_def Let_def get split: option.splits if_splits)
  have "rd_get env r1 t (payload_key jti) = Some v"
    using assms(2) by (auto simp: issue_script_def Let_def get keys split: option.splits if_splits)
  moreover have "rd_get env r1 t (subject_key subject) = Some (Raw jti)"
    using assms(2) by (auto simp: issue_script_def Let_def get split: option.splits if_splits)
  ultimately show "current_value env t jti subject r1 = Some v" by (simp add: current_value_def)
  show "(\<forall>t. rd_get env r t (activation_key i) = None) \<Longrightarrow> rd_get env r1 t (activation_key i) = None"
    using assms(2) by (auto simp: issue_script_def Let_def get keys split: option.splits if_splits)
qed

lemma begin_acquires:
  assumes "redis_laws env" and "signed_token_data env secrets t token = Inr (Some (jti, subject, digest))"
    and "rd_get env r t (activation_key jti) = None"
    and "current_value env t jti subject r = Some (Json_text (payload_document p))"
    and "valid_payload p" and "payload_matches env p subject digest"
  shows "\<exists>r2. begin_invite_activation env secrets t aid token r
      = (Inr \<lparr>act_state = Acquired, act_payload = Some p, act_id = aid\<rparr>, r2)
    \<and> (\<forall>u. t \<le> u \<longrightarrow> u < t + TOKEN_MAX_AGE_SECONDS \<longrightarrow> rd_get env r2 u (activation_key jti) = Some (Raw (''ACTIVATING:'' @ aid)))"
proof -
  note get = get_live [OF assms(1)] get_other [OF assms(1)] get_del [OF assms(1)]
  note keys = payload_key_other [OF token_jti [OF assms(2)]] payload_key_other [OF token_jti [OF assms(2)], THEN not_sym]
  show ?thesis
    using assms(2-6) document_text [of p] validated_document [OF assms(5)]
    by (auto simp: begin_invite_activation_def begin_script_def parse_payload_def get keys)
qed

lemma finish_activation:
  assumes "redis_laws env" and "signed_token_data env secrets u token = Inr (Some (jti, subject, digest))"
    and "rd_get env r u (activation_key jti) = Some (Raw (''ACTIVATING:'' @ aid))" and "valid_jti aid"
  shows "\<exists>r2. complete_invite_activation env secrets u token aid ok r = (Inr True, r2)
    \<and> (\<forall>x. u \<le> x \<longrightarrow> x < u + TOKEN_MAX_AGE_SECONDS \<longrightarrow>
         rd_get env r2 x (activation_key jti) = Some (Raw (if ok then ''SUCCEEDED'' else ''FAILED'')))"
  using assms by (auto simp: complete_invite_activation_def finish_script_def get_live)

lemma begin_state:
  assumes "signed_token_data env secrets u token = Inr (Some (jti, subject, digest))"
    and "rd_get env r u (activation_key jti) = Some (Raw s)"
  shows "begin_invite_activation env secrets u aid token r = (Inr (state_result s), r)"
  using assms by (simp add: begin_invite_activation_def begin_script_def)

lemma issue_then_begin:
  assumes "redis_laws env" and "create_invite_token env secrets now jti a r = (Inr token, r1)" and "newly_issued env now a r"
    and "\<forall>t. rd_get env r t (activation_key jti) = None"
    and "signed_token_data env secrets t token
           = Inr (Some (jti, subject_id env (candidate_payload a), payload_digest env (candidate_payload a)))"
    and "now \<le> t" and "t < now + TOKEN_MAX_AGE_SECONDS"
  shows "\<exists>r2. begin_invite_activation env secrets t aid token r1
        = (Inr \<lparr>act_state = Acquired, act_payload = Some (candidate_payload a), act_id = aid\<rparr>, r2)
      \<and> (\<forall>u. t \<le> u \<longrightarrow> u < t + TOKEN_MAX_AGE_SECONDS \<longrightarrow> rd_get env r2 u (activation_key jti) = Some (Raw (''ACTIVATING:'' @ aid)))"
proof -
  from create_issued [OF assms(2,3)] obtain w where p: "valid_payload (candidate_payload a)"
    and run: "issue_script env now jti (subject_id env (candidate_payload a)) (delivery_key env (arg_issuance a))
        (Json_text (payload_document (candidate_payload a))) w r = (Issued, r1)" by blast
  note issued = issue_result [OF assms(1) run token_jti [OF assms(5)] assms(6,7)]
  show ?thesis
    using begin_acquires [OF assms(1,5) issued(3) [OF assms(4)] issued(1) p] by (simp add: payload_matches_def)
qed

text \<open>
  The life of an invitation within its 72 hours, at instants t <= u <= x after it was issued.
  The token shows the payload; repeating the issue under the same issuance id returns the same token
  and writes nothing; the first activation acquires the payload and a second one is told that it is
  running; the holder of the activation records the outcome once, a stranger cannot, and from then on
  every activation is told the outcome.
\<close>

theorem invite_life:
  assumes "redis_laws env"
    and "create_invite_token env secrets now jti a r = (Inr token, r1)" and "newly_issued env now a r"
    and "\<forall>t. rd_get env r t (activation_key jti) = None"
    and "list_all (\<lambda>t. signed_token_data env secrets t token
           = Inr (Some (jti, subject_id env (candidate_payload a), payload_digest env (candidate_payload a)))) [t, u, x]"
    and "now \<le> t" and "t \<le> u" and "u \<le> x" and "x < now + TOKEN_MAX_AGE_SECONDS"
    and "valid_jti aid" and "valid_jti other" and "other \<noteq> aid"
  shows "peek_invite_token env secrets t token r1 = Inr (Some (candidate_payload a))
    \<and> (arg_issuance a \<noteq> None \<longrightarrow> list_all (\<lambda>c. code c \<le> 127) (payload_digest env (candidate_payload a)) \<longrightarrow>
         create_invite_token env secrets t jti' a r1 = (Inr token, r1))
    \<and> (\<exists>r2 r3. begin_invite_activation env secrets t aid token r1
           = (Inr \<lparr>act_state = Acquired, act_payload = Some (candidate_payload a), act_id = aid\<rparr>, r2)
         \<and> begin_invite_activation env secrets u other token r2 = (Inr (no_activation Activating), r2)
         \<and> complete_invite_activation env secrets u token other ok r2 = (Inr False, r2)
         \<and> complete_invite_activation env secrets u token aid ok r2 = (Inr True, r3)
         \<and> begin_invite_activation env secrets x other token r3
             = (Inr (no_activation (if ok then Activation_succeeded else Activation_failed)), r3)
         \<and> complete_invite_activation env secrets x token aid again r3 = (Inr False, r3))"
proof -
  let ?p = "candidate_payload a"
  from create_issued [OF assms(2,3)] obtain secret v w where
    secret: "invite_secret secrets = Inr secret" and p: "valid_payload ?p" "pred_option valid_issuance_id (arg_issuance a)"
    and v: "v = Json_text (payload_document ?p)"
    and w: "w = Json_text (PDict [(KStr ''payload_sha256'', PStr (payload_digest env ?p)), (KStr ''token'', PStr token)])"
    and run: "issue_script env now jti (subject_id env ?p) (delivery_key env (arg_issuance a)) v w r = (Issued, r1)"
    by blast
  have data: "signed_token_data env secrets y token = Inr (Some (jti, subject_id env ?p, payload_digest env ?p))"
    if "y \<in> {t, u, x}" for y using assms(5) that by auto
  have jti: "valid_jti jti" by (rule token_jti [OF data [of t]]) simp
  have win: "t < now + TOKEN_MAX_AGE_SECONDS" using assms(7-9) by simp
  note issued = issue_result [OF assms(1) run jti assms(6) win]
  have matches: "payload_matches env ?p (subject_id env ?p) (payload_digest env ?p)" by (simp add: payload_matches_def)
  have peek: "peek_invite_token env secrets t token r1 = Inr (Some ?p)"
    using data [of t] issued(1) v document_text [of ?p] validated_document [OF p(1)] matches
    by (simp add: peek_invite_token_def parse_payload_def)
  have replay: "create_invite_token env secrets t jti' a r1 = (Inr token, r1)"
    if "arg_issuance a \<noteq> None" "list_all (\<lambda>c. code c \<le> 127) (payload_digest env ?p)"
  proof -
    have "delivery_key env (arg_issuance a) \<noteq> []" using that(1) by (auto simp: delivery_key_def)
    moreover have "cached_token env (payload_digest env ?p) w = Inr token"
      using that(2) by (auto simp: cached_token_def w has_keys_def field_def dict_get_or_def dict_get_def list_ex_iff list_all_iff Let_def)
    ultimately show ?thesis
      using issued(2) [OF that(1)] secret p by (simp add: create_invite_token_def issue_script_def Let_def)
  qed
  obtain r2 where r2: "begin_invite_activation env secrets t aid token r1
        = (Inr \<lparr>act_state = Acquired, act_payload = Some ?p, act_id = aid\<rparr>, r2)"
      and busy: "rd_get env r2 u (activation_key jti) = Some (Raw (''ACTIVATING:'' @ aid))"
    using issue_then_begin [OF assms(1-4) data [of t] assms(6) win, of aid] assms(6-9) by auto
  obtain r3 where r3: "complete_invite_activation env secrets u token aid ok r2 = (Inr True, r3)"
      and over: "rd_get env r3 x (activation_key jti) = Some (Raw (if ok then ''SUCCEEDED'' else ''FAILED''))"
    using finish_activation [OF assms(1) data [of u] busy assms(10), of ok] assms(6-9) by auto
  have "begin_invite_activation env secrets u other token r2 = (Inr (no_activation Activating), r2)"
    using begin_state [OF data [of u] busy] by (simp add: state_result_def)
  moreover have "complete_invite_activation env secrets u token other ok r2 = (Inr False, r2)"
    using data [of u] busy assms(11,12) by (simp add: complete_invite_activation_def finish_script_def)
  moreover have "begin_invite_activation env secrets x other token r3
      = (Inr (no_activation (if ok then Activation_succeeded else Activation_failed)), r3)"
    using begin_state [OF data [of x] over] by (simp add: state_result_def)
  moreover have "complete_invite_activation env secrets x token aid again r3 = (Inr False, r3)"
    using data [of x] over assms(10) by (simp add: complete_invite_activation_def finish_script_def)
  ultimately show ?thesis using peek replay r2 r3 by blast
qed

section \<open>A concrete server\<close>

text \<open>Keys with values and expiry; tokens that name their id; a constant digest.\<close>

definition zeros :: string where
  "zeros = replicate 64 (CHR ''0'')"

definition sample_invites :: "(string \<times> redis_text \<times> int) list invite_env" where
  "sample_invites =
     \<lparr>rd_get = (\<lambda>r now k. case map_of r k of None \<Rightarrow> None | Some (v, e) \<Rightarrow> if now < e then Some v else None),
      rd_setex = (\<lambda>k ttl v t r. (k, v, t + ttl) # r),
      rd_del = (\<lambda>k r. filter (\<lambda>x. fst x \<noteq> k) r),
      sign_token = (\<lambda>s t data. case token_fields data of None \<Rightarrow> [] | Some (j, d) \<Rightarrow> CHR ''t'' # j),
      open_token = (\<lambda>s now token. Some (token_document (tl token) zeros zeros)),
      invite_sha256 = (\<lambda>t. zeros), invite_hmac = (\<lambda>k t. zeros),
      value_texts = \<lparr>float_text = (\<lambda>f. []), other_text = []\<rparr>\<rparr>"

definition sample_secrets :: "(string \<times> string) list" where
  "sample_secrets = [(''INVITE_TOKEN_SECRET'', replicate 32 (CHR ''k''))]"

definition sample_invite :: invite_args where
  "sample_invite = \<lparr>arg_email = '' Ann@example.org'', arg_user_id = ''ann'', arg_display_name = None,
     arg_groups = [''media''], arg_issuance = Some ''issue-01''\<rparr>"

definition jti_a :: string where
  "jti_a = replicate 16 (CHR ''a'')"

definition jti_b :: string where
  "jti_b = replicate 16 (CHR ''b'')"

lemma map_of_without: "map_of (filter (\<lambda>x. fst x \<noteq> k) r) k' = (if k' = k then None else map_of r k')"
  by (induction r) auto

lemma sample_redis_laws: "redis_laws sample_invites"
  by (auto simp: redis_laws_def sample_invites_def map_of_without split: option.splits)

lemma sample_ids: "valid_jti jti_a" "valid_jti jti_b" "jti_a \<noteq> jti_b" "hex64 zeros"
  by code_simp+

lemma sample_signed:
  "valid_jti j \<Longrightarrow> signed_token_data sample_invites sample_secrets t (CHR ''t'' # j) = Inr (Some (j, zeros, zeros))"
proof -
  assume "valid_jti j"
  then have "token_fields (token_document j zeros zeros) = Some (j, zeros, zeros)"
    by (simp add: token_fields_document sample_ids)
  moreover have "invite_secret sample_secrets = Inr (replicate 32 (CHR ''k''))" by code_simp
  ultimately show ?thesis by (simp add: signed_token_data_def sample_invites_def)
qed

definition sample_issued :: "(string \<times> redis_text \<times> int) list" where
  "sample_issued = snd (create_invite_token sample_invites sample_secrets 10 jti_a sample_invite [])"

lemma sample_create:
  "create_invite_token sample_invites sample_secrets 10 jti_a sample_invite [] = (Inr (CHR ''t'' # jti_a), sample_issued)"
proof -
  have secret: "invite_secret sample_secrets = Inr (replicate 32 (CHR ''k''))" by code_simp
  have "valid_issuance_id ''issue-01''" by code_simp
  then have ok: "valid_payload (candidate_payload sample_invite)" "pred_option valid_issuance_id (arg_issuance sample_invite)"
    by (code_simp, simp add: sample_invite_def)
  have "issue_script sample_invites 10 jti_a s (delivery_key sample_invites i) v w [] \<noteq> (Cached c, r')" for s i v w c r'
    by (simp add: issue_script_def sample_invites_def Let_def)
  moreover have "sign_token sample_invites k t (token_document jti_a (subject_id sample_invites p) (payload_digest sample_invites p))
      = CHR ''t'' # jti_a" for k t p
    by (simp add: sample_invites_def subject_id_def payload_digest_def token_fields_document sample_ids)
  ultimately have "fst (create_invite_token sample_invites sample_secrets 10 jti_a sample_invite []) = Inr (CHR ''t'' # jti_a)"
    using ok by (auto simp: create_invite_token_def secret Let_def split: prod.splits issue_reply.splits)
  then show ?thesis unfolding sample_issued_def by (metis prod.collapse)
qed

lemma sample_new: "newly_issued sample_invites 10 sample_invite []"
  by (simp add: newly_issued_def sample_invites_def)

lemma sample_names: "subject_id sample_invites p = zeros" "payload_digest sample_invites p = zeros"
  by (simp_all add: subject_id_def payload_digest_def sample_invites_def)

lemma sample_acquired:
  "\<exists>r2. begin_invite_activation sample_invites sample_secrets 20 jti_b (CHR ''t'' # jti_a) sample_issued
     = (Inr \<lparr>act_state = Acquired, act_payload = Some (candidate_payload sample_invite), act_id = jti_b\<rparr>, r2)"
proof -
  have "\<forall>t. rd_get sample_invites [] t (activation_key jti_a) = None" by (simp add: sample_invites_def)
  from issue_then_begin [OF sample_redis_laws sample_create sample_new this, of 20 jti_b] show ?thesis
    by (auto simp: sample_signed sample_names sample_ids TOKEN_MAX_AGE_SECONDS_def)
qed

theorem invite_activated_once_witness:
  "\<exists>r2 x. begin_invite_activation sample_invites sample_secrets 20 jti_b (CHR ''t'' # jti_a) sample_issued
      = (Inr \<lparr>act_state = Acquired, act_payload = Some (candidate_payload sample_invite), act_id = jti_b\<rparr>, r2)
    \<and> fst (begin_invite_activation sample_invites sample_secrets 40 jti_a (CHR ''t'' # jti_a)
        (run_invites sample_invites [(sample_secrets, 30, Create jti_b sample_invite)] r2)) = Inr x
    \<and> act_state x \<noteq> Acquired"
proof -
  obtain r2 where r2: "begin_invite_activation sample_invites sample_secrets 20 jti_b (CHR ''t'' # jti_a) sample_issued
      = (Inr \<lparr>act_state = Acquired, act_payload = Some (candidate_payload sample_invite), act_id = jti_b\<rparr>, r2)"
    using sample_acquired by blast
  have "list_all (draws_other jti_a) [(sample_secrets, 30, Create jti_b sample_invite)]"
    using sample_ids by auto
  from invite_activated_once [OF sample_redis_laws sample_signed [OF sample_ids(1)] r2 _ this sample_signed [OF sample_ids(1)], of 40 jti_a]
  show ?thesis using r2 by auto
qed

theorem invite_superseded_witness:
  "\<exists>x. fst (begin_invite_activation sample_invites sample_secrets 20 jti_b (CHR ''t'' # jti_b)
      (run_invites sample_invites [(sample_secrets, 15, Complete (CHR ''t'' # jti_b) jti_b True)] sample_issued)) = Inr x
    \<and> act_state x \<noteq> Acquired"
proof -
  have "signed_token_data sample_invites sample_secrets 20 (CHR ''t'' # jti_b)
      = Inr (Some (jti_b, subject_id sample_invites (candidate_payload sample_invite), zeros))"
    by (simp add: sample_signed sample_names sample_ids)
  from invite_superseded [OF sample_redis_laws sample_create sample_new this sample_ids(3),
      of "[(sample_secrets, 15, Complete (CHR ''t'' # jti_b) jti_b True)]" jti_b]
  show ?thesis by simp
qed

theorem invite_life_witness:
  "peek_invite_token sample_invites sample_secrets 20 (CHR ''t'' # jti_a) sample_issued = Inr (Some (candidate_payload sample_invite))"
proof -
  have "\<forall>t. rd_get sample_invites [] t (activation_key jti_a) = None" by (simp add: sample_invites_def)
  from invite_life [OF sample_redis_laws sample_create sample_new this, of 20 20 20 jti_b jti_a] show ?thesis
    by (simp add: sample_signed sample_names sample_ids TOKEN_MAX_AGE_SECONDS_def)
qed

end
