(* ===== verification/Url_Split.thy ===== *)
theory Url_Split
  imports Py_Documents
begin

text \<open>
  \<open>urllib.parse.urlsplit\<close> and the attributes of its result, as the manifest schema and the update
  plans use them, on texts of code points below 256 (none of which decomposes into a delimiter, so
  that the Unicode check of the network location accepts them).  The check of an address in brackets
  by \<open>ipaddress\<close> is the argument \<open>ip6\<close>.  None is a \<open>ValueError\<close>.
\<close>

record split_url =
  url_scheme :: string
  url_netloc :: string
  url_path :: string
  url_query :: string
  url_fragment :: string

definition scheme_char :: "char \<Rightarrow> bool" where
  "scheme_char c \<longleftrightarrow> is_lower c \<or> is_upper c \<or> is_digit c \<or> c \<in> {CHR ''+'', CHR ''-'', CHR ''.''}"

definition clean_url :: "string \<Rightarrow> string" where
  "clean_url u = filter (\<lambda>c. code c \<notin> {9, 10, 13}) (dropWhile (\<lambda>c. code c \<le> 32) u)"

definition split_scheme :: "string \<Rightarrow> string \<times> string" where
  "split_scheme u =
     (case partition_at (CHR '':'') u of
        (s, found, rest) \<Rightarrow>
          if found \<and> s \<noteq> [] \<and> (is_lower (hd s) \<or> is_upper (hd s)) \<and> list_all scheme_char s then (lower s, rest)
          else ([], u))"

definition split_netloc :: "string \<Rightarrow> string \<times> string" where
  "split_netloc u =
     (if prefix ''//'' u
      then (takeWhile (\<lambda>c. c \<notin> {CHR ''/'', CHR ''?'', CHR ''#''}) (drop 2 u),
            dropWhile (\<lambda>c. c \<notin> {CHR ''/'', CHR ''?'', CHR ''#''}) (drop 2 u))
      else ([], u))"

definition brackets_ok :: "(string \<Rightarrow> bool) \<Rightarrow> string \<Rightarrow> bool" where
  "brackets_ok ip6 netloc \<longleftrightarrow>
     (CHR ''['' \<in> set netloc) = (CHR '']'' \<in> set netloc)
     \<and> (CHR ''['' \<in> set netloc \<longrightarrow> ip6 (fst (partition_at (CHR '']'') (snd (snd (partition_at (CHR ''['') netloc))))))"

definition urlsplit :: "(string \<Rightarrow> bool) \<Rightarrow> string \<Rightarrow> split_url option" where
  "urlsplit ip6 u =
     (case split_scheme (clean_url u) of
        (scheme, u1) \<Rightarrow>
          (case split_netloc u1 of
             (netloc, u2) \<Rightarrow>
               if \<not> brackets_ok ip6 netloc then None
               else (case partition_at (CHR ''#'') u2 of
                       (u3, f, fragment) \<Rightarrow>
                         (case partition_at (CHR ''?'') u3 of
                            (path, q, query) \<Rightarrow>
                              Some \<lparr>url_scheme = scheme, url_netloc = netloc, url_path = path,
                                    url_query = query, url_fragment = fragment\<rparr>))))"

text \<open>\<open>username\<close> and \<open>password\<close> (None when absent), the host and the port.\<close>

definition user_info :: "string \<Rightarrow> string option \<times> string option" where
  "user_info netloc =
     (if CHR ''@'' \<notin> set netloc then (None, None)
      else (let info = rev (snd (snd (partition_at (CHR ''@'') (rev netloc))))
            in case partition_at (CHR '':'') info of
                 (user, found, pass) \<Rightarrow> (Some user, if found then Some pass else None)))"

definition host_info :: "string \<Rightarrow> string \<times> string" where
  "host_info netloc =
     (let hostinfo = rev (fst (partition_at (CHR ''@'') (rev netloc)))
      in case partition_at (CHR ''['') hostinfo of
           (before, True, bracketed) \<Rightarrow>
             (case partition_at (CHR '']'') bracketed of
                (host, found, tail) \<Rightarrow> (host, snd (snd (partition_at (CHR '':'') tail))))
         | (before, False, bracketed) \<Rightarrow>
             (case partition_at (CHR '':'') hostinfo of (host, found, port) \<Rightarrow> (host, port)))"

definition port_ok :: "string \<Rightarrow> bool" where
  "port_ok port \<longleftrightarrow>
     port = [] \<or> (list_all is_digit port \<and> digits_number port \<le> 65535)"

definition public_https :: "(string \<Rightarrow> bool) \<Rightarrow> string \<Rightarrow> bool option" where
  "public_https ip6 u =
     map_option (\<lambda>p. url_scheme p = ''https'' \<and> url_netloc p \<noteq> []
       \<and> (case user_info (url_netloc p) of
            (user, pass) \<Rightarrow> user \<in> {None, Some []} \<and> pass \<in> {None, Some []})) (urlsplit ip6 u)"

end
