(* ===== verification/Update_Plans.thy ===== *)
theory Update_Plans
  imports Release_State Python_Regex Url_Split
begin

text \<open>
  From discovered image versions to a release: \<open>core/ops/version_policy.py\<close>,
  \<open>core/images/references.py\<close>, \<open>core/ops/update_plan.py\<close> and the pure part of
  \<open>core/ops/release_update.py\<close>.

  \<open>ip6_literal\<close> is the check of an address in brackets that \<open>urlsplit\<close> calls.  A registry is the JSON value
  that \<open>docker buildx imagetools inspect\<close> prints for an image, or None when the command fails or
  prints something else.  Version numbers have at most the digits \<open>int()\<close> accepts.
\<close>

section \<open>Version policy\<close>

text \<open>\<open>_VERSION_TAG\<close>: an optional v, two or more numbers, and a flavor after a dash or underscore.\<close>

definition version_number :: "string \<Rightarrow> bool" where
  "version_number s \<longleftrightarrow> s \<noteq> [] \<and> list_all is_digit s"

definition flavor_text :: "string \<Rightarrow> bool" where
  "flavor_text s \<longleftrightarrow>
     s = [] \<or> (hd s \<in> {CHR ''-'', CHR ''_''} \<and> tl s \<noteq> [] \<and> char_of (10 :: nat) \<notin> set (tl s))"

record version_tag =
  tag_prefix :: string
  tag_version :: "int list"
  tag_flavor :: string

definition parse_version_tag :: "string \<Rightarrow> version_tag option" where
  "parse_version_tag t =
     (let pre = (if prefix ''v'' t then ''v'' else []);
          rest = drop (length pre) t;
          number = takeWhile (\<lambda>c. is_digit c \<or> c = CHR ''.'') rest;
          flavor = dropWhile (\<lambda>c. is_digit c \<or> c = CHR ''.'') rest;
          parts = split_on (CHR ''.'') number
      in if length parts \<ge> 2 \<and> list_all version_number parts \<and> flavor_text flavor
         then Some \<lparr>tag_prefix = pre, tag_version = map digits_number parts, tag_flavor = flavor\<rparr> else None)"

definition compatible :: "version_tag \<Rightarrow> version_tag \<Rightarrow> bool" where
  "compatible current candidate \<longleftrightarrow>
     tag_version candidate ! 0 = tag_version current ! 0
     \<and> (tag_version current ! 0 \<noteq> 0 \<or> tag_version candidate ! 1 = tag_version current ! 1)
     \<and> tag_version current < tag_version candidate
     \<and> tag_prefix candidate = tag_prefix current
     \<and> tag_flavor candidate = tag_flavor current"

definition compatible_tags :: "version_tag \<Rightarrow> string list \<Rightarrow> (int list \<times> string) list" where
  "compatible_tags current tags =
     concat (map (\<lambda>t. case parse_version_tag t of
                        None \<Rightarrow> []
                      | Some v \<Rightarrow> if compatible current v then [(tag_version v, t)] else []) tags)"

definition select_latest_compatible :: "string list \<Rightarrow> string \<Rightarrow> string option" where
  "select_latest_compatible tags current_tag =
     (case parse_version_tag current_tag of
        None \<Rightarrow> None
      | Some current \<Rightarrow>
          (case compatible_tags current tags of
             [] \<Rightarrow> None
           | x # xs \<Rightarrow> Some (snd (fold max xs x))))"

section \<open>Image references\<close>

definition repository_char :: "char \<Rightarrow> bool" where
  "repository_char c \<longleftrightarrow> is_lower c \<or> is_digit c"

definition repository_part :: rx where
  "repository_part =
     Seq (Plus (Chr repository_char)) (Star (Seq (Chr (\<lambda>c. c \<in> {CHR ''.'', CHR ''_'', CHR ''-''})) (Plus (Chr repository_char))))"

definition repository_rx :: rx where
  "repository_rx =
     Seq repository_part
      (Seq (Opt (Seq (lit '':'') (Seq (Chr (\<lambda>c. is_digit c \<and> c \<noteq> CHR ''0''))
                  (Seq (Opt (Chr is_digit)) (Seq (Opt (Chr is_digit)) (Seq (Opt (Chr is_digit)) (Opt (Chr is_digit))))))))
        (Star (Seq (lit ''/'') repository_part)))"

definition full_match :: "rx \<Rightarrow> string \<Rightarrow> bool" where
  "full_match r s \<longleftrightarrow> list_ex (\<lambda>q. snd q = []) (ends r ([], s))"

record image_reference =
  ref_repository :: string
  ref_tag :: string
  ref_digest :: string

definition version_ref :: "image_reference \<Rightarrow> string" where
  "version_ref r = ref_repository r @ '':'' @ ref_tag r"

definition immutable_ref :: "image_reference \<Rightarrow> string" where
  "immutable_ref r = version_ref r @ ''@'' @ ref_digest r"

definition parse_image_version_reference :: "string \<Rightarrow> image_reference option" where
  "parse_image_version_reference v =
     (if length v > 512 \<or> CHR ''@'' \<in> set v then None
      else if rfind (CHR '':'') v \<le> rfind (CHR ''/'') v then None
      else (let repo = take (nat (rfind (CHR '':'') v)) v; tag = drop (nat (rfind (CHR '':'') v + 1)) v
            in if \<not> full_match repository_rx repo \<or> \<not> valid_tag tag then None
               else if lower tag = ''latest'' then None
               else Some \<lparr>ref_repository = repo, ref_tag = tag, ref_digest = []\<rparr>))"

definition parse_immutable_image_reference :: "string \<Rightarrow> image_reference option" where
  "parse_immutable_image_reference v =
     (if length v > 512 \<or> length (filter (\<lambda>c. c = CHR ''@'') v) \<noteq> 1 then None
      else (case partition_at (CHR ''@'') v of
              (tagged, found, digest) \<Rightarrow>
                (case parse_image_version_reference tagged of
                   None \<Rightarrow> None
                 | Some r \<Rightarrow>
                     if prefix ''sha256:'' digest \<and> hex64 (remove_prefix ''sha256:'' digest)
                     then Some (r\<lparr>ref_digest := digest\<rparr>) else None)))"

section \<open>Update plans\<close>

datatype update_error =
    Bad_plan_time | Bad_report | Bad_entry | Bad_candidate | Stale_report | Incompatible | Bad_reference
  | Tag_mismatch | Bad_changelog | Url_value_error | Bad_digest | No_tag | Cache_unsafe | Cache_large
  | Cache_not_json | Cache_envelope | Cache_entries | Cache_time | No_services

record update_env =
  release_part :: release_env
  ip6_literal :: "string \<Rightarrow> bool"

record update_candidate =
  uc_service :: string
  uc_current :: string
  uc_target :: string
  uc_current_image :: string
  uc_target_image :: string
  uc_changelog_url :: string

record update_plan =
  plan_revision :: string
  plan_checked_at :: string
  plan_candidates :: "update_candidate list"

definition target_image :: "string \<Rightarrow> string \<Rightarrow> string \<Rightarrow> update_error + string" where
  "target_image img current target =
     (if img = [] \<or> length img > 512 \<or> sublist ''${'' img \<or> \<not> valid_tag target then Inl Bad_reference
      else (case (if CHR ''@'' \<in> set img then parse_immutable_image_reference img
                  else parse_image_version_reference img) of
              None \<Rightarrow> Inl Bad_reference
            | Some r \<Rightarrow>
                if ref_tag r \<noteq> current then Inl Tag_mismatch else Inr (ref_repository r @ '':'' @ target)))"

definition changelog :: "update_env \<Rightarrow> pyval \<Rightarrow> update_error + string" where
  "changelog env v =
     (case v of
        PNone \<Rightarrow> Inr []
      | PStr s \<Rightarrow>
          if s = [] then Inr []
          else if length s > 2048 \<or> list_ex (\<lambda>c. code c < 32) s then Inl Bad_changelog
          else (case public_https (ip6_literal env) s of
                  None \<Rightarrow> Inl Url_value_error | Some b \<Rightarrow> if b then Inr s else Inl Bad_changelog)
      | _ \<Rightarrow> Inl Bad_changelog)"

definition update_entry ::
  "update_env \<Rightarrow> (string \<times> string) list \<Rightarrow> string list \<Rightarrow> document \<Rightarrow> update_error + update_candidate"
where
  "update_entry env current_images seen item =
     (case (field ''service'' item, field ''current'' item, field ''latest'' item, field ''image'' item) of
        (PStr service, PStr current, PStr target, PStr img) \<Rightarrow>
          if \<not> slug service \<or> service \<in> set seen then Inl Bad_candidate
          else if map_of current_images service \<noteq> Some img then Inl Stale_report
          else if select_latest_compatible [target] current \<noteq> Some target then Inl Incompatible
          else then_do (target_image img current target) (\<lambda>ti.
               then_do (changelog env (field ''changelog_url'' item)) (\<lambda>url.
                 Inr \<lparr>uc_service = service, uc_current = current, uc_target = target, uc_current_image = img,
                      uc_target_image = ti, uc_changelog_url = url\<rparr>))
      | _ \<Rightarrow> Inl Bad_candidate)"

fun update_entries ::
  "update_env \<Rightarrow> (string \<times> string) list \<Rightarrow> string list \<Rightarrow> pyval list \<Rightarrow> update_error + update_candidate list"
where
  "update_entries env current_images seen [] = Inr []"
| "update_entries env current_images seen (PDict item # items) =
     (if \<not> truthy (field ''needs_update'' item) then update_entries env current_images seen items
      else then_do (update_entry env current_images seen item) (\<lambda>c.
           then_do (update_entries env current_images (uc_service c # seen) items) (\<lambda>cs. Inr (c # cs))))"
| "update_entries env current_images seen (_ # items) = Inl Bad_entry"

definition candidate_document :: "update_candidate \<Rightarrow> pyval" where
  "candidate_document c = PDict
     [(KStr ''service'', PStr (uc_service c)), (KStr ''current'', PStr (uc_current c)),
      (KStr ''target'', PStr (uc_target c)), (KStr ''current_image'', PStr (uc_current_image c)),
      (KStr ''target_image'', PStr (uc_target_image c)), (KStr ''changelog_url'', PStr (uc_changelog_url c))]"

definition plan_revision_of :: "update_env \<Rightarrow> string \<Rightarrow> update_candidate list \<Rightarrow> string" where
  "plan_revision_of env at cs =
     (case revision_of (release_part env)
        (PDict [(KStr ''checked_at'', PStr at), (KStr ''candidates'', PList (map candidate_document cs))]) of
        None \<Rightarrow> [] | Some r \<Rightarrow> r)"

definition build_update_plan ::
  "update_env \<Rightarrow> pyval \<Rightarrow> (string \<times> string) list \<Rightarrow> string \<Rightarrow> update_error + update_plan"
where
  "build_update_plan env report current_images at =
     (if iso_zone (release_part env) at \<noteq> Some True then Inl Bad_plan_time
      else (case report of
              PList items \<Rightarrow>
                if length items > 512 then Inl Bad_report
                else then_do (update_entries env current_images [] items) (\<lambda>cs.
                  (let ordered = sort_key uc_service cs
                   in Inr \<lparr>plan_revision = plan_revision_of env at ordered, plan_checked_at = at,
                           plan_candidates = ordered\<rparr>))
            | _ \<Rightarrow> Inl Bad_report))"

definition MAX_CACHE_BYTES :: nat where
  "MAX_CACHE_BYTES = 2 * 1024 * 1024"

definition cache_report :: "(pyval \<Rightarrow> string option) \<Rightarrow> document \<Rightarrow> update_error + (string \<times> pyval) option" where
  "cache_report stamp d =
     (case field ''updates'' d of
        PList us \<Rightarrow>
          (case stamp (field ''cached_at'' d) of None \<Rightarrow> Inl Cache_time | Some at \<Rightarrow> Inr (Some (at, PList us)))
      | _ \<Rightarrow> Inl Cache_entries)"

text \<open>
  \<open>load_update_cache\<close>; \<open>stamp\<close> is \<open>datetime.fromtimestamp(float(v), UTC).isoformat()\<close>, None when it
  raises.
\<close>

definition load_update_cache ::
  "(pyval \<Rightarrow> string option) \<Rightarrow> release_file \<Rightarrow> update_error + (string \<times> pyval) option"
where
  "load_update_cache stamp f =
     (case f of
        No_release \<Rightarrow> Inr None
      | Unsafe_release \<Rightarrow> Inl Cache_unsafe
      | Garbage_release \<Rightarrow> Inl Cache_not_json
      | Release_text jf \<Rightarrow>
          if text_size jf > MAX_CACHE_BYTES then Inl Cache_large
          else (case decoded jf of
                  PDict d \<Rightarrow>
                    (case field ''cached_at'' d of
                       PInt _ \<Rightarrow> cache_report stamp d
                     | PBool _ \<Rightarrow> cache_report stamp d
                     | PFloat _ \<Rightarrow> cache_report stamp d
                     | _ \<Rightarrow> Inl Cache_envelope)
                | _ \<Rightarrow> Inl Cache_envelope))"

text \<open>
  \<open>load_current_update_plan\<close>: \<open>assembled\<close> are the images of the Compose model, None when it has no
  services; those of services in the active release are replaced by the versions recorded there.
  The cache is the instant it was written, as ISO text, and its report.
\<close>

definition active_images :: "release_state option \<Rightarrow> (string \<times> string) list \<Rightarrow> (string \<times> string) list" where
  "active_images active assembled =
     (case active of
        None \<Rightarrow> assembled
      | Some r \<Rightarrow>
          fold (\<lambda>(s, v) d. dict_set s v d) (filter (\<lambda>(s, v). s \<in> fst ` set assembled) (versions r)) assembled)"

definition load_current_update_plan ::
  "update_env \<Rightarrow> (string \<times> pyval) option \<Rightarrow> (string \<times> string) list option \<Rightarrow> release_state option
     \<Rightarrow> update_error + update_plan option"
where
  "load_current_update_plan env cached assembled active =
     (case cached of
        None \<Rightarrow> Inr None
      | Some (at, report) \<Rightarrow>
          (case assembled of
             None \<Rightarrow> Inl No_services
           | Some imgs \<Rightarrow> then_do (build_update_plan env report (active_images active imgs) at) (\<lambda>p. Inr (Some p))))"

section \<open>Building the release\<close>

definition resolve_target_digest :: "(string \<Rightarrow> pyval option) \<Rightarrow> update_candidate \<Rightarrow> update_error + string" where
  "resolve_target_digest registry c =
     (case registry (uc_target_image c) of
        Some (PStr digest) \<Rightarrow>
          if \<not> (prefix ''sha256:'' digest \<and> hex64 (remove_prefix ''sha256:'' digest)) then Inl Bad_digest
          else if rfind (CHR '':'') (uc_target_image c) \<le> rfind (CHR ''/'') (uc_target_image c) then Inl No_tag
          else Inr (take (nat (rfind (CHR '':'') (uc_target_image c))) (uc_target_image c) @ ''@'' @ digest)
      | _ \<Rightarrow> Inl Bad_digest)"

definition dict_update :: "(string \<times> string) list \<Rightarrow> (string \<times> string) list \<Rightarrow> (string \<times> string) list" where
  "dict_update d new = fold (\<lambda>(k, v) acc. dict_set k v acc) new d"

definition build_updated_release ::
  "release_env \<Rightarrow> release_state option \<Rightarrow> (string \<times> string) list \<Rightarrow> (string \<times> string) list \<Rightarrow> string
     \<Rightarrow> release_error + release_state"
where
  "build_updated_release env active resolved targets at =
     (let imgs = dict_update (case active of None \<Rightarrow> [] | Some r \<Rightarrow> images r) resolved;
          vers = dict_update (case active of None \<Rightarrow> [] | Some r \<Rightarrow> versions r) targets
      in build_release env (text_dict imgs) (text_dict vers) (PStr at))"

end
