(* ===== verification/Update_Operation.thy ===== *)
theory Update_Operation
  imports Update_Plans
begin

text \<open>
  \<open>_update_handler\<close> of \<open>controller/operations.py\<close>: applying an update plan, rolling back to the
  release before it and recovering from an update whose rollback failed.  The three release files
  are the state; \<open>nodes\<close> records what is known of the machines: a deployment that converged has put
  them on the release that was active when it ran, any other deployment leaves them mixed.

  What the handler obtains from the outside is in \<open>update_inputs\<close>: the cached report and the
  assembled Compose images when the plan is built and when it is checked again, whether discovery
  found anything, whether the services have a placement, the registry, whether a backup is required and succeeds, and the outcome of each
  deployment.  A deployment converges, reports that it did not, or raises, as the cancellation of
  the job and the loss of its lease do; the same two may make a progress message raise.
\<close>

datatype node_state = On "release_state option" | Mixed

record update_world =
  files :: release_dir
  nodes :: node_state

datatype deploy_outcome = Converged | Diverged | Raised

record update_inputs =
  in_plan :: "(update_error + (string \<times> pyval) option) \<times> (string \<times> string) list option"
  in_plan_again :: "(update_error + (string \<times> pyval) option) \<times> (string \<times> string) list option"
  in_discovered :: bool
  in_placed :: "string set \<Rightarrow> bool"
  in_registry :: "string \<Rightarrow> pyval option"
  in_needs_backup :: "bool option"
  in_backups_enabled :: bool
  in_snapshots :: bool
  in_now :: string
  in_quiet :: bool
  in_announced :: bool
  in_reported :: bool
  in_first :: deploy_outcome
  in_second :: deploy_outcome

datatype update_action = Refresh | Recover | Rollback string | Apply string "string list"

datatype update_done = Refreshed nat | Recovered | Rolled_back | Applied

datatype update_failure =
    Refused | Superseded | Not_converged | Restored | Recovery_needed | Stopped | Crashed
  | Release_problem release_error

section \<open>Deployments and files\<close>

definition deploy :: "update_env \<Rightarrow> deploy_outcome \<Rightarrow> update_world \<Rightarrow> update_world" where
  "deploy env outcome w =
     w\<lparr>nodes := (case (outcome, load_active_release (release_part env) (files w)) of
                  (Converged, Inr r) \<Rightarrow> On r | _ \<Rightarrow> Mixed)\<rparr>"

definition put_files ::
  "(release_error + unit) \<times> release_dir \<Rightarrow> update_world \<Rightarrow> (update_world \<Rightarrow> (update_failure + update_done) \<times> update_world)
     \<Rightarrow> (update_failure + update_done) \<times> update_world"
where
  "put_files written w continue =
     (case written of
        (Inl e, d) \<Rightarrow> (Inl (Release_problem e), w\<lparr>files := d\<rparr>)
      | (Inr u, d) \<Rightarrow> continue (w\<lparr>files := d\<rparr>))"

section \<open>Applying a plan\<close>

fun plan_failure :: "update_error \<Rightarrow> update_failure" where
  "plan_failure Url_value_error = Crashed"
| "plan_failure Cache_time = Crashed"
| "plan_failure _ = Refused"

definition current_plan ::
  "update_env \<Rightarrow> (update_error + (string \<times> pyval) option) \<times> (string \<times> string) list option \<Rightarrow> release_state option
     \<Rightarrow> update_failure + update_plan option"
where
  "current_plan env source active =
     map_sum plan_failure id (then_do (fst source) (\<lambda>cached. load_current_update_plan env cached (snd source) active))"

definition candidate_for :: "update_plan \<Rightarrow> string \<Rightarrow> update_candidate option" where
  "candidate_for plan s = find (\<lambda>c. uc_service c = s) (plan_candidates plan)"

definition resolve_service ::
  "(string \<Rightarrow> pyval option) \<Rightarrow> update_plan \<Rightarrow> string \<Rightarrow> update_error + string \<times> string \<times> string"
where
  "resolve_service registry plan s =
     (case candidate_for plan s of
        None \<Rightarrow> Inl Bad_candidate
      | Some c \<Rightarrow> then_do (resolve_target_digest registry c) (\<lambda>digest. Inr (s, digest, uc_target_image c)))"

definition checked_backup ::
  "update_env \<Rightarrow> update_inputs \<Rightarrow> release_state option \<Rightarrow> string \<Rightarrow> update_failure + unit"
where
  "checked_backup env inp active rev_expected =
     (case in_needs_backup inp of
        None \<Rightarrow> Inl Refused
      | Some False \<Rightarrow> Inr ()
      | Some True \<Rightarrow>
          if \<not> in_backups_enabled inp \<or> \<not> in_snapshots inp then Inl Refused
          else then_do (current_plan env (in_plan_again inp) active) (\<lambda>again.
            case again of
              None \<Rightarrow> Inl Superseded
            | Some p \<Rightarrow> if plan_revision p = rev_expected then Inr () else Inl Superseded))"

definition prepare_release ::
  "update_env \<Rightarrow> update_inputs \<Rightarrow> release_state option \<Rightarrow> string \<Rightarrow> string list \<Rightarrow> update_failure + release_state"
where
  "prepare_release env inp active rev_expected services =
     then_do (current_plan env (in_plan inp) active) (\<lambda>found.
       case found of
         None \<Rightarrow> Inl Superseded
       | Some plan \<Rightarrow>
           if plan_revision plan \<noteq> rev_expected then Inl Superseded
           else if \<not> set services \<subseteq> set (map uc_service (plan_candidates plan)) then Inl Refused
           else if \<not> in_placed inp (set services) then Inl Refused
           else if \<not> in_quiet inp then Inl Stopped
           else (case each (resolve_service (in_registry inp) plan) (sort (remdups services)) of
                   Inl e \<Rightarrow> Inl Refused
                 | Inr found \<Rightarrow>
                     then_do (checked_backup env inp active rev_expected) (\<lambda>u.
                       map_sum Release_problem id
                         (build_updated_release (release_part env) active
                            (map (\<lambda>(s, i, v). (s, i)) found) (map (\<lambda>(s, i, v). (s, v)) found) (in_now inp)))))"

definition restore_release ::
  "update_env \<Rightarrow> update_inputs \<Rightarrow> release_state option \<Rightarrow> release_state \<Rightarrow> update_world
     \<Rightarrow> (update_failure + update_done) \<times> update_world"
where
  "restore_release env inp active release w =
     put_files (write_active_release (release_part env) active (files w)) w (\<lambda>w1.
       if \<not> in_reported inp then (Inl Stopped, w1)
       else put_files (write_recovery_release (release_part env) active release (files w1)) w1 (\<lambda>w2.
         (let w3 = deploy env (in_second inp) w2
          in case in_second inp of
               Converged \<Rightarrow> (Inl Restored, w3\<lparr>files := clear_rollback_release (clear_recovery_release (files w3))\<rparr>)
             | Diverged \<Rightarrow> (Inl Recovery_needed, w3)
             | Raised \<Rightarrow> (Inl Stopped, w3))))"

definition activate_release ::
  "update_env \<Rightarrow> update_inputs \<Rightarrow> release_state option \<Rightarrow> release_state \<Rightarrow> update_world
     \<Rightarrow> (update_failure + update_done) \<times> update_world"
where
  "activate_release env inp active release w =
     put_files (write_rollback_release (release_part env) (revision release) active (files w)) w (\<lambda>w1.
     put_files (write_active_release (release_part env) (Some release) (files w1)) w1 (\<lambda>w2.
       if \<not> in_announced inp then (Inl Stopped, w2)
       else (let w3 = deploy env (in_first inp) w2
             in case in_first inp of
                  Converged \<Rightarrow> (Inr Applied, w3)
                | Diverged \<Rightarrow> restore_release env inp active release w3
                | Raised \<Rightarrow> (Inl Stopped, w3))))"

section \<open>The handler\<close>

definition rollback_update ::
  "update_env \<Rightarrow> update_inputs \<Rightarrow> release_state option \<Rightarrow> string \<Rightarrow> update_world \<Rightarrow> (update_failure + update_done) \<times> update_world"
where
  "rollback_update env inp active rev_expected w =
     (case load_rollback_release (release_part env) (files w) of
        Inl e \<Rightarrow> (Inl (Release_problem e), w)
      | Inr record \<Rightarrow>
          (case active of
             None \<Rightarrow> (Inl Superseded, w)
           | Some r \<Rightarrow>
               if revision r \<noteq> rev_expected then (Inl Superseded, w)
               else (case record of
                       None \<Rightarrow> (Inl Refused, w)
                     | Some rb \<Rightarrow>
                         if expected_active_revision rb \<noteq> revision r then (Inl Refused, w)
                         else if \<not> in_placed inp (fst ` set (images r)
                                \<union> (case rollback_previous rb of None \<Rightarrow> {} | Some q \<Rightarrow> fst ` set (images q)))
                           then (Inl Crashed, w)
                         else put_files (write_active_release (release_part env) (rollback_previous rb) (files w)) w (\<lambda>w1.
                           if \<not> in_announced inp then (Inl Stopped, w1)
                           else (let w2 = deploy env (in_first inp) w1
                                 in case in_first inp of
                                      Converged \<Rightarrow> (Inr Rolled_back, w2\<lparr>files := clear_rollback_release (files w2)\<rparr>)
                                    | Diverged \<Rightarrow>
                                        put_files (write_active_release (release_part env) active (files w2)) w2
                                          (\<lambda>w3. (Inl Not_converged, w3))
                                    | Raised \<Rightarrow> (Inl Stopped, w2))))))"

definition recover_update ::
  "update_env \<Rightarrow> update_inputs \<Rightarrow> release_state option \<Rightarrow> recovery_release option \<Rightarrow> update_world
     \<Rightarrow> (update_failure + update_done) \<times> update_world"
where
  "recover_update env inp active recovery w =
     (case recovery of
        None \<Rightarrow> (Inl Refused, w)
      | Some rec \<Rightarrow>
          if active \<noteq> recovery_previous rec then (Inl Superseded, w)
          else if \<not> in_placed inp (fst ` set (images (recovery_failed rec))
                 \<union> (case active of None \<Rightarrow> {} | Some r \<Rightarrow> fst ` set (images r)))
            then (Inl Crashed, w)
          else if \<not> in_quiet inp then (Inl Stopped, w)
          else (let w1 = deploy env (in_first inp) w
                in case in_first inp of
                     Converged \<Rightarrow> (Inr Recovered, w1\<lparr>files := clear_rollback_release (clear_recovery_release (files w1))\<rparr>)
                   | Diverged \<Rightarrow> (Inl Not_converged, w1)
                   | Raised \<Rightarrow> (Inl Stopped, w1)))"

text \<open>
  The refresh: \<open>in_discovered\<close> says whether the scanner returned a report, which it also caches.
  Nothing in this branch turns an error of the plan into a refusal.
\<close>

definition refresh_updates :: "update_env \<Rightarrow> update_inputs \<Rightarrow> update_world \<Rightarrow> update_failure + update_done" where
  "refresh_updates env inp w =
     (if \<not> in_quiet inp then Inl Stopped
      else if \<not> in_discovered inp then Inl Not_converged
      else (case in_plan inp of
              (Inl e, assembled) \<Rightarrow> Inl Crashed
            | (Inr None, assembled) \<Rightarrow> Inr (Refreshed 0)
            | (Inr (Some _), None) \<Rightarrow> Inl Crashed
            | (Inr (Some _), Some _) \<Rightarrow>
                (case load_active_release (release_part env) (files w) of
                   Inl e \<Rightarrow> Inl (Release_problem e)
                 | Inr active \<Rightarrow>
                     (case current_plan env (in_plan inp) active of
                        Inr (Some p) \<Rightarrow> Inr (Refreshed (length (plan_candidates p)))
                      | _ \<Rightarrow> Inl Crashed))))"

definition update_handler ::
  "update_env \<Rightarrow> update_inputs \<Rightarrow> update_action \<Rightarrow> update_world \<Rightarrow> (update_failure + update_done) \<times> update_world"
where
  "update_handler env inp action w =
     (if action = Refresh then (refresh_updates env inp w, w)
      else (case load_active_release (release_part env) (files w) of
              Inl e \<Rightarrow> (Inl (Release_problem e), w)
            | Inr active \<Rightarrow>
                (case load_recovery_release (release_part env) (files w) of
                   Inl e \<Rightarrow> (Inl (Release_problem e), w)
                 | Inr recovery \<Rightarrow>
                     if action = Recover then recover_update env inp active recovery w
                     else if recovery \<noteq> None then (Inl Refused, w)
                     else (case action of
                             Rollback expected \<Rightarrow> rollback_update env inp active expected w
                           | Apply expected services \<Rightarrow>
                               (case prepare_release env inp active expected services of
                                  Inl e \<Rightarrow> (Inl e, w)
                                | Inr release \<Rightarrow> activate_release env inp active release w)
                           | _ \<Rightarrow> (Inl Refused, w)))))"

end
