(* ===== verification/Update_Scope.thy ===== *)
theory Update_Scope
  imports Update_Operation Release_Properties
begin

text \<open>
  What a prepared release changes: the services that were selected, each within its channel, and
  nothing else.
\<close>

section \<open>References\<close>

lemma rfind_split:
  assumes "c \<in> set s"
  shows "\<exists>a b. s = a @ c # b \<and> c \<notin> set b \<and> rfind c s = int (length a)"
proof -
  obtain a b where ab: "s = a @ c # b" "c \<notin> set b" using split_list_last [OF assms] by blast
  have "takeWhile (\<lambda>x. x \<noteq> c) (rev b @ c # rev a) = rev b"
    using ab(2) by (subst takeWhile_append2) auto
  then have "rfind c s = int (length a)" by (simp add: rfind_def ab(1))
  with ab show ?thesis by blast
qed

lemma rfind_ge: "- 1 \<le> rfind c s"
proof (cases "c \<in> set s")
  case True
  then show ?thesis using rfind_split [OF True] by auto
qed (simp add: rfind_def)

lemma rfind_minus: "rfind c s < rfind d s \<Longrightarrow> d \<in> set s"
  using rfind_ge [of c s] by (auto simp: rfind_def split: if_splits)

lemma version_reference_text:
  assumes "parse_image_version_reference v = Some r"
  shows "v = version_ref r \<and> valid_tag (ref_tag r)"
proof -
  have lt: "rfind (CHR ''/'') v < rfind (CHR '':'') v"
    using assms by (auto simp: parse_image_version_reference_def split: if_splits)
  from rfind_split [OF rfind_minus [OF lt]] obtain a b where ab: "v = a @ CHR '':'' # b" "rfind (CHR '':'') v = int (length a)"
    by blast
  have "take (nat (rfind (CHR '':'') v)) v = a" "drop (nat (rfind (CHR '':'') v + 1)) v = b"
    unfolding ab(2) by (simp_all add: ab(1) nat_add_distrib)
  then show ?thesis
    using assms ab(1) by (auto simp: parse_image_version_reference_def version_ref_def Let_def split: if_splits)
qed

lemma immutable_reference_text:
  assumes "parse_immutable_image_reference v = Some r"
  shows "v = immutable_ref r \<and> valid_tag (ref_tag r)"
proof -
  have one: "length (filter (\<lambda>c. c = CHR ''@'') v) = 1"
    by (rule ccontr) (use assms in \<open>simp add: parse_immutable_image_reference_def\<close>)
  have "CHR ''@'' \<in> set v"
  proof (rule ccontr)
    assume "CHR ''@'' \<notin> set v"
    then have "filter (\<lambda>c. c = CHR ''@'') v = []" by (auto simp: filter_empty_conv)
    with one show False by simp
  qed
  then obtain tagged digest where v: "v = tagged @ CHR ''@'' # digest" and "CHR ''@'' \<notin> set tagged"
    using split_list_first by metis
  then have p: "partition_at (CHR ''@'') v = (tagged, True, digest)" by (simp add: partition_at_append)
  obtain q where q: "parse_image_version_reference tagged = Some q" "r = q\<lparr>ref_digest := digest\<rparr>"
    using assms unfolding parse_immutable_image_reference_def p by (simp split: if_splits option.splits)
  from version_reference_text [OF q(1)] q(2) v show ?thesis by (simp add: immutable_ref_def version_ref_def)
qed

section \<open>Candidates\<close>

definition sound_candidate :: "(string \<times> string) list \<Rightarrow> update_candidate \<Rightarrow> bool" where
  "sound_candidate current_images c \<longleftrightarrow>
     map_of current_images (uc_service c) = Some (uc_current_image c)
     \<and> (\<exists>repo v w. uc_target_image c = repo @ '':'' @ uc_target c \<and> prefix (repo @ '':'' @ uc_current c) (uc_current_image c)
          \<and> valid_tag (uc_target c) \<and> parse_version_tag (uc_current c) = Some v \<and> parse_version_tag (uc_target c) = Some w
          \<and> compatible v w)"

lemma select_singleton:
  assumes "select_latest_compatible [target] current = Some target"
  shows "\<exists>v w. parse_version_tag current = Some v \<and> parse_version_tag target = Some w \<and> compatible v w"
  using assms
  by (auto simp: select_latest_compatible_def compatible_tags_def split: option.splits list.splits if_splits)

lemma target_image_Inr:
  assumes "target_image img current target = Inr ti"
  shows "\<exists>repo. ti = repo @ '':'' @ target \<and> prefix (repo @ '':'' @ current) img \<and> valid_tag target"
proof -
  obtain r where r: "(if CHR ''@'' \<in> set img then parse_immutable_image_reference img else parse_image_version_reference img) = Some r"
      and rest: "ref_tag r = current" "ti = ref_repository r @ '':'' @ target" "valid_tag target"
    using assms unfolding target_image_def by (simp split: if_splits option.splits)
  have "prefix (version_ref r) img"
    using r by (auto simp: immutable_ref_def split: if_splits dest!: version_reference_text immutable_reference_text)
  then show ?thesis using rest by (auto simp: version_ref_def)
qed

lemma update_entry_sound:
  assumes "update_entry env current_images seen item = Inr c"
  shows "sound_candidate current_images c \<and> uc_service c \<notin> set seen"
proof -
  obtain service current target img where f: "field ''service'' item = PStr service" "field ''current'' item = PStr current"
      "field ''latest'' item = PStr target" "field ''image'' item = PStr img"
    using assms unfolding update_entry_def
    by ((cases "field ''service'' item"; simp), (cases "field ''current'' item"; simp),
        (cases "field ''latest'' item"; simp), (cases "field ''image'' item"; simp))
  obtain ti url where c: "service \<notin> set seen" "map_of current_images service = Some img"
      "select_latest_compatible [target] current = Some target" "target_image img current target = Inr ti"
      "c = \<lparr>uc_service = service, uc_current = current, uc_target = target, uc_current_image = img, uc_target_image = ti, uc_changelog_url = url\<rparr>"
    using assms by (auto simp: update_entry_def f then_do_Inr_iff split: if_splits)
  from select_singleton [OF c(3)] target_image_Inr [OF c(4)] c(1,2,5) show ?thesis
    by (auto simp: sound_candidate_def)
qed

lemma update_entries_sound:
  "update_entries env current_images seen items = Inr cs \<Longrightarrow>
     list_all (sound_candidate current_images) cs \<and> distinct (map uc_service cs) \<and> set (map uc_service cs) \<inter> set seen = {}"
proof (induction env current_images seen items arbitrary: cs rule: update_entries.induct)
  case (2 env current_images seen item items)
  then show ?case
    using update_entry_sound by (auto simp: then_do_Inr_iff split: if_splits) fastforce+
qed auto

lemma plan_sound:
  assumes "build_update_plan env report current_images at = Inr plan"
  shows "list_all (sound_candidate current_images) (plan_candidates plan) \<and> distinct (map uc_service (plan_candidates plan))
    \<and> sorted (map uc_service (plan_candidates plan))"
proof -
  obtain items cs where "update_entries env current_images [] items = Inr cs" "plan_candidates plan = sort_key uc_service cs"
    using assms by (auto simp: build_update_plan_def then_do_Inr_iff Let_def split: if_splits pyval.splits)
  with update_entries_sound show ?thesis
    by (auto simp: list_all_iff distinct_map)
qed

section \<open>Releases\<close>

lemma map_sum_id_Inr: "map_sum f id x = Inr y \<longleftrightarrow> x = Inr y"
  by (cases x) auto

lemma prepare_Inr:
  assumes "prepare_release env inp active expected services = Inr release"
  shows "\<exists>plan found. current_plan env (in_plan inp) active = Inr (Some plan) \<and> plan_revision plan = expected
    \<and> set services \<subseteq> set (map uc_service (plan_candidates plan))
    \<and> each (resolve_service (in_registry inp) plan) (sort (remdups services)) = Inr found
    \<and> build_updated_release (release_part env) active (map (\<lambda>(s, i, v). (s, i)) found) (map (\<lambda>(s, i, v). (s, v)) found) (in_now inp)
        = Inr release"
proof -
  obtain plan where plan: "current_plan env (in_plan inp) active = Inr (Some plan)"
    using assms by (auto simp: prepare_release_def then_do_Inr_iff split: option.splits)
  obtain found where found: "each (resolve_service (in_registry inp) plan) (sort (remdups services)) = Inr found"
    using assms by (auto simp: prepare_release_def plan split: if_splits sum.splits)
  show ?thesis
    using assms by (auto simp: prepare_release_def plan found then_do_Inr_iff map_sum_id_Inr split: if_splits)
qed

lemma current_plan_Some:
  assumes "current_plan env source active = Inr (Some plan)"
  obtains assembled report at where "snd source = Some assembled"
    "build_update_plan env report (active_images active assembled) at = Inr plan"
proof -
  obtain cached where c: "load_current_update_plan env cached (snd source) active = Inr (Some plan)"
    using assms by (auto simp: current_plan_def map_sum_id_Inr then_do_Inr_iff)
  then obtain at report where "cached = Some (at, report)" by (cases cached) (auto simp: load_current_update_plan_def)
  with c that show ?thesis
    by (cases "snd source") (auto simp: load_current_update_plan_def then_do_Inr_iff)
qed

lemma list_all2_map_eq_fst: "list_all2 P xs ys \<Longrightarrow> (\<And>x y. P x y \<Longrightarrow> fst y = x) \<Longrightarrow> xs = map fst ys"
  by (induction rule: list_all2_induct) auto

lemma map_of_sort:
  fixes xs :: "('k :: linorder \<times> 'v) list"
  shows "map_of (sort_key fst xs) k = map_of xs k"
proof -
  have first: "map_of ys k = (case filter (\<lambda>y. fst y = k) ys of [] \<Rightarrow> None | y # _ \<Rightarrow> Some (snd y))" for ys :: "('k \<times> 'v) list"
    by (induction ys) auto
  show ?thesis by (simp only: first sort_key_stable)
qed

lemma map_of_dict_update:
  "distinct (map fst new) \<Longrightarrow>
     map_of (dict_update d new) k = (case map_of new k of None \<Rightarrow> map_of d k | Some v \<Rightarrow> Some v)"
proof (induction new arbitrary: d)
  case (Cons x new)
  obtain a b where x: "x = (a, b)" by (cases x)
  have "map_of new a = None" using Cons.prems by (simp add: x map_of_eq_None_iff)
  then show ?case using Cons by (auto simp: dict_update_def x map_of_dict_set split: option.splits)
qed (simp add: dict_update_def)

lemma build_release_maps:
  assumes "build_release env (text_dict imgs) (text_dict vers) (PStr at) = Inr r"
  shows "map_of (images r) k = map_of imgs k" and "map_of (versions r) k = map_of vers k"
proof -
  have i: "image_items (map (\<lambda>(k, v). (KStr k, PStr v)) xs) = Inr items \<Longrightarrow> items = xs" for xs items
    by (induction xs arbitrary: items) (auto simp: then_do_Inr_iff split: if_splits)
  have v: "version_items (map (\<lambda>(k, v). (KStr k, PStr v)) xs) = Inr items \<Longrightarrow> items = xs" for xs items
    by (induction xs arbitrary: items) (auto simp: then_do_Inr_iff split: if_splits)
  obtain vi ve where vi: "validate_images (text_dict imgs) = Inr vi" and ve: "validate_versions (text_dict vers) (map fst vi) = Inr ve"
      and r: "images r = vi" "versions r = ve"
    using assms by (auto simp: build_release_def then_do_Inr_iff split: option.splits bool.splits)
  have "images r = sort_key fst imgs"
    using vi r(1) by (auto simp: validate_images_def text_dict_def then_do_Inr_iff split: if_splits dest!: i)
  moreover have "versions r = sort_key fst vers"
    using ve r(2) by (auto simp: validate_versions_def text_dict_def then_do_Inr_iff split: if_splits dest!: v)
  ultimately have "images r = sort_key fst imgs \<and> versions r = sort_key fst vers" by simp
  then show "map_of (images r) k = map_of imgs k" "map_of (versions r) k = map_of vers k" by (simp_all add: map_of_sort)
qed

lemma resolve_service_Inr:
  assumes "resolve_service registry plan s = Inr x"
  shows "\<exists>c repo digest. c \<in> set (plan_candidates plan) \<and> uc_service c = s \<and> x = (s, repo @ ''@'' @ digest, uc_target_image c)
    \<and> prefix (repo @ '':'') (uc_target_image c) \<and> prefix ''sha256:'' digest \<and> hex64 (remove_prefix ''sha256:'' digest)"
proof -
  obtain c i where c: "candidate_for plan s = Some c" "resolve_target_digest registry c = Inr i" "x = (s, i, uc_target_image c)"
    using assms by (auto simp: resolve_service_def then_do_Inr_iff split: option.splits)
  have mem: "c \<in> set (plan_candidates plan)" "uc_service c = s"
    using c(1) by (auto simp: candidate_for_def find_Some_iff)
  let ?t = "uc_target_image c"
  obtain digest where d: "registry ?t = Some (PStr digest)" using c(2)
    by (auto simp: resolve_target_digest_def split: option.splits pyval.splits)
  have digest: "prefix ''sha256:'' digest \<and> hex64 (remove_prefix ''sha256:'' digest)"
      and lt: "rfind (CHR ''/'') ?t < rfind (CHR '':'') ?t"
      and i: "i = take (nat (rfind (CHR '':'') ?t)) ?t @ ''@'' @ digest"
    using c(2) by (auto simp: resolve_target_digest_def d split: if_splits)
  obtain a b where ab: "?t = a @ CHR '':'' # b" "rfind (CHR '':'') ?t = int (length a)"
    using rfind_split [OF rfind_minus [OF lt]] by blast
  then have "i = a @ ''@'' @ digest" using i by simp
  then show ?thesis using mem c(3) digest ab(1) by (intro exI [of _ c] exI [of _ a] exI [of _ digest]) simp
qed

text \<open>
  An update touches what was selected.  In the release it prepares, every other service keeps the
  image and the version of the active release.  A selected service was a candidate of the reviewed
  plan whose current image is the one in force; it gets the target tag of the same repository, in
  the same channel and newer, and an image of that repository pinned to a digest.
\<close>

theorem update_scope:
  assumes "prepare_release env inp active expected services = Inr release"
  shows "(\<forall>s. s \<notin> set services \<longrightarrow>
       map_of (images release) s = (case active of None \<Rightarrow> None | Some r \<Rightarrow> map_of (images r) s)
       \<and> map_of (versions release) s = (case active of None \<Rightarrow> None | Some r \<Rightarrow> map_of (versions r) s))
    \<and> (\<forall>s\<in>set services. \<exists>assembled c digest repo.
         snd (in_plan inp) = Some assembled \<and> sound_candidate (active_images active assembled) c \<and> uc_service c = s
         \<and> map_of (versions release) s = Some (uc_target_image c) \<and> prefix (repo @ '':'') (uc_target_image c)
         \<and> map_of (images release) s = Some (repo @ ''@sha256:'' @ digest) \<and> hex64 digest)"
proof -
  let ?imgs = "case active of None \<Rightarrow> [] | Some r \<Rightarrow> images r" and ?vers = "case active of None \<Rightarrow> [] | Some r \<Rightarrow> versions r"
  from prepare_Inr [OF assms] obtain plan found where plan: "current_plan env (in_plan inp) active = Inr (Some plan)"
    and found: "each (resolve_service (in_registry inp) plan) (sort (remdups services)) = Inr found"
    and built: "build_updated_release (release_part env) active (map (\<lambda>(s, i, v). (s, i)) found) (map (\<lambda>(s, i, v). (s, v)) found) (in_now inp) = Inr release"
    by blast
  from plan obtain assembled report at where asm: "snd (in_plan inp) = Some assembled"
    and bp: "build_update_plan env report (active_images active assembled) at = Inr plan"
    by (rule current_plan_Some)
  have each: "list_all2 (\<lambda>s x. resolve_service (in_registry inp) plan s = Inr x) (sort (remdups services)) found"
    using found by (simp add: each_Inr_iff)
  have keys: "map fst found = sort (remdups services)"
    by (rule sym, rule list_all2_map_eq_fst [OF each]) (auto dest: resolve_service_Inr)
  then have distinct: "distinct (map fst found)" by simp
  have maps: "map_of (map (\<lambda>(s, i, v). (s, i)) found) s = map_option fst (map_of found s)"
    "map_of (map (\<lambda>(s, i, v). (s, v)) found) s = map_option snd (map_of found s)" for s
    by (induction found) auto
  have fsts: "map fst (map (\<lambda>(s, i, v). (s, i)) found) = map fst found" "map fst (map (\<lambda>(s, i, v). (s, v)) found) = map fst found"
    by auto
  note of_release = build_release_maps [OF built [unfolded build_updated_release_def Let_def]]
  have upd: "map_of (images release) s = (case map_option fst (map_of found s) of None \<Rightarrow> map_of ?imgs s | Some v \<Rightarrow> Some v)"
    "map_of (versions release) s = (case map_option snd (map_of found s) of None \<Rightarrow> map_of ?vers s | Some v \<Rightarrow> Some v)" for s
    unfolding of_release using distinct
      map_of_dict_update [of "map (\<lambda>(s, i, v). (s, i)) found" ?imgs s, unfolded fsts maps]
      map_of_dict_update [of "map (\<lambda>(s, i, v). (s, v)) found" ?vers s, unfolded fsts maps]
    by blast+
  show ?thesis
  proof (intro conjI ballI allI impI)
    fix s assume "s \<notin> set services"
    then have "s \<notin> set (map fst found)" by (simp add: keys)
    then have none: "map_of found s = None" by (simp add: map_of_eq_None_iff)
    show "map_of (images release) s = (case active of None \<Rightarrow> None | Some r \<Rightarrow> map_of (images r) s)"
      "map_of (versions release) s = (case active of None \<Rightarrow> None | Some r \<Rightarrow> map_of (versions r) s)"
      by (simp_all add: upd none split: option.splits)
  next
    fix s assume "s \<in> set services"
    then have "s \<in> set (map fst found)" by (simp add: keys)
    then obtain i v where in_found: "(s, i, v) \<in> set found" by auto
    then have some: "map_of found s = Some (i, v)" using distinct by simp
    from in_found each obtain s' where "resolve_service (in_registry inp) plan s' = Inr (s, i, v)"
      by (auto simp: list_all2_conv_all_nth in_set_conv_nth)
    from resolve_service_Inr [OF this] obtain c repo digest where c: "c \<in> set (plan_candidates plan)" "uc_service c = s"
        "i = repo @ ''@'' @ digest" "v = uc_target_image c" "prefix (repo @ '':'') (uc_target_image c)"
        "prefix ''sha256:'' digest" "hex64 (remove_prefix ''sha256:'' digest)"
      by auto
    obtain d where d: "digest = ''sha256:'' @ d" using c(6) by (auto simp: prefix_def)
    have "sound_candidate (active_images active assembled) c"
      using plan_sound [OF bp] c(1) by (simp add: list_all_iff)
    then show "\<exists>assembled c digest repo. snd (in_plan inp) = Some assembled \<and> sound_candidate (active_images active assembled) c
         \<and> uc_service c = s \<and> map_of (versions release) s = Some (uc_target_image c) \<and> prefix (repo @ '':'') (uc_target_image c)
         \<and> map_of (images release) s = Some (repo @ ''@sha256:'' @ digest) \<and> hex64 digest"
      using asm c d some by (intro exI [of _ assembled] exI [of _ c] exI [of _ d] exI [of _ repo]) (simp add: upd remove_prefix_def)
  qed
qed

end
