(* ===== verification/Release_Slots.thy ===== *)
theory Release_Slots
  imports Release_Properties
begin

text \<open>
  What the operations that move releases rely on: each of the three files is a slot that gives back
  what was last written to it, as long as the text is within the limit of the reader, and that no
  other writer touches.
\<close>

locale release_slot =
  fixes store :: "'v \<Rightarrow> release_dir \<Rightarrow> (release_error + unit) \<times> release_dir"
    and load :: "release_dir \<Rightarrow> release_error + 'l"
    and slot_file :: "release_dir \<Rightarrow> release_file"
    and valid :: "'v \<Rightarrow> bool"
    and holds :: "'l \<Rightarrow> 'v \<Rightarrow> bool"
  assumes stores: "valid v \<Longrightarrow> fst (store v d) = Inr ()"
    and read_back: "valid v \<Longrightarrow> stored_size (slot_file (snd (store v d))) \<le> MAX_RELEASE_BYTES \<Longrightarrow>
          \<exists>l. load (snd (store v d)) = Inr l \<and> holds l v"
    and load_file: "slot_file d = slot_file d' \<Longrightarrow> load d = load d'"
begin

lemma stored: "valid v \<Longrightarrow> store v d = (Inr (), snd (store v d))"
  using stores [of v d] by (metis prod.collapse)

text \<open>The value is still there when only other files were written since.\<close>

lemma still_there:
  assumes "valid v" and "slot_file d = slot_file (snd (store v d0))" and "stored_size (slot_file d) \<le> MAX_RELEASE_BYTES"
  shows "\<exists>l. load d = Inr l \<and> holds l v"
  using read_back [OF assms(1), of d0] assms(2,3) load_file [OF assms(2)] by simp

end

interpretation active_slot: release_slot "write_active_release env" "load_active_release env" active_file
  "pred_option (canonical env)" "\<lambda>l v. l = v" for env
proof
  fix v :: "release_state option" and d :: release_dir
  assume v: "pred_option (canonical env) v"
  show "fst (write_active_release env v d) = Inr ()"
    using v active_round_trip [of env _ d] by (cases v) (auto simp: write_active_release_def)
  show "\<exists>l. load_active_release env (snd (write_active_release env v d)) = Inr l \<and> l = v"
    if "stored_size (active_file (snd (write_active_release env v d))) \<le> MAX_RELEASE_BYTES"
    using v that active_round_trip [of env _ d]
    by (cases v) (auto simp: write_active_release_def load_active_release_def read_release_def)
qed (simp add: load_active_release_def)

interpretation rollback_slot: release_slot "\<lambda>(e, p). write_rollback_release env e p" "load_rollback_release env" rollback_file
  "\<lambda>(e, p). hex64 e \<and> pred_option (canonical env) p"
  "\<lambda>l (e, p). \<exists>seal. l = Some \<lparr>expected_active_revision = e, rollback_previous = p, rollback_revision = seal\<rparr>" for env
proof
  fix v :: "string \<times> release_state option" and d :: release_dir
  assume v: "case v of (e, p) \<Rightarrow> hex64 e \<and> pred_option (canonical env) p"
  obtain e p where ep: "v = (e, p)" by (cases v)
  then obtain seal where rt: "fst (write_rollback_release env e p d) = Inr ()"
      "load_rollback_release env (snd (write_rollback_release env e p d))
        = (if stored_size (rollback_file (snd (write_rollback_release env e p d))) > MAX_RELEASE_BYTES then Inl Too_large
           else Inr (Some \<lparr>expected_active_revision = e, rollback_previous = p, rollback_revision = seal\<rparr>))"
    using v rollback_round_trip [of env p e d] by auto
  show "fst ((case v of (e, p) \<Rightarrow> write_rollback_release env e p) d) = Inr ()" using rt(1) ep by simp
  show "\<exists>l. load_rollback_release env (snd ((case v of (e, p) \<Rightarrow> write_rollback_release env e p) d)) = Inr l
      \<and> (case v of (e, p) \<Rightarrow> \<exists>seal. l = Some \<lparr>expected_active_revision = e, rollback_previous = p, rollback_revision = seal\<rparr>)"
    if "stored_size (rollback_file (snd ((case v of (e, p) \<Rightarrow> write_rollback_release env e p) d))) \<le> MAX_RELEASE_BYTES"
    using rt(2) that ep by auto
qed (simp add: load_rollback_release_def)

interpretation recovery_slot: release_slot "\<lambda>(p, f). write_recovery_release env p f" "load_recovery_release env" recovery_file
  "\<lambda>(p, f). pred_option (canonical env) p \<and> canonical env f"
  "\<lambda>l (p, f). \<exists>seal. l = Some \<lparr>recovery_previous = p, recovery_failed = f, recovery_revision = seal\<rparr>" for env
proof
  fix v :: "release_state option \<times> release_state" and d :: release_dir
  assume v: "case v of (p, f) \<Rightarrow> pred_option (canonical env) p \<and> canonical env f"
  obtain p f where pf: "v = (p, f)" by (cases v)
  then obtain seal where rt: "fst (write_recovery_release env p f d) = Inr ()"
      "load_recovery_release env (snd (write_recovery_release env p f d))
        = (if stored_size (recovery_file (snd (write_recovery_release env p f d))) > MAX_RELEASE_BYTES then Inl Too_large
           else Inr (Some \<lparr>recovery_previous = p, recovery_failed = f, recovery_revision = seal\<rparr>))"
    using v recovery_round_trip [of env p f d] by auto
  show "fst ((case v of (p, f) \<Rightarrow> write_recovery_release env p f) d) = Inr ()" using rt(1) pf by simp
  show "\<exists>l. load_recovery_release env (snd ((case v of (p, f) \<Rightarrow> write_recovery_release env p f) d)) = Inr l
      \<and> (case v of (p, f) \<Rightarrow> \<exists>seal. l = Some \<lparr>recovery_previous = p, recovery_failed = f, recovery_revision = seal\<rparr>)"
    if "stored_size (recovery_file (snd ((case v of (p, f) \<Rightarrow> write_recovery_release env p f) d))) \<le> MAX_RELEASE_BYTES"
    using rt(2) that pf by auto
qed (simp add: load_recovery_release_def)

section \<open>Writers touch their own file\<close>

lemma write_frames [simp]:
  "rollback_file (snd (write_active_release env v d)) = rollback_file d"
  "recovery_file (snd (write_active_release env v d)) = recovery_file d"
  "active_file (snd (write_rollback_release env e v d)) = active_file d"
  "recovery_file (snd (write_rollback_release env e v d)) = recovery_file d"
  "active_file (snd (write_recovery_release env v f d)) = active_file d"
  "rollback_file (snd (write_recovery_release env v f d)) = rollback_file d"
  by (simp_all add: write_active_release_def write_rollback_release_def write_recovery_release_def
      split: option.splits sum.splits)

lemma clear_files [simp]:
  "active_file (clear_rollback_release d) = active_file d" "recovery_file (clear_rollback_release d) = recovery_file d"
  "rollback_file (clear_rollback_release d) = No_release"
  "active_file (clear_recovery_release d) = active_file d" "rollback_file (clear_recovery_release d) = rollback_file d"
  "recovery_file (clear_recovery_release d) = No_release"
  by (simp_all add: clear_rollback_release_def clear_recovery_release_def)

lemma load_absent:
  "rollback_file d = No_release \<Longrightarrow> load_rollback_release env d = Inr None"
  "recovery_file d = No_release \<Longrightarrow> load_recovery_release env d = Inr None"
  by (simp_all add: load_rollback_release_def load_recovery_release_def read_release_def)

end
