(* ===== verification/Update_Properties.thy ===== *)
theory Update_Properties
  imports Update_Scope Release_Slots
begin

text \<open>
  Update policy, update plans, and the release files through an update, its rollback and the
  recovery from both.
\<close>

section \<open>Version policy\<close>

lemma compatible_trans: "compatible a b \<Longrightarrow> compatible b c \<Longrightarrow> compatible a c"
  by (auto simp: compatible_def)

lemma select_Some:
  assumes "select_latest_compatible tags current = Some t"
  shows "\<exists>c v. parse_version_tag current = Some c \<and> parse_version_tag t = Some v \<and> compatible c v \<and> t \<in> set tags
    \<and> (\<forall>u x. u \<in> set tags \<and> parse_version_tag u = Some x \<and> compatible c x \<longrightarrow> (tag_version x, u) \<le> (tag_version v, t))"
proof -
  obtain c where c: "parse_version_tag current = Some c"
    using assms by (auto simp: select_latest_compatible_def split: option.splits)
  have one: "(n, u) \<in> set (case parse_version_tag t of None \<Rightarrow> []
        | Some v \<Rightarrow> if compatible c v then [(tag_version v, t)] else []) \<longleftrightarrow>
      u = t \<and> (\<exists>x. parse_version_tag u = Some x \<and> compatible c x \<and> n = tag_version x)" for n u t
    by (cases "parse_version_tag t") auto
  have mem: "(n, u) \<in> set (compatible_tags c tags) \<longleftrightarrow>
      u \<in> set tags \<and> (\<exists>x. parse_version_tag u = Some x \<and> compatible c x \<and> n = tag_version x)" for n u
    unfolding compatible_tags_def set_concat set_map image_image UN_iff one by blast
  obtain y ys where ys: "compatible_tags c tags = y # ys"
    using assms c by (auto simp: select_latest_compatible_def split: list.splits)
  have t: "t = snd (Max (set (compatible_tags c tags)))"
    using assms c by (simp add: select_latest_compatible_def ys Max.set_eq_fold [symmetric] del: list.set)
  have "Max (set (compatible_tags c tags)) \<in> set (compatible_tags c tags)" by (rule Max_in) (simp_all add: ys)
  then obtain v where v: "Max (set (compatible_tags c tags)) = (tag_version v, t)" "parse_version_tag t = Some v"
      "compatible c v" "t \<in> set tags"
    using t mem by (metis prod.collapse)
  have "(tag_version x, u) \<le> (tag_version v, t)" if "u \<in> set tags" "parse_version_tag u = Some x" "compatible c x" for u x
    using Max_ge [of "set (compatible_tags c tags)" "(tag_version x, u)"] mem that v(1) by simp
  with c v show ?thesis by blast
qed

lemma select_None:
  "select_latest_compatible tags current = None \<Longrightarrow> parse_version_tag current = Some c \<Longrightarrow> u \<in> set tags \<Longrightarrow>
     parse_version_tag u = Some x \<Longrightarrow> \<not> compatible c x"
  by (auto simp: select_latest_compatible_def compatible_tags_def split: list.splits option.splits if_splits)

lemma update_chain:
  "(\<lambda>a b. \<exists>tags. select_latest_compatible tags a = Some b)\<^sup>+\<^sup>+ start final \<Longrightarrow>
     \<exists>a b. parse_version_tag start = Some a \<and> parse_version_tag final = Some b \<and> compatible a b"
proof (induction rule: tranclp_induct)
  case (base y)
  then show ?case using select_Some by blast
next
  case (step y z)
  then obtain a b where ab: "parse_version_tag start = Some a" "parse_version_tag y = Some b" "compatible a b" by blast
  from step.hyps(2) select_Some obtain b' c where "parse_version_tag y = Some b'" "parse_version_tag z = Some c" "compatible b' c"
    by blast
  with ab compatible_trans show ?case by (metis option.inject)
qed

text \<open>
  Unattended updates stay in their channel.  The selected tag is among those offered, is
  compatible with the current one, and no compatible tag offered is newer; when none is selected none
  is compatible.  Through any chain of updates the prefix, the flavor and the first number stay (and
  the second while the first is zero) and the version grows, so no version comes back.
\<close>

theorem updates_stay_in_channel:
  "(select_latest_compatible tags current = Some t \<longrightarrow>
      (\<exists>c v. parse_version_tag current = Some c \<and> parse_version_tag t = Some v \<and> compatible c v \<and> t \<in> set tags
        \<and> (\<forall>u x. u \<in> set tags \<and> parse_version_tag u = Some x \<and> compatible c x \<longrightarrow> tag_version x \<le> tag_version v)))
   \<and> (select_latest_compatible tags current = None \<longrightarrow>
      (\<forall>c u x. parse_version_tag current = Some c \<and> u \<in> set tags \<and> parse_version_tag u = Some x \<longrightarrow> \<not> compatible c x))
   \<and> ((\<lambda>a b. \<exists>tags. select_latest_compatible tags a = Some b)\<^sup>+\<^sup>+ start final \<longrightarrow>
      (\<exists>a b. parse_version_tag start = Some a \<and> parse_version_tag final = Some b
        \<and> tag_prefix b = tag_prefix a \<and> tag_flavor b = tag_flavor a \<and> tag_version b ! 0 = tag_version a ! 0
        \<and> (tag_version a ! 0 = 0 \<longrightarrow> tag_version b ! 1 = tag_version a ! 1)
        \<and> tag_version a < tag_version b \<and> final \<noteq> start))"
proof (intro conjI impI)
  assume "select_latest_compatible tags current = Some t"
  from select_Some [OF this] show "\<exists>c v. parse_version_tag current = Some c \<and> parse_version_tag t = Some v \<and> compatible c v \<and> t \<in> set tags
        \<and> (\<forall>u x. u \<in> set tags \<and> parse_version_tag u = Some x \<and> compatible c x \<longrightarrow> tag_version x \<le> tag_version v)"
    by (fastforce simp: less_eq_prod_def)
next
  assume "select_latest_compatible tags current = None"
  then show "\<forall>c u x. parse_version_tag current = Some c \<and> u \<in> set tags \<and> parse_version_tag u = Some x \<longrightarrow> \<not> compatible c x"
    using select_None by blast
next
  assume "(\<lambda>a b. \<exists>tags. select_latest_compatible tags a = Some b)\<^sup>+\<^sup>+ start final"
  from update_chain [OF this] show "\<exists>a b. parse_version_tag start = Some a \<and> parse_version_tag final = Some b
        \<and> tag_prefix b = tag_prefix a \<and> tag_flavor b = tag_flavor a \<and> tag_version b ! 0 = tag_version a ! 0
        \<and> (tag_version a ! 0 = 0 \<longrightarrow> tag_version b ! 1 = tag_version a ! 1)
        \<and> tag_version a < tag_version b \<and> final \<noteq> start"
    by (auto simp: compatible_def)
qed

theorem updates_stay_in_channel_witness:
  "select_latest_compatible [''2.0.0'', ''1.3.0-alpine'', ''1.10.1'', ''1.9''] ''1.2.4'' = Some ''1.10.1''
   \<and> (\<exists>c v. parse_version_tag ''1.2.4'' = Some c \<and> parse_version_tag ''1.10.1'' = Some v \<and> compatible c v)"
proof -
  have "select_latest_compatible [''2.0.0'', ''1.3.0-alpine'', ''1.10.1'', ''1.9''] ''1.2.4'' = Some ''1.10.1''" by code_simp
  with updates_stay_in_channel [of "[''2.0.0'', ''1.3.0-alpine'', ''1.10.1'', ''1.9'']" "''1.2.4''" "''1.10.1''"]
  show ?thesis by blast
qed

section \<open>Files through an update\<close>

abbreviation slots_fit :: "release_dir \<Rightarrow> bool" where
  "slots_fit d \<equiv> stored_size (active_file d) \<le> MAX_RELEASE_BYTES \<and> stored_size (rollback_file d) \<le> MAX_RELEASE_BYTES
     \<and> stored_size (recovery_file d) \<le> MAX_RELEASE_BYTES"

lemma deploy_files [simp]: "files (deploy env outcome w) = files w"
  by (simp add: deploy_def)

lemma deploy_nodes:
  "load_active_release (release_part env) (files w) = Inr r \<Longrightarrow> nodes (deploy env Converged w) = On r"
  "outcome \<noteq> Converged \<Longrightarrow> nodes (deploy env outcome w) = Mixed"
  by (auto simp: deploy_def split: deploy_outcome.splits)

lemma put_files_ok: "fst written = Inr () \<Longrightarrow> put_files written w k = k (w\<lparr>files := snd written\<rparr>)"
  by (cases written) (simp add: put_files_def)

lemma put_files_failed: "fst written = Inl e \<Longrightarrow> fst (put_files written w k) = Inl (Release_problem e)"
  by (cases written) (simp add: put_files_def)

lemma loaded_canonical: "load_active_release env d = Inr a \<Longrightarrow> pred_option (canonical env) a"
  by (cases a) (auto intro: load_active_canonical)

lemma prepared_canonical:
  "prepare_release env inp active expected services = Inr release \<Longrightarrow> canonical (release_part env) release"
  by (drule prepare_Inr) (auto simp: build_updated_release_def Let_def dest: build_release_facts)

text \<open>The state after a plan was activated, by the outcome of the first deployment.\<close>

lemma activated:
  fixes w :: update_world
  assumes "pred_option (canonical (release_part env)) active" and "canonical (release_part env) release"
    and "hex64 (revision release)"
  defines "d1 \<equiv> snd (write_rollback_release (release_part env) (revision release) active (files w))"
  defines "w2 \<equiv> w\<lparr>files := snd (write_active_release (release_part env) (Some release) d1)\<rparr>"
  shows "activate_release env inp active release w =
     (if \<not> in_announced inp then (Inl Stopped, w2)
      else (case in_first inp of
              Converged \<Rightarrow> (Inr Applied, deploy env Converged w2)
            | Diverged \<Rightarrow> restore_release env inp active release (deploy env Diverged w2)
            | Raised \<Rightarrow> (Inl Stopped, deploy env Raised w2)))"
proof -
  have 1: "fst (write_rollback_release (release_part env) (revision release) active (files w)) = Inr ()"
    using rollback_slot.stores [of "release_part env" "(revision release, active)" "files w"] assms(1,3) by simp
  have 2: "fst (write_active_release (release_part env) (Some release) d) = Inr ()" for d
    using active_slot.stores [of "release_part env" "Some release" d] assms(2) by simp
  show ?thesis
    by (simp add: activate_release_def put_files_ok [OF 1] put_files_ok [OF 2] d1_def w2_def Let_def
        split: deploy_outcome.splits)
qed

lemma restored:
  fixes w :: update_world
  assumes "pred_option (canonical (release_part env)) active" and "canonical (release_part env) release"
  defines "d1 \<equiv> snd (write_active_release (release_part env) active (files w))"
  defines "w2 \<equiv> w\<lparr>files := snd (write_recovery_release (release_part env) active release d1)\<rparr>"
  shows "restore_release env inp active release w =
     (if \<not> in_reported inp then (Inl Stopped, w\<lparr>files := d1\<rparr>)
      else (case in_second inp of
              Converged \<Rightarrow> (Inl Restored, (deploy env Converged w2)\<lparr>files := clear_rollback_release (clear_recovery_release (files w2))\<rparr>)
            | Diverged \<Rightarrow> (Inl Recovery_needed, deploy env Diverged w2)
            | Raised \<Rightarrow> (Inl Stopped, deploy env Raised w2)))"
proof -
  have 1: "fst (write_active_release (release_part env) active (files w)) = Inr ()"
    using active_slot.stores [OF assms(1)] .
  have 2: "fst (write_recovery_release (release_part env) active release d) = Inr ()" for d
    using recovery_slot.stores [of "release_part env" "(active, release)" d] assms(1,2) by simp
  show ?thesis
    by (simp add: restore_release_def put_files_ok [OF 1] put_files_ok [OF 2] d1_def w2_def Let_def
        split: deploy_outcome.splits)
qed

text \<open>What the files give back afterwards.\<close>

lemma activated_files:
  fixes d :: release_dir
  assumes "pred_option (canonical env) active" and "canonical env release" and "hex64 (revision release)"
  defines "d' \<equiv> snd (write_active_release env (Some release) (snd (write_rollback_release env (revision release) active d)))"
  shows "stored_size (active_file d') \<le> MAX_RELEASE_BYTES \<Longrightarrow> load_active_release env d' = Inr (Some release)"
    and "stored_size (rollback_file d') \<le> MAX_RELEASE_BYTES \<Longrightarrow>
      \<exists>seal. load_rollback_release env d' = Inr (Some \<lparr>expected_active_revision = revision release, rollback_previous = active, rollback_revision = seal\<rparr>)"
    and "load_recovery_release env d' = load_recovery_release env d"
proof -
  show "load_active_release env d' = Inr (Some release)" if "stored_size (active_file d') \<le> MAX_RELEASE_BYTES"
    using active_slot.read_back [of env "Some release"] that assms(2) by (simp add: d'_def)
  show "\<exists>seal. load_rollback_release env d' = Inr (Some \<lparr>expected_active_revision = revision release, rollback_previous = active, rollback_revision = seal\<rparr>)"
    if "stored_size (rollback_file d') \<le> MAX_RELEASE_BYTES"
    using rollback_slot.still_there [of env "(revision release, active)" d' d] that assms(1,3) by (auto simp: d'_def)
  show "load_recovery_release env d' = load_recovery_release env d"
    by (rule recovery_slot.load_file) (simp add: d'_def)
qed

lemma restored_files:
  fixes d :: release_dir
  assumes "pred_option (canonical env) active" and "canonical env release"
  defines "d' \<equiv> snd (write_recovery_release env active release (snd (write_active_release env active d)))"
  shows "active_file x = active_file d' \<Longrightarrow> stored_size (active_file x) \<le> MAX_RELEASE_BYTES \<Longrightarrow> load_active_release env x = Inr active"
    and "stored_size (recovery_file d') \<le> MAX_RELEASE_BYTES \<Longrightarrow>
      \<exists>seal. load_recovery_release env d' = Inr (Some \<lparr>recovery_previous = active, recovery_failed = release, recovery_revision = seal\<rparr>)"
proof -
  show "load_active_release env x = Inr active" if "active_file x = active_file d'" "stored_size (active_file x) \<le> MAX_RELEASE_BYTES"
    using active_slot.still_there [OF assms(1), of x d] that by (simp add: d'_def)
  show "\<exists>seal. load_recovery_release env d' = Inr (Some \<lparr>recovery_previous = active, recovery_failed = release, recovery_revision = seal\<rparr>)"
    if "stored_size (recovery_file d') \<le> MAX_RELEASE_BYTES"
    using recovery_slot.read_back [of env "(active, release)"] that assms(1,2) by (auto simp: d'_def)
qed

lemma plan_failure_cases: "plan_failure e \<in> {Refused, Crashed}"
  by (cases e) auto

lemma current_plan_Inl: "current_plan env source active = Inl e \<Longrightarrow> e \<in> {Refused, Crashed}"
  unfolding current_plan_def using plan_failure_cases
  by (cases "then_do (fst source) (\<lambda>cached. load_current_update_plan env cached (snd source) active)") auto

lemma checked_backup_Inl: "checked_backup env inp active expected = Inl e \<Longrightarrow> e \<in> {Refused, Crashed, Superseded}"
  using current_plan_Inl by (fastforce simp: checked_backup_def then_do_Inl_iff split: option.splits bool.splits if_splits)

lemma prepare_Inl:
  assumes "prepare_release env inp active expected services = Inl e"
  shows "e \<in> {Refused, Crashed, Superseded, Stopped} \<or> (\<exists>x. e = Release_problem x)"
proof (cases "current_plan env (in_plan inp) active")
  case (Inl x)
  then show ?thesis using assms current_plan_Inl [OF Inl] by (auto simp: prepare_release_def)
next
  case (Inr found)
  show ?thesis
  proof (cases found)
    case (Some plan)
    show ?thesis
    proof (cases "each (resolve_service (in_registry inp) plan) (sort (remdups services))")
      case (Inr triples)
      then show ?thesis
        using assms \<open>current_plan env (in_plan inp) active = Inr found\<close> Some
        by (auto simp: prepare_release_def then_do_Inl_iff map_sum_def split: if_splits sum.splits dest: checked_backup_Inl)
    qed (use assms Inr Some in \<open>auto simp: prepare_release_def split: if_splits\<close>)
  qed (use assms Inr in \<open>auto simp: prepare_release_def\<close>)
qed

lemma apply_cases:
  assumes "load_active_release (release_part env) (files w) = Inr active"
    and "update_handler env inp (Apply expected services) w = (res, w')"
  obtains (unchanged) "w' = w" "res \<notin> {Inr Applied, Inl Restored, Inl Recovery_needed}"
  | (started) release where "prepare_release env inp active expected services = Inr release"
      "load_recovery_release (release_part env) (files w) = Inr None"
      "activate_release env inp active release w = (res, w')"
proof (cases "load_recovery_release (release_part env) (files w)")
  case (Inl e)
  then show ?thesis using assms unchanged by (auto simp: update_handler_def)
next
  case (Inr recovery)
  show ?thesis
  proof (cases "prepare_release env inp active expected services")
    case (Inl e)
    then have "e \<notin> {Restored, Recovery_needed}" using prepare_Inl by blast
    then show ?thesis using assms Inl Inr unchanged by (auto simp: update_handler_def split: if_splits)
  next
    case (Inr release)
    then show ?thesis
      using assms \<open>load_recovery_release (release_part env) (files w) = Inr recovery\<close> unchanged started
      by (auto simp: update_handler_def split: if_splits)
  qed
qed

lemma apply_result_cases:
  assumes "load_active_release (release_part env) (files w) = Inr active"
    and "update_handler env inp (Apply expected services) w = (res, w')" and "slots_fit (files w')"
  shows "(res \<in> {Inl Refused, Inl Superseded, Inl Crashed} \<longrightarrow> w' = w)
    \<and> (res = Inr Applied \<longrightarrow> (\<exists>release rb. load_active_release (release_part env) (files w') = Inr (Some release)
         \<and> nodes w' = On (Some release) \<and> load_recovery_release (release_part env) (files w') = Inr None
         \<and> load_rollback_release (release_part env) (files w') = Inr (Some rb)
         \<and> expected_active_revision rb = revision release \<and> rollback_previous rb = active))
    \<and> (res = Inl Restored \<longrightarrow> load_active_release (release_part env) (files w') = Inr active \<and> nodes w' = On active
         \<and> load_recovery_release (release_part env) (files w') = Inr None
         \<and> load_rollback_release (release_part env) (files w') = Inr None)
    \<and> (res = Inl Recovery_needed \<longrightarrow> load_active_release (release_part env) (files w') = Inr active
         \<and> (\<exists>rec. load_recovery_release (release_part env) (files w') = Inr (Some rec) \<and> recovery_previous rec = active))"
  using assms(1,2)
proof (cases rule: apply_cases)
  case unchanged
  then show ?thesis by simp
next
  case (started release)
  have a: "pred_option (canonical (release_part env)) active" by (rule loaded_canonical [OF assms(1)])
  have r: "canonical (release_part env) release" by (rule prepared_canonical [OF started(1)])
  show ?thesis
  proof (cases "hex64 (revision release)")
    case False
    then have "\<exists>e. res = Inl (Release_problem e)"
      using started(3) by (auto simp: activate_release_def write_rollback_release_def put_files_def)
    then show ?thesis by auto
  next
    case True
    note new = activated_files [OF a r True, of "files w"] and old = restored_files [OF a r]
    note run = started(3) [unfolded activated [OF a r True] restored [OF a r]]
    consider "res = Inl Stopped" | "res = Inr Applied" | "res = Inl Restored" | "res = Inl Recovery_needed"
      using run by (auto split: if_splits deploy_outcome.splits)
    then show ?thesis
    proof cases
      case 2
      then show ?thesis
        using run new assms(3) started(2) deploy_nodes(1) by (auto split: if_splits deploy_outcome.splits)
    next
      case 3
      then show ?thesis
        using run old(1) assms(3) deploy_nodes(1) by (auto simp: load_absent split: if_splits deploy_outcome.splits)
    next
      case 4
      then show ?thesis
        using run old assms(3) by (fastforce split: if_splits deploy_outcome.splits)
    qed simp
  qed
qed

lemma apply_result:
  assumes "load_active_release (release_part env) (files w) = Inr active"
    and "update_handler env inp (Apply expected services) w = (Inr Applied, w')" and "slots_fit (files w')"
  shows "\<exists>release rb. load_active_release (release_part env) (files w') = Inr (Some release)
         \<and> nodes w' = On (Some release) \<and> load_recovery_release (release_part env) (files w') = Inr None
         \<and> load_rollback_release (release_part env) (files w') = Inr (Some rb)
         \<and> expected_active_revision rb = revision release \<and> rollback_previous rb = active"
  using apply_result_cases [OF assms] by blast


text \<open>
  A recovery record blocks everything but the recovery.  While it is there, updates and rollbacks
  are refused and change nothing, a failed recovery leaves the files as they are, and a successful
  one ends with the machines on the release before the update and no record left.
\<close>

theorem recovery_gate:
  assumes "load_active_release (release_part env) (files w) = Inr active"
    and "load_recovery_release (release_part env) (files w) = Inr (Some rec)"
  shows "update_handler env inp (Apply expected services) w = (Inl Refused, w)
    \<and> update_handler env inp (Rollback expected) w = (Inl Refused, w)
    \<and> (\<forall>e w'. update_handler env inp Recover w = (Inl e, w') \<longrightarrow> files w' = files w)
    \<and> (\<forall>x w'. update_handler env inp Recover w = (Inr x, w') \<longrightarrow>
         active = recovery_previous rec \<and> load_active_release (release_part env) (files w') = Inr active \<and> nodes w' = On active
         \<and> load_recovery_release (release_part env) (files w') = Inr None
         \<and> load_rollback_release (release_part env) (files w') = Inr None)"
proof -
  have h: "update_handler env inp Recover w = recover_update env inp active (Some rec) w"
    using assms by (simp add: update_handler_def)
  have "files w' = files w" if "update_handler env inp Recover w = (Inl e, w')" for e w'
    using that by (auto simp: h recover_update_def Let_def split: if_splits deploy_outcome.splits)
  moreover have "active = recovery_previous rec \<and> load_active_release (release_part env) (files w') = Inr active \<and> nodes w' = On active
         \<and> load_recovery_release (release_part env) (files w') = Inr None
         \<and> load_rollback_release (release_part env) (files w') = Inr None"
    if "update_handler env inp Recover w = (Inr x, w')" for x w'
  proof -
    have prev: "active = recovery_previous rec" and w': "w' = (deploy env Converged w)\<lparr>files := clear_rollback_release (clear_recovery_release (files w))\<rparr>"
      using that by (auto simp: h recover_update_def Let_def split: if_splits deploy_outcome.splits)
    have "load_active_release (release_part env) (files w') = load_active_release (release_part env) (files w)"
      by (rule active_slot.load_file) (simp add: w')
    with prev assms(1) show ?thesis by (simp add: w' load_absent deploy_nodes(1) [OF assms(1)])
  qed
  moreover have "update_handler env inp (Apply expected services) w = (Inl Refused, w)"
    "update_handler env inp (Rollback expected) w = (Inl Refused, w)"
    using assms by (simp_all add: update_handler_def)
  ultimately show ?thesis by blast
qed

lemma rollback_runs:
  assumes "load_active_release (release_part env) (files w) = Inr (Some r)"
    and "load_recovery_release (release_part env) (files w) = Inr None"
    and "load_rollback_release (release_part env) (files w) = Inr (Some rb)"
    and "expected_active_revision rb = revision r" and "pred_option (canonical (release_part env)) (rollback_previous rb)"
    and "update_handler env inp (Rollback (revision r)) w = (Inr x, w')"
  shows "w' = (deploy env Converged (w\<lparr>files := snd (write_active_release (release_part env) (rollback_previous rb) (files w))\<rparr>))
      \<lparr>files := clear_rollback_release (snd (write_active_release (release_part env) (rollback_previous rb) (files w)))\<rparr>"
proof -
  let ?w1 = "w\<lparr>files := snd (write_active_release (release_part env) (rollback_previous rb) (files w))\<rparr>"
  have ok: "fst (write_active_release (release_part env) (rollback_previous rb) (files w)) = Inr ()"
    by (rule active_slot.stores [OF assms(5)])
  have failed: "put_files k v (\<lambda>w3. (Inl Not_converged, w3)) \<noteq> (Inr x, w')" for k v
    by (auto simp: put_files_def split: prod.splits sum.splits)
  have "rollback_update env inp (Some r) (revision r) w = (Inr x, w')"
    using assms(1,2,6) by (simp add: update_handler_def)
  then show ?thesis
    using assms(3,4) failed
    by (simp add: rollback_update_def put_files_ok [OF ok] Let_def split: if_splits deploy_outcome.splits)
qed

text \<open>
  An update can be undone.  After it was applied, a rollback of its revision that converges ends
  with the release before the update active again, the machines on it, and no rollback record.
\<close>

theorem update_undone:
  assumes "load_active_release (release_part env) (files w) = Inr active"
    and "update_handler env inp (Apply expected services) w = (Inr Applied, w1)" and "slots_fit (files w1)"
    and "load_active_release (release_part env) (files w1) = Inr (Some release)"
    and "update_handler env inp' (Rollback (revision release)) w1 = (Inr x, w2)" and "slots_fit (files w2)"
  shows "load_active_release (release_part env) (files w2) = Inr active \<and> nodes w2 = On active
    \<and> load_rollback_release (release_part env) (files w2) = Inr None
    \<and> load_recovery_release (release_part env) (files w2) = Inr None"
proof -
  let ?e = "release_part env"
  from apply_result [OF assms(1-3)] assms(4) obtain rb where
    no: "load_recovery_release ?e (files w1) = Inr None" and rb: "load_rollback_release ?e (files w1) = Inr (Some rb)"
    "expected_active_revision rb = revision release" "rollback_previous rb = active" by auto
  have a: "pred_option (canonical ?e) active" by (rule loaded_canonical [OF assms(1)])
  let ?d = "snd (write_active_release ?e active (files w1))"
  have w2: "w2 = (deploy env Converged (w1\<lparr>files := ?d\<rparr>))\<lparr>files := clear_rollback_release ?d\<rparr>"
    using rollback_runs [OF assms(4) no rb(1,2) _ assms(5)] a rb(3) by simp
  then have "stored_size (active_file ?d) \<le> MAX_RELEASE_BYTES" using assms(6) by simp
  then have d: "load_active_release ?e ?d = Inr active" using active_slot.read_back [OF a] by simp
  moreover have "load_active_release ?e (clear_rollback_release ?d) = load_active_release ?e ?d"
    by (rule active_slot.load_file) simp
  moreover have "load_recovery_release ?e (clear_rollback_release ?d) = load_recovery_release ?e (files w1)"
    by (rule recovery_slot.load_file) simp
  ultimately show ?thesis using w2 no by (simp add: load_absent deploy_nodes(1))
qed

text \<open>
  C23: an update that is stopped while it deploys is the one that leaves no trace of its state.  When
  the deployment raises, as it does when the job is cancelled or loses its lease, the new release
  stays active although it was never verified, the machines are mixed, and no recovery record asks
  for a repair.
\<close>

theorem update_interrupted:
  assumes "load_active_release (release_part env) (files w) = Inr active"
    and "load_recovery_release (release_part env) (files w) = Inr None"
    and "prepare_release env inp active expected services = Inr release" and "hex64 (revision release)"
    and "in_announced inp" and "in_first inp = Raised"
    and "update_handler env inp (Apply expected services) w = (res, w')" and "slots_fit (files w')"
  shows "res = Inl Stopped \<and> load_active_release (release_part env) (files w') = Inr (Some release) \<and> nodes w' = Mixed
    \<and> load_recovery_release (release_part env) (files w') = Inr None"
proof -
  have a: "pred_option (canonical (release_part env)) active" by (rule loaded_canonical [OF assms(1)])
  have r: "canonical (release_part env) release" by (rule prepared_canonical [OF assms(3)])
  have "activate_release env inp active release w = (res, w')"
    using assms(1-3,7) by (simp add: update_handler_def)
  from this [unfolded activated [OF a r assms(4)]] show ?thesis
    using assms(2,5,6,8) activated_files [OF a r assms(4), of "files w"] by (auto simp: deploy_nodes(2))
qed

section \<open>A concrete update\<close>

definition zero_hex :: string where
  "zero_hex = replicate 64 (CHR ''0'')"

definition sample_update_env :: update_env where
  "sample_update_env =
     \<lparr>release_part = \<lparr>sha256_hex = (\<lambda>t. zero_hex), iso_zone = (\<lambda>t. Some True), number_text = (\<lambda>m e. [])\<rparr>,
      ip6_literal = (\<lambda>u. True)\<rparr>"

definition sample_report :: pyval where
  "sample_report = PList [PDict [(KStr ''needs_update'', PBool True), (KStr ''service'', PStr ''web''),
     (KStr ''current'', PStr ''1.2.3''), (KStr ''latest'', PStr ''1.3.0''), (KStr ''image'', PStr ''web:1.2.3'')]]"

definition sample_inputs :: "deploy_outcome \<Rightarrow> deploy_outcome \<Rightarrow> update_inputs" where
  "sample_inputs first_run second_run =
     \<lparr>in_plan = (Inr (Some (''now'', sample_report)), Some [(''web'', ''web:1.2.3'')]),
      in_plan_again = (Inr None, None), in_discovered = True, in_placed = (\<lambda>s. True),
      in_registry = (\<lambda>i. Some (PStr (''sha256:'' @ replicate 64 (CHR ''a'')))),
      in_needs_backup = Some False, in_backups_enabled = False, in_snapshots = False, in_now = ''now'',
      in_quiet = True, in_announced = True, in_reported = True, in_first = first_run, in_second = second_run\<rparr>"

definition first_world :: update_world where
  "first_world = \<lparr>files = empty_dir, nodes = On None\<rparr>"

definition updated_release :: release_state where
  "updated_release = \<lparr>revision = zero_hex, created_at = ''now'',
     images = [(''web'', ''web@sha256:'' @ replicate 64 (CHR ''a''))], versions = [(''web'', ''web:1.3.0'')], schema_version = 1\<rparr>"

lemma sample_prepared:
  "prepare_release sample_update_env (sample_inputs a b) None zero_hex [''web''] = Inr updated_release"
  by code_simp

theorem update_scope_witness:
  "map_of (images updated_release) ''db'' = None
   \<and> (\<exists>assembled c digest repo. snd (in_plan (sample_inputs Converged Converged)) = Some assembled
        \<and> sound_candidate (active_images None assembled) c \<and> uc_service c = ''web''
        \<and> map_of (versions updated_release) ''web'' = Some (uc_target_image c) \<and> prefix (repo @ '':'') (uc_target_image c)
        \<and> map_of (images updated_release) ''web'' = Some (repo @ ''@sha256:'' @ digest) \<and> hex64 digest)"
proof (rule conjI)
  note scope = update_scope [OF sample_prepared [of Converged Converged]]
  show "map_of (images updated_release) ''db'' = None"
    using conjunct1 [OF scope, rule_format, of "''db''"] by simp
  have "''web'' \<in> set [''web'']" by simp
  then show "\<exists>assembled c digest repo. snd (in_plan (sample_inputs Converged Converged)) = Some assembled
        \<and> sound_candidate (active_images None assembled) c \<and> uc_service c = ''web''
        \<and> map_of (versions updated_release) ''web'' = Some (uc_target_image c) \<and> prefix (repo @ '':'') (uc_target_image c)
        \<and> map_of (images updated_release) ''web'' = Some (repo @ ''@sha256:'' @ digest) \<and> hex64 digest"
    by (rule bspec [OF conjunct2 [OF scope]])
qed

lemma sample_canonical: "canonical (release_part sample_update_env) updated_release"
  by (rule prepared_canonical [OF sample_prepared [of Converged Converged]])

lemma sample_revision: "hex64 (revision updated_release)" "revision updated_release = zero_hex"
  by code_simp+

lemma sample_start:
  "load_active_release (release_part sample_update_env) (files first_world) = Inr None"
  "load_recovery_release (release_part sample_update_env) (files first_world) = Inr None"
  by code_simp+

definition updated_files :: release_dir where
  "updated_files = snd (write_active_release (release_part sample_update_env) (Some updated_release)
     (snd (write_rollback_release (release_part sample_update_env) (revision updated_release) None (files first_world))))"

lemma updated_active_size: "stored_size (active_file updated_files) < 1000"
proof -
  have "stored_size (release_text (release_part sample_update_env) (stored_release updated_release)) < 1000" by code_simp
  then show ?thesis by (simp add: updated_files_def write_active_release_def release_dict_canonical [OF sample_canonical])
qed

lemma updated_rollback_size: "stored_size (rollback_file updated_files) < 1000"
proof -
  have "stored_size (rollback_file (snd (write_rollback_release (release_part sample_update_env) zero_hex None empty_dir))) < 1000"
    by code_simp
  then show ?thesis by (simp add: updated_files_def sample_revision(2) first_world_def)
qed

lemma updated_fit: "slots_fit updated_files"
proof -
  have "recovery_file updated_files = No_release" by (simp add: updated_files_def first_world_def empty_dir_def)
  then show ?thesis
    using updated_active_size updated_rollback_size by (simp add: MAX_RELEASE_BYTES_def stored_size_def)
qed

lemma sample_handled:
  assumes "a \<noteq> Diverged"
  shows "update_handler sample_update_env (sample_inputs a b) (Apply zero_hex [''web'']) first_world
    = (if a = Converged then Inr Applied else Inl Stopped, deploy sample_update_env a (first_world\<lparr>files := updated_files\<rparr>))"
proof -
  have "update_handler sample_update_env (sample_inputs a b) (Apply zero_hex [''web'']) first_world
      = activate_release sample_update_env (sample_inputs a b) None updated_release first_world"
    using sample_start sample_prepared by (simp add: update_handler_def)
  also have "\<dots> = (if a = Converged then Inr Applied else Inl Stopped, deploy sample_update_env a (first_world\<lparr>files := updated_files\<rparr>))"
    using assms
    by (cases a) (simp_all add: activated [OF _ sample_canonical sample_revision(1)] updated_files_def [symmetric] sample_inputs_def)
  finally show ?thesis .
qed


theorem update_interrupted_witness:
  "\<exists>w'. update_handler sample_update_env (sample_inputs Raised Raised) (Apply zero_hex [''web'']) first_world = (Inl Stopped, w')
     \<and> load_active_release (release_part sample_update_env) (files w') = Inr (Some updated_release) \<and> nodes w' = Mixed
     \<and> load_recovery_release (release_part sample_update_env) (files w') = Inr None"
proof -
  have run: "update_handler sample_update_env (sample_inputs Raised Raised) (Apply zero_hex [''web'']) first_world
      = (Inl Stopped, deploy sample_update_env Raised (first_world\<lparr>files := updated_files\<rparr>))"
    by (simp add: sample_handled)
  have "in_announced (sample_inputs Raised Raised)" "in_first (sample_inputs Raised Raised) = Raised"
    by (simp_all add: sample_inputs_def)
  from update_interrupted [OF sample_start sample_prepared sample_revision(1) this run] run updated_fit
  show ?thesis by auto
qed

theorem recovery_gate_witness:
  "\<exists>w rec. load_recovery_release (release_part sample_update_env) (files w) = Inr (Some rec)
     \<and> update_handler sample_update_env (sample_inputs Converged Converged) (Apply zero_hex [''web'']) w = (Inl Refused, w)"
proof -
  let ?w = "first_world\<lparr>files := snd (write_recovery_release (release_part sample_update_env) None updated_release empty_dir)\<rparr>"
  have "optional_dict (release_part sample_update_env) None = Inr PNone" by (simp add: optional_dict_def)
  moreover have "revision_of (release_part sample_update_env) (PDict [(KStr ''failed'', stored_release updated_release),
      (KStr ''previous'', PNone), (KStr ''schema_version'', PInt 1)]) = Some zero_hex" by code_simp
  moreover have "stored_size (release_text (release_part sample_update_env) (PDict [(KStr ''failed'', stored_release updated_release),
      (KStr ''previous'', PNone), (KStr ''revision'', PStr zero_hex), (KStr ''schema_version'', PInt 1)])) < 1000" by code_simp
  ultimately have "stored_size (recovery_file (files ?w)) < 1000"
    by (simp add: write_recovery_release_def release_dict_canonical [OF sample_canonical])
  then have "stored_size (recovery_file (files ?w)) \<le> MAX_RELEASE_BYTES" by (simp add: MAX_RELEASE_BYTES_def)
  with recovery_slot.read_back [of "release_part sample_update_env" "(None, updated_release)" empty_dir] sample_canonical
  obtain rec where rec: "load_recovery_release (release_part sample_update_env) (files ?w) = Inr (Some rec)" by auto
  have "load_active_release (release_part sample_update_env) (files ?w) = load_active_release (release_part sample_update_env) (files first_world)"
    by (rule active_slot.load_file) (simp add: first_world_def)
  then have "load_active_release (release_part sample_update_env) (files ?w) = Inr None" using sample_start(1) by simp
  from recovery_gate [OF this rec] rec show ?thesis by blast
qed

theorem update_undone_witness:
  "\<exists>w1 w2. update_handler sample_update_env (sample_inputs Converged Diverged) (Apply zero_hex [''web'']) first_world = (Inr Applied, w1)
     \<and> update_handler sample_update_env (sample_inputs Converged Diverged) (Rollback zero_hex) w1 = (Inr Rolled_back, w2)
     \<and> load_active_release (release_part sample_update_env) (files w2) = Inr None \<and> nodes w2 = On None"
proof -
  let ?e = "release_part sample_update_env" and ?w1 = "deploy sample_update_env Converged (first_world\<lparr>files := updated_files\<rparr>)"
  have run: "update_handler sample_update_env (sample_inputs Converged Diverged) (Apply zero_hex [''web'']) first_world = (Inr Applied, ?w1)"
    by (simp add: sample_handled)
  have fit: "slots_fit (files ?w1)" using updated_fit by simp
  note facts = activated_files [OF _ sample_canonical sample_revision(1), of None "files first_world", folded updated_files_def]
  have new: "load_active_release ?e (files ?w1) = Inr (Some updated_release)" using facts(1) updated_fit by simp
  obtain seal where rb: "load_rollback_release ?e (files ?w1) = Inr (Some \<lparr>expected_active_revision = zero_hex, rollback_previous = None, rollback_revision = seal\<rparr>)"
    using facts(2) updated_fit sample_revision(2) by auto
  have no: "load_recovery_release ?e (files ?w1) = Inr None" using facts(3) sample_start(2) by simp
  let ?d = "snd (write_active_release ?e None updated_files)"
  have undo: "update_handler sample_update_env (sample_inputs Converged Diverged) (Rollback (revision updated_release)) ?w1
      = (Inr Rolled_back, (deploy sample_update_env Converged (?w1\<lparr>files := ?d\<rparr>))\<lparr>files := clear_rollback_release ?d\<rparr>)"
    using new no rb sample_revision(2)
    by (simp add: update_handler_def rollback_update_def sample_inputs_def put_files_ok write_active_release_def Let_def)
  have "slots_fit (clear_rollback_release ?d)"
    using updated_fit by (simp add: write_active_release_def stored_size_def MAX_RELEASE_BYTES_def)
  then show ?thesis
    using update_undone [OF sample_start(1) run fit new undo] run undo sample_revision(2) by auto
qed

end
