(* ===== verification/Ipv4.thy ===== *)
theory Ipv4
  imports Py_Documents "HOL-Library.Word"
begin

unbundle bit_operations_syntax

text \<open>
  IPv4 networks as Python's \<open>ipaddress\<close> has them: an address of 32 bits and a prefix length.  The
  operations are the ones the library computes, on words; the lemmas say what they mean for the
  addresses of a network.
\<close>

section \<open>Addresses and networks\<close>

type_synonym ipv4 = "32 word"

record ipv4_network =
  net_address :: ipv4
  net_prefix :: nat

definition host_bits :: "ipv4_network \<Rightarrow> nat" where
  "host_bits n = 32 - net_prefix n"

definition netmask :: "nat \<Rightarrow> ipv4" where
  "netmask p = NOT (mask (32 - p))"

text \<open>\<open>ip_network((a, p), strict=False)\<close>; the strict variant raises when host bits are set.\<close>

definition network_of :: "ipv4 \<Rightarrow> nat \<Rightarrow> ipv4_network" where
  "network_of a p = \<lparr>net_address = a AND netmask p, net_prefix = p\<rparr>"

definition strict_network :: "ipv4 \<Rightarrow> nat \<Rightarrow> ipv4_network option" where
  "strict_network a p = (if a AND netmask p = a then Some \<lparr>net_address = a, net_prefix = p\<rparr> else None)"

definition broadcast :: "ipv4_network \<Rightarrow> ipv4" where
  "broadcast n = net_address n OR mask (host_bits n)"

definition contains :: "ipv4_network \<Rightarrow> ipv4 \<Rightarrow> bool" where
  "contains n a \<longleftrightarrow> a AND netmask (net_prefix n) = net_address n"

definition overlaps :: "ipv4_network \<Rightarrow> ipv4_network \<Rightarrow> bool" where
  "overlaps m n \<longleftrightarrow>
     contains n (net_address m) \<or> contains n (broadcast m) \<or> contains m (net_address n) \<or> contains m (broadcast n)"

definition subnet_of :: "ipv4_network \<Rightarrow> ipv4_network \<Rightarrow> bool" where
  "subnet_of m n \<longleftrightarrow> net_address n \<le> net_address m \<and> broadcast m \<le> broadcast n"

section \<open>Texts\<close>

definition octet :: "string \<Rightarrow> nat option" where
  "octet s =
     (if s \<noteq> [] \<and> list_all is_digit s \<and> length s \<le> 3 \<and> (s = ''0'' \<or> hd s \<noteq> CHR ''0'') \<and> digits_number s \<le> 255
      then Some (nat (digits_number s)) else None)"

definition quad :: "nat \<Rightarrow> nat \<Rightarrow> nat \<Rightarrow> nat \<Rightarrow> ipv4" where
  "quad a b c d = word_of_nat (((a * 256 + b) * 256 + c) * 256 + d)"

definition parse_ipv4 :: "string \<Rightarrow> ipv4 option" where
  "parse_ipv4 s =
     (case map octet (split_on (CHR ''.'') s) of
        [Some a, Some b, Some c, Some d] \<Rightarrow> Some (quad a b c d)
      | _ \<Rightarrow> None)"

definition show_ipv4 :: "ipv4 \<Rightarrow> string" where
  "show_ipv4 w =
     (let n = unat w
      in join ''.'' (map show_nat [n div 16777216, n div 65536 mod 256, n div 256 mod 256, n mod 256]))"

definition show_network :: "ipv4_network \<Rightarrow> string" where
  "show_network n = show_ipv4 (net_address n) @ ''/'' @ show_nat (net_prefix n)"

text \<open>
  \<open>ip_network(text)\<close> on the form \<open>str\<close> of a network has: an address and a prefix length.  The program
  only reads texts that its validators have rendered in this form.
\<close>

definition parse_network :: "string \<Rightarrow> ipv4_network option" where
  "parse_network s =
     (case partition_at (CHR ''/'') s of
        (a, found, p) \<Rightarrow>
          if found \<and> p \<noteq> [] \<and> list_all is_digit p \<and> digits_number p \<le> 32
          then (case parse_ipv4 a of None \<Rightarrow> None | Some w \<Rightarrow> strict_network w (nat (digits_number p)))
          else None)"

section \<open>What the operations mean\<close>

definition canonical_network :: "ipv4_network \<Rightarrow> bool" where
  "canonical_network n \<longleftrightarrow> net_prefix n \<le> 32 \<and> net_address n AND netmask (net_prefix n) = net_address n"

lemma masked_eq_iff:
  fixes a b :: ipv4
  shows "a AND netmask p = b AND netmask p \<longleftrightarrow> drop_bit (32 - p) a = drop_bit (32 - p) b"
proof
  assume h: "a AND netmask p = b AND netmask p"
  show "drop_bit (32 - p) a = drop_bit (32 - p) b"
  proof (rule bit_eqI)
    fix n
    have "bit (a AND netmask p) (32 - p + n) = bit (b AND netmask p) (32 - p + n)" using h by simp
    then show "bit (drop_bit (32 - p) a) n = bit (drop_bit (32 - p) b) n"
      by (auto simp: netmask_def bit_simps dest: bit_imp_le_length)
  qed
next
  assume h: "drop_bit (32 - p) a = drop_bit (32 - p) b"
  show "a AND netmask p = b AND netmask p"
  proof (rule bit_eqI)
    fix n
    have "bit (drop_bit (32 - p) a) (n - (32 - p)) = bit (drop_bit (32 - p) b) (n - (32 - p))" using h by simp
    then show "bit (a AND netmask p) n = bit (b AND netmask p) n"
      by (auto simp: netmask_def bit_simps)
  qed
qed

lemma contains_iff:
  assumes "canonical_network n"
  shows "contains n a \<longleftrightarrow> drop_bit (host_bits n) a = drop_bit (host_bits n) (net_address n)"
  using assms masked_eq_iff [of a "net_prefix n" "net_address n"]
  by (simp add: contains_def canonical_network_def host_bits_def)

lemma contains_own: "canonical_network n \<Longrightarrow> contains n (net_address n)"
  by (simp add: contains_iff)

lemma network_of_canonical: "p \<le> 32 \<Longrightarrow> canonical_network (network_of a p)"
  by (simp add: canonical_network_def network_of_def and.assoc)

lemma contains_network_of: "p \<le> 32 \<Longrightarrow> contains (network_of a p) a"
  by (simp add: contains_def network_of_def)

text \<open>Two networks overlap when they have an address in common; then one holds the other.\<close>

lemma nested:
  assumes "canonical_network m" and "canonical_network n" and "host_bits m \<le> host_bits n"
    and "contains m x" and "contains n x"
  shows "contains n (net_address m)"
proof -
  have "drop_bit (host_bits n) y = drop_bit (host_bits n - host_bits m) (drop_bit (host_bits m) y)" for y :: ipv4
    using assms(3) by (simp add: drop_bit_drop_bit)
  then have "drop_bit (host_bits n) (net_address m) = drop_bit (host_bits n) x"
    using assms(1,4) contains_iff by metis
  with assms(2,5) show ?thesis by (simp only: contains_iff)
qed

lemma overlaps_iff:
  assumes "canonical_network m" and "canonical_network n"
  shows "overlaps m n \<longleftrightarrow> (\<exists>x. contains m x \<and> contains n x)"
proof
  have "contains k (broadcast k)" if "canonical_network k" for k
  proof -
    have "drop_bit (host_bits k) (broadcast k) = drop_bit (host_bits k) (net_address k)"
      by (rule bit_eqI) (auto simp: broadcast_def bit_simps)
    with that show ?thesis by (simp add: contains_iff)
  qed
  then show "\<exists>x. contains m x \<and> contains n x" if "overlaps m n"
    using that assms contains_own by (auto simp: overlaps_def)
  assume "\<exists>x. contains m x \<and> contains n x"
  then show "overlaps m n"
    using nested [OF assms] nested [OF assms(2,1)] by (metis linear overlaps_def)
qed

lemma overlaps_commute: "overlaps m n \<longleftrightarrow> overlaps n m"
  by (auto simp: overlaps_def)

end
