(* ===== verification/Network_Plan.thy ===== *)
theory Network_Plan
  imports Ipv4 Placement
begin

text \<open>
  The address plan: the validators of \<open>NetworkConfig\<close> and of the machine networks
  (\<open>core/config/config.py\<close>), the edge and collector networks of \<open>core/infra/edge_network.py\<close>, and the
  allocation of a small bridge network per Compose network, \<open>_assign_network_subnets\<close> in
  \<open>core/generate/compose_assemble.py\<close>.  The first eight bytes of the SHA-256 digest of a name, read as
  a number, are the argument \<open>name_hash\<close>.
\<close>

section \<open>Validated settings\<close>

definition net :: "nat \<Rightarrow> nat \<Rightarrow> nat \<Rightarrow> nat \<Rightarrow> nat \<Rightarrow> ipv4_network" where
  "net a b c d p = \<lparr>net_address = quad a b c d, net_prefix = p\<rparr>"

definition valid_network_settings :: "network_settings \<Rightarrow> bool" where
  "valid_network_settings s \<longleftrightarrow>
     (case parse_network (mesh_ipv4_cidr s) of
        None \<Rightarrow> False | Some mesh \<Rightarrow> subnet_of mesh (net 100 64 0 0 10))
     \<and> (case parse_network (container_ipv4_cidr s) of
          None \<Rightarrow> False
        | Some pool \<Rightarrow>
            list_ex (subnet_of pool) [net 10 0 0 0 8, net 172 16 0 0 12, net 192 168 0 0 16]
            \<and> net_prefix pool < container_network_prefix s)
     \<and> 24 \<le> container_network_prefix s \<and> container_network_prefix s \<le> 29"

text \<open>The network of a machine; its address has been validated and its prefix lies in 1 to 32.\<close>

definition machine_network :: "machine_spec \<Rightarrow> ipv4_network option" where
  "machine_network m = map_option (\<lambda>a. network_of a (machine_cidr m)) (parse_ipv4 (address m))"

definition machines_clear_of :: "config \<Rightarrow> ipv4_network \<Rightarrow> bool" where
  "machines_clear_of cfg pool \<longleftrightarrow>
     list_all (\<lambda>(i, m). \<not> enabled m \<or> pred_option (\<lambda>n. \<not> overlaps n pool) (machine_network m)) (machines cfg)"

definition valid_networks :: "config \<Rightarrow> bool" where
  "valid_networks cfg \<longleftrightarrow>
     valid_network_settings (network cfg)
     \<and> list_all (\<lambda>(i, m). parse_ipv4 (address m) \<noteq> None \<and> 1 \<le> machine_cidr m \<and> machine_cidr m \<le> 32) (machines cfg)
     \<and> distinct (map (address \<circ> snd) (machines cfg))
     \<and> pred_option (machines_clear_of cfg) (parse_network (mesh_ipv4_cidr (network cfg)))
     \<and> pred_option (machines_clear_of cfg) (parse_network (container_ipv4_cidr (network cfg)))"

section \<open>Edge and collector networks\<close>

datatype network_error =
    No_provider | Network_config config_error | Bad_network | Stop_iteration
  | Too_many_networks nat nat | Pool_exhausted | Not_a_mapping string

text \<open>\<open>mesh_lan_cidr\<close>: the network of the machine that runs the provider of the mesh router.\<close>

definition mesh_lan :: "config \<Rightarrow> service_manifest option \<Rightarrow> network_error + ipv4_network" where
  "mesh_lan cfg router =
     (case router of
        None \<Rightarrow> Inl No_provider
      | Some man \<Rightarrow>
          (case manifest_node cfg man of
             Inl e \<Rightarrow> Inl (Network_config e)
           | Inr node \<Rightarrow>
               (case map_of (machines cfg) node of
                  None \<Rightarrow> Inl (Network_config (Unknown_name node))
                | Some m \<Rightarrow> (case machine_network m of None \<Rightarrow> Inl Bad_network | Some n \<Rightarrow> Inr n))))"

definition first_free :: "ipv4_network list \<Rightarrow> ipv4_network list \<Rightarrow> network_error + ipv4_network" where
  "first_free taken candidates =
     (case find (\<lambda>c. list_all (\<lambda>t. \<not> overlaps c t) taken) candidates of None \<Rightarrow> Inl Stop_iteration | Some c \<Rightarrow> Inr c)"

definition container_pool :: "config \<Rightarrow> network_error + ipv4_network" where
  "container_pool cfg =
     (case parse_network (container_ipv4_cidr (network cfg)) of None \<Rightarrow> Inl Bad_network | Some p \<Rightarrow> Inr p)"

definition edge_network :: "config \<Rightarrow> service_manifest option \<Rightarrow> network_error + ipv4_network" where
  "edge_network cfg router =
     then_do (mesh_lan cfg router) (\<lambda>private.
     then_do (container_pool cfg) (\<lambda>pool.
       first_free [private, pool] [net 172 31 250 0 24, net 172 30 250 0 24, net 10 255 250 0 24]))"

definition edge_network_values :: "config \<Rightarrow> service_manifest option \<Rightarrow> network_error + string \<times> string" where
  "edge_network_values cfg router =
     then_do (edge_network cfg router) (\<lambda>n. Inr (show_network n, show_ipv4 (net_address n + 2)))"

definition prometheus_egress_network :: "config \<Rightarrow> service_manifest option \<Rightarrow> network_error + ipv4_network" where
  "prometheus_egress_network cfg router =
     then_do (mesh_lan cfg router) (\<lambda>private.
     then_do (container_pool cfg) (\<lambda>pool.
     then_do (edge_network cfg router) (\<lambda>edge.
       first_free [private, pool, edge] [net 172 31 249 0 24, net 172 30 249 0 24, net 10 255 249 0 24])))"

section \<open>Bridge networks\<close>

partial_function (option) probe ::
  "nat \<Rightarrow> nat list \<Rightarrow> nat \<Rightarrow> nat \<Rightarrow> (network_error + nat) option"
where
  "probe slot_count occupied initial slot =
     (if slot \<notin> set occupied then Some (Inr slot)
      else (let next_slot = (slot + 1) mod slot_count
            in if next_slot = initial then Some (Inl Pool_exhausted) else probe slot_count occupied initial next_slot))"

text \<open>
  The networks that need a bridge: not external, no address plan of their own, and of the driver
  \<open>bridge\<close>.
\<close>

definition needs_bridge :: "pyval \<Rightarrow> bool" where
  "needs_bridge raw =
     (case raw of
        PDict d \<Rightarrow>
          \<not> truthy (dict_get_or ''external'' PNone d) \<and> \<not> truthy (dict_get_or ''ipam'' PNone d)
          \<and> dict_get_or ''driver'' (PStr ''bridge'') d = PStr ''bridge''
      | _ \<Rightarrow> True)"

definition bridge_definition :: "ipv4_network \<Rightarrow> document \<Rightarrow> document" where
  "bridge_definition subnet d =
     dict_set (KStr ''ipam'')
       (PDict [(KStr ''config'', PList [PDict [(KStr ''subnet'', PStr (show_network subnet))]])])
       (if dict_get ''driver'' d = None then dict_set (KStr ''driver'') (PStr ''bridge'') d else d)"

definition slot_network :: "ipv4_network \<Rightarrow> nat \<Rightarrow> nat \<Rightarrow> ipv4_network" where
  "slot_network pool prefix_len slot =
     \<lparr>net_address = word_of_nat (unat (net_address pool) + slot * 2 ^ (32 - prefix_len)), net_prefix = prefix_len\<rparr>"

text \<open>The loop over the sorted names; \<open>networks\<close> has text keys.  The last component is the plan so far.\<close>

fun assign_slots ::
  "(string \<Rightarrow> nat) \<Rightarrow> ipv4_network \<Rightarrow> nat \<Rightarrow> string list \<Rightarrow> nat list \<Rightarrow> (string \<times> pyval) list \<Rightarrow> (string \<times> ipv4_network) list
     \<Rightarrow> (network_error + (string \<times> pyval) list \<times> (string \<times> ipv4_network) list) option"
where
  "assign_slots name_hash pool prefix_len [] occupied networks plan = Some (Inr (networks, plan))"
| "assign_slots name_hash pool prefix_len (name # names) occupied networks plan =
     (let slot_count = 2 ^ (prefix_len - net_prefix pool); start = name_hash name mod slot_count
      in case probe slot_count occupied start start of
           None \<Rightarrow> None
         | Some (Inl e) \<Rightarrow> Some (Inl e)
         | Some (Inr slot) \<Rightarrow>
             (let subnet = slot_network pool prefix_len slot
              in case map_of networks name of
                   Some (PDict d) \<Rightarrow>
                     assign_slots name_hash pool prefix_len names (slot # occupied)
                       (dict_set name (PDict (bridge_definition subnet d)) networks) (plan @ [(name, subnet)])
                 | Some PNone \<Rightarrow>
                     assign_slots name_hash pool prefix_len names (slot # occupied)
                       (dict_set name (PDict (bridge_definition subnet [])) networks) (plan @ [(name, subnet)])
                 | _ \<Rightarrow> Some (Inl (Not_a_mapping name))))"

definition bridge_names :: "(string \<times> pyval) list \<Rightarrow> string list" where
  "bridge_names networks = map fst (filter (\<lambda>(name, raw). needs_bridge raw) networks)"

definition assign_network_subnets ::
  "(string \<Rightarrow> nat) \<Rightarrow> config \<Rightarrow> (string \<times> pyval) list
     \<Rightarrow> (network_error + (string \<times> pyval) list \<times> (string \<times> ipv4_network) list) option"
where
  "assign_network_subnets name_hash cfg networks =
     (case container_pool cfg of
        Inl e \<Rightarrow> Some (Inl e)
      | Inr pool \<Rightarrow>
          (let prefix_len = container_network_prefix (network cfg); names = bridge_names networks
           in if length names > 2 ^ (prefix_len - net_prefix pool)
              then Some (Inl (Too_many_networks (length names) (2 ^ (prefix_len - net_prefix pool))))
              else assign_slots name_hash pool prefix_len (sort names) [] networks []))"

end
