(* ===== verification/Network_Properties.thy ===== *)
theory Network_Properties
  imports Network_Plan
begin

unbundle bit_operations_syntax

text \<open>
  What the address plan guarantees: bridge networks are allocated without a clash inside the pool,
  and the edge and collector networks stay clear of everything else.
\<close>

section \<open>Networks as blocks of addresses\<close>

lemma canonical_dvd:
  "canonical_network n \<longleftrightarrow> net_prefix n \<le> 32 \<and> 2 ^ host_bits n dvd unat (net_address n)"
proof -
  let ?a = "net_address n" and ?k = "host_bits n"
  have "?a AND netmask (net_prefix n) = ?a \<longleftrightarrow> take_bit ?k ?a = 0"
  proof
    assume h: "?a AND netmask (net_prefix n) = ?a"
    show "take_bit ?k ?a = 0"
      by (rule bit_eqI, subst h [symmetric]) (auto simp: netmask_def host_bits_def bit_simps)
  next
    assume h: "take_bit ?k ?a = 0"
    have "\<not> bit ?a i" if "i < ?k" for i
      using h that by (metis bit_0_eq bit_take_bit_iff bot_apply bot_bool_def)
    then show "?a AND netmask (net_prefix n) = ?a"
      by (intro bit_eqI) (auto simp: netmask_def host_bits_def bit_simps dest: bit_imp_le_length intro: leI)
  qed
  also have "\<dots> \<longleftrightarrow> unat (take_bit ?k ?a) = 0" by (simp add: unat_eq_0)
  also have "unat (take_bit ?k ?a) = take_bit ?k (unat ?a)" by (rule unsigned_take_bit_eq)
  also have "\<dots> = unat ?a mod 2 ^ ?k" by (rule take_bit_eq_mod)
  also have "\<dots> = 0 \<longleftrightarrow> 2 ^ ?k dvd unat ?a" by (simp only: dvd_eq_mod_eq_0)
  finally show ?thesis by (auto simp: canonical_network_def)
qed

lemma contains_div:
  assumes "canonical_network n"
  shows "contains n a \<longleftrightarrow> unat a div 2 ^ host_bits n = unat (net_address n) div 2 ^ host_bits n"
proof -
  have "unat (drop_bit (host_bits n) x) = unat x div 2 ^ host_bits n" for x :: ipv4
    by (simp add: unat_drop_bit_eq) (simp add: drop_bit_eq_div)
  then show ?thesis using contains_iff [OF assms] unsigned_word_eqI by metis
qed

lemma disjoint_blocks:
  assumes "canonical_network m" and "canonical_network n" and "host_bits m = host_bits n" and "net_address m \<noteq> net_address n"
  shows "\<not> overlaps m n"
proof
  assume "overlaps m n"
  then obtain x where x: "contains m x" "contains n x" using overlaps_iff [OF assms(1,2)] by blast
  from x have "unat (net_address m) div 2 ^ host_bits m = unat (net_address n) div 2 ^ host_bits m"
    using assms contains_div by metis
  moreover have "2 ^ host_bits m dvd unat (net_address m)" "2 ^ host_bits m dvd unat (net_address n)"
    using assms canonical_dvd by auto
  ultimately have "unat (net_address m) = unat (net_address n)" by (metis dvd_div_eq_cancel div_by_0 power_not_zero zero_neq_numeral)
  then have "net_address m = net_address n" by (rule unsigned_word_eqI)
  with assms(4) show False ..
qed

lemma overlaps_div:
  assumes "canonical_network m" and "canonical_network n" and "host_bits m \<le> host_bits n"
  shows "overlaps m n \<longleftrightarrow> unat (net_address m) div 2 ^ host_bits n = unat (net_address n) div 2 ^ host_bits n"
proof -
  have "overlaps m n \<longleftrightarrow> contains n (net_address m)"
    using overlaps_iff [OF assms(1,2)] nested [OF assms] contains_own [OF assms(1)] by blast
  then show ?thesis using contains_div [OF assms(2)] by simp
qed

lemma network_of_block: "p \<le> 32 \<Longrightarrow> unat (net_address (network_of a p)) = unat a div 2 ^ (32 - p) * 2 ^ (32 - p)"
  using contains_div [OF network_of_canonical, of p a a] contains_network_of [of p a] network_of_canonical [of p a]
  by (auto simp: canonical_dvd host_bits_def network_of_def elim!: dvdE)

lemmas block_view = canonical_dvd host_bits_def net_def quad_def

section \<open>Slots\<close>

lemma drop_bit_split: "j \<le> k \<Longrightarrow> drop_bit k x = drop_bit (k - j) (drop_bit j x)" for x :: ipv4
  by (simp add: drop_bit_drop_bit)

lemma slot_address:
  assumes "canonical_network pool" and "net_prefix pool < p" and "p \<le> 32" and "slot < 2 ^ (p - net_prefix pool)"
  shows "unat (net_address (slot_network pool p slot)) = unat (net_address pool) + slot * 2 ^ (32 - p)"
    and "slot * 2 ^ (32 - p) < 2 ^ host_bits pool"
proof -
  let ?q = "net_prefix pool" and ?a = "unat (net_address pool)"
  have split: "(2 :: nat) ^ (32 - ?q) = 2 ^ (p - ?q) * 2 ^ (32 - p)"
    using assms(2,3) by (simp add: power_add [symmetric])
  from assms(4) show less: "slot * 2 ^ (32 - p) < 2 ^ host_bits pool"
    by (simp add: host_bits_def split)
  obtain c where c: "?a = 2 ^ (32 - ?q) * c" using assms(1) by (auto simp: canonical_dvd host_bits_def dvd_def)
  have "?a < 2 ^ 32" using unsigned_less [of "net_address pool"] by simp
  moreover have "(2 :: nat) ^ 32 = 2 ^ (32 - ?q) * 2 ^ ?q" using assms(2,3) by (simp add: power_add [symmetric])
  ultimately have "2 ^ (32 - ?q) * c < 2 ^ (32 - ?q) * 2 ^ ?q" using c by metis
  then have "c < 2 ^ ?q" by (simp only: nat_mult_less_cancel_disj)
  then have "2 ^ (32 - ?q) * (c + 1) \<le> 2 ^ (32 - ?q) * (2 :: nat) ^ ?q" by (intro mult_le_mono2) simp
  then have "?a + 2 ^ (32 - ?q) \<le> 2 ^ 32" using c \<open>(2 :: nat) ^ 32 = _\<close> by (simp add: algebra_simps)
  then have "?a + slot * 2 ^ (32 - p) < 2 ^ 32" using less by (simp add: host_bits_def)
  then show "unat (net_address (slot_network pool p slot)) = ?a + slot * 2 ^ (32 - p)"
    by (simp add: slot_network_def unsigned_of_nat take_bit_nat_eq_self del: of_nat_add of_nat_mult)
qed

lemma slot_canonical:
  assumes "canonical_network pool" and "net_prefix pool < p" and "p \<le> 32" and "slot < 2 ^ (p - net_prefix pool)"
  shows "canonical_network (slot_network pool p slot)"
proof -
  have "(2 :: nat) ^ (32 - p) dvd 2 ^ (32 - net_prefix pool)" using assms(2) by (intro le_imp_power_dvd) simp
  then have "2 ^ (32 - p) dvd unat (net_address pool)"
    using assms(1) by (auto simp: canonical_dvd host_bits_def intro: dvd_trans)
  then show ?thesis
    using slot_address(1) [OF assms] assms(3) by (simp add: canonical_dvd host_bits_def slot_network_def)
qed

lemma slot_inside:
  assumes "canonical_network pool" and "net_prefix pool < p" and "p \<le> 32" and "slot < 2 ^ (p - net_prefix pool)"
    and "contains (slot_network pool p slot) x"
  shows "contains pool x"
proof -
  let ?s = "slot_network pool p slot"
  have "unat (net_address ?s) div 2 ^ host_bits pool = unat (net_address pool) div 2 ^ host_bits pool"
  proof -
    have "2 ^ host_bits pool dvd unat (net_address pool)" using assms(1) canonical_dvd by blast
    then show ?thesis using slot_address [OF assms(1-4)] by (auto elim!: dvdE)
  qed
  then have pool: "contains pool (net_address ?s)" using assms(1) contains_div by blast
  have "host_bits ?s \<le> host_bits pool" using assms(2) by (simp add: host_bits_def slot_network_def)
  then have "drop_bit (host_bits pool) x = drop_bit (host_bits pool) (net_address ?s)"
    using assms(5) contains_iff [OF slot_canonical [OF assms(1-4)]] drop_bit_split by metis
  with pool show ?thesis using assms(1) contains_iff by metis
qed

lemma slots_disjoint:
  assumes "canonical_network pool" and "net_prefix pool < p" and "p \<le> 32"
    and "s < 2 ^ (p - net_prefix pool)" and "t < 2 ^ (p - net_prefix pool)" and "s \<noteq> t"
  shows "\<not> overlaps (slot_network pool p s) (slot_network pool p t)"
proof (rule disjoint_blocks)
  show "canonical_network (slot_network pool p s)" "canonical_network (slot_network pool p t)"
    using assms slot_canonical by blast+
  show "host_bits (slot_network pool p s) = host_bits (slot_network pool p t)"
    by (simp add: host_bits_def slot_network_def)
  show "net_address (slot_network pool p s) \<noteq> net_address (slot_network pool p t)"
  proof
    assume "net_address (slot_network pool p s) = net_address (slot_network pool p t)"
    then have "unat (net_address pool) + s * 2 ^ (32 - p) = unat (net_address pool) + t * 2 ^ (32 - p)"
      using slot_address(1) [OF assms(1-4)] slot_address(1) [OF assms(1-3,5)] by metis
    then have "s * 2 ^ (32 - p) = t * (2 :: nat) ^ (32 - p)" by linarith
    then have "s = t" using mult_cancel2 [of s "2 ^ (32 - p)" t] by simp
    with assms(6) show False ..
  qed
qed

section \<open>Probing\<close>

lemma probe_from:
  assumes "n > 0" and "initial < n" and "i < n" and "\<forall>j < i. (initial + j) mod n \<in> set occupied"
    and "card (set occupied) < n"
  shows "\<exists>s. probe n occupied initial ((initial + i) mod n) = Some (Inr s) \<and> s < n \<and> s \<notin> set occupied"
  using assms(3,4)
proof (induction "n - i" arbitrary: i rule: less_induct)
  case less
  let ?s = "(initial + i) mod n"
  show ?case
  proof (cases "?s \<in> set occupied")
    case False
    with assms(1) show ?thesis by (subst probe.simps) simp
  next
    case True
    with less.prems(2) have taken: "\<forall>j < Suc i. (initial + j) mod n \<in> set occupied" by (auto simp: less_Suc_eq)
    have "Suc i \<noteq> n"
    proof
      assume "Suc i = n"
      have "{..<n} \<subseteq> set occupied"
      proof
        fix s assume "s \<in> {..<n}"
        then have s: "s < n" by simp
        let ?j = "if initial \<le> s then s - initial else n - initial + s"
        have "?j < n" using s assms(2) by auto
        moreover have "(initial + ?j) mod n = s" using s assms(2) by (auto simp: mod_add_self1)
        ultimately show "s \<in> set occupied" using taken \<open>Suc i = n\<close> by metis
      qed
      then have "n \<le> card (set occupied)" by (metis List.finite_set card_lessThan card_mono)
      with assms(5) show False by simp
    qed
    with less.prems(1) have i: "Suc i < n" by simp
    have "(?s + 1) mod n = (initial + Suc i) mod n" by (simp add: mod_Suc_eq)
    moreover have "(initial + Suc i) mod n \<noteq> initial"
    proof (cases "initial + Suc i < n")
      case False
      then have "(initial + Suc i) mod n = initial + Suc i - n" using i assms(2) by (simp add: mod_if)
      with i False show ?thesis by linarith
    qed simp
    ultimately have "probe n occupied initial ?s = probe n occupied initial ((initial + Suc i) mod n)"
      using True by (subst probe.simps) (simp add: Let_def)
    then show ?thesis using less.hyps [of "Suc i"] i taken less.prems(1) by simp
  qed
qed

lemma probe_finds:
  assumes "n > 0" and "distinct occupied" and "length occupied < n"
  shows "\<exists>s. probe n occupied (h mod n) (h mod n) = Some (Inr s) \<and> s < n \<and> s \<notin> set occupied"
  using probe_from [of n "h mod n" 0 occupied] assms by (simp add: distinct_card)

section \<open>The allocation\<close>

definition mapping_or_none :: "pyval \<Rightarrow> bool" where
  "mapping_or_none v = (case v of PDict d \<Rightarrow> True | PNone \<Rightarrow> True | _ \<Rightarrow> False)"

definition definition_of :: "pyval \<Rightarrow> document" where
  "definition_of v = (case v of PDict d \<Rightarrow> d | _ \<Rightarrow> [])"

lemma assign_slots_result:
  assumes "canonical_network pool" and "net_prefix pool < p" and "p \<le> 32"
    and "distinct names" and "distinct occupied" and "\<forall>s \<in> set occupied. s < 2 ^ (p - net_prefix pool)"
    and "length names + length occupied \<le> 2 ^ (p - net_prefix pool)"
    and "\<forall>n \<in> set names. \<exists>v. map_of networks n = Some v \<and> mapping_or_none v"
  shows "\<exists>networks' slots. assign_slots h pool p names occupied networks plan
        = Some (Inr (networks', plan @ zip names (map (slot_network pool p) slots)))
    \<and> length slots = length names \<and> distinct slots \<and> set slots \<inter> set occupied = {}
    \<and> (\<forall>s \<in> set slots. s < 2 ^ (p - net_prefix pool))
    \<and> (\<forall>n. n \<notin> set names \<longrightarrow> map_of networks' n = map_of networks n)
    \<and> (\<forall>i < length names. map_of networks' (names ! i)
          = map_option (\<lambda>v. PDict (bridge_definition (slot_network pool p (slots ! i)) (definition_of v))) (map_of networks (names ! i)))"
  using assms(4-8)
proof (induction names arbitrary: occupied networks plan)
  case (Cons name names)
  let ?n = "2 ^ (p - net_prefix pool)"
  from Cons.prems(4) obtain s where s: "probe ?n occupied (h name mod ?n) (h name mod ?n) = Some (Inr s)"
    "s < ?n" "s \<notin> set occupied"
    using probe_finds [of ?n occupied "h name"] Cons.prems(2) by auto
  from Cons.prems(5) obtain v where v: "map_of networks name = Some v" "mapping_or_none v" by auto
  let ?net = "slot_network pool p s"
  let ?new = "dict_set name (PDict (bridge_definition ?net (definition_of v))) networks"
  have step: "assign_slots h pool p (name # names) occupied networks plan
      = assign_slots h pool p names (s # occupied) ?new (plan @ [(name, ?net)])"
    using s(1) v by (simp add: Let_def mapping_or_none_def definition_of_def split: pyval.splits)
  have "name \<notin> set names" using Cons.prems(1) by simp
  have "\<exists>networks' slots. assign_slots h pool p names (s # occupied) ?new (plan @ [(name, ?net)])
        = Some (Inr (networks', (plan @ [(name, ?net)]) @ zip names (map (slot_network pool p) slots)))
    \<and> length slots = length names \<and> distinct slots \<and> set slots \<inter> set (s # occupied) = {}
    \<and> (\<forall>s \<in> set slots. s < ?n)
    \<and> (\<forall>n. n \<notin> set names \<longrightarrow> map_of networks' n = map_of ?new n)
    \<and> (\<forall>i < length names. map_of networks' (names ! i)
          = map_option (\<lambda>v. PDict (bridge_definition (slot_network pool p (slots ! i)) (definition_of v))) (map_of ?new (names ! i)))"
    by (rule Cons.IH) (use Cons.prems s \<open>name \<notin> set names\<close> in \<open>auto simp: map_of_dict_set\<close>)
  then obtain networks' slots where ih: "assign_slots h pool p names (s # occupied) ?new (plan @ [(name, ?net)])
        = Some (Inr (networks', (plan @ [(name, ?net)]) @ zip names (map (slot_network pool p) slots)))"
    "length slots = length names" "distinct slots" "set slots \<inter> set (s # occupied) = {}" "\<forall>s \<in> set slots. s < ?n"
    "\<forall>n. n \<notin> set names \<longrightarrow> map_of networks' n = map_of ?new n"
    "\<forall>i < length names. map_of networks' (names ! i)
          = map_option (\<lambda>v. PDict (bridge_definition (slot_network pool p (slots ! i)) (definition_of v))) (map_of ?new (names ! i))"
    by blast
  have "map_of networks' ((name # names) ! i)
      = map_option (\<lambda>v. PDict (bridge_definition (slot_network pool p ((s # slots) ! i)) (definition_of v)))
          (map_of networks ((name # names) ! i))" if "i < length (name # names)" for i
  proof (cases i)
    case 0
    then show ?thesis using ih(6) \<open>name \<notin> set names\<close> v by (simp add: map_of_dict_set)
  next
    case (Suc j)
    then have "j < length names" using that by simp
    moreover have "names ! j \<noteq> name" using \<open>name \<notin> set names\<close> \<open>j < length names\<close> by (metis nth_mem)
    ultimately show ?thesis using ih(7) Suc by (simp add: map_of_dict_set)
  qed
  then show ?case
    using ih(1-6) s(2,3) unfolding step
    by (intro exI [of _ networks'] exI [of _ "s # slots"]) (auto simp: map_of_dict_set)
qed simp

lemma parsed_canonical: "parse_network t = Some n \<Longrightarrow> canonical_network n"
  by (auto simp: parse_network_def strict_network_def canonical_network_def split: prod.splits if_splits option.splits)

lemma valid_pool:
  assumes "valid_network_settings (network cfg)"
  shows "\<exists>pool. container_pool cfg = Inr pool \<and> canonical_network pool
    \<and> net_prefix pool < container_network_prefix (network cfg) \<and> container_network_prefix (network cfg) \<le> 32"
  using assms by (auto simp: valid_network_settings_def container_pool_def intro: parsed_canonical split: option.splits)

lemma bridge_names_values:
  assumes "distinct (map fst networks)" and "list_all (mapping_or_none \<circ> snd) networks"
  shows "distinct (bridge_names networks)
    \<and> (\<forall>n \<in> set (bridge_names networks). \<exists>v. map_of networks n = Some v \<and> mapping_or_none v)"
proof -
  have "(n, v) \<in> set networks \<Longrightarrow> map_of networks n = Some v \<and> mapping_or_none v" for n v
    using assms by (auto simp: list_all_iff)
  then show ?thesis
    using assms(1) by (fastforce simp: bridge_names_def distinct_map inj_on_def distinct_map_filter)
qed

lemma assign_result:
  assumes "valid_network_settings (network cfg)" and "distinct (map fst networks)"
    and "list_all (mapping_or_none \<circ> snd) networks" and "container_pool cfg = Inr pool"
    and "length (bridge_names networks) \<le> 2 ^ (container_network_prefix (network cfg) - net_prefix pool)"
  shows "\<exists>networks' slots. let p = container_network_prefix (network cfg); names = sort (bridge_names networks) in
      assign_network_subnets h cfg networks = Some (Inr (networks', zip names (map (slot_network pool p) slots)))
      \<and> length slots = length names \<and> distinct slots \<and> (\<forall>s \<in> set slots. s < 2 ^ (p - net_prefix pool))
      \<and> (\<forall>n. n \<notin> set names \<longrightarrow> map_of networks' n = map_of networks n)
      \<and> (\<forall>i < length names. map_of networks' (names ! i)
          = map_option (\<lambda>v. PDict (bridge_definition (slot_network pool p (slots ! i)) (definition_of v))) (map_of networks (names ! i)))"
proof -
  from valid_pool [OF assms(1)] assms(4) have pool: "canonical_network pool"
    "net_prefix pool < container_network_prefix (network cfg)" "container_network_prefix (network cfg) \<le> 32" by auto
  have "assign_network_subnets h cfg networks
      = assign_slots h pool (container_network_prefix (network cfg)) (sort (bridge_names networks)) [] networks []"
    using assms(4,5) by (simp add: assign_network_subnets_def)
  with assign_slots_result [OF pool, of "sort (bridge_names networks)" "[]" networks h "[]"]
    bridge_names_values [OF assms(2,3)] assms(5) show ?thesis by (simp add: Let_def)
qed

text \<open>
  C38: every Compose network gets a bridge of its own.  With validated settings the allocation always
  returns.  It fails only when more bridges are needed than the pool has blocks.  Otherwise it gives
  every network that needs one a subnet of the configured size inside the pool, no two of them
  share an address, and the definition of each network records its subnet while the others stay.
\<close>

theorem bridges_allocated:
  assumes "valid_network_settings (network cfg)" and "distinct (map fst networks)"
    and "list_all (mapping_or_none \<circ> snd) networks" and "container_pool cfg = Inr pool"
  shows "if length (bridge_names networks) > 2 ^ (container_network_prefix (network cfg) - net_prefix pool)
    then \<exists>a b. assign_network_subnets h cfg networks = Some (Inl (Too_many_networks a b))
    else \<exists>networks' plan. assign_network_subnets h cfg networks = Some (Inr (networks', plan))
      \<and> map fst plan = sort (bridge_names networks)
      \<and> (\<forall>(n, s) \<in> set plan. net_prefix s = container_network_prefix (network cfg)
            \<and> (\<forall>x. contains s x \<longrightarrow> contains pool x)
            \<and> (\<exists>v. map_of networks n = Some v \<and> map_of networks' n = Some (PDict (bridge_definition s (definition_of v)))))
      \<and> (\<forall>i j. i < j \<and> j < length plan \<longrightarrow> \<not> overlaps (snd (plan ! i)) (snd (plan ! j)))
      \<and> (\<forall>n. n \<notin> set (bridge_names networks) \<longrightarrow> map_of networks' n = map_of networks n)"
proof (cases "length (bridge_names networks) > 2 ^ (container_network_prefix (network cfg) - net_prefix pool)")
  case True
  then show ?thesis using assms(4) by (simp add: assign_network_subnets_def)
next
  case False
  let ?p = "container_network_prefix (network cfg)" and ?names = "sort (bridge_names networks)"
  from valid_pool [OF assms(1)] assms(4) have pool: "canonical_network pool" "net_prefix pool < ?p" "?p \<le> 32" by auto
  from False assign_result [OF assms, of h] obtain networks' slots where
    run: "assign_network_subnets h cfg networks = Some (Inr (networks', zip ?names (map (slot_network pool ?p) slots)))"
    and slots: "length slots = length ?names" "distinct slots" "\<forall>s \<in> set slots. s < 2 ^ (?p - net_prefix pool)"
    and others: "\<forall>n. n \<notin> set ?names \<longrightarrow> map_of networks' n = map_of networks n"
    and defs: "\<forall>i < length ?names. map_of networks' (?names ! i)
          = map_option (\<lambda>v. PDict (bridge_definition (slot_network pool ?p (slots ! i)) (definition_of v))) (map_of networks (?names ! i))"
    by (auto simp: Let_def)
  let ?plan = "zip ?names (map (slot_network pool ?p) slots)"
  have entry: "net_prefix s = ?p \<and> (\<forall>x. contains s x \<longrightarrow> contains pool x)
      \<and> (\<exists>v. map_of networks n = Some v \<and> map_of networks' n = Some (PDict (bridge_definition s (definition_of v))))"
    if "(n, s) \<in> set ?plan" for n s
  proof -
    from that obtain i where i: "i < length ?names" "n = ?names ! i" "s = slot_network pool ?p (slots ! i)"
      using slots(1) by (auto simp: in_set_zip)
    then have "slots ! i < 2 ^ (?p - net_prefix pool)" using slots(1,3) by simp
    then have inside: "\<forall>x. contains s x \<longrightarrow> contains pool x" using slot_inside [OF pool] i(3) by blast
    have "n \<in> set (bridge_names networks)" using nth_mem [OF i(1)] i(2) by simp
    then obtain v where "map_of networks n = Some v" using bridge_names_values [OF assms(2,3)] by blast
    moreover from this have "map_of networks' n = Some (PDict (bridge_definition s (definition_of v)))"
      using defs i by simp
    moreover have "net_prefix s = ?p" by (simp add: i(3) slot_network_def)
    ultimately show ?thesis using inside by blast
  qed
  have "\<not> overlaps (snd (?plan ! i)) (snd (?plan ! j))" if "i < j" "j < length ?plan" for i j
    using that slots slots_disjoint [OF pool, of "slots ! i" "slots ! j"] by (simp add: nth_eq_iff_index_eq)
  then have apart: "\<forall>i j. i < j \<and> j < length ?plan \<longrightarrow> \<not> overlaps (snd (?plan ! i)) (snd (?plan ! j))" by blast
  have keys: "map fst ?plan = ?names" using slots(1) by simp
  have others': "\<forall>n. n \<notin> set (bridge_names networks) \<longrightarrow> map_of networks' n = map_of networks n" using others by simp
  show ?thesis
    unfolding if_not_P [OF False]
    by (intro exI [of _ networks'] exI [of _ ?plan] conjI run keys apart others') (use entry in blast)
qed

section \<open>Edge and collector\<close>

lemma first_free_Inr: "first_free taken cs = Inr c \<Longrightarrow> c \<in> set cs \<and> list_all (\<lambda>t. \<not> overlaps c t) taken"
  by (auto simp: first_free_def find_Some_iff split: option.splits)

lemma disjoint_subnet:
  assumes "canonical_network s" and "canonical_network e" and "canonical_network pool"
    and "\<forall>x. contains s x \<longrightarrow> contains pool x" and "\<not> overlaps e pool"
  shows "\<not> overlaps e s"
  using assms(4,5) overlaps_iff [OF assms(2,1)] overlaps_iff [OF assms(2,3)] by blast

lemma edge_clear:
  assumes "edge_network cfg router = Inr edge"
  shows "\<exists>lan pool. mesh_lan cfg router = Inr lan \<and> container_pool cfg = Inr pool \<and> canonical_network edge
    \<and> \<not> overlaps edge lan \<and> \<not> overlaps edge pool"
proof -
  from assms obtain lan pool where lan: "mesh_lan cfg router = Inr lan" "container_pool cfg = Inr pool"
    and f: "first_free [lan, pool] [net 172 31 250 0 24, net 172 30 250 0 24, net 10 255 250 0 24] = Inr edge"
    by (auto simp: edge_network_def then_do_Inr_iff)
  moreover have "canonical_network (net 172 31 250 0 24)" "canonical_network (net 172 30 250 0 24)"
    "canonical_network (net 10 255 250 0 24)" by (simp_all add: block_view)
  ultimately show ?thesis using first_free_Inr [OF f] by auto
qed

text \<open>
  The special networks stay clear.  The edge network overlaps neither the private network of the
  machines nor the container pool, and so none of the bridges allocated from the pool; the network
  of the metrics collector overlaps none of these and not the edge network either.
\<close>

theorem edge_networks_clear:
  assumes "valid_network_settings (network cfg)" and "edge_network cfg router = Inr edge"
    and "distinct (map fst networks)" and "list_all (mapping_or_none \<circ> snd) networks"
    and "assign_network_subnets h cfg networks = Some (Inr (networks', plan))"
  shows "(\<exists>lan. mesh_lan cfg router = Inr lan \<and> \<not> overlaps edge lan)
    \<and> (\<forall>s \<in> snd ` set plan. \<not> overlaps edge s)
    \<and> (\<forall>e. prometheus_egress_network cfg router = Inr e \<longrightarrow>
         \<not> overlaps e edge \<and> (\<exists>lan pool. mesh_lan cfg router = Inr lan \<and> container_pool cfg = Inr pool
           \<and> \<not> overlaps e lan \<and> \<not> overlaps e pool))"
proof (intro conjI ballI allI impI)
  from edge_clear [OF assms(2)] obtain lan pool where edge: "mesh_lan cfg router = Inr lan" "container_pool cfg = Inr pool"
    "canonical_network edge" "\<not> overlaps edge lan" "\<not> overlaps edge pool" by blast
  then show "\<exists>lan. mesh_lan cfg router = Inr lan \<and> \<not> overlaps edge lan" by blast
  let ?p = "container_network_prefix (network cfg)"
  from valid_pool [OF assms(1)] edge(2) have pool: "canonical_network pool" "net_prefix pool < ?p" "?p \<le> 32" by auto
  have few: "length (bridge_names networks) \<le> 2 ^ (?p - net_prefix pool)"
    using assms(5) edge(2) by (auto simp: assign_network_subnets_def Let_def split: if_splits)
  from assign_result [OF assms(1,3,4) edge(2) few, of h] assms(5) obtain slots where
    plan: "plan = zip (sort (bridge_names networks)) (map (slot_network pool ?p) slots)"
    and slots: "\<forall>s \<in> set slots. s < 2 ^ (?p - net_prefix pool)"
    by (auto simp: Let_def)
  fix s assume "s \<in> snd ` set plan"
  then obtain slot where slot: "s = slot_network pool ?p slot" "slot < 2 ^ (?p - net_prefix pool)"
    using plan slots by (auto dest!: set_zip_rightD)
  show "\<not> overlaps edge s"
    unfolding slot(1)
    using disjoint_subnet [OF slot_canonical [OF pool slot(2)] edge(3) pool(1)] slot_inside [OF pool slot(2)] edge(5) by blast
next
  fix e assume "prometheus_egress_network cfg router = Inr e"
  with assms(2) obtain lan pool where "mesh_lan cfg router = Inr lan" "container_pool cfg = Inr pool"
    and "first_free [lan, pool, edge] [net 172 31 249 0 24, net 172 30 249 0 24, net 10 255 249 0 24] = Inr e"
    by (auto simp: prometheus_egress_network_def then_do_Inr_iff)
  from this(1,2) first_free_Inr [OF this(3)]
  show "\<not> overlaps e edge" "\<exists>lan pool. mesh_lan cfg router = Inr lan \<and> container_pool cfg = Inr pool
           \<and> \<not> overlaps e lan \<and> \<not> overlaps e pool" by auto
qed

section \<open>A configuration without room\<close>

definition wide_machine :: machine_spec where
  "wide_machine = \<lparr>enabled = True, address = ''10.0.0.1'', machine_labels = [''control''], machine_gateway = ''10.0.0.254'', machine_cidr = 8, startup_order = 1\<rparr>"

definition wide_config :: "string \<Rightarrow> config" where
  "wide_config pool =
     \<lparr>machines = [(''core'', wide_machine)], category_flags = [], service_settings = [], projects = [],
      domain = ''example.org'', email = [], expose_via_internet = False,
      network = \<lparr>mesh_ipv4_cidr = ''100.64.0.0/10'', container_ipv4_cidr = pool, container_network_prefix = 28\<rparr>,
      external_hosts = [], backups_enabled = False, model_fields = []\<rparr>"

definition plain_manifest :: service_manifest where
  "plain_manifest = \<lparr>manifest_name = ''mesh'', manifest_label = ''Mesh'', category = ''base'', placement = ''core'', priority = 1,
     manifest_depends_on = [], runtimes = [], routes = [], settings = [], enabled_when = [], endpoint = None\<rparr>"

lemma subnet_of_refl: "subnet_of n n"
  by (simp add: subnet_of_def)

lemma network_texts:
  "parse_network ''100.64.0.0/10'' = Some (net 100 64 0 0 10)"
  "parse_network ''172.16.0.0/12'' = Some (net 172 16 0 0 12)"
  "parse_ipv4 ''10.0.0.1'' = Some (quad 10 0 0 1)"
proof -
  have digits: "digits_number ''10'' = 10" "digits_number ''12'' = 12" "list_all is_digit ''10''" "list_all is_digit ''12''"
    by code_simp+
  have quads: "map octet (split_on (CHR ''.'') ''100.64.0.0'') = [Some 100, Some 64, Some 0, Some 0]"
    "map octet (split_on (CHR ''.'') ''172.16.0.0'') = [Some 172, Some 16, Some 0, Some 0]"
    "map octet (split_on (CHR ''.'') ''10.0.0.1'') = [Some 10, Some 0, Some 0, Some 1]" by code_simp+
  have masks: "quad 100 64 0 0 AND netmask 10 = quad 100 64 0 0" "quad 172 16 0 0 AND netmask 12 = quad 172 16 0 0"
    using canonical_dvd [of "net 100 64 0 0 10"] canonical_dvd [of "net 172 16 0 0 12"]
    by (simp_all add: canonical_network_def net_def host_bits_def quad_def)
  show "parse_network ''100.64.0.0/10'' = Some (net 100 64 0 0 10)"
    "parse_network ''172.16.0.0/12'' = Some (net 172 16 0 0 12)" "parse_ipv4 ''10.0.0.1'' = Some (quad 10 0 0 1)"
    using quads digits masks by (simp_all add: parse_network_def parse_ipv4_def strict_network_def net_def)
qed

lemma wide_network: "machine_network wide_machine = Some (net 10 0 0 0 8)"
proof -
  have "unat (net_address (network_of (quad 10 0 0 1) 8)) = unat (quad 10 0 0 0)"
    by (subst network_of_block) (simp_all add: quad_def)
  then have "net_address (network_of (quad 10 0 0 1) 8) = quad 10 0 0 0" by (rule unsigned_word_eqI)
  then show ?thesis by (simp add: machine_network_def wide_machine_def network_texts net_def network_of_def)
qed

lemma wide_overlaps:
  "\<not> overlaps (net 10 0 0 0 8) (net 100 64 0 0 10)" "\<not> overlaps (net 10 0 0 0 8) (net 172 16 0 0 12)"
  "overlaps (net 172 31 250 0 24) (net 172 16 0 0 12)" "overlaps (net 172 30 250 0 24) (net 172 16 0 0 12)"
  "overlaps (net 10 255 250 0 24) (net 10 0 0 0 8)"
  by (subst overlaps_commute, subst overlaps_div, simp_all add: block_view)
    (subst overlaps_commute, subst overlaps_div, simp_all add: block_view, (subst overlaps_div, simp_all add: block_view)+)

lemma wide_valid: "valid_networks (wide_config ''172.16.0.0/12'')"
proof -
  have "valid_network_settings (network (wide_config ''172.16.0.0/12''))"
    by (simp add: valid_network_settings_def wide_config_def network_texts subnet_of_refl) (simp add: net_def)
  moreover have "enabled wide_machine" "address wide_machine = ''10.0.0.1''" "machine_cidr wide_machine = 8"
    by (simp_all add: wide_machine_def)
  ultimately show ?thesis
    using wide_network wide_overlaps
    by (simp add: valid_networks_def machines_clear_of_def wide_config_def network_texts)
qed

lemma wide_no_edge: "edge_network_values (wide_config ''172.16.0.0/12'') (Some plain_manifest) = Inl Stop_iteration"
proof -
  have "manifest_node (wide_config ''172.16.0.0/12'') plain_manifest = Inr ''core''" by code_simp
  then have "mesh_lan (wide_config ''172.16.0.0/12'') (Some plain_manifest) = Inr (net 10 0 0 0 8)"
    using wide_network by (simp add: mesh_lan_def wide_config_def)
  moreover have "container_pool (wide_config ''172.16.0.0/12'') = Inr (net 172 16 0 0 12)"
    by (simp add: container_pool_def wide_config_def network_texts)
  ultimately show ?thesis
    using wide_overlaps by (simp add: edge_network_values_def edge_network_def first_free_def)
qed

text \<open>
  C40: a configuration that passes every validator may have no room for the edge network.  With the
  machines on 10.0.0.0/8 and the container pool on 172.16.0.0/12 all three candidates are taken, and
  the \<open>next\<close> without a default raises \<open>StopIteration\<close>.
\<close>

theorem edge_network_missing:
  "valid_networks (wide_config ''172.16.0.0/12'')
   \<and> edge_network_values (wide_config ''172.16.0.0/12'') (Some plain_manifest) = Inl Stop_iteration"
  using wide_valid wide_no_edge by blast

section \<open>A configuration with room\<close>

abbreviation roomy :: config where
  "roomy \<equiv> wide_config ''192.168.0.0/16''"

definition sample_networks :: "(string \<times> pyval) list" where
  "sample_networks = [(''front'', PNone), (''back'', PDict []), (''lan'', PDict [(KStr ''external'', PBool True)])]"

lemma roomy_pool: "parse_network ''192.168.0.0/16'' = Some (net 192 168 0 0 16)"
proof -
  have "digits_number ''16'' = 16" "list_all is_digit ''16''"
    "map octet (split_on (CHR ''.'') ''192.168.0.0'') = [Some 192, Some 168, Some 0, Some 0]" by code_simp+
  moreover have "quad 192 168 0 0 AND netmask 16 = quad 192 168 0 0"
    using canonical_dvd [of "net 192 168 0 0 16"] by (simp add: canonical_network_def net_def host_bits_def quad_def)
  ultimately show ?thesis by (simp add: parse_network_def parse_ipv4_def strict_network_def net_def)
qed

lemma roomy_facts:
  "valid_network_settings (network roomy)" "container_pool roomy = Inr (net 192 168 0 0 16)"
  "distinct (map fst sample_networks)" "list_all (mapping_or_none \<circ> snd) sample_networks"
  "bridge_names sample_networks = [''front'', ''back'']" "sort (bridge_names sample_networks) = [''back'', ''front'']"
  "length (bridge_names sample_networks) \<le> 2 ^ (container_network_prefix (network roomy) - net_prefix (net 192 168 0 0 16))"
proof -
  show "valid_network_settings (network roomy)"
    by (simp add: valid_network_settings_def wide_config_def network_texts roomy_pool subnet_of_refl) (simp add: net_def)
  show "container_pool roomy = Inr (net 192 168 0 0 16)" by (simp add: container_pool_def wide_config_def roomy_pool)
  show "distinct (map fst sample_networks)" "list_all (mapping_or_none \<circ> snd) sample_networks"
    by (simp_all add: sample_networks_def mapping_or_none_def)
  show names: "bridge_names sample_networks = [''front'', ''back'']" by code_simp
  show "sort (bridge_names sample_networks) = [''back'', ''front'']" by code_simp
  show "length (bridge_names sample_networks) \<le> 2 ^ (container_network_prefix (network roomy) - net_prefix (net 192 168 0 0 16))"
    by (simp add: names wide_config_def net_def)
qed

theorem bridges_allocated_witness:
  "\<exists>networks' plan. assign_network_subnets (\<lambda>n. 7) roomy sample_networks = Some (Inr (networks', plan))
     \<and> map fst plan = [''back'', ''front''] \<and> \<not> overlaps (snd (plan ! 0)) (snd (plan ! 1))"
proof -
  have few: "\<not> length (bridge_names sample_networks) > 2 ^ (container_network_prefix (network roomy) - net_prefix (net 192 168 0 0 16))"
    using roomy_facts(7) by linarith
  from bridges_allocated [OF roomy_facts(1,3,4,2), of "\<lambda>n. 7", unfolded if_not_P [OF few] roomy_facts(6)]
  obtain networks' plan where "assign_network_subnets (\<lambda>n. 7) roomy sample_networks = Some (Inr (networks', plan))"
    and keys: "map fst plan = [''back'', ''front'']"
    and apart: "\<forall>i j. i < j \<and> j < length plan \<longrightarrow> \<not> overlaps (snd (plan ! i)) (snd (plan ! j))"
    by (elim exE conjE) (rule that)
  moreover have "length plan = 2" using arg_cong [OF keys, of length] by simp
  ultimately show ?thesis by auto
qed

lemma roomy_edge: "edge_network roomy (Some plain_manifest) = Inr (net 172 31 250 0 24)"
proof -
  have "manifest_node roomy plain_manifest = Inr ''core''" by code_simp
  then have lan: "mesh_lan roomy (Some plain_manifest) = Inr (net 10 0 0 0 8)"
    using wide_network by (simp add: mesh_lan_def wide_config_def)
  have "\<not> overlaps (net 172 31 250 0 24) (net 10 0 0 0 8)" "\<not> overlaps (net 172 31 250 0 24) (net 192 168 0 0 16)"
    by (subst overlaps_div, simp_all add: block_view) (subst overlaps_div, simp_all add: block_view)
  then show ?thesis using lan roomy_facts(2) by (simp add: edge_network_def first_free_def)
qed

theorem edge_networks_clear_witness:
  "\<exists>networks' plan lan. assign_network_subnets (\<lambda>n. 7) roomy sample_networks = Some (Inr (networks', plan))
     \<and> mesh_lan roomy (Some plain_manifest) = Inr lan \<and> \<not> overlaps (net 172 31 250 0 24) lan"
proof -
  from assign_result [OF roomy_facts(1,3,4,2,7), of "\<lambda>n. 7"] obtain networks' plan where
    run: "assign_network_subnets (\<lambda>n. 7) roomy sample_networks = Some (Inr (networks', plan))"
    by (auto simp: Let_def)
  from conjunct1 [OF edge_networks_clear [OF roomy_facts(1) roomy_edge roomy_facts(3,4) run]] obtain lan where
    "mesh_lan roomy (Some plain_manifest) = Inr lan" "\<not> overlaps (net 172 31 250 0 24) lan" by (elim exE conjE)
  with run show ?thesis by (intro exI conjI)
qed

end
