(* ===== verification/Manifest_Schema.thy ===== *)
theory Manifest_Schema
  imports Route_Schema Update_Plans
begin

text \<open>
  The sections of a service manifest beyond routes and settings, with the validators of
  \<open>core/manifest/schema.py\<close>.  As in \<open>Route_Schema\<close>, a validator is the predicate that holds when no
  \<open>ValueError\<close> is raised, with the bounds and patterns of the pydantic fields; floats are a mantissa
  and a binary exponent.  \<open>ip6\<close> is the check of a bracketed address that \<open>urlsplit\<close> calls.
\<close>

section \<open>Texts\<close>

definition sized :: "nat \<Rightarrow> nat \<Rightarrow> 'a list \<Rightarrow> bool" where
  "sized lo hi s \<longleftrightarrow> lo \<le> length s \<and> length s \<le> hi"

definition within :: "int \<Rightarrow> int \<Rightarrow> int \<Rightarrow> bool" where
  "within lo hi n \<longleftrightarrow> lo \<le> n \<and> n \<le> hi"

definition shaped :: "(char \<Rightarrow> bool) \<Rightarrow> (char \<Rightarrow> bool) \<Rightarrow> nat \<Rightarrow> string \<Rightarrow> bool" where
  "shaped first_ok rest_ok hi s \<longleftrightarrow> s \<noteq> [] \<and> length s \<le> hi \<and> first_ok (hd s) \<and> list_all rest_ok (tl s)"

definition env_char :: "char \<Rightarrow> bool" where
  "env_char c \<longleftrightarrow> is_upper c \<or> is_digit c \<or> c = CHR ''_''"

text \<open>\<open>_SECRET_NAME\<close>, and the pattern of the environment fields, which allows one letter.\<close>

definition secret_name :: "string \<Rightarrow> bool" where
  "secret_name s \<longleftrightarrow> shaped is_upper env_char 128 s \<and> 2 \<le> length s"

definition env_name :: "string \<Rightarrow> bool" where
  "env_name = shaped is_upper env_char 128"

definition snake :: "nat \<Rightarrow> string \<Rightarrow> bool" where
  "snake = shaped is_lower (\<lambda>c. slug_char c \<or> c = CHR ''_'')"

definition homelab_group :: "string \<Rightarrow> bool" where
  "homelab_group s \<longleftrightarrow>
     prefix ''homelab-'' s \<and> shaped slug_char (\<lambda>c. slug_char c \<or> c = CHR ''-'') 55 (remove_prefix ''homelab-'' s)"

definition dotted_char :: "char \<Rightarrow> bool" where
  "dotted_char c \<longleftrightarrow> c \<in> {CHR ''.'', CHR ''_'', CHR ''-''}"

definition relative_path :: "string \<Rightarrow> bool" where
  "relative_path s \<longleftrightarrow> list_all (\<lambda>part. part \<notin> {[], ''.'', ''..''}) (split_on (CHR ''/'') s)"

definition absolute_path :: "string \<Rightarrow> bool" where
  "absolute_path s \<longleftrightarrow>
     prefix ''/'' s \<and> s \<noteq> ''/'' \<and> \<not> sublist ''//'' s
     \<and> list_all (\<lambda>part. part \<notin> {''.'', ''..''}) (split_on (CHR ''/'') s) \<and> printable s"

text \<open>Text that may hold line feeds and tabs but no other control character below the space.\<close>

definition loose_text :: "string \<Rightarrow> bool" where
  "loose_text s \<longleftrightarrow> list_all (\<lambda>c. 32 \<le> code c \<or> code c = 10 \<or> code c = 9) s"

definition command_words :: "string list \<Rightarrow> bool" where
  "command_words ws \<longleftrightarrow> list_all (\<lambda>w. sized 1 16384 w \<and> loose_text w) ws"

text \<open>\<open>s.replace(t, "")\<close> for a text \<open>t\<close> that is not empty.\<close>

function remove_all :: "string \<Rightarrow> string \<Rightarrow> string" where
  "remove_all t [] = []"
| "remove_all t (c # cs) =
     (if t \<noteq> [] \<and> prefix t (c # cs) then remove_all t (drop (length t) (c # cs)) else c # remove_all t cs)"
  by pat_completeness auto
termination by (relation "measure (\<lambda>(t, s). length s)") auto

definition no_braces :: "string \<Rightarrow> bool" where
  "no_braces s \<longleftrightarrow> CHR ''{'' \<notin> set s \<and> CHR ''}'' \<notin> set s"

fun all_different :: "('a \<Rightarrow> 'a \<Rightarrow> bool) \<Rightarrow> 'a list \<Rightarrow> bool" where
  "all_different same [] = True"
| "all_different same (x # xs) \<longleftrightarrow> \<not> list_ex (same x) xs \<and> all_different same xs"

section \<open>OpenID clients\<close>

datatype pkce_method = No_pkce | Plain_pkce | S256
datatype grant_type = Authorization_code | Refresh_token
datatype client_auth = Client_secret_basic | Client_secret_post

record oidc_manifest =
  oidc_client_id :: string
  oidc_secret_env :: string
  oidc_redirect_uris :: "string list"
  oidc_claims_policy :: string
  oidc_scopes :: "string list"
  oidc_public :: bool
  oidc_two_factor :: bool
  oidc_require_pkce :: bool
  oidc_pkce_method :: pkce_method
  oidc_token_auth :: client_auth
  oidc_response_types :: "string list"
  oidc_grant_types :: "grant_type list"

text \<open>\<open>_PRIVATE_USE_URI_SCHEME\<close>: two or more labels.\<close>

definition native_scheme :: "string \<Rightarrow> bool" where
  "native_scheme s \<longleftrightarrow> 2 \<le> length (split_on (CHR ''.'') s) \<and> list_all key_slug (split_on (CHR ''.'') s)"

definition valid_redirect_uri :: "(string \<Rightarrow> bool) \<Rightarrow> string \<Rightarrow> bool" where
  "valid_redirect_uri ip6 u \<longleftrightarrow>
     length u \<le> 2048 \<and> printable u \<and> no_braces (remove_all ''{domain}'' u)
     \<and> (case urlsplit ip6 u of
          None \<Rightarrow> False
        | Some p \<Rightarrow>
            port_ok (snd (host_info (url_netloc p)))
            \<and> ((url_scheme p = ''https'' \<and> fst (host_info (url_netloc p)) \<noteq> [] \<and> user_info (url_netloc p) = (None, None))
               \<or> (native_scheme (url_scheme p) \<and> url_netloc p = [] \<and> prefix ''/'' (url_path p)))
            \<and> url_query p = [] \<and> url_fragment p = [])"

definition valid_oidc :: "(string \<Rightarrow> bool) \<Rightarrow> oidc_manifest \<Rightarrow> bool" where
  "valid_oidc ip6 o' \<longleftrightarrow>
     shaped slug_char (\<lambda>c. slug_char c \<or> c = CHR ''_'' \<or> c = CHR ''-'') 63 (oidc_client_id o')
     \<and> secret_name (oidc_secret_env o')
     \<and> sized 1 16 (oidc_redirect_uris o') \<and> distinct (oidc_redirect_uris o')
     \<and> list_all (valid_redirect_uri ip6) (oidc_redirect_uris o')
     \<and> (oidc_claims_policy o' = []
        \<or> shaped is_lower (\<lambda>c. slug_char c \<or> c = CHR ''_'' \<or> c = CHR ''-'') 100 (oidc_claims_policy o'))
     \<and> \<not> oidc_public o' \<and> oidc_require_pkce o' = (oidc_pkce_method o' \<noteq> No_pkce)
     \<and> distinct (oidc_scopes o') \<and> distinct (oidc_response_types o') \<and> distinct (oidc_grant_types o')
     \<and> list_all (\<lambda>t. t = ''code'') (oidc_response_types o')
     \<and> ''openid'' \<in> set (oidc_scopes o')
     \<and> (''offline_access'' \<in> set (oidc_scopes o')) = (Refresh_token \<in> set (oidc_grant_types o'))"

section \<open>Storage and backups\<close>

record data_manifest =
  data_name :: string
  data_source_env :: "string option"
  data_source_subpath :: string
  data_volume :: "string option"
  data_runtime :: string
  data_target :: string
  data_size_gb :: int
  data_snapshot :: bool
  data_manage_permissions :: bool
  data_shared :: bool
  data_uid :: int
  data_gid :: int
  data_subdirs :: "string list"

definition valid_data :: "data_manifest \<Rightarrow> bool" where
  "valid_data d \<longleftrightarrow>
     slug (data_name d) \<and> pred_option secret_name (data_source_env d)
     \<and> (data_source_subpath d = [] \<or> relative_path (data_source_subpath d))
     \<and> pred_option (shaped host_char (\<lambda>c. host_char c \<or> dotted_char c) 128) (data_volume d)
     \<and> optional_slug (data_runtime d)
     \<and> sized 1 4096 (data_target d) \<and> absolute_path (data_target d)
     \<and> within 0 1000000 (data_size_gb d) \<and> within 0 65535 (data_uid d) \<and> within 0 65535 (data_gid d)
     \<and> length (data_subdirs d) \<le> 16 \<and> distinct (data_subdirs d) \<and> list_all relative_path (data_subdirs d)
     \<and> (data_source_env d = None) \<noteq> (data_volume d = None)
     \<and> (data_source_subpath d \<noteq> [] \<longrightarrow> data_source_env d \<noteq> None)
     \<and> (data_shared d \<longrightarrow> \<not> data_snapshot d \<and> \<not> data_manage_permissions d \<and> data_size_gb d = 0)"

datatype export_strategy = Container_export | Sqlite_export

record backup_export =
  export_artifact :: string
  export_strategy :: export_strategy
  export_command :: "string list"
  export_runtime :: string
  export_container :: string
  export_data_spec :: string
  export_database_path :: string
  export_timeout :: int

definition valid_artifact_name :: "string \<Rightarrow> bool" where
  "valid_artifact_name a \<longleftrightarrow>
     suffix ''.gz'' a
     \<and> shaped slug_char (\<lambda>c. slug_char c \<or> c = CHR ''.'' \<or> c = CHR ''-'') 127 (take (length a - 3) a)"

definition valid_export :: "backup_export \<Rightarrow> bool" where
  "valid_export x \<longleftrightarrow>
     valid_artifact_name (export_artifact x) \<and> length (export_command x) \<le> 32 \<and> command_words (export_command x)
     \<and> optional_slug (export_runtime x)
     \<and> (export_container x = [] \<or> shaped slug_char (\<lambda>c. slug_char c \<or> dotted_char c) 128 (export_container x))
     \<and> optional_slug (export_data_spec x)
     \<and> length (export_database_path x) \<le> 4096
     \<and> (export_database_path x = [] \<or> relative_path (export_database_path x) \<and> printable (export_database_path x))
     \<and> within 30 3600 (export_timeout x)
     \<and> (case export_strategy x of
          Container_export \<Rightarrow> export_command x \<noteq> [] \<and> export_data_spec x = [] \<and> export_database_path x = []
        | Sqlite_export \<Rightarrow>
            export_command x = [] \<and> export_runtime x = [] \<and> export_container x = []
            \<and> export_data_spec x \<noteq> [] \<and> export_database_path x \<noteq> [])"

record host_path =
  hp_path :: string
  hp_uid :: int
  hp_gid :: int
  hp_mode :: string
  hp_subdirs :: "string list"
  hp_create :: bool
  hp_recursive :: bool

definition octal_mode :: "string \<Rightarrow> bool" where
  "octal_mode m \<longleftrightarrow> length m = 4 \<and> list_all (\<lambda>c. 48 \<le> code c \<and> code c \<le> 55) m"

definition valid_host_path :: "host_path \<Rightarrow> bool" where
  "valid_host_path h \<longleftrightarrow>
     sized 1 512 (hp_path h) \<and> relative_path (hp_path h) \<and> within 0 65535 (hp_uid h) \<and> within 0 65535 (hp_gid h)
     \<and> octal_mode (hp_mode h)
     \<and> length (hp_subdirs h) \<le> 16 \<and> distinct (hp_subdirs h) \<and> list_all relative_path (hp_subdirs h)"

section \<open>Secrets\<close>

datatype secret_tier = User_secret | Generated_secret | Bootstrapped_secret | Derived_secret
datatype rotation_policy = Restart_rotation | Reconcile_rotation | Persistent_rotation
datatype secret_generator = Token_generator | Password_generator

record secret_setup =
  setup_label :: string
  setup_is_password :: bool
  setup_required :: bool
  setup_when :: "config_predicate list"

text \<open>\<open>required_rotation\<close> is None when the manifest does not declare it; the default is persistent.\<close>

record required_secret =
  required_name :: string
  required_tier :: secret_tier
  required_description :: string
  required_length :: int
  required_default :: "string option"
  required_fallback :: "string option"
  required_generator :: secret_generator
  required_setup :: "secret_setup option"
  required_rotation :: "rotation_policy option"

definition valid_secret_setup :: "secret_setup \<Rightarrow> bool" where
  "valid_secret_setup s \<longleftrightarrow>
     sized 1 100 (setup_label s) \<and> length (setup_when s) \<le> 8 \<and> list_all valid_predicate (setup_when s)"

definition rotation_of :: "required_secret \<Rightarrow> rotation_policy" where
  "rotation_of s = (case required_rotation s of None \<Rightarrow> Persistent_rotation | Some r \<Rightarrow> r)"

definition valid_required_secret :: "required_secret \<Rightarrow> bool" where
  "valid_required_secret s \<longleftrightarrow>
     secret_name (required_name s) \<and> pred_option secret_name (required_fallback s)
     \<and> sized 1 500 (required_description s) \<and> within 16 4096 (required_length s)
     \<and> pred_option (sized 1 256) (required_default s) \<and> pred_option valid_secret_setup (required_setup s)
     \<and> required_fallback s \<noteq> Some (required_name s)
     \<and> (required_default s \<noteq> None \<longrightarrow> required_tier s = Generated_secret \<and> rotation_of s = Persistent_rotation)
     \<and> (required_tier s = Generated_secret \<longrightarrow> required_rotation s \<noteq> None)
     \<and> (required_generator s = Password_generator \<longrightarrow> required_tier s = Generated_secret)"

record secret_projection =
  projection_source :: string
  projection_target :: string

definition valid_projection :: "secret_projection \<Rightarrow> bool" where
  "valid_projection p \<longleftrightarrow>
     env_name (projection_source p) \<and> env_name (projection_target p) \<and> projection_source p \<noteq> projection_target p"

record credential_manifest =
  credential_name :: string
  credential_url :: string
  credential_username_env :: "string option"
  credential_username :: "string option"
  credential_password_env :: string
  credential_notes :: string

definition valid_credential :: "credential_manifest \<Rightarrow> bool" where
  "valid_credential c \<longleftrightarrow>
     sized 1 100 (credential_name c) \<and> sized 1 2048 (credential_url c)
     \<and> pred_option secret_name (credential_username_env c) \<and> pred_option (sized 1 256) (credential_username c)
     \<and> secret_name (credential_password_env c) \<and> length (credential_notes c) \<le> 1000"

section \<open>Operators and identity\<close>

datatype starting_policy = Fail_starting | Pending_starting

record health_manifest =
  public_probe_path :: string
  starting_policy :: starting_policy

definition valid_health :: "health_manifest \<Rightarrow> bool" where
  "valid_health h \<longleftrightarrow> public_probe_path h \<in> {[], ''/''} \<or> valid_absolute_path (public_probe_path h)"

datatype guidance_phase = Pre_deploy | Post_deploy
datatype guidance_category = Prerequisite | Required_step | Verify_step | Optional_step

record guidance =
  guidance_id :: string
  guidance_phase :: guidance_phase
  guidance_category :: guidance_category
  guidance_title :: string
  guidance_instructions :: string
  guidance_route_url :: bool

definition valid_guidance :: "guidance \<Rightarrow> bool" where
  "valid_guidance g \<longleftrightarrow>
     slug (guidance_id g) \<and> sized 1 120 (guidance_title g) \<and> sized 1 2000 (guidance_instructions g)
     \<and> loose_text (guidance_title g) \<and> loose_text (guidance_instructions g)
     \<and> no_braces (remove_all ''{url}'' (remove_all ''{domain}'' (guidance_instructions g)))
     \<and> (guidance_phase g = Pre_deploy) = (guidance_category g = Prerequisite)
     \<and> (sublist ''{url}'' (guidance_instructions g) \<longrightarrow> guidance_route_url g)"

record bookmark =
  bookmark_section :: string
  bookmark_priority :: int
  bookmark_description :: string
  bookmark_subdomain :: "string option"

definition valid_bookmark :: "bookmark \<Rightarrow> bool" where
  "valid_bookmark b \<longleftrightarrow>
     sized 1 100 (bookmark_section b) \<and> within 0 10000 (bookmark_priority b) \<and> sized 1 240 (bookmark_description b)
     \<and> pred_option (\<lambda>s. s = [] \<or> dns_label s) (bookmark_subdomain b)"

record invite_card =
  card_group :: string
  card_priority :: int
  card_path :: string
  card_blurb :: string
  card_sign_in :: string

definition valid_card_path :: "(string \<Rightarrow> bool) \<Rightarrow> string \<Rightarrow> bool" where
  "valid_card_path ip6 v \<longleftrightarrow>
     (case urlsplit ip6 v of
        None \<Rightarrow> False
      | Some p \<Rightarrow>
          prefix ''/'' v \<and> \<not> prefix ''//'' v \<and> url_scheme p = [] \<and> url_netloc p = [] \<and> url_query p = []
          \<and> list_all (\<lambda>c. c \<notin> {CHR ''{'', CHR ''}'', CHR 0x5C}) v \<and> printable v)"

definition valid_card :: "(string \<Rightarrow> bool) \<Rightarrow> invite_card \<Rightarrow> bool" where
  "valid_card ip6 c \<longleftrightarrow>
     homelab_group (card_group c) \<and> within 0 10000 (card_priority c) \<and> valid_card_path ip6 (card_path c)
     \<and> sized 1 240 (card_blurb c) \<and> sized 1 500 (card_sign_in c)"

datatype provisioning_mode = First_login | Plugin_provisioning

record provisioning =
  provisioning_id :: string
  provisioning_mode :: provisioning_mode
  provisioning_priority :: int
  provisioning_message :: string
  provisioning_disabled :: string

definition valid_provisioning :: "provisioning \<Rightarrow> bool" where
  "valid_provisioning p \<longleftrightarrow>
     snake 100 (provisioning_id p) \<and> within 0 10000 (provisioning_priority p)
     \<and> length (provisioning_message p) \<le> 500 \<and> sized 1 500 (provisioning_disabled p)
     \<and> (provisioning_mode p = First_login \<longrightarrow> provisioning_message p \<noteq> [])"

record service_identity =
  access_groups :: "string list"
  identity_invite :: "invite_card option"
  identity_provisioning :: "provisioning list"

definition valid_identity :: "(string \<Rightarrow> bool) \<Rightarrow> service_identity \<Rightarrow> bool" where
  "valid_identity ip6 i \<longleftrightarrow>
     length (access_groups i) \<le> 16 \<and> distinct (access_groups i) \<and> list_all homelab_group (access_groups i)
     \<and> pred_option (valid_card ip6) (identity_invite i)
     \<and> length (identity_provisioning i) \<le> 16 \<and> list_all valid_provisioning (identity_provisioning i)
     \<and> pred_option (\<lambda>c. access_groups i \<noteq> [] \<longrightarrow> card_group c \<in> set (access_groups i)) (identity_invite i)
     \<and> distinct (map provisioning_id (identity_provisioning i))"

section \<open>Connections between services\<close>

record scrape =
  scrape_id :: string
  scrape_job :: string
  scrape_container_port :: "int option"
  scrape_host_port :: "int option"
  scrape_runtime :: string
  scrape_integration :: string
  scrape_path :: string

definition valid_scrape :: "scrape \<Rightarrow> bool" where
  "valid_scrape s \<longleftrightarrow>
     slug (scrape_id s) \<and> optional_slug (scrape_job s)
     \<and> pred_option valid_port (scrape_container_port s) \<and> pred_option valid_port (scrape_host_port s)
     \<and> optional_slug (scrape_runtime s) \<and> optional_slug (scrape_integration s) \<and> valid_absolute_path (scrape_path s)
     \<and> (if scrape_integration s \<noteq> []
        then scrape_runtime s = [] \<and> scrape_container_port s = None \<and> scrape_host_port s \<noteq> None
        else scrape_container_port s \<noteq> None)"

record database_provider =
  admin_username_env :: string
  admin_password_env :: string
  admin_database_env :: string

record database_binding =
  binding_provider :: string
  binding_database :: string
  binding_username :: string
  binding_host_env :: string
  binding_port_env :: string
  binding_database_env :: string
  binding_username_env :: string
  binding_password_env :: string

definition database_name :: "string \<Rightarrow> bool" where
  "database_name = shaped (\<lambda>c. is_lower c \<or> c = CHR ''_'') (\<lambda>c. slug_char c \<or> c = CHR ''_'') 63"

definition valid_binding :: "database_binding \<Rightarrow> bool" where
  "valid_binding b \<longleftrightarrow>
     slug (binding_provider b) \<and> database_name (binding_database b) \<and> database_name (binding_username b)
     \<and> env_name (binding_host_env b) \<and> env_name (binding_port_env b) \<and> env_name (binding_database_env b)
     \<and> env_name (binding_username_env b) \<and> env_name (binding_password_env b)"

definition valid_database_provider :: "database_provider \<Rightarrow> bool" where
  "valid_database_provider d \<longleftrightarrow>
     env_name (admin_username_env d) \<and> env_name (admin_password_env d) \<and> env_name (admin_database_env d)"

definition valid_endpoint :: "service_endpoint \<Rightarrow> bool" where
  "valid_endpoint e \<longleftrightarrow>
     optional_slug (endpoint_service e) \<and> valid_port (container_port e) \<and> pred_option valid_port (published_port e)"

datatype url_kind = Http | Https | Ldap | Ldaps | Redis | Rediss | Smtp | Smtps

record integration =
  integration_service :: string
  integration_required :: bool
  enabled_env :: "string option"
  host_env :: "string option"
  port_env :: "string option"
  address_env :: "string option"
  url_env :: "string option"
  integration_scheme :: "url_kind option"

definition some_texts :: "string option list \<Rightarrow> string list" where
  "some_texts os = map the (filter (\<lambda>o'. o' \<noteq> None) os)"

definition integration_outputs :: "integration \<Rightarrow> string list" where
  "integration_outputs i = some_texts [enabled_env i, host_env i, port_env i, address_env i, url_env i]"

definition valid_integration :: "integration \<Rightarrow> bool" where
  "valid_integration i \<longleftrightarrow>
     slug (integration_service i) \<and> list_all env_name (integration_outputs i)
     \<and> integration_outputs i \<noteq> [] \<and> distinct (integration_outputs i)
     \<and> (integration_required i \<longrightarrow> host_env i \<noteq> None \<and> port_env i \<noteq> None)
     \<and> (url_env i = None) = (integration_scheme i = None)"

datatype protocol = Tcp | Udp

record listener =
  listener_id :: string
  listener_port :: int
  listener_protocol :: protocol
  listener_runtime :: string
  listener_host_process :: bool
  listener_sources :: "string list"
  listener_enabled_when :: "config_predicate list"

definition valid_listener_source :: "string \<Rightarrow> bool" where
  "valid_listener_source s \<longleftrightarrow>
     s \<in> {''@all'', ''@internet'', ''@lan'', ''@mesh''}
     \<or> (if prefix ''@runtime:'' s \<or> prefix ''@service:'' s \<or> prefix ''@integration:'' s
        then slug (snd (snd (partition_at (CHR '':'') s))) else slug s)"

definition valid_listener :: "listener \<Rightarrow> bool" where
  "valid_listener l \<longleftrightarrow>
     slug (listener_id l) \<and> valid_port (listener_port l) \<and> optional_slug (listener_runtime l)
     \<and> sized 1 32 (listener_sources l) \<and> distinct (listener_sources l) \<and> list_all valid_listener_source (listener_sources l)
     \<and> list_all valid_predicate (listener_enabled_when l)
     \<and> \<not> (listener_host_process l \<and> listener_runtime l \<noteq> [])"

section \<open>Management pages\<close>

record service_action =
  action_id :: string
  action_label :: string
  action_description :: string
  action_confirmation :: string
  action_dangerous :: bool

definition valid_action :: "service_action \<Rightarrow> bool" where
  "valid_action a \<longleftrightarrow>
     key_slug (action_id a) \<and> sized 1 100 (action_label a) \<and> length (action_description a) \<le> 500
     \<and> length (action_confirmation a) \<le> 200"

record info_item =
  item_label :: string
  item_value :: string
  item_copyable :: bool
  item_href :: string

definition safe_panel_text :: "string \<Rightarrow> bool" where
  "safe_panel_text s \<longleftrightarrow>
     list_all (\<lambda>c. 32 \<le> code c) s
     \<and> \<not> prefix ''javascript:'' (strip (lower s)) \<and> \<not> prefix ''data:'' (strip (lower s))"

record info_panel =
  panel_id :: string
  panel_title :: string
  panel_description :: string
  panel_items :: "info_item list"

definition valid_panel :: "info_panel \<Rightarrow> bool" where
  "valid_panel p \<longleftrightarrow>
     key_slug (panel_id p) \<and> sized 1 100 (panel_title p) \<and> length (panel_description p) \<le> 500
     \<and> sized 1 16 (panel_items p)
     \<and> list_all (\<lambda>i. sized 1 100 (item_label i) \<and> sized 1 500 (item_value i) \<and> length (item_href i) \<le> 2048
          \<and> safe_panel_text (item_value i) \<and> safe_panel_text (item_href i)) (panel_items p)"

datatype metric_source = Status_metric | Prometheus_metric

record service_metric =
  metric_key :: string
  metric_label :: string
  metric_source :: metric_source
  metric_field :: string
  metric_query :: string
  metric_precision :: int

definition valid_metric :: "service_metric \<Rightarrow> bool" where
  "valid_metric m \<longleftrightarrow>
     snake 63 (metric_key m) \<and> sized 1 100 (metric_label m)
     \<and> (metric_field m = []
        \<or> shaped is_lower (\<lambda>c. slug_char c \<or> c = CHR ''_'' \<or> c = CHR ''.'') 128 (metric_field m))
     \<and> length (metric_query m) \<le> 2000 \<and> printable (metric_query m) \<and> within 0 4 (metric_precision m)
     \<and> (case metric_source m of
          Status_metric \<Rightarrow> metric_field m \<noteq> [] \<and> metric_query m = []
        | Prometheus_metric \<Rightarrow> metric_query m \<noteq> [] \<and> metric_field m = [])"

record service_resource =
  resource_key :: string
  resource_label :: string
  resource_description :: string
  resource_columns :: "(string \<times> string) list"

definition valid_resource :: "service_resource \<Rightarrow> bool" where
  "valid_resource r \<longleftrightarrow>
     snake 63 (resource_key r) \<and> sized 1 100 (resource_label r) \<and> length (resource_description r) \<le> 500
     \<and> sized 1 12 (resource_columns r)
     \<and> list_all (\<lambda>(k, l). snake 63 k \<and> sized 1 100 l) (resource_columns r)
     \<and> distinct (map fst (resource_columns r))"

record management_secret =
  managed_name :: string
  managed_label :: string
  managed_description :: string

record management =
  panels :: "info_panel list"
  managed_secrets :: "management_secret list"
  actions :: "service_action list"
  metrics :: "service_metric list"
  resources :: "service_resource list"

text \<open>The settings of the management section are the field \<open>settings\<close> of the manifest.\<close>

definition valid_management :: "service_setting list \<Rightarrow> management \<Rightarrow> bool" where
  "valid_management sets m \<longleftrightarrow>
     length (panels m) \<le> 8 \<and> length (managed_secrets m) \<le> 32 \<and> length sets \<le> 32 \<and> length (actions m) \<le> 16
     \<and> length (metrics m) \<le> 32 \<and> length (resources m) \<le> 8
     \<and> list_all valid_panel (panels m) \<and> list_all valid_setting sets \<and> list_all valid_action (actions m)
     \<and> list_all valid_metric (metrics m) \<and> list_all valid_resource (resources m)
     \<and> list_all (\<lambda>s. secret_name (managed_name s) \<and> sized 1 100 (managed_label s)
          \<and> length (managed_description s) \<le> 500) (managed_secrets m)
     \<and> distinct (map panel_id (panels m)) \<and> distinct (map managed_name (managed_secrets m))
     \<and> distinct (map set_key sets) \<and> distinct (map action_id (actions m)) \<and> distinct (map metric_key (metrics m))
     \<and> distinct (map resource_key (resources m))
     \<and> list_all (\<lambda>k. \<not> prefix ''container_'' (metric_key k)) (metrics m)
     \<and> length (filter (\<lambda>k. metric_source k = Prometheus_metric) (metrics m)) \<le> 12"

end
