(* ===== verification/Manifest_Templates.thy ===== *)
theory Manifest_Templates
  imports Python_Regex Desired_State
begin

text \<open>
  The four placeholders a manifest variable may hold, as the patterns of \<open>core/manifest/schema.py\<close> and
  \<open>core/manifest/variables.py\<close>: \<open>{config.path}\<close>, \<open>{setting.key}\<close>, \<open>{service.name.attribute}\<close> and
  \<open>{derived.name}\<close>; and \<open>findall\<close> and a \<open>sub\<close> whose replacement may raise, on a pattern with one group.
\<close>

section \<open>Patterns with a group\<close>

fun up_to :: "nat \<Rightarrow> rx \<Rightarrow> rx" where
  "up_to 0 r = Eps"
| "up_to (Suc n) r = Opt (Seq r (up_to n r))"

definition group_match :: "rx \<Rightarrow> rx \<Rightarrow> rx \<Rightarrow> pos \<Rightarrow> (string \<times> pos) option" where
  "group_match before g after p =
     (case concat (map (\<lambda>q. concat (map (\<lambda>r. map (Pair (captured q r)) (ends after r)) (ends g q))) (ends before p)) of
        [] \<Rightarrow> None
      | m # _ \<Rightarrow> Some m)"

fun find_from :: "nat \<Rightarrow> (pos \<Rightarrow> (string \<times> pos) option) \<Rightarrow> pos \<Rightarrow> string list" where
  "find_from 0 m p = []"
| "find_from (Suc n) m p =
     (case snd p of
        [] \<Rightarrow> []
      | c # cs \<Rightarrow>
          (case m p of
             Some (g, q) \<Rightarrow>
               (if length (snd q) < length (snd p) then g # find_from n m q else find_from n m (c # fst p, cs))
           | None \<Rightarrow> find_from n m (c # fst p, cs)))"

definition re_findall :: "(pos \<Rightarrow> (string \<times> pos) option) \<Rightarrow> string \<Rightarrow> string list" where
  "re_findall m s = find_from (length s) m ([], s)"

fun try_sub_from :: "nat \<Rightarrow> (pos \<Rightarrow> (string \<times> pos) option) \<Rightarrow> (string \<Rightarrow> 'e + string) \<Rightarrow> pos \<Rightarrow> 'e + string" where
  "try_sub_from 0 m f p = Inr []"
| "try_sub_from (Suc n) m f p =
     (case snd p of
        [] \<Rightarrow> Inr []
      | c # cs \<Rightarrow>
          (case m p of
             Some (g, q) \<Rightarrow>
               (if length (snd q) < length (snd p)
                then then_do (f g) (\<lambda>out. then_do (try_sub_from n m f q) (\<lambda>rest. Inr (out @ rest)))
                else then_do (try_sub_from n m f (c # fst p, cs)) (\<lambda>rest. Inr (c # rest)))
           | None \<Rightarrow> then_do (try_sub_from n m f (c # fst p, cs)) (\<lambda>rest. Inr (c # rest))))"

definition try_sub :: "(pos \<Rightarrow> (string \<times> pos) option) \<Rightarrow> (string \<Rightarrow> 'e + string) \<Rightarrow> string \<Rightarrow> 'e + string" where
  "try_sub m f s = try_sub_from (length s) m f ([], s)"

section \<open>The placeholders\<close>

definition identifier_rx :: rx where
  "identifier_rx = Seq (Chr is_lower) (Star (Chr (\<lambda>c. is_lower c \<or> is_digit c \<or> c = CHR ''_'')))"

definition slug_tail :: rx where
  "slug_tail = up_to 62 (Chr (\<lambda>c. is_lower c \<or> is_digit c \<or> c = CHR ''-''))"

definition config_variable :: "pos \<Rightarrow> (string \<times> pos) option" where
  "config_variable = group_match (lit ''{config.'') (Seq identifier_rx (Star (Seq (lit ''.'') identifier_rx))) (lit ''}'')"

definition setting_variable :: "pos \<Rightarrow> (string \<times> pos) option" where
  "setting_variable = group_match (lit ''{setting.'') (Seq (Chr is_lower) slug_tail) (lit ''}'')"

text \<open>The two groups of this pattern, the service and the attribute, are captured with the dot between them.\<close>

definition service_variable :: "pos \<Rightarrow> (string \<times> pos) option" where
  "service_variable = group_match (lit ''{service.'')
     (Seq (Seq (Chr (\<lambda>c. is_lower c \<or> is_digit c)) slug_tail) (Seq (lit ''.'') (Alt (lit ''address'') (lit ''node''))))
     (lit ''}'')"

definition derived_variable :: "pos \<Rightarrow> (string \<times> pos) option" where
  "derived_variable = group_match (lit ''{derived.'')
     (alts [lit ''public_url_protocol'', lit ''ldap_base_dn'', lit ''admin_email'', lit ''edge_proxy_cidr'']) (lit ''}'')"

definition erase :: "(pos \<Rightarrow> (string \<times> pos) option) \<Rightarrow> string \<Rightarrow> string" where
  "erase m s = re_sub (\<lambda>p. map_option (\<lambda>(g, q). ([], q)) (m p)) s"

text \<open>\<open>safe_variables\<close>: without its placeholders a template holds no brace.\<close>

definition safe_template :: "string \<Rightarrow> bool" where
  "safe_template v \<longleftrightarrow>
     length v \<le> 4096 \<and> list_all (\<lambda>c. 32 \<le> code c \<and> code c \<noteq> 127) v
     \<and> list_all (\<lambda>c. c \<noteq> CHR ''{'' \<and> c \<noteq> CHR ''}'')
          (erase derived_variable (erase service_variable (erase setting_variable (erase config_variable v))))"

end
