(* ===== verification/Service_Manifest.thy ===== *)
theory Service_Manifest
  imports Manifest_Schema Manifest_Templates
begin

text \<open>
  The host and image sections of \<open>core/manifest/schema.py\<close>, and the whole \<open>ServiceManifest\<close> with the
  validators that look at several sections at once.
\<close>

section \<open>Hosts\<close>

datatype field_type = Boolean_field | Integer_field | Number_field | Path_field | Text_field

record integration_field =
  field_key :: string
  field_label :: string
  field_description :: string
  field_type :: field_type
  field_required :: bool
  field_default :: pyval
  field_placeholder :: string

definition valid_integration_path :: "string \<Rightarrow> bool" where
  "valid_integration_path v \<longleftrightarrow> absolute_path v \<and> CHR 0x5C \<notin> set v"

definition valid_field_default :: "field_type \<Rightarrow> pyval \<Rightarrow> bool" where
  "valid_field_default t v \<longleftrightarrow>
     (case v of
        PNone \<Rightarrow> True
      | PBool b \<Rightarrow> t = Boolean_field
      | PInt i \<Rightarrow> t \<in> {Integer_field, Number_field}
      | PFloat f \<Rightarrow> t = Number_field \<and> finite_value v
      | PStr s \<Rightarrow> t \<in> {Path_field, Text_field} \<and> length s \<le> 4096 \<and> printable s
          \<and> (t = Path_field \<longrightarrow> valid_integration_path s)
      | _ \<Rightarrow> False)"

definition valid_integration_field :: "integration_field \<Rightarrow> bool" where
  "valid_integration_field f \<longleftrightarrow>
     key_slug (field_key f) \<and> sized 1 100 (field_label f) \<and> length (field_description f) \<le> 500
     \<and> length (field_placeholder f) \<le> 200 \<and> valid_field_default (field_type f) (field_default f)"

record host_integration =
  hi_id :: string
  hi_label :: string
  hi_kinds :: "host_kind list"
  hi_default_for :: "host_kind list"
  hi_after :: "string list"
  hi_ansible_role :: string
  hi_bootstrap :: bool
  hi_lifecycle :: bool
  hi_fields :: "integration_field list"

definition valid_host_integration :: "host_integration \<Rightarrow> bool" where
  "valid_host_integration h \<longleftrightarrow>
     slug (hi_id h) \<and> sized 1 100 (hi_label h) \<and> sized 1 2 (hi_kinds h) \<and> length (hi_default_for h) \<le> 2
     \<and> length (hi_after h) \<le> 16 \<and> (hi_ansible_role h = [] \<or> snake 63 (hi_ansible_role h))
     \<and> length (hi_fields h) \<le> 16 \<and> list_all valid_integration_field (hi_fields h)
     \<and> distinct (hi_kinds h) \<and> distinct (hi_default_for h) \<and> set (hi_default_for h) \<subseteq> set (hi_kinds h)
     \<and> distinct (hi_after h) \<and> hi_id h \<notin> set (hi_after h)
     \<and> (hi_bootstrap h \<longrightarrow> hi_ansible_role h \<noteq> [])
     \<and> distinct (map field_key (hi_fields h))"

text \<open>0.05 is the double with mantissa 3602879701896397 and exponent -56.\<close>

definition number_within :: "int \<times> int \<Rightarrow> int \<times> int \<Rightarrow> int \<times> int \<Rightarrow> bool" where
  "number_within lo hi n \<longleftrightarrow> \<not> num_less n lo \<and> \<not> num_less hi n"

definition valid_runtime :: "string \<times> runtime_service \<Rightarrow> bool" where
  "valid_runtime = (\<lambda>(name, r).
     slug name \<and> length (placements r) \<le> 128 \<and> distinct (placements r)
     \<and> list_all (\<lambda>s. s \<in> {''@all'', ''@primary'', ''@non-primary''} \<or> slug s) (placements r)
     \<and> pred_option slug (compose_profile r)
     \<and> pred_option (within 64 65536) (runtime_memory_floor r)
     \<and> pred_option (number_within (3602879701896397, -56) (64, 0)) (runtime_cpu_floor r)
     \<and> length (required_host_paths r) \<le> 32 \<and> distinct (required_host_paths r)
     \<and> list_all valid_absolute_path (required_host_paths r))"

record host_source_variant =
  source_when :: config_predicate
  source_variant_path :: string

record host_source =
  source_path :: string
  source_variants :: "host_source_variant list"
  source_static :: bool

definition valid_source_path :: "string \<Rightarrow> bool" where
  "valid_source_path v \<longleftrightarrow>
     v \<noteq> ''config'' \<and> relative_path v \<and> list_all (\<lambda>c. host_char c \<or> dotted_char c \<or> c = CHR ''/'') v"

text \<open>
  Predicates that \<open>model_dump_json\<close> renders alike: an absent \<open>equals\<close> is rendered as null, and numbers
  of different types differ.
\<close>

definition same_json :: "pyval \<Rightarrow> pyval \<Rightarrow> bool" where
  "same_json v w =
     (case (v, w) of
        (PFloat (Finite m e), PFloat (Finite n f)) \<Rightarrow> \<not> num_less (m, e) (n, f) \<and> \<not> num_less (n, f) (m, e)
      | _ \<Rightarrow> v = w)"

definition same_predicate :: "config_predicate \<Rightarrow> config_predicate \<Rightarrow> bool" where
  "same_predicate p q \<longleftrightarrow>
     pred_path p = pred_path q \<and> pred_setting p = pred_setting q
     \<and> same_json (case pred_equals p of None \<Rightarrow> PNone | Some v \<Rightarrow> v) (case pred_equals q of None \<Rightarrow> PNone | Some v \<Rightarrow> v)
     \<and> list_all2 same_json (pred_one_of p) (pred_one_of q)"

definition source_paths :: "host_source \<Rightarrow> string list" where
  "source_paths s = source_path s # map source_variant_path (source_variants s)"

definition valid_host_source :: "string \<times> host_source \<Rightarrow> bool" where
  "valid_host_source = (\<lambda>(name, s).
     secret_name name \<and> length (source_variants s) \<le> 16 \<and> list_all valid_source_path (source_paths s)
     \<and> list_all (valid_predicate \<circ> source_when) (source_variants s)
     \<and> all_different same_predicate (map source_when (source_variants s))
     \<and> source_static s = list_all (prefix ''config/'') (source_paths s))"

datatype artifact_kind = File_artifact | Symlink_artifact

record generated_artifact =
  artifact_path :: string
  artifact_kind :: artifact_kind
  artifact_sensitive :: bool
  artifact_executable :: bool
  artifact_mode :: "string option"
  artifact_uid :: "int option"
  artifact_gid :: "int option"
  artifact_runtime :: string

definition valid_artifact :: "generated_artifact \<Rightarrow> bool" where
  "valid_artifact a \<longleftrightarrow>
     prefix ''generated/'' (artifact_path a) \<and> relative_path (artifact_path a) \<and> printable (artifact_path a)
     \<and> CHR 0x5C \<notin> set (artifact_path a)
     \<and> pred_option octal_mode (artifact_mode a)
     \<and> pred_option (within 0 65535) (artifact_uid a) \<and> pred_option (within 0 65535) (artifact_gid a)
     \<and> optional_slug (artifact_runtime a)
     \<and> (artifact_uid a = None) = (artifact_gid a = None)
     \<and> (artifact_kind a = Symlink_artifact \<longrightarrow>
          \<not> artifact_sensitive a \<and> \<not> artifact_executable a \<and> artifact_mode a = None \<and> artifact_uid a = None)"

section \<open>Images\<close>

definition build_path :: "string \<Rightarrow> bool" where
  "build_path v \<longleftrightarrow> relative_path v \<and> CHR 0x5C \<notin> set v \<and> printable v"

record smoke_test =
  smoke_entrypoint :: string
  smoke_command :: "string list"
  smoke_contains :: string

definition valid_smoke :: "smoke_test \<Rightarrow> bool" where
  "valid_smoke t \<longleftrightarrow>
     length (smoke_entrypoint t) \<le> 1024 \<and> length (smoke_contains t) \<le> 4096 \<and> loose_text (smoke_entrypoint t)
     \<and> loose_text (smoke_contains t) \<and> sized 1 32 (smoke_command t) \<and> command_words (smoke_command t)"

datatype platform = Linux_amd64 | Linux_arm64

record image_build =
  build_context :: string
  build_env_var :: string
  build_repository :: string
  build_dockerfile :: string
  build_repository_context :: bool
  build_platforms :: "platform list"
  build_smoke_tests :: "smoke_test list"
  build_requirements :: string

definition valid_image_build :: "image_build \<Rightarrow> bool" where
  "valid_image_build b \<longleftrightarrow>
     (build_context b = ''.'' \<or> build_path (build_context b)) \<and> build_path (build_dockerfile b)
     \<and> (build_requirements b = [] \<or> build_path (build_requirements b)) \<and> secret_name (build_env_var b)
     \<and> (build_repository b = [] \<or> shaped slug_char (\<lambda>c. slug_char c \<or> dotted_char c) 128 (build_repository b))
     \<and> build_platforms b \<noteq> [] \<and> distinct (build_platforms b)
     \<and> length (build_smoke_tests b) \<le> 8 \<and> list_all valid_smoke (build_smoke_tests b)
     \<and> build_repository_context b = (build_context b = ''.'')"

record image_release =
  release_service :: string
  release_repository :: string
  release_version :: string
  release_digest :: string

definition release_ref :: "image_release \<Rightarrow> string" where
  "release_ref r = release_repository r @ '':'' @ release_version r @ ''@'' @ release_digest r"

definition registry_rx :: rx where
  "registry_rx =
     (let word = Plus (Chr slug_char)
      in Seq (Seq word (Star (Seq (Chr (\<lambda>c. c = CHR ''.'' \<or> c = CHR ''-'')) word)))
             (Opt (Seq (lit '':'') (Seq (Chr (\<lambda>c. is_digit c \<and> c \<noteq> CHR ''0''))
                    (Seq (Opt (Chr is_digit)) (Seq (Opt (Chr is_digit)) (Seq (Opt (Chr is_digit)) (Opt (Chr is_digit)))))))))"

definition valid_repository :: "string \<Rightarrow> bool" where
  "valid_repository v \<longleftrightarrow>
     lower v = v \<and> CHR ''@'' \<notin> set v \<and> \<not> list_ex is_space v
     \<and> (case split_on (CHR ''/'') v of
          registry # parts \<Rightarrow>
            2 \<le> length parts \<and> full_match registry_rx registry \<and> list_all (full_match repository_part) parts
        | [] \<Rightarrow> False)"

definition valid_image_release :: "image_release \<Rightarrow> bool" where
  "valid_image_release r \<longleftrightarrow>
     slug (release_service r) \<and> sized 3 256 (release_repository r) \<and> valid_repository (release_repository r)
     \<and> valid_tag (release_version r)
     \<and> prefix ''sha256:'' (release_digest r) \<and> hex64 (remove_prefix ''sha256:'' (release_digest r))"

record integration_contract =
  contract_version :: int
  contract_compatibility :: string
  contract_endpoint :: string
  contract_capabilities :: "string list"

definition valid_contract :: "integration_contract \<Rightarrow> bool" where
  "valid_contract c \<longleftrightarrow>
     within 1 999 (contract_version c) \<and> contract_compatibility c = show_int (contract_version c) @ ''.x''
     \<and> valid_absolute_path (contract_endpoint c) \<and> sized 1 32 (contract_capabilities c)
     \<and> distinct (contract_capabilities c) \<and> list_all slug (contract_capabilities c)"

section \<open>The whole manifest\<close>

datatype restart_policy = Safe_restart | Careful_restart | Never_restart

text \<open>The fields that \<^typ>\<open>service_manifest\<close> does not have; icons and memory tiers are for display.\<close>

record full_manifest = service_manifest +
  guest_task_order :: int
  recovery_task_order :: int
  essential :: bool
  restart_policy :: restart_policy
  provides :: "string list"
  memory_floor_mb :: int
  cpu_floor :: "int \<times> int"
  host_sources :: "(string \<times> host_source) list"
  generated_artifacts :: "generated_artifact list"
  image_build :: "image_build option"
  image_release :: "image_release option"
  integration_contract :: "integration_contract option"
  stateful :: bool
  internal_aliases :: "string list"
  oidc :: "oidc_manifest option"
  data_specs :: "data_manifest list"
  backup_exports :: "backup_export list"
  host_paths :: "host_path list"
  required_secrets :: "required_secret list"
  secret_projections :: "secret_projection list"
  runtime_variables :: "string list"
  credentials :: "credential_manifest list"
  health :: health_manifest
  guidance_entries :: "guidance list"
  operator_bookmark :: "bookmark option"
  identity :: service_identity
  prometheus :: "scrape list"
  database_provider :: "database_provider option"
  databases :: "database_binding list"
  integrations :: "integration list"
  network_listeners :: "listener list"
  management :: management
  host_integrations :: "host_integration list"
  variables :: "(string \<times> string) list"

section \<open>Validation\<close>

text \<open>What the fields of a manifest promise one by one.\<close>

definition valid_fields :: "(string \<Rightarrow> bool) \<Rightarrow> full_manifest \<Rightarrow> bool" where
  "valid_fields ip6 m \<longleftrightarrow>
     slug (manifest_name m) \<and> sized 1 100 (manifest_label m) \<and> slug (category m) \<and> slug (placement m)
     \<and> within 0 10000 (priority m) \<and> within 0 10000 (guest_task_order m) \<and> within 0 10000 (recovery_task_order m)
     \<and> distinct (manifest_depends_on m) \<and> list_all slug (manifest_depends_on m)
     \<and> length (provides m) \<le> 16 \<and> distinct (provides m) \<and> list_all slug (provides m)
     \<and> within 64 65536 (memory_floor_mb m) \<and> number_within (3602879701896397, -56) (64, 0) (cpu_floor m)
     \<and> list_all valid_runtime (runtimes m) \<and> distinct (map fst (runtimes m))
     \<and> list_all valid_host_source (host_sources m) \<and> distinct (map fst (host_sources m))
     \<and> length (generated_artifacts m) \<le> 32 \<and> list_all valid_artifact (generated_artifacts m)
     \<and> distinct (map artifact_path (generated_artifacts m))
     \<and> pred_option valid_image_build (image_build m) \<and> pred_option valid_image_release (image_release m)
     \<and> pred_option valid_contract (integration_contract m)
     \<and> list_all valid_predicate (enabled_when m) \<and> list_all valid_route (routes m)
     \<and> length (internal_aliases m) \<le> 16 \<and> distinct (internal_aliases m) \<and> list_all dns_label (internal_aliases m)
     \<and> pred_option (valid_oidc ip6) (oidc m)
     \<and> list_all valid_data (data_specs m) \<and> list_all valid_export (backup_exports m)
     \<and> list_all valid_host_path (host_paths m) \<and> list_all valid_required_secret (required_secrets m)
     \<and> length (secret_projections m) \<le> 16 \<and> list_all valid_projection (secret_projections m)
     \<and> length (runtime_variables m) \<le> 32 \<and> distinct (runtime_variables m) \<and> list_all secret_name (runtime_variables m)
     \<and> list_all valid_credential (credentials m) \<and> valid_health (health m)
     \<and> length (guidance_entries m) \<le> 16 \<and> list_all valid_guidance (guidance_entries m)
     \<and> pred_option valid_bookmark (operator_bookmark m) \<and> valid_identity ip6 (identity m)
     \<and> length (prometheus m) \<le> 16 \<and> list_all valid_scrape (prometheus m)
     \<and> pred_option valid_database_provider (database_provider m)
     \<and> length (databases m) \<le> 16 \<and> list_all valid_binding (databases m)
     \<and> pred_option valid_endpoint (endpoint m)
     \<and> length (integrations m) \<le> 32 \<and> list_all valid_integration (integrations m)
     \<and> length (network_listeners m) \<le> 32 \<and> list_all valid_listener (network_listeners m)
     \<and> valid_management (settings m) (management m)
     \<and> length (host_integrations m) \<le> 8 \<and> list_all valid_host_integration (host_integrations m)
     \<and> distinct (map fst (variables m)) \<and> list_all (\<lambda>(n, v). secret_name n \<and> safe_template v) (variables m)"

text \<open>The validators of the whole manifest, in their order.\<close>

definition declared_references :: "full_manifest \<Rightarrow> bool" where
  "declared_references m \<longleftrightarrow>
     list_all (\<lambda>(n, v). list_all (\<lambda>k. k \<in> set (map set_key (settings m))) (re_findall setting_variable v)) (variables m)
     \<and> list_all (\<lambda>s. managed_name s \<in> set (map required_name (required_secrets m))) (managed_secrets (management m))"

definition default_routes :: "full_manifest \<Rightarrow> route_manifest list" where
  "default_routes m = filter (\<lambda>r. match r = None) (routes m)"

definition host_of :: "full_manifest \<Rightarrow> route_manifest \<Rightarrow> string" where
  "host_of m r = (case subdomain r of None \<Rightarrow> manifest_name m | Some s \<Rightarrow> s)"

definition image_and_restart :: "full_manifest \<Rightarrow> bool" where
  "image_and_restart m \<longleftrightarrow>
     (image_build m = None \<or> image_release m = None)
     \<and> (integration_contract m \<noteq> None \<longrightarrow> image_release m \<noteq> None)
     \<and> \<not> (essential m \<and> restart_policy m = Safe_restart)
     \<and> (list_ex (\<lambda>k. metric_source k = Prometheus_metric) (metrics (management m)) \<longrightarrow> prometheus m \<noteq> [])
     \<and> stateful m = (data_specs m \<noteq> [])
     \<and> (backup_exports m \<noteq> [] \<longrightarrow> stateful m)"

definition page_routes :: "full_manifest \<Rightarrow> bool" where
  "page_routes m \<longleftrightarrow>
     (public_probe_path (health m) \<noteq> [] \<longrightarrow> list_ex (\<lambda>r. exposure r = Public) (default_routes m))
     \<and> distinct (map guidance_id (guidance_entries m))
     \<and> (list_ex guidance_route_url (guidance_entries m) \<longrightarrow> length (default_routes m) = 1)
     \<and> (identity_invite (identity m) \<noteq> None \<longrightarrow> length (default_routes m) = 1)
     \<and> (case operator_bookmark m of
          None \<Rightarrow> True
        | Some b \<Rightarrow>
            (case bookmark_subdomain b of
               None \<Rightarrow> length (default_routes m) = 1
             | Some sel \<Rightarrow> list_ex (\<lambda>r. host_of m r = sel) (default_routes m)))"

definition declared_environments :: "full_manifest \<Rightarrow> string list" where
  "declared_environments m = map fst (variables m) @ map required_name (required_secrets m)"

definition environment_outputs :: "full_manifest \<Rightarrow> bool" where
  "environment_outputs m \<longleftrightarrow>
     distinct (map (\<lambda>b. (binding_provider b, binding_database b, binding_username b)) (databases m))
     \<and> distinct (map integration_service (integrations m))
     \<and> distinct (concat (map integration_outputs (integrations m)))
     \<and> distinct (map projection_target (secret_projections m))
     \<and> list_all (\<lambda>b. binding_password_env b \<in> set (declared_environments m)) (databases m)
     \<and> (case database_provider m of
          None \<Rightarrow> True
        | Some d \<Rightarrow>
            endpoint m \<noteq> None
            \<and> {admin_username_env d, admin_password_env d, admin_database_env d} \<subseteq> set (declared_environments m))"

definition export_source :: "full_manifest \<Rightarrow> backup_export \<Rightarrow> bool" where
  "export_source m x \<longleftrightarrow>
     (export_strategy x = Sqlite_export \<longrightarrow>
        (case find (\<lambda>d. data_name d = export_data_spec x) (data_specs m) of
           None \<Rightarrow> False | Some d \<Rightarrow> data_source_env d \<noteq> None))"

definition storage_names :: "full_manifest \<Rightarrow> bool" where
  "storage_names m \<longleftrightarrow>
     distinct (map data_name (data_specs m)) \<and> distinct (map export_artifact (backup_exports m))
     \<and> list_all (\<lambda>x. prefix (manifest_name m @ ''.'') (export_artifact x)) (backup_exports m)
     \<and> list_all (export_source m) (backup_exports m)"

definition used_runtimes :: "full_manifest \<Rightarrow> string list" where
  "used_runtimes m =
     filter (\<lambda>r. r \<noteq> [])
       (map data_runtime (data_specs m) @ map export_runtime (backup_exports m)
        @ filter (\<lambda>r. r \<noteq> manifest_name m) (map listener_runtime (network_listeners m))
        @ map scrape_runtime (prometheus m) @ map artifact_runtime (generated_artifacts m))"

definition runtime_sources :: "full_manifest \<Rightarrow> string list" where
  "runtime_sources m =
     map (remove_prefix ''@runtime:'')
       (filter (prefix ''@runtime:'') (concat (map listener_sources (network_listeners m))))"

definition declared_runtimes :: "full_manifest \<Rightarrow> bool" where
  "declared_runtimes m \<longleftrightarrow>
     list_all (\<lambda>r. r \<in> set (map fst (runtimes m))) (used_runtimes m)
     \<and> distinct (map hp_path (host_paths m)) \<and> distinct (map hi_id (host_integrations m))
     \<and> distinct (map listener_id (network_listeners m))
     \<and> list_all (\<lambda>r. r \<in> set (map fst (runtimes m))) (runtime_sources m)
     \<and> distinct (map scrape_id (prometheus m))"

definition valid_service_manifest :: "(string \<Rightarrow> bool) \<Rightarrow> full_manifest \<Rightarrow> bool" where
  "valid_service_manifest ip6 m \<longleftrightarrow>
     valid_fields ip6 m \<and> declared_references m \<and> image_and_restart m \<and> page_routes m \<and> environment_outputs m
     \<and> storage_names m \<and> declared_runtimes m"

abbreviation planning_view :: "full_manifest \<Rightarrow> service_manifest" where
  "planning_view \<equiv> service_manifest.truncate"

lemma valid_planning_view: "valid_service_manifest ip6 m \<Longrightarrow> valid_manifest (planning_view m)"
  by (simp add: valid_service_manifest_def valid_fields_def valid_manifest_def valid_management_def within_def
      service_manifest.truncate_def)

end
