(* ===== verification/Manifest_Variables.thy ===== *)
theory Manifest_Variables
  imports Service_Manifest Network_Plan
begin

text \<open>
  \<open>core/manifest/variables.py\<close>: the environment of the services on one machine, compiled from the
  templates, integrations, databases, secrets and host sources of their manifests.

  The process-wide catalog is the argument \<open>cat\<close>; \<open>pl\<close> holds the same catalog as planning sees it.
  \<open>tx\<close> renders numbers.  A Python dictionary is an association list in insertion order.
\<close>

datatype variable_error =
    Value_problem string
  | Config_problem config_error
  | Network_problem network_error
  | Conflict string string string
  | No_capability string

fun variable_value_error :: "variable_error \<Rightarrow> bool" where
  "variable_value_error (Config_problem e) = is_value_error e"
| "variable_value_error (Network_problem e) = (case e of Network_config c \<Rightarrow> is_value_error c | Bad_network \<Rightarrow> True | _ \<Rightarrow> False)"
| "variable_value_error (No_capability c) = False"
| "variable_value_error _ = True"

definition on_config :: "config_error + 'a \<Rightarrow> variable_error + 'a" where
  "on_config r = map_sum Config_problem id r"

definition catalog_provider :: "full_manifest list \<Rightarrow> string \<Rightarrow> full_manifest option" where
  "catalog_provider cat capability = find (\<lambda>m. capability \<in> set (provides m)) cat"

section \<open>Templates\<close>

definition scalar_text :: "py_texts \<Rightarrow> pyval \<Rightarrow> string" where
  "scalar_text tx v = (case v of PBool b \<Rightarrow> lower (py_str tx v) | _ \<Rightarrow> py_str tx v)"

definition domain_to_base_dn :: "string \<Rightarrow> string" where
  "domain_to_base_dn d =
     (if d = [] \<or> d = ''localhost'' then ''dc=home,dc=local''
      else join '','' (map (\<lambda>p. ''dc='' @ p) (split_on (CHR ''.'') d)))"

record variable_context =
  ctx_nodes :: "(string \<times> string) list option"
  ctx_providers :: "(string \<times> string) list option"

definition edge_proxy_cidr ::
  "plugins \<Rightarrow> full_manifest list \<Rightarrow> config \<Rightarrow> variable_context \<Rightarrow> variable_error + string"
where
  "edge_proxy_cidr pl cat cfg ctx =
     (if \<not> is_multi_node cfg
      then (case edge_network_values cfg (map_option planning_view (catalog_provider cat ''mesh-router'')) of
              Inl e \<Rightarrow> Inl (Network_problem e) | Inr (subnet, host) \<Rightarrow> Inr (host @ ''/32''))
      else then_do
        (case ctx_providers ctx of
           None \<Rightarrow> (case catalog_provider cat ''ingress'' of
                      None \<Rightarrow> Inl (No_capability ''ingress'') | Some m \<Rightarrow> Inr (manifest_name m))
         | Some ps \<Rightarrow> (case map_of ps ''ingress'' of
                         None \<Rightarrow> Inl (Value_problem ''ingress'') | Some s \<Rightarrow> Inr s))
        (\<lambda>ingress. case ctx_nodes ctx of
           None \<Rightarrow> then_do (on_config (service_address pl cfg ingress)) (\<lambda>a. Inr (a @ ''/32''))
         | Some nodes \<Rightarrow>
             (case map_of nodes ingress of
                None \<Rightarrow> Inl (Value_problem ingress)
              | Some node \<Rightarrow>
                  (case map_of (machines cfg) node of
                     None \<Rightarrow> Inl (Config_problem (Unknown_name node)) | Some m \<Rightarrow> Inr (address m @ ''/32'')))))"

definition derived_value ::
  "plugins \<Rightarrow> full_manifest list \<Rightarrow> config \<Rightarrow> variable_context \<Rightarrow> string \<Rightarrow> variable_error + string"
where
  "derived_value pl cat cfg ctx name =
     (if name = ''public_url_protocol'' then Inr (if domain cfg = ''localhost'' then ''http'' else ''https'')
      else if name = ''ldap_base_dn'' then Inr (domain_to_base_dn (domain cfg))
      else if name = ''admin_email'' then Inr (if email cfg \<noteq> [] then email cfg else ''admin@'' @ domain cfg)
      else if name = ''edge_proxy_cidr'' then edge_proxy_cidr pl cat cfg ctx
      else Inl (Value_problem name))"

fun walk_config :: "string \<Rightarrow> string list \<Rightarrow> config_tree \<Rightarrow> variable_error + config_tree" where
  "walk_config p [] t = Inr t"
| "walk_config p (part # parts) (Model_field fs) =
     (case map_of fs part of None \<Rightarrow> Inl (Value_problem p) | Some t \<Rightarrow> walk_config p parts t)"
| "walk_config p (part # parts) (Dict_field fs) =
     (case map_of fs part of None \<Rightarrow> Inl (Value_problem p) | Some t \<Rightarrow> walk_config p parts t)"
| "walk_config p (part # parts) _ = Inl (Value_problem p)"

definition config_value :: "py_texts \<Rightarrow> config \<Rightarrow> string \<Rightarrow> variable_error + string" where
  "config_value tx cfg p =
     then_do (walk_config p (split_on (CHR ''.'') p) (Model_field (model_fields cfg))) (\<lambda>t.
       case t of
         Scalar_field PNone \<Rightarrow> Inr []
       | Scalar_field (PBool b) \<Rightarrow> Inr (lower (py_str tx (PBool b)))
       | Scalar_field (PStr s) \<Rightarrow> Inr s
       | Scalar_field (PInt i) \<Rightarrow> Inr (py_str tx (PInt i))
       | Scalar_field (PFloat f) \<Rightarrow> Inr (py_str tx (PFloat f))
       | _ \<Rightarrow> Inl (Value_problem p))"

definition replace_service ::
  "plugins \<Rightarrow> config \<Rightarrow> variable_context \<Rightarrow> string \<Rightarrow> variable_error + string"
where
  "replace_service pl cfg ctx g =
     (case partition_at (CHR ''.'') g of
        (service, found, attribute) \<Rightarrow>
          (case ctx_nodes ctx of
             None \<Rightarrow> on_config (if attribute = ''address'' then service_address pl cfg service else Placement.service_node pl cfg service)
           | Some nodes \<Rightarrow>
               then_do
                 (if \<not> is_multi_node cfg then on_config (control_node cfg)
                  else (case map_of nodes service of None \<Rightarrow> Inl (Value_problem service) | Some n \<Rightarrow> Inr n))
                 (\<lambda>node. case map_of (machines cfg) node of
                    None \<Rightarrow> Inl (Value_problem service)
                  | Some m \<Rightarrow> Inr (if attribute = ''address'' then address m else node))))"

definition compile_template ::
  "py_texts \<Rightarrow> plugins \<Rightarrow> full_manifest list \<Rightarrow> config \<Rightarrow> variable_context \<Rightarrow> full_manifest \<Rightarrow> string \<Rightarrow> variable_error + string"
where
  "compile_template tx pl cat cfg ctx m v =
     then_do (try_sub config_variable (config_value tx cfg) v) (\<lambda>a.
     then_do (try_sub setting_variable
                (\<lambda>k. map_sum Config_problem (scalar_text tx) (service_setting_value cfg (planning_view m) k)) a) (\<lambda>b.
     then_do (try_sub service_variable (replace_service pl cfg ctx) b) (\<lambda>c.
       try_sub derived_variable (derived_value pl cat cfg ctx) c)))"

definition compile_manifest_variables ::
  "py_texts \<Rightarrow> plugins \<Rightarrow> full_manifest list \<Rightarrow> config \<Rightarrow> variable_context \<Rightarrow> full_manifest
     \<Rightarrow> variable_error + (string \<times> string) list"
where
  "compile_manifest_variables tx pl cat cfg ctx m =
     each (\<lambda>(n, v). then_do (compile_template tx pl cat cfg ctx m v) (\<lambda>out. Inr (n, out))) (variables m)"

section \<open>Host sources\<close>

text \<open>\<open>str(root / relative)\<close> for a root without a trailing slash, or the root directory itself.\<close>

definition path_join :: "string \<Rightarrow> string \<Rightarrow> string" where
  "path_join root relative = (if root = ''/'' then root @ relative else root @ ''/'' @ relative)"

definition compile_host_source ::
  "config \<Rightarrow> full_manifest list \<Rightarrow> full_manifest \<Rightarrow> string \<Rightarrow> string \<times> host_source \<Rightarrow> variable_error + string \<times> string"
where
  "compile_host_source cfg cat m root = (\<lambda>(n, s).
     then_do (each (\<lambda>v. then_do (on_config (predicate_matches cfg (source_when v) (map planning_view cat))) (\<lambda>b.
        Inr (if b then [v] else []))) (source_variants s)) (\<lambda>vss.
       case concat vss of
         [] \<Rightarrow> Inr (n, path_join root (source_path s))
       | [v] \<Rightarrow> Inr (n, path_join root (source_variant_path v))
       | _ \<Rightarrow> Inl (Value_problem n)))"

definition compile_manifest_host_sources ::
  "config \<Rightarrow> full_manifest list \<Rightarrow> full_manifest \<Rightarrow> string \<Rightarrow> variable_error + (string \<times> string) list"
where
  "compile_manifest_host_sources cfg cat m root = each (compile_host_source cfg cat m root) (host_sources m)"

section \<open>Integrations\<close>

definition service_endpoint_address ::
  "config \<Rightarrow> full_manifest \<Rightarrow> (string \<times> string) list \<Rightarrow> string \<Rightarrow> variable_error + string \<times> int"
where
  "service_endpoint_address cfg provider nodes consumer_node =
     (case endpoint provider of
        None \<Rightarrow> Inl (Value_problem (manifest_name provider))
      | Some ep \<Rightarrow>
          then_do
            (if \<not> is_multi_node cfg then on_config (control_node cfg)
             else (case map_of nodes (manifest_name provider) of
                     None \<Rightarrow> Inl (Config_problem (Unknown_name (manifest_name provider))) | Some n \<Rightarrow> Inr n))
            (\<lambda>provider_node.
               if consumer_node = provider_node
               then Inr (if endpoint_service ep \<noteq> [] then endpoint_service ep else manifest_name provider, container_port ep)
               else (case published_port ep of
                       None \<Rightarrow> Inl (Value_problem (manifest_name provider))
                     | Some port \<Rightarrow>
                         (case map_of (machines cfg) provider_node of
                            None \<Rightarrow> Inl (Config_problem (Unknown_name provider_node))
                          | Some m \<Rightarrow> Inr (address m, port)))))"

fun url_kind_text :: "url_kind \<Rightarrow> string" where
  "url_kind_text Http = ''http''"
| "url_kind_text Https = ''https''"
| "url_kind_text Ldap = ''ldap''"
| "url_kind_text Ldaps = ''ldaps''"
| "url_kind_text Redis = ''redis''"
| "url_kind_text Rediss = ''rediss''"
| "url_kind_text Smtp = ''smtp''"
| "url_kind_text Smtps = ''smtps''"

definition put_env :: "string option \<Rightarrow> string \<Rightarrow> (string \<times> string) list \<Rightarrow> (string \<times> string) list" where
  "put_env name v d = (case name of None \<Rightarrow> d | Some n \<Rightarrow> if n = [] then d else dict_set n v d)"

definition scheme_text :: "integration \<Rightarrow> string" where
  "scheme_text i = (case integration_scheme i of None \<Rightarrow> ''None'' | Some k \<Rightarrow> url_kind_text k)"

definition add_integration ::
  "plugins \<Rightarrow> config \<Rightarrow> full_manifest list \<Rightarrow> (string \<times> string) list \<Rightarrow> string \<Rightarrow> integration \<Rightarrow> (string \<times> string) list
     \<Rightarrow> variable_error + (string \<times> string) list"
where
  "add_integration pl cfg cat nodes consumer i out =
     (case find (\<lambda>m. manifest_name m = integration_service i) cat of
        None \<Rightarrow> Inl (Config_problem (Unknown_name (integration_service i)))
      | Some provider \<Rightarrow>
          then_do (on_config (service_is_enabled pl cfg (planning_view provider) (map planning_view cat))) (\<lambda>on.
            if integration_required i \<and> \<not> on then Inl (Value_problem (integration_service i))
            else (let out1 = put_env (enabled_env i) (if on then ''true'' else ''false'') out
                  in if \<not> on
                     then Inr (put_env (url_env i) [] (put_env (address_env i) [] (put_env (port_env i) []
                            (put_env (host_env i) [] out1))))
                     else then_do (service_endpoint_address cfg provider nodes consumer) (\<lambda>(host, port).
                       Inr (put_env (url_env i) (scheme_text i @ ''://'' @ host @ '':'' @ show_int port)
                             (put_env (address_env i) (host @ '':'' @ show_int port)
                               (put_env (port_env i) (show_int port) (put_env (host_env i) host out1))))))))"

fun add_integrations ::
  "plugins \<Rightarrow> config \<Rightarrow> full_manifest list \<Rightarrow> (string \<times> string) list \<Rightarrow> string \<Rightarrow> integration list \<Rightarrow> (string \<times> string) list
     \<Rightarrow> variable_error + (string \<times> string) list"
where
  "add_integrations pl cfg cat nodes consumer [] out = Inr out"
| "add_integrations pl cfg cat nodes consumer (i # is) out =
     then_do (add_integration pl cfg cat nodes consumer i out) (add_integrations pl cfg cat nodes consumer is)"

text \<open>\<open>service_nodes\<close> and \<open>consumer_node\<close> default to the placement of the services when absent or empty.\<close>

definition compile_manifest_integration_variables ::
  "plugins \<Rightarrow> config \<Rightarrow> full_manifest list \<Rightarrow> (string \<times> string) list \<Rightarrow> string \<Rightarrow> full_manifest
     \<Rightarrow> variable_error + (string \<times> string) list"
where
  "compile_manifest_integration_variables pl cfg cat service_nodes consumer_node m =
     then_do (if service_nodes \<noteq> [] then Inr service_nodes
              else on_config (service_node_map pl cfg (map planning_view cat))) (\<lambda>nodes.
     then_do (if consumer_node \<noteq> [] then Inr consumer_node
              else if \<not> is_multi_node cfg then on_config (control_node cfg)
              else (case map_of nodes (manifest_name m) of
                      None \<Rightarrow> Inl (Config_problem (Unknown_name (manifest_name m))) | Some n \<Rightarrow> Inr n)) (\<lambda>consumer.
       add_integrations pl cfg cat nodes consumer (integrations m) []))"

section \<open>One machine\<close>

text \<open>Whether an enabled service has a part on the machine: its own node or one of its runtimes'.\<close>

definition manifest_roles :: "config \<Rightarrow> full_manifest \<Rightarrow> variable_error + string list" where
  "manifest_roles cfg m =
     then_do (on_config (manifest_node cfg (planning_view m))) (\<lambda>n.
     then_do (on_config (each (\<lambda>(r, rt). manifest_runtime_nodes cfg (planning_view m) r None) (runtimes m))) (\<lambda>nss.
       Inr (n # concat nss)))"

definition on_role :: "plugins \<Rightarrow> config \<Rightarrow> full_manifest list \<Rightarrow> string \<Rightarrow> full_manifest \<Rightarrow> variable_error + bool" where
  "on_role pl cfg cat role m =
     then_do (on_config (service_is_enabled pl cfg (planning_view m) (map planning_view cat))) (\<lambda>on.
       if \<not> on then Inr False
       else then_do (manifest_roles cfg m) (\<lambda>roles. Inr (\<not> is_multi_node cfg \<or> role \<in> set roles)))"

text \<open>\<open>add\<close>: a variable keeps one value; \<open>env\<close> maps a name to its value and its owner.\<close>

type_synonym owned_env = "(string \<times> string \<times> string) list"

definition add_variable :: "string \<Rightarrow> string \<times> string \<Rightarrow> owned_env \<Rightarrow> variable_error + owned_env" where
  "add_variable owner = (\<lambda>(n, v) env.
     case map_of env n of
       Some (w, previous) \<Rightarrow> if w \<noteq> v then Inl (Conflict n previous owner) else Inr (dict_set n (v, owner) env)
     | None \<Rightarrow> Inr (dict_set n (v, owner) env))"

fun add_variables :: "string \<Rightarrow> (string \<times> string) list \<Rightarrow> owned_env \<Rightarrow> variable_error + owned_env" where
  "add_variables owner [] env = Inr env"
| "add_variables owner (nv # nvs) env = then_do (add_variable owner nv env) (add_variables owner nvs)"

definition binding_variables ::
  "config \<Rightarrow> full_manifest list \<Rightarrow> (string \<times> string) list \<Rightarrow> string \<Rightarrow> database_binding \<Rightarrow> variable_error + (string \<times> string) list"
where
  "binding_variables cfg cat nodes consumer b =
     (case find (\<lambda>m. manifest_name m = binding_provider b) cat of
        None \<Rightarrow> Inl (Config_problem (Unknown_name (binding_provider b)))
      | Some provider \<Rightarrow>
          if database_provider provider = None then Inl (Value_problem (binding_provider b))
          else then_do (service_endpoint_address cfg provider nodes consumer) (\<lambda>(host, port).
            Inr [(binding_host_env b, host), (binding_port_env b, show_int port),
                 (binding_database_env b, binding_database b), (binding_username_env b, binding_username b)]))"

fun add_bindings ::
  "config \<Rightarrow> full_manifest list \<Rightarrow> (string \<times> string) list \<Rightarrow> string \<Rightarrow> string \<Rightarrow> database_binding list \<Rightarrow> owned_env
     \<Rightarrow> variable_error + owned_env"
where
  "add_bindings cfg cat nodes consumer owner [] env = Inr env"
| "add_bindings cfg cat nodes consumer owner (b # bs) env =
     then_do (binding_variables cfg cat nodes consumer b) (\<lambda>vs.
     then_do (add_variables owner vs env) (add_bindings cfg cat nodes consumer owner bs))"

definition add_databases ::
  "config \<Rightarrow> full_manifest list \<Rightarrow> (string \<times> string) list \<Rightarrow> string \<Rightarrow> full_manifest \<Rightarrow> owned_env \<Rightarrow> variable_error + owned_env"
where
  "add_databases cfg cat nodes role m env =
     then_do
       (if \<not> is_multi_node cfg then on_config (control_node cfg)
        else (case map_of nodes (manifest_name m) of
                None \<Rightarrow> Inl (Config_problem (Unknown_name (manifest_name m))) | Some n \<Rightarrow> Inr n))
       (\<lambda>consumer. if role \<noteq> consumer then Inr env else add_bindings cfg cat nodes consumer (manifest_name m) (databases m) env)"

text \<open>
  In the program the variables of a service are added one list after the other; a later list is only
  compiled when the earlier ones were added.
\<close>

definition add_manifest ::
  "py_texts \<Rightarrow> plugins \<Rightarrow> config \<Rightarrow> full_manifest list \<Rightarrow> (string \<times> string) list \<Rightarrow> string \<Rightarrow> full_manifest \<Rightarrow> owned_env
     \<Rightarrow> variable_error + owned_env"
where
  "add_manifest tx pl cfg cat nodes role m env =
     then_do (on_role pl cfg cat role m) (\<lambda>here.
       if \<not> here then Inr env
       else
         (let providers = concat (map (\<lambda>m. map (\<lambda>c. (c, manifest_name m)) (provides m)) cat);
              ctx = \<lparr>ctx_nodes = Some nodes, ctx_providers = Some (rev providers)\<rparr>
          in then_do (compile_manifest_variables tx pl cat cfg ctx m) (\<lambda>vs.
             then_do (add_variables (manifest_name m) vs env) (\<lambda>env1.
             then_do (compile_manifest_integration_variables pl cfg cat nodes role m) (\<lambda>is.
             then_do (add_variables (manifest_name m) is env1) (add_databases cfg cat nodes role m))))))"

fun add_manifests ::
  "py_texts \<Rightarrow> plugins \<Rightarrow> config \<Rightarrow> full_manifest list \<Rightarrow> (string \<times> string) list \<Rightarrow> string \<Rightarrow> full_manifest list \<Rightarrow> owned_env
     \<Rightarrow> variable_error + owned_env"
where
  "add_manifests tx pl cfg cat nodes role [] env = Inr env"
| "add_manifests tx pl cfg cat nodes role (m # ms) env =
     then_do (add_manifest tx pl cfg cat nodes role m env) (add_manifests tx pl cfg cat nodes role ms)"

definition compile_role_variables ::
  "py_texts \<Rightarrow> plugins \<Rightarrow> config \<Rightarrow> full_manifest list \<Rightarrow> string \<Rightarrow> variable_error + (string \<times> string) list"
where
  "compile_role_variables tx pl cfg cat role =
     then_do (on_config (service_node_map pl cfg (map planning_view cat))) (\<lambda>nodes.
     then_do (add_manifests tx pl cfg cat nodes role cat []) (\<lambda>env. Inr (map (\<lambda>(n, v, w). (n, v)) env)))"

fun add_host_sources ::
  "plugins \<Rightarrow> config \<Rightarrow> full_manifest list \<Rightarrow> string \<Rightarrow> string \<Rightarrow> full_manifest list \<Rightarrow> owned_env \<Rightarrow> variable_error + owned_env"
where
  "add_host_sources pl cfg cat role root [] env = Inr env"
| "add_host_sources pl cfg cat role root (m # ms) env =
     then_do (on_role pl cfg cat role m) (\<lambda>here.
       then_do
         (if here then then_do (compile_manifest_host_sources cfg cat m root) (\<lambda>ss. add_variables (manifest_name m) ss env)
          else Inr env)
         (add_host_sources pl cfg cat role root ms))"

definition compile_role_host_sources ::
  "plugins \<Rightarrow> config \<Rightarrow> full_manifest list \<Rightarrow> string \<Rightarrow> string \<Rightarrow> variable_error + (string \<times> string) list"
where
  "compile_role_host_sources pl cfg cat role root =
     then_do (add_host_sources pl cfg cat role root cat []) (\<lambda>env. Inr (map (\<lambda>(n, v, w). (n, v)) env))"

section \<open>Secrets on one machine\<close>

definition secret_of :: "(string \<times> string) list \<Rightarrow> string \<Rightarrow> string" where
  "secret_of secrets n = (case map_of secrets n of None \<Rightarrow> [] | Some v \<Rightarrow> v)"

fun project_secrets ::
  "(string \<times> string) list \<Rightarrow> string \<Rightarrow> secret_projection list \<Rightarrow> owned_env \<Rightarrow> variable_error + owned_env"
where
  "project_secrets secrets owner [] env = Inr env"
| "project_secrets secrets owner (p # ps) env =
     (case map_of env (projection_target p) of
        Some (v, previous) \<Rightarrow> Inl (Conflict (projection_target p) previous owner)
      | None \<Rightarrow>
          project_secrets secrets owner ps
            (dict_set (projection_target p) (secret_of secrets (projection_source p), owner) env))"

fun role_projections ::
  "plugins \<Rightarrow> config \<Rightarrow> full_manifest list \<Rightarrow> string \<Rightarrow> (string \<times> string) list \<Rightarrow> full_manifest list \<Rightarrow> owned_env
     \<Rightarrow> variable_error + owned_env"
where
  "role_projections pl cfg cat role secrets [] env = Inr env"
| "role_projections pl cfg cat role secrets (m # ms) env =
     then_do (on_role pl cfg cat role m) (\<lambda>here.
       then_do (if here then project_secrets secrets (manifest_name m) (secret_projections m) env else Inr env)
         (role_projections pl cfg cat role secrets ms))"

definition compile_role_secret_projections ::
  "plugins \<Rightarrow> config \<Rightarrow> full_manifest list \<Rightarrow> string \<Rightarrow> (string \<times> string) list \<Rightarrow> variable_error + (string \<times> string) list"
where
  "compile_role_secret_projections pl cfg cat role secrets =
     then_do (role_projections pl cfg cat role secrets cat []) (\<lambda>env. Inr (map (\<lambda>(n, v, w). (n, v)) env))"

definition fallback_value :: "(string \<times> string) list \<Rightarrow> required_secret \<Rightarrow> string" where
  "fallback_value secrets s =
     (case required_fallback s of
        None \<Rightarrow> []
      | Some f \<Rightarrow> strip (if secret_of secrets (required_name s) \<noteq> [] then secret_of secrets (required_name s) else secret_of secrets f))"

definition add_fallback :: "(string \<times> string) list \<Rightarrow> required_secret \<Rightarrow> (string \<times> string) list \<Rightarrow> (string \<times> string) list" where
  "add_fallback secrets s out =
     (if required_fallback s \<noteq> None \<and> fallback_value secrets s \<noteq> []
      then dict_set (required_name s) (fallback_value secrets s) out else out)"

fun role_fallbacks ::
  "plugins \<Rightarrow> config \<Rightarrow> full_manifest list \<Rightarrow> string \<Rightarrow> (string \<times> string) list \<Rightarrow> full_manifest list \<Rightarrow> (string \<times> string) list
     \<Rightarrow> variable_error + (string \<times> string) list"
where
  "role_fallbacks pl cfg cat role secrets [] out = Inr out"
| "role_fallbacks pl cfg cat role secrets (m # ms) out =
     then_do (on_role pl cfg cat role m) (\<lambda>here.
       role_fallbacks pl cfg cat role secrets ms
         (if here then fold (add_fallback secrets) (required_secrets m) out else out))"

definition compile_role_secret_fallbacks ::
  "plugins \<Rightarrow> config \<Rightarrow> full_manifest list \<Rightarrow> string \<Rightarrow> (string \<times> string) list \<Rightarrow> variable_error + (string \<times> string) list"
where
  "compile_role_secret_fallbacks pl cfg cat role secrets = role_fallbacks pl cfg cat role secrets cat []"

end
