(* ===== verification/Dependency_Search.thy ===== *)
theory Dependency_Search
  imports Dependency_Plans Desired_State
begin

text \<open>
  The depth-first search the program uses wherever declarations may depend on each other:
  \<open>visit\<close> and \<open>visit_host_integration\<close> in \<open>core/manifest/catalog.py\<close>, and \<open>dependency_sort\<close> of
  \<open>core/compose/registry.py\<close>.  A name that is met again while it is being visited closes a cycle,
  and the error shows it; the names that are finished come after everything they depend on.
\<close>

section \<open>The search\<close>

datatype search_error = Cycle "string list" | Absent string

type_synonym dependency_table = "(string \<times> string list) list"

lemma then_do_cong [fundef_cong]:
  "r = r' \<Longrightarrow> (\<And>a. r' = Inr a \<Longrightarrow> f a = f' a) \<Longrightarrow> then_do r f = then_do r' f'"
  by (cases r') simp_all

text \<open>\<open>stack\<close> holds the names being visited, \<open>visited\<close> those that are finished, in that order.\<close>

function visit_each ::
  "dependency_table \<Rightarrow> string list \<Rightarrow> string list \<Rightarrow> string list \<Rightarrow> search_error + string list"
where
  "visit_each g stack [] visited = Inr visited"
| "visit_each g stack (n # ns) visited =
     then_do
       (if n \<in> set visited then Inr visited
        else if n \<in> set stack then Inl (Cycle (dropWhile (\<lambda>m. m \<noteq> n) stack @ [n]))
        else (case map_of g n of
                None \<Rightarrow> Inl (Absent n)
              | Some deps \<Rightarrow> then_do (visit_each g (stack @ [n]) deps visited) (\<lambda>v. Inr (v @ [n]))))
       (\<lambda>v. visit_each g stack ns v)"
  by pat_completeness auto

termination
proof (relation "measures [\<lambda>(g, stack, ns, v). card (fst ` set g - set stack), \<lambda>(g, stack, ns, v). length ns]")
  fix g :: dependency_table and stack ns visited :: "string list" and n deps
  assume "n \<notin> set stack" and "map_of g n = Some deps"
  then have "n \<in> fst ` set g - set stack" by (force dest: map_of_SomeD)
  then have "card (fst ` set g - set (stack @ [n])) < card (fst ` set g - set stack)"
    by (intro psubset_card_mono) auto
  then show "((g, stack @ [n], deps, visited), (g, stack, n # ns, visited))
      \<in> measures [\<lambda>(g, stack, ns, v). card (fst ` set g - set stack), \<lambda>(g, stack, ns, v). length ns]"
    by simp
qed simp_all

definition visit_all :: "dependency_table \<Rightarrow> search_error + string list" where
  "visit_all g = visit_each g [] (map fst g) []"

section \<open>Categories\<close>

record category_plugin =
  cat_name :: string
  cat_always_on :: bool
  cat_depends_on :: "string list"
  cat_service_group :: string
  cat_access_group :: "(string \<times> bool) option"

definition category_table :: "category_plugin list \<Rightarrow> dependency_table" where
  "category_table cs = fold (\<lambda>c. dict_set (cat_name c) (cat_depends_on c)) cs []"

definition dependency_sort :: "category_plugin list \<Rightarrow> search_error + category_plugin list" where
  "dependency_sort cs =
     then_do (visit_each (category_table cs) [] (map cat_name cs) []) (\<lambda>order.
       Inr (map (\<lambda>n. the (find (\<lambda>c. cat_name c = n) (rev cs))) order))"

datatype category_error =
    Duplicate_categories | Duplicate_access_groups | Administrators nat
  | Unknown_categories string "string list" | Unknown_service_group string string
  | Category_order search_error

definition check_category :: "string list \<Rightarrow> string list \<Rightarrow> category_plugin \<Rightarrow> category_error + unit" where
  "check_category known groups c =
     (let unknown = sort (remdups (filter (\<lambda>d. d \<notin> set known) (cat_depends_on c)))
      in if unknown \<noteq> [] then Inl (Unknown_categories (cat_name c) unknown)
         else if cat_service_group c \<noteq> [] \<and> cat_service_group c \<notin> set groups
           then Inl (Unknown_service_group (cat_name c) (cat_service_group c))
         else Inr ())"

text \<open>\<open>load_all\<close> on the discovered categories; the result is what it registers.\<close>

definition load_all :: "category_plugin list \<Rightarrow> category_error + category_plugin list" where
  "load_all discovered =
     (let names = map cat_name discovered;
          groups = concat (map (\<lambda>c. case cat_access_group c of None \<Rightarrow> [] | Some a \<Rightarrow> [a]) discovered)
      in if \<not> distinct names then Inl Duplicate_categories
         else if \<not> distinct (map fst groups) then Inl Duplicate_access_groups
         else if length (filter snd groups) \<noteq> 1 then Inl (Administrators (length (filter snd groups)))
         else then_do (each (check_category names (map fst groups)) discovered) (\<lambda>us.
              (case dependency_sort discovered of
                 Inl e \<Rightarrow> Inl (Category_order e)
               | Inr order \<Rightarrow> Inr discovered)))"

section \<open>What the search finds\<close>

definition table_edges :: "dependency_table \<Rightarrow> (string \<times> string) set" where
  "table_edges g = {(a, b). \<exists>deps. map_of g a = Some deps \<and> b \<in> set deps}"

definition closed_table :: "dependency_table \<Rightarrow> bool" where
  "closed_table g \<longleftrightarrow> (\<forall>(a, deps) \<in> set g. set deps \<subseteq> fst ` set g)"

text \<open>Every entry of the list comes after its dependencies.\<close>

fun settled :: "('a \<times> 'a) set \<Rightarrow> 'a set \<Rightarrow> 'a list \<Rightarrow> bool" where
  "settled E D [] = True"
| "settled E D (x # xs) \<longleftrightarrow> E `` {x} \<subseteq> D \<and> settled E (insert x D) xs"

lemma settled_append: "settled E D (xs @ ys) \<longleftrightarrow> settled E D xs \<and> settled E (D \<union> set xs) ys"
  by (induction xs arbitrary: D) (auto simp: insert_commute Un_commute)

lemma settled_steps: "settled E {} xs \<Longrightarrow> ordered_steps E (map (\<lambda>x. [x]) xs)"
proof (induction xs rule: rev_induct)
  case (snoc x xs)
  then have x: "E `` {x} \<subseteq> set xs" and ih: "ordered_steps E (map (\<lambda>x. [x]) xs)"
    by (simp_all add: settled_append)
  show ?case
    unfolding ordered_steps_def
  proof (intro allI impI ballI)
    fix i n d
    assume i: "i < length (map (\<lambda>x. [x]) (xs @ [x]))" and n: "n \<in> set (map (\<lambda>x. [x]) (xs @ [x]) ! i)" and e: "(n, d) \<in> E"
    show "\<exists>j<i. d \<in> set (map (\<lambda>x. [x]) (xs @ [x]) ! j)"
    proof (cases "i < length xs")
      case True
      with n have "n \<in> set (map (\<lambda>x. [x]) xs ! i)" by (simp add: nth_append)
      with ih e True obtain j where "j < i" "d \<in> set (map (\<lambda>x. [x]) xs ! j)"
        unfolding ordered_steps_def by (metis length_map)
      with True show ?thesis by (auto simp: nth_append intro!: exI [of _ j])
    next
      case False
      with i have "i = length xs" by simp
      with n have "n = x" by (simp add: nth_append)
      with e x have "d \<in> set xs" by auto
      then obtain j where "j < length xs" "xs ! j = d" by (auto simp: in_set_conv_nth)
      with \<open>i = length xs\<close> show ?thesis by (auto simp: nth_append intro!: exI [of _ j])
    qed
  qed
qed (simp add: ordered_steps_def)

lemma visit_each_success:
  assumes "visit_each g stack ns visited = Inr v"
    and "distinct visited" and "set visited \<inter> set stack = {}" and "settled (table_edges g) {} visited"
  shows "distinct v \<and> set v \<inter> set stack = {} \<and> settled (table_edges g) {} v \<and> set visited \<subseteq> set v
    \<and> set ns \<subseteq> set v \<and> set v \<subseteq> set visited \<union> fst ` set g"
  using assms
proof (induction g stack ns visited arbitrary: v rule: visit_each.induct)
  case (2 g stack n ns visited)
  from "2.prems"(1) obtain u where u: "(if n \<in> set visited then Inr visited
        else if n \<in> set stack then Inl (Cycle (dropWhile (\<lambda>m. m \<noteq> n) stack @ [n]))
        else (case map_of g n of None \<Rightarrow> Inl (Absent n)
              | Some deps \<Rightarrow> then_do (visit_each g (stack @ [n]) deps visited) (\<lambda>v. Inr (v @ [n])))) = Inr u"
    and rest: "visit_each g stack ns u = Inr v"
    by (auto simp: then_do_Inr_iff)
  have "distinct u \<and> set u \<inter> set stack = {} \<and> settled (table_edges g) {} u \<and> set visited \<subseteq> set u
      \<and> n \<in> set u \<and> set u \<subseteq> set visited \<union> fst ` set g"
  proof (cases "n \<in> set visited")
    case True
    then show ?thesis using u "2.prems" by auto
  next
    case False
    with u obtain deps w where st: "n \<notin> set stack" and deps: "map_of g n = Some deps"
      and w: "visit_each g (stack @ [n]) deps visited = Inr w" and uw: "u = w @ [n]"
      by (auto simp: then_do_Inr_iff split: if_splits option.splits)
    have ih: "distinct w \<and> set w \<inter> set (stack @ [n]) = {} \<and> settled (table_edges g) {} w \<and> set visited \<subseteq> set w
      \<and> set deps \<subseteq> set w \<and> set w \<subseteq> set visited \<union> fst ` set g"
      using "2.IH"(1) [OF False st deps w] "2.prems" False by auto
    moreover have "table_edges g `` {n} \<subseteq> set w" using ih deps by (auto simp: table_edges_def)
    moreover have "n \<in> fst ` set g" using deps by (force dest: map_of_SomeD)
    ultimately show ?thesis using uw st by (auto simp: settled_append)
  qed
  then show ?case using "2.IH"(2) [OF u rest] by auto
qed simp

lemma successively_dropWhile: "successively P xs \<Longrightarrow> successively P (dropWhile Q xs)"
  by (induction xs rule: induct_list012) auto

lemma visit_each_cycle:
  assumes "visit_each g stack ns visited = Inl (Cycle c)"
    and "successively (\<lambda>a b. (a, b) \<in> table_edges g) stack"
    and "stack \<noteq> [] \<Longrightarrow> \<forall>n \<in> set ns. (last stack, n) \<in> table_edges g"
  shows "2 \<le> length c \<and> hd c = last c \<and> successively (\<lambda>a b. (a, b) \<in> table_edges g) c"
  using assms
proof (induction g stack ns visited arbitrary: c rule: visit_each.induct)
  case (2 g stack n ns visited)
  let ?one = "if n \<in> set visited then Inr visited
        else if n \<in> set stack then Inl (Cycle (dropWhile (\<lambda>m. m \<noteq> n) stack @ [n]))
        else (case map_of g n of None \<Rightarrow> Inl (Absent n)
              | Some deps \<Rightarrow> then_do (visit_each g (stack @ [n]) deps visited) (\<lambda>v. Inr (v @ [n])))"
  show ?case
  proof (cases ?one)
    case (Inr u)
    with "2.prems"(1) have "visit_each g stack ns u = Inl (Cycle c)" by simp
    from "2.IH"(2) [OF Inr this] "2.prems"(2,3) show ?thesis by simp
  next
    case (Inl e)
    with "2.prems"(1) have e: "e = Cycle c" by simp
    have new: "n \<notin> set visited" using Inl by auto
    show ?thesis
    proof (cases "n \<in> set stack")
      case True
      let ?d = "dropWhile (\<lambda>m. m \<noteq> n) stack"
      have c: "c = ?d @ [n]" using Inl e new True by simp
      have ne: "?d \<noteq> []" using True by (auto simp: dropWhile_eq_Nil_conv)
      then have "hd ?d = n" using hd_dropWhile by blast
      moreover have "last ?d = last stack" using ne by (metis dropWhile_eq_drop last_drop length_greater_0_conv drop_eq_Nil not_le)
      moreover have "(last stack, n) \<in> table_edges g" using "2.prems"(3) True by force
      ultimately show ?thesis
        using c ne successively_dropWhile [OF "2.prems"(2)]
        by (auto simp: successively_append_iff Suc_le_eq)
    next
      case False
      with Inl e new obtain deps where deps: "map_of g n = Some deps"
        and w: "visit_each g (stack @ [n]) deps visited = Inl (Cycle c)"
        by (cases "map_of g n") (auto simp: then_do_def split: sum.splits)
      have "successively (\<lambda>a b. (a, b) \<in> table_edges g) (stack @ [n])"
        using "2.prems"(2,3) by (auto simp: successively_append_iff)
      moreover have "\<forall>m \<in> set deps. (last (stack @ [n]), m) \<in> table_edges g"
        using deps by (auto simp: table_edges_def)
      ultimately show ?thesis using "2.IH"(1) [OF new False deps w] by blast
    qed
  qed
qed simp

lemma visit_each_absent:
  assumes "visit_each g stack ns visited = Inl (Absent x)" and "closed_table g"
  shows "\<not> set ns \<subseteq> fst ` set g"
  using assms
proof (induction g stack ns visited rule: visit_each.induct)
  case (2 g stack n ns visited)
  show ?case
  proof (rule ccontr)
    assume "\<not> \<not> set (n # ns) \<subseteq> fst ` set g"
    then have known: "n \<in> fst ` set g" "set ns \<subseteq> fst ` set g" by auto
    let ?one = "if n \<in> set visited then Inr visited
        else if n \<in> set stack then Inl (Cycle (dropWhile (\<lambda>m. m \<noteq> n) stack @ [n]))
        else (case map_of g n of None \<Rightarrow> Inl (Absent n)
              | Some deps \<Rightarrow> then_do (visit_each g (stack @ [n]) deps visited) (\<lambda>v. Inr (v @ [n])))"
    show False
    proof (cases ?one)
      case (Inr u)
      with "2.prems"(1) have "visit_each g stack ns u = Inl (Absent x)" by simp
      from "2.IH"(2) [OF Inr this "2.prems"(2)] known show False by simp
    next
      case (Inl e)
      with "2.prems"(1) have e: "e = Absent x" by simp
      then have new: "n \<notin> set visited" "n \<notin> set stack" using Inl by (auto split: if_splits)
      obtain deps where deps: "map_of g n = Some deps" using known(1) by (metis map_of_eq_None_iff not_None_eq)
      then have w: "visit_each g (stack @ [n]) deps visited = Inl (Absent x)"
        using Inl e new by (auto simp: then_do_def split: sum.splits)
      have "set deps \<subseteq> fst ` set g" using "2.prems"(2) map_of_SomeD [OF deps] by (auto simp: closed_table_def)
      with "2.IH"(1) [OF new deps w "2.prems"(2)] show False by simp
    qed
  qed
qed simp

lemma cycle_stuck:
  assumes "2 \<le> length c" and "hd c = last c" and "successively (\<lambda>a b. (a, b) \<in> E) c"
  shows "stuck E (set c)"
  unfolding stuck_def
proof (intro conjI ballI)
  show "set c \<noteq> {}" using assms(1) by auto
  fix x assume "x \<in> set c"
  then obtain i where i: "i < length c" "c ! i = x" by (auto simp: in_set_conv_nth)
  have step: "(c ! j, c ! Suc j) \<in> E" if "Suc j < length c" for j
    using assms(3) that by (simp add: successively_conv_nth)
  show "\<exists>d\<in>set c. (x, d) \<in> E"
  proof (cases "Suc i < length c")
    case True
    with step i show ?thesis by (metis nth_mem)
  next
    case False
    have ne: "c \<noteq> []" using i by auto
    from False i have "i = length c - 1" by simp
    then have "x = last c" using i ne by (simp add: last_conv_nth)
    then have "x = c ! 0" using assms(2) ne by (simp add: hd_conv_nth)
    moreover have "c ! Suc 0 \<in> set c" using assms(1) by (intro nth_mem) simp
    moreover have "(c ! 0, c ! Suc 0) \<in> E" using step [of 0] assms(1) by simp
    ultimately show ?thesis by blast
  qed
qed

lemma visit_all_plan:
  assumes "closed_table g"
  shows "dependency_plan (table_edges g) (fst ` set g) (map_sum id (map (\<lambda>x. [x])) (visit_all g))"
proof
  show "finite (fst ` set g)" by simp
  show "table_edges g \<subseteq> fst ` set g \<times> fst ` set g"
    using assms by (auto simp: table_edges_def closed_table_def dest!: map_of_SomeD) force+
next
  fix steps assume "map_sum id (map (\<lambda>x. [x])) (visit_all g) = Inr steps"
  then obtain v where v: "visit_each g [] (map fst g) [] = Inr v" and steps: "steps = map (\<lambda>x. [x]) v"
    by (cases "visit_all g") (auto simp: visit_all_def)
  from visit_each_success [OF v] have d: "distinct v" "set v = fst ` set g" "settled (table_edges g) {} v" by auto
  have "concat steps = v" by (simp add: steps)
  then show "distinct (concat steps) \<and> set (concat steps) = fst ` set g \<and> ordered_steps (table_edges g) steps"
    using d settled_steps steps by simp
next
  fix e assume "map_sum id (map (\<lambda>x. [x])) (visit_all g) = Inl e"
  then have e: "visit_each g [] (map fst g) [] = Inl e" by (cases "visit_all g") (auto simp: visit_all_def)
  show "\<exists>R\<subseteq>fst ` set g. stuck (table_edges g) R"
  proof (cases e)
    case (Cycle c)
    from visit_each_cycle [OF e [unfolded Cycle]] have c: "2 \<le> length c" "hd c = last c"
      "successively (\<lambda>a b. (a, b) \<in> table_edges g) c" by auto
    have st: "stuck (table_edges g) (set c)" by (rule cycle_stuck [OF c])
    then have "set c \<subseteq> fst ` set g" by (force simp: stuck_def table_edges_def dest: map_of_SomeD)
    with st show ?thesis by blast
  next
    case (Absent x)
    with visit_each_absent [OF e [unfolded Absent] assms] show ?thesis by auto
  qed
qed

end
