(* ===== verification/Service_Catalog.thy ===== *)
theory Service_Catalog
  imports Manifest_Variables Dependency_Search
begin

text \<open>
  \<open>_validate_catalog\<close> of \<open>core/manifest/catalog.py\<close>: the checks that look at all manifests together.
  \<open>cats\<close> is what \<open>discover_categories\<close> returns and \<open>base\<close> the configuration \<open>Config()\<close>, whose packaged
  machine table has several machines; \<open>tx\<close> renders numbers and \<open>pl\<close> is what planning reads.

  The ten owner dictionaries of the function are one table whose keys say which dictionary they
  belong to.  The set of paths of a host source is visited in the order of the manifest; Python may
  choose another order, which only changes which overlap is reported.
\<close>

datatype claimed =
    Capability string | Projected_secret string
  | Database string string | Database_role string string
  | Host_integration_id string | Image_environment string | Image_repository string
  | Host_source_name string | Internal_alias string | Generated_path string | Credential string

datatype catalog_error =
    Bad_categories category_error
  | Duplicate_service
  | Owned_twice claimed string string
  | Unknown_category string string
  | Unknown_groups string "string list"
  | Invite_group string
  | Bad_variable string variable_error
  | Uncaught variable_error
  | Unknown_setting string string
  | Bad_predicate string string config_error
  | Unknown_fallback string string string
  | Setup_predicate string string
  | Setup_null string string
  | Setup_hidden string string
  | Unknown_dependency string string
  | Self_dependency string
  | Unknown_database_provider string string
  | Provider_not_dependency string string
  | No_provider_contract string
  | Unknown_integration string string
  | Integration_not_dependency string string
  | Integration_is_dependency string string
  | Integration_without_endpoint string string
  | Integration_unpublished string string
  | Routes_unpublished string "string list"
  | No_metrics_provider string
  | Scrape_unpublished string string
  | Overlapping_sources string string string string
  | Undeclared_environment string string string
  | Oidc_route_without_client string
  | Oidc_secret_undeclared string
  | Oidc_without_route string
  | Unknown_ordering string "string list"
  | Ordering_cycle search_error
  | Unknown_source string string string
  | Unknown_scrape_integration string string string
  | Job_paths string string string
  | Dependency_cycle search_error
  | Duplicate_route string match_kind string
  | Default_twice string string string
  | No_default "string list"

definition ensure :: "bool \<Rightarrow> 'e \<Rightarrow> 'e + unit" where
  "ensure ok e = (if ok then Inr () else Inl e)"

definition run_checks :: "('a \<Rightarrow> 'e + unit) \<Rightarrow> 'a list \<Rightarrow> 'e + unit" where
  "run_checks f xs = then_do (each f xs) (\<lambda>us. Inr ())"

fun try_fold :: "('a \<Rightarrow> 's \<Rightarrow> 'e + 's) \<Rightarrow> 'a list \<Rightarrow> 's \<Rightarrow> 'e + 's" where
  "try_fold f [] s = Inr s"
| "try_fold f (x # xs) s = then_do (f x s) (try_fold f xs)"

section \<open>Owners\<close>

record owners =
  owned :: "(claimed \<times> string) list"
  config_paths :: "(string \<times> string) list"

definition claim :: "string \<Rightarrow> claimed \<Rightarrow> owners \<Rightarrow> catalog_error + owners" where
  "claim owner key st =
     (case map_of (owned st) key of
        Some previous \<Rightarrow> Inl (Owned_twice key previous owner)
      | None \<Rightarrow> Inr (st\<lparr>owned := dict_set key owner (owned st)\<rparr>))"

definition claim_all :: "string \<Rightarrow> claimed list \<Rightarrow> owners \<Rightarrow> catalog_error + owners" where
  "claim_all owner keys st = try_fold (claim owner) keys st"

definition claim_capabilities :: "full_manifest list \<Rightarrow> owners \<Rightarrow> catalog_error + owners" where
  "claim_capabilities ms st = try_fold (\<lambda>m. claim_all (manifest_name m) (map Capability (provides m))) ms st"

definition rstrip_slash :: "string \<Rightarrow> string" where
  "rstrip_slash s = rev (dropWhile (\<lambda>c. c = CHR ''/'') (rev s))"

definition sources_overlap :: "string \<Rightarrow> string \<Rightarrow> bool" where
  "sources_overlap p q \<longleftrightarrow>
     p = q \<or> prefix (rstrip_slash q @ ''/'') p \<or> prefix (rstrip_slash p @ ''/'') q"

definition claim_path :: "string \<Rightarrow> string \<Rightarrow> owners \<Rightarrow> catalog_error + owners" where
  "claim_path owner p st =
     (if \<not> prefix ''config/'' p then Inr st
      else (case find (\<lambda>(q, previous). sources_overlap p q) (config_paths st) of
              Some (q, previous) \<Rightarrow> Inl (Overlapping_sources p owner q previous)
            | None \<Rightarrow> Inr (st\<lparr>config_paths := config_paths st @ [(p, owner)]\<rparr>)))"

definition claim_source :: "string \<Rightarrow> string \<times> host_source \<Rightarrow> owners \<Rightarrow> catalog_error + owners" where
  "claim_source owner = (\<lambda>(n, s) st.
     then_do (claim owner (Host_source_name n) st) (try_fold (claim_path owner) (remdups (source_paths s))))"

section \<open>Groups, variables and predicates\<close>

definition category_groups :: "category_plugin list \<Rightarrow> string list" where
  "category_groups cats = concat (map (\<lambda>c. case cat_access_group c of None \<Rightarrow> [] | Some (g, admin) \<Rightarrow> [g]) cats)"

definition effective_groups :: "category_plugin \<Rightarrow> full_manifest \<Rightarrow> string list" where
  "effective_groups c m =
     (if access_groups (identity m) \<noteq> [] then access_groups (identity m)
      else if cat_service_group c \<noteq> [] then [cat_service_group c] else [])"

definition check_groups :: "category_plugin list \<Rightarrow> category_plugin \<Rightarrow> full_manifest \<Rightarrow> catalog_error + unit" where
  "check_groups cats c m =
     (let unknown = sort (remdups (filter (\<lambda>g. g \<notin> set (category_groups cats)) (effective_groups c m)))
      in ensure (unknown = []) (Unknown_groups (manifest_name m) unknown))"

definition check_invite_group :: "category_plugin \<Rightarrow> full_manifest \<Rightarrow> catalog_error + unit" where
  "check_invite_group c m =
     ensure (pred_option (\<lambda>i. card_group i \<in> set (effective_groups c m)) (identity_invite (identity m)))
       (Invite_group (manifest_name m))"

text \<open>\<open>cat\<close> is only read on one machine, for the address range of the mesh router.\<close>

definition check_variables ::
  "py_texts \<Rightarrow> plugins \<Rightarrow> config \<Rightarrow> variable_context \<Rightarrow> full_manifest list \<Rightarrow> full_manifest \<Rightarrow> catalog_error + unit"
where
  "check_variables tx pl base ctx ms m =
     (case compile_manifest_variables tx pl ms base ctx m of
        Inl e \<Rightarrow> Inl (if variable_value_error e then Bad_variable (manifest_name m) e else Uncaught e)
      | Inr vs \<Rightarrow> Inr ())"

definition declared_settings :: "full_manifest list \<Rightarrow> (string \<times> service_setting) list" where
  "declared_settings ms =
     rev (concat (map (\<lambda>m. map (\<lambda>s. (manifest_name m @ ''.'' @ set_key s, s)) (settings m)) ms))"

definition manifest_predicates :: "full_manifest \<Rightarrow> config_predicate list" where
  "manifest_predicates m =
     enabled_when m
     @ concat (map (\<lambda>r. map variant_when (variants r)) (routes m))
     @ concat (map listener_enabled_when (network_listeners m))
     @ concat (map (\<lambda>(n, s). map source_when (source_variants s)) (host_sources m))
     @ concat (map (\<lambda>s. case required_setup s of None \<Rightarrow> [] | Some u \<Rightarrow> setup_when u) (required_secrets m))"

definition check_predicate :: "full_manifest list \<Rightarrow> string \<Rightarrow> config_predicate \<Rightarrow> catalog_error + unit" where
  "check_predicate ms service pr =
     (case pred_setting pr of
        None \<Rightarrow> Inr ()
      | Some ref \<Rightarrow>
          (case map_of (declared_settings ms) ref of
             None \<Rightarrow> Inl (Unknown_setting service ref)
           | Some st \<Rightarrow>
               (case each (validate_setting_value st) (case pred_equals pr of Some v \<Rightarrow> [v] | None \<Rightarrow> pred_one_of pr) of
                  Inl e \<Rightarrow> Inl (Bad_predicate service ref e)
                | Inr vs \<Rightarrow> Inr ())))"

definition known_environments :: "full_manifest list \<Rightarrow> string list" where
  "known_environments ms =
     concat (map (\<lambda>m. map required_name (required_secrets m) @ map fst (variables m)
               @ map projection_target (secret_projections m) @ runtime_variables m) ms)"

definition check_setup :: "full_manifest list \<Rightarrow> string \<Rightarrow> string \<Rightarrow> config_predicate \<Rightarrow> catalog_error + unit" where
  "check_setup ms service secret pr =
     (case pred_setting pr of
        None \<Rightarrow> Inl (Setup_predicate service secret)
      | Some ref \<Rightarrow>
          if pred_equals pr = Some PNone then Inl (Setup_null service secret)
          else (case map_of (declared_settings ms) ref of
                  None \<Rightarrow> Inl (Uncaught (Config_problem (Unknown_name ref)))
                | Some st \<Rightarrow> ensure (set_setup st) (Setup_hidden service secret)))"

definition check_secret :: "full_manifest list \<Rightarrow> string \<Rightarrow> required_secret \<Rightarrow> catalog_error + unit" where
  "check_secret ms service s =
     then_do (ensure (pred_option (\<lambda>f. f \<in> set (known_environments ms)) (required_fallback s))
                (Unknown_fallback service (required_name s) (the (required_fallback s)))) (\<lambda>u.
       case required_setup s of
         None \<Rightarrow> Inr ()
       | Some su \<Rightarrow> run_checks (check_setup ms service (required_name s)) (setup_when su))"

section \<open>Services that need each other\<close>

definition check_dependency :: "full_manifest list \<Rightarrow> string \<Rightarrow> string \<Rightarrow> catalog_error + unit" where
  "check_dependency ms service d =
     then_do (ensure (d \<in> set (map manifest_name ms)) (Unknown_dependency service d)) (\<lambda>u.
       ensure (d \<noteq> service) (Self_dependency service))"

definition claim_database ::
  "full_manifest list \<Rightarrow> full_manifest \<Rightarrow> database_binding \<Rightarrow> owners \<Rightarrow> catalog_error + owners"
where
  "claim_database ms m b st =
     (case find (\<lambda>p. manifest_name p = binding_provider b) ms of
        None \<Rightarrow> Inl (Unknown_database_provider (manifest_name m) (binding_provider b))
      | Some p \<Rightarrow>
          if binding_provider b \<notin> set (manifest_depends_on m)
          then Inl (Provider_not_dependency (manifest_name m) (binding_provider b))
          else if database_provider p = None then Inl (No_provider_contract (binding_provider b))
          else claim_all (manifest_name m)
                 [Database (binding_provider b) (binding_database b), Database_role (binding_provider b) (binding_username b)] st)"

definition check_integration :: "full_manifest list \<Rightarrow> full_manifest \<Rightarrow> integration \<Rightarrow> catalog_error + unit" where
  "check_integration ms m i =
     (case find (\<lambda>p. manifest_name p = integration_service i) ms of
        None \<Rightarrow> Inl (Unknown_integration (manifest_name m) (integration_service i))
      | Some p \<Rightarrow>
          if integration_required i \<and> integration_service i \<notin> set (manifest_depends_on m)
          then Inl (Integration_not_dependency (manifest_name m) (integration_service i))
          else if \<not> integration_required i \<and> integration_service i \<in> set (manifest_depends_on m)
          then Inl (Integration_is_dependency (manifest_name m) (integration_service i))
          else (case endpoint p of
                  None \<Rightarrow> Inl (Integration_without_endpoint (manifest_name m) (integration_service i))
                | Some ep \<Rightarrow>
                    ensure (placement m = placement p \<or> published_port ep \<noteq> None)
                      (Integration_unpublished (manifest_name m) (manifest_name p))))"

definition check_ingress_routes :: "full_manifest list \<Rightarrow> full_manifest \<Rightarrow> catalog_error + unit" where
  "check_ingress_routes ms m =
     (case catalog_provider ms ''ingress'' of
        None \<Rightarrow> Inr ()
      | Some i \<Rightarrow>
          if placement m = placement i then Inr ()
          else (let missing = map (host_of m) (filter (\<lambda>r. file_server_root r = [] \<and> route_port r = None) (routes m))
                in ensure (missing = []) (Routes_unpublished (manifest_name m) missing)))"

definition check_scrapes :: "full_manifest list \<Rightarrow> full_manifest \<Rightarrow> catalog_error + unit" where
  "check_scrapes ms m =
     (if prometheus m = [] then Inr ()
      else then_do (ensure (catalog_provider ms ''metrics'' \<noteq> None) (No_metrics_provider (manifest_name m))) (\<lambda>u.
        run_checks (\<lambda>s. ensure (scrape_integration s \<noteq> [] \<or> scrape_host_port s \<noteq> None)
                      (Scrape_unpublished (manifest_name m) (scrape_id s))) (prometheus m)))"

section \<open>One manifest\<close>

definition image_claims :: "full_manifest \<Rightarrow> claimed list" where
  "image_claims m =
     (case image_build m of
        None \<Rightarrow> []
      | Some b \<Rightarrow> [Image_environment (build_env_var b),
                    Image_repository (if build_repository b \<noteq> [] then build_repository b else manifest_name m)])
     @ (case image_release m of None \<Rightarrow> [] | Some r \<Rightarrow> [Image_repository (release_repository r)])"

definition claim_credential :: "full_manifest list \<Rightarrow> string \<Rightarrow> credential_manifest \<Rightarrow> owners \<Rightarrow> catalog_error + owners" where
  "claim_credential ms owner c st =
     then_do (claim owner (Credential (credential_name c)) st) (\<lambda>st.
       if credential_password_env c \<noteq> [] \<and> credential_password_env c \<notin> set (known_environments ms)
       then Inl (Undeclared_environment owner (credential_name c) (credential_password_env c))
       else (case credential_username_env c of
               Some u \<Rightarrow> if u \<noteq> [] \<and> u \<notin> set (known_environments ms)
                          then Inl (Undeclared_environment owner (credential_name c) u) else Inr st
             | None \<Rightarrow> Inr st))"

definition check_oidc :: "full_manifest \<Rightarrow> catalog_error + unit" where
  "check_oidc m =
     (let has_oidc = list_ex (\<lambda>r. auth_mode (auth r) = Oidc) (routes m);
          has_split = list_ex (\<lambda>r. auth_mode (auth r) = Split) (routes m)
      in case oidc m of
           None \<Rightarrow> ensure (\<not> has_oidc) (Oidc_route_without_client (manifest_name m))
         | Some o' \<Rightarrow>
             then_do (ensure (oidc_secret_env o' \<in> set (map required_name (required_secrets m)))
                        (Oidc_secret_undeclared (manifest_name m))) (\<lambda>u.
               ensure (has_oidc \<or> has_split) (Oidc_without_route (manifest_name m))))"

text \<open>The checks that read the claims only through the dictionaries, in the order of the loop.\<close>

definition check_relations :: "full_manifest list \<Rightarrow> full_manifest \<Rightarrow> catalog_error + unit" where
  "check_relations ms m =
     then_do (run_checks (check_integration ms m) (integrations m)) (\<lambda>u.
     then_do (check_ingress_routes ms m) (\<lambda>u. check_scrapes ms m))"

definition check_declarations :: "full_manifest list \<Rightarrow> full_manifest \<Rightarrow> catalog_error + unit" where
  "check_declarations ms m =
     then_do (run_checks (check_predicate ms (manifest_name m)) (manifest_predicates m)) (\<lambda>u.
     then_do (run_checks (check_secret ms (manifest_name m)) (required_secrets m)) (\<lambda>u.
       run_checks (check_dependency ms (manifest_name m)) (manifest_depends_on m)))"

definition claim_resources :: "full_manifest list \<Rightarrow> full_manifest \<Rightarrow> owners \<Rightarrow> catalog_error + owners" where
  "claim_resources ms m st =
     then_do (claim_all (manifest_name m) (map (Host_integration_id \<circ> hi_id) (host_integrations m)) st) (\<lambda>st.
     then_do (claim_all (manifest_name m) (image_claims m) st) (\<lambda>st.
     then_do (try_fold (claim_source (manifest_name m)) (host_sources m) st) (\<lambda>st.
     then_do (claim_all (manifest_name m) (map Internal_alias (internal_aliases m)) st) (\<lambda>st.
     then_do (claim_all (manifest_name m) (map (Generated_path \<circ> artifact_path) (generated_artifacts m)) st) (\<lambda>st.
       try_fold (claim_credential ms (manifest_name m)) (credentials m) st)))))"

definition check_manifest ::
  "py_texts \<Rightarrow> plugins \<Rightarrow> config \<Rightarrow> variable_context \<Rightarrow> category_plugin list \<Rightarrow> full_manifest list \<Rightarrow> full_manifest \<Rightarrow> owners
     \<Rightarrow> catalog_error + owners"
where
  "check_manifest tx pl base ctx cats ms m st =
     (case find (\<lambda>c. cat_name c = category m) cats of
        None \<Rightarrow> Inl (Unknown_category (manifest_name m) (category m))
      | Some c \<Rightarrow>
          then_do (check_groups cats c m) (\<lambda>u.
          then_do (claim_all (manifest_name m) (map (Projected_secret \<circ> projection_target) (secret_projections m)) st) (\<lambda>st.
          then_do (check_invite_group c m) (\<lambda>u.
          then_do (check_variables tx pl base ctx ms m) (\<lambda>u.
          then_do (check_declarations ms m) (\<lambda>u.
          then_do (try_fold (claim_database ms m) (databases m) st) (\<lambda>st.
          then_do (check_relations ms m) (\<lambda>u.
          then_do (claim_resources ms m st) (\<lambda>st.
          then_do (check_oidc m) (\<lambda>u. Inr st))))))))))"

section \<open>Host integrations\<close>

definition integration_ordering :: "full_manifest list \<Rightarrow> dependency_table" where
  "integration_ordering ms =
     fold (\<lambda>h. dict_set (hi_id h) (hi_after h)) (concat (map host_integrations ms)) []"

definition check_ordering :: "full_manifest list \<Rightarrow> catalog_error + unit" where
  "check_ordering ms =
     (let g = integration_ordering ms
      in then_do
           (run_checks (\<lambda>(i, after).
              let unknown = sort (remdups (filter (\<lambda>a. a \<notin> fst ` set g) after))
              in ensure (unknown = []) (Unknown_ordering i unknown)) g)
           (\<lambda>u. case visit_all g of Inl e \<Rightarrow> Inl (Ordering_cycle e) | Inr order \<Rightarrow> Inr ()))"

definition check_source ::
  "string list \<Rightarrow> string list \<Rightarrow> string \<Rightarrow> string \<Rightarrow> string \<Rightarrow> catalog_error + unit"
where
  "check_source known hosts service l src =
     then_do (ensure (prefix ''@service:'' src \<longrightarrow> remove_prefix ''@service:'' src \<in> set known)
                (Unknown_source service l src)) (\<lambda>u.
       ensure (prefix ''@integration:'' src \<longrightarrow> remove_prefix ''@integration:'' src \<in> set hosts)
         (Unknown_source service l src))"

text \<open>\<open>jobs\<close> is the dictionary \<open>prometheus_job_paths\<close>.\<close>

definition check_scrape ::
  "string list \<Rightarrow> string \<Rightarrow> scrape \<Rightarrow> (string \<times> string) list \<Rightarrow> catalog_error + (string \<times> string) list"
where
  "check_scrape hosts service s jobs =
     then_do (ensure (scrape_integration s = [] \<or> scrape_integration s \<in> set hosts)
                (Unknown_scrape_integration service (scrape_id s) (scrape_integration s))) (\<lambda>u.
       let job = (if scrape_job s \<noteq> [] then scrape_job s else service)
       in case map_of jobs job of
            None \<Rightarrow> Inr (dict_set job (scrape_path s) jobs)
          | Some p \<Rightarrow> if p \<noteq> scrape_path s then Inl (Job_paths job p (scrape_path s)) else Inr jobs)"

definition check_references ::
  "string list \<Rightarrow> string list \<Rightarrow> full_manifest \<Rightarrow> (string \<times> string) list \<Rightarrow> catalog_error + (string \<times> string) list"
where
  "check_references known hosts m jobs =
     then_do (run_checks (\<lambda>l. run_checks (check_source known hosts (manifest_name m) (listener_id l)) (listener_sources l))
                (network_listeners m)) (\<lambda>u.
       try_fold (check_scrape hosts (manifest_name m)) (prometheus m) jobs)"

section \<open>The dependency graph and the routes\<close>

definition manifest_graph :: "full_manifest list \<Rightarrow> dependency_table" where
  "manifest_graph ms = map (\<lambda>m. (manifest_name m, manifest_depends_on m)) ms"

record route_claims =
  default_of :: "(string \<times> string) list"
  matched :: "(string \<times> match_kind \<times> string) list"
  represented :: "string list"

definition claim_match :: "string \<Rightarrow> match_kind \<times> string \<Rightarrow> route_claims \<Rightarrow> catalog_error + route_claims" where
  "claim_match host = (\<lambda>(kind, p) st.
     if (host, kind, p) \<in> set (matched st) then Inl (Duplicate_route host kind p)
     else Inr (st\<lparr>matched := (host, kind, p) # matched st\<rparr>))"

definition match_claims :: "route_match \<Rightarrow> (match_kind \<times> string) list" where
  "match_claims mt = map (Pair (match_kind mt)) (match_paths mt)"

text \<open>What a route claims besides the host's default.\<close>

definition route_matches :: "route_manifest \<Rightarrow> (match_kind \<times> string) list" where
  "route_matches r =
     (case match r of
        None \<Rightarrow> (if auth_mode (auth r) = Split then map (Pair Exact_match) (passthrough_paths (auth r)) else [])
                 @ concat (map match_claims (deny r))
      | Some mt \<Rightarrow> match_claims mt)"

definition claim_route :: "full_manifest \<Rightarrow> route_manifest \<Rightarrow> route_claims \<Rightarrow> catalog_error + route_claims" where
  "claim_route m r st =
     (let host = host_of m r;
          st1 = st\<lparr>represented := host # represented st\<rparr>
      in then_do
           (if match r \<noteq> None then Inr st1
            else (case map_of (default_of st1) host of
                    Some previous \<Rightarrow> Inl (Default_twice host previous (manifest_name m))
                  | None \<Rightarrow> Inr (st1\<lparr>default_of := dict_set host (manifest_name m) (default_of st1)\<rparr>)))
           (try_fold (claim_match host) (route_matches r)))"

definition shown_host :: "string \<Rightarrow> string" where
  "shown_host h = (if h = [] then ''<root>'' else h)"

definition check_routes :: "full_manifest list \<Rightarrow> catalog_error + unit" where
  "check_routes ms =
     then_do (try_fold (\<lambda>m. try_fold (claim_route m) (routes m)) ms
                \<lparr>default_of = [], matched = [], represented = []\<rparr>) (\<lambda>st.
       let missing = filter (\<lambda>h. h \<notin> fst ` set (default_of st)) (remdups (represented st))
       in ensure (missing = []) (No_default (sort (map shown_host missing))))"

section \<open>The whole catalog\<close>

definition validate_catalog ::
  "py_texts \<Rightarrow> plugins \<Rightarrow> config \<Rightarrow> category_plugin list \<Rightarrow> full_manifest list \<Rightarrow> catalog_error + unit"
where
  "validate_catalog tx pl base discovered ms =
     then_do (map_sum Bad_categories id (load_all discovered)) (\<lambda>cats.
     then_do (ensure (distinct (map manifest_name ms)) Duplicate_service) (\<lambda>u.
     then_do (map_sum (Uncaught \<circ> Config_problem) id (control_node base)) (\<lambda>control.
     then_do (claim_capabilities ms \<lparr>owned = [], config_paths = []\<rparr>) (\<lambda>st.
       let ctx = \<lparr>ctx_nodes = Some (map (\<lambda>m. (manifest_name m, control)) ms),
                  ctx_providers = Some (concat (map (\<lambda>m. map (\<lambda>c. (c, manifest_name m)) (provides m)) ms))\<rparr>
       in then_do (try_fold (check_manifest tx pl base ctx cats ms) ms st) (\<lambda>st.
          then_do (check_ordering ms) (\<lambda>u.
          then_do (try_fold (check_references (map manifest_name ms) (map fst (integration_ordering ms))) ms []) (\<lambda>jobs.
          then_do (case visit_all (manifest_graph ms) of Inl e \<Rightarrow> Inl (Dependency_cycle e) | Inr order \<Rightarrow> Inr ()) (\<lambda>u.
            check_routes ms))))))))"

end
