(* ===== verification/Catalog_Samples.thy ===== *)
theory Catalog_Samples
  imports Service_Catalog
begin

text \<open>
  A small catalog on two machines: a reverse proxy on the edge, and an application that keeps its
  data in a database, on the core.  The theorems about catalogs are applied to it.
\<close>

definition empty_manifest :: "string \<Rightarrow> string \<Rightarrow> string list \<Rightarrow> full_manifest" where
  "empty_manifest name at deps =
     \<lparr>manifest_name = name, manifest_label = name, category = ''base'', placement = at, priority = 10,
      manifest_depends_on = deps, runtimes = [], routes = [], settings = [], enabled_when = [], endpoint = None,
      guest_task_order = 0, recovery_task_order = 0, essential = False, restart_policy = Careful_restart, provides = [],
      memory_floor_mb = 64, cpu_floor = (1, 0), host_sources = [], generated_artifacts = [], image_build = None,
      image_release = None, integration_contract = None, stateful = False, internal_aliases = [], oidc = None,
      data_specs = [], backup_exports = [], host_paths = [], required_secrets = [], secret_projections = [],
      runtime_variables = [], credentials = [], health = \<lparr>public_probe_path = [], starting_policy = Fail_starting\<rparr>,
      guidance_entries = [], operator_bookmark = None,
      identity = \<lparr>access_groups = [], identity_invite = None, identity_provisioning = []\<rparr>,
      prometheus = [], database_provider = None, databases = [], integrations = [], network_listeners = [],
      management = \<lparr>panels = [], managed_secrets = [], actions = [], metrics = [], resources = []\<rparr>,
      host_integrations = [], variables = []\<rparr>"

definition app_route :: "string option \<Rightarrow> route_match option \<Rightarrow> route_manifest" where
  "app_route sub mt =
     \<lparr>subdomain = sub, upstream = ''app:80'', route_port = Some 8080, compose_service = [], exposure = Private,
      auth = \<lparr>auth_mode = Forward_auth, passthrough_paths = [], probe_statuses = [], probe_method = Probe_GET\<rparr>,
      match = mt, variants = [], file_server_root = [], response_body = [], request_body_max_mb = None, deny = [],
      response_headers = []\<rparr>"

definition plain_secret :: "string \<Rightarrow> required_secret" where
  "plain_secret name =
     \<lparr>required_name = name, required_tier = User_secret, required_description = name, required_length = 32,
      required_default = None, required_fallback = None, required_generator = Token_generator, required_setup = None,
      required_rotation = None\<rparr>"

definition edge_proxy :: full_manifest where
  "edge_proxy = empty_manifest ''proxy'' ''edge'' []
     \<lparr>provides := [''ingress''], variables := [(''PROXY_DOMAIN'', ''{config.domain}'')],
      host_integrations := [\<lparr>hi_id = ''agent'', hi_label = ''Agent'', hi_kinds = [Plain_host], hi_default_for = [],
        hi_after = [], hi_ansible_role = [], hi_bootstrap = False, hi_lifecycle = False, hi_fields = []\<rparr>]\<rparr>"

definition main_database :: full_manifest where
  "main_database = empty_manifest ''db'' ''core'' []
     \<lparr>endpoint := Some \<lparr>endpoint_service = [], container_port = 5432, published_port = None\<rparr>,
      required_secrets := [plain_secret ''DB_USER'', plain_secret ''DB_PASSWORD'', plain_secret ''DB_NAME''],
      database_provider := Some \<lparr>admin_username_env = ''DB_USER'', admin_password_env = ''DB_PASSWORD'',
        admin_database_env = ''DB_NAME''\<rparr>\<rparr>"

definition app_binding :: database_binding where
  "app_binding =
     \<lparr>binding_provider = ''db'', binding_database = ''app'', binding_username = ''app'', binding_host_env = ''APP_DB_HOST'',
      binding_port_env = ''APP_DB_PORT'', binding_database_env = ''APP_DB_NAME'', binding_username_env = ''APP_DB_USER'',
      binding_password_env = ''APP_DB_PASSWORD''\<rparr>"

definition app_integration :: integration where
  "app_integration =
     \<lparr>integration_service = ''db'', integration_required = True, enabled_env = None, host_env = Some ''DB_HOST'',
      port_env = Some ''DB_PORT'', address_env = None, url_env = None, integration_scheme = None\<rparr>"

definition main_app :: full_manifest where
  "main_app = empty_manifest ''app'' ''core'' [''db'']
     \<lparr>routes := [app_route None None,
        app_route None (Some \<lparr>match_kind = Prefix_match, match_paths = [''/api/'']\<rparr>)],
      host_sources := [(''APP_CONFIG'', \<lparr>source_path = ''config/app'', source_variants = [], source_static = True\<rparr>)],
      required_secrets := [plain_secret ''APP_DB_PASSWORD''],
      secret_projections := [\<lparr>projection_source = ''APP_DB_PASSWORD'', projection_target = ''APP_PASSWORD''\<rparr>],
      databases := [app_binding], integrations := [app_integration],
      variables := [(''APP_MODE'', ''live'')]\<rparr>"

definition small_catalog :: "full_manifest list" where
  "small_catalog = [edge_proxy, main_database, main_app]"

definition small_categories :: "category_plugin list" where
  "small_categories =
     [\<lparr>cat_name = ''base'', cat_always_on = True, cat_depends_on = [], cat_service_group = ''homelab-users'',
       cat_access_group = Some (''homelab-users'', True)\<rparr>]"

definition two_machines :: config where
  "two_machines =
     \<lparr>machines = [(''edge'', \<lparr>enabled = True, address = ''10.0.0.1'', machine_labels = [''edge''], machine_gateway = ''10.0.0.254'', machine_cidr = 24, startup_order = 10\<rparr>),
                  (''core'', \<lparr>enabled = True, address = ''10.0.0.2'', machine_labels = [''core'', ''control''], machine_gateway = ''10.0.0.254'', machine_cidr = 24, startup_order = 20\<rparr>)],
      category_flags = [], service_settings = [], projects = [], domain = ''example.org'',
      email = [], expose_via_internet = False,
      network = \<lparr>mesh_ipv4_cidr = ''100.64.0.0/10'', container_ipv4_cidr = ''172.31.0.0/17'', container_network_prefix = 28\<rparr>,
      external_hosts = [], backups_enabled = False, model_fields = [(''domain'', Scalar_field (PStr ''example.org''))]\<rparr>"

definition rendering :: py_texts where
  "rendering = \<lparr>float_text = (\<lambda>f. ''1.0''), other_text = ''?''\<rparr>"

definition small_plugins :: "full_manifest list \<Rightarrow> plugins" where
  "small_plugins ms = \<lparr>categories = [(''base'', True)], catalog = map planning_view ms\<rparr>"

end
