(* ===== verification/Catalog_Properties.thy ===== *)
theory Catalog_Properties
  imports Service_Catalog Catalog_Samples
begin

text \<open>
  What a catalog that passes \<open>_validate_catalog\<close> gives the rest of the program: resources with one
  owner, a startup order, one default route for each host, and environments that do not conflict.
\<close>

section \<open>Checks that pass\<close>

lemma ensure_Inr [simp]: "ensure ok e = Inr u \<longleftrightarrow> ok"
  by (simp add: ensure_def)

lemma run_checks_Inr: "run_checks f xs = Inr u \<longleftrightarrow> (\<forall>x \<in> set xs. f x = Inr ())"
proof -
  have "each f xs = Inr us \<longleftrightarrow> (\<forall>x \<in> set xs. f x = Inr ()) \<and> length us = length xs" for us
    by (auto simp: each_Inr_iff list_all2_conv_all_nth in_set_conv_nth) (metis nth_mem)+
  then show ?thesis by (auto simp: run_checks_def then_do_Inr_iff intro: exI [of _ "replicate (length xs) ()"])
qed

lemma case_sum_unit_Inr: "(case r of Inl e \<Rightarrow> Inl (f e) | Inr a \<Rightarrow> Inr ()) = Inr u \<longleftrightarrow> (\<exists>a. r = Inr a)"
  by (cases r) auto

lemmas check_splits = then_do_Inr_iff run_checks_Inr case_sum_unit_Inr map_sum_Inr_iff

lemma try_fold_append: "try_fold f (xs @ ys) s = then_do (try_fold f xs s) (try_fold f ys)"
proof (induction xs arbitrary: s)
  case (Cons x xs)
  then show ?case by (cases "f x s") simp_all
qed simp

section \<open>Owners\<close>

lemma concat_map_Nil [simp]: "concat (map (\<lambda>x. []) xs) = []"
  by (induction xs) auto

abbreviation owned_keys :: "owners \<Rightarrow> claimed list" where
  "owned_keys st \<equiv> map fst (owned st)"

abbreviation claimed_paths :: "owners \<Rightarrow> string list" where
  "claimed_paths st \<equiv> map fst (config_paths st)"

text \<open>The claims of one part of the code, as lists; they extend what was claimed, and stay unique.\<close>

definition grown :: "claimed list \<Rightarrow> string list \<Rightarrow> owners \<Rightarrow> owners \<Rightarrow> bool" where
  "grown ks ps st st' \<longleftrightarrow>
     owned_keys st' = owned_keys st @ ks \<and> (distinct (owned_keys st) \<longrightarrow> distinct (owned_keys st'))
     \<and> claimed_paths st' = claimed_paths st @ ps
     \<and> (all_different sources_overlap (claimed_paths st) \<longrightarrow> all_different sources_overlap (claimed_paths st'))"

lemma grown_refl: "grown [] [] st st"
  by (simp add: grown_def)

lemma grown_trans: "grown ks ps a b \<Longrightarrow> grown ls qs b c \<Longrightarrow> grown (ks @ ls) (ps @ qs) a c"
  unfolding grown_def by (metis append.assoc)

lemma try_fold_grown:
  assumes "\<And>x s t. f x s = Inr t \<Longrightarrow> grown (g x) (h x) s t" and "try_fold f xs s = Inr t"
  shows "grown (concat (map g xs)) (concat (map h xs)) s t"
  using assms
proof (induction xs arbitrary: s)
  case (Cons x xs)
  then obtain u where "f x s = Inr u" and "try_fold f xs u = Inr t" by (auto simp: then_do_Inr_iff)
  with Cons.prems(1) Cons.IH show ?case by (auto intro!: grown_trans)
qed (simp add: grown_refl)

lemma claim_grown: "claim owner k s = Inr t \<Longrightarrow> grown [k] [] s t"
  by (auto simp: claim_def grown_def keys_dict_set map_of_eq_None_iff split: option.splits)

lemma claim_all_grown:
  assumes "claim_all owner ks s = Inr t"
  shows "grown ks [] s t"
proof -
  have "grown (concat (map (\<lambda>k. [k]) ks)) (concat (map (\<lambda>k. []) ks)) s t"
    by (rule try_fold_grown [OF _ assms [unfolded claim_all_def]]) (rule claim_grown)
  then show ?thesis by simp
qed

lemma overlap_sym: "sources_overlap p q \<longleftrightarrow> sources_overlap q p"
  by (auto simp: sources_overlap_def)

lemma all_different_snoc:
  "all_different same (xs @ [y]) \<longleftrightarrow> all_different same xs \<and> \<not> list_ex (\<lambda>x. same x y) xs"
  by (induction xs) auto

definition config_sources :: "host_source \<Rightarrow> string list" where
  "config_sources s = filter (prefix ''config/'') (remdups (source_paths s))"

lemma claim_path_grown:
  "claim_path owner p s = Inr t \<Longrightarrow> grown [] (if prefix ''config/'' p then [p] else []) s t"
proof -
  assume a: "claim_path owner p s = Inr t"
  show ?thesis
  proof (cases "prefix ''config/'' p")
    case True
    with a have none: "find (\<lambda>(q, previous). sources_overlap p q) (config_paths s) = None"
      and t: "t = s\<lparr>config_paths := config_paths s @ [(p, owner)]\<rparr>"
      by (auto simp: claim_path_def split: option.splits)
    from none have "\<forall>q \<in> set (claimed_paths s). \<not> sources_overlap q p"
      by (auto simp: find_None_iff overlap_sym)
    with True t show ?thesis by (auto simp: grown_def all_different_snoc list_ex_iff)
  next
    case False
    with a show ?thesis by (auto simp: claim_path_def grown_def)
  qed
qed

lemma concat_single_filter: "concat (map (\<lambda>x. if P x then [x] else []) xs) = filter P xs"
  by (induction xs) auto

lemma claim_source_grown:
  assumes "claim_source owner ns s = Inr t"
  shows "grown [Host_source_name (fst ns)] (config_sources (snd ns)) s t"
proof -
  obtain n src where ns: "ns = (n, src)" by (cases ns)
  from assms ns obtain u where u: "claim owner (Host_source_name n) s = Inr u"
    and t: "try_fold (claim_path owner) (remdups (source_paths src)) u = Inr t"
    by (auto simp: claim_source_def then_do_Inr_iff)
  have "grown (concat (map (\<lambda>p. []) (remdups (source_paths src))))
      (concat (map (\<lambda>p. if prefix ''config/'' p then [p] else []) (remdups (source_paths src)))) u t"
    by (rule try_fold_grown [OF _ t]) (rule claim_path_grown)
  then have "grown [] (config_sources src) u t" by (simp add: config_sources_def concat_single_filter)
  with grown_trans [OF claim_grown [OF u]] ns show ?thesis by fastforce
qed

lemma claim_database_grown:
  "claim_database ms m b s = Inr t \<Longrightarrow>
     grown [Database (binding_provider b) (binding_database b), Database_role (binding_provider b) (binding_username b)] [] s t"
  by (auto simp: claim_database_def intro: claim_all_grown split: option.splits if_splits)

lemma claim_credential_grown:
  "claim_credential ms owner c s = Inr t \<Longrightarrow> grown [Credential (credential_name c)] [] s t"
  by (auto simp: claim_credential_def then_do_Inr_iff intro: claim_grown split: option.splits if_splits)

definition database_claims :: "full_manifest \<Rightarrow> claimed list" where
  "database_claims m =
     concat (map (\<lambda>b. [Database (binding_provider b) (binding_database b),
                       Database_role (binding_provider b) (binding_username b)]) (databases m))"

definition resource_claims :: "full_manifest \<Rightarrow> claimed list" where
  "resource_claims m =
     map (Host_integration_id \<circ> hi_id) (host_integrations m) @ image_claims m @ map (Host_source_name \<circ> fst) (host_sources m)
     @ map Internal_alias (internal_aliases m) @ map (Generated_path \<circ> artifact_path) (generated_artifacts m)
     @ map (Credential \<circ> credential_name) (credentials m)"

definition manifest_claims :: "full_manifest \<Rightarrow> claimed list" where
  "manifest_claims m =
     map (Projected_secret \<circ> projection_target) (secret_projections m) @ database_claims m @ resource_claims m"

definition manifest_sources :: "full_manifest \<Rightarrow> string list" where
  "manifest_sources m = concat (map (config_sources \<circ> snd) (host_sources m))"

lemma claim_resources_grown:
  assumes "claim_resources ms m s = Inr t"
  shows "grown (resource_claims m) (manifest_sources m) s t"
proof -
  from assms obtain a b c d e where
    a: "claim_all (manifest_name m) (map (Host_integration_id \<circ> hi_id) (host_integrations m)) s = Inr a"
    and b: "claim_all (manifest_name m) (image_claims m) a = Inr b"
    and c: "try_fold (claim_source (manifest_name m)) (host_sources m) b = Inr c"
    and d: "claim_all (manifest_name m) (map Internal_alias (internal_aliases m)) c = Inr d"
    and e: "claim_all (manifest_name m) (map (Generated_path \<circ> artifact_path) (generated_artifacts m)) d = Inr e"
    and t: "try_fold (claim_credential ms (manifest_name m)) (credentials m) e = Inr t"
    by (auto simp: claim_resources_def then_do_Inr_iff)
  have "grown (concat (map (\<lambda>ns. [Host_source_name (fst ns)]) (host_sources m)))
      (concat (map (\<lambda>ns. config_sources (snd ns)) (host_sources m))) b c"
    by (rule try_fold_grown [OF _ c]) (rule claim_source_grown)
  then have "grown (map (Host_source_name \<circ> fst) (host_sources m)) (manifest_sources m) b c"
    by (simp add: manifest_sources_def comp_def)
  moreover have "grown (concat (map (\<lambda>x. [Credential (credential_name x)]) (credentials m)))
      (concat (map (\<lambda>x. []) (credentials m))) e t"
    by (rule try_fold_grown [OF _ t]) (rule claim_credential_grown)
  then have "grown (map (Credential \<circ> credential_name) (credentials m)) [] e t" by (simp add: comp_def)
  ultimately show ?thesis
    using grown_trans [OF claim_all_grown [OF a] grown_trans [OF claim_all_grown [OF b] grown_trans [OF _
      grown_trans [OF claim_all_grown [OF d] grown_trans [OF claim_all_grown [OF e]]]]]]
    by (fastforce simp: resource_claims_def)
qed

lemma check_manifest_grown:
  assumes "check_manifest tx pl base ctx cats ms m s = Inr t"
  shows "grown (manifest_claims m) (manifest_sources m) s t"
proof -
  from assms obtain a b where
    a: "claim_all (manifest_name m) (map (Projected_secret \<circ> projection_target) (secret_projections m)) s = Inr a"
    and b: "try_fold (claim_database ms m) (databases m) a = Inr b"
    and t: "claim_resources ms m b = Inr t"
    by (auto simp: check_manifest_def then_do_Inr_iff split: option.splits)
  have "grown (concat (map (\<lambda>b. [Database (binding_provider b) (binding_database b),
      Database_role (binding_provider b) (binding_username b)]) (databases m))) (concat (map (\<lambda>b. []) (databases m))) a b"
    by (rule try_fold_grown [OF _ b]) (rule claim_database_grown)
  then have "grown (database_claims m) [] a b" by (simp add: database_claims_def)
  from grown_trans [OF claim_all_grown [OF a] grown_trans [OF this claim_resources_grown [OF t]]]
  show ?thesis by (simp add: manifest_claims_def)
qed

section \<open>An accepted catalog\<close>

definition accepted :: "py_texts \<Rightarrow> plugins \<Rightarrow> config \<Rightarrow> category_plugin list \<Rightarrow> full_manifest list \<Rightarrow> bool" where
  "accepted tx pl base discovered ms \<longleftrightarrow> validate_catalog tx pl base discovered ms = Inr ()"

lemma acceptedE:
  assumes "accepted tx pl base discovered ms"
  obtains cats ctx s t jobs order where "load_all discovered = Inr cats" and "distinct (map manifest_name ms)"
    and "claim_capabilities ms \<lparr>owned = [], config_paths = []\<rparr> = Inr s"
    and "try_fold (check_manifest tx pl base ctx cats ms) ms s = Inr t"
    and "check_ordering ms = Inr ()"
    and "try_fold (check_references (map manifest_name ms) (map fst (integration_ordering ms))) ms [] = Inr jobs"
    and "visit_all (manifest_graph ms) = Inr order" and "check_routes ms = Inr ()"
  using assms unfolding accepted_def validate_catalog_def Let_def
  by (auto simp: check_splits)

lemma try_fold_each:
  "try_fold f xs s = Inr t \<Longrightarrow> x \<in> set xs \<Longrightarrow> \<exists>u v. f x u = Inr v"
  by (induction xs arbitrary: s) (auto simp: then_do_Inr_iff)

lemma accepted_manifest:
  assumes "accepted tx pl base discovered ms" and "m \<in> set ms"
  obtains ctx cats s t where "check_manifest tx pl base ctx cats ms m s = Inr t"
  using assms by (elim acceptedE) (blast dest: try_fold_each)

lemma accepted_claims:
  assumes "accepted tx pl base discovered ms"
  shows "distinct (concat (map (map Capability \<circ> provides) ms) @ concat (map manifest_claims ms))"
    and "all_different sources_overlap (concat (map manifest_sources ms))"
proof -
  obtain cats ctx s t where caps: "claim_capabilities ms \<lparr>owned = [], config_paths = []\<rparr> = Inr s"
    and rest: "try_fold (check_manifest tx pl base ctx cats ms) ms s = Inr t"
    using assms by (rule acceptedE)
  have one: "grown (concat (map (map Capability \<circ> provides) ms)) (concat (map (\<lambda>m. []) ms)) \<lparr>owned = [], config_paths = []\<rparr> s"
    by (rule try_fold_grown [OF _ caps [unfolded claim_capabilities_def]]) (simp add: claim_all_grown)
  have "grown (concat (map manifest_claims ms)) (concat (map manifest_sources ms)) s t"
    by (rule try_fold_grown [OF _ rest]) (rule check_manifest_grown)
  from grown_trans [OF one this] have all: "grown (concat (map (map Capability \<circ> provides) ms) @ concat (map manifest_claims ms))
      (concat (map manifest_sources ms)) \<lparr>owned = [], config_paths = []\<rparr> t" by simp
  then have "owned_keys t = concat (map (map Capability \<circ> provides) ms) @ concat (map manifest_claims ms)"
    and "distinct (owned_keys t)" by (auto simp: grown_def simp del: distinct_append)
  then show "distinct (concat (map (map Capability \<circ> provides) ms) @ concat (map manifest_claims ms))" by (rule subst)
  from all have "claimed_paths t = concat (map manifest_sources ms)" and "all_different sources_overlap (claimed_paths t)"
    by (auto simp: grown_def simp del: distinct_append)
  then show "all_different sources_overlap (concat (map manifest_sources ms))" by (rule subst)
qed

text \<open>Parts of the claims, and what their uniqueness gives.\<close>

lemma distinct_subseq: "subseq xs ys \<Longrightarrow> distinct ys \<Longrightarrow> distinct xs"
  by (auto simp: subseq_conv_nths)

lemma subseq_concat_map: "(\<And>x. subseq (f x) (g x)) \<Longrightarrow> subseq (concat (map f xs)) (concat (map g xs))"
  by (induction xs) (auto intro: list_emb_append_mono)

lemma subseq_part: "subseq xs (a @ xs @ b)"
  by (simp add: list_emb_append2 subseq_rev_drop_many)

lemma distinct_claims:
  assumes "accepted tx pl base discovered ms" and "\<And>m. subseq (f m) (manifest_claims m)"
  shows "distinct (concat (map f ms))"
proof (rule distinct_subseq)
  show "subseq (concat (map f ms)) (concat (map manifest_claims ms))"
    by (rule subseq_concat_map) (rule assms(2))
  show "distinct (concat (map manifest_claims ms))"
    using accepted_claims(1) [OF assms(1)] unfolding distinct_append by (elim conjE)
qed

lemma distinct_integrations:
  assumes "accepted tx pl base discovered ms"
  shows "distinct (map hi_id (concat (map host_integrations ms)))"
proof -
  have "subseq (map (Host_integration_id \<circ> hi_id) (host_integrations m)) (manifest_claims m)" for m
    unfolding manifest_claims_def resource_claims_def using subseq_part by (metis append.assoc)
  then have "distinct (map (Host_integration_id \<circ> hi_id) (concat (map host_integrations ms)))"
    using distinct_claims [OF assms] by (simp add: map_concat comp_def)
  then show ?thesis by (simp add: distinct_map comp_def inj_on_def)
qed

lemma distinct_projections:
  assumes "accepted tx pl base discovered ms"
  shows "distinct (concat (map (map projection_target \<circ> secret_projections) ms))"
proof -
  have "subseq (map (Projected_secret \<circ> projection_target) (secret_projections m)) (manifest_claims m)" for m
    unfolding manifest_claims_def using subseq_part by (metis append_Nil)
  then have "distinct (map Projected_secret (concat (map (map projection_target \<circ> secret_projections) ms)))"
    using distinct_claims [OF assms] by (simp add: map_concat comp_def)
  then show ?thesis by (simp add: distinct_map)
qed

lemma distinct_host_sources:
  assumes "accepted tx pl base discovered ms"
  shows "distinct (concat (map (map fst \<circ> host_sources) ms))"
proof -
  have "subseq (map (Host_source_name \<circ> fst) (host_sources m)) (manifest_claims m)" for m
    unfolding manifest_claims_def resource_claims_def using subseq_part by (metis append.assoc)
  then have "distinct (map Host_source_name (concat (map (map fst \<circ> host_sources) ms)))"
    using distinct_claims [OF assms] by (simp add: map_concat comp_def)
  then show ?thesis by (simp add: distinct_map)
qed

section \<open>Orders\<close>

lemma settled_take: "settled E D xs \<Longrightarrow> i < length xs \<Longrightarrow> E `` {xs ! i} \<subseteq> D \<union> set (take i xs)"
proof (induction xs arbitrary: D i)
  case (Cons x xs)
  then show ?case by (cases i) fastforce+
qed simp

text \<open>\<open>order\<close> lists the keys of the table once, each after all it depends on.\<close>

definition starts_after :: "dependency_table \<Rightarrow> string list \<Rightarrow> bool" where
  "starts_after g order \<longleftrightarrow>
     distinct order \<and> set order = fst ` set g
     \<and> (\<forall>(n, deps) \<in> set g. \<exists>i < length order. order ! i = n \<and> set deps \<subseteq> set (take i order))"

lemma visit_all_order:
  assumes "visit_all g = Inr order" and "distinct (map fst g)"
  shows "starts_after g order"
proof -
  have v: "distinct order \<and> settled (table_edges g) {} order \<and> fst ` set g \<subseteq> set order \<and> set order \<subseteq> fst ` set g"
    using visit_each_success [OF assms(1) [unfolded visit_all_def]] by simp
  have "\<exists>i < length order. order ! i = n \<and> set deps \<subseteq> set (take i order)" if "(n, deps) \<in> set g" for n deps
  proof -
    from that v have "n \<in> set order" by force
    then obtain i where i: "i < length order" "order ! i = n" by (auto simp: in_set_conv_nth)
    have "map_of g n = Some deps" using that assms(2) by simp
    then have "table_edges g `` {n} = set deps" by (auto simp: table_edges_def)
    with settled_take [of "table_edges g" "{}" order i] v i show ?thesis by auto
  qed
  with v show ?thesis by (auto simp: starts_after_def)
qed

lemma fold_dict_set:
  "distinct (map fst acc @ map k xs) \<Longrightarrow>
     fold (\<lambda>x. dict_set (k x) (v x)) xs acc = acc @ map (\<lambda>x. (k x, v x)) xs"
proof (induction xs arbitrary: acc)
  case (Cons x xs)
  have "dict_set (k x) (v x) acc = acc @ [(k x, v x)]"
    using Cons.prems by (induction acc) auto
  with Cons show ?case by simp
qed simp

lemma integration_table:
  assumes "accepted tx pl base discovered ms"
  shows "integration_ordering ms = map (\<lambda>h. (hi_id h, hi_after h)) (concat (map host_integrations ms))"
  using fold_dict_set [of "[]" hi_id "concat (map host_integrations ms)" hi_after] distinct_integrations [OF assms]
  by (simp add: integration_ordering_def)

lemma accepted_order:
  assumes "accepted tx pl base discovered ms"
  shows "\<exists>order. starts_after (manifest_graph ms) order" and "\<exists>order. starts_after (integration_ordering ms) order"
proof -
  from assms obtain order where v: "visit_all (manifest_graph ms) = Inr order" and d: "distinct (map manifest_name ms)"
    and o: "check_ordering ms = Inr ()"
    by (rule acceptedE)
  from d have "distinct (map fst (manifest_graph ms))" by (simp add: manifest_graph_def comp_def)
  with v show "\<exists>order. starts_after (manifest_graph ms) order" by (blast intro: visit_all_order)
  from o obtain order' where "visit_all (integration_ordering ms) = Inr order'"
    unfolding check_ordering_def Let_def check_splits by blast
  moreover have "distinct (map fst (integration_ordering ms))"
    using distinct_integrations [OF assms] by (simp add: integration_table [OF assms] comp_def)
  ultimately show "\<exists>order. starts_after (integration_ordering ms) order" by (blast intro: visit_all_order)
qed

text \<open>A search that fails on a closed table shows a cycle.\<close>

definition shows_cycle :: "dependency_table \<Rightarrow> search_error \<Rightarrow> bool" where
  "shows_cycle g e \<longleftrightarrow>
     (\<exists>c. e = Cycle c \<and> 2 \<le> length c \<and> hd c = last c \<and> successively (\<lambda>a b. (a, b) \<in> table_edges g) c)"

lemma visit_all_cycle:
  assumes "visit_all g = Inl e" and "closed_table g"
  shows "shows_cycle g e"
proof (cases e)
  case (Cycle c)
  then show ?thesis using visit_each_cycle assms(1) by (fastforce simp: visit_all_def shows_cycle_def)
next
  case (Absent x)
  then show ?thesis using visit_each_absent assms by (fastforce simp: visit_all_def)
qed

section \<open>Routes\<close>

text \<open>A fold of steps that add to a state and fail when the result would not be good.\<close>

lemma good_fold:
  assumes "\<And>x s. good (add x s) \<Longrightarrow> good s" and "good (fold add xs s)"
  shows "good s"
  using assms(2)
proof (induction xs arbitrary: s)
  case (Cons x xs)
  then have "good (add x s)" by simp
  then show ?case by (rule assms(1))
qed simp

lemma try_fold_iff:
  assumes step: "\<And>x s t. good s \<Longrightarrow> f x s = Inr t \<longleftrightarrow> t = add x s \<and> good t"
    and shrink: "\<And>x s. good (add x s) \<Longrightarrow> good s" and "good s"
  shows "try_fold f xs s = Inr t \<longleftrightarrow> t = fold add xs s \<and> good t"
  using assms(3)
proof (induction xs arbitrary: s)
  case Nil
  then show ?case by auto
next
  case (Cons x xs)
  have "try_fold f (x # xs) s = Inr t \<longleftrightarrow> good (add x s) \<and> try_fold f xs (add x s) = Inr t"
    using step [OF Cons.prems] by (auto simp: then_do_Inr_iff)
  moreover have "good (add x s)" if "good (fold add xs (add x s))"
    using shrink that by (rule good_fold [where good = good and add = add])
  ultimately show ?case using Cons.IH [of "add x s"] by auto
qed

definition good_routes :: "route_claims \<Rightarrow> bool" where
  "good_routes st \<longleftrightarrow> distinct (matched st) \<and> distinct (map fst (default_of st))"

definition add_match :: "string \<Rightarrow> match_kind \<times> string \<Rightarrow> route_claims \<Rightarrow> route_claims" where
  "add_match host kp st = st\<lparr>matched := (host, kp) # matched st\<rparr>"

lemma claim_match_iff: "good_routes s \<Longrightarrow> claim_match host kp s = Inr t \<longleftrightarrow> t = add_match host kp s \<and> good_routes t"
  by (cases kp) (auto simp: claim_match_def add_match_def good_routes_def)

lemma fold_add_match:
  "fold (add_match host) kps st = st\<lparr>matched := rev (map (Pair host) kps) @ matched st\<rparr>"
  by (induction kps arbitrary: st) (auto simp: add_match_def)

definition add_route :: "full_manifest \<Rightarrow> route_manifest \<Rightarrow> route_claims \<Rightarrow> route_claims" where
  "add_route m r st =
     \<lparr>default_of = default_of st @ (if match r = None then [(host_of m r, manifest_name m)] else []),
      matched = rev (map (Pair (host_of m r)) (route_matches r)) @ matched st,
      represented = host_of m r # represented st\<rparr>"

lemma good_add_route: "good_routes (add_route m r s) \<Longrightarrow> good_routes s"
  by (auto simp: good_routes_def add_route_def)

lemma dict_set_fresh: "k \<notin> fst ` set d \<Longrightarrow> dict_set k v d = d @ [(k, v)]"
  by (induction d) auto

lemma claim_route_iff:
  assumes "good_routes s"
  shows "claim_route m r s = Inr t \<longleftrightarrow> t = add_route m r s \<and> good_routes t"
proof -
  define u where "u = s\<lparr>represented := host_of m r # represented s,
    default_of := default_of s @ (if match r = None then [(host_of m r, manifest_name m)] else [])\<rparr>"
  have matches: "try_fold (claim_match (host_of m r)) (route_matches r) u = Inr t
      \<longleftrightarrow> t = fold (add_match (host_of m r)) (route_matches r) u \<and> good_routes t" if "good_routes u"
    by (rule try_fold_iff) (use that in \<open>auto simp: claim_match_iff good_routes_def add_match_def\<close>)
  have whole: "fold (add_match (host_of m r)) (route_matches r) u = add_route m r s"
    by (simp add: fold_add_match u_def add_route_def)
  show ?thesis
  proof (cases "match r = None \<and> host_of m r \<in> fst ` set (default_of s)")
    case True
    then have "map_of (default_of s) (host_of m r) \<noteq> None" by (simp add: map_of_eq_None_iff)
    moreover have "\<not> good_routes (add_route m r s)" using True by (auto simp: good_routes_def add_route_def)
    ultimately show ?thesis using True by (auto simp: claim_route_def Let_def)
  next
    case False
    then have "claim_route m r s = try_fold (claim_match (host_of m r)) (route_matches r) u"
      by (auto simp: claim_route_def Let_def u_def dict_set_fresh map_of_eq_None_iff split: option.splits
          dest: map_of_SomeD intro: rev_image_eqI)
    moreover have "good_routes u" using False assms by (auto simp: good_routes_def u_def)
    ultimately show ?thesis using matches whole by simp
  qed
qed

text \<open>Every pair of a host and a match that some route of the catalog claims, and the hosts of the default routes.\<close>

definition all_matches :: "full_manifest list \<Rightarrow> (string \<times> match_kind \<times> string) list" where
  "all_matches ms = concat (map (\<lambda>m. concat (map (\<lambda>r. map (Pair (host_of m r)) (route_matches r)) (routes m))) ms)"

definition default_hosts :: "full_manifest list \<Rightarrow> string list" where
  "default_hosts ms = concat (map (\<lambda>m. map (host_of m) (default_routes m)) ms)"

lemma fold_add_routes:
  "matched (fold (add_route m) rs s) = rev (concat (map (\<lambda>r. map (Pair (host_of m r)) (route_matches r)) rs)) @ matched s"
  "map fst (default_of (fold (add_route m) rs s)) = map fst (default_of s) @ map (host_of m) (filter (\<lambda>r. match r = None) rs)"
  "set (represented (fold (add_route m) rs s)) = host_of m ` set rs \<union> set (represented s)"
  by (induction rs arbitrary: s) (auto simp: add_route_def)

lemma fold_add_manifests:
  "matched (fold (\<lambda>m. fold (add_route m) (routes m)) ms s) = rev (all_matches ms) @ matched s"
  "map fst (default_of (fold (\<lambda>m. fold (add_route m) (routes m)) ms s)) = map fst (default_of s) @ default_hosts ms"
  "set (represented (fold (\<lambda>m. fold (add_route m) (routes m)) ms s)) =
     (\<Union>m \<in> set ms. host_of m ` set (routes m)) \<union> set (represented s)"
  by (induction ms arbitrary: s)
    (auto simp: fold_add_routes all_matches_def default_hosts_def default_routes_def)

lemma good_add_routes: "good_routes (fold (add_route m) rs s) \<Longrightarrow> good_routes s"
  by (rule good_fold [of good_routes "add_route m"]) (rule good_add_route)

lemma claim_routes_iff:
  assumes "good_routes s"
  shows "try_fold (\<lambda>m. try_fold (claim_route m) (routes m)) ms s = Inr t
    \<longleftrightarrow> t = fold (\<lambda>m. fold (add_route m) (routes m)) ms s \<and> good_routes t"
  by (rule try_fold_iff)
    (use assms in \<open>auto simp: try_fold_iff [OF claim_route_iff good_add_route] dest: good_add_routes\<close>)

lemma check_routes_iff:
  "check_routes ms = Inr ()
     \<longleftrightarrow> distinct (default_hosts ms) \<and> distinct (all_matches ms)
       \<and> (\<forall>m \<in> set ms. \<forall>r \<in> set (routes m). host_of m r \<in> set (default_hosts ms))"
proof -
  let ?s = "\<lparr>default_of = [], matched = [], represented = []\<rparr>"
  let ?t = "fold (\<lambda>m. fold (add_route m) (routes m)) ms ?s"
  have hosts: "fst ` set (default_of ?t) = set (default_hosts ms)"
    using arg_cong [OF fold_add_manifests(2) [of ms ?s], of set] by simp
  have "check_routes ms = Inr () \<longleftrightarrow> good_routes ?t \<and> (\<forall>h \<in> set (represented ?t). h \<in> fst ` set (default_of ?t))"
    unfolding check_routes_def then_do_Inr_iff
    by (subst claim_routes_iff) (auto simp: good_routes_def Let_def filter_empty_conv)
  then show ?thesis by (auto simp: hosts good_routes_def fold_add_manifests)
qed

lemma small_catalog_accepted:
  "accepted rendering (small_plugins small_catalog) two_machines small_categories small_catalog"
  unfolding accepted_def by code_simp

section \<open>Claims about the catalog\<close>

text \<open>
  C24.  In an accepted catalog no two services, and no two sections of one service, claim the same capability,
  projected secret, database, database role, host integration, image environment, image repository, host source,
  internal alias, generated file or credential name; and no two host sources under \<open>config/\<close> lie inside each other.
\<close>

theorem resources_have_one_owner:
  assumes "accepted tx pl base discovered ms"
  shows "distinct (concat (map (map Capability \<circ> provides) ms) @ concat (map manifest_claims ms))
       \<and> all_different sources_overlap (concat (map manifest_sources ms))"
  using accepted_claims [OF assms] by (rule conjI)

theorem resources_have_one_owner_witness:
  "accepted rendering (small_plugins small_catalog) two_machines small_categories small_catalog
   \<and> distinct (concat (map manifest_claims small_catalog)) \<and> length (concat (map manifest_claims small_catalog)) = 5"
proof -
  have "length (concat (map manifest_claims small_catalog)) = 5" by code_simp
  with resources_have_one_owner [OF small_catalog_accepted] small_catalog_accepted show ?thesis
    unfolding distinct_append by (elim conjE) (intro conjI)
qed

text \<open>
  An accepted catalog has a startup order: the services can be listed once each so that every service comes
  after all services it depends on, and the same holds of the host integrations and what they are ordered after.
\<close>

theorem catalog_has_startup_order:
  assumes "accepted tx pl base discovered ms"
  shows "(\<exists>order. starts_after (map (\<lambda>m. (manifest_name m, manifest_depends_on m)) ms) order)
       \<and> (\<exists>order. starts_after (map (\<lambda>h. (hi_id h, hi_after h)) (concat (map host_integrations ms))) order)"
  using accepted_order [OF assms] by (simp add: integration_table [OF assms] manifest_graph_def)

theorem catalog_has_startup_order_witness:
  "\<exists>order. starts_after [(''proxy'', []), (''db'', []), (''app'', [''db''])] order"
proof -
  have "map (\<lambda>m. (manifest_name m, manifest_depends_on m)) small_catalog = [(''proxy'', []), (''db'', []), (''app'', [''db''])]"
    by code_simp
  with catalog_has_startup_order [OF small_catalog_accepted] show ?thesis by (elim conjE) (erule subst)
qed

text \<open>
  The route checks pass exactly when no host has two default routes, no host has two routes for the same
  match (the passthrough paths of a split route and denied paths included), and every host that has a route has a
  default route.
\<close>

theorem routes_accepted_exactly:
  "check_routes ms = Inr ()
     \<longleftrightarrow> distinct (default_hosts ms) \<and> distinct (all_matches ms)
       \<and> (\<forall>m \<in> set ms. \<forall>r \<in> set (routes m). host_of m r \<in> set (default_hosts ms))"
  by (rule check_routes_iff)

theorem routes_accepted_exactly_witness:
  "check_routes small_catalog = Inr () \<and> default_hosts small_catalog = [''app'']
   \<and> distinct (all_matches small_catalog) \<and> check_routes (main_app # small_catalog) \<noteq> Inr ()"
proof -
  have ok: "check_routes small_catalog = Inr ()" by code_simp
  have hosts: "default_hosts small_catalog = [''app'']" by code_simp
  have "default_hosts (main_app # small_catalog) = [''app'', ''app'']" by code_simp
  then have "check_routes (main_app # small_catalog) \<noteq> Inr ()"
    unfolding routes_accepted_exactly [of "main_app # small_catalog"] by simp
  with ok hosts routes_accepted_exactly [of small_catalog] show ?thesis by (intro conjI) simp_all
qed

end
