(* ===== verification/Catalog_Composition.thy ===== *)
theory Catalog_Composition
  imports Catalog_Properties
begin

text \<open>
  The catalog together with the code that reads it: the environments of
  \<open>core/manifest/variables.py\<close> compiled from an accepted catalog, and the errors the catalog reports.
\<close>

section \<open>Variables that keep their value\<close>

definition keeps :: "owned_env \<Rightarrow> owned_env \<Rightarrow> bool" where
  "keeps env env' \<longleftrightarrow> (\<forall>n v w. map_of env n = Some (v, w) \<longrightarrow> (\<exists>w'. map_of env' n = Some (v, w')))"

definition holds_all :: "(string \<times> string) list \<Rightarrow> owned_env \<Rightarrow> bool" where
  "holds_all nvs env \<longleftrightarrow> (\<forall>(n, v) \<in> set nvs. \<exists>w. map_of env n = Some (v, w))"

lemma keeps_refl: "keeps env env"
  by (simp add: keeps_def)

lemma keeps_trans: "keeps a b \<Longrightarrow> keeps b c \<Longrightarrow> keeps a c"
  unfolding keeps_def by blast

lemma holds_all_keeps: "holds_all nvs a \<Longrightarrow> keeps a b \<Longrightarrow> holds_all nvs b"
  unfolding holds_all_def keeps_def by fastforce

lemma add_variable_keeps:
  "add_variable owner (n, v) env = Inr env' \<Longrightarrow> keeps env env' \<and> (\<exists>w. map_of env' n = Some (v, w))"
  by (auto simp: add_variable_def keeps_def map_of_dict_set split: option.splits if_splits)

lemma add_variables_keeps: "add_variables owner nvs env = Inr env' \<Longrightarrow> keeps env env' \<and> holds_all nvs env'"
proof (induction nvs arbitrary: env)
  case Nil
  then show ?case by (simp add: keeps_refl holds_all_def)
next
  case (Cons nv nvs)
  obtain n v where nv: "nv = (n, v)" by (cases nv)
  from Cons.prems obtain u where u: "add_variable owner nv env = Inr u" and r: "add_variables owner nvs u = Inr env'"
    by (auto simp: then_do_Inr_iff)
  from Cons.IH [OF r] add_variable_keeps [OF u [unfolded nv]] have k: "keeps env u" "keeps u env'" "holds_all nvs env'"
    and "\<exists>w. map_of u n = Some (v, w)" by auto
  then have "\<exists>w. map_of env' n = Some (v, w)" unfolding keeps_def by blast
  with k nv keeps_trans show ?case by (auto simp: holds_all_def)
qed

lemma add_bindings_keeps: "add_bindings cfg cat nodes consumer owner bs env = Inr env' \<Longrightarrow> keeps env env'"
  by (induction bs arbitrary: env) (auto simp: then_do_Inr_iff keeps_refl dest!: add_variables_keeps intro: keeps_trans)

lemma add_databases_keeps: "add_databases cfg cat nodes role m env = Inr env' \<Longrightarrow> keeps env env'"
  by (auto simp: add_databases_def then_do_Inr_iff keeps_refl dest: add_bindings_keeps split: if_splits)

text \<open>What one service contributes on the machine \<open>role\<close>: its own variables and those of its integrations.\<close>

definition role_context :: "full_manifest list \<Rightarrow> (string \<times> string) list \<Rightarrow> variable_context" where
  "role_context cat nodes =
     \<lparr>ctx_nodes = Some nodes,
      ctx_providers = Some (rev (concat (map (\<lambda>m. map (\<lambda>c. (c, manifest_name m)) (provides m)) cat)))\<rparr>"

definition contributes ::
  "py_texts \<Rightarrow> plugins \<Rightarrow> config \<Rightarrow> full_manifest list \<Rightarrow> (string \<times> string) list \<Rightarrow> string \<Rightarrow> full_manifest
     \<Rightarrow> (string \<times> string) list \<Rightarrow> bool"
where
  "contributes tx pl cfg cat nodes role m nvs \<longleftrightarrow>
     compile_manifest_variables tx pl cat cfg (role_context cat nodes) m = Inr nvs
     \<or> compile_manifest_integration_variables pl cfg cat nodes role m = Inr nvs"

lemma add_manifest_keeps:
  assumes "add_manifest tx pl cfg cat nodes role m env = Inr env'"
  shows "keeps env env'"
    and "on_role pl cfg cat role m = Inr True \<Longrightarrow> contributes tx pl cfg cat nodes role m nvs \<Longrightarrow> holds_all nvs env'"
proof -
  obtain here where here: "on_role pl cfg cat role m = Inr here"
    using assms by (auto simp: add_manifest_def then_do_Inr_iff)
  have "keeps env env' \<and> (here \<longrightarrow> contributes tx pl cfg cat nodes role m nvs \<longrightarrow> holds_all nvs env')"
  proof (cases here)
    case True
    from assms here True obtain vs env1 ints env2 where
      vs: "compile_manifest_variables tx pl cat cfg (role_context cat nodes) m = Inr vs"
      and one: "add_variables (manifest_name m) vs env = Inr env1"
      and ints: "compile_manifest_integration_variables pl cfg cat nodes role m = Inr ints"
      and two: "add_variables (manifest_name m) ints env1 = Inr env2"
      and three: "add_databases cfg cat nodes role m env2 = Inr env'"
      by (auto simp: add_manifest_def then_do_Inr_iff role_context_def Let_def)
    from add_variables_keeps [OF one] add_variables_keeps [OF two] add_databases_keeps [OF three]
    have k: "keeps env env1" "keeps env1 env2" "keeps env2 env'" "holds_all vs env1" "holds_all ints env2" by auto
    then have "holds_all vs env'" "holds_all ints env'" "keeps env env'"
      by (blast intro: holds_all_keeps keeps_trans)+
    with vs ints show ?thesis by (auto simp: contributes_def)
  next
    case False
    with assms here show ?thesis by (auto simp: add_manifest_def keeps_refl)
  qed
  with here show "keeps env env'"
    and "on_role pl cfg cat role m = Inr True \<Longrightarrow> contributes tx pl cfg cat nodes role m nvs \<Longrightarrow> holds_all nvs env'"
    by auto
qed

lemma add_manifests_keeps:
  assumes "add_manifests tx pl cfg cat nodes role ms env = Inr env'"
  shows "keeps env env' \<and> (\<forall>m \<in> set ms. on_role pl cfg cat role m = Inr True \<longrightarrow>
    contributes tx pl cfg cat nodes role m nvs \<longrightarrow> holds_all nvs env')"
  using assms
proof (induction ms arbitrary: env)
  case Nil
  then show ?case by (simp add: keeps_refl)
next
  case (Cons m ms)
  then obtain u where u: "add_manifest tx pl cfg cat nodes role m env = Inr u"
    and r: "add_manifests tx pl cfg cat nodes role ms u = Inr env'" by (auto simp: then_do_Inr_iff)
  from Cons.IH [OF r] add_manifest_keeps(1) [OF u] add_manifest_keeps(2) [OF u] show ?case
    by (auto intro: keeps_trans holds_all_keeps)
qed

lemma map_of_values: "map_of (map (\<lambda>(n, v, w). (n, v)) env) n = map_option fst (map_of env n)"
  by (induction env) auto

text \<open>
  The environment compiled for a machine holds every variable of every service with a part there, with the
  value that service's manifest compiles to, for its own variables and for those of its integrations: a variable
  that two services set is only accepted when they agree, and nothing is overwritten.
\<close>

theorem role_variables_agree:
  assumes "compile_role_variables tx pl cfg cat role = Inr out"
    and "service_node_map pl cfg (map planning_view cat) = Inr nodes"
    and "m \<in> set cat" and "on_role pl cfg cat role m = Inr True"
    and "contributes tx pl cfg cat nodes role m nvs" and "(n, v) \<in> set nvs"
  shows "map_of out n = Some v"
proof -
  from assms(1,2) obtain env where env: "add_manifests tx pl cfg cat nodes role cat [] = Inr env"
    and out: "out = map (\<lambda>(n, v, w). (n, v)) env"
    by (auto simp: compile_role_variables_def on_config_def then_do_Inr_iff)
  from add_manifests_keeps [OF env] assms(3-5) have "holds_all nvs env" by blast
  with assms(6) out show ?thesis by (auto simp: holds_all_def map_of_values)
qed

theorem role_variables_agree_witness:
  "\<exists>out. compile_role_variables rendering (small_plugins small_catalog) two_machines small_catalog ''edge'' = Inr out
     \<and> map_of out ''PROXY_DOMAIN'' = Some ''example.org''"
proof -
  let ?nodes = "[(''proxy'', ''edge''), (''db'', ''core''), (''app'', ''core'')]"
  let ?out = "[(''PROXY_DOMAIN'', ''example.org'')]"
  have out: "compile_role_variables rendering (small_plugins small_catalog) two_machines small_catalog ''edge'' = Inr ?out"
    by code_simp
  have nodes: "service_node_map (small_plugins small_catalog) two_machines (map planning_view small_catalog) = Inr ?nodes"
    by code_simp
  have here: "on_role (small_plugins small_catalog) two_machines small_catalog ''edge'' edge_proxy = Inr True" by code_simp
  have "compile_manifest_variables rendering (small_plugins small_catalog) small_catalog two_machines
      (role_context small_catalog ?nodes) edge_proxy = Inr ?out" by code_simp
  then have "contributes rendering (small_plugins small_catalog) two_machines small_catalog ?nodes ''edge'' edge_proxy ?out"
    by (simp add: contributes_def)
  from role_variables_agree [OF out nodes _ here this, of "''PROXY_DOMAIN''" "''example.org''"] out
  show ?thesis by (simp add: small_catalog_def)
qed

lemma then_do_InrE:
  assumes "then_do r f = Inr b"
  obtains a where "r = Inr a" and "f a = Inr b"
  using assms by (auto simp: then_do_Inr_iff)

lemma distinct_optional: "distinct (ks @ as @ rest) \<Longrightarrow> distinct (ks @ (if h then as else []) @ rest)"
  by auto

section \<open>Secrets and host sources of an accepted catalog\<close>

lemma project_secrets_fresh:
  "distinct (map fst env @ map projection_target ps) \<Longrightarrow>
     project_secrets secrets owner ps env =
       Inr (env @ map (\<lambda>p. (projection_target p, secret_of secrets (projection_source p), owner)) ps)"
proof (induction ps arbitrary: env)
  case (Cons p ps)
  then have "map_of env (projection_target p) = None" and "projection_target p \<notin> fst ` set env"
    by (auto simp: map_of_eq_None_iff)
  with Cons show ?case by (simp add: dict_set_fresh)
qed simp

text \<open>The projections of one service on the machine.\<close>

definition role_projection ::
  "plugins \<Rightarrow> config \<Rightarrow> full_manifest list \<Rightarrow> string \<Rightarrow> (string \<times> string) list \<Rightarrow> full_manifest
     \<Rightarrow> variable_error + (string \<times> string) list"
where
  "role_projection pl cfg cat role secrets m =
     then_do (on_role pl cfg cat role m) (\<lambda>here.
       Inr (if here then map (\<lambda>p. (projection_target p, secret_of secrets (projection_source p))) (secret_projections m)
            else []))"

definition bare :: "variable_error + owned_env \<Rightarrow> variable_error + (string \<times> string) list" where
  "bare r = map_sum id (map (\<lambda>(n, v, w). (n, v))) r"

lemma role_projections_fresh:
  assumes "distinct (map fst env @ concat (map (map projection_target \<circ> secret_projections) ms))"
  shows "bare (role_projections pl cfg cat role secrets ms env) =
    then_do (each (role_projection pl cfg cat role secrets) ms) (\<lambda>pss.
      Inr (map (\<lambda>(n, v, w). (n, v)) env @ concat pss))"
  using assms
proof (induction ms arbitrary: env)
  case Nil
  then show ?case by (simp add: bare_def)
next
  case (Cons m ms)
  show ?case
  proof (cases "on_role pl cfg cat role m")
    case (Inl e)
    then show ?thesis by (simp add: bare_def role_projection_def)
  next
    case (Inr here)
    let ?new = "if here then map (\<lambda>p. (projection_target p, secret_of secrets (projection_source p), manifest_name m))
      (secret_projections m) else []"
    have step: "(if here then project_secrets secrets (manifest_name m) (secret_projections m) env else Inr env)
        = Inr (env @ ?new)"
      using Cons.prems by (subst project_secrets_fresh) auto
    have "distinct (map fst (env @ ?new) @ concat (map (map projection_target \<circ> secret_projections) ms))"
    proof -
      have names: "map fst ?new = (if here then map projection_target (secret_projections m) else [])"
        by (simp add: comp_def)
      show ?thesis unfolding map_append append_assoc names using Cons.prems by (intro distinct_optional) (simp add: comp_def)
    qed
    note ih = Cons.IH [OF this]
    have "role_projection pl cfg cat role secrets m = Inr (map (\<lambda>(n, v, w). (n, v)) ?new)"
      using Inr by (simp add: role_projection_def comp_def)
    moreover have "role_projections pl cfg cat role secrets (m # ms) env = role_projections pl cfg cat role secrets ms (env @ ?new)"
      using Inr step by simp
    ultimately show ?thesis
      by (cases "each (role_projection pl cfg cat role secrets) ms") (simp_all only: ih each.simps then_do_simps
        map_append append_assoc concat.simps)
  qed
qed

definition role_source ::
  "plugins \<Rightarrow> config \<Rightarrow> full_manifest list \<Rightarrow> string \<Rightarrow> string \<Rightarrow> full_manifest \<Rightarrow> variable_error + (string \<times> string) list"
where
  "role_source pl cfg cat role root m =
     then_do (on_role pl cfg cat role m) (\<lambda>here.
       if here then compile_manifest_host_sources cfg cat m root else Inr [])"

lemma source_names: "compile_manifest_host_sources cfg cat m root = Inr ss \<Longrightarrow> map fst ss = map fst (host_sources m)"
proof -
  have "fst s = fst ns" if a: "compile_host_source cfg cat m root ns = Inr s" for ns s
  proof -
    obtain n src where ns: "ns = (n, src)" by (cases ns)
    from a [unfolded ns] obtain vss :: "host_source_variant list list" where "(case concat vss of
         [] \<Rightarrow> Inr (n, path_join root (source_path src))
       | [v] \<Rightarrow> Inr (n, path_join root (source_variant_path v))
       | _ \<Rightarrow> Inl (Value_problem n)) = Inr s"
      unfolding compile_host_source_def prod.case by (rule then_do_InrE) (rule that)
    with ns show ?thesis
      by (cases "concat vss" rule: remdups_adj.cases) auto
  qed
  moreover assume "compile_manifest_host_sources cfg cat m root = Inr ss"
  then have "list_all2 (\<lambda>ns s. compile_host_source cfg cat m root ns = Inr s) (host_sources m) ss"
    by (simp add: compile_manifest_host_sources_def each_Inr_iff)
  ultimately have "list_all2 (\<lambda>ns s. fst s = fst ns) (host_sources m) ss" by (rule list_all2_mono [rotated])
  then show ?thesis by (induction rule: list_all2_induct) simp_all
qed

lemma add_variables_fresh:
  "distinct (map fst env @ map fst nvs) \<Longrightarrow> add_variables owner nvs env = Inr (env @ map (\<lambda>(n, v). (n, v, owner)) nvs)"
proof (induction nvs arbitrary: env)
  case (Cons nv nvs)
  obtain n v where nv: "nv = (n, v)" by (cases nv)
  from Cons.prems nv have "map_of env n = None" and "n \<notin> fst ` set env" by (auto simp: map_of_eq_None_iff)
  then have "add_variable owner nv env = Inr (env @ [(n, v, owner)])" by (simp add: add_variable_def nv dict_set_fresh)
  with Cons nv show ?case by simp
qed simp

lemma host_sources_fresh:
  assumes "distinct (map fst env @ concat (map (map fst \<circ> host_sources) ms))"
  shows "bare (add_host_sources pl cfg cat role root ms env) =
    then_do (each (role_source pl cfg cat role root) ms) (\<lambda>sss.
      Inr (map (\<lambda>(n, v, w). (n, v)) env @ concat sss))"
  using assms
proof (induction ms arbitrary: env)
  case Nil
  then show ?case by (simp add: bare_def)
next
  case (Cons m ms)
  show ?case
  proof (cases "role_source pl cfg cat role root m")
    case (Inl e)
    then show ?thesis
      by (cases "on_role pl cfg cat role m") (auto simp: bare_def role_source_def then_do_def split: if_splits sum.splits)
  next
    case (Inr ss)
    then obtain here where here: "on_role pl cfg cat role m = Inr here"
      and ss: "if here then compile_manifest_host_sources cfg cat m root = Inr ss else ss = []"
      by (auto simp: role_source_def then_do_Inr_iff split: if_splits)
    let ?new = "map (\<lambda>(n, v). (n, v, manifest_name m)) ss"
    have names: "map fst ?new = (if here then map fst (host_sources m) else [])"
      using ss source_names by (auto simp: comp_def split_beta split: if_splits)
    have "add_variables (manifest_name m) ss env = Inr (env @ ?new)" if here
      using that Cons.prems names by (intro add_variables_fresh) (auto simp: comp_def split_beta)
    then have "(if here then then_do (compile_manifest_host_sources cfg cat m root) (\<lambda>ss. add_variables (manifest_name m) ss env)
        else Inr env) = Inr (env @ ?new)" using ss by (auto split: if_splits)
    moreover have "distinct (map fst (env @ ?new) @ concat (map (map fst \<circ> host_sources) ms))"
      unfolding map_append append_assoc names using Cons.prems by (intro distinct_optional) (simp add: comp_def)
    ultimately show ?thesis using Cons.IH [of "env @ ?new"] here Inr
      by (cases "each (role_source pl cfg cat role root) ms") (auto simp: comp_def split_beta)
  qed
qed

text \<open>
  C25.  On a machine, the secret projections and the host sources of an accepted catalog never conflict: each
  function returns, in catalog order, what every service with a part there declares, and raises only what deciding
  that, or compiling one service's own sources, raises.
\<close>

theorem accepted_catalog_never_conflicts:
  assumes "accepted tx pl' base discovered cat"
  shows "compile_role_secret_projections pl cfg cat role secrets =
           then_do (each (role_projection pl cfg cat role secrets) cat) (\<lambda>pss. Inr (concat pss))
       \<and> compile_role_host_sources pl cfg cat role root =
           then_do (each (role_source pl cfg cat role root) cat) (\<lambda>sss. Inr (concat sss))"
proof -
  have unbare: "then_do r (\<lambda>env. Inr (map (\<lambda>(n, v, w). (n, v)) env)) = bare r" for r :: "variable_error + owned_env"
    by (cases r) (simp_all add: bare_def)
  show ?thesis
    using role_projections_fresh [of "[]" cat pl cfg cat role secrets] host_sources_fresh [of "[]" cat pl cfg cat role root]
      distinct_projections [OF assms] distinct_host_sources [OF assms]
    by (simp add: compile_role_secret_projections_def compile_role_host_sources_def unbare)
qed

theorem accepted_catalog_never_conflicts_witness:
  "compile_role_secret_projections (small_plugins small_catalog) two_machines small_catalog ''core'' [(''APP_DB_PASSWORD'', ''pw'')]
     = Inr [(''APP_PASSWORD'', ''pw'')]"
proof -
  have "each (role_projection (small_plugins small_catalog) two_machines small_catalog ''core'' [(''APP_DB_PASSWORD'', ''pw'')])
      small_catalog = Inr [[], [], [(''APP_PASSWORD'', ''pw'')]]" by code_simp
  then show ?thesis
    using accepted_catalog_never_conflicts [OF small_catalog_accepted, of "small_plugins small_catalog" two_machines
      "''core''" "[(''APP_DB_PASSWORD'', ''pw'')]"] by simp
qed

section \<open>Addresses of integrations\<close>

lemma node_map_from_lookup:
  assumes "service_node_map_from pl cfg mans resolved = Inr nodes" and "distinct (map manifest_name mans)"
  shows "(\<forall>man \<in> set mans. owner_node pl cfg man = map_sum id the (Inr (map_of nodes (manifest_name man)))
            \<and> map_of nodes (manifest_name man) \<noteq> None)
       \<and> (\<forall>n. n \<notin> manifest_name ` set mans \<longrightarrow> map_of nodes n = map_of resolved n)"
  using assms
proof (induction mans arbitrary: resolved)
  case (Cons man mans)
  then obtain n where n: "owner_node pl cfg man = Inr n"
    and r: "service_node_map_from pl cfg mans (dict_set (manifest_name man) n resolved) = Inr nodes"
    by (auto simp: then_do_Inr_iff)
  note ih = Cons.IH [OF r]
  have "map_of nodes (manifest_name man) = Some n" using ih Cons.prems(2) by (simp add: map_of_dict_set)
  with n ih Cons.prems(2) show ?case by (auto simp: map_of_dict_set)
qed simp

lemma node_map_lookup:
  assumes "service_node_map pl cfg mans = Inr nodes" and "distinct (map manifest_name mans)" and "man \<in> set mans"
  obtains n where "owner_node pl cfg man = Inr n" and "map_of nodes (manifest_name man) = Some n"
  using node_map_from_lookup [OF assms(1) [unfolded service_node_map_def] assms(2)] assms(3) by fastforce

lemma resolved_machine:
  assumes "resolve_node_selector cfg on sel = Inr n"
  shows "\<exists>m. map_of (machines cfg) n = Some m"
proof -
  have "n \<in> fst ` set (machines cfg)" if "selector_matches cfg on sel = [n]"
    using arg_cong [OF that, of set] by (auto simp: selector_matches_def)
  with assms show ?thesis
    by (auto simp: resolve_node_selector_def weak_map_of_SomeI dest: map_of_SomeD split: option.splits if_splits list.splits)
qed

lemma accepted_integration:
  assumes "accepted tx pl base discovered ms" and "m \<in> set ms" and "i \<in> set (integrations m)"
  shows "check_integration ms m i = Inr ()"
proof -
  obtain ctx cats s t where "check_manifest tx pl base ctx cats ms m s = Inr t"
    using assms(1,2) by (rule accepted_manifest)
  then have "check_relations ms m = Inr ()"
    by (auto simp: check_manifest_def elim!: then_do_InrE split: option.splits)
  with assms(3) show ?thesis by (auto simp: check_relations_def run_checks_Inr elim!: then_do_InrE)
qed

lemma accepted_names: "accepted tx pl base discovered ms \<Longrightarrow> distinct (map manifest_name ms)"
  by (elim acceptedE)

lemma planning_fields [simp]: "manifest_name (planning_view m) = manifest_name m" "placement (planning_view m) = placement m"
  by (simp_all add: service_manifest.truncate_def)

lemma find_named:
  "distinct (map k xs) \<Longrightarrow> x \<in> set xs \<Longrightarrow> find (\<lambda>y. k y = k x) xs = Some x"
  by (induction xs) auto

lemma enabled_owner:
  assumes "service_node_map pl cfg (map planning_view cat) = Inr nodes" and "distinct (map manifest_name cat)"
    and "m \<in> set cat" and "service_is_enabled pl cfg (planning_view m) (catalog pl) = Inr True" and "is_multi_node cfg"
  obtains n where "resolve_node_selector cfg True (placement m) = Inr n" and "map_of nodes (manifest_name m) = Some n"
proof -
  have "distinct (map manifest_name (map planning_view cat))" using assms(2) by (simp add: comp_def)
  from node_map_lookup [OF assms(1) this, of "planning_view m"] assms(3)
  obtain n where "owner_node pl cfg (planning_view m) = Inr n" "map_of nodes (manifest_name m) = Some n" by auto
  with that assms(4,5) show thesis by (auto simp: owner_node_def manifest_node_def)
qed

text \<open>
  In an accepted catalog, on several machines, every integration of an enabled service with an enabled provider
  has an address on the machine that runs the service: the provider's container port when they share that machine,
  and its published port on the provider's machine otherwise.
\<close>

theorem integration_addresses_resolve:
  assumes "accepted tx pl' base discovered cat" and "m \<in> set cat" and "i \<in> set (integrations m)"
    and "p \<in> set cat" and "manifest_name p = integration_service i"
    and "is_multi_node cfg" and "service_node_map pl cfg (map planning_view cat) = Inr nodes"
    and "service_is_enabled pl cfg (planning_view m) (catalog pl) = Inr True"
    and "service_is_enabled pl cfg (planning_view p) (catalog pl) = Inr True"
    and "map_of nodes (manifest_name m) = Some consumer"
  shows "\<exists>ep host port. endpoint p = Some ep \<and> service_endpoint_address cfg p nodes consumer = Inr (host, port)
       \<and> (if map_of nodes (manifest_name p) = Some consumer then port = container_port ep else published_port ep = Some port)"
proof -
  have names: "distinct (map manifest_name cat)" using assms(1) by (rule accepted_names)
  have found: "find (\<lambda>q. manifest_name q = integration_service i) cat = Some p"
    using find_named [OF names assms(4)] assms(5) by simp
  from accepted_integration [OF assms(1-3)] found obtain ep where ep: "endpoint p = Some ep"
    and port: "placement m = placement p \<or> published_port ep \<noteq> None"
    by (auto simp: check_integration_def split: if_splits option.splits)
  obtain a where a: "resolve_node_selector cfg True (placement m) = Inr a" "map_of nodes (manifest_name m) = Some a"
    using assms(7) names assms(2,8,6) by (rule enabled_owner)
  obtain b where b: "resolve_node_selector cfg True (placement p) = Inr b" "map_of nodes (manifest_name p) = Some b"
    using assms(7) names assms(4,9,6) by (rule enabled_owner)
  from resolved_machine [OF b(1)] obtain mach where "map_of (machines cfg) b = Some mach" ..
  then show ?thesis
    using ep port a b assms(6,10) by (auto simp: service_endpoint_address_def)
qed

theorem integration_addresses_resolve_witness:
  "\<exists>host. service_endpoint_address two_machines main_database
     [(''proxy'', ''edge''), (''db'', ''core''), (''app'', ''core'')] ''core'' = Inr (host, 5432)"
proof -
  let ?nodes = "[(''proxy'', ''edge''), (''db'', ''core''), (''app'', ''core'')]"
  have facts: "main_app \<in> set small_catalog" "main_database \<in> set small_catalog" "is_multi_node two_machines"
    "app_integration \<in> set (integrations main_app)" "manifest_name main_database = integration_service app_integration"
    "manifest_name main_app = ''app''" "manifest_name main_database = ''db''"
    "endpoint main_database = Some \<lparr>endpoint_service = [], container_port = 5432, published_port = None\<rparr>"
    "service_node_map (small_plugins small_catalog) two_machines (map planning_view small_catalog) = Inr ?nodes"
    "service_is_enabled (small_plugins small_catalog) two_machines (planning_view main_app) (catalog (small_plugins small_catalog)) = Inr True"
    "service_is_enabled (small_plugins small_catalog) two_machines (planning_view main_database) (catalog (small_plugins small_catalog)) = Inr True"
    by code_simp+
  from integration_addresses_resolve [OF small_catalog_accepted facts(1,4,2,5,3,9,10,11), of "''core''"] facts(6,7,8)
  show ?thesis by auto
qed

section \<open>Errors\<close>

text \<open>
  A database binding to a provider on another machine: the same rule is not checked, and the environment of the
  machine cannot be compiled.
\<close>

definition far_app :: full_manifest where
  "far_app = empty_manifest ''app'' ''edge'' [''db'']
     \<lparr>required_secrets := [plain_secret ''APP_DB_PASSWORD''], databases := [app_binding]\<rparr>"

definition far_catalog :: "full_manifest list" where
  "far_catalog = [main_database, far_app]"


text \<open>The errors that show a cycle; no other check reports them.\<close>

fun shows_order :: "catalog_error \<Rightarrow> bool" where
  "shows_order (Ordering_cycle e) = True"
| "shows_order (Dependency_cycle e) = True"
| "shows_order e = False"

lemma ensure_Inl [simp]: "ensure ok e = Inl e' \<longleftrightarrow> \<not> ok \<and> e' = e"
  by (auto simp: ensure_def)

lemma each_Inl: "each f xs = Inl e \<Longrightarrow> \<exists>x \<in> set xs. f x = Inl e"
  by (induction xs) (auto simp: then_do_Inl_iff)

lemma run_checks_Inl: "run_checks f xs = Inl e \<Longrightarrow> \<exists>x \<in> set xs. f x = Inl e"
  by (auto simp: run_checks_def then_do_Inl_iff dest: each_Inl)

lemma try_fold_Inl: "try_fold f xs s = Inl e \<Longrightarrow> \<exists>x \<in> set xs. \<exists>t. f x t = Inl e"
proof (induction xs arbitrary: s)
  case (Cons x xs)
  then show ?case by (fastforce simp: then_do_Inl_iff)
qed simp

lemmas failing = then_do_Inl_iff

lemma claim_error: "claim owner k s = Inl e \<Longrightarrow> \<not> shows_order e"
  by (auto simp: claim_def split: option.splits)

lemma claim_all_error: "claim_all owner ks s = Inl e \<Longrightarrow> \<not> shows_order e"
  by (auto simp: claim_all_def dest!: try_fold_Inl claim_error)

lemma claim_source_error: "claim_source owner ns s = Inl e \<Longrightarrow> \<not> shows_order e"
  by (cases ns) (auto simp: claim_source_def claim_path_def failing dest!: claim_error try_fold_Inl
    split: if_splits option.splits)

lemma claim_credential_error: "claim_credential ms owner c s = Inl e \<Longrightarrow> \<not> shows_order e"
  by (auto simp: claim_credential_def failing dest!: claim_error split: if_splits option.splits)

lemma claim_resources_error: "claim_resources ms m s = Inl e \<Longrightarrow> \<not> shows_order e"
  by (auto simp: claim_resources_def failing
    dest!: claim_all_error try_fold_Inl claim_source_error claim_credential_error)

lemma claim_database_error: "claim_database ms m b s = Inl e \<Longrightarrow> \<not> shows_order e"
  by (auto simp: claim_database_def dest!: claim_all_error split: if_splits option.splits)

lemma declarations_error: "check_declarations ms m = Inl e \<Longrightarrow> \<not> shows_order e"
  by (auto simp: check_declarations_def failing check_predicate_def check_secret_def check_setup_def check_dependency_def
    dest!: run_checks_Inl split: if_splits option.splits sum.splits)

lemma relations_error: "check_relations ms m = Inl e \<Longrightarrow> \<not> shows_order e"
  by (auto simp: check_relations_def failing check_integration_def check_ingress_routes_def check_scrapes_def Let_def
    dest!: run_checks_Inl split: if_splits option.splits sum.splits)

lemma manifest_error: "check_manifest tx pl base ctx cats ms m s = Inl e \<Longrightarrow> \<not> shows_order e"
  by (auto simp: check_manifest_def failing check_groups_def check_invite_group_def check_variables_def check_oidc_def Let_def
    dest!: claim_all_error declarations_error relations_error claim_resources_error try_fold_Inl claim_database_error
    split: option.splits sum.splits if_splits)

lemma references_error: "check_references known hosts m jobs = Inl e \<Longrightarrow> \<not> shows_order e"
  by (auto simp: check_references_def check_source_def check_scrape_def failing Let_def
    dest!: run_checks_Inl try_fold_Inl split: if_splits option.splits)

lemma routes_error: "check_routes ms = Inl e \<Longrightarrow> \<not> shows_order e"
  by (auto simp: check_routes_def failing claim_route_def claim_match_def Let_def
    dest!: try_fold_Inl split: if_splits option.splits)

lemma sort_empty: "sort xs = [] \<longleftrightarrow> xs = []"
  by (metis set_empty set_sort)

lemma ordering_error:
  assumes "check_ordering ms = Inl e"
  shows "e \<noteq> Dependency_cycle x" and "e = Ordering_cycle x \<Longrightarrow> shows_cycle (integration_ordering ms) x"
proof -
  let ?g = "integration_ordering ms"
  let ?known = "run_checks (\<lambda>(i, after).
      let unknown = sort (remdups (filter (\<lambda>a. a \<notin> fst ` set ?g) after))
      in ensure (unknown = []) (Unknown_ordering i unknown)) ?g"
  have "e \<noteq> Dependency_cycle x \<and> (e = Ordering_cycle x \<longrightarrow> shows_cycle ?g x)"
  proof (cases ?known)
    case (Inl e')
    with assms have "e' = e" by (simp add: check_ordering_def Let_def)
    with run_checks_Inl [OF Inl] show ?thesis by (auto simp: Let_def)
  next
    case (Inr u)
    then have "closed_table ?g"
      by (fastforce simp: run_checks_Inr closed_table_def Let_def sort_empty filter_empty_conv)
    moreover from Inr assms obtain c where "visit_all ?g = Inl c" and "e = Ordering_cycle c"
      by (auto simp: check_ordering_def Let_def split: sum.splits)
    ultimately show ?thesis by (auto intro: visit_all_cycle)
  qed
  then show "e \<noteq> Dependency_cycle x" and "e = Ordering_cycle x \<Longrightarrow> shows_cycle ?g x" by auto
qed

lemma dependencies_closed:
  assumes "try_fold (check_manifest tx pl base ctx cats ms) ms s = Inr t"
  shows "closed_table (manifest_graph ms)"
proof -
  have "set (manifest_depends_on m) \<subseteq> manifest_name ` set ms" if "m \<in> set ms" for m
  proof -
    from try_fold_each [OF assms that] have "check_declarations ms m = Inr ()"
      by (auto simp: check_manifest_def elim!: then_do_InrE split: option.splits)
    then show ?thesis
      by (auto simp: check_declarations_def run_checks_Inr check_dependency_def then_do_Inr_iff)
  qed
  then show ?thesis by (auto simp: closed_table_def manifest_graph_def image_image)
qed

text \<open>
  A catalog refused for a dependency cycle has one: the reported names start and end with the same name and each
  depends on the next, among the services or, for host integrations, in their ordering.
\<close>

theorem reported_cycles_exist:
  assumes "validate_catalog tx pl base discovered ms = Inl e"
  shows "(\<forall>x. e = Dependency_cycle x \<longrightarrow> shows_cycle (manifest_graph ms) x)
       \<and> (\<forall>x. e = Ordering_cycle x \<longrightarrow> shows_cycle (integration_ordering ms) x)"
proof (cases "shows_order e")
  case True
  from assms consider
      (early) r where "map_sum Bad_categories id (r :: category_error + category_plugin list) = Inl e"
    | (names) "e = Duplicate_service"
    | (control) r where "map_sum (Uncaught \<circ> Config_problem) id (r :: config_error + string) = Inl e"
    | (capabilities) s where "claim_capabilities ms s = Inl e"
    | (manifests) ctx cats s where "try_fold (check_manifest tx pl base ctx cats ms) ms s = Inl e"
    | (ordering) "check_ordering ms = Inl e"
    | (references) known hosts s where "try_fold (check_references known hosts) ms s = Inl e"
    | (graph) ctx cats s t c where "try_fold (check_manifest tx pl base ctx cats ms) ms s = Inr t"
        "visit_all (manifest_graph ms) = Inl c" "e = Dependency_cycle c"
    | (routes) "check_routes ms = Inl e"
    unfolding validate_catalog_def Let_def failing ensure_Inl by (auto split: sum.splits)
  then show ?thesis
  proof cases
    case graph
    then show ?thesis using dependencies_closed visit_all_cycle by blast
  next
    case ordering
    then show ?thesis using ordering_error by blast
  next
    case early
    then show ?thesis using True by (cases r) auto
  next
    case control
    then show ?thesis using True by (cases r) auto
  qed (use True in \<open>auto simp: claim_capabilities_def
        dest!: try_fold_Inl claim_all_error manifest_error references_error routes_error\<close>)
qed auto

definition looping_app :: full_manifest where
  "looping_app = empty_manifest ''app'' ''core'' [''db'']"

definition looping_database :: full_manifest where
  "looping_database = empty_manifest ''db'' ''core'' [''app'']"

theorem reported_cycles_exist_witness:
  "validate_catalog rendering (small_plugins []) two_machines small_categories [looping_app, looping_database]
     = Inl (Dependency_cycle (Cycle [''app'', ''db'', ''app'']))
   \<and> shows_cycle (manifest_graph [looping_app, looping_database]) (Cycle [''app'', ''db'', ''app''])"
proof -
  have "validate_catalog rendering (small_plugins []) two_machines small_categories [looping_app, looping_database]
     = Inl (Dependency_cycle (Cycle [''app'', ''db'', ''app'']))" by code_simp
  with reported_cycles_exist [OF this] show ?thesis by simp
qed

end
