(* ===== verification/Network_Listeners.thy ===== *)
theory Network_Listeners
  imports Manifest_Variables Routes
begin

text \<open>
  \<open>core/manifest/networking.py\<close> and \<open>core/manifest/monitoring.py\<close>: the listeners and the scrape targets
  that the enabled manifests declare, resolved to machines and addresses.  \<open>ms\<close> is the catalog, \<open>lan\<close>
  the network of the mesh router as \<open>mesh_lan_cidr\<close> renders it.
\<close>

definition manifest_on :: "plugins \<Rightarrow> config \<Rightarrow> full_manifest list \<Rightarrow> full_manifest \<Rightarrow> config_error + bool" where
  "manifest_on pl cfg ms m = service_is_enabled pl cfg (planning_view m) (map planning_view ms)"

section \<open>Listeners\<close>

record compiled_listener =
  cl_service :: string
  cl_id :: string
  cl_targets :: "string list"
  cl_sources :: "string list"
  cl_port :: int
  cl_protocol :: protocol

definition integration_sources :: "config \<Rightarrow> string \<Rightarrow> string list" where
  "integration_sources cfg integration =
     (if list_ex (\<lambda>h. host_kind h = Fleet_host \<and> integration \<in> set (host_services h)) (external_hosts cfg)
      then [mesh_ipv4_cidr (network cfg)] else [])
     @ map host_address (filter (\<lambda>h. host_kind h = Plain_host \<and> integration \<in> set (host_services h)) (external_hosts cfg))"

definition listener_addresses ::
  "plugins \<Rightarrow> config \<Rightarrow> full_manifest list \<Rightarrow> string \<Rightarrow> full_manifest \<Rightarrow> string \<Rightarrow> config_error + string list"
where
  "listener_addresses pl cfg ms lan m selector =
     (if selector = ''@all'' then each (node_ip cfg) (enabled_nodes cfg)
      else if selector = ''@internet'' then Inr (if expose_via_internet cfg then [''any''] else [])
      else if selector = ''@lan'' then Inr [lan]
      else if selector = ''@mesh'' then Inr [mesh_ipv4_cidr (network cfg)]
      else if prefix ''@runtime:'' selector
      then then_do (manifest_runtime_nodes cfg (planning_view m) (remove_prefix ''@runtime:'' selector) None) (each (node_ip cfg))
      else if prefix ''@service:'' selector
      then (case find (\<lambda>p. manifest_name p = remove_prefix ''@service:'' selector) ms of
              None \<Rightarrow> Inl (Unknown_name (remove_prefix ''@service:'' selector))
            | Some p \<Rightarrow>
                then_do (manifest_on pl cfg ms p) (\<lambda>on.
                  if on then then_do (manifest_node cfg (planning_view p)) (\<lambda>n. then_do (node_ip cfg n) (\<lambda>a. Inr [a]))
                  else Inr []))
      else if prefix ''@integration:'' selector then Inr (integration_sources cfg (remove_prefix ''@integration:'' selector))
      else then_do (resolve_node_selector cfg True selector) (\<lambda>n. then_do (node_ip cfg n) (\<lambda>a. Inr [a])))"

definition listener_targets :: "config \<Rightarrow> full_manifest \<Rightarrow> listener \<Rightarrow> config_error + string list" where
  "listener_targets cfg m l =
     (if listener_host_process l \<or> listener_runtime l = []
      then then_do (manifest_node cfg (planning_view m)) (\<lambda>n. Inr [n])
      else manifest_runtime_nodes cfg (planning_view m) (listener_runtime l) None)"

text \<open>A listener that is switched off, or that no source may use, is left out.\<close>

definition compile_listener ::
  "plugins \<Rightarrow> config \<Rightarrow> full_manifest list \<Rightarrow> string \<Rightarrow> full_manifest \<Rightarrow> listener \<Rightarrow> config_error + compiled_listener list"
where
  "compile_listener pl cfg ms lan m l =
     then_do (all_match cfg (map planning_view ms) (listener_enabled_when l)) (\<lambda>on.
       if \<not> on then Inr []
       else then_do (each (listener_addresses pl cfg ms lan m) (listener_sources l)) (\<lambda>ass.
         let sources = fromkeys (concat ass)
         in if sources = [] then Inr []
            else then_do (listener_targets cfg m l) (\<lambda>targets.
              Inr [\<lparr>cl_service = manifest_name m, cl_id = listener_id l, cl_targets = targets, cl_sources = sources,
                    cl_port = listener_port l, cl_protocol = listener_protocol l\<rparr>])))"

definition compile_manifest_listeners ::
  "plugins \<Rightarrow> config \<Rightarrow> full_manifest list \<Rightarrow> string \<Rightarrow> full_manifest \<Rightarrow> config_error + compiled_listener list"
where
  "compile_manifest_listeners pl cfg ms lan m =
     then_do (manifest_on pl cfg ms m) (\<lambda>on.
       if \<not> on then Inr []
       else then_do (each (compile_listener pl cfg ms lan m) (network_listeners m)) (\<lambda>lss. Inr (concat lss)))"

definition compile_network_listeners ::
  "plugins \<Rightarrow> config \<Rightarrow> full_manifest list \<Rightarrow> string \<Rightarrow> config_error + compiled_listener list"
where
  "compile_network_listeners pl cfg ms lan =
     then_do (each (compile_manifest_listeners pl cfg ms lan) ms) (\<lambda>lss. Inr (concat lss))"

section \<open>Scrape targets\<close>

record scrape_target =
  st_service :: string
  st_id :: string
  st_job :: string
  st_path :: string
  st_target :: string
  st_instance :: string
  st_node :: "string option"
  st_host_port :: "int option"

datatype scrape_error =
    Scrape_config config_error
  | Conflicting_paths string string string
  | No_host_port string string
  | No_container_port string string

text \<open>\<open>job_paths.setdefault\<close>: the first scrape of a job fixes its path.\<close>

definition job_path :: "string \<Rightarrow> scrape \<Rightarrow> (string \<times> string) list \<Rightarrow> scrape_error + (string \<times> string) list" where
  "job_path job s paths =
     (case map_of paths job of
        None \<Rightarrow> Inr (dict_set job (scrape_path s) paths)
      | Some p \<Rightarrow> if p \<noteq> scrape_path s then Inl (Conflicting_paths job p (scrape_path s)) else Inr paths)"

definition host_target :: "full_manifest \<Rightarrow> scrape \<Rightarrow> string \<Rightarrow> int \<Rightarrow> external_host \<Rightarrow> scrape_target" where
  "host_target m s job port h =
     \<lparr>st_service = manifest_name m, st_id = scrape_id s, st_job = job, st_path = scrape_path s,
      st_target = host_address h @ '':'' @ show_int port, st_instance = host_name h, st_node = None, st_host_port = Some port\<rparr>"

definition node_target :: "config \<Rightarrow> full_manifest \<Rightarrow> scrape \<Rightarrow> string \<Rightarrow> string \<Rightarrow> scrape_error + scrape_target" where
  "node_target cfg m s job node =
     (case scrape_host_port s of
        None \<Rightarrow> Inl (No_host_port (manifest_name m) (scrape_id s))
      | Some port \<Rightarrow>
          (case node_ip cfg node of
             Inl e \<Rightarrow> Inl (Scrape_config e)
           | Inr a \<Rightarrow>
               Inr \<lparr>st_service = manifest_name m, st_id = scrape_id s, st_job = job, st_path = scrape_path s,
                    st_target = a @ '':'' @ show_int port, st_instance = node, st_node = Some node, st_host_port = Some port\<rparr>))"

definition scrape_nodes :: "config \<Rightarrow> full_manifest \<Rightarrow> scrape \<Rightarrow> config_error + string list" where
  "scrape_nodes cfg m s =
     (if scrape_runtime s \<noteq> [] then manifest_runtime_nodes cfg (planning_view m) (scrape_runtime s) None
      else then_do (manifest_node cfg (planning_view m)) (\<lambda>n. Inr [n]))"

definition scrape_targets :: "config \<Rightarrow> full_manifest \<Rightarrow> scrape \<Rightarrow> string \<Rightarrow> scrape_error + scrape_target list" where
  "scrape_targets cfg m s job =
     (if scrape_integration s \<noteq> []
      then (case scrape_host_port s of
              None \<Rightarrow> Inl (No_host_port (manifest_name m) (scrape_id s))
            | Some port \<Rightarrow>
                Inr (map (host_target m s job port)
                      (filter (\<lambda>h. scrape_integration s \<in> set (host_services h)) (external_hosts cfg))))
      else then_do (map_sum Scrape_config id (scrape_nodes cfg m s)) (\<lambda>nodes.
        if scrape_container_port s = None then Inl (No_container_port (manifest_name m) (scrape_id s))
        else each (node_target cfg m s job) nodes))"

fun compile_scrapes ::
  "config \<Rightarrow> full_manifest \<Rightarrow> scrape list \<Rightarrow> (string \<times> string) list \<times> scrape_target list
     \<Rightarrow> scrape_error + (string \<times> string) list \<times> scrape_target list"
where
  "compile_scrapes cfg m [] st = Inr st"
| "compile_scrapes cfg m (s # ss) (paths, out) =
     (let job = (if scrape_job s \<noteq> [] then scrape_job s else manifest_name m)
      in then_do (job_path job s paths) (\<lambda>paths.
         then_do (scrape_targets cfg m s job) (\<lambda>ts. compile_scrapes cfg m ss (paths, out @ ts))))"

fun compile_all_scrapes ::
  "plugins \<Rightarrow> config \<Rightarrow> full_manifest list \<Rightarrow> full_manifest list \<Rightarrow> (string \<times> string) list \<times> scrape_target list
     \<Rightarrow> scrape_error + (string \<times> string) list \<times> scrape_target list"
where
  "compile_all_scrapes pl cfg cat [] st = Inr st"
| "compile_all_scrapes pl cfg cat (m # ms) st =
     then_do (map_sum Scrape_config id (manifest_on pl cfg cat m)) (\<lambda>on.
     then_do (if on then compile_scrapes cfg m (prometheus m) st else Inr st) (compile_all_scrapes pl cfg cat ms))"

definition compile_prometheus_targets ::
  "plugins \<Rightarrow> config \<Rightarrow> full_manifest list \<Rightarrow> scrape_error + scrape_target list"
where
  "compile_prometheus_targets pl cfg ms =
     (case catalog_provider ms ''metrics'' of
        None \<Rightarrow> Inr []
      | Some p \<Rightarrow>
          then_do (map_sum Scrape_config id (manifest_on pl cfg ms p)) (\<lambda>on.
            if \<not> on then Inr []
            else then_do (compile_all_scrapes pl cfg ms ms ([], [])) (\<lambda>(paths, out). Inr out)))"

end
