(* ===== verification/Firewall_Policy.thy ===== *)
theory Firewall_Policy
  imports Network_Listeners
begin

text \<open>
  \<open>build_guest_firewall_policy\<close> of \<open>core/infra/network_policy.py\<close>: the ingress rules of the machines.  The
  process-wide catalog, from which the mesh router is taken, is \<open>cat\<close>; the catalog of the root
  directory is \<open>found\<close>, None when it has no service manifest.

  The function calls \<open>add\<close> one rule after the other and may raise in between; since a raise loses all
  rules, the model collects the arguments of the calls and then adds them in that order.
\<close>

datatype policy_error =
    Policy_config config_error
  | Policy_network network_error
  | Policy_scrape scrape_error
  | Missing_address string

record rule_request =
  rule_roles :: "string list"
  rule_source :: string
  rule_port :: int
  rule_protocol :: protocol
  rule_comment :: string

definition same_rule :: "rule_request \<Rightarrow> rule_request \<Rightarrow> bool" where
  "same_rule r s \<longleftrightarrow>
     rule_roles r = rule_roles s \<and> rule_source r = rule_source s \<and> rule_port r = rule_port s \<and> rule_protocol r = rule_protocol s"

definition add_rule :: "rule_request \<Rightarrow> rule_request list \<Rightarrow> rule_request list" where
  "add_rule r rules = (if rule_roles r = [] \<or> list_ex (same_rule r) rules then rules else rules @ [r])"

definition request :: "string list \<Rightarrow> string \<Rightarrow> int \<Rightarrow> protocol \<Rightarrow> string \<Rightarrow> rule_request" where
  "request roles source port proto comment =
     \<lparr>rule_roles = roles, rule_source = source, rule_port = port, rule_protocol = proto, rule_comment = comment\<rparr>"

section \<open>Machines\<close>

definition node_ips :: "config \<Rightarrow> (string \<times> string) list" where
  "node_ips cfg = map (\<lambda>(i, m). (i, address m)) (filter (\<lambda>(i, m). enabled m) (machines cfg))"

text \<open>\<open>node_ips[node]\<close>, which raises \<open>KeyError\<close>.\<close>

definition ip_of :: "config \<Rightarrow> string \<Rightarrow> policy_error + string" where
  "ip_of cfg node = (case map_of (node_ips cfg) node of None \<Rightarrow> Inl (Missing_address node) | Some a \<Rightarrow> Inr a)"

definition provider_nodes ::
  "plugins \<Rightarrow> config \<Rightarrow> full_manifest list option \<Rightarrow> string \<Rightarrow> string \<Rightarrow> config_error + string list"
where
  "provider_nodes pl cfg found capability label =
     (let fallback = map fst (filter (\<lambda>(i, m). enabled m \<and> label \<in> set (machine_labels m)) (machines cfg))
      in case found of
           None \<Rightarrow> Inr fallback
         | Some ms \<Rightarrow>
             (case catalog_provider ms capability of
                None \<Rightarrow> Inr fallback
              | Some p \<Rightarrow>
                  then_do (manifest_on pl cfg ms p) (\<lambda>on.
                    if on then then_do (manifest_node cfg (planning_view p)) (\<lambda>n. Inr [n]) else Inr fallback)))"

definition gateway_of :: "config \<Rightarrow> string \<Rightarrow> string" where
  "gateway_of cfg node = (case map_of (machines cfg) node of None \<Rightarrow> [] | Some m \<Rightarrow> machine_gateway m)"

section \<open>What every machine allows\<close>

definition ssh_requests :: "config \<Rightarrow> string list \<Rightarrow> rule_request list" where
  "ssh_requests cfg routers =
     (let all_roles = map fst (node_ips cfg)
      in map (\<lambda>g. request (filter (\<lambda>n. gateway_of cfg n = g) all_roles) g 22 Tcp ''SSH from Proxmox gateway'')
           (fromkeys (map (gateway_of cfg) all_roles))
         @ [request all_roles (mesh_ipv4_cidr (network cfg)) 22 Tcp ''SSH from enrolled mesh'']
         @ concat (map (\<lambda>router.
             case map_of (node_ips cfg) router of
               None \<Rightarrow> []
             | Some a \<Rightarrow> if a = [] then []
                          else [request (filter (\<lambda>n. n \<noteq> router) all_roles) a 22 Tcp ''SSH through mesh subnet router''])
             routers))"

definition web_sources :: "config \<Rightarrow> string \<Rightarrow> string list" where
  "web_sources cfg lan = (if expose_via_internet cfg then [''any''] else [lan, mesh_ipv4_cidr (network cfg)])"

definition web_requests :: "config \<Rightarrow> string \<Rightarrow> string list \<Rightarrow> rule_request list" where
  "web_requests cfg lan ingress =
     concat (map (\<lambda>source. [request ingress source 80 Tcp ''HTTP to Caddy'', request ingress source 443 Tcp ''HTTPS to Caddy''])
       (web_sources cfg lan))"

section \<open>What the catalog asks for\<close>

text \<open>The address the proxy uses: its bridge address on its own machine, the address of its machine elsewhere.\<close>

definition proxy_source :: "config \<Rightarrow> string \<Rightarrow> string \<Rightarrow> string \<Rightarrow> policy_error + string" where
  "proxy_source cfg caddy ingress_node target = (if ingress_node = target then Inr caddy else ip_of cfg ingress_node)"

definition route_requests :: "config \<Rightarrow> string \<Rightarrow> string list \<Rightarrow> compiled_route \<Rightarrow> policy_error + rule_request list" where
  "route_requests cfg caddy ingress r =
     (case cr_published_port r of
        None \<Rightarrow> Inr []
      | Some port \<Rightarrow>
          if map_of (node_ips cfg) (cr_node r) = None then Inr []
          else each (\<lambda>i. then_do (proxy_source cfg caddy i (cr_node r)) (\<lambda>a.
                 Inr (request [cr_node r] a port Tcp (i @ '' ingress to '' @ cr_service r)))) ingress)"

definition manifest_source_nodes :: "config \<Rightarrow> full_manifest \<Rightarrow> config_error + string list" where
  "manifest_source_nodes cfg m =
     then_do (manifest_node cfg (planning_view m)) (\<lambda>n.
     then_do (each (\<lambda>(r, rt). manifest_runtime_nodes cfg (planning_view m) r None) (runtimes m)) (\<lambda>nss.
       Inr (sort (remdups (n # concat nss)))))"

definition provider_names :: "string list \<Rightarrow> full_manifest \<Rightarrow> string list" where
  "provider_names enabled_names m =
     sort (remdups (filter (\<lambda>n. n \<in> set enabled_names)
       (map integration_service (integrations m) @ map binding_provider (databases m))))"

definition provider_requests ::
  "config \<Rightarrow> full_manifest list \<Rightarrow> string list \<Rightarrow> string \<Rightarrow> policy_error + rule_request list"
where
  "provider_requests cfg ms sources name =
     (case find (\<lambda>p. manifest_name p = name) ms of
        None \<Rightarrow> Inl (Policy_config (Unknown_name name))
      | Some p \<Rightarrow>
          then_do (map_sum Policy_config id (manifest_node cfg (planning_view p))) (\<lambda>target.
            case endpoint p of
              None \<Rightarrow> Inr []
            | Some ep \<Rightarrow>
                (case published_port ep of
                   None \<Rightarrow> Inr []
                 | Some port \<Rightarrow>
                     each (\<lambda>s. then_do (ip_of cfg s) (\<lambda>a.
                       Inr (request [target] a port Tcp (s @ '' services to integration '' @ manifest_name p))))
                       (filter (\<lambda>s. s \<noteq> target) sources))))"

definition integration_requests ::
  "config \<Rightarrow> full_manifest list \<Rightarrow> string list \<Rightarrow> full_manifest \<Rightarrow> policy_error + rule_request list"
where
  "integration_requests cfg ms enabled_names m =
     then_do (map_sum Policy_config id (manifest_source_nodes cfg m)) (\<lambda>sources.
     then_do (each (provider_requests cfg ms sources) (provider_names enabled_names m)) (\<lambda>rss. Inr (concat rss)))"

definition scrape_request :: "config \<Rightarrow> string \<Rightarrow> string \<Rightarrow> scrape_target \<Rightarrow> policy_error + rule_request list" where
  "scrape_request cfg egress metrics_node t =
     (case (st_node t, st_host_port t) of
        (Some node, Some port) \<Rightarrow>
          then_do (if metrics_node = node then Inr egress else ip_of cfg metrics_node) (\<lambda>a.
            Inr [request [node] a port Tcp (''prometheus scrape of '' @ st_service t)])
      | _ \<Rightarrow> Inr [])"

definition metrics_requests ::
  "plugins \<Rightarrow> config \<Rightarrow> full_manifest list \<Rightarrow> string \<Rightarrow> full_manifest list \<Rightarrow> policy_error + rule_request list"
where
  "metrics_requests pl cfg ms egress on =
     (case find (\<lambda>m. ''metrics'' \<in> set (provides m)) on of
        None \<Rightarrow> Inr []
      | Some p \<Rightarrow>
          then_do (map_sum Policy_config id (manifest_node cfg (planning_view p))) (\<lambda>node.
          then_do (map_sum Policy_scrape id (compile_prometheus_targets pl cfg ms)) (\<lambda>ts.
          then_do (each (scrape_request cfg egress node) ts) (\<lambda>rss. Inr (concat rss)))))"

definition listener_requests ::
  "config \<Rightarrow> string \<Rightarrow> string list \<Rightarrow> full_manifest option \<Rightarrow> compiled_listener \<Rightarrow> rule_request list"
where
  "listener_requests cfg caddy ingress ingress_manifest l =
     concat (map (\<lambda>target.
       (if (case ingress_manifest of None \<Rightarrow> False | Some m \<Rightarrow> cl_service l \<in> set (manifest_depends_on m))
           \<and> target \<in> set ingress
        then [request [target] caddy (cl_port l) (cl_protocol l) (''local ingress dependency '' @ cl_service l)] else [])
       @ concat (map (\<lambda>source.
           case map_of (node_ips cfg) target of
             None \<Rightarrow> []
           | Some a \<Rightarrow> if source \<noteq> a
                        then [request [target] source (cl_port l) (cl_protocol l) (cl_service l @ '' '' @ cl_id l)] else [])
           (cl_sources l))) (cl_targets l))"

text \<open>The manifests that are switched on, in catalog order.\<close>

definition enabled_manifests :: "plugins \<Rightarrow> config \<Rightarrow> full_manifest list \<Rightarrow> config_error + full_manifest list" where
  "enabled_manifests pl cfg ms =
     then_do (each (\<lambda>m. then_do (manifest_on pl cfg ms m) (\<lambda>on. Inr (if on then [m] else []))) ms) (\<lambda>mss. Inr (concat mss))"

definition catalog_requests ::
  "plugins \<Rightarrow> config \<Rightarrow> full_manifest list \<Rightarrow> string \<Rightarrow> string \<Rightarrow> string \<Rightarrow> string list \<Rightarrow> policy_error + rule_request list"
where
  "catalog_requests pl cfg ms lan caddy egress ingress =
     then_do (map_sum Policy_config id (enabled_manifests pl cfg ms)) (\<lambda>on.
     then_do (map_sum Policy_config id (compile_routes pl cfg (map planning_view ms))) (\<lambda>routes.
     then_do (each (route_requests cfg caddy ingress) routes) (\<lambda>rss.
     then_do (each (integration_requests cfg ms (map manifest_name on)) on) (\<lambda>iss.
     then_do (metrics_requests pl cfg ms egress on) (\<lambda>mss.
     then_do (map_sum Policy_config id (compile_network_listeners pl cfg ms lan)) (\<lambda>ls.
       Inr (concat rss @ concat iss @ mss
            @ concat (map (listener_requests cfg caddy ingress (catalog_provider ms ''ingress'')) ls))))))))"

section \<open>What the projects ask for\<close>

definition project_database_requests ::
  "config \<Rightarrow> full_manifest list option \<Rightarrow> string \<Rightarrow> project_entry \<Rightarrow> policy_error + rule_request list"
where
  "project_database_requests cfg found target project =
     (case found of
        None \<Rightarrow> Inr []
      | Some ms \<Rightarrow>
          if project_database project = [] then Inr []
          else (case find (\<lambda>p. manifest_name p = project_database project) ms of
                  None \<Rightarrow> Inr []
                | Some p \<Rightarrow>
                    then_do (map_sum Policy_config id (manifest_node cfg (planning_view p))) (\<lambda>node.
                      case (database_provider p, endpoint p) of
                        (Some contract, Some ep) \<Rightarrow>
                          (case published_port ep of
                             None \<Rightarrow> Inr []
                           | Some port \<Rightarrow>
                               if node = target then Inr []
                               else then_do (ip_of cfg target) (\<lambda>a.
                                 Inr [request [node] a port Tcp (target @ '' projects to database '' @ project_database project)]))
                      | _ \<Rightarrow> Inr [])))"

definition project_requests ::
  "config \<Rightarrow> full_manifest list option \<Rightarrow> string \<Rightarrow> string list \<Rightarrow> project_entry \<Rightarrow> policy_error + rule_request list"
where
  "project_requests cfg found caddy ingress project =
     then_do (map_sum Policy_config id (project_node cfg project)) (\<lambda>target.
     then_do (each (\<lambda>i. then_do (proxy_source cfg caddy i target) (\<lambda>a.
                Inr (request [target] a (project_port project) Tcp (i @ '' to project '' @ project_subdomain project)))) ingress) (\<lambda>rs.
     then_do (project_database_requests cfg found target project) (\<lambda>ds. Inr (rs @ ds))))"

section \<open>The policy\<close>

definition policy_requests ::
  "plugins \<Rightarrow> config \<Rightarrow> full_manifest list \<Rightarrow> full_manifest list option \<Rightarrow> policy_error + rule_request list"
where
  "policy_requests pl cfg cat found =
     (let router = map_option planning_view (catalog_provider cat ''mesh-router'')
      in then_do (map_sum Policy_network id (edge_network_values cfg router)) (\<lambda>(subnet, caddy).
         then_do (map_sum Policy_network id (prometheus_egress_network cfg router)) (\<lambda>egress_net.
         then_do (map_sum Policy_network id (mesh_lan cfg router)) (\<lambda>lan_net.
         then_do (map_sum Policy_config id (provider_nodes pl cfg found ''ingress'' ''ingress'')) (\<lambda>ingress.
         then_do (map_sum Policy_config id (provider_nodes pl cfg found ''mesh-router'' ''control'')) (\<lambda>routers.
         let lan = show_network lan_net; egress = show_ipv4 (net_address egress_net + 2)
         in then_do (case found of None \<Rightarrow> Inr [] | Some ms \<Rightarrow> catalog_requests pl cfg ms lan caddy egress ingress) (\<lambda>cs.
            then_do (each (project_requests cfg found caddy ingress) (projects cfg)) (\<lambda>pss.
              Inr (ssh_requests cfg routers @ web_requests cfg lan ingress @ cs @ concat pss)))))))))"

definition build_guest_firewall_policy ::
  "plugins \<Rightarrow> config \<Rightarrow> full_manifest list \<Rightarrow> full_manifest list option \<Rightarrow> policy_error + rule_request list"
where
  "build_guest_firewall_policy pl cfg cat found =
     then_do (policy_requests pl cfg cat found) (\<lambda>rs. Inr (fold add_rule rs []))"

end
