(* ===== verification/Firewall_Properties.thy ===== *)
theory Firewall_Properties
  imports Firewall_Policy Catalog_Composition Network_Properties
begin

text \<open>
  What the ingress rules allow: nothing from the internet beyond the proxy and the listeners that ask for it,
  and every connection between machines that the environments of the services rely on.
\<close>

section \<open>Rules and requests\<close>

definition permits :: "rule_request list \<Rightarrow> string \<Rightarrow> string \<Rightarrow> int \<Rightarrow> protocol \<Rightarrow> bool" where
  "permits rules node source port proto \<longleftrightarrow>
     list_ex (\<lambda>r. node \<in> set (rule_roles r) \<and> rule_source r = source \<and> rule_port r = port \<and> rule_protocol r = proto) rules"

lemma permits_simps [simp]:
  "\<not> permits [] n s p t" "permits (r # r' # rs) n s p t \<longleftrightarrow> permits [r] n s p t \<or> permits (r' # rs) n s p t"
  "permits (rs @ rs') n s p t \<longleftrightarrow> permits rs n s p t \<or> permits rs' n s p t"
  by (auto simp: permits_def)

lemma permits_Cons: "permits (r # rs) n s p t \<longleftrightarrow> permits [r] n s p t \<or> permits rs n s p t"
  by (auto simp: permits_def)

lemma permits_request [simp]:
  "permits [request roles s' p' t' c] n s p t \<longleftrightarrow> n \<in> set roles \<and> s = s' \<and> p = p' \<and> t = t'"
  by (auto simp: permits_def request_def)

lemma permits_iff: "permits rs n s p t \<longleftrightarrow> (\<exists>r \<in> set rs. permits [r] n s p t)"
  by (auto simp: permits_def list_ex_iff)

lemma permits_concat: "permits (concat rss) n s p t \<longleftrightarrow> (\<exists>rs \<in> set rss. permits rs n s p t)"
  by (induction rss) auto

lemma add_rule_permits: "permits (add_rule r rs) n s p t \<longleftrightarrow> permits [r] n s p t \<or> permits rs n s p t"
  by (auto simp: add_rule_def permits_def list_ex_iff same_rule_def)

lemma add_rules_permits: "permits (fold add_rule rs acc) n s p t \<longleftrightarrow> permits rs n s p t \<or> permits acc n s p t"
proof (induction rs arbitrary: acc)
  case (Cons r rs)
  show ?case using Cons.IH [of "add_rule r acc"] by (auto simp: add_rule_permits permits_Cons [of r rs])
qed simp

lemma policy_permits:
  assumes "build_guest_firewall_policy pl cfg cat found = Inr rules"
  obtains rs where "policy_requests pl cfg cat found = Inr rs" and "\<And>n s p t. permits rules n s p t \<longleftrightarrow> permits rs n s p t"
  using assms by (auto simp: build_guest_firewall_policy_def add_rules_permits elim!: then_do_InrE)

section \<open>The internet\<close>

text \<open>Addresses as the validators of the configuration leave them; none of them reads \<open>any\<close>.\<close>

definition plain_addresses :: "config \<Rightarrow> bool" where
  "plain_addresses cfg \<longleftrightarrow>
     list_all (\<lambda>(i, m). parse_ipv4 (address m) \<noteq> None \<and> parse_ipv4 (machine_gateway m) \<noteq> None) (machines cfg)
     \<and> list_all (\<lambda>h. parse_ipv4 (host_address h) \<noteq> None) (external_hosts cfg)
     \<and> parse_network (mesh_ipv4_cidr (network cfg)) \<noteq> None"

lemma any_is_no_address: "parse_ipv4 ''any'' = None" "parse_network ''any'' = None"
  by (simp_all add: parse_ipv4_def octet_def is_digit_def parse_network_def)

lemma dot_in_ipv4: "CHR ''.'' \<in> set (show_ipv4 a)"
  by (simp add: show_ipv4_def Let_def)

lemma shown_not_any: "show_ipv4 a \<noteq> ''any''" "show_network n \<noteq> ''any''"
proof -
  have dot: "CHR ''.'' \<notin> set ''any''" by simp
  then show "show_ipv4 a \<noteq> ''any''" using dot_in_ipv4 by metis
  have "CHR ''.'' \<in> set (show_network n)" by (simp add: show_network_def dot_in_ipv4)
  with dot show "show_network n \<noteq> ''any''" by metis
qed

lemma plain_address: "plain_addresses cfg \<Longrightarrow> map_of (machines cfg) n = Some m \<Longrightarrow> address m \<noteq> ''any''"
  using any_is_no_address by (fastforce simp: plain_addresses_def list_all_iff dest!: map_of_SomeD)

lemma plain_node_ip: "plain_addresses cfg \<Longrightarrow> node_ip cfg n = Inr a \<Longrightarrow> a \<noteq> ''any''"
  by (auto simp: node_ip_def plain_address split: option.splits if_splits)

lemma plain_ip_of:
  assumes "plain_addresses cfg" and "map_of (node_ips cfg) n = Some a"
  shows "a \<noteq> ''any''"
proof -
  from assms(2) obtain m where "(n, m) \<in> set (machines cfg)" and "a = address m"
    by (auto simp: node_ips_def dest!: map_of_SomeD)
  with assms(1) any_is_no_address show ?thesis by (fastforce simp: plain_addresses_def list_all_iff)
qed

lemma plain_mesh: "plain_addresses cfg \<Longrightarrow> mesh_ipv4_cidr (network cfg) \<noteq> ''any''"
  using any_is_no_address by (auto simp: plain_addresses_def)

lemma never_any:
  assumes "plain_addresses cfg"
  shows "map_of (node_ips cfg) n \<noteq> Some ''any''" and "node_ip cfg n \<noteq> Inr ''any''" and "ip_of cfg n \<noteq> Inr ''any''"
    and "caddy \<noteq> ''any'' \<Longrightarrow> proxy_source cfg caddy i t \<noteq> Inr ''any''"
  using plain_ip_of [OF assms] plain_node_ip [OF assms]
  by (auto simp: proxy_source_def ip_of_def split: option.splits)

text \<open>
  The listeners the internet may use: publishing is on, an enabled service declares the listener with the source
  \<open>@internet\<close>, and the node is one of its targets.
\<close>

definition declared_public ::
  "plugins \<Rightarrow> config \<Rightarrow> full_manifest list option \<Rightarrow> string \<Rightarrow> int \<Rightarrow> protocol \<Rightarrow> bool"
where
  "declared_public pl cfg found node port proto \<longleftrightarrow>
     (\<exists>ms m l targets. found = Some ms \<and> m \<in> set ms \<and> manifest_on pl cfg ms m = Inr True \<and> l \<in> set (network_listeners m)
        \<and> ''@internet'' \<in> set (listener_sources l) \<and> listener_port l = port \<and> listener_protocol l = proto
        \<and> listener_targets cfg m l = Inr targets \<and> node \<in> set targets)"

lemma any_selector:
  assumes "plain_addresses cfg" and "listener_addresses pl cfg ms lan m sel = Inr as" and "''any'' \<in> set as" and "lan \<noteq> ''any''"
  shows "sel = ''@internet'' \<and> expose_via_internet cfg"
proof (rule ccontr)
  assume no: "\<not> (sel = ''@internet'' \<and> expose_via_internet cfg)"
  have ips: "''any'' \<notin> set bs" if "each (node_ip cfg) ns = Inr bs" for ns bs
    using that plain_node_ip [OF assms(1)] by (metis each_from)
  have hosts: "''any'' \<notin> set (integration_sources cfg i)" for i
    using assms(1) any_is_no_address plain_mesh [OF assms(1)]
    by (fastforce simp: integration_sources_def plain_addresses_def list_all_iff)
  from assms(2-4) no plain_mesh [OF assms(1)] ips hosts show False
    by (auto simp: never_any [OF assms(1)] listener_addresses_def elim!: then_do_InrE split: if_splits option.splits)
qed

lemma set_fromkeys_subset: "x \<in> set (fromkeys xs) \<Longrightarrow> x \<in> set xs"
  by simp

lemma any_listener:
  assumes "plain_addresses cfg" and "compile_network_listeners pl cfg ms lan = Inr ls" and "c \<in> set ls"
    and "''any'' \<in> set (cl_sources c)" and "n \<in> set (cl_targets c)" and "lan \<noteq> ''any''"
  shows "expose_via_internet cfg \<and> declared_public pl cfg (Some ms) n (cl_port c) (cl_protocol c)"
proof -
  from assms(2) obtain css where each: "each (compile_manifest_listeners pl cfg ms lan) ms = Inr css" and ls: "ls = concat css"
    by (auto simp: compile_network_listeners_def elim!: then_do_InrE)
  from assms(3) ls obtain cs where "cs \<in> set css" "c \<in> set cs" by auto
  with each_from [OF each] obtain m where m: "m \<in> set ms" and cm: "compile_manifest_listeners pl cfg ms lan m = Inr cs" by metis
  from cm \<open>c \<in> set cs\<close> have on: "manifest_on pl cfg ms m = Inr True"
    by (auto simp: compile_manifest_listeners_def elim!: then_do_InrE split: if_splits)
  with cm obtain dss where "each (compile_listener pl cfg ms lan m) (network_listeners m) = Inr dss" and "cs = concat dss"
    by (auto simp: compile_manifest_listeners_def elim!: then_do_InrE)
  with \<open>c \<in> set cs\<close> obtain l ds where l: "l \<in> set (network_listeners m)" and cl: "compile_listener pl cfg ms lan m l = Inr ds"
    and "c \<in> set ds" by (auto elim: each_from)
  then obtain ass targets where ass: "each (listener_addresses pl cfg ms lan m) (listener_sources l) = Inr ass"
    and t: "listener_targets cfg m l = Inr targets"
    and c: "cl_targets c = targets" "cl_sources c = fromkeys (concat ass)" "cl_port c = listener_port l"
      "cl_protocol c = listener_protocol l"
    by (auto simp: compile_listener_def Let_def elim!: then_do_InrE split: if_splits)
  from assms(4) c(2) obtain as where "as \<in> set ass" "''any'' \<in> set as" by (auto dest: set_fromkeys_subset)
  with each_from [OF ass] obtain sel where "sel \<in> set (listener_sources l)" "listener_addresses pl cfg ms lan m sel = Inr as" by metis
  with any_selector [OF assms(1) _ \<open>''any'' \<in> set as\<close> assms(6)] have "''@internet'' \<in> set (listener_sources l)" "expose_via_internet cfg"
    by metis+
  with m on l t c assms(5) show ?thesis by (auto simp: declared_public_def)
qed

lemma each_permits:
  assumes "each f xs = Inr rs" and "permits rs n s p t"
  obtains x r where "x \<in> set xs" and "f x = Inr r" and "permits [r] n s p t"
  using assms by (metis each_from permits_iff)

lemma each_concat_permits:
  assumes "each f xs = Inr rss" and "permits (concat rss) n s p t"
  obtains x rs where "x \<in> set xs" and "f x = Inr rs" and "permits rs n s p t"
  using assms by (metis each_from permits_concat)

lemma any_route:
  "plain_addresses cfg \<Longrightarrow> caddy \<noteq> ''any'' \<Longrightarrow> route_requests cfg caddy ingress r = Inr rs \<Longrightarrow> \<not> permits rs n ''any'' p t"
  by (auto simp: route_requests_def never_any elim!: each_permits then_do_InrE split: option.splits if_splits)

lemma any_provider:
  "plain_addresses cfg \<Longrightarrow> provider_requests cfg ms sources name = Inr rs \<Longrightarrow> \<not> permits rs n ''any'' p t"
  by (auto simp: provider_requests_def never_any elim!: each_permits then_do_InrE split: option.splits)

lemma any_integration:
  "plain_addresses cfg \<Longrightarrow> integration_requests cfg ms names m = Inr rs \<Longrightarrow> \<not> permits rs n ''any'' p t"
  by (auto simp: integration_requests_def elim!: then_do_InrE elim: each_concat_permits dest: any_provider)

lemma any_metrics:
  "plain_addresses cfg \<Longrightarrow> egress \<noteq> ''any'' \<Longrightarrow> metrics_requests pl cfg ms egress on = Inr rs \<Longrightarrow> \<not> permits rs n ''any'' p t"
  by (auto simp: metrics_requests_def scrape_request_def never_any elim!: then_do_InrE each_concat_permits
    split: option.splits if_splits)

lemma any_project_database:
  "plain_addresses cfg \<Longrightarrow> project_database_requests cfg found target q = Inr rs \<Longrightarrow> \<not> permits rs n ''any'' p t"
  by (auto simp: project_database_requests_def never_any elim!: then_do_InrE split: option.splits if_splits)

lemma any_project:
  assumes "plain_addresses cfg" and "caddy \<noteq> ''any''" and "project_requests cfg found caddy ingress q = Inr rs"
  shows "\<not> permits rs n ''any'' p t"
proof -
  from assms(3) obtain target ps ds
    where ps: "each (\<lambda>i. then_do (proxy_source cfg caddy i target) (\<lambda>a.
                Inr (request [target] a (project_port q) Tcp (i @ '' to project '' @ project_subdomain q)))) ingress = Inr ps"
      and ds: "project_database_requests cfg found target q = Inr ds" and rs: "rs = ps @ ds"
    by (auto simp: project_requests_def elim!: then_do_InrE)
  have "\<not> permits ps n ''any'' p t"
  proof
    assume "permits ps n ''any'' p t"
    with ps show False by (rule each_permits) (auto simp: never_any assms elim!: then_do_InrE)
  qed
  with any_project_database [OF assms(1) ds] rs show ?thesis by simp
qed

lemma plain_gateway:
  assumes "plain_addresses cfg" and "i \<in> set (map fst (node_ips cfg))"
  shows "gateway_of cfg i \<noteq> ''any''"
proof -
  from assms(2) obtain m where "map_of (machines cfg) i = Some m"
    by (auto simp: node_ips_def) (metis (mono_tags) map_of_eq_None_iff fst_conv image_eqI not_Some_eq)
  then have "(i, m) \<in> set (machines cfg)" and "gateway_of cfg i = machine_gateway m"
    by (auto simp: gateway_of_def dest: map_of_SomeD)
  with assms(1) any_is_no_address show ?thesis by (fastforce simp: plain_addresses_def list_all_iff)
qed

lemma any_ssh:
  assumes "plain_addresses cfg"
  shows "\<not> permits (ssh_requests cfg routers) n ''any'' p t"
proof -
  let ?all = "map fst (node_ips cfg)"
  have "\<not> permits (map (\<lambda>g. request (filter (\<lambda>n. gateway_of cfg n = g) ?all) g 22 Tcp c) (fromkeys (map (gateway_of cfg) ?all)))
          n ''any'' p t" for c
    using plain_gateway [OF assms] by (subst permits_iff) fastforce
  then show ?thesis
    using plain_mesh [OF assms]
    by (auto simp: ssh_requests_def Let_def permits_Cons [of _ "concat _"] permits_concat never_any assms split: option.splits if_splits)
qed

lemma any_web:
  assumes "plain_addresses cfg" and "lan \<noteq> ''any''" and "permits (web_requests cfg lan ingress) n ''any'' p t"
  shows "expose_via_internet cfg \<and> n \<in> set ingress \<and> p \<in> {80, 443} \<and> t = Tcp"
proof (cases "expose_via_internet cfg")
  case True
  with assms(3) show ?thesis by (auto simp: web_requests_def web_sources_def)
next
  case False
  with assms(2,3) plain_mesh [OF assms(1)] show ?thesis by (simp add: web_requests_def web_sources_def)
qed

lemma any_listener_request:
  assumes "caddy \<noteq> ''any''" and "permits (listener_requests cfg caddy ingress im l) n ''any'' p t"
  shows "''any'' \<in> set (cl_sources l) \<and> n \<in> set (cl_targets l) \<and> p = cl_port l \<and> t = cl_protocol l"
  using assms by (auto simp: listener_requests_def permits_concat split: if_splits option.splits)

lemma any_catalog:
  assumes "plain_addresses cfg" and "caddy \<noteq> ''any''" and "lan \<noteq> ''any''" and "egress \<noteq> ''any''"
    and "catalog_requests pl cfg ms lan caddy egress ingress = Inr cs" and "permits cs n ''any'' p t"
  shows "expose_via_internet cfg \<and> declared_public pl cfg (Some ms) n p t"
proof -
  from assms(5) obtain on routes rss iss mss ls
    where rss: "each (route_requests cfg caddy ingress) routes = Inr rss"
      and iss: "each (integration_requests cfg ms (map manifest_name on)) on = Inr iss"
      and mss: "metrics_requests pl cfg ms egress on = Inr mss"
      and ls: "compile_network_listeners pl cfg ms lan = Inr ls"
      and cs: "cs = concat rss @ concat iss @ mss
            @ concat (map (listener_requests cfg caddy ingress (catalog_provider ms ''ingress'')) ls)"
    by (auto simp: catalog_requests_def elim!: then_do_InrE map_sum_InrE)
  have "\<not> permits (concat rss) n ''any'' p t"
    using each_concat_permits [OF rss] any_route [OF assms(1,2)] by metis
  moreover have "\<not> permits (concat iss) n ''any'' p t"
    using each_concat_permits [OF iss] any_integration [OF assms(1)] by metis
  ultimately obtain l where "l \<in> set ls" and "permits (listener_requests cfg caddy ingress (catalog_provider ms ''ingress'') l) n ''any'' p t"
    using assms(6) cs any_metrics [OF assms(1,4) mss] by (auto simp: permits_concat)
  with any_listener_request [OF assms(2)] any_listener [OF assms(1) ls _ _ _ assms(3)] show ?thesis by metis
qed

text \<open>The parts of the policy, with the addresses they are computed from.\<close>

lemma policy_requestsE:
  assumes "policy_requests pl cfg cat found = Inr rs"
  obtains caddy lan egress ingress routers cs pss
  where "provider_nodes pl cfg found ''ingress'' ''ingress'' = Inr ingress"
    and "(case found of None \<Rightarrow> Inr []
          | Some ms \<Rightarrow> catalog_requests pl cfg ms (show_network lan) (show_ipv4 caddy) (show_ipv4 egress) ingress) = Inr cs"
    and "each (project_requests cfg found (show_ipv4 caddy) ingress) (projects cfg) = Inr pss"
    and "rs = ssh_requests cfg routers @ web_requests cfg (show_network lan) ingress @ cs @ concat pss"
  using assms by (auto simp: policy_requests_def edge_network_values_def Let_def elim!: then_do_InrE map_sum_InrE)

text \<open>
  C32. Nothing is open to the internet beyond what is published.  When every configured address is an IPv4
  address, a machine accepts connections from anywhere only if publishing to the internet is switched on, and
  then only on ports 80 and 443 of the machines of the reverse proxy, or on a port for which an enabled service
  declares a listener with the source \<open>@internet\<close> on that machine.  The rules of routes, integrations, scrapes,
  projects and of SSH always name their sources.
\<close>

theorem internet_only_declared:
  assumes "build_guest_firewall_policy pl cfg cat found = Inr rules" and "plain_addresses cfg"
    and "provider_nodes pl cfg found ''ingress'' ''ingress'' = Inr ingress"
    and "permits rules node ''any'' port proto"
  shows "expose_via_internet cfg
    \<and> ((node \<in> set ingress \<and> port \<in> {80, 443} \<and> proto = Tcp) \<or> declared_public pl cfg found node port proto)"
proof -
  from policy_permits [OF assms(1)] assms(4) obtain rs where rs: "policy_requests pl cfg cat found = Inr rs"
    and "permits rs node ''any'' port proto" by metis
  moreover from rs obtain caddy lan egress routers cs pss
    where cs: "(case found of None \<Rightarrow> Inr []
          | Some ms \<Rightarrow> catalog_requests pl cfg ms (show_network lan) (show_ipv4 caddy) (show_ipv4 egress) ingress) = Inr cs"
      and pss: "each (project_requests cfg found (show_ipv4 caddy) ingress) (projects cfg) = Inr pss"
      and split: "rs = ssh_requests cfg routers @ web_requests cfg (show_network lan) ingress @ cs @ concat pss"
    by (rule policy_requestsE) (use assms(3) in auto)
  moreover from pss have "\<not> permits (concat pss) node ''any'' port proto"
    using each_concat_permits [OF pss] any_project [OF assms(2) shown_not_any(1)] by metis
  ultimately consider "permits (web_requests cfg (show_network lan) ingress) node ''any'' port proto"
    | ms where "found = Some ms" "permits cs node ''any'' port proto"
      "catalog_requests pl cfg ms (show_network lan) (show_ipv4 caddy) (show_ipv4 egress) ingress = Inr cs"
    using any_ssh [OF assms(2)] by (auto split: option.splits)
  then show ?thesis
    using any_web [OF assms(2) shown_not_any(2)] any_catalog [OF assms(2) shown_not_any(1,2,1)] by cases auto
qed

section \<open>Connections between machines\<close>

lemma enabled_manifests_mem:
  assumes "enabled_manifests pl cfg ms = Inr on" and "m \<in> set ms" and "manifest_on pl cfg ms m = Inr True"
  shows "m \<in> set on"
proof -
  from assms(1) obtain mss
    where mss: "each (\<lambda>m. then_do (manifest_on pl cfg ms m) (\<lambda>on. Inr (if on then [m] else []))) ms = Inr mss" and on: "on = concat mss"
    by (auto simp: enabled_manifests_def elim!: then_do_InrE)
  from mss assms(2) obtain ys where "ys \<in> set mss" and "then_do (manifest_on pl cfg ms m) (\<lambda>on. Inr (if on then [m] else [])) = Inr ys"
    by (rule each_to)
  with on assms(3) show ?thesis by force
qed

lemma source_nodes_owner:
  assumes "manifest_source_nodes cfg m = Inr sources" and "manifest_node cfg (planning_view m) = Inr n"
  shows "n \<in> set sources"
  using assms by (auto simp: manifest_source_nodes_def elim!: then_do_InrE)

text \<open>The rule that a consumer on another machine gets at its provider.\<close>

lemma provider_permits:
  assumes "provider_requests cfg ms sources (manifest_name p) = Inr rs" and "distinct (map manifest_name ms)" and "p \<in> set ms"
    and "manifest_node cfg (planning_view p) = Inr target" and "endpoint p = Some ep" and "published_port ep = Some port"
    and "s \<in> set sources" and "s \<noteq> target"
  shows "\<exists>a. map_of (node_ips cfg) s = Some a \<and> permits rs target a port Tcp"
proof -
  have "find (\<lambda>q. manifest_name q = manifest_name p) ms = Some p" using assms(2,3) by (rule find_named)
  with assms(1,4-6) have rs: "each (\<lambda>s. then_do (ip_of cfg s) (\<lambda>a.
      Inr (request [target] a port Tcp (s @ '' services to integration '' @ manifest_name p)))) (filter (\<lambda>s. s \<noteq> target) sources) = Inr rs"
    by (simp add: provider_requests_def)
  from assms(7,8) have "s \<in> set (filter (\<lambda>s. s \<noteq> target) sources)" by simp
  with rs obtain r where "r \<in> set rs"
    and "then_do (ip_of cfg s) (\<lambda>a. Inr (request [target] a port Tcp (s @ '' services to integration '' @ manifest_name p))) = Inr r"
    by (rule each_to)
  moreover from this(2) obtain a where "map_of (node_ips cfg) s = Some a" and "permits [r] target a port Tcp"
    by (auto simp: ip_of_def elim!: then_do_InrE split: option.splits)
  ultimately show ?thesis using permits_iff by blast
qed

text \<open>
  C33. Every address that the environment of a service holds can be reached.  In an accepted catalog on several
  machines, let an enabled service use an enabled provider, as an integration or as the keeper of its database, and let
  the two run on different machines.  Whenever the environment of the consumer gets an address and port of the provider,
  the rules of the provider's machine let the consumer's machine connect to that port.
\<close>

theorem integration_reachable:
  assumes "accepted tx pl' base discovered ms" and "catalog pl = map planning_view ms"
    and "build_guest_firewall_policy pl cfg cat (Some ms) = Inr rules"
    and "m \<in> set ms" and "manifest_on pl cfg ms m = Inr True" and "p \<in> set ms" and "manifest_on pl cfg ms p = Inr True"
    and "manifest_name p \<in> integration_service ` set (integrations m) \<union> binding_provider ` set (databases m)"
    and "is_multi_node cfg" and "service_node_map pl cfg (map planning_view ms) = Inr nodes"
    and "map_of nodes (manifest_name m) = Some consumer" and "map_of nodes (manifest_name p) = Some provider"
    and "consumer \<noteq> provider" and "service_endpoint_address cfg p nodes consumer = Inr (host, port)"
  shows "\<exists>source. map_of (node_ips cfg) consumer = Some source \<and> permits rules provider source port Tcp"
proof -
  have names: "distinct (map manifest_name ms)" using assms(1) by (rule accepted_names)
  from enabled_owner [OF assms(10) names assms(4)] assms(2,5,9,11)
  have m: "manifest_node cfg (planning_view m) = Inr consumer" by (force simp: manifest_on_def manifest_node_def)
  from enabled_owner [OF assms(10) names assms(6)] assms(2,7,9,12)
  have p: "manifest_node cfg (planning_view p) = Inr provider" by (force simp: manifest_on_def manifest_node_def)
  from assms(9,12-14) obtain ep where ep: "endpoint p = Some ep" "published_port ep = Some port"
    by (auto simp: service_endpoint_address_def split: option.splits if_splits)
  from policy_permits [OF assms(3)] obtain rs where rs: "policy_requests pl cfg cat (Some ms) = Inr rs"
    and permits: "\<And>n s p t. permits rules n s p t = permits rs n s p t" by metis
  from rs obtain lan caddy egress ingress cs as bs
    where cs: "catalog_requests pl cfg ms lan caddy egress ingress = Inr cs" and "rs = as @ cs @ bs"
    by (rule policy_requestsE) (simp, metis append.assoc)
  with permits have via: "permits cs n s p t \<Longrightarrow> permits rules n s p t" for n s p t by simp
  from cs obtain on iss where on: "enabled_manifests pl cfg ms = Inr on"
    and iss: "each (integration_requests cfg ms (map manifest_name on)) on = Inr iss"
    and sub: "\<And>n s p t. permits (concat iss) n s p t \<Longrightarrow> permits cs n s p t"
    by (auto simp: catalog_requests_def elim!: then_do_InrE map_sum_InrE)
  from each_to [OF iss enabled_manifests_mem [OF on assms(4,5)]] obtain is' where "is' \<in> set iss"
    and "integration_requests cfg ms (map manifest_name on) m = Inr is'" by metis
  then obtain sources rss where src: "manifest_source_nodes cfg m = Inr sources" and "concat rss \<in> set iss"
    and rss: "each (provider_requests cfg ms sources) (provider_names (map manifest_name on) m) = Inr rss"
    by (auto simp: integration_requests_def elim!: then_do_InrE map_sum_InrE)
  have "manifest_name p \<in> set (provider_names (map manifest_name on) m)"
    using assms(8) enabled_manifests_mem [OF on assms(6,7)] by (auto simp: provider_names_def)
  from each_to [OF rss this] obtain ps where "ps \<in> set rss" and "provider_requests cfg ms sources (manifest_name p) = Inr ps" by metis
  from provider_permits [OF this(2) names assms(6) p ep source_nodes_owner [OF src m] assms(13)]
  obtain a where "map_of (node_ips cfg) consumer = Some a" and "permits ps provider a port Tcp" by auto
  with via sub \<open>ps \<in> set rss\<close> \<open>concat rss \<in> set iss\<close> show ?thesis by (metis permits_concat)
qed

section \<open>A published database\<close>

text \<open>The application on the edge keeps its data in a database on the core, which publishes its port.\<close>

definition open_database :: full_manifest where
  "open_database = main_database\<lparr>endpoint := Some \<lparr>endpoint_service = [], container_port = 5432, published_port = Some 5432\<rparr>\<rparr>"

definition open_catalog :: "full_manifest list" where
  "open_catalog = [edge_proxy, (empty_manifest ''mesh'' ''core'' [])\<lparr>provides := [''mesh-router'']\<rparr>, open_database, far_app]"

definition open_config :: config where
  "open_config = roomy\<lparr>machines :=
       [(''edge'', wide_machine\<lparr>address := ''10.0.0.3'', machine_labels := [''edge'']\<rparr>),
        (''core'', wide_machine\<lparr>machine_labels := [''core'', ''control'']\<rparr>)],
     expose_via_internet := True\<rparr>"

abbreviation open_plugins :: plugins where
  "open_plugins \<equiv> small_plugins open_catalog"

lemma open_accepted: "accepted rendering open_plugins two_machines small_categories open_catalog"
  unfolding accepted_def by code_simp

lemma open_texts: "parse_ipv4 ''10.0.0.3'' = Some (quad 10 0 0 3)" "parse_ipv4 ''10.0.0.254'' = Some (quad 10 0 0 254)"
proof -
  have "map octet (split_on (CHR ''.'') ''10.0.0.3'') = [Some 10, Some 0, Some 0, Some 3]"
    "map octet (split_on (CHR ''.'') ''10.0.0.254'') = [Some 10, Some 0, Some 0, Some 254]" by code_simp+
  then show "parse_ipv4 ''10.0.0.3'' = Some (quad 10 0 0 3)" "parse_ipv4 ''10.0.0.254'' = Some (quad 10 0 0 254)"
    by (simp_all add: parse_ipv4_def)
qed

lemma open_plain: "plain_addresses open_config"
  by (simp add: plain_addresses_def open_config_def wide_config_def wide_machine_def open_texts network_texts)

lemma open_overlaps:
  "\<not> overlaps (net 172 31 250 0 24) (net 10 0 0 0 8)" "\<not> overlaps (net 172 31 250 0 24) (net 192 168 0 0 16)"
  "\<not> overlaps (net 172 31 249 0 24) (net 10 0 0 0 8)" "\<not> overlaps (net 172 31 249 0 24) (net 192 168 0 0 16)"
  "\<not> overlaps (net 172 31 249 0 24) (net 172 31 250 0 24)"
  by (subst overlaps_div, simp_all add: block_view)+

lemma open_networks:
  defines "router \<equiv> map_option planning_view (catalog_provider open_catalog ''mesh-router'')"
  shows "mesh_lan open_config router = Inr (net 10 0 0 0 8)"
    and "edge_network open_config router = Inr (net 172 31 250 0 24)"
    and "prometheus_egress_network open_config router = Inr (net 172 31 249 0 24)"
proof -
  have "case router of None \<Rightarrow> False | Some m \<Rightarrow> manifest_node open_config m = Inr ''core''" unfolding router_def by code_simp
  moreover have "machine_network (wide_machine\<lparr>machine_labels := ls\<rparr>) = machine_network wide_machine" for ls
    by (simp add: machine_network_def)
  ultimately show lan: "mesh_lan open_config router = Inr (net 10 0 0 0 8)"
    using wide_network by (auto simp: mesh_lan_def open_config_def wide_config_def split: option.splits)
  have pool: "container_pool open_config = Inr (net 192 168 0 0 16)"
    by (simp add: container_pool_def open_config_def wide_config_def roomy_pool)
  from lan pool show edge: "edge_network open_config router = Inr (net 172 31 250 0 24)"
    using open_overlaps by (simp add: edge_network_def first_free_def)
  from lan pool edge show "prometheus_egress_network open_config router = Inr (net 172 31 249 0 24)"
    using open_overlaps by (simp add: prometheus_egress_network_def first_free_def)
qed

lemma open_catalog_requests: "\<not> isl (catalog_requests open_plugins open_config open_catalog lan caddy egress [''edge''])"
  by code_simp

lemma open_policy:
  obtains rules where "build_guest_firewall_policy open_plugins open_config open_catalog (Some open_catalog) = Inr rules"
    and "permits rules ''edge'' ''any'' 443 Tcp"
proof -
  have facts: "provider_nodes open_plugins open_config (Some open_catalog) ''ingress'' ''ingress'' = Inr [''edge'']"
    "provider_nodes open_plugins open_config (Some open_catalog) ''mesh-router'' ''control'' = Inr [''core'']"
    "projects open_config = []" "expose_via_internet open_config" by code_simp+
  obtain cs where cs: "catalog_requests open_plugins open_config open_catalog (show_network (net 10 0 0 0 8))
      (show_ipv4 (net_address (net 172 31 250 0 24) + 2)) (show_ipv4 (net_address (net 172 31 249 0 24) + 2)) [''edge''] = Inr cs"
    using open_catalog_requests by (metis isl_def sum.exhaust)
  then obtain rs where "policy_requests open_plugins open_config open_catalog (Some open_catalog) = Inr rs"
    and "permits rs ''edge'' ''any'' 443 Tcp"
    by (simp add: policy_requests_def edge_network_values_def open_networks facts Let_def web_requests_def web_sources_def
      permits_Cons [of _ cs])
  with that show thesis by (simp add: build_guest_firewall_policy_def add_rules_permits)
qed

theorem internet_only_declared_witness:
  "\<exists>rules. build_guest_firewall_policy open_plugins open_config open_catalog (Some open_catalog) = Inr rules
     \<and> permits rules ''edge'' ''any'' 443 Tcp \<and> expose_via_internet open_config"
proof -
  obtain rules where rules: "build_guest_firewall_policy open_plugins open_config open_catalog (Some open_catalog) = Inr rules"
    and any: "permits rules ''edge'' ''any'' 443 Tcp" by (rule open_policy)
  have "provider_nodes open_plugins open_config (Some open_catalog) ''ingress'' ''ingress'' = Inr [''edge'']" by code_simp
  from internet_only_declared [OF rules open_plain this any] rules any show ?thesis by blast
qed

theorem integration_reachable_witness:
  "\<exists>rules. build_guest_firewall_policy open_plugins open_config open_catalog (Some open_catalog) = Inr rules
     \<and> permits rules ''core'' ''10.0.0.3'' 5432 Tcp"
proof -
  let ?nodes = "[(''proxy'', ''edge''), (''mesh'', ''core''), (''db'', ''core''), (''app'', ''edge'')]"
  obtain rules where rules: "build_guest_firewall_policy open_plugins open_config open_catalog (Some open_catalog) = Inr rules"
    by (rule open_policy)
  have facts: "far_app \<in> set open_catalog" "manifest_on open_plugins open_config open_catalog far_app = Inr True"
    "open_database \<in> set open_catalog" "manifest_on open_plugins open_config open_catalog open_database = Inr True"
    "manifest_name open_database \<in> integration_service ` set (integrations far_app) \<union> binding_provider ` set (databases far_app)"
    "is_multi_node open_config" "service_node_map open_plugins open_config (map planning_view open_catalog) = Inr ?nodes"
    "map_of ?nodes (manifest_name far_app) = Some ''edge''" "map_of ?nodes (manifest_name open_database) = Some ''core''"
    "service_endpoint_address open_config open_database ?nodes ''edge'' = Inr (''10.0.0.1'', 5432)"
    "map_of (node_ips open_config) ''edge'' = Some ''10.0.0.3''" "catalog open_plugins = map planning_view open_catalog" by code_simp+
  from integration_reachable [OF open_accepted facts(12) rules facts(1-9) _ facts(10)] facts(11) rules show ?thesis by auto
qed

end
