(* ===== verification/Project_Compose.thy ===== *)
theory Project_Compose
  imports Manifest_Variables Placement
begin

text \<open>
  The projects of the desired state as Compose services: \<open>core/projects/secrets.py\<close>, \<open>core/projects/database.py\<close>
  and \<open>core/projects/compose.py\<close>.  \<open>cat\<close> is the process-wide catalog, \<open>pl\<close> the plugins built from it.
\<close>

datatype project_error =
    Project_config config_error
  | Invalid_subdomain string
  | Incomplete_provider string
  | Unpublished_provider string

section \<open>Names\<close>

definition valid_subdomain :: "string \<Rightarrow> bool" where
  "valid_subdomain s \<longleftrightarrow>
     s \<noteq> [] \<and> length s \<le> 55 \<and> list_all (\<lambda>c. is_lower c \<or> is_digit c \<or> c = CHR ''-'') s
     \<and> hd s \<noteq> CHR ''-'' \<and> last s \<noteq> CHR ''-''"

text \<open>\<open>str.upper\<close> and \<open>replace('-', '_')\<close> on the characters of a subdomain.\<close>

definition secret_char :: "char \<Rightarrow> char" where
  "secret_char c = (if is_lower c then char_of (code c - 32) else if c = CHR ''-'' then CHR ''_'' else c)"

definition project_database_secret_name :: "string \<Rightarrow> project_error + string" where
  "project_database_secret_name sub =
     (if valid_subdomain sub then Inr (map secret_char sub @ ''_POSTGRES_PASSWORD'') else Inl (Invalid_subdomain sub))"

definition identifier_char :: "char \<Rightarrow> char" where
  "identifier_char c = (if is_lower c \<or> is_digit c \<or> c = CHR ''_'' then c else CHR ''_'')"

definition sanitize_postgres_identifier :: "string \<Rightarrow> string" where
  "sanitize_postgres_identifier value =
     (let cleaned = map identifier_char (lower value);
          named = (if cleaned \<noteq> [] \<and> is_digit (hd cleaned) then ''prj_'' @ cleaned else cleaned);
          short = take 63 named
      in if short = [] then ''prj'' else short)"

definition project_postgres_user :: "project_entry \<Rightarrow> string" where
  "project_postgres_user p = sanitize_postgres_identifier (project_subdomain p)"

definition project_postgres_database :: "project_entry \<Rightarrow> string" where
  "project_postgres_database p = sanitize_postgres_identifier (project_subdomain p)"

section \<open>Providers\<close>

definition project_database_env_pairs :: "config \<Rightarrow> string \<Rightarrow> project_error + (string \<times> string) list" where
  "project_database_env_pairs cfg service =
     each (\<lambda>p. then_do (project_database_secret_name (project_subdomain p)) (\<lambda>n. Inr (project_postgres_user p, n)))
       (filter (\<lambda>p. project_database p = service) (projects cfg))"

definition project_database_providers ::
  "plugins \<Rightarrow> config \<Rightarrow> full_manifest list \<Rightarrow> config_error + full_manifest list"
where
  "project_database_providers pl cfg cat =
     then_do (each (\<lambda>m. if database_provider m = None then Inr []
                        else then_do (service_is_enabled pl cfg (planning_view m) (map planning_view cat)) (\<lambda>on.
                          Inr (if on then [m] else []))) cat) (\<lambda>mss. Inr (concat mss))"

definition project_database_provider ::
  "full_manifest list \<Rightarrow> project_entry \<Rightarrow> config_error + full_manifest option"
where
  "project_database_provider cat p =
     (if project_database p = [] then Inr None
      else (case find (\<lambda>m. manifest_name m = project_database p) cat of
              None \<Rightarrow> Inl (Unknown_name (project_database p)) | Some m \<Rightarrow> Inr (Some m)))"

definition project_database_nodes :: "config \<Rightarrow> full_manifest list \<Rightarrow> project_entry \<Rightarrow> config_error + string list" where
  "project_database_nodes cfg cat p =
     then_do (project_database_provider cat p) (\<lambda>provider.
       case provider of
         None \<Rightarrow> Inr []
       | Some m \<Rightarrow>
           then_do (project_node cfg p) (\<lambda>here.
           then_do (manifest_node cfg (planning_view m)) (\<lambda>there. Inr (fromkeys [here, there]))))"

section \<open>Services\<close>

definition compose_name :: "full_manifest \<Rightarrow> service_endpoint \<Rightarrow> string" where
  "compose_name m ep = (if endpoint_service ep \<noteq> [] then endpoint_service ep else manifest_name m)"

definition text_dict :: "(string \<times> string) list \<Rightarrow> pyval" where
  "text_dict kvs = PDict (map (\<lambda>(k, v). (KStr k, PStr v)) kvs)"

definition database_environment ::
  "plugins \<Rightarrow> config \<Rightarrow> full_manifest list \<Rightarrow> project_entry \<Rightarrow> project_error + (string \<times> string) list"
where
  "database_environment pl cfg cat p =
     then_do (map_sum Project_config id (project_database_provider cat p)) (\<lambda>provider.
       case provider of
         None \<Rightarrow> Inr []
       | Some m \<Rightarrow>
           (case (database_provider m, endpoint m) of
              (Some contract, Some ep) \<Rightarrow>
                then_do (project_database_secret_name (project_subdomain p)) (\<lambda>secret.
                then_do (map_sum Project_config id (project_node cfg p)) (\<lambda>node.
                then_do (map_sum Project_config id (service_is_local pl cfg node (manifest_name m))) (\<lambda>local.
                  if \<not> local \<and> published_port ep = None then Inl (Unpublished_provider (manifest_name m))
                  else then_do (if local then Inr (compose_name m ep)
                                else map_sum Project_config id (service_address pl cfg (manifest_name m))) (\<lambda>host.
                    Inr [(''POSTGRES_DB'', project_postgres_database p),
                         (''POSTGRES_HOST'', host),
                         (''POSTGRES_PASSWORD'', ''${'' @ secret @ ''}''),
                         (''POSTGRES_PORT'', show_int (if local then container_port ep else the (published_port ep))),
                         (''POSTGRES_USER'', project_postgres_user p)]))))
            | _ \<Rightarrow> Inl (Incomplete_provider (manifest_name m))))"

definition project_block :: "project_entry \<Rightarrow> string \<Rightarrow> document" where
  "project_block p node =
     [(KStr ''image'', PStr (project_image p)),
      (KStr ''container_name'', PStr (project_subdomain p)),
      (KStr ''profiles'', PList [PStr (project_service_name p)]),
      (KStr ''restart'', PStr ''unless-stopped''),
      (KStr ''init'', PBool True),
      (KStr ''read_only'', PBool (project_read_only p)),
      (KStr ''cap_drop'', PList [PStr ''ALL'']),
      (KStr ''security_opt'', PList [PStr ''no-new-privileges:true'']),
      (KStr ''tmpfs'', PList [PStr ''/tmp:rw,noexec,nosuid,size=64m'']),
      (KStr ''ports'', PList [PDict
        [(KStr ''target'', PInt (project_port p)), (KStr ''published'', PInt (project_port p)),
         (KStr ''host_ip'', PStr ''${PRIVATE_IP:-127.0.0.1}''), (KStr ''protocol'', PStr ''tcp'')]]),
      (KStr ''labels'', text_dict
        [(''io.homelab.managed'', ''true''), (''io.homelab.project'', project_subdomain p),
         (''io.homelab.project.health-path'', project_health p), (''io.homelab.project.node'', node),
         (''homelab.watchdog.restart-policy'', ''safe'')]),
      (KStr ''logging'', PDict
        [(KStr ''driver'', PStr ''json-file''),
         (KStr ''options'', text_dict [(''max-size'', ''10m''), (''max-file'', ''3'')])]),
      (KStr ''mem_limit'', PStr ''512m''),
      (KStr ''cpus'', PFloat (Finite 1 0)),
      (KStr ''pids_limit'', PInt 256)]"

text \<open>
  With an environment the service also waits for a database on its own machine.  The second look at the provider
  reads the same catalog, so that its contract is the one of the first.
\<close>

definition project_service :: "plugins \<Rightarrow> config \<Rightarrow> full_manifest list \<Rightarrow> project_entry \<Rightarrow> project_error + document" where
  "project_service pl cfg cat p =
     then_do (map_sum Project_config id (project_node cfg p)) (\<lambda>node.
     then_do (database_environment pl cfg cat p) (\<lambda>env.
       if env = [] then Inr (project_block p node)
       else (let service = project_block p node @ [(KStr ''environment'', text_dict env)]
             in then_do (map_sum Project_config id (project_database_provider cat p)) (\<lambda>provider.
                case provider of
                  None \<Rightarrow> Inl (Incomplete_provider (project_database p))
                | Some m \<Rightarrow>
                    (case (database_provider m, endpoint m) of
                       (Some contract, Some ep) \<Rightarrow>
                         Inr (if map_of env ''POSTGRES_HOST'' = Some (compose_name m ep)
                              then service @ [(KStr ''depends_on'', PDict [(KStr (compose_name m ep),
                                     PDict [(KStr ''condition'', PStr ''service_healthy'')])])]
                              else service)
                     | _ \<Rightarrow> Inl (Incomplete_provider (project_database p)))))))"

text \<open>A dictionary comprehension over the projects sorted by subdomain: a later project replaces an earlier one of its name.\<close>

definition project_compose_document ::
  "plugins \<Rightarrow> config \<Rightarrow> full_manifest list \<Rightarrow> project_error + (string \<times> document) list"
where
  "project_compose_document pl cfg cat =
     then_do (each (\<lambda>p. then_do (project_service pl cfg cat p) (\<lambda>s. Inr (project_service_name p, s)))
       (sort_key project_subdomain (projects cfg))) (\<lambda>kvs. Inr (fold (\<lambda>(k, v). dict_set k v) kvs []))"

end
