(* ===== verification/Compose_Assembly.thy ===== *)
theory Compose_Assembly
  imports Project_Compose Network_Plan Service_Catalog
begin

text \<open>
  \<open>core/generate/compose_assemble.py\<close> for a configured installation: the Compose model of the whole installation, and
  the part of it that one machine runs.  \<open>ms\<close> is the catalog of the root directory, \<open>cat\<close> the process-wide one that
  \<open>pl\<close> was built from.  A Compose file is its decoded value, None when it cannot be read or decoded; the list of the
  files is in the order of their paths.  Within one file every block is a value of its own: two blocks that share a
  part through a YAML alias are not modelled.  The digests of a name are the arguments \<open>digest\<close>, its first ten hexadecimal
  digits, and \<open>name_hash\<close>.  The table of owners that \<open>_merge_section\<close> keeps for its messages is left out.
\<close>

datatype compose_error =
    Compose_config config_error
  | Compose_network network_error
  | Compose_project project_error
  | Invalid_source string
  | No_services string
  | Unsupported_keys string
  | Platform_services
  | No_applications
  | Section_not_mapping string string
  | Bad_resource_name string string
  | Duplicate_resource string string
  | Block_not_mapping string string
  | Bad_service_networks
  | No_ingress
  | Oidc_runtime string string
  | Oidc_no_runtime string
  | Unknown_images "string list"
  | Unhashable_dependency string
  | Omitted_service string string string
  | Bad_volumes string
  | Unknown_runtimes string "string list"
  | Role_disabled string

record compose_source =
  source_name :: string
  source_value :: "pyval option"

record compose_model =
  model_services :: "(string \<times> document) list"
  model_networks :: "(string \<times> pyval) list"
  model_volumes :: "(string \<times> pyval) list"
  model_configs :: "(string \<times> pyval) list"
  model_secrets :: "(string \<times> pyval) list"

type_synonym named_services = "(string \<times> document) list"
type_synonym named_values = "(string \<times> pyval) list"

section \<open>Sources and sections\<close>

definition sections :: "string list" where
  "sections = [''services'', ''networks'', ''volumes'', ''configs'', ''secrets'']"

fun is_dict :: "pyval \<Rightarrow> bool" where
  "is_dict (PDict d) = True"
| "is_dict _ = False"

definition load_mapping :: "bool \<Rightarrow> compose_source \<Rightarrow> compose_error + document" where
  "load_mapping require_services src =
     (case source_value src of
        Some (PDict d) \<Rightarrow>
          if require_services \<and> \<not> is_dict (dict_get_or ''services'' PNone d) then Inl (No_services (source_name src))
          else if list_ex (\<lambda>(k, v). case k of KStr s \<Rightarrow> s \<notin> set sections | KOther \<Rightarrow> True) d
          then Inl (Unsupported_keys (source_name src))
          else Inr d
      | _ \<Rightarrow> Inl (Invalid_source (source_name src)))"

fun merge_blocks :: "string \<Rightarrow> string \<Rightarrow> document \<Rightarrow> named_values \<Rightarrow> compose_error + named_values" where
  "merge_blocks section source [] dest = Inr dest"
| "merge_blocks section source ((key, block) # blocks) dest =
     (case key of
        KOther \<Rightarrow> Inl (Bad_resource_name source section)
      | KStr name \<Rightarrow>
          if name = [] then Inl (Bad_resource_name source section)
          else if name \<in> fst ` set dest then Inl (Duplicate_resource section name)
          else if section = ''services'' \<and> \<not> is_dict block then Inl (Block_not_mapping section name)
          else if block \<noteq> PNone \<and> \<not> is_dict block then Inl (Block_not_mapping section name)
          else merge_blocks section source blocks (dest @ [(name, block)]))"

definition merge_section :: "string \<Rightarrow> string \<Rightarrow> pyval \<Rightarrow> named_values \<Rightarrow> compose_error + named_values" where
  "merge_section section source incoming dest =
     (case incoming of
        PNone \<Rightarrow> Inr dest
      | PDict d \<Rightarrow> merge_blocks section source d dest
      | _ \<Rightarrow> Inl (Section_not_mapping source section))"

section \<open>Networks\<close>

definition network_key :: "(string \<Rightarrow> string) \<Rightarrow> string \<Rightarrow> string list \<Rightarrow> string" where
  "network_key digest pre owners =
     (let v = join ''-'' (pre # owners) in if length v \<le> 63 then v else take 52 v @ ''-'' @ digest v)"

text \<open>\<open>_attach_network\<close>; in this file no caller gives a definition.\<close>

definition attach_network :: "string \<Rightarrow> document \<Rightarrow> compose_error + document" where
  "attach_network bridge service =
     (if truthy (dict_get_or ''network_mode'' PNone service) then Inr service
      else (case dict_get_or ''networks'' PNone service of
              PNone \<Rightarrow> Inr (dict_set (KStr ''networks'') (PList [PStr bridge]) service)
            | PList xs \<Rightarrow> Inr (dict_set (KStr ''networks'') (PList (if PStr bridge \<in> set xs then xs else xs @ [PStr bridge])) service)
            | PDict d \<Rightarrow> Inr (dict_set (KStr ''networks'')
                (PDict (if KStr bridge \<in> fst ` set d then d else d @ [(KStr bridge, PNone)])) service)
            | _ \<Rightarrow> Inl Bad_service_networks))"

definition attach_to :: "string \<Rightarrow> string \<Rightarrow> named_services \<Rightarrow> compose_error + named_services" where
  "attach_to bridge name services =
     (case map_of services name of
        None \<Rightarrow> Inl (Compose_config (Unknown_name name))
      | Some s \<Rightarrow> then_do (attach_network bridge s) (\<lambda>s'. Inr (dict_set name s' services)))"

definition set_default :: "'k \<Rightarrow> 'v \<Rightarrow> ('k \<times> 'v) list \<Rightarrow> ('k \<times> 'v) list" where
  "set_default k v kvs = (if k \<in> fst ` set kvs then kvs else kvs @ [(k, v)])"

definition owned_services :: "(string \<times> string) list \<Rightarrow> named_services \<Rightarrow> string \<Rightarrow> string list" where
  "owned_services owners services owner =
     sort (map fst (filter (\<lambda>(s, o'). o' = owner \<and> s \<in> fst ` set services) owners))"

fun attach_plugin ::
  "(string \<Rightarrow> string) \<Rightarrow> string \<times> string \<Rightarrow> named_services \<times> named_values \<Rightarrow> compose_error + named_services \<times> named_values"
where
  "attach_plugin digest (name, owner) (services, nets) =
     (if name \<notin> fst ` set services \<or> owner \<in> {''caddy'', ''prometheus''} then Inr (services, nets)
      else (let bridge = network_key digest ''plugin'' [owner]
            in then_do (attach_to bridge name services) (\<lambda>services.
                 Inr (services, set_default bridge (PDict [(KStr ''driver'', PStr ''bridge'')]) nets))))"

text \<open>The network of two owners, and every service of both on it.\<close>

definition link_owners ::
  "(string \<Rightarrow> string) \<Rightarrow> (string \<times> string) list \<Rightarrow> string list \<Rightarrow> string \<Rightarrow> named_services \<times> named_values
     \<Rightarrow> compose_error + named_services \<times> named_values"
where
  "link_owners digest owners pair bridge st =
     (case st of (services, nets) \<Rightarrow>
        then_do (try_fold (attach_to bridge) (concat (map (owned_services owners services) pair)) services) (\<lambda>services.
          Inr (services, set_default bridge (PDict [(KStr ''driver'', PStr ''bridge''), (KStr ''internal'', PBool True)]) nets)))"

fun attach_link ::
  "(string \<Rightarrow> string) \<Rightarrow> config \<Rightarrow> full_manifest list \<Rightarrow> (string \<times> string) list \<Rightarrow> string \<times> string
     \<Rightarrow> named_services \<times> named_values \<Rightarrow> compose_error + named_services \<times> named_values"
where
  "attach_link digest cfg on owners (l, r) st =
     (case (find (\<lambda>m. manifest_name m = l) on, find (\<lambda>m. manifest_name m = r) on) of
        (Some left, Some right) \<Rightarrow>
          if l = r \<or> ''caddy'' \<in> {l, r} then Inr st
          else then_do (map_sum Compose_config id (manifest_node cfg (planning_view left))) (\<lambda>a.
               then_do (map_sum Compose_config id (manifest_node cfg (planning_view right))) (\<lambda>b.
                 if a \<noteq> b then Inr st
                 else link_owners digest owners (sort [l, r]) (network_key digest ''link'' (sort [l, r])) st))
      | _ \<Rightarrow> Inr st)"

definition manifest_links :: "full_manifest \<Rightarrow> (string \<times> string) list" where
  "manifest_links m =
     map (Pair (manifest_name m))
       (manifest_depends_on m @ map integration_service (integrations m) @ map binding_provider (databases m)
        @ (if oidc m = None then [] else [''authelia'']))"

definition dependency_names :: "py_texts \<Rightarrow> document \<Rightarrow> string list" where
  "dependency_names tx service =
     (case dict_get_or ''depends_on'' PNone service of
        PList xs \<Rightarrow> map (py_str tx) xs
      | PDict d \<Rightarrow> map (key_str tx \<circ> fst) d
      | _ \<Rightarrow> [])"

definition service_links :: "py_texts \<Rightarrow> (string \<times> string) list \<Rightarrow> string \<times> document \<Rightarrow> (string \<times> string) list" where
  "service_links tx owners ns =
     (case ns of (name, service) \<Rightarrow>
        (case map_of owners name of
           None \<Rightarrow> []
         | Some owner \<Rightarrow>
             if owner = ''caddy'' then []
             else concat (map (\<lambda>d. case map_of owners d of None \<Rightarrow> [] | Some o' \<Rightarrow> [(owner, o')]) (dependency_names tx service))))"

definition link_project ::
  "(string \<Rightarrow> string) \<Rightarrow> config \<Rightarrow> full_manifest list \<Rightarrow> (string \<times> string) list \<Rightarrow> project_entry
     \<Rightarrow> named_services \<times> named_values \<Rightarrow> compose_error + named_services \<times> named_values"
where
  "link_project digest cfg cat owners project st =
     (let owner = project_service_name project
      in then_do (map_sum Compose_config id (project_database_provider cat project)) (\<lambda>provider.
         case provider of
           None \<Rightarrow> Inr st
         | Some p \<Rightarrow>
             if owned_services owners (fst st) owner = [] \<or> owned_services owners (fst st) (manifest_name p) = [] then Inr st
             else then_do (map_sum Compose_config id (project_node cfg project)) (\<lambda>a.
                  then_do (map_sum Compose_config id (manifest_node cfg (planning_view p))) (\<lambda>b.
                    if a \<noteq> b then Inr st
                    else link_owners digest owners [owner, manifest_name p]
                           (network_key digest ''link'' (sort [owner, manifest_name p])) st))))"

text \<open>The enabled manifests that own a service of the model.\<close>

definition linked_manifests ::
  "plugins \<Rightarrow> config \<Rightarrow> full_manifest list \<Rightarrow> (string \<times> string) list \<Rightarrow> named_services \<Rightarrow> compose_error + full_manifest list"
where
  "linked_manifests pl cfg ms owners services =
     then_do (each (\<lambda>m. then_do (map_sum Compose_config id (service_is_enabled pl cfg (planning_view m) (map planning_view ms))) (\<lambda>on.
         Inr (if on \<and> owned_services owners services (manifest_name m) \<noteq> [] then [m] else []))) ms) (\<lambda>mss. Inr (concat mss))"

text \<open>\<open>_compile_service_networks\<close> before the addresses are given out.\<close>

definition link_services ::
  "(string \<Rightarrow> string) \<Rightarrow> py_texts \<Rightarrow> plugins \<Rightarrow> config \<Rightarrow> full_manifest list \<Rightarrow> full_manifest list
     \<Rightarrow> (string \<times> string) list \<Rightarrow> named_services \<times> named_values \<Rightarrow> compose_error + named_services \<times> named_values"
where
  "link_services digest tx pl cfg ms cat owners st =
     then_do (try_fold (attach_plugin digest) owners st) (\<lambda>st.
     then_do (linked_manifests pl cfg ms owners (fst st)) (\<lambda>on.
     then_do (try_fold (attach_link digest cfg on owners)
       (concat (map manifest_links on) @ concat (map (service_links tx owners) (fst st))) st)
     (try_fold (link_project digest cfg cat owners) (projects cfg))))"

definition compile_service_networks ::
  "(string \<Rightarrow> string) \<Rightarrow> (string \<Rightarrow> nat) \<Rightarrow> py_texts \<Rightarrow> plugins \<Rightarrow> config \<Rightarrow> full_manifest list \<Rightarrow> full_manifest list
     \<Rightarrow> (string \<times> string) list \<Rightarrow> named_services \<times> named_values \<Rightarrow> (compose_error + named_services \<times> named_values) option"
where
  "compile_service_networks digest name_hash tx pl cfg ms cat owners st =
     (case link_services digest tx pl cfg ms cat owners st of
        Inl e \<Rightarrow> Some (Inl e)
      | Inr (services, nets) \<Rightarrow>
          map_option (\<lambda>r. map_sum Compose_network (\<lambda>(nets, plan). (services, nets)) r) (assign_network_subnets name_hash cfg nets))"

end
