(* ===== verification/Compose_Models.thy ===== *)
theory Compose_Models
  imports Compose_Assembly
begin

text \<open>
  The second half of \<open>core/generate/compose_assemble.py\<close>: the private issuer address, the assembly of the model of the
  whole installation, the pins of the active release, and the model of one machine.  A section of \<open>compose_model\<close> that is
  empty is left out of the written document; the constant name of the project and the rendering as YAML are not modelled.
\<close>

section \<open>The address of the issuer\<close>

definition issuer_hosts :: "string \<Rightarrow> string \<Rightarrow> string \<Rightarrow> string \<Rightarrow> pyval \<Rightarrow> compose_error + pyval" where
  "issuer_hosts service_name hostname addr runtime_name extra_hosts =
     (case extra_hosts of
        PNone \<Rightarrow> Inr (PDict [(KStr hostname, PStr addr)])
      | PDict d \<Rightarrow>
          if dict_get_or hostname PNone d \<noteq> PNone \<and> dict_get_or hostname PNone d \<noteq> PStr addr
          then Inl (Oidc_runtime service_name runtime_name)
          else Inr (PDict (dict_set (KStr hostname) (PStr addr) d))
      | PList xs \<Rightarrow>
          (let matching = filter (\<lambda>e. case e of
               PStr t \<Rightarrow> takeWhile (\<lambda>c. c \<noteq> CHR ''='' \<and> c \<noteq> CHR '':'') t = hostname | _ \<Rightarrow> False) xs
           in if matching = [] then Inr (PList (xs @ [PStr (hostname @ ''='' @ addr)]))
              else if matching \<noteq> [PStr (hostname @ ''='' @ addr)] \<and> matching \<noteq> [PStr (hostname @ '':'' @ addr)]
              then Inl (Oidc_runtime service_name runtime_name)
              else Inr (PList xs))
      | _ \<Rightarrow> Inl (Oidc_runtime service_name runtime_name))"

text \<open>
  One runtime of the application; the set of the routed runtimes is visited in the order of the routes.
\<close>

definition inject_runtime :: "string \<Rightarrow> string \<Rightarrow> string \<Rightarrow> string \<Rightarrow> document \<Rightarrow> compose_error + document" where
  "inject_runtime service_name hostname addr runtime_name services =
     (case dict_get runtime_name services of
        Some (PDict runtime) \<Rightarrow>
          then_do (issuer_hosts service_name hostname addr runtime_name (dict_get_or ''extra_hosts'' PNone runtime)) (\<lambda>hosts.
            Inr (dict_set (KStr runtime_name) (PDict (dict_set (KStr ''extra_hosts'') hosts runtime)) services))
      | _ \<Rightarrow> Inl (Oidc_runtime service_name runtime_name))"

definition inject_oidc_split_dns ::
  "config \<Rightarrow> full_manifest list \<Rightarrow> string \<Rightarrow> string list \<Rightarrow> document \<Rightarrow> compose_error + document"
where
  "inject_oidc_split_dns cfg ms service_name runtime_names services =
     (if domain cfg = ''localhost'' then Inr services
      else (case catalog_provider ms ''ingress'' of
              None \<Rightarrow> Inl No_ingress
            | Some ingress \<Rightarrow>
                then_do (map_sum Compose_config id
                  (then_do (manifest_node cfg (planning_view ingress)) (node_ip cfg))) (\<lambda>addr.
                  try_fold (inject_runtime service_name (''auth.'' @ domain cfg) addr) runtime_names services)))"

definition routed_runtimes :: "full_manifest \<Rightarrow> string list" where
  "routed_runtimes m =
     fromkeys (map (\<lambda>r. if compose_service r \<noteq> [] then compose_service r else fst (partition_at (CHR '':'') (upstream r)))
       (filter (\<lambda>r. compose_service r \<noteq> [] \<or> upstream r \<noteq> []) (routes m)))"

definition prepare_services :: "config \<Rightarrow> full_manifest list \<Rightarrow> full_manifest \<Rightarrow> document \<Rightarrow> compose_error + document" where
  "prepare_services cfg ms m services =
     (if oidc m = None then Inr services
      else (let names = filter (\<lambda>n. dict_get n services \<noteq> None) (routed_runtimes m)
            in if names = [] then Inl (Oidc_no_runtime (manifest_name m))
               else inject_oidc_split_dns cfg ms (manifest_name m) names services))"

section \<open>The model of the installation\<close>

type_synonym merged = "string \<Rightarrow> named_values"

definition merge_all :: "string \<Rightarrow> (string \<Rightarrow> pyval) \<Rightarrow> string list \<Rightarrow> merged \<Rightarrow> compose_error + merged" where
  "merge_all source part names m =
     try_fold (\<lambda>s m. then_do (merge_section s source (part s) (m s)) (\<lambda>vs. Inr (m(s := vs)))) names m"

definition text_keys :: "document \<Rightarrow> string list" where
  "text_keys d = concat (map (\<lambda>(k, v). case k of KStr s \<Rightarrow> [s] | KOther \<Rightarrow> []) d)"

text \<open>Keys that are no text reach no model: merging refuses them.\<close>

definition merge_application ::
  "plugins \<Rightarrow> config \<Rightarrow> full_manifest list \<Rightarrow> compose_source \<Rightarrow> merged \<times> (string \<times> string) list
     \<Rightarrow> compose_error + merged \<times> (string \<times> string) list"
where
  "merge_application pl cfg ms src st =
     (case find (\<lambda>m. manifest_name m = source_name src) ms of
        None \<Rightarrow> Inl (Compose_config (Unknown_name (source_name src)))
      | Some m \<Rightarrow>
          then_do (map_sum Compose_config id (service_is_enabled pl cfg (planning_view m) (map planning_view ms))) (\<lambda>on.
            if \<not> on then Inr st
            else then_do (load_mapping True src) (\<lambda>d.
              case dict_get_or ''services'' PNone d of
                PDict services \<Rightarrow>
                  if services = [] then Inl (No_services (source_name src))
                  else then_do (prepare_services cfg ms m services) (\<lambda>services.
                       then_do (merge_all (source_name src)
                         (\<lambda>s. if s = ''services'' then PDict services else dict_get_or s PNone d) sections (fst st)) (\<lambda>merged.
                         Inr (merged, fold (\<lambda>n. dict_set n (source_name src)) (text_keys services) (snd st))))
              | _ \<Rightarrow> Inl (No_services (source_name src)))))"

definition merge_projects ::
  "plugins \<Rightarrow> config \<Rightarrow> full_manifest list \<Rightarrow> merged \<times> (string \<times> string) list \<Rightarrow> compose_error + merged \<times> (string \<times> string) list"
where
  "merge_projects pl cfg cat st =
     (if projects cfg = [] then Inr st
      else then_do (map_sum Compose_project id (project_compose_document pl cfg cat)) (\<lambda>ps.
           then_do (merge_all ''declarative projects''
             (\<lambda>s. if s = ''services'' then PDict (map (\<lambda>(n, d). (KStr n, PDict d)) ps) else PNone) sections (fst st)) (\<lambda>merged.
             Inr (merged, fold (\<lambda>n. dict_set n n) (map fst ps) (snd st)))))"

definition block_of :: "pyval \<Rightarrow> document" where
  "block_of v = (case v of PDict d \<Rightarrow> d | _ \<Rightarrow> [])"

definition apply_release_images :: "(string \<times> string) list \<Rightarrow> named_services \<Rightarrow> compose_error + named_services" where
  "apply_release_images pins services =
     (let invalid = sort (filter (\<lambda>n. case map_of services n of
            None \<Rightarrow> True | Some s \<Rightarrow> \<not> truthy (dict_get_or ''image'' PNone s)) (map fst pins))
      in if invalid \<noteq> [] then Inl (Unknown_images invalid)
         else Inr (map (\<lambda>(n, s). (n, case map_of pins n of
                None \<Rightarrow> s | Some i \<Rightarrow> dict_set (KStr ''image'') (PStr i) s)) services))"

text \<open>The tags of the manifests instead of the pins, for the discovery of updates.\<close>

definition apply_manifest_release_versions ::
  "plugins \<Rightarrow> config \<Rightarrow> full_manifest list \<Rightarrow> named_services \<Rightarrow> compose_error + named_services"
where
  "apply_manifest_release_versions pl cfg ms =
     try_fold (\<lambda>m services.
       then_do (map_sum Compose_config id (service_is_enabled pl cfg (planning_view m) (map planning_view ms))) (\<lambda>on.
         case (on, image_release m) of
           (True, Some r) \<Rightarrow>
             (case map_of services (release_service r) of
                None \<Rightarrow> Inl (Unknown_images [release_service r])
              | Some s \<Rightarrow>
                  if truthy (dict_get_or ''image'' PNone s)
                  then Inr (dict_set (release_service r)
                    (dict_set (KStr ''image'') (PStr (release_repository r @ '':'' @ release_version r)) s) services)
                  else Inl (Unknown_images [release_service r]))
         | _ \<Rightarrow> Inr services)) ms"

definition merge_sources ::
  "plugins \<Rightarrow> config \<Rightarrow> full_manifest list \<Rightarrow> full_manifest list \<Rightarrow> compose_source \<Rightarrow> compose_source list
     \<Rightarrow> compose_error + merged \<times> (string \<times> string) list"
where
  "merge_sources pl cfg ms cat platform apps =
     then_do (load_mapping False platform) (\<lambda>d.
       if dict_get ''services'' d \<noteq> None then Inl Platform_services
       else then_do (merge_all (source_name platform) (\<lambda>s. dict_get_or s PNone d) (tl sections) (\<lambda>s. [])) (\<lambda>merged.
         if apps = [] then Inl No_applications
         else then_do (try_fold (merge_application pl cfg ms) apps (merged, [])) (merge_projects pl cfg cat)))"

section \<open>Backup mounts\<close>

definition bind_mount :: "string \<Rightarrow> pyval \<Rightarrow> string \<Rightarrow> pyval" where
  "bind_mount kind source target =
     PDict [(KStr ''type'', PStr kind), (KStr ''source'', source), (KStr ''target'', PStr target), (KStr ''read_only'', PBool True)]"

definition is_snapshot_mount :: "py_texts \<Rightarrow> pyval \<Rightarrow> bool" where
  "is_snapshot_mount tx mount =
     (case mount of
        PDict d \<Rightarrow> prefix ''/source'' (py_str tx (dict_get_or ''target'' (PStr []) d))
      | PStr s \<Rightarrow>
          (let fields = split_on (CHR '':'') s
           in prefix ''/source''
                (if last fields \<in> {''ro'', ''rw''} \<and> length fields \<ge> 2 then last (butlast fields) else last fields))
      | _ \<Rightarrow> False)"

definition asset_mount :: "full_manifest \<Rightarrow> data_manifest \<Rightarrow> pyval" where
  "asset_mount m asset =
     (let target = ''/source/services/'' @ manifest_name m @ ''/'' @ data_name asset
      in case data_source_env asset of
           None \<Rightarrow> bind_mount ''volume'' (case data_volume asset of None \<Rightarrow> PNone | Some v \<Rightarrow> PStr v) target
         | Some env \<Rightarrow>
             bind_mount ''bind'' (PStr (''${'' @ env @ ''}''
               @ (if data_source_subpath asset \<noteq> [] then ''/'' @ data_source_subpath asset else []))) target)"

definition manifest_mounts ::
  "plugins \<Rightarrow> config \<Rightarrow> string \<Rightarrow> full_manifest \<Rightarrow> config_error + pyval list"
where
  "manifest_mounts pl cfg role m =
     then_do (service_is_enabled pl cfg (planning_view m) (catalog pl)) (\<lambda>on.
       if \<not> on then Inr []
       else then_do (each (\<lambda>asset.
              if \<not> data_snapshot asset then Inr []
              else then_do (manifest_storage_nodes cfg (planning_view m) (data_runtime asset)) (\<lambda>nodes.
                Inr (if role \<in> set nodes then [asset_mount m asset] else []))) (data_specs m)) (\<lambda>mss. Inr (concat mss)))"

definition inject_backup_mounts ::
  "py_texts \<Rightarrow> plugins \<Rightarrow> config \<Rightarrow> full_manifest list \<Rightarrow> string \<Rightarrow> named_services \<Rightarrow> compose_error + named_services"
where
  "inject_backup_mounts tx pl cfg ms role services =
     (if \<not> backups_enabled cfg then Inr services
      else then_do (map_sum Compose_config id (service_node pl cfg ''kopia'')) (\<lambda>k.
        let name = (if role = k then ''kopia'' else ''kopia-agent'')
        in case map_of services name of
             None \<Rightarrow> Inr services
           | Some container \<Rightarrow>
               (case dict_get_or ''volumes'' (PList []) container of
                  PList existing \<Rightarrow>
                    then_do (map_sum Compose_config id (control_node cfg)) (\<lambda>control.
                    then_do (map_sum Compose_config id (each (manifest_mounts pl cfg role) ms)) (\<lambda>mss.
                      Inr (dict_set name (dict_set (KStr ''volumes'') (PList
                        (filter (\<lambda>m. \<not> is_snapshot_mount tx m) existing
                         @ [bind_mount ''bind'' (PStr ''${INSTALL_ROOT}/config.yaml'') ''/source/config.yaml'',
                            bind_mount ''bind'' (PStr ''${KOPIA_DUMPS_SOURCE}'') ''/source/backup-dumps'']
                         @ (if role = control
                            then [bind_mount ''bind'' (PStr ''${INSTALL_ROOT}/secrets.enc.yaml'') ''/source/secrets.enc.yaml''] else [])
                         @ concat mss)) container) services)))
                | _ \<Rightarrow> Inl (Bad_volumes name))))"

text \<open>\<open>active\<close> are the images of the active release, None when there is none or it is not asked for.\<close>

definition compose_document ::
  "(string \<Rightarrow> string) \<Rightarrow> (string \<Rightarrow> nat) \<Rightarrow> py_texts \<Rightarrow> plugins \<Rightarrow> config \<Rightarrow> full_manifest list \<Rightarrow> full_manifest list
     \<Rightarrow> compose_source \<Rightarrow> compose_source list \<Rightarrow> (string \<times> string) list option \<Rightarrow> (compose_error + compose_model) option"
where
  "compose_document digest name_hash tx pl cfg ms cat platform apps active =
     (case merge_sources pl cfg ms cat platform apps of
        Inl e \<Rightarrow> Some (Inl e)
      | Inr (merged, owners) \<Rightarrow>
          map_option (\<lambda>linked.
            then_do linked (\<lambda>(services, nets).
            then_do (if is_multi_node cfg then Inr services
                     else then_do (map_sum Compose_config id (control_node cfg)) (\<lambda>c.
                       inject_backup_mounts tx pl cfg ms c services)) (\<lambda>services.
            then_do (case active of None \<Rightarrow> Inr services | Some pins \<Rightarrow> apply_release_images pins services) (\<lambda>services.
              Inr \<lparr>model_services = services, model_networks = nets, model_volumes = merged ''volumes'',
                   model_configs = merged ''configs'', model_secrets = merged ''secrets''\<rparr>))))
          (compile_service_networks digest name_hash tx pl cfg ms cat owners
             (map (\<lambda>(n, v). (n, block_of v)) (merged ''services''), merged ''networks'')))"

section \<open>The model of a machine\<close>

definition in_names :: "string list \<Rightarrow> pyval \<Rightarrow> bool" where
  "in_names names v = (case v of PStr s \<Rightarrow> s \<in> set names | _ \<Rightarrow> False)"

fun hashable_value :: "pyval \<Rightarrow> bool" where
  "hashable_value (PDict d) = False"
| "hashable_value (PList xs) = False"
| "hashable_value (PTuple xs) = list_all hashable_value xs"
| "hashable_value _ = True"

definition pop_key :: "string \<Rightarrow> document \<Rightarrow> document" where
  "pop_key k d = filter (\<lambda>(k', v). k' \<noteq> KStr k) d"

definition prune_depends_on :: "string list \<Rightarrow> string \<Rightarrow> document \<Rightarrow> compose_error + document" where
  "prune_depends_on selected name service =
     (case dict_get_or ''depends_on'' PNone service of
        PList xs \<Rightarrow>
          if \<not> list_all hashable_value xs then Inl (Unhashable_dependency name)
          else (let kept = filter (in_names selected) xs
                in Inr (if kept = [] then pop_key ''depends_on'' service
                        else dict_set (KStr ''depends_on'') (PList kept) service))
      | PDict d \<Rightarrow>
          (let kept = filter (\<lambda>(k, v). case k of KStr s \<Rightarrow> s \<in> set selected | KOther \<Rightarrow> False) d
           in Inr (if kept = [] then pop_key ''depends_on'' service
                   else dict_set (KStr ''depends_on'') (PDict kept) service))
      | _ \<Rightarrow> Inr service)"

text \<open>A service may join a namespace of another one of the machine only.\<close>

definition check_namespace :: "string list \<Rightarrow> string \<Rightarrow> document \<Rightarrow> string \<Rightarrow> compose_error + unit" where
  "check_namespace selected name service key =
     (case dict_get_or key PNone service of
        PStr v \<Rightarrow>
          if prefix ''service:'' v \<and> remove_prefix ''service:'' v \<notin> set selected
          then Inl (Omitted_service name (remove_prefix ''service:'' v) key) else Inr ()
      | _ \<Rightarrow> Inr ())"

definition prune_service :: "string list \<Rightarrow> string \<times> document \<Rightarrow> compose_error + string \<times> document" where
  "prune_service selected ns =
     (case ns of (name, service) \<Rightarrow>
        then_do (prune_depends_on selected name service) (\<lambda>service.
        then_do (each (check_namespace selected name service) [''network_mode'', ''ipc'', ''pid'']) (\<lambda>us.
          Inr (name, service))))"

definition prune_dependencies :: "named_services \<Rightarrow> compose_error + named_services" where
  "prune_dependencies services = each (prune_service (map fst services)) services"

definition rooted_context :: "string \<Rightarrow> string" where
  "rooted_context c =
     (if c = ''.'' then ''${INSTALL_ROOT:-.}'' else ''${INSTALL_ROOT:-.}/'' @ remove_prefix ''./'' c)"

definition root_build_context :: "document \<Rightarrow> document" where
  "root_build_context service =
     (case dict_get_or ''build'' PNone service of
        PStr c \<Rightarrow> if prefix ''.'' c then dict_set (KStr ''build'') (PStr (rooted_context c)) service else service
      | PDict b \<Rightarrow>
          (case dict_get_or ''context'' PNone b of
             PStr c \<Rightarrow>
               if prefix ''.'' c
               then dict_set (KStr ''build'') (PDict (dict_set (KStr ''context'') (PStr (rooted_context c)) b)) service
               else service
           | _ \<Rightarrow> service)
      | _ \<Rightarrow> service)"

definition entry_names :: "string \<Rightarrow> pyval \<Rightarrow> string list" where
  "entry_names section e =
     (case e of
        PStr s \<Rightarrow> [if section = ''volumes'' then hd (split_on (CHR '':'') s) else s]
      | PDict d \<Rightarrow> (case dict_get_or ''source'' PNone d of PStr s \<Rightarrow> [s] | _ \<Rightarrow> [])
      | _ \<Rightarrow> [])"

definition service_references :: "string \<Rightarrow> document \<Rightarrow> string list" where
  "service_references section service =
     (case dict_get_or section PNone service of
        PDict d \<Rightarrow> text_keys d
      | PList es \<Rightarrow> concat (map (entry_names section) es)
      | _ \<Rightarrow> [])"

definition named_references :: "named_services \<Rightarrow> string \<Rightarrow> string list \<Rightarrow> string set" where
  "named_references services section available =
     {n \<in> set available. list_ex (\<lambda>(m, s). n \<in> set (service_references section s)) services}"

definition restrict_section :: "named_services \<Rightarrow> string \<Rightarrow> named_values \<Rightarrow> named_values" where
  "restrict_section services section available =
     filter (\<lambda>(n, v). n \<in> named_references services section (map fst available)) available"

text \<open>The services of one application that the machine runs.\<close>

definition placed_services ::
  "plugins \<Rightarrow> config \<Rightarrow> full_manifest list \<Rightarrow> string \<Rightarrow> compose_source \<Rightarrow> compose_error + string list"
where
  "placed_services pl cfg ms role src =
     then_do (load_mapping True src) (\<lambda>d.
       let names = text_keys (block_of (dict_get_or ''services'' PNone d))
       in case find (\<lambda>m. manifest_name m = source_name src) ms of
            None \<Rightarrow> Inl (Compose_config (Unknown_name (source_name src)))
          | Some m \<Rightarrow>
              (let unknown = filter (\<lambda>r. r \<notin> set names) (map fst (runtimes m))
               in if unknown \<noteq> [] then Inl (Unknown_runtimes (source_name src) (sort unknown))
                  else then_do (map_sum Compose_config id (service_is_enabled pl cfg (planning_view m) (catalog pl))) (\<lambda>on.
                    if \<not> on then Inr []
                    else then_do (map_sum Compose_config id (each (\<lambda>n.
                           then_do (manifest_runtime_nodes cfg (planning_view m) n None) (\<lambda>nodes.
                             Inr (if role \<in> set nodes then [n] else []))) names)) (\<lambda>nss. Inr (concat nss)))))"

definition selected_names ::
  "plugins \<Rightarrow> config \<Rightarrow> full_manifest list \<Rightarrow> string \<Rightarrow> compose_source list \<Rightarrow> compose_error + string list"
where
  "selected_names pl cfg ms role apps =
     then_do (each (placed_services pl cfg ms role) apps) (\<lambda>nss.
     then_do (map_sum Compose_config id (each (\<lambda>p. then_do (project_node cfg p) (\<lambda>n.
         Inr (if n = role then [project_service_name p] else []))) (projects cfg))) (\<lambda>pss.
       Inr (concat nss @ concat pss)))"

text \<open>The model of a machine, cut out of the model of the installation.\<close>

definition role_model ::
  "py_texts \<Rightarrow> plugins \<Rightarrow> config \<Rightarrow> full_manifest list \<Rightarrow> string \<Rightarrow> string list \<Rightarrow> compose_model \<Rightarrow> compose_error + compose_model"
where
  "role_model tx pl cfg ms role selected full =
     then_do (prune_dependencies (filter (\<lambda>(n, s). n \<in> set selected) (model_services full))) (\<lambda>services.
     then_do (inject_backup_mounts tx pl cfg ms role (map (\<lambda>(n, s). (n, root_build_context s)) services)) (\<lambda>services.
       Inr \<lparr>model_services = services,
            model_networks = restrict_section services ''networks'' (model_networks full),
            model_volumes = restrict_section services ''volumes'' (model_volumes full),
            model_configs = restrict_section services ''configs'' (model_configs full),
            model_secrets = restrict_section services ''secrets'' (model_secrets full)\<rparr>))"

definition role_compose_document ::
  "(string \<Rightarrow> string) \<Rightarrow> (string \<Rightarrow> nat) \<Rightarrow> py_texts \<Rightarrow> plugins \<Rightarrow> config \<Rightarrow> full_manifest list \<Rightarrow> full_manifest list
     \<Rightarrow> compose_source \<Rightarrow> compose_source list \<Rightarrow> (string \<times> string) list option \<Rightarrow> string \<Rightarrow> (compose_error + compose_model) option"
where
  "role_compose_document digest name_hash tx pl cfg ms cat platform apps active role =
     map_option (\<lambda>r. then_do r (\<lambda>full.
       then_do (selected_names pl cfg ms role apps) (\<lambda>selected. role_model tx pl cfg ms role selected full)))
     (compose_document digest name_hash tx pl cfg ms cat platform apps active)"

definition assemble_role_compose ::
  "(string \<Rightarrow> string) \<Rightarrow> (string \<Rightarrow> nat) \<Rightarrow> py_texts \<Rightarrow> plugins \<Rightarrow> config \<Rightarrow> full_manifest list \<Rightarrow> full_manifest list
     \<Rightarrow> compose_source \<Rightarrow> compose_source list \<Rightarrow> (string \<times> string) list option \<Rightarrow> string \<Rightarrow> (compose_error + compose_model) option"
where
  "assemble_role_compose digest name_hash tx pl cfg ms cat platform apps active role =
     (if role \<notin> set (enabled_nodes cfg) then Some (Inl (Role_disabled role))
      else role_compose_document digest name_hash tx pl cfg ms cat platform apps active role)"

end
