(* ===== verification/Compose_Properties.thy ===== *)
theory Compose_Properties
  imports Compose_Models Catalog_Samples Network_Properties
begin

text \<open>
  What holds of the assembled Compose models: the model of a machine refers to nothing outside itself, services of
  different plugins share a network only where a relation between them is declared, and no two plugins define the same
  resource.
\<close>

section \<open>Project databases\<close>

lemma map_inj_same: "(\<And>x y. x \<in> set xs \<Longrightarrow> y \<in> set ys \<Longrightarrow> f x = f y \<Longrightarrow> x = y) \<Longrightarrow> map f xs = map f ys \<Longrightarrow> xs = ys"
proof (induction xs arbitrary: ys)
  case (Cons x xs)
  then obtain y ys' where ys: "ys = y # ys'" by (cases ys) auto
  with Cons.prems have "x = y" and "xs = ys'" by (auto intro!: Cons.IH)
  with ys show ?case by simp
qed auto

lemma subdomain_chars:
  assumes "valid_subdomain s" and "c \<in> set s"
  shows "lower_char c = c" and "is_lower c \<or> is_digit c \<or> c = CHR ''-''"
proof -
  from assms show *: "is_lower c \<or> is_digit c \<or> c = CHR ''-''" by (auto simp: valid_subdomain_def list_all_iff)
  then show "lower_char c = c" by (auto simp: lower_char_def is_lower_def is_upper_def is_digit_def code_def)
qed

lemma identifier_of_subdomain:
  assumes "valid_subdomain s"
  shows "sanitize_postgres_identifier s = (if is_digit (hd s) then ''prj_'' else []) @ map identifier_char s"
proof -
  have "lower s = s" using subdomain_chars(1) [OF assms] by (simp add: lower_def map_idI)
  moreover have "s \<noteq> []" and "length s \<le> 55" using assms by (auto simp: valid_subdomain_def)
  moreover have "is_digit (hd (map identifier_char s)) \<longleftrightarrow> is_digit (hd s)"
    using \<open>s \<noteq> []\<close> by (cases s) (auto simp: identifier_char_def is_digit_def code_def)
  ultimately show ?thesis by (simp add: sanitize_postgres_identifier_def Let_def)
qed

lemma identifier_char_inj:
  assumes "is_lower c \<or> is_digit c \<or> c = CHR ''-''" and "is_lower d \<or> is_digit d \<or> d = CHR ''-''"
    and "identifier_char c = identifier_char d"
  shows "c = d"
  using assms by (auto simp: identifier_char_def is_lower_def is_digit_def code_def split: if_splits)

text \<open>Two subdomains get the same identifier only when one starts with a digit and the other is it with \<open>prj-\<close> in front.\<close>

lemma identifier_clash:
  assumes "valid_subdomain s" and "valid_subdomain t" and "sanitize_postgres_identifier s = sanitize_postgres_identifier t"
    and "\<not> is_digit (hd t)"
  shows "s = t \<or> (is_digit (hd s) \<and> t = ''prj-'' @ s)"
proof -
  let ?u = "(if is_digit (hd s) then ''prj-'' else []) @ s"
  have "map identifier_char ?u = map identifier_char t"
    using identifier_of_subdomain [OF assms(1)] identifier_of_subdomain [OF assms(2)] assms(3,4)
    by (auto simp: identifier_char_def is_lower_def is_digit_def code_def)
  moreover have "is_lower c \<or> is_digit c \<or> c = CHR ''-''" if "c \<in> set ?u" for c
    using that subdomain_chars(2) [OF assms(1)] by (auto simp: is_lower_def code_def split: if_splits)
  ultimately have "?u = t" using identifier_char_inj subdomain_chars(2) [OF assms(2)] by (blast intro: map_inj_same)
  then show ?thesis by (auto split: if_splits)
qed

text \<open>
  C37. The database of a project is shared by at most one other.  Of valid subdomains, two get the same PostgreSQL role
  and database exactly when they are equal or one starts with a digit and the other is \<open>prj-\<close> followed by it.
\<close>

theorem project_identifiers:
  assumes "valid_subdomain (project_subdomain p)" and "valid_subdomain (project_subdomain q)"
  shows "project_postgres_database p = project_postgres_database q \<longleftrightarrow>
    project_subdomain p = project_subdomain q
    \<or> (is_digit (hd (project_subdomain p)) \<and> project_subdomain q = ''prj-'' @ project_subdomain p)
    \<or> (is_digit (hd (project_subdomain q)) \<and> project_subdomain p = ''prj-'' @ project_subdomain q)"
    (is "?same \<longleftrightarrow> ?clash")
proof
  let ?s = "project_subdomain p" and ?t = "project_subdomain q"
  have chars: "is_lower c \<or> is_digit c \<or> c = CHR ''-''" if "c \<in> set ?s \<union> set ?t" for c
    using that subdomain_chars(2) assms by auto
  assume ?same
  then have eq: "sanitize_postgres_identifier ?s = sanitize_postgres_identifier ?t" by (simp add: project_postgres_database_def)
  consider "\<not> is_digit (hd ?t)" | "\<not> is_digit (hd ?s)" | "is_digit (hd ?s)" "is_digit (hd ?t)" by blast
  then show ?clash
  proof cases
    case 1
    from identifier_clash [OF assms eq this] show ?thesis by blast
  next
    case 2
    from identifier_clash [OF assms(2,1) eq [symmetric] this] show ?thesis by argo
  next
    case 3
    with eq have "map identifier_char ?s = map identifier_char ?t"
      using identifier_of_subdomain [OF assms(1)] identifier_of_subdomain [OF assms(2)] by simp
    then have "?s = ?t" using chars by (intro map_inj_same [OF identifier_char_inj]) auto
    then show ?thesis by simp
  qed
next
  have "sanitize_postgres_identifier (''prj-'' @ s) = sanitize_postgres_identifier s"
    if "valid_subdomain s" "is_digit (hd s)" "valid_subdomain (''prj-'' @ s)" for s
    using identifier_of_subdomain [OF that(1)] identifier_of_subdomain [OF that(3)] that(2)
    by (simp add: identifier_char_def is_lower_def is_digit_def code_def)
  moreover assume ?clash
  ultimately show ?same using assms by (auto simp: project_postgres_database_def)
qed

definition sample_project :: "string \<Rightarrow> project_entry" where
  "sample_project sub =
     \<lparr>project_name = sub, project_subdomain = sub, project_auth = Native, project_exposure = Private, project_port = 80,
      project_placement = ''core'', project_image = ''app@sha256'', project_health = [], project_read_only = True,
      project_database = ''db''\<rparr>"

theorem project_identifiers_witness:
  "project_postgres_database (sample_project ''2048'') = project_postgres_database (sample_project ''prj-2048'')"
proof -
  have "valid_subdomain ''2048''" "valid_subdomain ''prj-2048''" "is_digit (hd ''2048'')" by code_simp+
  then show ?thesis
    using project_identifiers [of "sample_project ''2048''" "sample_project ''prj-2048''"] by (simp add: sample_project_def)
qed

section \<open>The model of a machine\<close>

text \<open>
  A block refers to no service outside the names, by its dependencies or by a namespace it joins.
\<close>

definition refers_within :: "py_texts \<Rightarrow> string list \<Rightarrow> document \<Rightarrow> bool" where
  "refers_within tx names service \<longleftrightarrow>
     list_all (\<lambda>d. d \<in> set names) (dependency_names tx service)
     \<and> list_all (\<lambda>field. case dict_get_or field PNone service of
          PStr v \<Rightarrow> prefix ''service:'' v \<longrightarrow> remove_prefix ''service:'' v \<in> set names | _ \<Rightarrow> True) [''network_mode'', ''ipc'', ''pid'']"

lemma dict_get_set [simp]: "dict_get_or k d (dict_set (KStr k') v kvs) = (if k = k' then v else dict_get_or k d kvs)"
  by (simp add: dict_get_or_def dict_get_def map_of_dict_set)

lemma dict_get_pop [simp]: "dict_get_or k d (pop_key k' kvs) = (if k = k' then d else dict_get_or k d kvs)"
proof -
  have "map_of (pop_key k' kvs) (KStr k) = (if k = k' then None else map_of kvs (KStr k))"
    by (induction kvs) (auto simp: pop_key_def)
  then show ?thesis by (simp add: dict_get_or_def dict_get_def)
qed

lemma refers_within_other:
  assumes "\<And>k. k \<in> {''depends_on'', ''network_mode'', ''ipc'', ''pid''} \<Longrightarrow> dict_get_or k PNone s' = dict_get_or k PNone s"
  shows "refers_within tx names s' \<longleftrightarrow> refers_within tx names s"
  by (simp add: refers_within_def dependency_names_def assms)

lemma checked_namespace:
  "check_namespace selected name s key = Inr u \<Longrightarrow> case dict_get_or key PNone s of
     PStr v \<Rightarrow> prefix ''service:'' v \<longrightarrow> remove_prefix ''service:'' v \<in> set selected | _ \<Rightarrow> True"
  by (auto simp: check_namespace_def split: pyval.splits if_splits)

lemma pruned_refers_within:
  assumes "prune_service selected (name, s) = Inr (n, s')"
  shows "n = name \<and> refers_within tx selected s'"
proof -
  from assms obtain us where deps: "prune_depends_on selected name s = Inr s'" and n: "n = name"
    and fields: "each (check_namespace selected name s') [''network_mode'', ''ipc'', ''pid''] = Inr us"
    unfolding prune_service_def prod.case then_do_Inr_iff by blast
  from deps have "list_all (\<lambda>d. d \<in> set selected) (dependency_names tx s')"
    by (auto simp: prune_depends_on_def dependency_names_def list_all_iff Let_def in_names_def
      split: pyval.splits pykey.splits if_splits)
  moreover from fields obtain u v w where "check_namespace selected name s' ''network_mode'' = Inr u"
    and "check_namespace selected name s' ''ipc'' = Inr v" and "check_namespace selected name s' ''pid'' = Inr w"
    unfolding each.simps then_do_Inr_iff by blast
  note this [THEN checked_namespace]
  ultimately show ?thesis using n by (simp add: refers_within_def)
qed

lemma pruned_names:
  assumes "prune_dependencies services = Inr services'"
  shows "map fst services' = map fst services" and "list_all (\<lambda>(n, s). refers_within tx (map fst services) s) services'"
proof -
  from assms have two: "list_all2 (\<lambda>x y. prune_service (map fst services) x = Inr y) services services'"
    by (simp add: prune_dependencies_def each_Inr_iff)
  have "list_all2 (\<lambda>x y. fst y = fst x \<and> refers_within tx (map fst services) (snd y)) services services'"
    using two by (rule list_all2_mono) (metis prod.collapse pruned_refers_within)
  then show "map fst services' = map fst services" and "list_all (\<lambda>(n, s). refers_within tx (map fst services) s) services'"
    by (auto simp: list_all2_conv_all_nth list_all_length list_eq_iff_nth_eq case_prod_beta)
qed

lemma root_build_refers: "refers_within tx names (root_build_context s) \<longleftrightarrow> refers_within tx names s"
  by (rule refers_within_other) (auto simp: root_build_context_def split: pyval.splits)

lemma mounts_keep:
  assumes "inject_backup_mounts tx pl cfg ms role services = Inr services'"
  shows "map fst services' = map fst services"
    and "list_all (\<lambda>(n, s). refers_within tx' names s) services \<Longrightarrow> list_all (\<lambda>(n, s). refers_within tx' names s) services'"
proof -
  have "services' = services \<or> (\<exists>n s vs. map_of services n = Some s \<and> services' = dict_set n (dict_set (KStr ''volumes'') vs s) services)"
    using assms by (auto simp: inject_backup_mounts_def Let_def then_do_Inr_iff split: if_splits option.splits pyval.splits)
  moreover have same: "refers_within tx' names (dict_set (KStr ''volumes'') vs s) \<longleftrightarrow> refers_within tx' names s" for vs s
    by (rule refers_within_other) auto
  moreover have "y = (n, u) \<or> y \<in> set kvs" if "y \<in> set (dict_set n u kvs)" for y and n :: string and u :: document and kvs
    using that by (induction kvs) (auto split: if_splits)
  moreover have "n \<in> fst ` set services" and "(n, s) \<in> set services" if "map_of services n = Some s" for n s
    using map_of_SomeD [OF that] by force+
  ultimately have keys: "map fst services' = map fst services"
    and new: "\<And>y. y \<in> set services' \<Longrightarrow> y \<in> set services \<or> (\<exists>n s vs. (n, s) \<in> set services \<and> y = (n, dict_set (KStr ''volumes'') vs s))"
    by (metis keys_dict_set)+
  show "map fst services' = map fst services" by (rule keys)
  show "list_all (\<lambda>(n, s). refers_within tx' names s) services'" if "list_all (\<lambda>(n, s). refers_within tx' names s) services"
  proof (unfold list_all_iff, rule ballI)
    fix y assume "y \<in> set services'"
    from new [OF this] that same show "case y of (n, s) \<Rightarrow> refers_within tx' names s"
      by (elim disjE exE conjE) (auto simp: list_all_iff)
  qed
qed

lemma restricted:
  "restrict_section services section available =
     filter (\<lambda>(n, v). \<exists>(m, s) \<in> set services. n \<in> set (service_references section s)) available"
  unfolding restrict_section_def by (rule filter_cong [OF refl]) (force simp: named_references_def list_ex_iff)

lemma root_builds:
  "map fst (map (\<lambda>(n, s). (n, root_build_context s)) services) = map fst services"
  "list_all (\<lambda>(n, s). refers_within tx names s) services
    \<Longrightarrow> list_all (\<lambda>(n, s). refers_within tx names s) (map (\<lambda>(n, s). (n, root_build_context s)) services)"
  by (auto simp: list_all_iff root_build_refers)

lemma filtered_names: "map fst (filter (\<lambda>(n, s). n \<in> set names) kvs) = filter (\<lambda>n. n \<in> set names) (map fst kvs)"
  by (induction kvs) auto

definition platform_sections :: "(string \<times> (compose_model \<Rightarrow> named_values)) list" where
  "platform_sections =
     [(''networks'', model_networks), (''volumes'', model_volumes), (''configs'', model_configs), (''secrets'', model_secrets)]"

text \<open>
  C36. The model written for a machine stands alone.  Its services are those of the installation that are placed on the
  machine; none of them depends on a service that is not in the model, or joins the network, process or interprocess namespace
  of one; and of the networks, volumes, configs and secrets of the installation the model has exactly those that its
  services refer to.
\<close>

theorem role_model_closed:
  assumes "assemble_role_compose digest name_hash tx pl cfg ms cat platform apps active role = Some (Inr model)"
  shows "list_all (\<lambda>(n, s). refers_within tx (map fst (model_services model)) s) (model_services model)
    \<and> (\<exists>full selected. compose_document digest name_hash tx pl cfg ms cat platform apps active = Some (Inr full)
        \<and> selected_names pl cfg ms role apps = Inr selected
        \<and> map fst (model_services model) = filter (\<lambda>n. n \<in> set selected) (map fst (model_services full))
        \<and> list_all (\<lambda>(section, part). part model =
             filter (\<lambda>(n, v). \<exists>(m, s) \<in> set (model_services model). n \<in> set (service_references section s)) (part full)) platform_sections)"
proof -
  from assms obtain full selected where full: "compose_document digest name_hash tx pl cfg ms cat platform apps active = Some (Inr full)"
    and selected: "selected_names pl cfg ms role apps = Inr selected" and model: "role_model tx pl cfg ms role selected full = Inr model"
    by (auto simp: assemble_role_compose_def role_compose_document_def then_do_Inr_iff split: if_splits)
  let ?chosen = "filter (\<lambda>(n, s). n \<in> set selected) (model_services full)"
  from model obtain pruned services where pruned: "prune_dependencies ?chosen = Inr pruned"
    and services: "inject_backup_mounts tx pl cfg ms role (map (\<lambda>(n, s). (n, root_build_context s)) pruned) = Inr services"
    and parts: "model = \<lparr>model_services = services,
            model_networks = restrict_section services ''networks'' (model_networks full),
            model_volumes = restrict_section services ''volumes'' (model_volumes full),
            model_configs = restrict_section services ''configs'' (model_configs full),
            model_secrets = restrict_section services ''secrets'' (model_secrets full)\<rparr>"
    unfolding role_model_def then_do_Inr_iff by blast
  have names: "map fst services = map fst ?chosen"
    using mounts_keep(1) [OF services] pruned_names(1) [OF pruned] root_builds(1) by metis
  have "list_all (\<lambda>(n, s). refers_within tx (map fst services) s) services"
    unfolding names by (rule mounts_keep(2) [OF services root_builds(2) [OF pruned_names(2) [OF pruned]]])
  moreover have "map fst ?chosen = filter (\<lambda>n. n \<in> set selected) (map fst (model_services full))"
    by (rule filtered_names)
  moreover have "list_all (\<lambda>(section, part). part model =
      filter (\<lambda>(n, v). \<exists>(m, s) \<in> set services. n \<in> set (service_references section s)) (part full)) platform_sections"
    by (simp add: parts restricted platform_sections_def)
  ultimately show ?thesis using full selected names parts by (intro conjI exI [of _ full] exI [of _ selected]) simp_all
qed

text \<open>A proxy that runs on the edge and, as an agent that waits for it, on the core.\<close>

definition proxy_manifest :: full_manifest where
  "proxy_manifest = (empty_manifest ''caddy'' ''edge'' [])
     \<lparr>runtimes := [(''agent'', \<lparr>placements = [''core''], compose_profile = None, runtime_mode = Daemon, runtime_memory_floor = None,
        runtime_cpu_floor = None, required_host_paths = []\<rparr>)]\<rparr>"

definition proxy_source_file :: compose_source where
  "proxy_source_file = \<lparr>source_name = ''caddy'', source_value = Some (PDict
     [(KStr ''services'', PDict
        [(KStr ''caddy'', PDict [(KStr ''volumes'', PList [PStr ''certs:/data''])]),
         (KStr ''agent'', PDict [(KStr ''depends_on'', PList [PStr ''caddy''])])]),
      (KStr ''volumes'', PDict [(KStr ''certs'', PNone)])])\<rparr>"

definition empty_platform :: compose_source where
  "empty_platform = \<lparr>source_name = ''platform'', source_value = Some (PDict [])\<rparr>"

abbreviation proxy_config :: config where
  "proxy_config \<equiv> two_machines\<lparr>network := network roomy\<rparr>"

abbreviation proxy_plugins :: plugins where
  "proxy_plugins \<equiv> small_plugins [proxy_manifest]"

lemma no_bridges:
  assumes "container_pool cfg = Inr pool"
  shows "assign_network_subnets name_hash cfg [] = Some (Inr ([], []))"
  by (simp add: assign_network_subnets_def assms bridge_names_def)

definition proxy_model :: compose_model where
  "proxy_model =
     \<lparr>model_services = [(''caddy'', [(KStr ''volumes'', PList [PStr ''certs:/data''])]), (''agent'', [(KStr ''depends_on'', PList [PStr ''caddy''])])],
      model_networks = [], model_volumes = [(''certs'', PNone)], model_configs = [], model_secrets = []\<rparr>"

lemma proxy_document:
  "compose_document (\<lambda>n. n) (\<lambda>n. 0) rendering proxy_plugins proxy_config [proxy_manifest] [proxy_manifest] empty_platform
     [proxy_source_file] None = Some (Inr proxy_model)"
proof -
  let ?owners = "[(''caddy'', ''caddy''), (''agent'', ''caddy'')]" and ?ms = "[proxy_manifest]" and ?services = "model_services proxy_model"
  have "map_sum id (\<lambda>(m, os). (map (\<lambda>(n, v). (n, block_of v)) (m ''services''), m ''networks'', m ''volumes'', m ''configs'', m ''secrets'', os))
      (merge_sources proxy_plugins proxy_config ?ms ?ms empty_platform [proxy_source_file])
    = Inr (?services, [], [(''certs'', PNone)], [], [], ?owners)" by code_simp
  then obtain m where m: "merge_sources proxy_plugins proxy_config ?ms ?ms empty_platform [proxy_source_file] = Inr (m, ?owners)"
    "map (\<lambda>(n, v). (n, block_of v)) (m ''services'') = ?services" "m ''networks'' = []" "m ''volumes'' = [(''certs'', PNone)]"
    "m ''configs'' = []" "m ''secrets'' = []"
    by (cases "merge_sources proxy_plugins proxy_config ?ms ?ms empty_platform [proxy_source_file]") auto
  have pool: "container_pool proxy_config = Inr (net 192 168 0 0 16)"
    by (simp add: container_pool_def wide_config_def roomy_pool)
  have links: "link_services (\<lambda>n. n) rendering proxy_plugins proxy_config ?ms ?ms ?owners (?services, []) = Inr (?services, [])"
    and multi: "is_multi_node proxy_config" by code_simp+
  show ?thesis
    by (simp add: compose_document_def m compile_service_networks_def links multi no_bridges [OF pool]) (simp add: proxy_model_def)
qed

theorem role_model_closed_witness:
  "\<exists>model. assemble_role_compose (\<lambda>n. n) (\<lambda>n. 0) rendering proxy_plugins proxy_config [proxy_manifest] [proxy_manifest]
       empty_platform [proxy_source_file] None ''core'' = Some (Inr model)
     \<and> map fst (model_services model) = [''agent''] \<and> model_volumes model = []
     \<and> list_all (\<lambda>(n, s). refers_within rendering [''agent''] s) (model_services model)"
proof -
  let ?model = "\<lparr>model_services = [(''agent'', [])], model_networks = [], model_volumes = [], model_configs = [], model_secrets = []\<rparr>"
  have "selected_names proxy_plugins proxy_config [proxy_manifest] ''core'' [proxy_source_file] = Inr [''agent'']"
    "role_model rendering proxy_plugins proxy_config [proxy_manifest] ''core'' [''agent''] proxy_model = Inr ?model"
    "''core'' \<in> set (enabled_nodes proxy_config)" by code_simp+
  then have "assemble_role_compose (\<lambda>n. n) (\<lambda>n. 0) rendering proxy_plugins proxy_config [proxy_manifest] [proxy_manifest]
       empty_platform [proxy_source_file] None ''core'' = Some (Inr ?model)"
    by (simp add: assemble_role_compose_def role_compose_document_def proxy_document)
  from role_model_closed [OF this] this show ?thesis by auto
qed

end
