(* ===== verification/Compose_Networks.thy ===== *)
theory Compose_Networks
  imports Compose_Models Catalog_Properties Network_Properties
begin

text \<open>
  Which networks the assembly gives to a service: the network of its plugin, and the networks of the relations that
  its plugin has with another one on the same machine.
\<close>

section \<open>Services that gain networks\<close>

abbreviation networks_of :: "document \<Rightarrow> string list" where
  "networks_of \<equiv> service_references ''networks''"

text \<open>Every block keeps its dependencies and gains only networks that \<open>P\<close> allows.\<close>

definition gains :: "(string \<Rightarrow> string \<Rightarrow> bool) \<Rightarrow> named_services \<Rightarrow> named_services \<Rightarrow> bool" where
  "gains P =
     list_all2 (\<lambda>x y. fst y = fst x \<and> dict_get_or ''depends_on'' PNone (snd y) = dict_get_or ''depends_on'' PNone (snd x)
       \<and> (\<forall>b \<in> set (networks_of (snd y)). b \<in> set (networks_of (snd x)) \<or> P (fst x) b))"

lemma gains_refl: "gains P services services"
  by (simp add: gains_def list_all2_same)

lemma gains_trans: "gains P a b \<Longrightarrow> gains P b c \<Longrightarrow> gains P a c"
  unfolding gains_def by (rule list_all2_trans) auto

lemma gains_mono: "gains P a b \<Longrightarrow> (\<And>n br. P n br \<Longrightarrow> Q n br) \<Longrightarrow> gains Q a b"
  unfolding gains_def by (erule list_all2_mono) blast

lemma gains_names: "gains P a b \<Longrightarrow> map fst b = map fst a"
  by (auto simp: gains_def list_all2_conv_all_nth list_eq_iff_nth_eq)

lemma gains_links: "gains P a b \<Longrightarrow> map (service_links tx owners) b = map (service_links tx owners) a"
proof (rule nth_equalityI)
  assume "gains P a b"
  then have len: "length b = length a" and all: "\<And>i. i < length a \<Longrightarrow> fst (b ! i) = fst (a ! i)
      \<and> dict_get_or ''depends_on'' PNone (snd (b ! i)) = dict_get_or ''depends_on'' PNone (snd (a ! i))"
    by (auto simp: gains_def list_all2_conv_all_nth)
  show "length (map (service_links tx owners) b) = length (map (service_links tx owners) a)" using len by simp
  fix i assume "i < length (map (service_links tx owners) b)"
  with len have i: "i < length a" "i < length b" by simp_all
  from all [OF i(1)] have "fst (b ! i) = fst (a ! i)" and "dependency_names tx (snd (b ! i)) = dependency_names tx (snd (a ! i))"
    by (simp_all add: dependency_names_def)
  then have "service_links tx owners (b ! i) = service_links tx owners (a ! i)" unfolding service_links_def case_prod_beta
    by (simp split: option.split)
  with i show "map (service_links tx owners) b ! i = map (service_links tx owners) a ! i" by simp
qed

lemma get_set_other: "dict_get_or k d (dict_set (KStr k') v kvs) = (if k = k' then v else dict_get_or k d kvs)"
  by (simp add: dict_get_or_def dict_get_def map_of_dict_set)

lemma networks_set [simp]:
  "networks_of (dict_set (KStr ''networks'') (PList es) s) = concat (map (entry_names ''networks'') es)"
  "networks_of (dict_set (KStr ''networks'') (PDict d) s) = text_keys d"
  by (simp_all add: service_references_def get_set_other)

lemma networks_get:
  "dict_get_or ''networks'' PNone s = PList es \<Longrightarrow> networks_of s = concat (map (entry_names ''networks'') es)"
  "dict_get_or ''networks'' PNone s = PDict d \<Longrightarrow> networks_of s = text_keys d"
  by (simp_all add: service_references_def)

lemma attach_network_gains:
  assumes "attach_network br s = Inr s'"
  shows "dict_get_or ''depends_on'' PNone s' = dict_get_or ''depends_on'' PNone s"
    and "set (networks_of s') \<subseteq> insert br (set (networks_of s))"
proof -
  consider "s' = s" | vs where "s' = dict_set (KStr ''networks'') vs s" using assms by (auto simp: attach_network_def split: if_splits pyval.splits)
  then show "dict_get_or ''depends_on'' PNone s' = dict_get_or ''depends_on'' PNone s" by cases (simp_all add: get_set_other)
  show "set (networks_of s') \<subseteq> insert br (set (networks_of s))"
  proof (cases "truthy (dict_get_or ''network_mode'' PNone s)")
    case True
    with assms show ?thesis by (auto simp: attach_network_def)
  next
    case False
    with assms show ?thesis
      by (cases "dict_get_or ''networks'' PNone s")
        (auto simp: attach_network_def networks_get text_keys_def entry_names_def [of _ "PStr br"] split: if_splits)
  qed
qed

lemma dict_set_gains:
  assumes "map_of services n = Some s" and "attach_network br s = Inr s'"
  shows "gains (\<lambda>m b. m = n \<and> b = br) services (dict_set n s' services)"
  using assms(1)
proof (induction services)
  case (Cons x services)
  show ?case
  proof (cases "fst x = n")
    case True
    with Cons.prems have "x = (n, s)" by (cases x) simp
    then show ?thesis
      using attach_network_gains [OF assms(2)] gains_refl [of "\<lambda>m b. m = n \<and> b = br" services] by (auto simp: gains_def)
  next
    case False
    with Cons have "gains (\<lambda>m b. m = n \<and> b = br) services (dict_set n s' services)" by (cases x) simp
    with False show ?thesis by (cases x) (simp add: gains_def)
  qed
qed simp

lemma attach_to_gains:
  assumes "attach_to br n services = Inr services'"
  shows "gains (\<lambda>m b. m = n \<and> b = br) services services'"
  using assms by (auto simp: attach_to_def then_do_Inr_iff dict_set_gains split: option.splits)

lemma attach_all_gains:
  "try_fold (attach_to br) ns services = Inr services' \<Longrightarrow> gains (\<lambda>m b. m \<in> set ns \<and> b = br) services services'"
proof (induction ns arbitrary: services)
  case Nil
  then show ?case by (simp add: gains_refl)
next
  case (Cons n ns)
  then obtain mid where mid: "attach_to br n services = Inr mid" "try_fold (attach_to br) ns mid = Inr services'"
    by (auto simp: then_do_Inr_iff)
  have "gains (\<lambda>m b. m \<in> set (n # ns) \<and> b = br) services mid" by (rule gains_mono [OF attach_to_gains [OF mid(1)]]) simp
  moreover have "gains (\<lambda>m b. m \<in> set (n # ns) \<and> b = br) mid services'" by (rule gains_mono [OF Cons.IH [OF mid(2)]]) simp
  ultimately show ?case by (rule gains_trans)
qed

text \<open>A loop whose steps all gain allowed networks.\<close>

lemma try_fold_gains:
  assumes "try_fold f xs st = Inr st'"
    and "\<And>x st st'. x \<in> set xs \<Longrightarrow> f x st = Inr st' \<Longrightarrow> gains P (fst st) (fst st')"
  shows "gains P (fst st) (fst st')"
  using assms
proof (induction xs arbitrary: st)
  case Nil
  then show ?case by (simp add: gains_refl)
next
  case (Cons x xs)
  then obtain mid where "f x st = Inr mid" "try_fold f xs mid = Inr st'" by (auto simp: then_do_Inr_iff)
  with Cons.IH [of mid] Cons.prems(2) show ?case by (meson gains_trans list.set_intros)
qed

section \<open>Declared relations\<close>

text \<open>
  Two plugins are related: both are enabled and run on the same machine, neither is the proxy, and one of them names the other as
  a dependency, an integration, the provider of a database or the issuer, or one of its containers waits for a container of
  the other; or one is a project and the other keeps its database, on the same machine.
\<close>

definition related ::
  "py_texts \<Rightarrow> plugins \<Rightarrow> config \<Rightarrow> full_manifest list \<Rightarrow> full_manifest list \<Rightarrow> (string \<times> string) list \<Rightarrow> named_services \<Rightarrow> string \<Rightarrow> string \<Rightarrow> bool"
where
  "related tx pl cfg ms cat owners services a b \<longleftrightarrow>
     (\<exists>l \<in> set ms. \<exists>r \<in> set ms. {manifest_name l, manifest_name r} = {a, b} \<and> a \<noteq> b \<and> ''caddy'' \<notin> {a, b}
        \<and> service_is_enabled pl cfg (planning_view l) (map planning_view ms) = Inr True
        \<and> service_is_enabled pl cfg (planning_view r) (map planning_view ms) = Inr True
        \<and> (\<exists>n. manifest_node cfg (planning_view l) = Inr n \<and> manifest_node cfg (planning_view r) = Inr n)
        \<and> ((\<exists>m \<in> set ms. (manifest_name l, manifest_name r) \<in> set (manifest_links m))
           \<or> (\<exists>x \<in> set services. (manifest_name l, manifest_name r) \<in> set (service_links tx owners x))))
     \<or> (\<exists>project \<in> set (projects cfg). \<exists>p. project_database_provider cat project = Inr (Some p)
        \<and> {a, b} = {project_service_name project, manifest_name p}
        \<and> (\<exists>n. project_node cfg project = Inr n \<and> manifest_node cfg (planning_view p) = Inr n))"

lemma related_sym: "related tx pl cfg ms cat owners services a b \<longleftrightarrow> related tx pl cfg ms cat owners services b a"
  unfolding related_def by (simp add: insert_commute eq_commute [of a b])

text \<open>The network of a plugin, or of a relation.\<close>

definition explained ::
  "(string \<Rightarrow> string) \<Rightarrow> (string \<times> string) list \<Rightarrow> (string \<Rightarrow> string \<Rightarrow> bool) \<Rightarrow> string \<Rightarrow> string \<Rightarrow> bool"
where
  "explained digest owners rel n br \<longleftrightarrow>
     (\<exists>owner. (n, owner) \<in> set owners
        \<and> (br = network_key digest ''plugin'' [owner] \<or> (\<exists>other. rel owner other \<and> br = network_key digest ''link'' (sort [owner, other]))))"

lemma attach_plugin_gains:
  assumes "attach_plugin digest x st = Inr st'" and "x \<in> set owners"
  shows "gains (explained digest owners rel) (fst st) (fst st')"
proof -
  obtain n owner services nets where x: "x = (n, owner)" "st = (services, nets)" by (cases x, cases st)
  show ?thesis
  proof (cases "fst st' = services")
    case True
    with x show ?thesis by (simp add: gains_refl)
  next
    case False
    with assms(1) x have "attach_to (network_key digest ''plugin'' [owner]) n services = Inr (fst st')"
      by (auto simp: Let_def then_do_Inr_iff split: if_splits)
    with x assms(2) show ?thesis
      by simp (rule gains_mono [OF attach_to_gains], assumption, auto simp: explained_def)
  qed
qed

lemma owned_mem: "n \<in> set (owned_services owners services owner) \<Longrightarrow> (n, owner) \<in> set owners"
  by (auto simp: owned_services_def)

lemma link_owners_gains:
  assumes "link_owners digest owners pair (network_key digest ''link'' (sort [a, b])) st = Inr st'"
    and "set pair = {a, b}" and "rel a b" and "rel b a"
  shows "gains (explained digest owners rel) (fst st) (fst st')"
proof -
  let ?key = "network_key digest ''link'' (sort [a, b])"
  obtain services nets where st: "st = (services, nets)" by (cases st)
  from assms(1) st have "try_fold (attach_to ?key) (concat (map (owned_services owners services) pair)) services = Inr (fst st')"
    by (auto simp: link_owners_def then_do_Inr_iff)
  from attach_all_gains [OF this] have "gains (explained digest owners rel) services (fst st')"
  proof (rule gains_mono)
    fix n br assume "n \<in> set (concat (map (owned_services owners services) pair)) \<and> br = ?key"
    with assms(2) consider "(n, a) \<in> set owners" "br = ?key" | "(n, b) \<in> set owners" "br = ?key" by (auto dest: owned_mem)
    moreover have "sort [b, a] = sort [a, b]" using linear [of a b] by auto
    ultimately show "explained digest owners rel n br" using assms(3,4) unfolding explained_def by cases (blast, metis)
  qed
  with st show ?thesis by simp
qed

lemma attach_link_gains:
  assumes "attach_link digest cfg on owners x st = Inr st'" and "x \<in> set pairs"
    and "\<And>l r n. l \<in> set on \<Longrightarrow> r \<in> set on \<Longrightarrow> (manifest_name l, manifest_name r) \<in> set pairs \<Longrightarrow> manifest_name l \<noteq> manifest_name r
      \<Longrightarrow> ''caddy'' \<notin> {manifest_name l, manifest_name r} \<Longrightarrow> manifest_node cfg (planning_view l) = Inr n
      \<Longrightarrow> manifest_node cfg (planning_view r) = Inr n \<Longrightarrow> rel (manifest_name l) (manifest_name r) \<and> rel (manifest_name r) (manifest_name l)"
  shows "gains (explained digest owners rel) (fst st) (fst st')"
proof (cases "st' = st")
  case True
  then show ?thesis by (simp add: gains_refl)
next
  case False
  obtain a b where x: "x = (a, b)" by (cases x)
  from False assms(1) x obtain l r n where l: "find (\<lambda>m. manifest_name m = a) on = Some l" and r: "find (\<lambda>m. manifest_name m = b) on = Some r"
    and "a \<noteq> b" "''caddy'' \<notin> {a, b}" "manifest_node cfg (planning_view l) = Inr n" "manifest_node cfg (planning_view r) = Inr n"
    and link: "link_owners digest owners (sort [a, b]) (network_key digest ''link'' (sort [a, b])) st = Inr st'"
    by (auto simp: then_do_Inr_iff map_sum_Inr_iff simp del: sort_key_simps split: option.splits if_splits)
  moreover from l r have "l \<in> set on" "manifest_name l = a" "r \<in> set on" "manifest_name r = b" by (auto simp: find_Some_iff)
  ultimately have "rel a b" "rel b a" using assms(2) assms(3) [of l r n] x by auto
  then show ?thesis by (intro link_owners_gains [OF link]) auto
qed

lemma link_project_gains:
  assumes "link_project digest cfg cat owners project st = Inr st'"
    and "\<And>p n. project_database_provider cat project = Inr (Some p) \<Longrightarrow> project_node cfg project = Inr n
      \<Longrightarrow> manifest_node cfg (planning_view p) = Inr n
      \<Longrightarrow> rel (project_service_name project) (manifest_name p) \<and> rel (manifest_name p) (project_service_name project)"
  shows "gains (explained digest owners rel) (fst st) (fst st')"
proof (cases "st' = st")
  case True
  then show ?thesis by (simp add: gains_refl)
next
  case False
  with assms(1) obtain p n where p: "project_database_provider cat project = Inr (Some p)" "project_node cfg project = Inr n"
    "manifest_node cfg (planning_view p) = Inr n"
    and link: "link_owners digest owners [project_service_name project, manifest_name p]
      (network_key digest ''link'' (sort [project_service_name project, manifest_name p])) st = Inr st'"
    by (auto simp: link_project_def Let_def then_do_Inr_iff map_sum_Inr_iff simp del: sort_key_simps split: option.splits if_splits)
  from assms(2) [OF p] show ?thesis by (intro link_owners_gains [OF link]) auto
qed

lemma linked_manifests_on:
  assumes "linked_manifests pl cfg ms owners services = Inr on" and "m \<in> set on"
  shows "m \<in> set ms \<and> service_is_enabled pl cfg (planning_view m) (map planning_view ms) = Inr True"
proof -
  from assms(1) obtain mss where each: "each (\<lambda>m. then_do (map_sum Compose_config id (service_is_enabled pl cfg (planning_view m) (map planning_view ms)))
      (\<lambda>on. Inr (if on \<and> owned_services owners services (manifest_name m) \<noteq> [] then [m] else []))) ms = Inr mss" and on: "on = concat mss"
    by (auto simp: linked_manifests_def then_do_Inr_iff)
  from assms(2) on obtain ys where "ys \<in> set mss" "m \<in> set ys" by auto
  from each this(1) obtain m' where "m' \<in> set ms" and "then_do (map_sum Compose_config id (service_is_enabled pl cfg (planning_view m') (map planning_view ms)))
      (\<lambda>on. Inr (if on \<and> owned_services owners services (manifest_name m') \<noteq> [] then [m'] else [])) = Inr ys"
    by (rule each_from)
  with \<open>m \<in> set ys\<close> show ?thesis
    by (auto simp: then_do_Inr_iff map_sum_Inr_iff split: if_splits)
qed

lemma link_services_gains:
  assumes "link_services digest tx pl cfg ms cat owners (services, nets) = Inr (services', nets'')"
  shows "gains (explained digest owners (related tx pl cfg ms cat owners services)) services services'"
proof -
  let ?rel = "related tx pl cfg ms cat owners services" and ?Q = "explained digest owners (related tx pl cfg ms cat owners services)"
  from assms obtain st1 on st2 where one: "try_fold (attach_plugin digest) owners (services, nets) = Inr st1"
    and on: "linked_manifests pl cfg ms owners (fst st1) = Inr on"
    and two: "try_fold (attach_link digest cfg on owners)
      (concat (map manifest_links on) @ concat (map (service_links tx owners) (fst st1))) st1 = Inr st2"
    and three: "try_fold (link_project digest cfg cat owners) (projects cfg) st2 = Inr (services', nets'')"
    by (auto simp: link_services_def then_do_Inr_iff)
  have g1: "gains ?Q services (fst st1)" using try_fold_gains [OF one attach_plugin_gains] by simp
  have pairs: "set (concat (map manifest_links on) @ concat (map (service_links tx owners) (fst st1)))
      = {p. (\<exists>m \<in> set on. p \<in> set (manifest_links m)) \<or> (\<exists>x \<in> set services. p \<in> set (service_links tx owners x))}"
    unfolding gains_links [OF g1] by auto
  have rel: "?rel (manifest_name l) (manifest_name r)"
    if "l \<in> set on" "r \<in> set on" "manifest_name l \<noteq> manifest_name r" "''caddy'' \<notin> {manifest_name l, manifest_name r}"
      "(manifest_name l, manifest_name r) \<in> set (concat (map manifest_links on) @ concat (map (service_links tx owners) (fst st1)))"
      "manifest_node cfg (planning_view l) = Inr n" "manifest_node cfg (planning_view r) = Inr n" for l r n
    using that linked_manifests_on [OF on] unfolding pairs related_def by blast
  have "gains ?Q (fst st1) (fst st2)"
    by (rule try_fold_gains [OF two], erule attach_link_gains, assumption) (use rel related_sym in blast)
  moreover have "gains ?Q (fst st2) services'"
  proof -
    have "gains ?Q (fst st2) (fst (services', nets''))"
      by (rule try_fold_gains [OF three], erule link_project_gains) (unfold related_def, blast)
    then show ?thesis by simp
  qed
  ultimately show ?thesis using g1 gains_trans by blast
qed

lemma compiled_links:
  assumes "compile_service_networks digest name_hash tx pl cfg ms cat owners (services, nets) = Some (Inr (services', nets'))"
  obtains nets'' where "link_services digest tx pl cfg ms cat owners (services, nets) = Inr (services', nets'')"
  using assms by (auto simp: compile_service_networks_def map_sum_Inr_iff split: sum.splits prod.splits)


section \<open>Samples\<close>

definition linked_plugin :: "string \<Rightarrow> string list \<Rightarrow> full_manifest" where
  "linked_plugin name deps = empty_manifest name ''core'' deps"

text \<open>An application and its database on one machine; the networks bring their own addresses.\<close>

definition own_addresses :: "string \<Rightarrow> string \<times> pyval" where
  "own_addresses name = (name, PDict [(KStr ''ipam'', PDict [(KStr ''driver'', PStr ''default'')])])"

abbreviation pair_catalog :: "full_manifest list" where
  "pair_catalog \<equiv> [linked_plugin ''app'' [''db''], linked_plugin ''db'' []]"

abbreviation pair_owners :: "(string \<times> string) list" where
  "pair_owners \<equiv> [(''app'', ''app''), (''db'', ''db'')]"

abbreviation pair_networks :: named_values where
  "pair_networks \<equiv> map own_addresses [''plugin-app'', ''plugin-db'', ''link-app-db'']"


text \<open>
  Names with dashes: the pair of \<open>a\<close> and \<open>b-c\<close> and the pair of \<open>a-b\<close> and \<open>c\<close> have the same network name.
\<close>

definition dashed_catalog :: "full_manifest list" where
  "dashed_catalog = [linked_plugin ''a'' [''b-c''], linked_plugin ''b-c'' [], linked_plugin ''a-b'' [''c''], linked_plugin ''c'' []]"

abbreviation dashed_services :: named_services where
  "dashed_services \<equiv> [(''a'', []), (''b-c'', []), (''a-b'', []), (''c'', [])]"

abbreviation dashed_owners :: "(string \<times> string) list" where
  "dashed_owners \<equiv> [(''a'', ''a''), (''b-c'', ''b-c''), (''a-b'', ''a-b''), (''c'', ''c'')]"

lemma dashed_unrelated:
  "\<not> related rendering (small_plugins dashed_catalog) two_machines dashed_catalog dashed_catalog dashed_owners dashed_services ''a'' ''c''"
proof
  assume "related rendering (small_plugins dashed_catalog) two_machines dashed_catalog dashed_catalog dashed_owners dashed_services ''a'' ''c''"
  moreover have "projects two_machines = []" by code_simp
  ultimately obtain p q where pq: "{p, q} = {''a'', ''c''}" and
    "(p, q) \<in> set (concat (map manifest_links dashed_catalog)) \<or> (p, q) \<in> set (concat (map (service_links rendering dashed_owners) dashed_services))"
    unfolding related_def set_concat set_map by auto
  moreover have "concat (map manifest_links dashed_catalog) = [(''a'', ''b-c''), (''a-b'', ''c'')]"
    "concat (map (service_links rendering dashed_owners) dashed_services) = []" by code_simp+
  ultimately show False by (auto simp: doubleton_eq_iff)
qed


end
