(* ===== verification/Compose_Ownership.thy ===== *)
theory Compose_Ownership
  imports Compose_Properties Compose_Networks
begin

text \<open>
  Every service, network, volume, config and secret of the assembled model is defined by one source: the platform file, one
  enabled application, or the projects.
\<close>

section \<open>Names of a source\<close>

definition part_names :: "pyval \<Rightarrow> string list" where
  "part_names v = text_keys (block_of v)"

definition source_part :: "compose_source \<Rightarrow> string \<Rightarrow> pyval" where
  "source_part src s = (case source_value src of Some (PDict d) \<Rightarrow> dict_get_or s PNone d | _ \<Rightarrow> PNone)"

text \<open>What an application contributes to a section: nothing when its service is switched off.\<close>

definition app_names :: "plugins \<Rightarrow> config \<Rightarrow> full_manifest list \<Rightarrow> string \<Rightarrow> compose_source \<Rightarrow> string list" where
  "app_names pl cfg ms s src =
     (case find (\<lambda>m. manifest_name m = source_name src) ms of
        None \<Rightarrow> []
      | Some m \<Rightarrow>
          if service_is_enabled pl cfg (planning_view m) (map planning_view ms) = Inr True then part_names (source_part src s) else [])"

definition project_names :: "config \<Rightarrow> string \<Rightarrow> string list" where
  "project_names cfg s =
     (if s = ''services'' then fromkeys (map project_service_name (sort_key project_subdomain (projects cfg))) else [])"

section \<open>Merging appends names\<close>

lemma text_keys_simps [simp]:
  "text_keys [] = []" "text_keys ((KStr n, v) # d) = n # text_keys d" "text_keys ((KOther, v) # d) = text_keys d"
  by (simp_all add: text_keys_def)

lemma merge_blocks_names:
  assumes "merge_blocks section source d dest = Inr out" and "distinct (map fst dest)"
  shows "map fst out = map fst dest @ text_keys d \<and> distinct (map fst out)"
  using assms
proof (induction d arbitrary: dest)
  case (Cons kv d)
  obtain key block where kv: "kv = (key, block)" by (cases kv)
  with Cons.prems(1) obtain n where n: "key = KStr n" "n \<notin> fst ` set dest"
    and rest: "merge_blocks section source d (dest @ [(n, block)]) = Inr out"
    by (auto split: pykey.splits if_splits)
  have "distinct (map fst (dest @ [(n, block)]))" using n Cons.prems(2) by simp
  note IH = Cons.IH [OF rest this]
  have "map fst out = map fst dest @ n # text_keys d" using IH by simp
  moreover have "distinct (map fst out)" using IH by blast
  ultimately show ?case using n kv by (intro conjI) simp_all
qed simp

lemma merge_section_names:
  assumes "merge_section section source v dest = Inr out" and "distinct (map fst dest)"
  shows "map fst out = map fst dest @ part_names v \<and> distinct (map fst out)"
proof (cases v)
  case (PDict d)
  with assms have "merge_blocks section source d dest = Inr out" by (simp add: merge_section_def)
  from merge_blocks_names [OF this assms(2)] have "map fst out = map fst dest @ text_keys d" and "distinct (map fst out)" by blast+
  moreover have "part_names v = text_keys d" using PDict by (simp add: part_names_def block_of_def)
  ultimately show ?thesis by metis
qed (use assms in \<open>simp_all add: merge_section_def part_names_def block_of_def\<close>)

text \<open>A table of sections whose names are those of another one followed by \<open>added\<close>, without repetition.\<close>

definition extends :: "string set \<Rightarrow> merged \<Rightarrow> (string \<Rightarrow> string list) \<Rightarrow> merged \<Rightarrow> bool" where
  "extends S m added m' \<longleftrightarrow> (\<forall>s. map fst (m' s) = map fst (m s) @ (if s \<in> S then added s else []) \<and> distinct (map fst (m' s)))"

lemma merge_all_extends:
  assumes "merge_all source part names m = Inr m'" and "\<And>s. distinct (map fst (m s))" and "distinct names"
  shows "extends (set names) m (part_names \<circ> part) m'"
  using assms
proof (induction names arbitrary: m)
  case Nil
  then show ?case by (simp add: merge_all_def extends_def)
next
  case (Cons s names)
  then obtain vs where vs: "merge_section s source (part s) (m s) = Inr vs" and rest: "merge_all source part names (m(s := vs)) = Inr m'"
    by (auto simp: merge_all_def then_do_Inr_iff)
  from merge_section_names [OF vs Cons.prems(2)] have names: "map fst vs = map fst (m s) @ part_names (part s)" "distinct (map fst vs)" by blast+
  have "extends (set names) (m(s := vs)) (part_names \<circ> part) m'"
  proof (rule Cons.IH [OF rest])
    show "distinct (map fst ((m(s := vs)) t))" for t using names(2) Cons.prems(2) by (cases "t = s") simp_all
    show "distinct names" using Cons.prems(3) by simp
  qed
  then have ext: "map fst (m' t) = map fst ((m(s := vs)) t) @ (if t \<in> set names then part_names (part t) else [])"
    "distinct (map fst (m' t))" for t
    unfolding extends_def comp_def by blast+
  show ?case unfolding extends_def
  proof
    fix t
    show "map fst (m' t) = map fst (m t) @ (if t \<in> set (s # names) then (part_names \<circ> part) t else []) \<and> distinct (map fst (m' t))"
      using ext(1) [of t] names(1) Cons.prems(3) by (intro conjI ext(2)) (cases "t = s", simp_all)
  qed
qed

section \<open>Applications and projects\<close>

lemma text_keys_dict_set: "KStr n \<in> fst ` set d \<Longrightarrow> text_keys (dict_set (KStr n) v d) = text_keys d"
proof (induction d)
  case (Cons kv d)
  then show ?case by (cases "fst kv = KStr n"; cases kv; cases "fst kv") auto
qed simp

lemma dict_get_key: "dict_get n d = Some v \<Longrightarrow> KStr n \<in> fst ` set d"
  by (force simp: dict_get_def dest: map_of_SomeD)

lemma inject_runtimes_keys:
  "try_fold (inject_runtime service hostname addr) names d = Inr d' \<Longrightarrow> text_keys d' = text_keys d"
proof (induction names arbitrary: d)
  case (Cons n names)
  then obtain mid where mid: "inject_runtime service hostname addr n d = Inr mid" "try_fold (inject_runtime service hostname addr) names mid = Inr d'"
    by (auto simp: then_do_Inr_iff)
  from mid(1) have "text_keys mid = text_keys d"
    by (auto simp: inject_runtime_def then_do_Inr_iff text_keys_dict_set dict_get_key split: option.splits pyval.splits)
  with Cons.IH [OF mid(2)] show ?case by simp
qed simp

lemma prepared_keys: "prepare_services cfg ms m d = Inr d' \<Longrightarrow> text_keys d' = text_keys d"
  by (auto simp: prepare_services_def inject_oidc_split_dns_def Let_def then_do_Inr_iff inject_runtimes_keys
    split: if_splits option.splits)

lemma sections_mem: "set sections = {''services'', ''networks'', ''volumes'', ''configs'', ''secrets''}" "distinct sections"
  by (simp_all add: sections_def)

lemma merge_application_extends:
  assumes "merge_application pl cfg ms src (m, owners) = Inr (m', owners')" and "\<And>s. distinct (map fst (m s))"
  shows "extends (set sections) m (\<lambda>s. app_names pl cfg ms s src) m'"
proof (cases "m' = m \<and> (\<forall>s. app_names pl cfg ms s src = [])")
  case True
  with assms(2) show ?thesis by (simp add: extends_def)
next
  case False
  with assms(1) obtain man where man: "find (\<lambda>m. manifest_name m = source_name src) ms = Some man"
    by (auto simp: merge_application_def split: option.splits)
  with assms(1) obtain on where on: "service_is_enabled pl cfg (planning_view man) (map planning_view ms) = Inr on"
    by (auto simp: merge_application_def then_do_Inr_iff map_sum_Inr_iff)
  with False man assms(1) have on: "service_is_enabled pl cfg (planning_view man) (map planning_view ms) = Inr True"
    by (cases on) (auto simp: merge_application_def app_names_def)
  with assms(1) man obtain d where load: "load_mapping True src = Inr d"
    by (auto simp: merge_application_def then_do_Inr_iff)
  then have d: "source_value src = Some (PDict d)"
    by (auto simp: load_mapping_def split: option.splits pyval.splits if_splits)
  from assms(1) man on load obtain services prepared where services: "dict_get_or ''services'' PNone d = PDict services"
    and prepared: "prepare_services cfg ms man services = Inr prepared"
    and merged: "merge_all (source_name src) (\<lambda>s. if s = ''services'' then PDict prepared else dict_get_or s PNone d) sections m = Inr m'"
    by (auto simp: merge_application_def then_do_Inr_iff split: pyval.splits if_splits)
  have "part_names (if s = ''services'' then PDict prepared else dict_get_or s PNone d) = app_names pl cfg ms s src" for s
    using man on d services prepared_keys [OF prepared] by (simp add: app_names_def source_part_def part_names_def block_of_def)
  then have "part_names \<circ> (\<lambda>s. if s = ''services'' then PDict prepared else dict_get_or s PNone d) = (\<lambda>s. app_names pl cfg ms s src)"
    unfolding comp_def by (rule ext)
  with merge_all_extends [OF merged assms(2) sections_mem(2)] show ?thesis by simp
qed

lemma extends_names: "extends S m a m' \<Longrightarrow> map fst (m' s) = map fst (m s) @ (if s \<in> S then a s else [])"
  and extends_distinct: "extends S m a m' \<Longrightarrow> distinct (map fst (m' s))"
  unfolding extends_def by blast+

lemma extends_trans:
  assumes "extends S m a m'" and "extends S m' b m''"
  shows "extends S m (\<lambda>s. a s @ b s) m''"
  unfolding extends_def
  using extends_names [OF assms(1)] extends_names [OF assms(2)] by (intro allI conjI extends_distinct [OF assms(2)]) simp

lemma merge_applications_extend:
  assumes "try_fold (merge_application pl cfg ms) apps (m, owners) = Inr (m', owners')" and "\<And>s. distinct (map fst (m s))"
  shows "extends (set sections) m (\<lambda>s. concat (map (app_names pl cfg ms s) apps)) m'"
  using assms
proof (induction apps arbitrary: m owners)
  case Nil
  then show ?case by (simp add: extends_def)
next
  case (Cons src apps)
  then obtain mid mid_owners where mid: "merge_application pl cfg ms src (m, owners) = Inr (mid, mid_owners)"
    "try_fold (merge_application pl cfg ms) apps (mid, mid_owners) = Inr (m', owners')"
    by (auto simp: then_do_Inr_iff)
  have first: "extends (set sections) m (\<lambda>s. app_names pl cfg ms s src) mid"
    using mid(1) Cons.prems(2) by (rule merge_application_extends)
  have "extends (set sections) mid (\<lambda>s. concat (map (app_names pl cfg ms s) apps)) m'"
    using mid(2) extends_distinct [OF first] by (rule Cons.IH)
  from extends_trans [OF first this] show ?case by simp
qed

lemma fromkeys_aux_cong: "set seen = set seen' \<Longrightarrow> fromkeys_aux seen xs = fromkeys_aux seen' xs"
proof (induction xs arbitrary: seen seen')
  case (Cons x xs)
  from Cons.IH [of "x # seen" "x # seen'"] Cons.IH [of seen seen'] Cons.prems show ?case by simp
qed simp

lemma fold_dict_set_keys: "map fst (fold (\<lambda>(k, v). dict_set k v) kvs acc) = map fst acc @ fromkeys_aux (map fst acc) (map fst kvs)"
proof (induction kvs arbitrary: acc)
  case (Cons kv kvs)
  have "fromkeys_aux (map fst acc @ [fst kv]) ks = fromkeys_aux (fst kv # map fst acc) ks" for ks
    by (rule fromkeys_aux_cong) auto
  with Cons show ?case by (cases kv) (auto simp: keys_dict_set)
qed simp

lemma project_keys:
  assumes "project_compose_document pl cfg cat = Inr ps"
  shows "map fst ps = project_names cfg ''services''"
proof -
  from assms obtain kvs where kvs: "each (\<lambda>p. then_do (project_service pl cfg cat p) (\<lambda>s. Inr (project_service_name p, s)))
      (sort_key project_subdomain (projects cfg)) = Inr kvs" and ps: "ps = fold (\<lambda>(k, v). dict_set k v) kvs []"
    by (auto simp: project_compose_document_def then_do_Inr_iff)
  have "list_all2 (\<lambda>p y. fst y = project_service_name p) (sort_key project_subdomain (projects cfg)) kvs"
    using kvs unfolding each_Inr_iff by (rule list_all2_mono) (auto simp: then_do_Inr_iff)
  then have "map fst kvs = map project_service_name (sort_key project_subdomain (projects cfg))"
    by (auto simp: list_all2_conv_all_nth intro: nth_equalityI)
  with ps show ?thesis by (simp add: fold_dict_set_keys project_names_def fromkeys_def)
qed

lemma merge_projects_extend:
  assumes "merge_projects pl cfg cat (m, owners) = Inr (m', owners')" and "\<And>s. distinct (map fst (m s))"
  shows "extends (set sections) m (project_names cfg) m'"
proof (cases "projects cfg = []")
  case True
  with assms have "m' = m" and "project_names cfg s = []" for s by (auto simp: merge_projects_def project_names_def fromkeys_def)
  with assms(2) show ?thesis by (simp add: extends_def)
next
  case False
  let ?part = "\<lambda>ps s. if s = ''services'' then PDict (map (\<lambda>(n, d). (KStr n, PDict d)) ps) else PNone"
  from False assms(1) obtain ps where ps: "project_compose_document pl cfg cat = Inr ps"
    and merged: "merge_all ''declarative projects'' (?part ps) sections m = Inr m'"
    by (auto simp: merge_projects_def then_do_Inr_iff map_sum_Inr_iff)
  have "text_keys (map (\<lambda>(n, d). (KStr n, PDict d)) ps) = map fst ps" by (induction ps) auto
  with project_keys [OF ps] have "part_names (?part ps s) = project_names cfg s" for s
    by (simp add: part_names_def block_of_def project_names_def)
  then have "part_names \<circ> ?part ps = project_names cfg" unfolding comp_def by (rule ext)
  with merge_all_extends [OF merged assms(2) sections_mem(2)] show ?thesis by simp
qed

text \<open>The names of the platform file in the sections it may have.\<close>

definition platform_names :: "compose_source \<Rightarrow> string \<Rightarrow> string list" where
  "platform_names platform s = (if s = ''services'' then [] else part_names (source_part platform s))"

lemma merge_sources_names:
  assumes "merge_sources pl cfg ms cat platform apps = Inr (merged, owners)" and "s \<in> set sections"
  shows "map fst (merged s) = platform_names platform s @ concat (map (app_names pl cfg ms s) apps) @ project_names cfg s"
    and "distinct (map fst (merged s))"
proof -
  from assms(1) obtain d m0 m1 owners1 where load: "load_mapping False platform = Inr d"
    and m0: "merge_all (source_name platform) (\<lambda>s. dict_get_or s PNone d) (tl sections) (\<lambda>s. []) = Inr m0"
    and m1: "try_fold (merge_application pl cfg ms) apps (m0, []) = Inr (m1, owners1)"
    and m2: "merge_projects pl cfg cat (m1, owners1) = Inr (merged, owners)"
    by (auto simp: merge_sources_def then_do_Inr_iff split: if_splits)
  from load have d: "source_value platform = Some (PDict d)"
    by (auto simp: load_mapping_def split: option.splits pyval.splits if_splits)
  have e0: "extends (set (tl sections)) (\<lambda>s. []) (part_names \<circ> (\<lambda>s. dict_get_or s PNone d)) m0"
    using m0 by (rule merge_all_extends) (simp_all add: sections_def)
  have e1: "extends (set sections) m0 (\<lambda>s. concat (map (app_names pl cfg ms s) apps)) m1"
    using m1 extends_distinct [OF e0] by (rule merge_applications_extend)
  have e2: "extends (set sections) m1 (project_names cfg) merged"
    using m2 extends_distinct [OF e1] by (rule merge_projects_extend)
  show "distinct (map fst (merged s))" using e2 by (rule extends_distinct)
  have "map fst (m0 s) = platform_names platform s"
    using extends_names [OF e0, of s] assms(2) by (auto simp: platform_names_def source_part_def d sections_def)
  with extends_names [OF extends_trans [OF e1 e2], of s] assms(2)
  show "map fst (merged s) = platform_names platform s @ concat (map (app_names pl cfg ms s) apps) @ project_names cfg s" by simp
qed

section \<open>One source per resource\<close>

lemma images_names: "apply_release_images pins services = Inr services' \<Longrightarrow> map fst services' = map fst services"
  by (auto simp: apply_release_images_def Let_def split: if_splits)

lemma document_parts:
  assumes "compose_document digest name_hash tx pl cfg ms cat platform apps active = Some (Inr model)"
  obtains merged owners where "merge_sources pl cfg ms cat platform apps = Inr (merged, owners)"
    and "map fst (model_services model) = map fst (merged ''services'')" and "model_volumes model = merged ''volumes''"
    and "model_configs model = merged ''configs''" and "model_secrets model = merged ''secrets''"
proof -
  from assms obtain merged owners where src: "merge_sources pl cfg ms cat platform apps = Inr (merged, owners)"
    by (cases "merge_sources pl cfg ms cat platform apps") (auto simp: compose_document_def)
  with assms obtain services nets mounted final
    where linked: "compile_service_networks digest name_hash tx pl cfg ms cat owners
        (map (\<lambda>(n, v). (n, block_of v)) (merged ''services''), merged ''networks'') = Some (Inr (services, nets))"
      and mounted: "(if is_multi_node cfg then Inr services
          else then_do (map_sum Compose_config id (control_node cfg)) (\<lambda>c. inject_backup_mounts tx pl cfg ms c services)) = Inr mounted"
      and final: "(case active of None \<Rightarrow> Inr mounted | Some pins \<Rightarrow> apply_release_images pins mounted) = Inr final"
      and model: "model = \<lparr>model_services = final, model_networks = nets, model_volumes = merged ''volumes'',
         model_configs = merged ''configs'', model_secrets = merged ''secrets''\<rparr>"
    by (auto simp: compose_document_def then_do_Inr_iff)
  from linked obtain nets'' where "link_services digest tx pl cfg ms cat owners
      (map (\<lambda>(n, v). (n, block_of v)) (merged ''services''), merged ''networks'') = Inr (services, nets'')"
    by (rule compiled_links)
  from gains_names [OF link_services_gains [OF this]] have "map fst services = map fst (merged ''services'')"
    by (simp add: comp_def case_prod_beta)
  moreover from mounted have "map fst mounted = map fst services"
    by (auto simp: then_do_Inr_iff mounts_keep(1) split: if_splits)
  moreover from final have "map fst final = map fst mounted" by (auto simp: images_names split: option.splits)
  ultimately show thesis using that [OF src] model by simp
qed

text \<open>
  C34. Every resource of the assembled model is defined by exactly one source.  The services of the model are, in this order,
  those of the enabled applications and of the projects; its volumes, configs and secrets those of the
  platform file and of the enabled applications; the declared networks likewise; and no name occurs twice.
\<close>

theorem resources_defined_once:
  assumes "compose_document digest name_hash tx pl cfg ms cat platform apps active = Some (Inr model)"
  shows "map fst (model_services model) = concat (map (app_names pl cfg ms ''services'') apps) @ project_names cfg ''services''
    \<and> distinct (map fst (model_services model))
    \<and> list_all (\<lambda>(s, part). map fst (part model) = platform_names platform s @ concat (map (app_names pl cfg ms s) apps)
        \<and> distinct (map fst (part model))) [(''volumes'', model_volumes), (''configs'', model_configs), (''secrets'', model_secrets)]
    \<and> distinct (platform_names platform ''networks'' @ concat (map (app_names pl cfg ms ''networks'') apps))"
proof -
  from assms obtain merged owners where src: "merge_sources pl cfg ms cat platform apps = Inr (merged, owners)"
    and parts: "map fst (model_services model) = map fst (merged ''services'')" "model_volumes model = merged ''volumes''"
      "model_configs model = merged ''configs''" "model_secrets model = merged ''secrets''"
    by (rule document_parts)
  have names: "map fst (merged s) = platform_names platform s @ concat (map (app_names pl cfg ms s) apps) @ project_names cfg s"
    "distinct (map fst (merged s))" if "s \<in> set sections" for s
    using merge_sources_names [OF src that] by blast+
  have "s \<noteq> ''services'' \<Longrightarrow> project_names cfg s = []" and "platform_names platform ''services'' = []" for s
    by (simp_all add: project_names_def platform_names_def)
  then have all: "map fst (merged ''services'') = concat (map (app_names pl cfg ms ''services'') apps) @ project_names cfg ''services''"
    "s \<in> {''networks'', ''volumes'', ''configs'', ''secrets''}
      \<Longrightarrow> map fst (merged s) = platform_names platform s @ concat (map (app_names pl cfg ms s) apps)" for s
    using names(1) [of "''services''"] names(1) [of s] by (auto simp: sections_mem)
  from names(2) [of "''networks''"] all(2) [of "''networks''"]
  have nets: "distinct (platform_names platform ''networks'' @ concat (map (app_names pl cfg ms ''networks'') apps))"
    by (simp only: sections_mem insert_iff simp_thms)
  show ?thesis
  proof (intro conjI nets)
    show "map fst (model_services model) = concat (map (app_names pl cfg ms ''services'') apps) @ project_names cfg ''services''"
      using parts(1) all(1) by (rule trans)
    show "distinct (map fst (model_services model))" unfolding parts(1) by (rule names(2)) (simp add: sections_mem)
    show "list_all (\<lambda>(s, part). map fst (part model) = platform_names platform s @ concat (map (app_names pl cfg ms s) apps)
        \<and> distinct (map fst (part model))) [(''volumes'', model_volumes), (''configs'', model_configs), (''secrets'', model_secrets)]"
      unfolding list.pred_inject prod.case parts by (intro conjI TrueI all(2) names(2)) (simp_all add: sections_mem)
  qed
qed

theorem resources_defined_once_witness:
  "map fst (model_services proxy_model) = concat (map (app_names proxy_plugins proxy_config [proxy_manifest] ''services'') [proxy_source_file])
     @ project_names proxy_config ''services''"
  using resources_defined_once [OF proxy_document] by blast

end
