(* ===== verification/Deploy_Recovery.thy ===== *)
theory Deploy_Recovery
  imports Desired_State
begin

text \<open>
  \<open>run_recover_workflow\<close> of \<open>core/deploy/deploy_recovery.py\<close>: preflight, custom images, the recovery playbook, hooks and
  their verification, container checks, and what is reported of each step; with the check results of
  \<open>core/verify/models.py\<close> and \<open>preflight_passed\<close> of \<open>core/ops/preflight.py\<close>.  What the external programs answer
  is the record \<open>recover_env\<close>: None, or an error, where the call raises.  The cancellation marker is read at the
  polls of the lease, whose answers are a list; an exhausted list answers no.  The callbacks only report and do not raise, and a
  lease can be released; what is logged is not modelled.
\<close>

section \<open>Checks\<close>

datatype verify_status = Check_pass | Check_fail | Check_not_applicable | Check_degraded | Check_not_ready

record verify_check =
  check_service :: string
  check_name :: string
  check_passed :: bool
  check_detail :: string
  check_retryable :: bool
  check_status :: verify_status

text \<open>The details of older checks that were skipped, and the constructor; None is a \<open>ValueError\<close>.\<close>

definition legacy_not_applicable :: "string \<Rightarrow> bool" where
  "legacy_not_applicable detail =
     (let d = lower detail
      in prefix ''skipped ('' d \<or> suffix ''(skipped)'' d \<or> sublist ''not applicable'' d \<or> suffix '' not enabled'' d
         \<or> d = ''single-host skip'')"

definition resolved_status :: "bool \<Rightarrow> string \<Rightarrow> verify_status option \<Rightarrow> verify_status" where
  "resolved_status ok detail status =
     (case status of
        None \<Rightarrow> if ok \<and> legacy_not_applicable detail then Check_not_applicable else if ok then Check_pass else Check_fail
      | Some st \<Rightarrow> st)"

definition new_check :: "string \<Rightarrow> string \<Rightarrow> bool \<Rightarrow> string \<Rightarrow> bool \<Rightarrow> verify_status option \<Rightarrow> verify_check option" where
  "new_check service name ok detail retryable status =
     (let st = resolved_status ok detail status
      in if st = Check_pass \<and> \<not> ok then None
         else if st = Check_not_applicable \<and> \<not> ok then None
         else if st \<in> {Check_fail, Check_degraded, Check_not_ready} \<and> ok then None
         else Some \<lparr>check_service = service, check_name = name, check_passed = ok, check_detail = detail,
                    check_retryable = retryable, check_status = st\<rparr>)"

definition all_passed :: "verify_check list \<Rightarrow> bool" where
  "all_passed checks = list_all (\<lambda>c. check_status c \<in> {Check_pass, Check_not_applicable}) checks"

definition failed_checks :: "verify_check list \<Rightarrow> verify_check list" where
  "failed_checks checks = filter (\<lambda>c. check_status c \<in> {Check_fail, Check_degraded, Check_not_ready}) checks"

definition retryable_failures :: "verify_check list \<Rightarrow> verify_check list" where
  "retryable_failures checks = filter check_retryable (failed_checks checks)"

definition passed_count :: "verify_check list \<Rightarrow> nat" where
  "passed_count checks = length (filter (\<lambda>c. check_status c = Check_pass) checks)"

definition failed_count :: "verify_check list \<Rightarrow> nat" where
  "failed_count checks = length (filter (\<lambda>c. check_status c \<in> {Check_fail, Check_degraded, Check_not_ready}) checks)"

definition total_count :: "verify_check list \<Rightarrow> nat" where
  "total_count checks = length (filter (\<lambda>c. check_status c \<noteq> Check_not_applicable) checks)"

definition preflight_passed :: "(string \<times> bool) list \<Rightarrow> bool" where
  "preflight_passed items =
     (let required = filter (\<lambda>i. i \<notin> {''load'', ''database_mesh''}) (map fst items)
      in list_all (\<lambda>(i, ok). i \<in> set required \<longrightarrow> ok) items)"

section \<open>Steps\<close>

datatype step_state = Pending | Running | Step_ok | Step_failed | Step_skipped

record recover_state =
  steps :: "(string \<times> step_state) list"
  polls :: "bool list"
  held :: bool

definition deploy_step_id :: "string \<Rightarrow> string" where
  "deploy_step_id vm = ''deploy_'' @ vm"

definition recover_targets :: "config \<Rightarrow> string option \<Rightarrow> string list" where
  "recover_targets cfg vm = (case vm of None \<Rightarrow> enabled_nodes cfg | Some v \<Rightarrow> if v = [] then enabled_nodes cfg else [v])"

definition init_recover_step_status :: "config \<Rightarrow> string option \<Rightarrow> (string \<times> step_state) list" where
  "init_recover_step_status cfg vm =
     map (\<lambda>s. (s, Pending))
       (fromkeys (''preflight'' # map deploy_step_id (recover_targets cfg vm) @ [''hooks'', ''hook_verify'', ''verify'']))"

definition set_step :: "string \<Rightarrow> step_state \<Rightarrow> recover_state \<Rightarrow> recover_state" where
  "set_step name st s = s\<lparr>steps := dict_set name st (steps s)\<rparr>"

definition set_targets :: "string list \<Rightarrow> (string \<Rightarrow> step_state) \<Rightarrow> recover_state \<Rightarrow> recover_state" where
  "set_targets targets f s = fold (\<lambda>n. set_step (deploy_step_id n) (f n)) targets s"

definition skip_pending :: "recover_state \<Rightarrow> recover_state" where
  "skip_pending s =
     fold (\<lambda>n s. if map_of (steps s) n = Some Pending then set_step n Step_skipped s else s) [''hooks'', ''hook_verify'', ''verify''] s"

definition fail_running :: "recover_state \<Rightarrow> recover_state" where
  "fail_running s = fold (\<lambda>(n, st) s. if st = Running then set_step n Step_failed s else s) (steps s) s"

text \<open>How a run ends: with a result, by cancellation, or by another exception.\<close>

datatype run_end = Ended bool | Cancelled_run | Raised_run

text \<open>A stage goes on with the next one, or ends the run.\<close>

type_synonym 'a stage = "(run_end + 'a) \<times> recover_state"

definition and_then :: "'a stage \<Rightarrow> ('a \<Rightarrow> recover_state \<Rightarrow> 'b stage) \<Rightarrow> 'b stage" where
  "and_then r f = (case r of (Inl e, s) \<Rightarrow> (Inl e, s) | (Inr a, s) \<Rightarrow> f a s)"

definition lease_poll :: "recover_state \<Rightarrow> unit stage" where
  "lease_poll s =
     (case polls s of
        [] \<Rightarrow> (Inr (), s)
      | c # cs \<Rightarrow> (if c then Inl Cancelled_run else Inr (), s\<lparr>polls := cs\<rparr>))"

section \<open>The environment\<close>

datatype images_outcome = Images_ready | Images_failed | Images_raise

text \<open>An exception of the hook verification that the workflow handles, or another one.\<close>

datatype hook_fault = Handled_fault | Other_fault

record recover_env =
  files_present :: bool
  lease_given :: bool
  lease_acquired :: bool
  root_owned :: bool
  preflight_items :: "(string \<times> bool) list option"
  image_outcome :: images_outcome
  playbook_code :: "int option"
  seen_targets :: "string list"
  run_hooks :: "string \<Rightarrow> ((string \<times> string list) list \<times> bool) option"
  credential_logs :: "string \<Rightarrow> string list option"
  secrets_fault :: "hook_fault option"
  hook_checks :: "nat \<Rightarrow> string list option \<Rightarrow> hook_fault + verify_check list"
  container_checks :: "nat \<Rightarrow> (string \<times> bool) list option"

section \<open>Stages\<close>

definition preflight_stage :: "recover_env \<Rightarrow> recover_state \<Rightarrow> unit stage" where
  "preflight_stage env s =
     (if \<not> root_owned env then (Inl Raised_run, s\<lparr>held := False\<rparr>)
      else (let s = set_step ''preflight'' Running s
            in case preflight_items env of
                 None \<Rightarrow> (Inl Raised_run, s\<lparr>held := False\<rparr>)
               | Some items \<Rightarrow>
                   if \<not> preflight_passed items then (Inl (Ended False), (set_step ''preflight'' Step_failed s)\<lparr>held := False\<rparr>)
                   else (case lease_poll (set_step ''preflight'' Step_ok s) of
                           (Inl e, s) \<Rightarrow> (Inl e, s\<lparr>held := False\<rparr>)
                         | r \<Rightarrow> r)))"

definition images_stage :: "recover_env \<Rightarrow> string list \<Rightarrow> recover_state \<Rightarrow> unit stage" where
  "images_stage env targets s =
     (case image_outcome env of
        Images_raise \<Rightarrow> (Inl Raised_run, s)
      | Images_failed \<Rightarrow> (Inl (Ended False), skip_pending (set_targets targets (\<lambda>n. Step_failed) s))
      | Images_ready \<Rightarrow> (Inr (), s))"

definition playbook_stage :: "recover_env \<Rightarrow> string list \<Rightarrow> recover_state \<Rightarrow> unit stage" where
  "playbook_stage env targets s =
     (case playbook_code env of
        None \<Rightarrow> (Inl Raised_run, s)
      | Some c \<Rightarrow>
          and_then (lease_poll s) (\<lambda>u s.
            let s = set_targets targets (\<lambda>n. if c = 0 then Step_ok else if n \<in> set (seen_targets env) then Step_failed else Step_skipped) s
            in if c = 0 \<and> list_all (\<lambda>n. map_of (steps s) (deploy_step_id n) = Some Step_ok) targets then (Inr (), s)
               else (Inl (Ended False), skip_pending s)))"

text \<open>\<open>vm_hooks.setdefault(name, []).extend(...)\<close>, and whether no line reports an error.\<close>

definition hook_logs_ok :: "string \<Rightarrow> (string \<times> string list) list \<Rightarrow> string list \<Rightarrow> bool" where
  "hook_logs_ok name hooks credentials =
     list_all (\<lambda>(n, ls). list_all (\<lambda>l. \<not> prefix ''Hook error:'' l) ls)
       (if credentials = [] then hooks
        else dict_set name ((case map_of hooks name of None \<Rightarrow> [] | Some ls \<Rightarrow> ls) @ credentials) hooks)"

fun hooks_loop :: "recover_env \<Rightarrow> string list \<Rightarrow> bool \<Rightarrow> recover_state \<Rightarrow> bool stage" where
  "hooks_loop env [] ok s = (Inr ok, s)"
| "hooks_loop env (n # ns) ok s =
     and_then (lease_poll s) (\<lambda>u s.
       case (run_hooks env n, credential_logs env n) of
         (Some (hooks, vm_ok), Some credentials) \<Rightarrow> hooks_loop env ns (ok \<and> hook_logs_ok n hooks credentials \<and> vm_ok) s
       | _ \<Rightarrow> (Inl Raised_run, s))"

definition hooks_stage :: "recover_env \<Rightarrow> string list \<Rightarrow> recover_state \<Rightarrow> bool stage" where
  "hooks_stage env targets s =
     and_then (hooks_loop env targets True (set_step ''hooks'' Running s)) (\<lambda>ok s.
       (Inr ok, set_step ''hooks'' (if ok then Step_ok else Step_failed) s))"

definition accumulate :: "verify_check list \<Rightarrow> ((string \<times> string) \<times> verify_check) list \<Rightarrow> ((string \<times> string) \<times> verify_check) list" where
  "accumulate checks acc = fold (\<lambda>c. dict_set (check_service c, check_name c) c) checks acc"

text \<open>The attempts that are left; the answer is whether the checks passed, or the exception.\<close>

fun hook_attempts ::
  "recover_env \<Rightarrow> nat \<Rightarrow> string list option \<Rightarrow> ((string \<times> string) \<times> verify_check) list \<Rightarrow> recover_state \<Rightarrow> (hook_fault + bool) stage"
where
  "hook_attempts env 0 only acc s = (Inr (Inr True), s)"
| "hook_attempts env (Suc left) only acc s =
     and_then (lease_poll s) (\<lambda>u s.
       case hook_checks env (3 - left) only of
         Inl f \<Rightarrow> (Inr (Inl f), s)
       | Inr checks \<Rightarrow>
           (let acc = accumulate checks acc; all = map snd acc
            in if all_passed all then (Inr (Inr True), s)
               else if left > 0 \<and> retryable_failures all \<noteq> []
               then and_then (lease_poll s) (\<lambda>u s. hook_attempts env left (Some (map check_service (retryable_failures all))) acc s)
               else (Inr (Inr False), s)))"

definition hook_verify_stage :: "recover_env \<Rightarrow> recover_state \<Rightarrow> bool stage" where
  "hook_verify_stage env s =
     (let s = set_step ''hook_verify'' Running s
      in and_then (case secrets_fault env of None \<Rightarrow> hook_attempts env 3 None [] s | Some f \<Rightarrow> (Inr (Inl f), s)) (\<lambda>r s.
           case r of
             Inl Other_fault \<Rightarrow> (Inl Raised_run, s)
           | Inl Handled_fault \<Rightarrow> (Inr False, set_step ''hook_verify'' Step_failed s)
           | Inr ok \<Rightarrow> (Inr ok, set_step ''hook_verify'' (if ok then Step_ok else Step_failed) s)))"

fun verify_attempts :: "recover_env \<Rightarrow> nat \<Rightarrow> recover_state \<Rightarrow> bool stage" where
  "verify_attempts env 0 s = (Inr True, s)"
| "verify_attempts env (Suc left) s =
     (case container_checks env (3 - left) of
        None \<Rightarrow> (Inl Raised_run, s)
      | Some results \<Rightarrow>
          if list_all snd results then (Inr True, s)
          else if left > 0 then and_then (lease_poll s) (\<lambda>u s. verify_attempts env left s)
          else (Inr False, s))"

definition verify_stage :: "recover_env \<Rightarrow> recover_state \<Rightarrow> bool stage" where
  "verify_stage env s =
     and_then (lease_poll (set_step ''verify'' Running s)) (\<lambda>u s.
     and_then (verify_attempts env 3 s) (\<lambda>ok s.
     and_then (lease_poll (set_step ''verify'' (if ok then Step_ok else Step_failed) s)) (\<lambda>u s. (Inr ok, s))))"

section \<open>The workflow\<close>

text \<open>
  The body after the preflight: a cancellation marks the running steps as failed, and a lease that the workflow took itself is
  released at the end.
\<close>

definition recover_body :: "recover_env \<Rightarrow> string list \<Rightarrow> recover_state \<Rightarrow> run_end \<times> recover_state" where
  "recover_body env targets s =
     (case and_then (images_stage env targets (set_targets targets (\<lambda>n. Running) s)) (\<lambda>u s.
           and_then (playbook_stage env targets s) (\<lambda>u s.
           and_then (hooks_stage env targets s) (\<lambda>hooks_ok s.
           and_then (hook_verify_stage env s) (\<lambda>hook_verify_ok s.
           and_then (verify_stage env s) (\<lambda>verify_ok s. (Inr (hooks_ok \<and> hook_verify_ok \<and> verify_ok), s)))))) of
        (r, s) \<Rightarrow>
          (let e = (case r of Inl e \<Rightarrow> e | Inr ok \<Rightarrow> Ended ok);
               s = (if e = Cancelled_run then fail_running s else s)
           in (e, if lease_given env then s else s\<lparr>held := False\<rparr>)))"

definition run_recover_workflow :: "recover_env \<Rightarrow> config \<Rightarrow> string option \<Rightarrow> bool list \<Rightarrow> run_end \<times> recover_state" where
  "run_recover_workflow env cfg vm answers =
     (let s = \<lparr>steps = init_recover_step_status cfg vm, polls = answers, held = lease_given env\<rparr>
      in if isl (control_node cfg) then (Raised_run, s)
         else if \<not> files_present env then (Ended False, s)
         else if \<not> lease_given env \<and> \<not> lease_acquired env then (Ended False, s)
         else (case preflight_stage env (s\<lparr>held := True\<rparr>) of
                 (Inl e, s) \<Rightarrow> (e, s)
               | (Inr u, s) \<Rightarrow> recover_body env (recover_targets cfg vm) s))"

end
