(* ===== verification/Recovery_Properties.thy ===== *)
theory Recovery_Properties
  imports Deploy_Recovery
begin

text \<open>
  What a recovery reports: success means that every step succeeded, no step is reported as running after the end, and when
  the lease is given back.
\<close>

section \<open>Checks\<close>

text \<open>The flag and the status of a check agree, an omitted status is never refused, and the counts add up.\<close>

lemma new_check_agrees:
  "new_check service name ok detail retryable status = Some c \<Longrightarrow>
     check_passed c = ok \<and> (check_status c \<in> {Check_pass, Check_not_applicable} \<longleftrightarrow> ok)"
  by (cases "check_status c") (auto simp: new_check_def Let_def split: if_splits)

lemma new_check_without_status: "\<exists>c. new_check service name ok detail retryable None = Some c"
  by (simp add: new_check_def resolved_status_def)

lemma counts_add_up: "passed_count checks + failed_count checks = total_count checks"
proof (induction checks)
  case (Cons c checks)
  then show ?case
    by (cases "check_status c") (simp_all add: passed_count_def failed_count_def total_count_def)
qed (simp add: passed_count_def failed_count_def total_count_def)

lemma all_passed_iff: "all_passed checks \<longleftrightarrow> passed_count checks = total_count checks"
proof -
  have "(c = Check_pass \<or> c = Check_not_applicable) = (c \<notin> {Check_fail, Check_degraded, Check_not_ready})" for c
    by (cases c) auto
  then have "all_passed checks \<longleftrightarrow> failed_count checks = 0"
    by (auto simp: all_passed_def failed_count_def list_all_iff filter_empty_conv)
  then show ?thesis using counts_add_up [of checks] by auto
qed

section \<open>Steps as a table\<close>

abbreviation state_of :: "recover_state \<Rightarrow> string \<Rightarrow> step_state option" where
  "state_of s \<equiv> map_of (steps s)"

lemma set_step_state [simp]: "state_of (set_step n st s) = (state_of s)(n \<mapsto> st)"
  by (simp add: set_step_def map_of_dict_set)

lemma set_step_same [simp]: "polls (set_step n st s) = polls s" "held (set_step n st s) = held s"
  by (simp_all add: set_step_def)

lemma set_targets_state:
  "state_of (set_targets ts f s) = (\<lambda>n. if n \<in> deploy_step_id ` set ts then Some (f (drop 7 n)) else state_of s n)"
proof (induction ts arbitrary: s)
  case (Cons t ts)
  show ?case
    using Cons [of "set_step (deploy_step_id t) (f t) s"]
    by (auto simp: set_targets_def fun_eq_iff deploy_step_id_def)
qed (simp add: set_targets_def)

text \<open>The states of the preflight, of the targets, of the hooks, of their verification and of the container checks.\<close>

definition table ::
  "string list \<Rightarrow> step_state \<Rightarrow> (string \<Rightarrow> step_state) \<Rightarrow> step_state \<Rightarrow> step_state \<Rightarrow> step_state \<Rightarrow> string \<Rightarrow> step_state option"
where
  "table ts p d h v c n =
     (if n = ''preflight'' then Some p else if n \<in> deploy_step_id ` set ts then Some (d (drop 7 n))
      else if n = ''hooks'' then Some h else if n = ''hook_verify'' then Some v else if n = ''verify'' then Some c else None)"

lemma fixed_names [simp]:
  "''preflight'' \<noteq> deploy_step_id t" "''hooks'' \<noteq> deploy_step_id t" "''hook_verify'' \<noteq> deploy_step_id t" "''verify'' \<noteq> deploy_step_id t"
  by (simp_all add: deploy_step_id_def)

lemma table_updates [simp]:
  "(table ts p d h v c)(''preflight'' \<mapsto> st) = table ts st d h v c"
  "(table ts p d h v c)(''hooks'' \<mapsto> st) = table ts p d st v c"
  "(table ts p d h v c)(''hook_verify'' \<mapsto> st) = table ts p d h st c"
  "(table ts p d h v c)(''verify'' \<mapsto> st) = table ts p d h v st"
  by (auto simp: table_def fun_eq_iff)

lemma table_fixed [simp]:
  "table ts p d h v c ''preflight'' = Some p" "table ts p d h v c ''hooks'' = Some h"
  "table ts p d h v c ''hook_verify'' = Some v" "table ts p d h v c ''verify'' = Some c"
  by (auto simp: table_def)

lemma table_target [simp]: "t \<in> set ts \<Longrightarrow> table ts p d h v c (deploy_step_id t) = Some (d t)"
  by (simp add: table_def) (simp add: deploy_step_id_def)

lemma table_targets: "state_of s = table ts p d h v c \<Longrightarrow> state_of (set_targets ts f s) = table ts p f h v c"
  by (auto simp: set_targets_state table_def fun_eq_iff)

lemma skip_pending_table:
  "state_of s = table ts p d Pending Pending Pending \<Longrightarrow> state_of (skip_pending s) = table ts p d Step_skipped Step_skipped Step_skipped"
  by (simp add: skip_pending_def)

lemma fail_running_state:
  assumes "distinct (map fst (steps s))"
  shows "state_of (fail_running s) n = map_option (\<lambda>st. if st = Running then Step_failed else st) (state_of s n)"
proof -
  have "state_of (fold (\<lambda>(n, st) s. if st = Running then set_step n Step_failed s else s) xs t) n
      = (if (n, Running) \<in> set xs then Some Step_failed else state_of t n)" for xs t
  proof (induction xs arbitrary: t)
    case (Cons x xs)
    then show ?case by (cases x) auto
  qed simp
  moreover have "(n, Running) \<in> set (steps s) \<longleftrightarrow> state_of s n = Some Running"
    using assms by simp
  ultimately show ?thesis by (auto simp: fail_running_def map_option_case split: option.splits)
qed

section \<open>Loops leave the steps alone\<close>

definition same :: "recover_state \<Rightarrow> recover_state \<Rightarrow> bool" where
  "same s s' \<longleftrightarrow> steps s' = steps s \<and> held s' = held s"

lemma same_refl [simp]: "same s s"
  by (simp add: same_def)

lemma same_trans: "same s t \<Longrightarrow> same t u \<Longrightarrow> same s u"
  by (simp add: same_def)

lemma same_state: "same s s' \<Longrightarrow> state_of s' = state_of s"
  by (simp add: same_def)

lemma lease_poll_same: "lease_poll s = (r, s') \<Longrightarrow> same s s'"
  by (auto simp: lease_poll_def same_def split: list.splits)

lemma and_thenE:
  assumes "and_then r f = (q, s')"
  obtains (stop) e where "r = (Inl e, s')" and "q = Inl e" | (go) a s where "r = (Inr a, s)" and "f a s = (q, s')"
  using assms by (auto simp: and_then_def split: prod.splits sum.splits)

lemma hooks_loop_same: "hooks_loop env ns ok s = (r, s') \<Longrightarrow> same s s'"
proof (induction ns arbitrary: ok s)
  case (Cons n ns)
  from Cons.prems show ?case unfolding hooks_loop.simps
  proof (cases rule: and_thenE)
    case (go u t)
    then show ?thesis using Cons.IH lease_poll_same same_trans
      by (auto split: option.splits prod.splits) blast+
  qed (auto dest: lease_poll_same)
qed simp

lemma verify_attempts_same: "verify_attempts env k s = (r, s') \<Longrightarrow> same s s'"
proof (induction k arbitrary: s)
  case (Suc k)
  then show ?case
    by (auto split: option.splits if_splits elim!: and_thenE dest: lease_poll_same intro: same_trans)
qed simp

lemma hook_attempts_same: "hook_attempts env k only acc s = (r, s') \<Longrightarrow> same s s'"
proof (induction k arbitrary: only acc s)
  case (Suc k)
  then show ?case
    by (auto simp: Let_def split: sum.splits if_splits elim!: and_thenE dest!: lease_poll_same) (blast intro: same_trans)+
qed simp

section \<open>Stages\<close>

text \<open>
  A step table under which a run may end: with success only when all steps succeeded, without success only when one did not.
\<close>

definition step_list :: "string list \<Rightarrow> string list" where
  "step_list ts = fromkeys (''preflight'' # map deploy_step_id ts @ [''hooks'', ''hook_verify'', ''verify''])"

definition settled :: "string list \<Rightarrow> run_end \<Rightarrow> recover_state \<Rightarrow> bool" where
  "settled ts e s \<longleftrightarrow>
     (case e of
        Ended ok \<Rightarrow> (\<forall>n. state_of s n \<noteq> Some Running) \<and> (ok \<longleftrightarrow> (\<forall>n \<in> set (step_list ts). state_of s n = Some Step_ok))
      | _ \<Rightarrow> True)"

lemma table_settled:
  assumes "state_of s = table ts p d h v c" and "Running \<notin> {p, h, v, c}" and "\<And>t. t \<in> set ts \<Longrightarrow> d t \<noteq> Running"
    and "ok \<longleftrightarrow> p = Step_ok \<and> (\<forall>t \<in> set ts. d t = Step_ok) \<and> h = Step_ok \<and> v = Step_ok \<and> c = Step_ok"
  shows "settled ts (Ended ok) s"
proof -
  have "table ts p d h v c n \<noteq> Some Running" for n
  proof (cases "n \<in> deploy_step_id ` set ts")
    case True
    then show ?thesis using assms(3) by auto
  next
    case False
    then show ?thesis using assms(2) by (auto simp: table_def)
  qed
  moreover have "(\<forall>n \<in> set (step_list ts). table ts p d h v c n = Some Step_ok) \<longleftrightarrow> ok"
    using assms(4) by (auto simp: step_list_def)
  ultimately show ?thesis using assms(1) by (simp add: settled_def)
qed

text \<open>Every stage keeps the step names distinct and the lease.\<close>

definition goes :: "recover_state \<Rightarrow> recover_state \<Rightarrow> bool" where
  "goes s s' \<longleftrightarrow> (distinct (map fst (steps s)) \<longrightarrow> distinct (map fst (steps s'))) \<and> held s' = held s"

lemma goes_refl [simp]: "goes s s"
  by (simp add: goes_def)

lemma goes_trans: "goes s t \<Longrightarrow> goes t u \<Longrightarrow> goes s u"
  by (simp add: goes_def)

lemma same_goes: "same s s' \<Longrightarrow> goes s s'"
  by (simp add: same_def goes_def)

lemma set_step_goes [simp]: "goes s (set_step n st s)"
  by (auto simp: goes_def set_step_def)

lemma fold_goes: "(\<And>x s. goes s (f x s)) \<Longrightarrow> goes s (fold f xs s)"
  by (induction xs arbitrary: s) (auto intro: goes_trans)

lemma set_targets_goes [simp]: "goes s (set_targets ts f s)"
  by (auto simp: set_targets_def intro: fold_goes)

lemma skip_pending_goes [simp]: "goes s (skip_pending s)"
  unfolding skip_pending_def by (rule fold_goes) auto

lemma fail_running_goes [simp]: "goes s (fail_running s)"
  unfolding fail_running_def by (rule fold_goes) (auto split: prod.splits)

lemma images_stage_spec:
  assumes "images_stage env ts s = (r, s')" and "state_of s = table ts Step_ok (\<lambda>t. Running) Pending Pending Pending"
  shows "goes s s' \<and> (case r of Inr u \<Rightarrow> s' = s | Inl e \<Rightarrow> settled ts e s')"
proof -
  have "settled ts (Ended False) (skip_pending (set_targets ts (\<lambda>n. Step_failed) s))"
    by (rule table_settled [OF skip_pending_table [OF table_targets [OF assms(2)]]]) auto
  with assms(1) show ?thesis
    by (auto simp: images_stage_def settled_def [of _ Raised_run] intro: goes_trans [OF set_targets_goes skip_pending_goes]
      split: images_outcome.splits)
qed

lemma lease_poll_stop: "lease_poll s = (Inl e, s') \<Longrightarrow> settled ts e s''"
  by (auto simp: lease_poll_def settled_def split: list.splits if_splits)

lemma playbook_stage_spec:
  assumes "playbook_stage env ts s = (r, s')" and "state_of s = table ts Step_ok (\<lambda>t. Running) Pending Pending Pending"
  shows "goes s s' \<and> (case r of Inr u \<Rightarrow> \<exists>d. state_of s' = table ts Step_ok d Pending Pending Pending \<and> (\<forall>t \<in> set ts. d t = Step_ok)
    | Inl e \<Rightarrow> settled ts e s')"
proof (cases "playbook_code env")
  case None
  with assms show ?thesis by (auto simp: playbook_stage_def settled_def)
next
  case (Some c)
  define f where "f = (\<lambda>n. if c = 0 then Step_ok else if n \<in> set (seen_targets env) then Step_failed else Step_skipped)"
  from assms(1) Some have "and_then (lease_poll s) (\<lambda>u s. let s = set_targets ts f s
      in if c = 0 \<and> list_all (\<lambda>n. state_of s (deploy_step_id n) = Some Step_ok) ts then (Inr (), s) else (Inl (Ended False), skip_pending s)) = (r, s')"
    by (simp add: playbook_stage_def f_def)
  then show ?thesis
  proof (cases rule: and_thenE)
    case (stop e)
    then show ?thesis using lease_poll_stop [of s e s'] same_goes [OF lease_poll_same] by auto
  next
    case (go u t)
    have t: "state_of (set_targets ts f t) = table ts Step_ok f Pending Pending Pending"
      using assms(2) same_state [OF lease_poll_same [OF go(1)]] by (intro table_targets) simp
    have g: "goes s (set_targets ts f t)" using same_goes [OF lease_poll_same [OF go(1)]] by (rule goes_trans) simp
    have "settled ts (Ended False) (skip_pending (set_targets ts f t))"
      by (rule table_settled [OF skip_pending_table [OF t]]) (auto simp: f_def)
    moreover have "goes s (skip_pending (set_targets ts f t))" using g by (rule goes_trans) simp
    ultimately show ?thesis
    proof (cases "c = 0 \<and> list_all (\<lambda>n. state_of (set_targets ts f t) (deploy_step_id n) = Some Step_ok) ts")
      case True
      with go(2) have "r = Inr ()" and "s' = set_targets ts f t" by (simp_all add: Let_def)
      moreover have "\<forall>n \<in> set ts. f n = Step_ok" using True by (simp add: f_def)
      ultimately show ?thesis using t g by (simp only: sum.case) blast
    next
      case False
      from go(2) have "r = Inl (Ended False)" and "s' = skip_pending (set_targets ts f t)"
        unfolding Let_def if_not_P [OF False] by simp_all
      moreover assume "settled ts (Ended False) (skip_pending (set_targets ts f t))" "goes s (skip_pending (set_targets ts f t))"
      ultimately show ?thesis by (simp only: sum.case simp_thms)
    qed
  qed
qed

lemma hooks_loop_stop: "hooks_loop env ns ok s = (Inl e, s') \<Longrightarrow> e \<in> {Cancelled_run, Raised_run}"
proof (induction ns arbitrary: ok s)
  case (Cons n ns)
  from Cons.prems show ?case unfolding hooks_loop.simps
  proof (cases rule: and_thenE)
    case (go u t)
    then show ?thesis using Cons.IH by (auto split: option.splits prod.splits)
  qed (auto simp: lease_poll_def split: list.splits if_splits)
qed simp

lemma hook_attempts_stop: "hook_attempts env k only acc s = (Inl e, s') \<Longrightarrow> e \<in> {Cancelled_run, Raised_run}"
proof (induction k arbitrary: only acc s)
  case (Suc k)
  then show ?case by (auto simp: Let_def lease_poll_def split: sum.splits if_splits list.splits elim!: and_thenE)
qed simp

lemma verify_attempts_stop: "verify_attempts env k s = (Inl e, s') \<Longrightarrow> e \<in> {Cancelled_run, Raised_run}"
proof (induction k arbitrary: s)
  case (Suc k)
  then show ?case by (auto simp: lease_poll_def split: option.splits if_splits list.splits elim!: and_thenE)
qed simp

lemma settled_stop: "e \<in> {Cancelled_run, Raised_run} \<Longrightarrow> settled ts e s"
  by (auto simp: settled_def)

definition outcome :: "bool \<Rightarrow> step_state" where
  "outcome ok = (if ok then Step_ok else Step_failed)"

lemma hooks_stage_spec:
  assumes "hooks_stage env ts s = (r, s')" and "state_of s = table ts' p d h v c"
  shows "goes s s' \<and> (case r of Inr ok \<Rightarrow> state_of s' = table ts' p d (outcome ok) v c | Inl e \<Rightarrow> settled ts' e s')"
  using assms(1) unfolding hooks_stage_def
proof (cases rule: and_thenE)
  case (stop e)
  then show ?thesis
    using settled_stop [OF hooks_loop_stop] goes_trans [OF set_step_goes same_goes [OF hooks_loop_same]] by auto
next
  case (go ok t)
  have "state_of t = table ts' p d Running v c" using same_state [OF hooks_loop_same [OF go(1)]] assms(2) by simp
  moreover have "goes s t" using goes_trans [OF set_step_goes same_goes [OF hooks_loop_same [OF go(1)]]] .
  ultimately show ?thesis using go(2) goes_trans [OF _ set_step_goes] by (auto simp: outcome_def)
qed

lemma hook_verify_stage_spec:
  assumes "hook_verify_stage env s = (r, s')" and "state_of s = table ts' p d h v c"
  shows "goes s s' \<and> (case r of Inr ok \<Rightarrow> state_of s' = table ts' p d h (outcome ok) c | Inl e \<Rightarrow> settled ts' e s')"
proof -
  let ?s = "set_step ''hook_verify'' Running s"
  let ?run = "case secrets_fault env of None \<Rightarrow> hook_attempts env 3 None [] ?s | Some f \<Rightarrow> (Inr (Inl f), ?s)"
  have run: "same ?s t" "case q of Inl e \<Rightarrow> e \<in> {Cancelled_run, Raised_run} | _ \<Rightarrow> True" if "?run = (q, t)" for q t
    using that hook_attempts_same hook_attempts_stop [of env 3 None "[]" ?s _ t] by (auto split: option.splits sum.splits)
  from assms(1) show ?thesis unfolding hook_verify_stage_def Let_def
  proof (cases rule: and_thenE)
    case (stop e)
    from run [OF stop(1)] stop(2) show ?thesis
      using settled_stop goes_trans [OF set_step_goes same_goes] by auto
  next
    case (go a t)
    have t: "state_of t = table ts' p d h Running c" using same_state [OF run(1) [OF go(1)]] assms(2) by simp
    have g: "goes s t" by (rule goes_trans [OF set_step_goes same_goes [OF run(1) [OF go(1)]]])
    have "goes s (set_step n st t)" for n st using g set_step_goes by (rule goes_trans)
    with go(2) t g show ?thesis
      by (auto simp: outcome_def settled_def [of _ Raised_run] split: sum.splits hook_fault.splits)
  qed
qed

lemma verify_stage_spec:
  assumes "verify_stage env s = (r, s')" and "state_of s = table ts' p d h v c"
  shows "goes s s' \<and> (case r of Inr ok \<Rightarrow> state_of s' = table ts' p d h v (outcome ok) | Inl e \<Rightarrow> settled ts' e s')"
  using assms(1) unfolding verify_stage_def
proof (cases rule: and_thenE)
  case (stop e)
  then show ?thesis using lease_poll_stop goes_trans [OF set_step_goes same_goes [OF lease_poll_same]] by auto
next
  case (go u t)
  have t: "state_of t = table ts' p d h v Running" using same_state [OF lease_poll_same [OF go(1)]] assms(2) by simp
  have gt: "goes s t" by (rule goes_trans [OF set_step_goes same_goes [OF lease_poll_same [OF go(1)]]])
  from go(2) show ?thesis
  proof (cases rule: and_thenE)
    case (stop e)
    then show ?thesis
      using settled_stop [OF verify_attempts_stop] goes_trans [OF gt same_goes [OF verify_attempts_same]] by auto
  next
    case (go ok w)
    have w: "state_of w = table ts' p d h v Running" using same_state [OF verify_attempts_same [OF go(1)]] t by simp
    have "goes s w" by (rule goes_trans [OF gt same_goes [OF verify_attempts_same [OF go(1)]]])
    then have gw: "goes s (set_step ''verify'' st w)" for st using set_step_goes by (rule goes_trans)
    from go(2) show ?thesis
    proof (cases rule: and_thenE)
      case (stop e)
      then show ?thesis using lease_poll_stop goes_trans [OF gw same_goes [OF lease_poll_same]] by auto
    next
      case (go u x)
      then show ?thesis
        using same_state [OF lease_poll_same [OF go(1)]] goes_trans [OF gw same_goes [OF lease_poll_same [OF go(1)]]] w by (auto simp: outcome_def)
    qed
  qed
qed

section \<open>The workflow\<close>

text \<open>The chain of stages, up to the result that is reported.\<close>

lemma stages_spec:
  assumes "and_then (images_stage env ts s) (\<lambda>u s.
           and_then (playbook_stage env ts s) (\<lambda>u s.
           and_then (hooks_stage env ts s) (\<lambda>hooks_ok s.
           and_then (hook_verify_stage env s) (\<lambda>hook_verify_ok s.
           and_then (verify_stage env s) (\<lambda>verify_ok s. (Inr (hooks_ok \<and> hook_verify_ok \<and> verify_ok), s)))))) = (r, s')"
    and "state_of s = table ts Step_ok (\<lambda>t. Running) Pending Pending Pending"
  shows "goes s s' \<and> settled ts (case r of Inl e \<Rightarrow> e | Inr ok \<Rightarrow> Ended ok) s'"
  using assms(1)
proof (cases rule: and_thenE)
  case (stop e)
  with images_stage_spec [OF stop(1) assms(2)] show ?thesis by simp
next
  case (go u s1)
  from images_stage_spec [OF go(1) assms(2)] have s1: "s1 = s" by simp
  from go(2) show ?thesis unfolding s1
  proof (cases rule: and_thenE)
    case (stop e)
    with playbook_stage_spec [OF stop(1) assms(2)] show ?thesis by simp
  next
    case (go u s2)
    from playbook_stage_spec [OF go(1) assms(2)] obtain d where g2: "goes s s2"
      and d: "state_of s2 = table ts Step_ok d Pending Pending Pending" "\<forall>t \<in> set ts. d t = Step_ok" by auto
    from go(2) show ?thesis
    proof (cases rule: and_thenE)
      case (stop e)
      with hooks_stage_spec [OF stop(1) d(1)] g2 show ?thesis by (auto intro: goes_trans)
    next
      case (go hooks_ok s3)
      from hooks_stage_spec [OF go(1) d(1)] g2 have g3: "goes s s3"
        and s3: "state_of s3 = table ts Step_ok d (outcome hooks_ok) Pending Pending" by (auto intro: goes_trans)
      from go(2) show ?thesis
      proof (cases rule: and_thenE)
        case (stop e)
        with hook_verify_stage_spec [OF stop(1) s3] g3 show ?thesis by (auto intro: goes_trans)
      next
        case (go hv_ok s4)
        from hook_verify_stage_spec [OF go(1) s3] g3 have g4: "goes s s4"
          and s4: "state_of s4 = table ts Step_ok d (outcome hooks_ok) (outcome hv_ok) Pending" by (auto intro: goes_trans)
        from go(2) show ?thesis
        proof (cases rule: and_thenE)
          case (stop e)
          with verify_stage_spec [OF stop(1) s4] g4 show ?thesis by (auto intro: goes_trans)
        next
          case (go v_ok s5)
          from verify_stage_spec [OF go(1) s4] g4 have g5: "goes s s5"
            and s5: "state_of s5 = table ts Step_ok d (outcome hooks_ok) (outcome hv_ok) (outcome v_ok)" by (auto intro: goes_trans)
          have "settled ts (Ended (hooks_ok \<and> hv_ok \<and> v_ok)) s5"
            by (rule table_settled [OF s5]) (use d(2) in \<open>auto simp: outcome_def\<close>)
          with go(2) g5 show ?thesis by auto
        qed
      qed
    qed
  qed
qed

lemma init_table:
  "map_of (init_recover_step_status cfg vm) = table (recover_targets cfg vm) Pending (\<lambda>t. Pending) Pending Pending Pending"
  "distinct (map fst (init_recover_step_status cfg vm))"
  by (auto simp: init_recover_step_status_def map_of_map_restrict restrict_map_def table_def fun_eq_iff comp_def)

lemma recover_body_spec:
  assumes "recover_body env ts s = (e, s')" and "state_of s = table ts Step_ok (\<lambda>t. Pending) Pending Pending Pending"
    and "distinct (map fst (steps s))"
  shows "settled ts e s' \<and> (e \<noteq> Raised_run \<longrightarrow> (\<forall>n. state_of s' n \<noteq> Some Running)) \<and> held s' = (lease_given env \<and> held s)"
proof -
  let ?s = "set_targets ts (\<lambda>n. Running) s"
  have start: "state_of ?s = table ts Step_ok (\<lambda>t. Running) Pending Pending Pending" using assms(2) by (rule table_targets)
  obtain r t where run: "and_then (images_stage env ts ?s) (\<lambda>u s.
           and_then (playbook_stage env ts s) (\<lambda>u s.
           and_then (hooks_stage env ts s) (\<lambda>hooks_ok s.
           and_then (hook_verify_stage env s) (\<lambda>hook_verify_ok s.
           and_then (verify_stage env s) (\<lambda>verify_ok s. (Inr (hooks_ok \<and> hook_verify_ok \<and> verify_ok), s)))))) = (r, t)"
    by (cases "and_then (images_stage env ts ?s) (\<lambda>u s.
           and_then (playbook_stage env ts s) (\<lambda>u s.
           and_then (hooks_stage env ts s) (\<lambda>hooks_ok s.
           and_then (hook_verify_stage env s) (\<lambda>hook_verify_ok s.
           and_then (verify_stage env s) (\<lambda>verify_ok s. (Inr (hooks_ok \<and> hook_verify_ok \<and> verify_ok), s))))))")
  from stages_spec [OF run start] have g: "goes s t" and settled: "settled ts (case r of Inl e \<Rightarrow> e | Inr ok \<Rightarrow> Ended ok) t"
    using goes_trans [OF set_targets_goes] by blast+
  from assms(1) have e: "e = (case r of Inl e \<Rightarrow> e | Inr ok \<Rightarrow> Ended ok)"
    and s': "s' = (let u = (if e = Cancelled_run then fail_running t else t) in if lease_given env then u else u\<lparr>held := False\<rparr>)"
    unfolding recover_body_def run by (auto simp: Let_def)
  have "distinct (map fst (steps t))" and "held t = held s" using g assms(3) by (auto simp: goes_def)
  moreover have "held (fail_running t) = held t" using fail_running_goes [of t] by (simp add: goes_def)
  moreover have "state_of (fail_running t) n \<noteq> Some Running" for n
    using fail_running_state [OF \<open>distinct (map fst (steps t))\<close>, of n] by (auto split: if_splits)
  moreover have "settled ts e t" using settled e by simp
  ultimately have "settled ts e s'" and "e \<noteq> Raised_run \<Longrightarrow> state_of s' n \<noteq> Some Running" and "held s' = (lease_given env \<and> held s)" for n
    unfolding s' Let_def settled_def by (cases e; simp)+
  then show ?thesis by blast
qed

text \<open>The preflight lets the recovery go on.\<close>

definition preflight_clear :: "recover_env \<Rightarrow> bool list \<Rightarrow> bool" where
  "preflight_clear env answers \<longleftrightarrow>
     root_owned env \<and> (case preflight_items env of None \<Rightarrow> False | Some items \<Rightarrow> preflight_passed items) \<and> (answers = [] \<or> \<not> hd answers)"

lemma preflight_spec:
  assumes "preflight_stage env s = (r, s')" and "state_of s = table ts Pending (\<lambda>t. Pending) Pending Pending Pending"
    and "held s" and "distinct (map fst (steps s))"
  shows "case r of
      Inr u \<Rightarrow> preflight_clear env (polls s) \<and> state_of s' = table ts Step_ok (\<lambda>t. Pending) Pending Pending Pending \<and> held s'
        \<and> distinct (map fst (steps s'))
    | Inl e \<Rightarrow> \<not> preflight_clear env (polls s) \<and> settled ts e s' \<and> (e \<noteq> Raised_run \<longrightarrow> (\<forall>n. state_of s' n \<noteq> Some Running)) \<and> \<not> held s'"
proof (cases "root_owned env \<and> (case preflight_items env of None \<Rightarrow> False | Some items \<Rightarrow> preflight_passed items)")
  case True
  let ?s = "set_step ''preflight'' Step_ok (set_step ''preflight'' Running s)"
  from True assms(1) have run: "(case lease_poll ?s of (Inl e, s) \<Rightarrow> (Inl e, s\<lparr>held := False\<rparr>) | r \<Rightarrow> r) = (r, s')"
    by (auto simp: preflight_stage_def Let_def split: option.splits)
  obtain q t where q: "lease_poll ?s = (q, t)" by (cases "lease_poll ?s")
  have "distinct (map fst (steps ?s))" using assms(4) set_step_goes by (simp add: goes_def)
  then have t: "state_of t = table ts Step_ok (\<lambda>t. Pending) Pending Pending Pending" "held t" "distinct (map fst (steps t))"
    using lease_poll_same [OF q] same_state [OF lease_poll_same [OF q]] assms(2,3) by (simp_all add: same_def)
  have quiet: "\<forall>n. state_of t n \<noteq> Some Running" unfolding t(1) by (simp add: table_def)
  show ?thesis
  proof (cases "polls s = [] \<or> \<not> hd (polls s)")
    case go: True
    then have "q = Inr ()" using q by (auto simp: lease_poll_def split: list.splits if_splits)
    with run q have "r = Inr ()" "s' = t" by simp_all
    with t True go show ?thesis by (simp add: preflight_clear_def)
  next
    case False
    then have "q = Inl Cancelled_run" using q by (cases "polls s") (auto simp: lease_poll_def)
    with run q have "r = Inl Cancelled_run" "s' = t\<lparr>held := False\<rparr>" by simp_all
    with quiet False show ?thesis by (simp add: preflight_clear_def settled_def)
  qed
next
  case False
  then have unclear: "\<not> preflight_clear env (polls s)" by (auto simp: preflight_clear_def)
  have failed: "state_of (set_step ''preflight'' Step_failed (set_step ''preflight'' Running s))
      = table ts Step_failed (\<lambda>t. Pending) Pending Pending Pending" using assms(2) by simp
  have "settled ts (Ended False) (set_step ''preflight'' Step_failed (set_step ''preflight'' Running s))"
    by (rule table_settled [OF failed]) auto
  with False unclear assms(1) show ?thesis
    by (auto simp: preflight_stage_def Let_def settled_def split: option.splits if_splits)
qed


text \<open>A machine to recover, and a preflight that fails; the caller holds the lease.\<close>

definition ailing_machine :: config where
  "ailing_machine =
     \<lparr>machines = [(''core'', \<lparr>enabled = True, address = ''10.0.0.1'', machine_labels = [''control''], machine_gateway = ''10.0.0.254'', machine_cidr = 24, startup_order = 1\<rparr>)],
      category_flags = [], service_settings = [], projects = [], domain = ''example.org'', email = [], expose_via_internet = False,
      network = \<lparr>mesh_ipv4_cidr = ''100.64.0.0/10'', container_ipv4_cidr = ''172.31.0.0/17'', container_network_prefix = 28\<rparr>,
      external_hosts = [], backups_enabled = False, model_fields = []\<rparr>"

definition failing_preflight :: recover_env where
  "failing_preflight =
     \<lparr>files_present = True, lease_given = True, lease_acquired = False, root_owned = True, preflight_items = Some [(''docker'', False)],
      image_outcome = Images_ready, playbook_code = Some 0, seen_targets = [], run_hooks = (\<lambda>n. None), credential_logs = (\<lambda>n. None),
      secrets_fault = None, hook_checks = (\<lambda>k only. Inr []), container_checks = (\<lambda>k. None)\<rparr>"

text \<open>The same with everything in order.\<close>

definition passing_recovery :: recover_env where
  "passing_recovery = failing_preflight
     \<lparr>preflight_items := Some [(''docker'', True), (''load'', False)], run_hooks := (\<lambda>n. Some ([(''core'', [''ready''])], True)),
      credential_logs := (\<lambda>n. Some []), container_checks := (\<lambda>k. Some [(''core'', k > 1)])\<rparr>"


end
