(* ===== verification/Watchdog.thy ===== *)
theory Watchdog
  imports Operation_Lease
begin

text \<open>
  The decisions of \<open>core/ops/watchdog\<close>: the memory of the watchdog and its file, healing with its restart budget, backoff,
  plug-in heals, dependencies and automatic recovery, the policy of \<open>recover_policy.py\<close>, notifications, and the handler
  \<open>webhook_heal\<close> of \<open>controller/operations.py\<close>.  Everything the watchdog asks or tells the outside is an event
  of its trace, and the \<open>world\<close> answers as a function of the trace so far.  The checks that find the issues, and what is
  logged, are not modelled.  Instants are microseconds.
\<close>

section \<open>Data\<close>

record health_issue =
  issue_service :: string
  issue_category :: string
  issue_severity :: string
  issue_message :: string
  auto_fixable :: bool
  diagnosis :: string
  issue_node :: string
  terminal :: bool

record heal_result =
  attempted :: int
  succeeded :: int
  failed :: int
  deferred :: int

text \<open>\<open>HealResult.__post_init__\<close>; None is its \<open>ValueError\<close>.\<close>

definition new_heal_result :: "heal_result \<Rightarrow> heal_result option" where
  "new_heal_result t =
     (if attempted t < 0 \<or> succeeded t < 0 \<or> failed t < 0 \<or> deferred t < 0 then None
      else if attempted t \<noteq> succeeded t + failed t then None
      else Some t)"

definition no_heals :: heal_result where
  "no_heals = \<lparr>attempted = 0, succeeded = 0, failed = 0, deferred = 0\<rparr>"

record notify_record =
  last_notified_ts :: int
  notified_severity :: string
  notified_count :: nat
  notified_terminal :: bool

record watchdog_memory =
  restart_counts :: "(string \<times> nat) list"
  restart_timestamps :: "(string \<times> int) list"
  notify_state :: "(string \<times> notify_record) list"
  last_auto_recover_at :: "(string \<times> int) list"

definition container_state_key :: "string \<Rightarrow> string \<Rightarrow> string" where
  "container_state_key service node = (if node = [] then service else node @ ''/'' @ service)"

definition split_container_state_key :: "string \<Rightarrow> string \<times> string" where
  "split_container_state_key key =
     (if CHR ''/'' \<notin> set key then (key, [])
      else (case partition_at (CHR ''/'') key of (node, found, service) \<Rightarrow> (service, node)))"

definition issue_key :: "(string \<Rightarrow> string) \<Rightarrow> health_issue \<Rightarrow> string" where
  "issue_key sha i = sha (issue_node i @ ''|'' @ issue_service i @ ''|'' @ issue_category i @ ''|'' @ issue_message i)"

definition seconds :: "int \<Rightarrow> int" where
  "seconds n = n * 1000000"

section \<open>The outside\<close>

text \<open>
  \<open>Missed\<close> is a \<open>TimeoutExpired\<close> or \<open>FileNotFoundError\<close>, \<open>Os_error\<close> another \<open>OSError\<close> or \<open>SubprocessError\<close>,
  \<open>Raised\<close> any other exception.
\<close>

datatype 'a reply = Reply 'a | Missed | Os_error | Raised

datatype plugin_reply = Plugin_lines | Plugin_none | Plugin_error

datatype event =
    Clock int
  | Prune bool
  | Vacuum
  | Plugin_heal string plugin_reply
  | Running_names "string list option"
  | Start string "int reply"
  | Restart string string "int reply"
  | Inspect string string "(int \<times> string) reply"
  | Recover string "int option"
  | Audit string bool
  | Save bool
  | Page health_issue "bool option"

record world =
  clock :: "event list \<Rightarrow> int"
  prune :: "event list \<Rightarrow> bool"
  plugin :: "event list \<Rightarrow> string \<Rightarrow> plugin_reply"
  running_names :: "event list \<Rightarrow> string list option"
  start_reply :: "event list \<Rightarrow> string \<Rightarrow> int reply"
  restart_reply :: "event list \<Rightarrow> string \<Rightarrow> string \<Rightarrow> int reply"
  inspect_reply :: "event list \<Rightarrow> string \<Rightarrow> string \<Rightarrow> (int \<times> string) reply"
  recover_reply :: "event list \<Rightarrow> string \<Rightarrow> int option"
  audit_reply :: "event list \<Rightarrow> bool"
  save_reply :: "event list \<Rightarrow> bool"
  page_reply :: "event list \<Rightarrow> health_issue \<Rightarrow> bool option"

record watchdog =
  memory :: watchdog_memory
  stored :: "watchdog_memory option"
  trace :: "event list"

record watch_setup =
  setup_plugins :: plugins
  setup_config :: config
  discovered_safe :: "string list"
  discovered_blocked :: "string list"
  discovered_deps :: "(string \<times> string list) list"
  compose_deps :: "(string \<times> string list) list"
  heal_routes :: "string list"
  sha256 :: "string \<Rightarrow> string"
  texts :: py_texts

text \<open>A step of the watchdog returns a value, or None if an exception leaves it.\<close>

type_synonym 'a step = "watchdog \<Rightarrow> 'a option \<times> watchdog"

definition give :: "'a \<Rightarrow> 'a step" where
  "give a s = (Some a, s)"

definition raise_error :: "'a step" where
  "raise_error s = (None, s)"

definition after :: "'a step \<Rightarrow> ('a \<Rightarrow> 'b step) \<Rightarrow> 'b step" where
  "after m f s = (case m s of (None, s) \<Rightarrow> (None, s) | (Some a, s) \<Rightarrow> f a s)"

fun each_step :: "('a \<Rightarrow> 'b \<Rightarrow> 'b step) \<Rightarrow> 'a list \<Rightarrow> 'b \<Rightarrow> 'b step" where
  "each_step f [] b = give b"
| "each_step f (x # xs) b = after (f x b) (\<lambda>b. each_step f xs b)"

definition ask :: "(event list \<Rightarrow> 'a) \<Rightarrow> ('a \<Rightarrow> event) \<Rightarrow> 'a step" where
  "ask answer event s = (let a = answer (trace s) in (Some a, s\<lparr>trace := trace s @ [event a]\<rparr>))"

definition remember :: "(watchdog_memory \<Rightarrow> watchdog_memory) \<Rightarrow> unit step" where
  "remember f s = (Some (), s\<lparr>memory := f (memory s)\<rparr>)"

definition recall :: "(watchdog_memory \<Rightarrow> 'a) \<Rightarrow> 'a step" where
  "recall f s = (Some (f (memory s)), s)"

definition save_restart_state :: "world \<Rightarrow> unit step" where
  "save_restart_state w =
     after (ask (save_reply w) Save) (\<lambda>written s. (Some (), if written then s\<lparr>stored := Some (memory s)\<rparr> else s))"

section \<open>The memory of an earlier process\<close>

definition fresh_memory :: watchdog_memory where
  "fresh_memory = \<lparr>restart_counts = [], restart_timestamps = [], notify_state = [], last_auto_recover_at = []\<rparr>"

text \<open>The file as \<open>_save_restart_state\<close> writes it, read at three instants.\<close>

definition loaded_memory :: "int \<Rightarrow> int \<Rightarrow> int \<Rightarrow> watchdog_memory \<Rightarrow> watchdog_memory" where
  "loaded_memory t1 t2 t3 m =
     (let kept = filter (\<lambda>(n, ts). ts > t1 - seconds 86400) (restart_timestamps m)
      in \<lparr>restart_counts =
            filter (\<lambda>(n, c). c \<noteq> 0) (map (\<lambda>(n, ts). (n, case map_of (restart_counts m) n of None \<Rightarrow> 0 | Some c \<Rightarrow> c)) kept),
          restart_timestamps = kept,
          notify_state = filter (\<lambda>(k, r). last_notified_ts r > t2 - seconds 21600 - seconds 60) (notify_state m),
          last_auto_recover_at = filter (\<lambda>(vm, ts). ts > t3 - seconds (7 * 86400)) (last_auto_recover_at m)\<rparr>)"

definition load_restart_state :: "world \<Rightarrow> unit step" where
  "load_restart_state w s =
     (case stored s of
        None \<Rightarrow> (Some (), s\<lparr>memory := fresh_memory\<rparr>)
      | Some m \<Rightarrow>
          after (ask (clock w) Clock) (\<lambda>t1.
          after (ask (clock w) Clock) (\<lambda>t2.
          after (ask (clock w) Clock) (\<lambda>t3. remember (\<lambda>_. loaded_memory t1 t2 t3 m)))) s)"

section \<open>Dependencies\<close>

definition add_links :: "(string \<times> string list) list \<Rightarrow> (string \<times> string list) list \<Rightarrow> (string \<times> string list) list" where
  "add_links new links =
     fold (\<lambda>(svc, deps) m.
       let bucket = (case map_of m svc of None \<Rightarrow> [] | Some b \<Rightarrow> b)
       in dict_set svc (fold (\<lambda>d b. if d \<in> set b then b else b @ [d]) deps bucket) m) new links"

definition dependency_links :: "watch_setup \<Rightarrow> (string \<times> string list) list" where
  "dependency_links su = add_links (discovered_deps su) (add_links (compose_deps su) (discovered_deps su))"

definition build_reverse_dependency_map :: "(string \<times> string list) list \<Rightarrow> (string \<times> string list) list" where
  "build_reverse_dependency_map forward =
     fold (\<lambda>(consumer, deps) rev.
       fold (\<lambda>d rev.
         let bucket = (case map_of rev d of None \<Rightarrow> [] | Some b \<Rightarrow> b)
         in dict_set d (if consumer \<in> set bucket then bucket else bucket @ [consumer]) rev) deps rev)
       forward (map (\<lambda>(svc, deps). (svc, [])) forward)"

definition restartable_services :: "watch_setup \<Rightarrow> string list" where
  "restartable_services su = filter (\<lambda>s. s \<notin> set (discovered_blocked su)) (discovered_safe su)"

definition links_of :: "(string \<times> string list) list \<Rightarrow> string \<Rightarrow> string list" where
  "links_of links service = (case map_of links service of None \<Rightarrow> [] | Some ds \<Rightarrow> ds)"

section \<open>Verification after a restart\<close>

definition is_up :: "string \<Rightarrow> bool" where
  "is_up out \<longleftrightarrow> sublist ''running'' (strip out) \<and> \<not> sublist ''unhealthy'' (strip out)"

definition inspect_container :: "world \<Rightarrow> string \<Rightarrow> string \<Rightarrow> (int \<times> string) reply step" where
  "inspect_container w name node = ask (\<lambda>tr. inspect_reply w tr name node) (Inspect name node)"

fun verify_polls :: "world \<Rightarrow> string \<Rightarrow> string \<Rightarrow> nat \<Rightarrow> bool step" where
  "verify_polls w name node 0 = give False"
| "verify_polls w name node (Suc left) =
     after (inspect_container w name node) (\<lambda>r.
       case r of
         Reply (rc, out) \<Rightarrow> if rc = 0 \<and> is_up out then give True else verify_polls w name node left
       | Missed \<Rightarrow> verify_polls w name node left
       | _ \<Rightarrow> raise_error)"

text \<open>A poll every five seconds while less than the timeout has passed.\<close>

definition verify_post_restart :: "world \<Rightarrow> string \<Rightarrow> nat \<Rightarrow> string \<Rightarrow> bool step" where
  "verify_post_restart w name timeout node = verify_polls w name node ((timeout + 4) div 5)"

definition get_running_names :: "world \<Rightarrow> string list step" where
  "get_running_names w =
     after (ask (running_names w) Running_names) (\<lambda>r. case r of None \<Rightarrow> raise_error | Some names \<Rightarrow> give names)"

definition verify_consumer :: "world \<Rightarrow> string list \<Rightarrow> string \<Rightarrow> string list \<Rightarrow> string list step" where
  "verify_consumer w running consumer bad =
     (if consumer \<notin> set running then give bad
      else after (verify_post_restart w consumer 15 []) (\<lambda>ok. give (if ok then bad else bad @ [consumer])))"

definition verify_cascade_consumers :: "watch_setup \<Rightarrow> world \<Rightarrow> string \<Rightarrow> string list step" where
  "verify_cascade_consumers su w dependency =
     (let consumers = links_of (build_reverse_dependency_map (dependency_links su)) dependency
      in if consumers = [] then give []
         else after (get_running_names w) (\<lambda>running. each_step (verify_consumer w running) consumers []))"

section \<open>Recovery policy\<close>

record recover_config =
  recover_enabled :: bool
  cooldown_seconds :: int
  terminal_threshold :: int
  multi_failure_min :: int
  restart_budget :: nat

record recover_signal =
  signal_service :: string
  signal_severity :: string
  signal_terminal :: bool
  signal_restarts :: nat

text \<open>The decision for a node; the constructor is the reason.\<close>

datatype recover_decision =
    Recovery_disabled
  | Recovery_cooling int
  | Terminal_failures nat
  | Critical_failures nat
  | Below_thresholds

fun triggers :: "recover_decision \<Rightarrow> bool" where
  "triggers (Terminal_failures n) = True"
| "triggers (Critical_failures n) = True"
| "triggers _ = False"

definition node_decision :: "recover_config \<Rightarrow> int option \<Rightarrow> int \<Rightarrow> recover_signal list \<Rightarrow> recover_decision" where
  "node_decision p latest now signals =
     (if \<not> recover_enabled p then Recovery_disabled
      else if (case latest of None \<Rightarrow> False | Some t \<Rightarrow> now - t < seconds (cooldown_seconds p))
      then Recovery_cooling (max 0 ((seconds (cooldown_seconds p) - (now - the latest)) div seconds 1))
      else
        (let critical = remdups (map signal_service (filter (\<lambda>g. signal_severity g = ''critical'') signals));
             exhausted = remdups (map signal_service (filter (\<lambda>g. signal_terminal g \<or> signal_restarts g \<ge> restart_budget p) signals))
         in if int (length exhausted) \<ge> terminal_threshold p then Terminal_failures (length exhausted)
            else if int (length critical) \<ge> multi_failure_min p then Critical_failures (length critical)
            else Below_thresholds))"

text \<open>Services without a known node are left out.\<close>

definition group_signals :: "(string \<times> string) list \<Rightarrow> recover_signal list \<Rightarrow> (string \<times> recover_signal list) list" where
  "group_signals nodes signals =
     fold (\<lambda>g grouped.
       case map_of nodes (signal_service g) of
         None \<Rightarrow> grouped
       | Some vm \<Rightarrow> if vm = [] then grouped
                    else dict_set vm ((case map_of grouped vm of None \<Rightarrow> [] | Some gs \<Rightarrow> gs) @ [g]) grouped) signals []"

definition recover_decisions ::
  "recover_config \<Rightarrow> (string \<times> int) list \<Rightarrow> int \<Rightarrow> (string \<times> string) list \<Rightarrow> recover_signal list \<Rightarrow> (string \<times> recover_decision) list"
where
  "recover_decisions p cooldowns now nodes signals =
     (let grouped = group_signals nodes signals
      in map (\<lambda>vm. (vm, node_decision p (map_of cooldowns vm) now (the (map_of grouped vm)))) (sort (map fst grouped)))"

section \<open>Automatic recovery\<close>

definition named_setting :: "plugins \<Rightarrow> config \<Rightarrow> string \<Rightarrow> string \<Rightarrow> config_error + pyval" where
  "named_setting pl cfg service key =
     then_do (require_service (catalog pl) service) (\<lambda>man. service_setting_value cfg man key)"

definition service_setting_bool :: "plugins \<Rightarrow> config \<Rightarrow> string \<Rightarrow> string \<Rightarrow> config_error + bool" where
  "service_setting_bool pl cfg service key =
     then_do (named_setting pl cfg service key) (\<lambda>v. case v of PBool b \<Rightarrow> Inr b | _ \<Rightarrow> Inl (Bad_setting key))"

definition service_setting_int :: "plugins \<Rightarrow> config \<Rightarrow> string \<Rightarrow> string \<Rightarrow> config_error + int" where
  "service_setting_int pl cfg service key =
     then_do (named_setting pl cfg service key) (\<lambda>v.
       case v of
         PInt i \<Rightarrow> Inr i
       | PFloat (Finite m e) \<Rightarrow>
           if 0 \<le> e then Inr (m * 2 ^ nat e)
           else if m mod 2 ^ nat (- e) = 0 then Inr (m div 2 ^ nat (- e)) else Inl (Bad_setting key)
       | _ \<Rightarrow> Inl (Bad_setting key))"

definition recover_policy :: "plugins \<Rightarrow> config \<Rightarrow> config_error + recover_config" where
  "recover_policy pl cfg =
     then_do (service_setting_bool pl cfg ''homelab-ui'' ''auto-recover'') (\<lambda>on.
     then_do (service_setting_int pl cfg ''homelab-ui'' ''recover-cooldown-minutes'') (\<lambda>minutes.
     then_do (service_setting_int pl cfg ''homelab-ui'' ''recover-terminal-threshold'') (\<lambda>terminals.
     then_do (service_setting_int pl cfg ''homelab-ui'' ''recover-critical-threshold'') (\<lambda>criticals.
       Inr \<lparr>recover_enabled = on, cooldown_seconds = minutes * 60, terminal_threshold = terminals,
            multi_failure_min = criticals, restart_budget = 3\<rparr>))))"

definition project_nodes :: "config \<Rightarrow> config_error + (string \<times> string) list" where
  "project_nodes cfg =
     each (\<lambda>p. then_do (project_node cfg p) (\<lambda>n. Inr (project_subdomain p, n))) (projects cfg)"

definition count_of :: "watchdog_memory \<Rightarrow> string \<Rightarrow> nat" where
  "count_of m key = (case map_of (restart_counts m) key of None \<Rightarrow> 0 | Some c \<Rightarrow> c)"

definition issue_signals :: "watchdog_memory \<Rightarrow> health_issue list \<Rightarrow> recover_signal list" where
  "issue_signals m issues =
     map (\<lambda>i. \<lparr>signal_service = issue_service i, signal_severity = issue_severity i, signal_terminal = terminal i,
               signal_restarts = count_of m (container_state_key (issue_service i) (issue_node i))\<rparr>) issues"

definition audit :: "world \<Rightarrow> string \<Rightarrow> bool step" where
  "audit w vm = ask (audit_reply w) (Audit vm)"

text \<open>The recovery of a node that the policy triggers; an audit that raises counts as a failure.\<close>

definition run_recovery :: "world \<Rightarrow> string \<Rightarrow> heal_result \<Rightarrow> heal_result step" where
  "run_recovery w vm t =
     (let erroneous = after (audit w vm) (\<lambda>ok. if ok then give (t\<lparr>failed := failed t + 1\<rparr>) else raise_error)
      in after (ask (\<lambda>tr. recover_reply w tr vm) (Recover vm)) (\<lambda>r.
           case r of
             None \<Rightarrow> erroneous
           | Some rc \<Rightarrow>
               after (audit w vm) (\<lambda>ok.
                 if \<not> ok then erroneous
                 else give (if rc = 0 then t\<lparr>succeeded := succeeded t + 1\<rparr> else t\<lparr>failed := failed t + 1\<rparr>))))"

definition recover_node :: "world \<Rightarrow> int \<Rightarrow> string \<Rightarrow> heal_result \<Rightarrow> heal_result step" where
  "recover_node w now vm t =
     after (remember (\<lambda>m. m\<lparr>last_auto_recover_at := dict_set vm now (last_auto_recover_at m)\<rparr>)) (\<lambda>_.
     after (save_restart_state w) (\<lambda>_. run_recovery w vm (t\<lparr>attempted := attempted t + 1\<rparr>)))"

definition maybe_auto_trigger_recover :: "watch_setup \<Rightarrow> world \<Rightarrow> health_issue list \<Rightarrow> heal_result \<Rightarrow> heal_result step" where
  "maybe_auto_trigger_recover su w issues t =
     after (ask (clock w) Clock) (\<lambda>now.
       case recover_policy (setup_plugins su) (setup_config su) of
         Inl e \<Rightarrow> raise_error
       | Inr p \<Rightarrow>
           (case service_node_map (setup_plugins su) (setup_config su) (catalog (setup_plugins su)) of
              Inl e \<Rightarrow> give t
            | Inr services \<Rightarrow>
                (case project_nodes (setup_config su) of
                   Inl e \<Rightarrow> raise_error
                 | Inr ps \<Rightarrow>
                     after (recall (\<lambda>m. recover_decisions p (last_auto_recover_at m) now
                              (fold (\<lambda>(k, n). dict_set k n) ps services) (issue_signals m issues))) (\<lambda>decisions.
                       each_step (recover_node w now) (map fst (filter (\<lambda>(vm, d). triggers d) decisions)) t))))"

section \<open>Healing\<close>

definition heal_plugin :: "world \<Rightarrow> string \<Rightarrow> heal_result \<Rightarrow> heal_result step" where
  "heal_plugin w target t =
     after (ask (\<lambda>tr. plugin w tr target) (Plugin_heal target)) (\<lambda>r.
       give (if r = Plugin_lines then t\<lparr>attempted := attempted t + 1, succeeded := succeeded t + 1\<rparr>
             else t\<lparr>attempted := attempted t + 1, failed := failed t + 1\<rparr>))"

definition start_dependency :: "world \<Rightarrow> string list \<Rightarrow> string list \<Rightarrow> string \<Rightarrow> unit \<Rightarrow> unit step" where
  "start_dependency w structured running d u =
     (if d \<in> set running \<or> d \<in> set structured then give ()
      else after (ask (\<lambda>tr. start_reply w tr d) (Start d)) (\<lambda>r.
             case r of Reply rc \<Rightarrow> give () | Missed \<Rightarrow> give () | _ \<Rightarrow> raise_error))"

definition start_dependencies :: "watch_setup \<Rightarrow> world \<Rightarrow> string list \<Rightarrow> string \<Rightarrow> unit step" where
  "start_dependencies su w structured service =
     (let deps = links_of (dependency_links su) service
      in if deps = [] then give ()
         else after (get_running_names w) (\<lambda>running. each_step (start_dependency w structured running) deps ()))"

text \<open>After Docker answered: the memory is saved, the container and the services that depend on it are checked.\<close>

definition confirm_restart :: "watch_setup \<Rightarrow> world \<Rightarrow> int \<Rightarrow> health_issue \<Rightarrow> heal_result \<Rightarrow> heal_result step" where
  "confirm_restart su w rc i t =
     after (save_restart_state w) (\<lambda>_.
       if rc \<noteq> 0 then give (t\<lparr>failed := failed t + 1\<rparr>)
       else after (verify_post_restart w (issue_service i) 30 (issue_node i)) (\<lambda>ok.
              if \<not> ok then give (t\<lparr>failed := failed t + 1\<rparr>)
              else after (verify_cascade_consumers su w (issue_service i)) (\<lambda>_. give (t\<lparr>succeeded := succeeded t + 1\<rparr>))))"

definition restart_service :: "watch_setup \<Rightarrow> world \<Rightarrow> nat \<Rightarrow> health_issue \<Rightarrow> heal_result \<Rightarrow> heal_result step" where
  "restart_service su w count i t =
     (let key = container_state_key (issue_service i) (issue_node i); t = t\<lparr>attempted := attempted t + 1\<rparr>
      in after (ask (\<lambda>tr. restart_reply w tr (issue_service i) (issue_node i)) (Restart (issue_service i) (issue_node i))) (\<lambda>r.
           case r of
             Reply rc \<Rightarrow>
               after (ask (clock w) Clock) (\<lambda>now.
               after (remember (\<lambda>m. m\<lparr>restart_counts := dict_set key (count + 1) (restart_counts m),
                                     restart_timestamps := dict_set key now (restart_timestamps m)\<rparr>)) (\<lambda>_.
                 confirm_restart su w rc i t))
           | Missed \<Rightarrow> give (t\<lparr>failed := failed t + 1\<rparr>)
           | _ \<Rightarrow> raise_error))"

definition backoff :: "nat \<Rightarrow> int" where
  "backoff count = seconds (5 * 2 ^ count)"

text \<open>One issue of the report: it may become terminal.\<close>

definition heal_issue ::
  "watch_setup \<Rightarrow> world \<Rightarrow> bool \<Rightarrow> string list \<Rightarrow> health_issue \<Rightarrow> health_issue list \<times> heal_result \<Rightarrow> (health_issue list \<times> heal_result) step"
where
  "heal_issue su w allow_dependencies structured i = (\<lambda>(handled, t).
     if \<not> auto_fixable i \<or> issue_service i \<in> set structured then give (handled @ [i], t)
     else
       (let key = container_state_key (issue_service i) (issue_node i)
        in after (recall (\<lambda>m. (count_of m key, case map_of (restart_timestamps m) key of None \<Rightarrow> 0 | Some ts \<Rightarrow> ts))) (\<lambda>(count, since).
             if count \<ge> 3 then give (handled @ [i\<lparr>terminal := True\<rparr>], t\<lparr>deferred := deferred t + 1\<rparr>)
             else after (ask (clock w) Clock) (\<lambda>now.
                    if since > 0 \<and> now - since < backoff count then give (handled @ [i], t\<lparr>deferred := deferred t + 1\<rparr>)
                    else after (if allow_dependencies then start_dependencies su w structured (issue_service i) else give ()) (\<lambda>_.
                         after (restart_service su w count i t) (\<lambda>t. give (handled @ [i], t)))))))"

text \<open>The containers outside the report that run again; an error ends the search.\<close>

fun find_healthy :: "world \<Rightarrow> string list \<Rightarrow> string list \<Rightarrow> string list \<Rightarrow> string list step" where
  "find_healthy w skipped [] healthy = give healthy"
| "find_healthy w skipped (k # ks) healthy =
     (if k \<in> set skipped then find_healthy w skipped ks healthy
      else (case split_container_state_key k of (name, node) \<Rightarrow>
             after (inspect_container w name node) (\<lambda>r.
               case r of
                 Reply (rc, out) \<Rightarrow> find_healthy w skipped ks (if rc = 0 \<and> is_up out then healthy @ [k] else healthy)
               | Missed \<Rightarrow> give healthy
               | Os_error \<Rightarrow> give healthy
               | Raised \<Rightarrow> raise_error)))"

definition reset_healthy :: "world \<Rightarrow> health_issue list \<Rightarrow> unit step" where
  "reset_healthy w issues =
     after (recall (\<lambda>m. map fst (restart_counts m))) (\<lambda>keys.
     after (find_healthy w (map (\<lambda>i. container_state_key (issue_service i) (issue_node i)) (filter auto_fixable issues)) keys []) (\<lambda>healthy.
       if healthy = [] then give ()
       else after (remember (\<lambda>m. m\<lparr>restart_counts := filter (\<lambda>(k, c). k \<notin> set healthy) (restart_counts m),
                                  restart_timestamps := filter (\<lambda>(k, c). k \<notin> set healthy) (restart_timestamps m)\<rparr>)) (\<lambda>_.
            save_restart_state w)))"

definition prune_disk :: "world \<Rightarrow> health_issue list \<Rightarrow> unit step" where
  "prune_disk w issues =
     (if list_ex (\<lambda>i. issue_service i = ''disk'') issues
      then after (ask (prune w) Prune) (\<lambda>ok. if ok then ask (\<lambda>tr. ()) (\<lambda>u. Vacuum) else raise_error)
      else give ())"

definition heal_with ::
  "watch_setup \<Rightarrow> world \<Rightarrow> lease_disk \<Rightarrow> bool \<Rightarrow> bool \<Rightarrow> bool \<Rightarrow> health_issue list \<Rightarrow> (heal_result \<times> health_issue list) step"
where
  "heal_with su w disk broad dependencies plugs issues =
     (if inspected_active (inspect (texts su) disk)
      then give (no_heals\<lparr>deferred := int (length (filter auto_fixable issues))\<rparr>, issues)
      else
        (let structured = (if plugs then heal_routes su else []);
             targets = sort (remdups (map issue_service (filter (\<lambda>i. auto_fixable i \<and> issue_service i \<in> set structured) issues)))
         in after (prune_disk w issues) (\<lambda>_.
            after (each_step (heal_plugin w) targets no_heals) (\<lambda>t.
            after (each_step (heal_issue su w dependencies structured) issues ([], t)) (\<lambda>(issues, t).
            after (if broad then maybe_auto_trigger_recover su w issues t else give t) (\<lambda>t.
            after (reset_healthy w issues) (\<lambda>_.
              case new_heal_result t of None \<Rightarrow> raise_error | Some r \<Rightarrow> give (r, issues))))))))"

definition heal :: "watch_setup \<Rightarrow> world \<Rightarrow> lease_disk \<Rightarrow> health_issue list \<Rightarrow> (heal_result \<times> health_issue list) step" where
  "heal su w disk issues = heal_with su w disk True True True issues"

definition heal_targeted ::
  "watch_setup \<Rightarrow> world \<Rightarrow> lease_disk \<Rightarrow> string \<Rightarrow> health_issue list \<Rightarrow> (heal_result \<times> health_issue list) step"
where
  "heal_targeted su w disk service issues =
     (if service \<notin> set (restartable_services su) then raise_error
      else if list_ex (\<lambda>i. issue_service i \<noteq> service) issues then raise_error
      else heal_with su w disk False False False issues)"

section \<open>Notifications\<close>

definition cooldown_for :: "health_issue \<Rightarrow> int" where
  "cooldown_for i =
     (if issue_category i = ''backups'' \<or> issue_severity i = ''infra'' then seconds 21600
      else if issue_severity i = ''critical'' then seconds 1800
      else if issue_severity i = ''warning'' then seconds 7200
      else seconds 21600)"

definition pageable :: "health_issue \<Rightarrow> bool" where
  "pageable i \<longleftrightarrow> issue_severity i \<in> {''critical'', ''warning'', ''infra''} \<and> \<not> terminal i"

definition suppressed :: "int \<Rightarrow> health_issue \<Rightarrow> notify_record option \<Rightarrow> bool" where
  "suppressed now i rec =
     (case rec of
        None \<Rightarrow> False
      | Some r \<Rightarrow> issue_severity i = notified_severity r \<and> now - last_notified_ts r < cooldown_for i)"

definition notify_issue ::
  "watch_setup \<Rightarrow> world \<Rightarrow> int \<Rightarrow> health_issue \<Rightarrow> bool \<times> string list \<Rightarrow> (bool \<times> string list) step"
where
  "notify_issue su w now i = (\<lambda>(sent, msgs).
     (let key = issue_key (sha256 su) i
      in after (recall (\<lambda>m. map_of (notify_state m) key)) (\<lambda>rec.
           if suppressed now i rec then give (sent, msgs)
           else after (ask (\<lambda>tr. page_reply w tr i) (Page i)) (\<lambda>r.
                  case r of
                    None \<Rightarrow> raise_error
                  | Some False \<Rightarrow> give (sent, msgs @ [''ntfy not reachable''])
                  | Some True \<Rightarrow>
                      after (remember (\<lambda>m. m\<lparr>notify_state := dict_set key
                          \<lparr>last_notified_ts = now, notified_severity = issue_severity i,
                           notified_count = (case rec of None \<Rightarrow> 1 | Some r \<Rightarrow> notified_count r + 1),
                           notified_terminal = (case rec of None \<Rightarrow> False | Some r \<Rightarrow> notified_terminal r)\<rparr> (notify_state m)\<rparr>)) (\<lambda>_.
                        give (True, msgs))))))"

definition notify :: "watch_setup \<Rightarrow> world \<Rightarrow> health_issue list \<Rightarrow> string list step" where
  "notify su w issues =
     (if filter pageable issues = [] then give []
      else after (ask (clock w) Clock) (\<lambda>now.
           after (each_step (notify_issue su w now) (filter pageable issues) (False, [])) (\<lambda>(sent, msgs).
             if sent then after (save_restart_state w) (\<lambda>_. give (msgs @ [''Sent alert to ntfy''])) else give msgs)))"

text \<open>A round of the daemon, with the lease and the report it finds.\<close>

definition daemon_round :: "watch_setup \<Rightarrow> world \<Rightarrow> lease_disk \<times> health_issue list \<Rightarrow> unit \<Rightarrow> unit step" where
  "daemon_round su w = (\<lambda>(disk, issues) u.
     if issues = [] then give ()
     else after (heal su w disk issues) (\<lambda>(r, issues). after (notify su w issues) (\<lambda>msgs. give ())))"

definition watchdog_daemon :: "watch_setup \<Rightarrow> world \<Rightarrow> (lease_disk \<times> health_issue list) list \<Rightarrow> unit step" where
  "watchdog_daemon su w rounds = each_step (daemon_round su w) rounds ()"

section \<open>Healing on request of a webhook\<close>

datatype webhook_end =
    Webhook_denied
  | Webhook_conflict
  | Webhook_cancelled
  | Webhook_error
  | Webhook_failed
  | Webhook_skipped
  | Webhook_deferred
  | Webhook_succeeded

text \<open>
  \<open>managed\<close> are the names of the enabled services, \<open>observed\<close> is what \<open>check_all\<close> reports; the lease is taken with
  the arguments of \<open>acquire\<close>.
\<close>

definition webhook_inner :: "watch_setup \<Rightarrow> world \<Rightarrow> string list \<Rightarrow> health_issue list \<Rightarrow> string \<Rightarrow> lease_disk \<Rightarrow> watchdog \<Rightarrow> webhook_end \<times> watchdog" where
  "webhook_inner su w managed observed service disk s =
     (if service \<notin> set managed then (Webhook_denied, s)
      else (case load_restart_state w s of
              (None, s) \<Rightarrow> (Webhook_error, s)
            | (Some u, s) \<Rightarrow>
                if service \<notin> set (restartable_services su) then (Webhook_denied, s)
                else (let issues = filter (\<lambda>i. issue_service i = service \<and> auto_fixable i) observed
                      in if issues = [] then (Webhook_skipped, s)
                         else (case heal_targeted su w disk service issues s of
                                 (None, s) \<Rightarrow> (Webhook_error, s)
                               | (Some (r, rest), s) \<Rightarrow>
                                   (if failed r \<noteq> 0 then Webhook_failed
                                    else if succeeded r \<noteq> 0 then Webhook_succeeded else Webhook_deferred, s)))))"

definition webhook_heal ::
  "watch_setup \<Rightarrow> world \<Rightarrow> string list \<Rightarrow> health_issue list \<Rightarrow> string \<Rightarrow> string \<Rightarrow> bool
     \<Rightarrow> string \<Rightarrow> nat \<Rightarrow> nat \<Rightarrow> string \<Rightarrow> int \<Rightarrow> string \<Rightarrow> lease_disk \<Rightarrow> watchdog \<Rightarrow> webhook_end \<times> lease_disk \<times> watchdog"
where
  "webhook_heal su w managed observed actor service cancelled root handle inode i pid at disk s =
     (if actor \<noteq> ''webhook:grafana'' then (Webhook_denied, disk, s)
      else (case acquire root ''controller-webhook-heal'' handle inode i pid at disk of
              (Inl e, disk) \<Rightarrow> (Webhook_conflict, disk, s)
            | (Inr lease, disk) \<Rightarrow>
                (case (if cancelled then (Webhook_cancelled, s) else webhook_inner su w managed observed service disk s) of
                   (e, s) \<Rightarrow> (e, snd (release_lease lease disk), s))))"

end
