(* ===== verification/Watchdog_Budget.thy ===== *)
theory Watchdog_Budget
  imports Watchdog
begin

text \<open>
  Rules for the steps of the watchdog, and the restart budget: what healing does to the restart counters, and how often a
  container that stays broken is restarted.  A step keeps a relation if its start and end are related, whether it returns
  or raises; the locale \<open>step_preorder\<close> has the rules for the combinators.  It is interpreted for quiet steps, which
  attempt no remedy and leave the memory alone, for steps that stay in the budget, and for those that count one container.
\<close>

section \<open>Relations that steps keep\<close>

named_theorems keeps_rules

definition keeps :: "(watchdog \<Rightarrow> watchdog \<Rightarrow> bool) \<Rightarrow> 'a step \<Rightarrow> bool" where
  "keeps R m \<longleftrightarrow> (\<forall>s. R s (snd (m s)))"

lemma keepsI: "(\<And>s. R s (snd (m s))) \<Longrightarrow> keeps R m"
  by (simp add: keeps_def)

lemma keepsD: "keeps R m \<Longrightarrow> m s = (a, s') \<Longrightarrow> R s s'"
  unfolding keeps_def by (metis snd_conv)

lemma keeps_mono: "keeps R m \<Longrightarrow> (\<And>s s'. R s s' \<Longrightarrow> R' s s') \<Longrightarrow> keeps R' m"
  by (simp add: keeps_def)

lemma afterE:
  assumes "after m f s = (r, s')"
  obtains (stop) "m s = (None, s')" and "r = None" | (go) a t where "m s = (Some a, t)" and "f a t = (r, s')"
  using assms by (auto simp: after_def split: prod.splits option.splits)

lemma after_simps [simp]:
  "m s = (Some a, t) \<Longrightarrow> after m f s = f a t" "m s = (None, t) \<Longrightarrow> after m f s = (None, t)"
  by (simp_all add: after_def)

lemma after_assoc: "after (after m f) g = after m (\<lambda>a. after (f a) g)"
  by (auto simp: after_def fun_eq_iff split: prod.splits option.splits)

lemma primitive_runs:
  "give a s = (Some a, s)" "raise_error s = (None, s)"
  "ask f e s = (Some (f (trace s)), s\<lparr>trace := trace s @ [e (f (trace s))]\<rparr>)"
  "remember g s = (Some (), s\<lparr>memory := g (memory s)\<rparr>)" "recall h s = (Some (h (memory s)), s)"
  by (simp_all add: give_def raise_error_def ask_def Let_def remember_def recall_def)

locale step_preorder =
  fixes R :: "watchdog \<Rightarrow> watchdog \<Rightarrow> bool"
  assumes related_refl: "R s s"
    and related_trans: "R s t \<Longrightarrow> R t u \<Longrightarrow> R s u"
begin

lemma keeps_give: "keeps R (give a)"
  by (simp add: keeps_def primitive_runs related_refl)

lemma keeps_raise: "keeps R raise_error"
  by (simp add: keeps_def primitive_runs related_refl)

lemma keeps_recall: "keeps R (recall h)"
  by (simp add: keeps_def primitive_runs related_refl)

lemma keeps_after:
  assumes "keeps R m" and "\<And>a. keeps R (f a)"
  shows "keeps R (after m f)"
proof (rule keepsI)
  fix s
  obtain r s' where run: "after m f s = (r, s')" by (cases "after m f s")
  then have "R s s'"
    by (cases rule: afterE) (auto dest: keepsD [OF assms(1)] keepsD [OF assms(2)] intro: related_trans)
  with run show "R s (snd (after m f s))" by simp
qed

lemma keeps_each:
  assumes "\<And>x b. x \<in> set xs \<Longrightarrow> keeps R (f x b)"
  shows "keeps R (each_step f xs b)"
  using assms by (induction xs arbitrary: b) (auto simp: keeps_give intro!: keeps_after)

lemmas keeps_combinators = keeps_give keeps_raise keeps_recall keeps_after keeps_each

end

lemma keeps_if [keeps_rules]: "(c \<Longrightarrow> keeps R m) \<Longrightarrow> (\<not> c \<Longrightarrow> keeps R n) \<Longrightarrow> keeps R (if c then m else n)"
  by simp

section \<open>Quiet steps\<close>

fun is_remedy :: "event \<Rightarrow> bool" where
  "is_remedy (Plugin_heal t r) = True"
| "is_remedy (Restart n v r) = True"
| "is_remedy (Recover vm r) = True"
| "is_remedy e = False"

definition quiet :: "watchdog \<Rightarrow> watchdog \<Rightarrow> bool" where
  "quiet s s' \<longleftrightarrow> memory s' = memory s \<and> (\<exists>new. trace s' = trace s @ new \<and> (\<forall>e \<in> set new. \<not> is_remedy e))"

interpretation quiet: step_preorder quiet
proof
  fix s t u
  assume "quiet s t" "quiet t u"
  then obtain n1 n2 where "memory t = memory s" "trace t = trace s @ n1" "\<forall>e \<in> set n1. \<not> is_remedy e"
    "memory u = memory t" "trace u = trace t @ n2" "\<forall>e \<in> set n2. \<not> is_remedy e"
    by (auto simp: quiet_def)
  then show "quiet s u" by (auto simp: quiet_def intro!: exI [of _ "n1 @ n2"])
qed (simp add: quiet_def)

lemma quiet_ask [keeps_rules]: "(\<And>a. \<not> is_remedy (e a)) \<Longrightarrow> keeps quiet (ask f e)"
  by (auto simp: keeps_def quiet_def primitive_runs)

lemma quiet_save [keeps_rules]: "keeps quiet (save_restart_state w)"
  by (auto simp: keeps_def quiet_def save_restart_state_def after_def primitive_runs)

lemma quiet_inspect [keeps_rules]: "keeps quiet (inspect_container w name node)"
  unfolding inspect_container_def by (rule quiet_ask) simp

lemma quiet_polls [keeps_rules]: "keeps quiet (verify_polls w name node n)"
proof (induction n)
  case (Suc n)
  then show ?case by (auto intro!: quiet.keeps_combinators keeps_rules split: reply.splits)
qed (auto intro: quiet.keeps_combinators keeps_rules)

lemma quiet_running [keeps_rules]: "keeps quiet (get_running_names w)"
  unfolding get_running_names_def by (auto intro!: quiet.keeps_combinators keeps_rules split: option.splits)

lemma quiet_cascade [keeps_rules]: "keeps quiet (verify_cascade_consumers su w d)"
  unfolding verify_cascade_consumers_def verify_consumer_def verify_post_restart_def Let_def
  by (auto intro!: quiet.keeps_combinators keeps_rules)

lemma quiet_confirm [keeps_rules]: "keeps quiet (confirm_restart su w rc i t)"
  unfolding confirm_restart_def verify_post_restart_def by (intro quiet.keeps_combinators keeps_rules)

lemma quiet_dependencies [keeps_rules]: "keeps quiet (start_dependencies su w structured service)"
  unfolding start_dependencies_def start_dependency_def Let_def
  by (auto intro!: quiet.keeps_combinators keeps_rules split: reply.splits)

lemma quiet_prune [keeps_rules]: "keeps quiet (prune_disk w issues)"
  unfolding prune_disk_def by (auto intro!: quiet.keeps_combinators keeps_rules)

lemma quiet_find [keeps_rules]: "keeps quiet (find_healthy w skipped ks healthy)"
  by (induction ks arbitrary: healthy) (auto intro!: quiet.keeps_combinators keeps_rules split: reply.splits prod.splits)

section \<open>Restarts of a container\<close>

fun is_restart :: "string \<Rightarrow> event \<Rightarrow> bool" where
  "is_restart k (Restart n v r) = (container_state_key n v = k)"
| "is_restart k e = False"

fun is_answered :: "string \<Rightarrow> event \<Rightarrow> bool" where
  "is_answered k (Restart n v (Reply rc)) = (container_state_key n v = k)"
| "is_answered k e = False"

definition tried :: "string \<Rightarrow> event list \<Rightarrow> nat" where
  "tried k es = length (filter (is_restart k) es)"

definition answered :: "string \<Rightarrow> event list \<Rightarrow> nat" where
  "answered k es = length (filter (is_answered k) es)"

lemma restarts_append [simp]: "tried k (xs @ ys) = tried k xs + tried k ys" "answered k (xs @ ys) = answered k xs + answered k ys"
  by (simp_all add: tried_def answered_def)

lemma remedy_restart: "\<not> is_remedy e \<Longrightarrow> \<not> is_restart k e \<and> \<not> is_answered k e"
  by (cases e) auto

lemma no_restarts: "\<forall>e \<in> set es. \<not> is_restart k e \<and> \<not> is_answered k e \<Longrightarrow> tried k es = 0 \<and> answered k es = 0"
  by (simp add: tried_def answered_def)

text \<open>Every answered restart is counted, up to three; then none is tried.\<close>

definition spends :: "nat \<Rightarrow> string \<Rightarrow> event list \<Rightarrow> bool" where
  "spends c k new \<longleftrightarrow> (c \<le> 3 \<longrightarrow> c + answered k new \<le> 3) \<and> (3 \<le> c \<longrightarrow> tried k new = 0)"

definition budget :: "watchdog \<Rightarrow> watchdog \<Rightarrow> bool" where
  "budget s s' \<longleftrightarrow>
     (\<exists>new. trace s' = trace s @ new
        \<and> (\<forall>k. count_of (memory s') k = count_of (memory s) k + answered k new \<and> spends (count_of (memory s) k) k new))"

interpretation budget: step_preorder budget
proof
  fix s t u
  assume "budget s t" "budget t u"
  then obtain n1 n2 where "trace t = trace s @ n1" "trace u = trace t @ n2"
    and "\<forall>k. count_of (memory t) k = count_of (memory s) k + answered k n1 \<and> spends (count_of (memory s) k) k n1"
    and "\<forall>k. count_of (memory u) k = count_of (memory t) k + answered k n2 \<and> spends (count_of (memory t) k) k n2"
    by (auto simp: budget_def)
  then show "budget s u" unfolding budget_def by (intro exI [of _ "n1 @ n2"]) (auto simp: spends_def)
qed (auto simp: budget_def spends_def tried_def answered_def intro: exI [of _ "[]"])

lemma budget_silent:
  assumes "restart_counts (memory s') = restart_counts (memory s)" and "trace s' = trace s @ new"
    and "\<And>e k. e \<in> set new \<Longrightarrow> \<not> is_restart k e \<and> \<not> is_answered k e"
  shows "budget s s'"
proof -
  have "tried k new = 0 \<and> answered k new = 0" for k using assms(3) by (intro no_restarts) blast
  with assms show ?thesis by (auto simp: budget_def spends_def count_of_def)
qed

lemma quiet_budget: "quiet s s' \<Longrightarrow> budget s s'"
proof -
  assume "quiet s s'"
  then obtain new where "memory s' = memory s" "trace s' = trace s @ new" and "\<forall>e \<in> set new. \<not> is_remedy e" by (auto simp: quiet_def)
  then show "budget s s'" using remedy_restart by (auto intro!: budget_silent [of s' s new])
qed

lemmas quiet_in_budget = keeps_mono [OF _ quiet_budget]

lemma budget_ask: "(\<And>a k. \<not> is_restart k (e a) \<and> \<not> is_answered k (e a)) \<Longrightarrow> keeps budget (ask f e)"
  by (rule keepsI) (rule budget_silent [where new = "[e (f (trace _))]"], auto simp: primitive_runs)

lemma budget_remember: "(\<And>m. restart_counts (g m) = restart_counts m) \<Longrightarrow> keeps budget (remember g)"
  by (rule keepsI) (rule budget_silent [where new = "[]"], auto simp: primitive_runs)

section \<open>Healing spends the budget\<close>

lemma budget_restart:
  assumes "restart_service su w (count_of (memory s) k) i t s = (r, s')" and "k = container_state_key (issue_service i) (issue_node i)"
    and "count_of (memory s) k < 3"
  shows "budget s s'"
proof -
  let ?r = "restart_reply w (trace s) (issue_service i) (issue_node i)"
  let ?e = "Restart (issue_service i) (issue_node i) ?r"
  let ?s = "s\<lparr>trace := trace s @ [?e]\<rparr>"
  have counted: "is_restart k' ?e = (k' = k)" for k' using assms(2) by auto
  show ?thesis
  proof (cases ?r)
    case (Reply rc)
    let ?now = "clock w (trace ?s)"
    let ?t = "?s\<lparr>trace := trace ?s @ [Clock ?now],
      memory := (memory s)\<lparr>restart_counts := dict_set k (count_of (memory s) k + 1) (restart_counts (memory s)),
                          restart_timestamps := dict_set k ?now (restart_timestamps (memory s))\<rparr>\<rparr>"
    have "is_answered k' ?e = (k' = k)" for k' using assms(2) Reply by auto
    with counted assms(3) have "budget s ?t"
      by (auto simp: budget_def spends_def count_of_def map_of_dict_set tried_def answered_def)
    moreover from assms(1,2) Reply have "confirm_restart su w rc i (t\<lparr>attempted := attempted t + 1\<rparr>) ?t = (r, s')"
      by (simp add: restart_service_def Let_def after_def primitive_runs)
    then have "quiet ?t s'" by (rule keepsD [OF quiet_confirm])
    ultimately show ?thesis using quiet_budget budget.related_trans by blast
  qed (use assms counted in \<open>auto simp: restart_service_def Let_def after_def primitive_runs budget_def spends_def tried_def answered_def\<close>)
qed

lemma budget_issue: "keeps budget (heal_issue su w deps structured i b)"
proof (cases b)
  case (Pair handled t)
  let ?k = "container_state_key (issue_service i) (issue_node i)"
  show ?thesis
  proof (rule keepsI)
    fix s
    obtain r s' where run: "heal_issue su w deps structured i b s = (r, s')" by (cases "heal_issue su w deps structured i b s")
    have "budget s s'"
    proof (cases "\<not> auto_fixable i \<or> issue_service i \<in> set structured \<or> count_of (memory s) ?k \<ge> 3")
      case True
      with run Pair show ?thesis by (auto simp: heal_issue_def Let_def after_def primitive_runs budget.related_refl split: if_splits)
    next
      case False
      let ?since = "case map_of (restart_timestamps (memory s)) ?k of None \<Rightarrow> 0 | Some ts \<Rightarrow> ts"
      let ?deps = "if deps then start_dependencies su w structured (issue_service i) else give ()"
      let ?now = "clock w (trace s)" and ?s = "s\<lparr>trace := trace s @ [Clock (clock w (trace s))]\<rparr>"
      have tick: "quiet s ?s" by (auto simp: quiet_def)
      show ?thesis
      proof (cases "?since > 0 \<and> ?now - ?since < backoff (count_of (memory s) ?k)")
        case True
        with False run Pair tick show ?thesis
          by (auto simp: heal_issue_def Let_def after_def primitive_runs intro: quiet_budget)
      next
        case ready: False
        with False run Pair have "after ?deps (\<lambda>_. after (restart_service su w (count_of (memory s) ?k) i t) (\<lambda>t. give (handled @ [i], t))) ?s = (r, s')"
          by (auto simp: heal_issue_def Let_def after_def primitive_runs)
        then show ?thesis
        proof (cases rule: afterE)
          case stop
          have "quiet ?s s'" using stop(1) by (rule keepsD [rotated]) (intro quiet.keeps_combinators keeps_rules)
          with tick show ?thesis using quiet.related_trans quiet_budget by blast
        next
          case (go u v)
          have "quiet ?s v" using go(1) by (rule keepsD [rotated]) (intro quiet.keeps_combinators keeps_rules)
          with tick have v: "quiet s v" using quiet.related_trans by blast
          then have "memory v = memory s" by (simp add: quiet_def)
          moreover from go(2) obtain q where "restart_service su w (count_of (memory s) ?k) i t v = (q, s')"
            by (cases rule: afterE) (auto simp: primitive_runs)
          ultimately have "budget v s'" using False by (auto intro: budget_restart)
          with v show ?thesis using quiet_budget budget.related_trans by blast
        qed
      qed
    qed
    with run show "budget s (snd (heal_issue su w deps structured i b s))" by simp
  qed
qed

lemma budget_plugin: "keeps budget (heal_plugin w target t)"
  unfolding heal_plugin_def by (intro budget.keeps_combinators budget_ask) simp

lemma budget_save: "keeps budget (save_restart_state w)"
  by (rule quiet_in_budget [OF quiet_save])

lemma budget_recover: "keeps budget (maybe_auto_trigger_recover su w issues t)"
  unfolding maybe_auto_trigger_recover_def recover_node_def run_recovery_def audit_def Let_def
  by (auto intro!: budget.keeps_combinators budget_ask budget_remember budget_save split: sum.splits option.splits)

section \<open>Containers that run again\<close>

definition fixable_keys :: "health_issue list \<Rightarrow> string set" where
  "fixable_keys issues = (\<lambda>i. container_state_key (issue_service i) (issue_node i)) ` {i \<in> set issues. auto_fixable i}"

lemma fixable_keys_simps [simp]:
  "fixable_keys [] = {}" "fixable_keys (xs @ ys) = fixable_keys xs \<union> fixable_keys ys"
  "fixable_keys (i # xs) = (if auto_fixable i then {container_state_key (issue_service i) (issue_node i)} else {}) \<union> fixable_keys xs"
  by (auto simp: fixable_keys_def)

text \<open>What a healing leaves: the counter of a container outside the report may be forgotten.\<close>

definition healed :: "string set \<Rightarrow> watchdog \<Rightarrow> watchdog \<Rightarrow> bool" where
  "healed ks s s' \<longleftrightarrow>
     (\<exists>new. trace s' = trace s @ new
        \<and> (\<forall>k. (count_of (memory s') k = count_of (memory s) k + answered k new \<or> count_of (memory s') k = 0 \<and> k \<notin> ks)
              \<and> spends (count_of (memory s) k) k new))"

lemma budget_healed: "budget s s' \<Longrightarrow> healed ks s s'"
  by (auto simp: budget_def healed_def)

lemma budget_then_healed:
  assumes "budget s t" and "healed ks t u"
  shows "healed ks s u"
proof -
  from assms obtain n1 n2 where "trace t = trace s @ n1" "trace u = trace t @ n2"
    and "\<forall>k. count_of (memory t) k = count_of (memory s) k + answered k n1 \<and> spends (count_of (memory s) k) k n1"
    and "\<forall>k. (count_of (memory u) k = count_of (memory t) k + answered k n2 \<or> count_of (memory u) k = 0 \<and> k \<notin> ks)
          \<and> spends (count_of (memory t) k) k n2"
    by (auto simp: budget_def healed_def)
  then show ?thesis unfolding healed_def
    by (intro exI [of _ "n1 @ n2"]) (simp add: spends_def, (metis add.assoc add_leD1)?)
qed

lemma count_of_filter:
  "count_of (m\<lparr>restart_counts := filter (\<lambda>(k, c). k \<notin> ks) (restart_counts m), restart_timestamps := ts\<rparr>) k
     = (if k \<in> ks then 0 else count_of m k)"
proof -
  have "map_of (filter (\<lambda>(k, c). k \<notin> ks) xs) k = (if k \<in> ks then None else map_of xs k)" for xs :: "(string \<times> nat) list"
    by (induction xs) auto
  then show ?thesis by (simp add: count_of_def)
qed

lemma find_healthy_outside:
  "find_healthy w skipped ks healthy s = (Some found, s') \<Longrightarrow> set found \<subseteq> set healthy \<union> (set ks - set skipped)"
proof (induction ks arbitrary: healthy s)
  case (Cons k ks)
  show ?case
  proof (cases "k \<in> set skipped")
    case True
    with Cons show ?thesis by fastforce
  next
    case False
    obtain name node where "split_container_state_key k = (name, node)" by fastforce
    with Cons.prems False have "after (inspect_container w name node) (\<lambda>r.
        case r of
          Reply (rc, out) \<Rightarrow> find_healthy w skipped ks (if rc = 0 \<and> is_up out then healthy @ [k] else healthy)
        | Missed \<Rightarrow> give healthy | Os_error \<Rightarrow> give healthy | Raised \<Rightarrow> raise_error) s = (Some found, s')" by simp
    then show ?thesis
    proof (cases rule: afterE)
      case (go r t)
      with False show ?thesis
        by (auto simp: primitive_runs split: reply.splits if_splits dest!: Cons.IH)
    qed simp
  qed
qed (simp add: primitive_runs)

lemma reset_healed:
  assumes "reset_healthy w issues s = (r, s')"
  shows "healed (fixable_keys issues) s s'"
proof -
  let ?skipped = "map (\<lambda>i. container_state_key (issue_service i) (issue_node i)) (filter auto_fixable issues)"
  have keys: "set ?skipped = fixable_keys issues" by (auto simp: fixable_keys_def)
  from assms have "after (find_healthy w ?skipped (map fst (restart_counts (memory s))) []) (\<lambda>healthy.
       if healthy = [] then give ()
       else after (remember (\<lambda>m. m\<lparr>restart_counts := filter (\<lambda>(k, c). k \<notin> set healthy) (restart_counts m),
                                  restart_timestamps := filter (\<lambda>(k, c). k \<notin> set healthy) (restart_timestamps m)\<rparr>)) (\<lambda>_.
            save_restart_state w)) s = (r, s')"
    by (simp add: reset_healthy_def after_def [of "recall _"] primitive_runs)
  then show ?thesis
  proof (cases rule: afterE)
    case stop
    from keepsD [OF quiet_find stop(1)] show ?thesis by (intro budget_healed quiet_budget)
  next
    case (go healthy t)
    from keepsD [OF quiet_find go(1)] have t: "quiet s t" .
    show ?thesis
    proof (cases "healthy = []")
      case True
      with go t show ?thesis by (auto simp: primitive_runs intro: budget_healed quiet_budget)
    next
      case False
      let ?u = "t\<lparr>memory := (memory t)\<lparr>restart_counts := filter (\<lambda>(k, c). k \<notin> set healthy) (restart_counts (memory t)),
                                      restart_timestamps := filter (\<lambda>(k, c). k \<notin> set healthy) (restart_timestamps (memory t))\<rparr>\<rparr>"
      from False go(2) have "save_restart_state w ?u = (r, s')" by (simp add: after_def primitive_runs)
      then have "quiet ?u s'" by (rule keepsD [OF quiet_save])
      then obtain new where new: "trace s' = trace t @ new" "\<forall>e \<in> set new. \<not> is_remedy e" and m: "memory s' = memory ?u"
        by (auto simp: quiet_def)
      have none: "tried k new = 0 \<and> answered k new = 0" for k using new(2) remedy_restart by (intro no_restarts) blast
      have outside: "k \<in> set healthy \<Longrightarrow> k \<notin> fixable_keys issues" for k using find_healthy_outside [OF go(1)] keys by auto
      have "healed (fixable_keys issues) t s'" unfolding healed_def
      proof (intro exI [of _ new] conjI allI)
        fix k
        have c: "count_of (memory s') k = (if k \<in> set healthy then 0 else count_of (memory t) k)" unfolding m by (simp add: count_of_filter)
        show "count_of (memory s') k = count_of (memory t) k + answered k new \<or> count_of (memory s') k = 0 \<and> k \<notin> fixable_keys issues"
          using c none [of k] outside [of k] by auto
        show "spends (count_of (memory t) k) k new" using none [of k] by (simp add: spends_def)
      qed (rule new(1))
      then show ?thesis using budget_then_healed quiet_budget t by blast
    qed
  qed
qed

section \<open>A whole healing\<close>

lemma heal_issue_result:
  assumes "heal_issue su w deps structured i (h, t) s = (Some (h', t'), s')"
  shows "\<exists>j. h' = h @ [j] \<and> (j = i \<or> j = i\<lparr>terminal := True\<rparr>)"
  using assms unfolding heal_issue_def Let_def
  by (auto elim!: afterE simp: primitive_runs split: if_splits)

lemma heal_issues_result:
  "each_step (heal_issue su w deps structured) xs (h, t) s = (Some (h', t'), s')
     \<Longrightarrow> \<exists>ys. h' = h @ ys \<and> list_all2 (\<lambda>i j. j = i \<or> j = i\<lparr>terminal := True\<rparr>) xs ys"
proof (induction xs arbitrary: h t s)
  case (Cons i xs)
  from Cons.prems have "after (heal_issue su w deps structured i (h, t)) (\<lambda>b. each_step (heal_issue su w deps structured) xs b) s = (Some (h', t'), s')" by simp
  then show ?case
  proof (cases rule: afterE)
    case (go b v)
    obtain h1 t1 where b: "b = (h1, t1)" by (cases b)
    from heal_issue_result [OF go(1) [unfolded b]] obtain j where "h1 = h @ [j]" "j = i \<or> j = i\<lparr>terminal := True\<rparr>" by blast
    moreover from Cons.IH [OF go(2) [unfolded b]] obtain ys where "h' = h1 @ ys" "list_all2 (\<lambda>i j. j = i \<or> j = i\<lparr>terminal := True\<rparr>) xs ys" by blast
    ultimately show ?thesis by (intro exI [of _ "j # ys"]) auto
  qed simp
qed (simp add: primitive_runs)

lemma heal_issues_keep:
  assumes "each_step (heal_issue su w deps structured) xs ([], t) s = (Some (ys, t'), s')"
  shows "fixable_keys ys = fixable_keys xs" and "issue_service ` set ys = issue_service ` set xs"
proof -
  from heal_issues_result [OF assms] have "list_all2 (\<lambda>i j. j = i \<or> j = i\<lparr>terminal := True\<rparr>) xs ys" by simp
  then have "fixable_keys ys = fixable_keys xs \<and> issue_service ` set ys = issue_service ` set xs"
    by (induction rule: list_all2_induct) auto
  then show "fixable_keys ys = fixable_keys xs" and "issue_service ` set ys = issue_service ` set xs" by blast+
qed

lemma heal_healed:
  assumes "heal_with su w disk broad deps plugs issues s = (r, s')"
  shows "healed (fixable_keys issues) s s'"
proof (cases "inspected_active (inspect (texts su) disk)")
  case True
  with assms show ?thesis by (simp add: heal_with_def primitive_runs budget_healed budget.related_refl)
next
  case False
  let ?st = "if plugs then heal_routes su else []"
  let ?ts = "sort (remdups (map issue_service (filter (\<lambda>i. auto_fixable i \<and> issue_service i \<in> set ?st) issues)))"
  from False assms have "after (after (prune_disk w issues) (\<lambda>_. each_step (heal_plugin w) ?ts no_heals)) (\<lambda>t.
      after (each_step (heal_issue su w deps ?st) issues ([], t)) (\<lambda>(issues, t).
      after (if broad then maybe_auto_trigger_recover su w issues t else give t) (\<lambda>t.
      after (reset_healthy w issues) (\<lambda>_. case new_heal_result t of None \<Rightarrow> raise_error | Some r \<Rightarrow> give (r, issues))))) s = (r, s')"
    by (simp add: heal_with_def Let_def after_assoc)
  then show ?thesis
  proof (cases rule: afterE)
    case stop
    have "budget s s'" using stop(1)
      by (rule keepsD [rotated]) (intro budget.keeps_combinators budget_plugin quiet_in_budget [OF quiet_prune])
    then show ?thesis by (rule budget_healed)
  next
    case (go t u)
    have u: "budget s u" using go(1)
      by (rule keepsD [rotated]) (intro budget.keeps_combinators budget_plugin quiet_in_budget [OF quiet_prune])
    from go(2) show ?thesis
    proof (cases rule: afterE)
      case stop
      have "budget u s'" using stop(1) by (rule keepsD [rotated]) (intro budget.keeps_combinators budget_issue)
      then show ?thesis using u budget_healed budget.related_trans by blast
    next
      case (go b v)
      obtain issues' t' where b: "b = (issues', t')" by (cases b)
      have "budget u v" using go(1) by (rule keepsD [rotated]) (intro budget.keeps_combinators budget_issue)
      with u have v: "budget s v" using budget.related_trans by blast
      have keys: "fixable_keys issues' = fixable_keys issues" using heal_issues_keep(1) [OF go(1) [unfolded b]] .
      have broad: "keeps budget (if broad then maybe_auto_trigger_recover su w issues' t' else give t')"
        by (intro keeps_if budget_recover budget.keeps_combinators)
      from go(2) [unfolded b] have "after (if broad then maybe_auto_trigger_recover su w issues' t' else give t') (\<lambda>t.
          after (reset_healthy w issues') (\<lambda>_. case new_heal_result t of None \<Rightarrow> raise_error | Some r \<Rightarrow> give (r, issues'))) v = (r, s')"
        by simp
      then show ?thesis
      proof (cases rule: afterE)
        case stop
        from keepsD [OF broad stop(1)] v show ?thesis using budget_healed budget.related_trans by blast
      next
        case (go t2 x)
        from keepsD [OF broad go(1)] v have x: "budget s x" using budget.related_trans by blast
        from go(2) obtain q where "reset_healthy w issues' x = (q, s')"
          by (cases rule: afterE) (auto simp: primitive_runs split: option.splits)
        from reset_healed [OF this] keys x show ?thesis using budget_then_healed by simp
      qed
    qed
  qed
qed

section \<open>Rounds of the daemon\<close>

definition counted :: "string \<Rightarrow> watchdog \<Rightarrow> watchdog \<Rightarrow> bool" where
  "counted k s s' \<longleftrightarrow>
     (\<exists>new. trace s' = trace s @ new \<and> count_of (memory s') k = count_of (memory s) k + answered k new
        \<and> spends (count_of (memory s) k) k new)"

interpretation counted: step_preorder "counted k" for k
proof
  fix s t u
  assume "counted k s t" "counted k t u"
  then obtain n1 n2 where "trace t = trace s @ n1" "count_of (memory t) k = count_of (memory s) k + answered k n1"
    "spends (count_of (memory s) k) k n1" "trace u = trace t @ n2" "count_of (memory u) k = count_of (memory t) k + answered k n2"
    "spends (count_of (memory t) k) k n2"
    by (auto simp: counted_def)
  then show "counted k s u" unfolding counted_def by (intro exI [of _ "n1 @ n2"]) (auto simp: spends_def)
qed (auto simp: counted_def spends_def tried_def answered_def)

lemma budget_counted: "budget s s' \<Longrightarrow> counted k s s'"
  by (auto simp: budget_def counted_def)

lemma healed_counted: "healed ks s s' \<Longrightarrow> k \<in> ks \<Longrightarrow> counted k s s'"
  by (auto simp: healed_def counted_def)

lemma budget_notify: "keeps budget (notify su w issues)"
  unfolding notify_def notify_issue_def Let_def
  by (auto intro!: budget.keeps_combinators budget_ask budget_remember budget_save split: option.splits bool.splits prod.splits)

lemma counted_round:
  assumes "issues \<noteq> [] \<Longrightarrow> k \<in> fixable_keys issues"
  shows "keeps (counted k) (daemon_round su w (disk, issues) u)"
proof -
  have "keeps (counted k) (heal su w disk issues)" if "issues \<noteq> []"
  proof (rule keepsI)
    fix s
    show "counted k s (snd (heal su w disk issues s))"
      using heal_healed [of su w disk True True True issues s] assms [OF that] healed_counted
      by (cases "heal su w disk issues s") (auto simp: heal_def)
  qed
  moreover have "keeps (counted k) (notify su w xs)" for xs using keeps_mono [OF budget_notify budget_counted] .
  ultimately show ?thesis
    by (auto simp: daemon_round_def intro!: counted.keeps_combinators split: prod.splits)
qed

text \<open>
  C26. A container that stays broken is not restarted again and again.  However many rounds the daemon makes, and whatever
  Docker and the clock answer, if every report with issues names the container as fixable, then the restarts that Docker
  answers and those counted before are at most three; the counter counts them; and once it is at three, no further
  restart is tried.
\<close>

theorem restart_budget_kept:
  assumes "watchdog_daemon su w rounds s = (r, s')" and "count_of (memory s) k \<le> 3"
    and "\<And>disk issues. (disk, issues) \<in> set rounds \<Longrightarrow> issues \<noteq> [] \<Longrightarrow> k \<in> fixable_keys issues"
  shows "\<exists>new. trace s' = trace s @ new \<and> count_of (memory s) k + answered k new \<le> 3
      \<and> count_of (memory s') k = count_of (memory s) k + answered k new
      \<and> (count_of (memory s) k = 3 \<longrightarrow> tried k new = 0)"
proof -
  have "keeps (counted k) (watchdog_daemon su w rounds)"
    unfolding watchdog_daemon_def using assms(3) by (auto intro!: counted.keeps_each counted_round)
  from keepsD [OF this assms(1)] show ?thesis using assms(2) by (auto simp: counted_def spends_def)
qed

end
