(* ===== verification/Watchdog_Properties.thy ===== *)
theory Watchdog_Properties
  imports Watchdog_Budget
begin

text \<open>
  What a healing reports, that it returns a result, and a webhook that never heals.
\<close>

section \<open>The tally of a healing\<close>

definition remedies :: "event list \<Rightarrow> int" where
  "remedies es = int (length (filter is_remedy es))"

definition restarts :: "event list \<Rightarrow> int" where
  "restarts es = int (length (filter (\<lambda>e. \<exists>k. is_restart k e) es))"

lemma counts_append [simp]: "remedies (xs @ ys) = remedies xs + remedies ys" "restarts (xs @ ys) = restarts xs + restarts ys"
  by (simp_all add: remedies_def restarts_def)

text \<open>Every remedy is counted once, as a success or as a failure; \<open>n\<close> issues were restarted or deferred.\<close>

definition tallied :: "int \<Rightarrow> heal_result \<Rightarrow> watchdog \<Rightarrow> heal_result \<Rightarrow> watchdog \<Rightarrow> bool" where
  "tallied n t s t' s' \<longleftrightarrow>
     (\<exists>new. trace s' = trace s @ new \<and> attempted t' = attempted t + remedies new
        \<and> succeeded t' + failed t' = succeeded t + failed t + remedies new
        \<and> succeeded t \<le> succeeded t' \<and> failed t \<le> failed t' \<and> deferred t \<le> deferred t'
        \<and> deferred t' + restarts new = deferred t + n)"

lemma tallied_trans:
  assumes "tallied n t s t' s'" and "tallied n' t' s' t'' s''"
  shows "tallied (n + n') t s t'' s''"
proof -
  from assms obtain e1 e2 where
    "trace s' = trace s @ e1" "attempted t' = attempted t + remedies e1"
    "succeeded t' + failed t' = succeeded t + failed t + remedies e1"
    "succeeded t \<le> succeeded t'" "failed t \<le> failed t'" "deferred t \<le> deferred t'" "deferred t' + restarts e1 = deferred t + n"
    "trace s'' = trace s' @ e2" "attempted t'' = attempted t' + remedies e2"
    "succeeded t'' + failed t'' = succeeded t' + failed t' + remedies e2"
    "succeeded t' \<le> succeeded t''" "failed t' \<le> failed t''" "deferred t' \<le> deferred t''" "deferred t'' + restarts e2 = deferred t' + n'"
    by (auto simp: tallied_def)
  then show ?thesis unfolding tallied_def by (intro exI [of _ "e1 @ e2"]) simp
qed

lemmas silent_trans = tallied_trans [where n = 0 and n' = 0, simplified]

lemma quiet_tallied: "quiet s s' \<Longrightarrow> tallied 0 t s t s'"
proof -
  assume "quiet s s'"
  then obtain new where new: "trace s' = trace s @ new" "\<forall>e \<in> set new. \<not> is_remedy e" by (auto simp: quiet_def)
  then have "remedies new = 0" "restarts new = 0" using remedy_restart by (auto simp: remedies_def restarts_def filter_empty_conv)
  with new show ?thesis by (auto simp: tallied_def)
qed

lemma quiet_then_tallied: "quiet s u \<Longrightarrow> tallied n t u t' s' \<Longrightarrow> tallied n t s t' s'"
  using tallied_trans [OF quiet_tallied] by fastforce

lemma tallied_then_quiet: "tallied n t s t' u \<Longrightarrow> quiet u s' \<Longrightarrow> tallied n t s t' s'"
  using tallied_trans [OF _ quiet_tallied] by fastforce

text \<open>One remedy: its event, and a step that does nothing else.\<close>

lemma one_remedy:
  assumes "trace u = trace s @ [e]" and "is_remedy e" and "\<exists>new. trace s' = trace u @ new \<and> (\<forall>e \<in> set new. \<not> is_remedy e)"
    and "attempted t' = attempted t + 1" and "deferred t' = deferred t"
    and "succeeded t' = succeeded t + 1 \<and> failed t' = failed t \<or> succeeded t' = succeeded t \<and> failed t' = failed t + 1"
  shows "tallied (if \<exists>k. is_restart k e then 1 else 0) t s t' s'"
proof -
  from assms(3) obtain new where new: "trace s' = trace u @ new" "\<forall>e \<in> set new. \<not> is_remedy e" by blast
  then have "remedies new = 0" "restarts new = 0" using remedy_restart by (auto simp: remedies_def restarts_def filter_empty_conv)
  with assms new show ?thesis unfolding tallied_def
    by (intro exI [of _ "e # new"]) (auto simp: remedies_def restarts_def)
qed

lemma plugin_tallied: "heal_plugin w target t s = (Some t', s') \<Longrightarrow> tallied 0 t s t' s'"
  using one_remedy [of s' s "Plugin_heal target (plugin w (trace s) target)" s' t' t]
  by (auto simp: heal_plugin_def after_def primitive_runs split: if_splits)

lemma confirm_tallied:
  assumes "confirm_restart su w rc i t s = (Some t', s')"
  shows "attempted t' = attempted t \<and> deferred t' = deferred t
    \<and> (succeeded t' = succeeded t + 1 \<and> failed t' = failed t \<or> succeeded t' = succeeded t \<and> failed t' = failed t + 1)"
  using assms unfolding confirm_restart_def by (auto elim!: afterE simp: primitive_runs split: if_splits)

lemma restart_tallied:
  assumes "restart_service su w count i t s = (Some t', s')"
  shows "tallied 1 t s t' s'"
proof -
  let ?r = "restart_reply w (trace s) (issue_service i) (issue_node i)"
  let ?e = "Restart (issue_service i) (issue_node i) ?r"
  let ?u = "s\<lparr>trace := trace s @ [?e]\<rparr>" and ?t = "t\<lparr>attempted := attempted t + 1\<rparr>"
  show ?thesis
  proof (cases ?r)
    case (Reply rc)
    let ?key = "container_state_key (issue_service i) (issue_node i)"
    let ?v = "?u\<lparr>trace := trace ?u @ [Clock (clock w (trace ?u))], memory := (memory s)\<lparr>
        restart_counts := dict_set ?key (count + 1) (restart_counts (memory s)),
        restart_timestamps := dict_set ?key (clock w (trace ?u)) (restart_timestamps (memory s))\<rparr>\<rparr>"
    from assms Reply have run: "confirm_restart su w rc i ?t ?v = (Some t', s')"
      by (simp add: restart_service_def Let_def after_def primitive_runs)
    from keepsD [OF quiet_confirm run] obtain new where "trace s' = trace ?v @ new" "\<forall>e \<in> set new. \<not> is_remedy e"
      by (auto simp: quiet_def)
    then have "\<exists>new. trace s' = trace ?u @ new \<and> (\<forall>e \<in> set new. \<not> is_remedy e)"
      by (intro exI [of _ "Clock (clock w (trace ?u)) # new"]) auto
    with confirm_tallied [OF run] one_remedy [of ?u s ?e s' t' t] show ?thesis by auto
  next
    case Missed
    with assms have "t' = ?t\<lparr>failed := failed t + 1\<rparr>" "s' = ?u"
      by (auto simp: restart_service_def Let_def after_def primitive_runs)
    with one_remedy [of ?u s ?e s' t' t] show ?thesis by auto
  qed (use assms in \<open>auto simp: restart_service_def Let_def after_def primitive_runs\<close>)
qed

text \<open>The issues that are healed by a restart.\<close>

definition restartable :: "string list \<Rightarrow> health_issue \<Rightarrow> bool" where
  "restartable structured i \<longleftrightarrow> auto_fixable i \<and> issue_service i \<notin> set structured"

lemma issue_tallied:
  assumes "heal_issue su w deps structured i (h, t) s = (Some (h', t'), s')"
  shows "tallied (if restartable structured i then 1 else 0) t s t' s'"
proof (cases "restartable structured i")
  case False
  with assms have "t' = t" "s' = s" by (auto simp: heal_issue_def restartable_def primitive_runs)
  with False show ?thesis by (simp add: quiet_tallied quiet.related_refl)
next
  case True
  let ?deps = "if deps then start_dependencies su w structured (issue_service i) else give ()"
  let ?s = "s\<lparr>trace := trace s @ [Clock (clock w (trace s))]\<rparr>"
  let ?c = "count_of (memory s) (container_state_key (issue_service i) (issue_node i))"
  have tick: "quiet s ?s" by (auto simp: quiet_def)
  have deferring: "tallied 1 t u (t\<lparr>deferred := deferred t + 1\<rparr>) u" for u
    by (auto simp: tallied_def remedies_def restarts_def)
  from assms True consider "t' = t\<lparr>deferred := deferred t + 1\<rparr>" "s' = s" | "t' = t\<lparr>deferred := deferred t + 1\<rparr>" "s' = ?s"
    | "after ?deps (\<lambda>_. after (restart_service su w ?c i t) (\<lambda>t. give (h @ [i], t))) ?s = (Some (h', t'), s')"
    unfolding heal_issue_def restartable_def Let_def by (auto simp: after_def primitive_runs split: if_splits)
  then show ?thesis
  proof cases
    case 1
    with deferring True show ?thesis by simp
  next
    case 2
    with deferring True tick show ?thesis by (simp add: quiet_then_tallied)
  next
    case 3
    then show ?thesis
    proof (cases rule: afterE)
      case (go u v)
      have "keeps quiet ?deps" by (intro quiet.keeps_combinators keeps_rules)
      from keepsD [OF this go(1)] tick have v: "quiet s v" using quiet.related_trans by blast
      from go(2) have "restart_service su w ?c i t v = (Some t', s')" by (cases rule: afterE) (auto simp: primitive_runs)
      from quiet_then_tallied [OF v restart_tallied [OF this]] True show ?thesis by simp
    qed simp
  qed
qed

lemma issues_tallied:
  "each_step (heal_issue su w deps structured) xs (h, t) s = (Some (h', t'), s')
     \<Longrightarrow> tallied (int (length (filter (restartable structured) xs))) t s t' s'"
proof (induction xs arbitrary: h t s)
  case (Cons i xs)
  from Cons.prems have "after (heal_issue su w deps structured i (h, t)) (\<lambda>b. each_step (heal_issue su w deps structured) xs b) s = (Some (h', t'), s')" by simp
  then show ?case
  proof (cases rule: afterE)
    case (go b v)
    obtain h1 t1 where b: "b = (h1, t1)" by (cases b)
    from tallied_trans [OF issue_tallied [OF go(1) [unfolded b]] Cons.IH [OF go(2) [unfolded b]]]
    show ?thesis by (auto split: if_splits simp: add.commute)
  qed simp
qed (simp add: primitive_runs quiet_tallied quiet.related_refl)

lemma each_tallied:
  assumes "each_step f xs t s = (Some t', s')" and "\<And>x t s t' s'. f x t s = (Some t', s') \<Longrightarrow> tallied 0 t s t' s'"
  shows "tallied 0 t s t' s'"
  using assms(1)
proof (induction xs arbitrary: t s)
  case (Cons x xs)
  from Cons.prems have "after (f x t) (\<lambda>b. each_step f xs b) s = (Some t', s')" by simp
  then show ?case
  proof (cases rule: afterE)
    case (go t1 v)
    from tallied_trans [OF assms(2) [OF go(1)] Cons.IH [OF go(2)]] show ?thesis by simp
  qed simp
qed (simp add: primitive_runs quiet_tallied quiet.related_refl)

lemma run_recovery_tallied:
  assumes "run_recovery w vm (t\<lparr>attempted := attempted t + 1\<rparr>) s = (Some t', s')"
  shows "tallied 0 t s t' s'"
  using assms one_remedy [of "s\<lparr>trace := trace s @ [Recover vm (recover_reply w (trace s) vm)]\<rparr>" s
      "Recover vm (recover_reply w (trace s) vm)" s' t' t]
  by (auto simp: run_recovery_def Let_def audit_def after_def primitive_runs split: option.splits if_splits)

lemma recover_node_tallied:
  assumes "recover_node w now vm t s = (Some t', s')"
  shows "tallied 0 t s t' s'"
proof -
  let ?u = "s\<lparr>memory := (memory s)\<lparr>last_auto_recover_at := dict_set vm now (last_auto_recover_at (memory s))\<rparr>\<rparr>"
  from assms have "after (save_restart_state w) (\<lambda>_. run_recovery w vm (t\<lparr>attempted := attempted t + 1\<rparr>)) ?u = (Some t', s')"
    by (simp add: recover_node_def after_def [of "remember _"] primitive_runs)
  then show ?thesis
  proof (cases rule: afterE)
    case (go x v)
    have "tallied 0 t s t ?u" by (auto simp: tallied_def remedies_def restarts_def)
    moreover from quiet_tallied [OF keepsD [OF quiet_save go(1)]] have "tallied 0 t ?u t v" .
    moreover from run_recovery_tallied [OF go(2)] have "tallied 0 t v t' s'" .
    ultimately show ?thesis using silent_trans by blast
  qed simp
qed

lemma recover_tallied:
  assumes "maybe_auto_trigger_recover su w issues t s = (Some t', s')"
  shows "tallied 0 t s t' s'"
proof -
  let ?u = "s\<lparr>trace := trace s @ [Clock (clock w (trace s))]\<rparr>"
  have tick: "quiet s ?u" by (auto simp: quiet_def)
  from assms consider "t' = t" "s' = ?u" | now vms where "each_step (recover_node w now) vms t ?u = (Some t', s')"
    by (auto simp: maybe_auto_trigger_recover_def after_def primitive_runs split: sum.splits)
  then show ?thesis
  proof cases
    case 1
    with tick show ?thesis by (simp add: quiet_tallied)
  next
    case 2
    from each_tallied [OF this recover_node_tallied] tick show ?thesis by (simp add: quiet_then_tallied)
  qed
qed

lemma reset_traced:
  assumes "reset_healthy w issues s = (r, s')"
  shows "tallied 0 t s t s'"
proof -
  from assms obtain ks skipped where "after (find_healthy w skipped ks []) (\<lambda>healthy.
       if healthy = [] then give ()
       else after (remember (\<lambda>m. m\<lparr>restart_counts := filter (\<lambda>(k, c). k \<notin> set healthy) (restart_counts m),
                                  restart_timestamps := filter (\<lambda>(k, c). k \<notin> set healthy) (restart_timestamps m)\<rparr>)) (\<lambda>_.
            save_restart_state w)) s = (r, s')"
    by (simp add: reset_healthy_def after_def [of "recall _"] primitive_runs)
  then show ?thesis
  proof (cases rule: afterE)
    case stop
    then show ?thesis using keepsD [OF quiet_find] quiet_tallied by blast
  next
    case (go healthy u)
    from quiet_tallied [OF keepsD [OF quiet_find go(1)]] have "tallied 0 t s t u" .
    moreover have "tallied 0 t u t s'" using go(2)
      by (auto simp: after_def primitive_runs save_restart_state_def tallied_def remedies_def restarts_def split: if_splits)
    ultimately show ?thesis using silent_trans by blast
  qed
qed

section \<open>Healing ends with a result\<close>

text \<open>Nothing outside raises but for what the watchdog handles.\<close>

definition calm :: "world \<Rightarrow> bool" where
  "calm w \<longleftrightarrow>
     (\<forall>tr. prune w tr \<and> running_names w tr \<noteq> None \<and> audit_reply w tr)
     \<and> (\<forall>tr n. start_reply w tr n \<notin> {Os_error, Raised}) \<and> (\<forall>tr n v. restart_reply w tr n v \<notin> {Os_error, Raised})
     \<and> (\<forall>tr n v. inspect_reply w tr n v \<notin> {Os_error, Raised})"

definition returns :: "'a step \<Rightarrow> bool" where
  "returns m \<longleftrightarrow> (\<forall>s. \<exists>a s'. m s = (Some a, s'))"

lemma calm_answers:
  assumes "calm w"
  shows "prune w tr" "running_names w tr \<noteq> None" "audit_reply w tr" "start_reply w tr n \<noteq> Os_error" "start_reply w tr n \<noteq> Raised"
    "restart_reply w tr n v \<noteq> Os_error" "restart_reply w tr n v \<noteq> Raised"
    "inspect_reply w tr n v \<noteq> Os_error" "inspect_reply w tr n v \<noteq> Raised"
  using assms by (simp_all add: calm_def)

lemma returnsE:
  assumes "returns m"
  obtains a s' where "m s = (Some a, s')"
  using assms unfolding returns_def by blast

lemma returns_primitive: "returns (give a)" "returns (ask f e)" "returns (remember g)" "returns (recall h)" "returns (save_restart_state w)"
  by (auto simp: returns_def primitive_runs save_restart_state_def after_def)

lemma returns_after: "returns m \<Longrightarrow> (\<And>a. returns (f a)) \<Longrightarrow> returns (after m f)"
  unfolding returns_def by (metis after_simps(1))

text \<open>The answer is one that the outside gives.\<close>

lemma returns_ask: "(\<And>tr. returns (f (g tr))) \<Longrightarrow> returns (after (ask g e) f)"
  by (auto simp: returns_def after_def primitive_runs)

lemma returns_each: "(\<And>x b. returns (f x b)) \<Longrightarrow> returns (each_step f xs b)"
  by (induction xs arbitrary: b) (auto intro: returns_primitive returns_after)

lemma returns_if: "(c \<Longrightarrow> returns m) \<Longrightarrow> (\<not> c \<Longrightarrow> returns n) \<Longrightarrow> returns (if c then m else n)"
  by simp

lemmas returns_rules = returns_if returns_ask returns_after returns_each returns_primitive

lemma calm_polls: "calm w \<Longrightarrow> returns (verify_polls w name node n)"
proof (induction n)
  case (Suc n)
  then show ?case unfolding verify_polls.simps inspect_container_def
    by (intro returns_ask) (auto simp: calm_def intro!: returns_rules split: reply.splits)
qed (simp add: returns_primitive)

lemma calm_running: "calm w \<Longrightarrow> returns (get_running_names w)"
  unfolding get_running_names_def
proof (intro returns_ask)
  fix tr
  assume "calm w"
  then obtain names where "running_names w tr = Some names" using calm_answers(2) by blast
  then show "returns (case running_names w tr of None \<Rightarrow> raise_error | Some names \<Rightarrow> give names)" by (simp add: returns_primitive)
qed

lemma calm_restart: "calm w \<Longrightarrow> returns (restart_service su w count i t)"
  unfolding restart_service_def confirm_restart_def verify_post_restart_def verify_cascade_consumers_def verify_consumer_def Let_def
  by (intro returns_ask) (auto simp: calm_def intro!: returns_rules calm_polls calm_running split: reply.splits)

lemma calm_dependencies: "calm w \<Longrightarrow> returns (start_dependencies su w structured service)"
  unfolding start_dependencies_def start_dependency_def Let_def
  by (auto simp: calm_def intro!: returns_if returns_after [OF calm_running] returns_each returns_ask returns_primitive split: reply.splits)

lemma calm_issue: "calm w \<Longrightarrow> returns (heal_issue su w deps structured i b)"
  unfolding heal_issue_def Let_def
  by (auto intro!: returns_if returns_after calm_dependencies calm_restart returns_primitive split: prod.splits)

lemma calm_recover:
  assumes "calm w" and "recover_policy (setup_plugins su) (setup_config su) = Inr p" and "project_nodes (setup_config su) = Inr ps"
  shows "returns (maybe_auto_trigger_recover su w issues t)"
proof -
  have "returns (after (audit w vm) (\<lambda>ok. if ok then give x else raise_error))" for vm and x :: heal_result
    unfolding audit_def using assms(1) by (intro returns_ask) (simp add: calm_def returns_primitive)
  then show ?thesis using assms(2,3)
    unfolding maybe_auto_trigger_recover_def recover_node_def run_recovery_def Let_def audit_def
    by (auto intro!: returns_after returns_each returns_primitive split: sum.splits option.splits)
qed

lemma calm_reset: "calm w \<Longrightarrow> returns (reset_healthy w issues)"
proof -
  assume calm: "calm w"
  have "returns (find_healthy w skipped ks healthy)" for skipped ks healthy
  proof (induction ks arbitrary: healthy)
    case (Cons k ks)
    then show ?case unfolding find_healthy.simps inspect_container_def
      by (auto simp: calm_answers [OF calm] intro!: returns_if returns_ask returns_primitive split: prod.splits reply.splits)
  qed (simp add: returns_primitive)
  then show ?thesis unfolding reset_healthy_def by (intro returns_rules)
qed

lemma calm_prune: "calm w \<Longrightarrow> returns (prune_disk w issues)"
  unfolding prune_disk_def by (auto simp: calm_def intro!: returns_if returns_ask returns_primitive)

text \<open>
  C27. A healing accounts for everything it does.  If nothing outside raises and the recovery settings and the placement of
  the projects can be read, then it returns a result, which its own consistency check accepts: the attempts are the
  remedies that were tried, plug-ins, restarts and recoveries, and each is a success or a failure; every fixable issue that no
  plug-in covers was restarted or is counted as deferred.  While another operation holds the lease, nothing is tried
  and every fixable issue is deferred.
\<close>

theorem heal_accounts:
  assumes "calm w" and "recover_policy (setup_plugins su) (setup_config su) = Inr p" and "project_nodes (setup_config su) = Inr ps"
  shows "\<exists>r issues' s' new. heal su w disk issues s = (Some (r, issues'), s') \<and> trace s' = trace s @ new
    \<and> attempted r = succeeded r + failed r \<and> attempted r = remedies new
    \<and> (if inspected_active (inspect (texts su) disk) then new = [] \<and> deferred r = int (length (filter auto_fixable issues))
       else deferred r + restarts new = int (length (filter (restartable (heal_routes su)) issues)))"
proof (cases "inspected_active (inspect (texts su) disk)")
  case True
  then show ?thesis by (simp add: heal_def heal_with_def primitive_runs no_heals_def remedies_def)
next
  case False
  let ?st = "heal_routes su"
  let ?ts = "sort (remdups (map issue_service (filter (\<lambda>i. auto_fixable i \<and> issue_service i \<in> set ?st) issues)))"
  obtain s1 where 1: "prune_disk w issues s = (Some (), s1)" using calm_prune [OF assms(1)] by (rule returnsE) auto
  have "returns (each_step (heal_plugin w) ?ts no_heals)" unfolding heal_plugin_def by (intro returns_rules)
  then obtain t2 s2 where 2: "each_step (heal_plugin w) ?ts no_heals s1 = (Some t2, s2)" by (rule returnsE)
  have "returns (each_step (heal_issue su w True ?st) issues ([], t2))" by (intro returns_each calm_issue assms(1))
  then obtain b s3 where b: "each_step (heal_issue su w True ?st) issues ([], t2) s2 = (Some b, s3)" by (rule returnsE)
  obtain is3 t3 where "b = (is3, t3)" by (cases b)
  with b have 3: "each_step (heal_issue su w True ?st) issues ([], t2) s2 = (Some (is3, t3), s3)" by simp
  obtain t4 s4 where 4: "maybe_auto_trigger_recover su w is3 t3 s3 = (Some t4, s4)" using calm_recover [OF assms] by (rule returnsE)
  obtain s5 where 5: "reset_healthy w is3 s4 = (Some (), s5)" using calm_reset [OF assms(1)] by (rule returnsE) auto
  have "tallied 0 no_heals s t2 s2"
    using silent_trans [OF quiet_tallied [OF keepsD [OF quiet_prune 1]] each_tallied [OF 2 plugin_tallied]] .
  from tallied_trans [OF this issues_tallied [OF 3]]
  have "tallied (int (length (filter (restartable ?st) issues))) no_heals s t3 s3" by simp
  from tallied_trans [OF this silent_trans [OF recover_tallied [OF 4] reset_traced [OF 5]]]
  have "tallied (int (length (filter (restartable ?st) issues))) no_heals s t4 s5" by simp
  then obtain new where new: "trace s5 = trace s @ new" "attempted t4 = remedies new" "succeeded t4 + failed t4 = remedies new"
    "0 \<le> succeeded t4" "0 \<le> failed t4" "0 \<le> deferred t4" "deferred t4 + restarts new = int (length (filter (restartable ?st) issues))"
    by (auto simp: tallied_def no_heals_def)
  then have "new_heal_result t4 = Some t4" by (simp add: new_heal_result_def)
  with 1 2 3 4 5 False have "heal su w disk issues s = (Some (t4, is3), s5)" by (simp add: heal_def heal_with_def Let_def primitive_runs)
  with new False show ?thesis by auto
qed

section \<open>Webhooks\<close>

text \<open>
  C30. A webhook never heals.  The handler holds the operation lease while it asks the watchdog to heal, and the watchdog
  defers to whoever holds the lease: whatever was observed and whatever the outside answers, no remedy is tried, the
  only thing done is to read the clock when the memory is loaded, and the request ends neither healed nor failed.
\<close>

theorem webhook_never_heals:
  assumes "webhook_heal su w managed observed actor service cancelled root handle inode i pid at disk s = (e, disk', s')"
  shows "e \<noteq> Webhook_succeeded \<and> e \<noteq> Webhook_failed
    \<and> (\<exists>new. trace s' = trace s @ new \<and> (\<forall>ev \<in> set new. \<exists>t. ev = Clock t))"
proof -
  have load: "\<exists>new. trace t' = trace t @ new \<and> (\<forall>ev \<in> set new. \<exists>n. ev = Clock n)"
    if "load_restart_state w t = (r, t')" for r t t'
    using that by (auto simp: load_restart_state_def after_def primitive_runs split: option.splits)
  have inner: "e \<noteq> Webhook_succeeded \<and> e \<noteq> Webhook_failed
      \<and> (\<exists>new. trace s' = trace s @ new \<and> (\<forall>ev \<in> set new. \<exists>t. ev = Clock t))"
    if "webhook_inner su w managed observed service d s = (e, s')" and "inspected_active (inspect (texts su) d)" for d e s'
    using that load
    by (auto simp: webhook_inner_def heal_targeted_def heal_with_def no_heals_def primitive_runs Let_def split: if_splits option.splits prod.splits)
  have active: "inspected_active (inspect (texts su) d)"
    if "acquire root ''controller-webhook-heal'' handle inode i pid at disk = (Inr l, d)" for l d
    using that by (auto simp: acquire_def inspect_def Let_def clear_cancel_request_def split: if_splits option.splits)
  show ?thesis
    using assms inner active by (auto simp: webhook_heal_def split: if_splits prod.splits sum.splits)
qed

end
