(* ===== verification/Watchdog_Alerts.thy ===== *)
theory Watchdog_Alerts
  imports Watchdog_Budget
begin

text \<open>When the watchdog pages, and when it recovers a machine.\<close>

section \<open>Pages\<close>

abbreviation notified :: "watch_setup \<Rightarrow> watchdog \<Rightarrow> health_issue \<Rightarrow> notify_record option" where
  "notified su s i \<equiv> map_of (notify_state (memory s)) (issue_key (sha256 su) i)"

lemma notify_issue_cases:
  assumes "notify_issue su w now i b s = (r, s')"
  obtains (suppressed) "suppressed now i (notified su s i)" and "s' = s"
    | (paged) a where "\<not> suppressed now i (notified su s i)" and "trace s' = trace s @ [Page i a]"
        and "\<And>j. issue_key (sha256 su) j \<noteq> issue_key (sha256 su) i \<Longrightarrow> notified su s' j = notified su s j"
        and "a = Some True \<Longrightarrow> \<exists>rec. notified su s' i = Some rec \<and> last_notified_ts rec = now \<and> notified_severity rec = issue_severity i"
proof (cases "suppressed now i (notified su s i)")
  case True
  with assms suppressed show thesis by (auto simp: notify_issue_def Let_def after_def primitive_runs split: prod.splits)
next
  case False
  let ?a = "page_reply w (trace s) i"
  show thesis
  proof (rule paged [of ?a])
    show "\<not> suppressed now i (notified su s i)" by (rule False)
  qed (use assms False in \<open>auto simp: notify_issue_def Let_def after_def primitive_runs map_of_dict_set split: prod.splits option.splits bool.splits\<close>)
qed

lemma notify_issues:
  assumes "each_step (notify_issue su w now) xs b s = (r, s')" and "distinct (map (issue_key (sha256 su)) xs)"
  shows "\<exists>new. trace s' = trace s @ new
    \<and> (\<forall>i a. Page i a \<in> set new \<longrightarrow> i \<in> set xs \<and> \<not> suppressed now i (notified su s i)
         \<and> (a = Some True \<longrightarrow> (\<exists>rec. notified su s' i = Some rec \<and> last_notified_ts rec = now \<and> notified_severity rec = issue_severity i)))
    \<and> (\<forall>j. issue_key (sha256 su) j \<notin> issue_key (sha256 su) ` set xs \<longrightarrow> notified su s' j = notified su s j)"
  using assms
proof (induction xs arbitrary: b s)
  case Nil
  then show ?case by (simp add: primitive_runs)
next
  case (Cons x xs)
  let ?key = "issue_key (sha256 su)"
  have fresh: "?key x \<notin> ?key ` set xs" and d: "distinct (map ?key xs)" using Cons.prems(2) by auto
  obtain q t where q: "notify_issue su w now x b s = (q, t)" by (cases "notify_issue su w now x b s")
  obtain n1 where n1: "trace t = trace s @ n1"
    and pages: "\<And>i a. Page i a \<in> set n1 \<Longrightarrow> i = x \<and> \<not> suppressed now x (notified su s x)
      \<and> (a = Some True \<longrightarrow> (\<exists>rec. notified su t x = Some rec \<and> last_notified_ts rec = now \<and> notified_severity rec = issue_severity x))"
    and others: "\<And>j. ?key j \<noteq> ?key x \<Longrightarrow> notified su t j = notified su s j"
    using q
  proof (cases rule: notify_issue_cases)
    case suppressed
    then show ?thesis using that [of "[]"] by simp
  next
    case (paged a)
    then show ?thesis using that [of "[Page x a]"] by auto
  qed
  show ?case
  proof (cases q)
    case None
    with Cons.prems(1) q have "s' = t" by (simp add: after_def)
    with n1 pages others show ?thesis by auto
  next
    case (Some c)
    with Cons.prems(1) q have "each_step (notify_issue su w now) xs c t = (r, s')" by (simp add: after_def)
    from Cons.IH [OF this d] obtain n2 where n2: "trace s' = trace t @ n2"
      and pages2: "\<And>i a. Page i a \<in> set n2 \<Longrightarrow> i \<in> set xs \<and> \<not> suppressed now i (notified su t i)
        \<and> (a = Some True \<longrightarrow> (\<exists>rec. notified su s' i = Some rec \<and> last_notified_ts rec = now \<and> notified_severity rec = issue_severity i))"
      and others2: "\<And>j. ?key j \<notin> ?key ` set xs \<Longrightarrow> notified su s' j = notified su t j" by blast
    have "notified su t i = notified su s i" if "i \<in> set xs" for i using others fresh that by (metis image_eqI)
    moreover have "notified su s' x = notified su t x" using others2 fresh by blast
    ultimately have "i \<in> set (x # xs) \<and> \<not> suppressed now i (notified su s i)
        \<and> (a = Some True \<longrightarrow> (\<exists>rec. notified su s' i = Some rec \<and> last_notified_ts rec = now \<and> notified_severity rec = issue_severity i))"
      if "Page i a \<in> set (n1 @ n2)" for i a using that pages [of i a] pages2 [of i a] by auto
    moreover have "notified su s' j = notified su s j" if "?key j \<notin> ?key ` set (x # xs)" for j using that others others2 by auto
    ultimately show ?thesis using n1 n2 by (intro exI [of _ "n1 @ n2"]) auto
  qed
qed


section \<open>Recoveries\<close>

fun is_recovery :: "event \<Rightarrow> bool" where
  "is_recovery (Recover vm r) = True"
| "is_recovery e = False"

text \<open>Steps that recover no machine.\<close>

definition mild :: "watchdog \<Rightarrow> watchdog \<Rightarrow> bool" where
  "mild s s' \<longleftrightarrow> last_auto_recover_at (memory s') = last_auto_recover_at (memory s)
     \<and> (\<exists>new. trace s' = trace s @ new \<and> (\<forall>e \<in> set new. \<not> is_recovery e))"

interpretation mild: step_preorder mild
proof
  fix s t u
  assume "mild s t" "mild t u"
  then obtain n1 n2 where "last_auto_recover_at (memory t) = last_auto_recover_at (memory s)" "trace t = trace s @ n1"
    "\<forall>e \<in> set n1. \<not> is_recovery e" "last_auto_recover_at (memory u) = last_auto_recover_at (memory t)" "trace u = trace t @ n2"
    "\<forall>e \<in> set n2. \<not> is_recovery e" by (auto simp: mild_def)
  then show "mild s u" by (auto simp: mild_def intro!: exI [of _ "n1 @ n2"])
qed (simp add: mild_def)

lemma quiet_mild: "quiet s s' \<Longrightarrow> mild s s'"
proof -
  have "is_remedy e" if "is_recovery e" for e using that by (cases e) auto
  then show "quiet s s' \<Longrightarrow> mild s s'" by (auto simp: quiet_def mild_def)
qed

lemma mild_ask: "(\<And>a. \<not> is_recovery (e a)) \<Longrightarrow> keeps mild (ask f e)"
  by (auto simp: keeps_def mild_def primitive_runs)

lemma mild_remember: "(\<And>m. last_auto_recover_at (g m) = last_auto_recover_at m) \<Longrightarrow> keeps mild (remember g)"
  by (auto simp: keeps_def mild_def primitive_runs)

lemmas quiet_steps = quiet_prune quiet_confirm quiet_dependencies quiet_find quiet_save
lemmas mild_rules = mild.keeps_combinators keeps_if mild_ask mild_remember quiet_steps [THEN keeps_mono, OF quiet_mild]

lemma mild_plugins: "keeps mild (each_step (heal_plugin w) ts t)"
  unfolding heal_plugin_def by (intro mild_rules) simp

lemma mild_issues: "keeps mild (each_step (heal_issue su w deps structured) issues b)"
  unfolding heal_issue_def restart_service_def Let_def
  by (intro mild.keeps_each) (auto intro!: mild_rules split: prod.splits reply.splits)

lemma mild_reset: "keeps mild (reset_healthy w issues)"
  unfolding reset_healthy_def by (intro mild_rules) simp_all

text \<open>Recoveries of the machines \<open>V\<close> at the instant \<open>now\<close>.\<close>

definition recovering :: "int \<Rightarrow> string set \<Rightarrow> watchdog \<Rightarrow> watchdog \<Rightarrow> bool" where
  "recovering now V s s' \<longleftrightarrow>
     (\<exists>new. trace s' = trace s @ new
        \<and> (\<forall>vm x. Recover vm x \<in> set new \<longrightarrow> vm \<in> V \<and> map_of (last_auto_recover_at (memory s')) vm = Some now))
     \<and> (\<forall>vm. map_of (last_auto_recover_at (memory s)) vm = Some now \<longrightarrow> map_of (last_auto_recover_at (memory s')) vm = Some now)"

interpretation recovering: step_preorder "recovering now V" for now V
proof
  fix s t u
  assume "recovering now V s t" "recovering now V t u"
  then obtain n1 n2 where "trace t = trace s @ n1" "trace u = trace t @ n2"
    "\<forall>vm x. Recover vm x \<in> set n1 \<longrightarrow> vm \<in> V \<and> map_of (last_auto_recover_at (memory t)) vm = Some now"
    "\<forall>vm x. Recover vm x \<in> set n2 \<longrightarrow> vm \<in> V \<and> map_of (last_auto_recover_at (memory u)) vm = Some now"
    "\<forall>vm. map_of (last_auto_recover_at (memory s)) vm = Some now \<longrightarrow> map_of (last_auto_recover_at (memory t)) vm = Some now"
    "\<forall>vm. map_of (last_auto_recover_at (memory t)) vm = Some now \<longrightarrow> map_of (last_auto_recover_at (memory u)) vm = Some now"
    by (auto simp: recovering_def)
  then show "recovering now V s u" unfolding recovering_def by (auto intro!: exI [of _ "n1 @ n2"])
qed (simp add: recovering_def)

lemma mild_recovering: "mild s s' \<Longrightarrow> recovering now V s s'"
  unfolding mild_def recovering_def by (metis is_recovery.simps(1))

lemma recover_node_recovering:
  assumes "vm \<in> V"
  shows "keeps (recovering now V) (recover_node w now vm t)"
proof (rule keepsI)
  fix s :: watchdog
  let ?u = "s\<lparr>memory := (memory s)\<lparr>last_auto_recover_at := dict_set vm now (last_auto_recover_at (memory s))\<rparr>\<rparr>"
  obtain r s' where run: "after (save_restart_state w) (\<lambda>_. run_recovery w vm (t\<lparr>attempted := attempted t + 1\<rparr>)) ?u = (r, s')"
    by (metis surj_pair)
  have "\<exists>new. trace s' = trace s @ new \<and> (\<forall>n x. Recover n x \<in> set new \<longrightarrow> n = vm) \<and> memory s' = memory ?u"
    using run by (cases rule: afterE)
      (auto simp: save_restart_state_def run_recovery_def Let_def audit_def after_def primitive_runs split: option.splits if_splits)
  then obtain new where "trace s' = trace s @ new" "\<And>n x. Recover n x \<in> set new \<Longrightarrow> n = vm" "memory s' = memory ?u" by blast
  moreover from this(2) have "Recover n x \<in> set new \<Longrightarrow> n \<in> V" for n x using assms by blast
  ultimately have "recovering now V s s'" unfolding recovering_def by (auto simp: map_of_dict_set)
  with run show "recovering now V s (snd (recover_node w now vm t s))"
    by (simp add: recover_node_def after_def [of "remember _"] primitive_runs)
qed

text \<open>A machine that the policy recovers: enough services fail on it, and its cooldown is over.\<close>

lemma decision_triggers:
  assumes "triggers (node_decision p latest now signals)"
  shows "recover_enabled p \<and> (\<forall>t. latest = Some t \<longrightarrow> seconds (cooldown_seconds p) \<le> now - t)
    \<and> (\<exists>S \<subseteq> signal_service ` set signals. min (terminal_threshold p) (multi_failure_min p) \<le> int (card S))"
proof -
  let ?critical = "map signal_service (filter (\<lambda>g. signal_severity g = ''critical'') signals)"
  let ?exhausted = "map signal_service (filter (\<lambda>g. signal_terminal g \<or> signal_restarts g \<ge> restart_budget p) signals)"
  from assms have guard: "recover_enabled p \<and> (\<forall>t. latest = Some t \<longrightarrow> seconds (cooldown_seconds p) \<le> now - t)"
    and "terminal_threshold p \<le> int (length (remdups ?exhausted)) \<or> multi_failure_min p \<le> int (length (remdups ?critical))"
    by (auto simp: node_decision_def Let_def split: if_splits option.splits)
  then consider "terminal_threshold p \<le> int (card (set ?exhausted))" | "multi_failure_min p \<le> int (card (set ?critical))"
    unfolding length_remdups_card_conv by blast
  then have "\<exists>S \<subseteq> signal_service ` set signals. min (terminal_threshold p) (multi_failure_min p) \<le> int (card S)"
  proof cases
    case 1
    then show ?thesis by (intro exI [of _ "set ?exhausted"]) auto
  next
    case 2
    then show ?thesis by (intro exI [of _ "set ?critical"]) auto
  qed
  with guard show ?thesis by blast
qed

lemma group_signals_services:
  assumes "map_of (group_signals nodes signals) vm = Some gs"
  shows "set gs \<subseteq> {g \<in> set signals. map_of nodes (signal_service g) = Some vm}"
proof -
  have "map_of (fold (\<lambda>g grouped.
       case map_of nodes (signal_service g) of
         None \<Rightarrow> grouped
       | Some vm \<Rightarrow> if vm = [] then grouped
                    else dict_set vm ((case map_of grouped vm of None \<Rightarrow> [] | Some gs \<Rightarrow> gs) @ [g]) grouped) xs grouped) vm = Some gs
     \<Longrightarrow> set gs \<subseteq> {g \<in> set xs. map_of nodes (signal_service g) = Some vm} \<union> (case map_of grouped vm of None \<Rightarrow> {} | Some hs \<Rightarrow> set hs)"
    for xs grouped
  proof (induction xs arbitrary: grouped)
    case (Cons x xs)
    from Cons.IH [OF Cons.prems [simplified]] show ?case
      by (auto simp: map_of_dict_set split: option.splits if_splits)
  qed simp
  from this [of signals "[]"] assms show ?thesis by (simp add: group_signals_def)
qed

text \<open>The services of the report that are placed on a machine.\<close>

definition failing_on :: "watch_setup \<Rightarrow> health_issue list \<Rightarrow> string \<Rightarrow> string set" where
  "failing_on su issues vm =
     (case (service_node_map (setup_plugins su) (setup_config su) (catalog (setup_plugins su)), project_nodes (setup_config su)) of
        (Inr services, Inr ps) \<Rightarrow>
          {n \<in> issue_service ` set issues. map_of (fold (\<lambda>(k, n). dict_set k n) ps services) n = Some vm}
      | _ \<Rightarrow> {})"

definition recovery_due :: "watch_setup \<Rightarrow> health_issue list \<Rightarrow> int \<Rightarrow> int option \<Rightarrow> string \<Rightarrow> bool" where
  "recovery_due su issues now latest vm \<longleftrightarrow>
     (\<exists>p. recover_policy (setup_plugins su) (setup_config su) = Inr p \<and> recover_enabled p
        \<and> (\<forall>l. latest = Some l \<longrightarrow> seconds (cooldown_seconds p) \<le> now - l)
        \<and> (\<exists>S \<subseteq> failing_on su issues vm. min (terminal_threshold p) (multi_failure_min p) \<le> int (card S)))"

lemma auto_recover_guarded:
  assumes "maybe_auto_trigger_recover su w issues t s = (r, s')"
  shows "\<exists>new. trace s' = trace s @ new \<and> (\<forall>vm x. Recover vm x \<in> set new \<longrightarrow>
      recovery_due su issues (clock w (trace s)) (map_of (last_auto_recover_at (memory s)) vm) vm
      \<and> map_of (last_auto_recover_at (memory s')) vm = Some (clock w (trace s)))"
proof -
  let ?now = "clock w (trace s)"
  let ?u = "s\<lparr>trace := trace s @ [Clock ?now]\<rparr>"
  show ?thesis
  proof (cases "\<exists>p services ps. recover_policy (setup_plugins su) (setup_config su) = Inr p
      \<and> service_node_map (setup_plugins su) (setup_config su) (catalog (setup_plugins su)) = Inr services
      \<and> project_nodes (setup_config su) = Inr ps")
    case False
    with assms have "s' = ?u" by (auto simp: maybe_auto_trigger_recover_def after_def primitive_runs split: sum.splits)
    then show ?thesis by simp
  next
    case True
    then obtain p services ps where ok: "recover_policy (setup_plugins su) (setup_config su) = Inr p"
      "service_node_map (setup_plugins su) (setup_config su) (catalog (setup_plugins su)) = Inr services"
      "project_nodes (setup_config su) = Inr ps" by blast
    let ?nodes = "fold (\<lambda>(k, n). dict_set k n) ps services"
    let ?ds = "recover_decisions p (last_auto_recover_at (memory s)) ?now ?nodes (issue_signals (memory s) issues)"
    let ?vms = "map fst (filter (\<lambda>(vm, d). triggers d) ?ds)"
    from assms ok have run: "each_step (recover_node w ?now) ?vms t ?u = (r, s')"
      by (simp add: maybe_auto_trigger_recover_def after_def primitive_runs)
    have "keeps (recovering ?now (set ?vms)) (each_step (recover_node w ?now) ?vms t)"
      by (intro recovering.keeps_each recover_node_recovering)
    from keepsD [OF this run] obtain new where new: "trace s' = trace ?u @ new"
      and vms: "\<And>vm x. Recover vm x \<in> set new \<Longrightarrow> vm \<in> set ?vms \<and> map_of (last_auto_recover_at (memory s')) vm = Some ?now"
      unfolding recovering_def by blast
    have chosen: "recover_enabled p \<and> (\<forall>l. map_of (last_auto_recover_at (memory s)) vm = Some l \<longrightarrow> seconds (cooldown_seconds p) \<le> ?now - l)
        \<and> (\<exists>S \<subseteq> failing_on su issues vm. min (terminal_threshold p) (multi_failure_min p) \<le> int (card S))" if "vm \<in> set ?vms" for vm
    proof -
      let ?grouped = "group_signals ?nodes (issue_signals (memory s) issues)"
      from that have vm: "vm \<in> fst ` set ?grouped" by (force simp: recover_decisions_def Let_def)
      from that have trigger: "triggers (node_decision p (map_of (last_auto_recover_at (memory s)) vm) ?now (the (map_of ?grouped vm)))"
        by (auto simp: recover_decisions_def Let_def)
      from vm obtain gs where gs: "map_of ?grouped vm = Some gs" by (metis map_of_eq_None_iff not_Some_eq)
      from group_signals_services [OF gs] have "signal_service ` set gs \<subseteq> failing_on su issues vm"
        using ok by (auto simp: failing_on_def issue_signals_def)
      moreover from decision_triggers [OF trigger] gs obtain S where "S \<subseteq> signal_service ` set gs"
        "min (terminal_threshold p) (multi_failure_min p) \<le> int (card S)" by auto
      ultimately have "\<exists>S \<subseteq> failing_on su issues vm. min (terminal_threshold p) (multi_failure_min p) \<le> int (card S)"
        by (meson subset_trans)
      with decision_triggers [OF trigger] show ?thesis by blast
    qed
    show ?thesis
    proof (intro exI [of _ "Clock ?now # new"] conjI allI impI)
      fix vm x
      assume "Recover vm x \<in> set (Clock ?now # new)"
      then have r: "Recover vm x \<in> set new" by simp
      show "recovery_due su issues ?now (map_of (last_auto_recover_at (memory s)) vm) vm"
        unfolding recovery_due_def using ok(1) chosen [OF conjunct1 [OF vms [OF r]]] by blast
      show "map_of (last_auto_recover_at (memory s')) vm = Some ?now" using vms [OF r] by blast
    qed (simp add: new)
  qed
qed

lemma mild_extends: "mild s t \<Longrightarrow> \<exists>new. trace t = trace s @ new \<and> (\<forall>vm x. Recover vm x \<notin> set new)"
  unfolding mild_def by (metis is_recovery.simps(1))

text \<open>
  C28. A healing recovers a machine only with good reason.  Whatever happens outside, a recovery is started only if
  automatic recovery is enabled, at an instant at which the cooldown since the last recovery of that machine is over, and
  only if as many different services of the report are placed on that machine as the smaller of the two thresholds
  demands; the instant is then remembered, so that the next cooldown starts there.
\<close>

theorem recoveries_guarded:
  assumes "heal su w disk issues s = (r, s')" and "trace s' = trace s @ new" and "Recover vm answer \<in> set new"
  shows "\<exists>p now. recover_policy (setup_plugins su) (setup_config su) = Inr p \<and> recover_enabled p
    \<and> (\<forall>l. map_of (last_auto_recover_at (memory s)) vm = Some l \<longrightarrow> seconds (cooldown_seconds p) \<le> now - l)
    \<and> (\<exists>S \<subseteq> failing_on su issues vm. min (terminal_threshold p) (multi_failure_min p) \<le> int (card S))
    \<and> map_of (last_auto_recover_at (memory s')) vm = Some now"
proof -
  let ?st = "heal_routes su"
  let ?ts = "sort (remdups (map issue_service (filter (\<lambda>i. auto_fixable i \<and> issue_service i \<in> set ?st) issues)))"
  have not_mild: "\<not> mild s s'" using mild_extends [of s s'] assms(2,3) by auto
  have "\<not> inspected_active (inspect (texts su) disk)"
    using assms(1) not_mild mild.related_refl by (auto simp: heal_def heal_with_def primitive_runs)
  with assms(1) have "after (after (prune_disk w issues) (\<lambda>_. after (each_step (heal_plugin w) ?ts no_heals) (\<lambda>t.
      each_step (heal_issue su w True ?st) issues ([], t)))) (\<lambda>(issues, t).
      after (maybe_auto_trigger_recover su w issues t) (\<lambda>t.
      after (reset_healthy w issues) (\<lambda>_. case new_heal_result t of None \<Rightarrow> raise_error | Some r \<Rightarrow> give (r, issues)))) s = (r, s')"
    by (simp add: heal_def heal_with_def Let_def after_assoc)
  then show ?thesis
  proof (cases rule: afterE)
    case stop
    have "mild s s'" using stop(1) by (rule keepsD [rotated]) (intro mild_plugins mild_issues mild_rules)
    with not_mild show ?thesis by blast
  next
    case (go b u)
    obtain ys t where b: "b = (ys, t)" by (cases b)
    have u: "mild s u" using go(1) by (rule keepsD [rotated]) (intro mild_plugins mild_issues mild_rules)
    from go(1) b obtain t0 s0 where "each_step (heal_issue su w True ?st) issues ([], t0) s0 = (Some (ys, t), u)"
      by (auto elim!: afterE)
    note keep = heal_issues_keep(2) [OF this]
    have services: "failing_on su ys = failing_on su issues" unfolding failing_on_def keep by (rule refl)
    obtain q v where q: "maybe_auto_trigger_recover su w ys t u = (q, v)" by (metis surj_pair)
    have rest: "keeps mild (after (reset_healthy w ys) (\<lambda>_. case new_heal_result t of None \<Rightarrow> raise_error | Some r \<Rightarrow> give (r, ys)))" for t
      by (auto intro!: mild.keeps_combinators mild_reset split: option.splits)
    from go(2) b q have "mild v s'" by (cases q) (auto intro: mild.related_refl keepsD [OF rest] simp: after_def [of "maybe_auto_trigger_recover _ _ _ _"])
    then obtain n3 where n3: "trace s' = trace v @ n3" "\<And>vm x. Recover vm x \<notin> set n3"
      and last: "last_auto_recover_at (memory s') = last_auto_recover_at (memory v)" using mild_extends mild_def by blast
    obtain n1 where n1: "trace u = trace s @ n1" "\<And>vm x. Recover vm x \<notin> set n1" using mild_extends [OF u] by blast
    have before: "last_auto_recover_at (memory u) = last_auto_recover_at (memory s)" using u by (simp add: mild_def)
    from auto_recover_guarded [OF q] obtain n2 where n2: "trace v = trace u @ n2"
      and guarded: "\<And>vm x. Recover vm x \<in> set n2 \<Longrightarrow> recovery_due su ys (clock w (trace u)) (map_of (last_auto_recover_at (memory u)) vm) vm
        \<and> map_of (last_auto_recover_at (memory v)) vm = Some (clock w (trace u))" by blast
    from assms(2) n1(1) n2 n3(1) have "new = n1 @ n2 @ n3" by simp
    with assms(3) n1(2) n3(2) have "Recover vm answer \<in> set n2" by auto
    from guarded [OF this] have "recovery_due su issues (clock w (trace u)) (map_of (last_auto_recover_at (memory s)) vm) vm"
      and "map_of (last_auto_recover_at (memory s')) vm = Some (clock w (trace u))" unfolding before last recovery_due_def services by blast+
    then show ?thesis unfolding recovery_due_def by blast
  qed
qed

end
