(* ===== verification/Watchdog_Samples.thy ===== *)
theory Watchdog_Samples
  imports Watchdog_Properties Watchdog_Alerts
begin

text \<open>
  A machine with three services, an outside that answers, and the theorems at work on them; and a container whose restarts
  time out.
\<close>

section \<open>A machine and its services\<close>

definition plain_setting :: "string \<Rightarrow> setting_type \<Rightarrow> pyval \<Rightarrow> service_setting" where
  "plain_setting key type preset =
     \<lparr>set_key = key, set_type = type, set_default = preset, set_minimum = None, set_maximum = None, set_choices = [], set_setup = False\<rparr>"

definition plain_service :: "string \<Rightarrow> service_setting list \<Rightarrow> service_manifest" where
  "plain_service name ss =
     \<lparr>manifest_name = name, manifest_label = name, category = ''base'', placement = ''apps'', priority = 1, manifest_depends_on = [],
      runtimes = [], routes = [], settings = ss, enabled_when = [], endpoint = None\<rparr>"

definition watched_catalog :: "service_manifest list" where
  "watched_catalog =
     [plain_service ''homelab-ui''
        [plain_setting ''auto-recover'' Boolean_setting (PBool True), plain_setting ''recover-cooldown-minutes'' Number_setting (PInt 60),
         plain_setting ''recover-terminal-threshold'' Number_setting (PInt 2), plain_setting ''recover-critical-threshold'' Number_setting (PInt 2)],
      plain_service ''wiki'' [], plain_service ''mail'' []]"

definition watched_config :: config where
  "watched_config =
     \<lparr>machines = [(''core'', \<lparr>enabled = True, address = ''10.0.0.1'', machine_labels = [''control''], machine_gateway = ''10.0.0.254'', machine_cidr = 24, startup_order = 1\<rparr>)],
      category_flags = [], service_settings = [], projects = [], domain = ''example.org'', email = [], expose_via_internet = False,
      network = \<lparr>mesh_ipv4_cidr = ''100.64.0.0/10'', container_ipv4_cidr = ''172.31.0.0/17'', container_network_prefix = 28\<rparr>,
      external_hosts = [], backups_enabled = False, model_fields = []\<rparr>"

definition watched :: watch_setup where
  "watched =
     \<lparr>setup_plugins = \<lparr>categories = [(''base'', True)], catalog = watched_catalog\<rparr>, setup_config = watched_config,
      discovered_safe = [''wiki'', ''mail''], discovered_blocked = [], discovered_deps = [], compose_deps = [], heal_routes = [],
      sha256 = id, texts = \<lparr>float_text = (\<lambda>f. []), other_text = []\<rparr>\<rparr>"

definition broken :: "string \<Rightarrow> health_issue" where
  "broken service =
     \<lparr>issue_service = service, issue_category = ''base'', issue_severity = ''critical'', issue_message = ''unhealthy'', auto_fixable = True,
      diagnosis = [], issue_node = [], terminal = False\<rparr>"

definition free_lock :: lease_disk where
  "free_lock = \<lparr>lock_inode = None, lock_holder = None, lock_text = Lock_empty, cancel_marker = None\<rparr>"

definition new_watchdog :: watchdog where
  "new_watchdog = \<lparr>memory = fresh_memory, stored = None, trace = []\<rparr>"

text \<open>An outside that answers at once; a minute passes with every event.\<close>

definition answering :: world where
  "answering =
     \<lparr>clock = (\<lambda>tr. seconds (60 * int (length tr) + 1)), prune = (\<lambda>tr. True), plugin = (\<lambda>tr t. Plugin_lines), running_names = (\<lambda>tr. Some []),
      start_reply = (\<lambda>tr n. Reply 0), restart_reply = (\<lambda>tr n v. Reply 1), inspect_reply = (\<lambda>tr n v. Reply (0, ''exited'')),
      recover_reply = (\<lambda>tr vm. Some 0), audit_reply = (\<lambda>tr. True), save_reply = (\<lambda>tr. True), page_reply = (\<lambda>tr i. Some True)\<rparr>"

lemma answering_calm: "calm answering"
  by (simp add: calm_def answering_def)

lemma watched_settings:
  "\<exists>p. recover_policy (setup_plugins watched) (setup_config watched) = Inr p" "project_nodes (setup_config watched) = Inr []"
proof -
  have "\<not> isl (recover_policy (setup_plugins watched) (setup_config watched))" by code_simp
  then show "\<exists>p. recover_policy (setup_plugins watched) (setup_config watched) = Inr p"
    by (cases "recover_policy (setup_plugins watched) (setup_config watched)") auto
  show "project_nodes (setup_config watched) = Inr []" by code_simp
qed

text \<open>Five rounds in which a container stays broken: three restarts.\<close>

theorem restart_budget_kept_witness:
  "let s' = snd (watchdog_daemon watched answering (replicate 5 (free_lock, [broken ''wiki''])) new_watchdog)
   in answered ''wiki'' (trace s') = 3 \<and> count_of (memory s') ''wiki'' = 3"
proof -
  let ?rounds = "replicate 5 (free_lock, [broken ''wiki''])"
  let ?run = "watchdog_daemon watched answering ?rounds new_watchdog"
  have fixable: "''wiki'' \<in> fixable_keys [broken ''wiki'']" by (simp add: broken_def container_state_key_def)
  have start: "count_of (memory new_watchdog) ''wiki'' = 0" "trace new_watchdog = []" by (simp_all add: new_watchdog_def fresh_memory_def count_of_def)
  have "\<exists>new. trace (snd ?run) = trace new_watchdog @ new \<and> count_of (memory new_watchdog) ''wiki'' + answered ''wiki'' new \<le> 3
      \<and> count_of (memory (snd ?run)) ''wiki'' = count_of (memory new_watchdog) ''wiki'' + answered ''wiki'' new
      \<and> (count_of (memory new_watchdog) ''wiki'' = 3 \<longrightarrow> tried ''wiki'' new = 0)"
    by (rule restart_budget_kept [of watched answering ?rounds _ "fst ?run"]) (use fixable start in auto)
  moreover have "answered ''wiki'' (trace (snd ?run)) = 3" by code_simp
  ultimately show ?thesis using start by (auto simp: Let_def)
qed

text \<open>A broken container and one whose budget is spent.\<close>

theorem heal_accounts_witness:
  "\<exists>r issues' s' new. heal watched answering free_lock [broken ''wiki'', broken ''mail''] new_watchdog = (Some (r, issues'), s')
     \<and> trace s' = trace new_watchdog @ new \<and> attempted r = succeeded r + failed r \<and> attempted r = remedies new
     \<and> deferred r + restarts new = 2"
proof -
  have "\<not> inspected_active (inspect (texts watched) free_lock)" by code_simp
  moreover have "length (filter (restartable (heal_routes watched)) [broken ''wiki'', broken ''mail'']) = 2" by code_simp
  moreover obtain p where "recover_policy (setup_plugins watched) (setup_config watched) = Inr p" using watched_settings(1) ..
  ultimately show ?thesis
    using heal_accounts [OF answering_calm _ watched_settings(2), of p free_lock "[broken ''wiki'', broken ''mail'']" new_watchdog] by simp
qed

theorem webhook_never_heals_witness:
  "let (e, disk, s') = webhook_heal watched answering [''wiki''] [broken ''wiki''] ''webhook:grafana'' ''wiki'' False ''/srv'' 1 2 ''L'' 7 ''now'' free_lock new_watchdog
   in e = Webhook_deferred \<and> e \<noteq> Webhook_succeeded \<and> tried ''wiki'' (trace s') = 0"
proof -
  let ?run = "webhook_heal watched answering [''wiki''] [broken ''wiki''] ''webhook:grafana'' ''wiki'' False ''/srv'' 1 2 ''L'' 7 ''now'' free_lock new_watchdog"
  obtain e disk s' where run: "?run = (e, disk, s')" by (metis surj_pair)
  have "fst ?run = Webhook_deferred" by code_simp
  with run have "e = Webhook_deferred" by simp
  moreover from webhook_never_heals [OF run] have "tried ''wiki'' (trace s') = 0" "e \<noteq> Webhook_succeeded"
    by (auto simp: tried_def new_watchdog_def filter_empty_conv)
  ultimately show ?thesis using run by simp
qed


text \<open>Two critical services on one machine.\<close>

theorem recoveries_guarded_witness:
  "map_of (last_auto_recover_at (memory (snd (heal watched answering free_lock [broken ''wiki'', broken ''mail''] new_watchdog)))) ''core'' \<noteq> None"
proof -
  let ?run = "heal watched answering free_lock [broken ''wiki'', broken ''mail''] new_watchdog"
  have recovery: "Recover ''core'' (Some 0) \<in> set (trace (snd ?run))" by code_simp
  have "trace (snd ?run) = trace new_watchdog @ trace (snd ?run)" by (simp add: new_watchdog_def)
  from recoveries_guarded [OF prod.collapse [symmetric] this recovery] show ?thesis by auto
qed

section \<open>Restarts that time out\<close>

text \<open>Docker does not answer the restarts in time.\<close>

definition stuck :: world where
  "stuck = answering\<lparr>restart_reply := (\<lambda>tr n v. Missed)\<rparr>"

lemma stuck_policy:
  "recover_policy (setup_plugins watched) (setup_config watched) =
     Inr \<lparr>recover_enabled = True, cooldown_seconds = 3600, terminal_threshold = 2, multi_failure_min = 2, restart_budget = 3\<rparr>"
  "service_node_map (setup_plugins watched) (setup_config watched) (catalog (setup_plugins watched)) =
     Inr [(''homelab-ui'', ''core''), (''wiki'', ''core''), (''mail'', ''core'')]"
  by code_simp+

lemma stuck_round:
  assumes "memory s = fresh_memory"
  shows "\<exists>a b. snd (heal watched stuck free_lock [broken ''wiki''] s) = s\<lparr>trace := trace s @ [Clock a, Restart ''wiki'' [] Missed, Clock b]\<rparr>"
proof -
  let ?i = "broken ''wiki''"
  have quick: "\<not> inspected_active (inspect (texts watched) free_lock)" "heal_routes watched = []" "dependency_links watched = []"
    by code_simp+
  have calm: "filter (\<lambda>(vm, d). triggers d) (recover_decisions
      \<lparr>recover_enabled = True, cooldown_seconds = 3600, terminal_threshold = 2, multi_failure_min = 2, restart_budget = 3\<rparr>
      [] now [(''homelab-ui'', ''core''), (''wiki'', ''core''), (''mail'', ''core'')] (issue_signals fresh_memory [?i])) = []" for now
    by (simp add: recover_decisions_def group_signals_def issue_signals_def broken_def fresh_memory_def count_of_def node_decision_def Let_def)
  show ?thesis using assms
    by (simp add: heal_def heal_with_def quick Let_def prune_disk_def heal_issue_def restart_service_def start_dependencies_def links_of_def
        maybe_auto_trigger_recover_def stuck_policy watched_settings(2) calm [unfolded broken_def fresh_memory_def] reset_healthy_def after_def primitive_runs
        new_heal_result_def no_heals_def broken_def [of "''wiki''"] stuck_def fresh_memory_def count_of_def container_state_key_def) blast
qed


end
