(* ===== verification/Spec2Isabelle.thy ===== *)
theory Spec2Isabelle
  imports Queue_Properties Submission_Properties Grant_Properties Data_Properties Worker_Safety
    Registry_Properties Route_Properties
    Approval_Properties Lease_Interleavings Release_Properties Invite_Properties Update_Properties
    Network_Properties Catalog_Composition Firewall_Properties Compose_Ownership Recovery_Properties Watchdog_Samples
begin

text \<open>
  A verification library of homelab-core, the toolkit that deploys and operates a set of self
  hosted services on one or several machines.

  \<^bold>\<open>The program.\<close>  A controller process keeps its state in one SQLite database: jobs with leases,
  their events, an audit log, plans and approvals for destructive operations, and the credentials
  that let a new client bootstrap itself.  A worker claims jobs, runs their handlers in isolated
  child processes and settles them.  Handlers plan deployments from the desired state (machines,
  projects, settings) and the service manifests: where a service runs, in which order containers
  start, which routes the proxy serves.  A root directory is guarded by a lease file, the release
  in force is recorded in sealed files, and operational proposals wait in an approval queue.

  \<^bold>\<open>Values.\<close>  \<open>Prelude\<close> holds the transaction combinators, lookups and updates of tables and the
  collections of simplification rules.  \<open>Py_Values\<close> are the JSON values of Python with \<open>json.dumps\<close>
  (sorted, compact), \<open>Json_Text\<close> the unsorted compact and indented texts, \<open>Json_Injective\<close> the
  decoding of texts back from JSON, \<open>Py_Documents\<close> ordered dictionaries, text methods and splitting,
  \<open>Python_Regex\<close> a backtracking matcher with the semantics of \<open>re\<close>, \<open>Timestamps\<close> the instants and
  their ISO texts.

  \<^bold>\<open>Controller store\<close> (\<open>toolkit/controller/store.py\<close>, \<open>contracts.py\<close>, \<open>sanitization.py\<close>,
  \<open>payload_protection.py\<close>).  \<open>Contracts\<close>, \<open>Sanitization\<close> and \<open>Payload_Protection\<close> translate the
  modules of these names.  \<open>Controller_Tables\<close> has the tables as lists of records and the helpers on
  them, \<open>Job_Queue\<close> submission, claiming, renewal, transitions and cancellation, \<open>Destroy_Plans\<close> the
  plans and approvals, \<open>Bootstrap_Grants\<close> capabilities and sessions.  A method is an action on the
  store record that returns an error or a value and the store after it; \<open>write_tx\<close> is the rollback
  of a transaction that raises.  Time, random ids and digests are arguments.  \<open>Job_Steps\<close>, \<open>Job_Ops\<close>,
  \<open>Grant_Safety\<close> and \<open>Store_Frames\<close> show what each operation may do to a row (\<open>row_step\<close>, \<open>cap_step\<close>,
  \<open>ses_step\<close>) and what it leaves alone; \<open>Store_Runs\<close> and \<open>Store_Safety\<close> lift this to sequences of
  calls (\<open>run_calls\<close>).  \<open>Queue_Properties\<close>: consistency of every history, fencing of stale leases,
  exclusiveness of live ones, the life of a job, the choice of \<open>claim_next\<close>.  \<open>Submission_Properties\<close>:
  idempotence, single use of approvals, accounting of destroy jobs, atomic batches, limits.
  \<open>Grant_Properties\<close>: single exchange, guess limits, single use of grants.  \<open>Data_Properties\<close>: what is
  persisted is redacted, sealed invitations open only in their context, event pages, timestamps.

  \<^bold>\<open>Controller worker\<close> (\<open>worker.py\<close>).  \<open>Worker\<close> has the registry of handlers, the context handed to a
  handler, the polling of an isolated child and the settlement of a job; a handler is a sequence of
  context calls, a child the messages a poll returns.  \<open>Worker_Safety\<close>: a superseded worker changes
  nothing, a worker that keeps its lease settles its job, polling ends at the deadline.

  \<^bold>\<open>Planning\<close> (\<open>core/registry\<close>, \<open>core/manifest\<close>, \<open>core/projects\<close>, \<open>core/config\<close>).
  \<open>Dependency_Plans\<close> states, as the locale \<open>dependency_plan\<close>, what a plan with dependencies promises:
  it fails only with a stuck remainder, otherwise its steps are ordered.  Its lemmas derive that
  failure and cycles coincide.  \<open>Service_Graph\<close> translates \<open>service_graph.py\<close>, with Kahn's algorithm
  as \<open>layers_from\<close>, and \<open>Stagger_Planner\<close> translates \<open>stagger_planner.py\<close>, with the greedy choice
  \<open>start_order\<close>; both interpret the locale.  \<open>Desired_State\<close> and \<open>Route_Schema\<close> hold the parts of the
  configuration and of the manifest schema that planning reads, with their validators;
  \<open>Placement\<close> and \<open>Routes\<close> translate placement, predicates, settings and route compilation.
  \<open>Registry_Properties\<close> and \<open>Route_Properties\<close>: layers and waves respect dependencies and fail exactly
  on cycles, selectors resolve as documented, compiled routes are confined and authenticated.

  \<^bold>\<open>Manifests and the catalog\<close> (\<open>core/manifest/schema.py\<close>, \<open>variables.py\<close>, \<open>catalog.py\<close>,
  \<open>core/compose/registry.py\<close>).  \<open>Manifest_Schema\<close>, \<open>Manifest_Templates\<close> and \<open>Service_Manifest\<close> have every
  section of a manifest as a record with its validators; \<open>full_manifest\<close> extends the record that
  planning reads, and \<open>planning_view\<close> goes back.  \<open>Url_Split\<close> is \<open>urlsplit\<close>.  \<open>Manifest_Variables\<close> compiles
  the environment of a machine.  \<open>Dependency_Search\<close> is the depth-first search with its cycle report,
  which the category registry and the catalog share, and meets the contract \<open>dependency_plan\<close>.
  \<open>Service_Catalog\<close> is \<open>_validate_catalog\<close>, the checks across manifests in the order of the code.
  \<open>Catalog_Properties\<close>: accepted resources have one owner, services and host integrations have an
  order, the route checks are exact.  \<open>Catalog_Composition\<close>: what the variables compile to for an accepted
  catalog, reported cycles are real, and one gap of the checks.  \<open>Catalog_Samples\<close> is a small catalog.

  \<^bold>\<open>Networks\<close> (\<open>core/config/config.py\<close>, \<open>core/infra/edge_network.py\<close>, \<open>core/registry/mesh.py\<close>,
  \<open>core/generate/compose_assemble.py\<close>).  \<open>Ipv4\<close> has addresses as 32-bit words, \<open>Network_Plan\<close> the
  validators, the edge and collector networks and the allocation of bridges.  \<open>Network_Properties\<close>:
  bridges are allocated, inside their pool and apart; edge networks are clear of the others, or missing.

  \<^bold>\<open>Firewall\<close> (\<open>core/manifest/networking.py\<close>, \<open>core/manifest/monitoring.py\<close>, \<open>core/infra/network_policy.py\<close>).
  \<open>Network_Listeners\<close> resolves the listeners and scrape targets of the manifests, \<open>Firewall_Policy\<close> the ingress
  rules of the machines.  \<open>Firewall_Properties\<close>: nothing is open to the internet that is not published, and
  every address that the environments of the services hold can be reached.

  \<^bold>\<open>Compose models\<close> (\<open>core/projects\<close>, \<open>core/generate/compose_assemble.py\<close>).  \<open>Project_Compose\<close> renders the
  projects, \<open>Compose_Assembly\<close> merges sections and links the services of related plugins by networks,
  \<open>Compose_Models\<close> assembles the model of the installation and cuts out the model of a machine.
  \<open>Compose_Properties\<close>: the model of a machine is closed; which projects share a database.
  \<open>Compose_Networks\<close>: networks follow the declared relations, as the relation \<open>gains\<close> between the services before
  and after; two relations may share a name.  \<open>Compose_Ownership\<close>: every resource has one source.

  \<^bold>\<open>Operations\<close> (\<open>core/ops\<close>, \<open>core/deploy\<close>).  \<open>Approvals\<close> translates \<open>ops/approvals\<close>; \<open>Approval_Safety\<close>
  states the life cycle as the step relation \<open>queue_step\<close> and the locale \<open>approval_change\<close> of
  mutations that follow it, interpreted on the four mutations; \<open>Approval_Properties\<close> shows the
  refinement, histories, restarts, and the queue that locks itself out.  \<open>Operation_Lease\<close> translates
  \<open>deploy/operation_lease.py\<close> and \<open>Lease_Interleavings\<close> interleaves its effects between processes:
  exclusion holds, two races remain.  \<open>Release_State\<close> translates \<open>ops/release_state.py\<close>;
  \<open>Release_Properties\<close> shows the round trips and that a revision determines its release.
  \<open>Release_Slots\<close> states as the locale \<open>release_slot\<close> what the three files have in common (what was
  written is read back, the others are left alone) and interprets it three times.

  \<^bold>\<open>Updates\<close> (\<open>ops/version_policy.py\<close>, \<open>images/references.py\<close>, \<open>ops/update_plan.py\<close>,
  \<open>ops/release_update.py\<close>, \<open>_update_handler\<close> of \<open>controller/operations.py\<close>).  \<open>Update_Plans\<close> goes from
  the versions a registry offers to a release, \<open>Update_Operation\<close> is the handler: it prepares a
  release, activates it, restores the old one when the deployment fails, rolls back and recovers.
  \<open>Update_Scope\<close> and \<open>Update_Properties\<close>: updates stay in their version channel, change the selected
  services only, end in one of three recorded outcomes, and can be undone; a stopped update is the
  one that leaves no record.

  \<^bold>\<open>Recovery\<close> (\<open>deploy/deploy_recovery.py\<close>, \<open>verify/models.py\<close>).  \<open>Deploy_Recovery\<close> is the workflow, one definition per
  stage: preflight, custom images, the playbook, hooks and their verification with its retries, container checks.
  A stage changes the table of steps and goes on or ends the run; a cancellation is seen at the polls of the
  lease.  \<open>Recovery_Properties\<close> follows the table through the stages: success is reported exactly when every step
  succeeded, nothing is left running, and the lease is given back.

  \<^bold>\<open>Watchdog\<close> (\<open>ops/watchdog\<close>, \<open>core/watchdog/models.py\<close>, \<open>_webhook_heal_handler\<close> of \<open>controller/operations.py\<close>,
  \<open>cli/watchdog_cmd.py\<close>).  \<open>Watchdog\<close> has the memory and its file, healing, automatic recovery, notifications, the daemon
  and the webhook; what it asks or tells the outside are events of a trace, and the outside answers as any function
  of the trace.  \<open>Watchdog_Budget\<close> states as the locale \<open>step_preorder\<close> how a relation is kept through the steps and
  interprets it for quiet steps and for the restart budget, which no daemon run exceeds;
  \<open>Watchdog_Alerts\<close> for recoveries, which the policy guards, and shows the cooldown of pages;
  \<open>Watchdog_Properties\<close> shows that a healing accounts for all it did, and that a webhook never heals.
  \<open>Watchdog_Samples\<close> has the witnesses, and restarts that time out and are not counted.

  \<^bold>\<open>Invitations\<close> (\<open>identity/invite_token.py\<close>).  \<open>Invites\<close> translates the module, its Redis scripts as
  sequences of the commands they call.  \<open>Invite_Properties\<close>: an invitation is activated once, a newer
  one takes its place, its life from issue to outcome.

  \<^bold>\<open>Parameters.\<close>  SHA-256, HMAC, the AEAD of invitations, decimal texts of floats, ISO parsing and
  random ids are fields of the environments \<open>store_env\<close>, \<open>approval_env\<close>, \<open>release_env\<close>,
  \<open>update_env\<close>, \<open>invite_env\<close>, \<open>recover_env\<close>, \<open>world\<close> or arguments; so are the commands of Redis, with \<open>redis_laws\<close> for what
  they promise, the outcomes of deployments, the hashes of a network name, the decoded Compose files, the check of a bracketed
  host in a URL, the discovered categories and the default configuration.
  What a theorem needs of them is a hypothesis of the theorem: that opening a sealed text with the
  same key, nonce and associated data gives the plain text and with other data fails; that an id has
  not been used.  \<open>Samples\<close> and the witnesses instantiate them with concrete functions.

  \<^bold>\<open>Loops.\<close>  Recursion is structural or has a measure, except \<open>layers_from\<close> and \<open>probe\<close>, which are
  \<^theory_text>\<open>partial_function\<close>s in the option monad and are shown to return, and the
  polling of a child, which runs over the sequence of polls and is shown to end once a poll lies past
  the deadline.  The repetition of a pattern (\<open>star_ends\<close>) unfolds as often as characters remain,
  which is enough as every round consumes one, and so do the searches for placeholders; no other
  definition has a bound.  Integers of Python are \<^typ>\<open>int\<close>; sequence numbers and generations
  are \<^typ>\<open>nat\<close>; instants are microseconds.

  \<^bold>\<open>Not modelled.\<close>  The HTTP interfaces, the command line and the web pages, which carry no state of
  their own; operation handlers other than the update and the webhook, the checks of the watchdog, service plug-ins and
  the drivers of Ansible, Docker, OpenTofu,
  Proxmox, SOPS, LLDAP, DNS and Kopia, whose effects are external; YAML and template processing;
  process creation, signals and threads of the worker; SQLite itself beyond atomic transactions and
  the queries written out; the checks of one manifest against its Compose file; blocks of a Compose file that
  share a part through a YAML alias, and the assembly without a configuration.

  \<^bold>\<open>Next.\<close>  The checks of a manifest against its Compose file, the full deployment, the checks of
  the watchdog and the guards of destructive commands.
\<close>

end
